(* ===== verification/Prelude.thy ===== *)
theory Prelude
  imports Complex_Main "HOL-Library.Char_ord" "HOL-Library.List_Lexorder"
    "HOL-Library.Product_Lexorder" "HOL-Library.AList" "HOL-Library.Multiset"
begin

text \<open>
  Shared vocabulary of the development: the types that stand for Python's values (identifiers,
  instants, dates), results with exceptions, string helpers of the Python standard library on
  ASCII text, and generic lemmas on lists, maps and stable sorting.

  Conventions.
  \<^item> A UUID is its canonical text \<open>str(u)\<close> (a \<open>string\<close>): \<open>str\<close> is injective on UUIDs, so
    equality is kept, and the code sorts and prints UUIDs through \<open>str\<close> only.
  \<^item> An aware UTC \<open>datetime\<close> is its number of microseconds since 1970-01-01T00:00:00+00:00, an
    \<open>int\<close>; a \<open>timedelta\<close> is a number of microseconds; a \<open>date\<close> is a number of days since
    1970-01-01.
  \<^item> Python strings are ASCII here (\<open>char list\<close>), but for a few literals written as UTF-8 bytes; comparison of strings is lexicographic.
\<close>

section \<open>Types and results\<close>

type_synonym uuid = string
type_synonym instant = int
type_synonym day = int

abbreviation usec_per_second :: int where "usec_per_second \<equiv> 1000000"
abbreviation usec_per_day :: int where "usec_per_day \<equiv> 86400000000"

text \<open>The exceptions the modelled code raises on purpose.\<close>

datatype py_exn =
    HTTPException int string
  | ValueError string
  | IntegrityError string
  | TypeError string
  | OtherError string \<comment> \<open>any other exception, by its text\<close>
  | ValidationError \<comment> \<open>a request body pydantic rejects; answered with 422\<close>

text \<open>\<open>'a res\<close>: a value or the exception that was raised instead.\<close>

type_synonym 'a res = "py_exn + 'a"

text \<open>A stored datetime may lack a time zone; the code reads such a value as UTC.\<close>

datatype py_datetime = Aware instant | Naive instant

fun utc_of :: "py_datetime \<Rightarrow> instant" where
  "utc_of (Aware t) = t"
| "utc_of (Naive t) = t"

fun dt_less :: "py_datetime \<Rightarrow> py_datetime \<Rightarrow> bool res" where
  \<comment> \<open>\<open><\<close> of two datetimes\<close>
  "dt_less (Aware a) (Aware b) = Inr (a < b)"
| "dt_less (Naive a) (Naive b) = Inr (a < b)"
| "dt_less _ _ = Inl (TypeError ''can't compare offset-naive and offset-aware datetimes'')"

section \<open>Fact collections\<close>

named_theorems op_defs \<open>definitions of the operations of a component\<close>
named_theorems inv_intros \<open>one preservation lemma per operation and invariant\<close>

section \<open>Lists, options and maps\<close>

definition py_or :: "'a option \<Rightarrow> 'a option \<Rightarrow> 'a option" where
  \<comment> \<open>\<open>a if a is not None else b\<close>\<close>
  "py_or a b = (case a of None \<Rightarrow> b | Some x \<Rightarrow> Some x)"

lemma py_or_simps [simp]: "py_or None b = b" "py_or (Some x) b = Some x" "py_or a None = a"
  by (simp_all add: py_or_def split: option.splits)

lemma map_sum_is_Inr: "map_sum f g x = Inr y \<longleftrightarrow> (\<exists>z. x = Inr z \<and> y = g z)"
  by (cases x) auto

definition default_to :: "'a \<Rightarrow> 'a option \<Rightarrow> 'a" where
  "default_to d a = (case a of None \<Rightarrow> d | Some x \<Rightarrow> x)"

lemma default_to_simps [simp]: "default_to d None = d" "default_to d (Some x) = x"
  by (simp_all add: default_to_def)

text \<open>\<open>list.sort(key=...)\<close> is stable: \<open>sort_key\<close> of the library.\<close>

lemma sort_key_sorted_id: "sorted (map f xs) \<Longrightarrow> sort_key f xs = xs"
  by (simp add: sort_key_id_if_sorted)

lemma filter_sort_key_comm: "filter P (sort_key f xs) = sort_key f (filter P xs)"
  by (rule filter_sort)

lemma length_filter_sum: "length (filter P xs) + length (filter (\<lambda>x. \<not> P x) xs) = length xs"
  by (rule sum_length_filter_compl)

lemma distinct_map_filter: "distinct (map f xs) \<Longrightarrow> distinct (map f (filter P xs))"
  by (rule distinct_map_filter)

lemma find_Some_in_set: "find P xs = Some x \<Longrightarrow> x \<in> set xs \<and> P x"
  by (induction xs) (auto split: if_splits)

lemma find_None_all: "find P xs = None \<longleftrightarrow> (\<forall>x \<in> set xs. \<not> P x)"
  by (induction xs) auto

lemma find_unique:
  assumes "distinct (map f xs)" and "x \<in> set xs"
  shows "find (\<lambda>y. f y = f x) xs = Some x"
  using assms by (induction xs) auto

text \<open>Replacing the row with a given key, deleting it (tables keyed by an identifier).\<close>

definition replace_row :: "('a \<Rightarrow> 'k) \<Rightarrow> 'a \<Rightarrow> 'a list \<Rightarrow> 'a list" where
  "replace_row key r = map (\<lambda>x. if key x = key r then r else x)"

definition delete_row :: "('a \<Rightarrow> 'k) \<Rightarrow> 'k \<Rightarrow> 'a list \<Rightarrow> 'a list" where
  "delete_row key k = filter (\<lambda>x. key x \<noteq> k)"

definition lookup_row :: "('a \<Rightarrow> 'k) \<Rightarrow> 'k \<Rightarrow> 'a list \<Rightarrow> 'a option" where
  "lookup_row key k = find (\<lambda>x. key x = k)"

lemma map_key_replace_row [simp]: "map key (replace_row key r xs) = map key xs"
  by (induction xs) (auto simp: replace_row_def)

lemma set_replace_row:
  "key r \<in> key ` set xs \<Longrightarrow> set (replace_row key r xs) = insert r {x \<in> set xs. key x \<noteq> key r}"
  by (auto simp: replace_row_def)

lemma lookup_row_Some: "lookup_row key k xs = Some r \<Longrightarrow> r \<in> set xs \<and> key r = k"
  by (auto simp: lookup_row_def dest: find_Some_in_set)

lemma lookup_row_None: "lookup_row key k xs = None \<longleftrightarrow> k \<notin> key ` set xs"
  by (auto simp: lookup_row_def find_None_all)

lemma lookup_row_mem: "distinct (map key xs) \<Longrightarrow> r \<in> set xs \<Longrightarrow> lookup_row key (key r) xs = Some r"
  by (simp add: lookup_row_def find_unique)

lemma lookup_replace_row:
  "lookup_row key k (replace_row key r xs) =
     (if k = key r \<and> k \<in> key ` set xs then Some r else lookup_row key k xs)"
  by (induction xs) (auto simp: lookup_row_def replace_row_def)

lemma lookup_delete_row:
  "lookup_row key k (delete_row key k' xs) = (if k = k' then None else lookup_row key k xs)"
  by (induction xs) (auto simp: lookup_row_def delete_row_def)

lemma lookup_append_row:
  "lookup_row key k (xs @ [r]) =
     (case lookup_row key k xs of Some x \<Rightarrow> Some x | None \<Rightarrow> if key r = k then Some r else None)"
  by (induction xs) (auto simp: lookup_row_def)

lemma distinct_delete_row: "distinct (map key xs) \<Longrightarrow> distinct (map key (delete_row key k xs))"
  by (simp add: delete_row_def Prelude.distinct_map_filter)

section \<open>Strings\<close>

definition is_space :: "char \<Rightarrow> bool" where
  \<comment> \<open>the ASCII whitespace of \<open>str.strip()\<close> and \<open>str.split()\<close>\<close>
  "is_space c \<longleftrightarrow> of_char c \<in> {9, 10, 11, 12, 13, 28, 29, 30, 31, 32 :: nat}"

definition lstrip :: "string \<Rightarrow> string" where "lstrip s = dropWhile is_space s"
definition rstrip_by :: "(char \<Rightarrow> bool) \<Rightarrow> string \<Rightarrow> string" where
  "rstrip_by p s = rev (dropWhile p (rev s))"
definition strip :: "string \<Rightarrow> string" where "strip s = rstrip_by is_space (lstrip s)"

definition lower_char :: "char \<Rightarrow> char" where
  "lower_char c = (let n = of_char c :: nat in if 65 \<le> n \<and> n \<le> 90 then char_of (n + 32) else c)"
definition upper_char :: "char \<Rightarrow> char" where
  "upper_char c = (let n = of_char c :: nat in if 97 \<le> n \<and> n \<le> 122 then char_of (n - 32) else c)"
definition lower :: "string \<Rightarrow> string" where "lower s = map lower_char s"
definition upper :: "string \<Rightarrow> string" where "upper s = map upper_char s"

fun starts_with :: "string \<Rightarrow> string \<Rightarrow> bool" where
  "starts_with s [] = True"
| "starts_with [] (p # ps) = False"
| "starts_with (c # s) (p # ps) = (c = p \<and> starts_with s ps)"

fun contains :: "string \<Rightarrow> string \<Rightarrow> bool" where
  \<comment> \<open>\<open>needle in haystack\<close>\<close>
  "contains [] p = (p = [])"
| "contains (c # s) p = (starts_with (c # s) p \<or> contains s p)"

fun replace_all :: "string \<Rightarrow> string \<Rightarrow> string \<Rightarrow> string" where
  \<comment> \<open>\<open>s.replace(old, new)\<close> for a non-empty \<open>old\<close>\<close>
  "replace_all old new [] = []"
| "replace_all old new (c # s) =
     (if old \<noteq> [] \<and> starts_with (c # s) old then new @ replace_all old new (drop (length old - 1) s)
      else c # replace_all old new s)"

lemma replace_all_absent: "\<not> contains s old \<Longrightarrow> replace_all old new s = s"
  by (induction s) auto

definition ends_with :: "string \<Rightarrow> string \<Rightarrow> bool" where
  "ends_with s p = starts_with (rev s) (rev p)"

fun join :: "string \<Rightarrow> string list \<Rightarrow> string" where
  "join sep [] = []"
| "join sep [x] = x"
| "join sep (x # y # xs) = x @ sep @ join sep (y # xs)"

text \<open>The non-ASCII characters of the program's texts, as their UTF-8 bytes.\<close>

definition en_dash :: string where "en_dash = [CHR 0xE2, CHR 0x80, CHR 0x93]"
definition em_dash :: string where "em_dash = [CHR 0xE2, CHR 0x80, CHR 0x94]"
definition middle_dot :: string where "middle_dot = [CHR 0xC2, CHR 0xB7]"

text \<open>Decimal text of an integer, \<open>str(n)\<close>.\<close>

definition digit_char :: "nat \<Rightarrow> char" where "digit_char d = char_of (48 + d)"

fun nat_str :: "nat \<Rightarrow> string" where
  "nat_str n = (if n < 10 then [digit_char n] else nat_str (n div 10) @ [digit_char (n mod 10)])"

declare nat_str.simps [simp del]

definition int_str :: "int \<Rightarrow> string" where
  "int_str i = (if i < 0 then CHR ''-'' # nat_str (nat (- i)) else nat_str (nat i))"

lemma starts_with_prefix: "starts_with s p \<longleftrightarrow> (\<exists>t. s = p @ t)"
  by (induction s p rule: starts_with.induct) auto

lemma starts_with_append [simp]: "starts_with (p @ t) p"
  by (auto simp: starts_with_prefix)

lemma contains_infix: "contains s p \<longleftrightarrow> (\<exists>a b. s = a @ p @ b)"
proof (induction s)
  case Nil
  show ?case by simp
next
  case (Cons c s)
  show ?case
  proof
    assume "contains (c # s) p"
    then consider "starts_with (c # s) p" | "contains s p" by auto
    then show "\<exists>a b. c # s = a @ p @ b"
    proof cases
      case 1
      then obtain t where "c # s = p @ t" by (auto simp: starts_with_prefix)
      then have "c # s = [] @ p @ t" by simp
      then show ?thesis by blast
    next
      case 2
      then obtain a b where "s = a @ p @ b" using Cons.IH by blast
      then have "c # s = (c # a) @ p @ b" by simp
      then show ?thesis by blast
    qed
  next
    assume "\<exists>a b. c # s = a @ p @ b"
    then obtain a b where ab: "c # s = a @ p @ b" by blast
    show "contains (c # s) p"
    proof (cases a)
      case Nil
      with ab have "starts_with (c # s) p" by (auto simp: starts_with_prefix)
      then show ?thesis by simp
    next
      case (Cons d a')
      with ab have "s = a' @ p @ b" by simp
      then have "contains s p" using Cons.IH by blast
      then show ?thesis by simp
    qed
  qed
qed

lemma contains_self [simp]: "contains s s"
  by (metis append_Nil append_Nil2 contains_infix)

lemma length_strip_le: "length (strip s) \<le> length s"
proof -
  have "length (dropWhile is_space (rev (dropWhile is_space s))) \<le> length (rev (dropWhile is_space s))"
    by (rule length_dropWhile_le)
  also have "\<dots> \<le> length s" by (simp add: length_dropWhile_le)
  finally show ?thesis by (simp add: strip_def rstrip_by_def lstrip_def)
qed

end
