(* ===== verification/PyFloat.thy ===== *)
theory PyFloat
  imports Prelude
begin

text \<open>
  Python's \<open>float\<close>: a finite binary64 value is the rational number it denotes, and each arithmetic
  operation of the source is the exact operation followed by \<open>fl\<close>, rounding to 53 significant
  bits with ties to even. The exponent is unbounded: the program's magnitudes (percentages, Mbps,
  scores, seconds) stay far from overflow and from the subnormal range. \<open>py_round2\<close> is
  \<open>round(x, 2)\<close>, which rounds the exact binary value half to even in decimal and converts back.

  The locale \<open>monotone_rounding\<close> states what the components rely on; its interpretations are
  \<open>fl\<close> and \<open>py_round2\<close>.
\<close>

section \<open>Rounding a rational to an integer, half to even\<close>

definition round_he :: "rat \<Rightarrow> int" where
  "round_he x = (let f = floor x; d = x - of_int f in
     if d < 1 / 2 then f else if 1 / 2 < d then f + 1 else if even f then f else f + 1)"

lemma round_he_of_int [simp]: "round_he (of_int n) = n"
  by (simp add: round_he_def)

lemma round_he_bounds: "floor x \<le> round_he x" "round_he x \<le> floor x + 1"
  by (simp_all add: round_he_def Let_def)

lemma round_he_mono: "x \<le> y \<Longrightarrow> round_he x \<le> round_he y"
proof -
  assume xy: "x \<le> y"
  then have fl: "floor x \<le> floor y" by (rule floor_mono)
  show ?thesis
  proof (cases "floor x = floor y")
    case True
    with xy show ?thesis by (simp add: round_he_def Let_def)
  next
    case False
    with fl have "floor x + 1 \<le> floor y" by simp
    with round_he_bounds(2) [of x] round_he_bounds(1) [of y] show ?thesis by linarith
  qed
qed

lemma round_he_ge: "of_int n \<le> x \<Longrightarrow> n \<le> round_he x"
  using round_he_mono [of "of_int n" x] by simp

lemma round_he_le: "x \<le> of_int n \<Longrightarrow> round_he x \<le> n"
  using round_he_mono [of x "of_int n"] by simp

lemma round_he_err: "\<bar>of_int (round_he x) - x\<bar> \<le> 1 / 2"
proof -
  have "of_int (floor x) \<le> x" "x < of_int (floor x) + 1" by linarith+
  then show ?thesis by (simp add: round_he_def Let_def abs_le_iff)
qed

lemma round_he_frac:
  assumes b: "0 < b"
  shows "round_he (of_int a / of_int b) =
     (if 2 * (a mod b) < b then a div b else if b < 2 * (a mod b) then a div b + 1
      else if even (a div b) then a div b else a div b + 1)"
proof -
  have f: "floor (of_int a / of_int b :: rat) = a div b" by (rule floor_divide_of_int_eq)
  have "(of_int a :: rat) = of_int b * of_int (a div b) + of_int (a mod b)"
    by (simp only: flip: of_int_mult of_int_add) simp
  then have d: "(of_int a / of_int b :: rat) - of_int (a div b) = of_int (a mod b) / of_int b"
    using b by (simp add: field_simps)
  have "(of_int (a mod b) / of_int b :: rat) < 1 / 2 \<longleftrightarrow> (of_int (2 * (a mod b)) :: rat) < of_int b"
    using b by (simp add: field_simps)
  moreover have "1 / 2 < (of_int (a mod b) / of_int b :: rat) \<longleftrightarrow> (of_int b :: rat) < of_int (2 * (a mod b))"
    using b by (simp add: field_simps)
  ultimately show ?thesis unfolding round_he_def Let_def f d of_int_less_iff by simp
qed

lemma round_he_numeral [simp]:
  "round_he (numeral a / numeral b) =
     (if 2 * (numeral a mod numeral b) < (numeral b :: int) then numeral a div numeral b
      else if numeral b < 2 * (numeral a mod numeral b :: int) then numeral a div numeral b + 1
      else if even (numeral a div numeral b :: int) then numeral a div numeral b else numeral a div numeral b + 1)"
  "round_he (numeral a) = numeral a" "round_he 1 = 1" "round_he 0 = 0"
  using round_he_frac [of "numeral b" "numeral a"] round_he_of_int [of "numeral a"]
    round_he_of_int [of 1] round_he_of_int [of 0] by simp_all

section \<open>Binary exponent\<close>

definition pow2 :: "int \<Rightarrow> rat" where
  "pow2 k = (if 0 \<le> k then 2 ^ nat k else 1 / 2 ^ nat (- k))"

lemma pow2_pos [simp]: "0 < pow2 k"
  by (simp add: pow2_def)

lemma pow2_ge0 [simp]: "0 \<le> pow2 k"
  using pow2_pos [of k] by linarith

lemma pow2_nonzero [simp]: "pow2 k \<noteq> 0"
  using pow2_pos [of k] by linarith

lemma pow2_powi: "pow2 k = 2 powi k"
  by (simp add: pow2_def power_int_def inverse_eq_divide power_one_over)

lemma pow2_add: "pow2 (a + b) = pow2 a * pow2 b"
  unfolding pow2_powi by (rule power_int_add) simp

lemma pow2_mono: "a \<le> b \<Longrightarrow> pow2 a \<le> pow2 b"
  unfolding pow2_powi by (rule power_int_increasing) simp_all

lemma pow2_strict: "a < b \<Longrightarrow> pow2 a < pow2 b"
  unfolding pow2_powi by (rule power_int_strict_increasing) simp_all

lemma pow2_Suc: "pow2 (k + 1) = 2 * pow2 k"
  unfolding pow2_add by (simp add: pow2_def [of 1])

fun log2_up :: "nat \<Rightarrow> nat" where
  \<comment> \<open>number of binary digits\<close>
  "log2_up n = (if n = 0 then 0 else Suc (log2_up (n div 2)))"

declare log2_up.simps [simp del]

lemma log2_up_less: "n < 2 ^ log2_up n"
proof (induction n rule: log2_up.induct)
  case (1 n)
  show ?case
  proof (cases "n = 0")
    case True
    then show ?thesis by (simp add: log2_up.simps)
  next
    case False
    then have "n div 2 < 2 ^ log2_up (n div 2)" using "1.IH" by blast
    then have "n < 2 * 2 ^ log2_up (n div 2)" by linarith
    with False show ?thesis by (simp add: log2_up.simps [of n])
  qed
qed

lemma log2_up_ge: "0 < n \<Longrightarrow> 2 ^ log2_up n \<le> 2 * n"
proof (induction n rule: log2_up.induct)
  case (1 n)
  show ?case
  proof (cases "n div 2 = 0")
    case True
    then show ?thesis using "1.prems" by (simp add: log2_up.simps [of n] log2_up.simps [of 0])
  next
    case False
    with "1.IH" "1.prems" have "2 ^ log2_up (n div 2) \<le> 2 * (n div 2)" by simp
    then have "2 * 2 ^ log2_up (n div 2) \<le> 2 * (2 * (n div 2))" by (rule mult_left_mono) simp
    also have "\<dots> \<le> 2 * n" by simp
    finally show ?thesis using "1.prems" by (simp add: log2_up.simps [of n])
  qed
qed

definition expo :: "rat \<Rightarrow> int" where
  \<comment> \<open>the \<open>k\<close> with \<open>2^k \<le> x < 2^(k+1)\<close>, for positive \<open>x\<close>\<close>
  "expo x = (let (n, d) = quotient_of x;
                 k = int (log2_up (nat n)) - int (log2_up (nat d))
             in if pow2 k \<le> x then k else k - 1)"

lemma pow2_log2_up: "0 < n \<Longrightarrow> of_int n < pow2 (int (log2_up (nat n))) \<and> pow2 (int (log2_up (nat n))) \<le> 2 * of_int n"
proof -
  assume n: "0 < n"
  let ?b = "log2_up (nat n)"
  have "nat n < 2 ^ ?b" by (rule log2_up_less)
  then have "int (nat n) < 2 ^ ?b" by (metis of_nat_less_iff of_nat_numeral of_nat_power)
  with n have a: "n < 2 ^ ?b" by simp
  have "2 ^ ?b \<le> 2 * nat n" using n by (intro log2_up_ge) simp
  then have "int (2 ^ ?b) \<le> int (2 * nat n)" by (simp only: of_nat_le_iff)
  with n have b: "2 ^ ?b \<le> 2 * n" by simp
  from a have "(of_int n :: rat) < of_int (2 ^ ?b)" by (simp only: of_int_less_iff)
  moreover from b have "(of_int (2 ^ ?b) :: rat) \<le> of_int (2 * n)" by (simp only: of_int_le_iff)
  ultimately show ?thesis by (simp add: pow2_def)
qed

lemma expo_bounds:
  assumes x: "0 < x"
  shows "pow2 (expo x) \<le> x" and "x < pow2 (expo x + 1)"
proof -
  obtain n d where q: "quotient_of x = (n, d)" by (cases "quotient_of x")
  then have xe: "x = of_int n / of_int d" by (rule quotient_of_div)
  from q have d: "0 < d" by (rule quotient_of_denom_pos)
  from x xe d have n: "0 < n" by (simp add: zero_less_divide_iff)
  let ?a = "int (log2_up (nat n))" and ?b = "int (log2_up (nat d))"
  let ?k = "?a - ?b"
  have pk: "pow2 ?a = pow2 ?k * pow2 ?b" using pow2_add [of ?k ?b] by simp
  have N: "of_int n < pow2 ?a" "pow2 ?a \<le> 2 * of_int n" using pow2_log2_up [OF n] by auto
  have D: "of_int d < pow2 ?b" "pow2 ?b \<le> 2 * of_int d" using pow2_log2_up [OF d] by auto
  have dpos: "0 < (of_int d :: rat)" using d by simp
  have "pow2 ?k * pow2 ?b \<le> pow2 ?k * (2 * of_int d)"
    using D(2) by (rule mult_left_mono) simp
  with N(1) pk have "of_int n < pow2 ?k * (2 * of_int d)" by linarith
  then have up: "x < 2 * pow2 ?k" using dpos by (simp add: xe field_simps)
  have "pow2 ?k * of_int d < pow2 ?k * pow2 ?b" using D(1) by simp
  also have "\<dots> \<le> 2 * of_int n" using N(2) by (simp add: pk)
  finally have lo: "pow2 ?k < 2 * x" using dpos by (simp add: xe field_simps)
  have half: "2 * pow2 (?k - 1) = pow2 ?k" using pow2_Suc [of "?k - 1"] by simp
  show "pow2 (expo x) \<le> x" "x < pow2 (expo x + 1)"
    using up lo half by (auto simp: expo_def q Let_def pow2_Suc)
qed

lemma expo_unique:
  assumes x: "0 < x" and "pow2 k \<le> x" and "x < pow2 (k + 1)"
  shows "expo x = k"
proof (rule ccontr)
  assume "expo x \<noteq> k"
  then consider "expo x + 1 \<le> k" | "k + 1 \<le> expo x" by linarith
  then show False
  proof cases
    case 1
    then have "pow2 (expo x + 1) \<le> pow2 k" by (rule pow2_mono)
    with expo_bounds(2) [OF x] assms(2) show False by linarith
  next
    case 2
    then have "pow2 (k + 1) \<le> pow2 (expo x)" by (rule pow2_mono)
    with expo_bounds(1) [OF x] assms(3) show False by linarith
  qed
qed

lemma expo_mono: "0 < x \<Longrightarrow> x \<le> y \<Longrightarrow> expo x \<le> expo y"
proof (rule ccontr)
  assume a: "0 < x" "x \<le> y" "\<not> expo x \<le> expo y"
  then have "pow2 (expo y + 1) \<le> pow2 (expo x)" by (intro pow2_mono) simp
  with expo_bounds(1) [of x] expo_bounds(2) [of y] a show False by linarith
qed

section \<open>Rounding to binary64\<close>

definition ulp :: "rat \<Rightarrow> rat" where "ulp x = pow2 (expo x - 52)"

definition fl_pos :: "rat \<Rightarrow> rat" where "fl_pos x = of_int (round_he (x / ulp x)) * ulp x"

definition fl :: "rat \<Rightarrow> rat" where
  "fl x = (if x = 0 then 0 else if 0 < x then fl_pos x else - fl_pos (- x))"

lemma ulp_pos [simp]: "0 < ulp x" by (simp add: ulp_def)

lemma pow2_expo_ulp: "pow2 (expo x) = of_int (2 ^ 52) * ulp x" "pow2 (expo x + 1) = of_int (2 ^ 53) * ulp x"
proof -
  have e: "expo x = 52 + (expo x - 52)" "expo x + 1 = 53 + (expo x - 52)" by simp_all
  show "pow2 (expo x) = of_int (2 ^ 52) * ulp x"
    by (subst e(1), subst pow2_add) (simp add: ulp_def pow2_def [of 52])
  show "pow2 (expo x + 1) = of_int (2 ^ 53) * ulp x"
    by (subst e(2), subst pow2_add) (simp add: ulp_def pow2_def [of 53])
qed

lemma fl_pos_binade:
  assumes x: "0 < x"
  shows "pow2 (expo x) \<le> fl_pos x" and "fl_pos x \<le> pow2 (expo x + 1)"
proof -
  have "of_int (2 ^ 52) \<le> x / ulp x" "x / ulp x \<le> of_int (2 ^ 53)"
    using expo_bounds [OF x] by (simp_all add: pow2_expo_ulp pos_le_divide_eq pos_divide_le_eq)
  then have "2 ^ 52 \<le> round_he (x / ulp x)" "round_he (x / ulp x) \<le> 2 ^ 53"
    by (blast intro: round_he_ge round_he_le)+
  then have "of_int (2 ^ 52) \<le> (of_int (round_he (x / ulp x)) :: rat)"
      "(of_int (round_he (x / ulp x)) :: rat) \<le> of_int (2 ^ 53)"
    by (simp_all only: of_int_le_iff)
  then have "of_int (2 ^ 52) * ulp x \<le> fl_pos x" "fl_pos x \<le> of_int (2 ^ 53) * ulp x"
    unfolding fl_pos_def by (auto intro!: mult_right_mono simp del: of_int_power of_int_numeral)
  then show "pow2 (expo x) \<le> fl_pos x" "fl_pos x \<le> pow2 (expo x + 1)"
    by (simp_all only: pow2_expo_ulp)
qed

lemma fl_pos_mono:
  assumes x: "0 < x" and xy: "x \<le> y"
  shows "fl_pos x \<le> fl_pos y"
proof (cases "expo x = expo y")
  case True
  then have u: "ulp x = ulp y" by (simp add: ulp_def)
  have "x / ulp x \<le> y / ulp y" using xy by (simp add: u divide_right_mono less_imp_le)
  then have "(of_int (round_he (x / ulp x)) :: rat) \<le> of_int (round_he (y / ulp y))"
    by (simp add: round_he_mono)
  then show ?thesis by (simp add: fl_pos_def u mult_right_mono less_imp_le)
next
  case False
  with expo_mono [OF x xy] have "expo x + 1 \<le> expo y" by simp
  then have "pow2 (expo x + 1) \<le> pow2 (expo y)" by (rule pow2_mono)
  with fl_pos_binade(2) [OF x] fl_pos_binade(1) [of y] x xy show ?thesis by linarith
qed

lemma fl_pos_positive: "0 < x \<Longrightarrow> 0 < fl_pos x"
  using fl_pos_binade(1) [of x] pow2_pos [of "expo x"] by linarith

lemma fl_0 [simp]: "fl 0 = 0"
  by (simp add: fl_def)

lemma fl_mono: "x \<le> y \<Longrightarrow> fl x \<le> fl y"
proof -
  assume xy: "x \<le> y"
  consider "0 < x" | "x \<le> 0" "0 \<le> y" | "y < 0" by linarith
  then show ?thesis
  proof cases
    case 1
    with xy show ?thesis by (simp add: fl_def fl_pos_mono)
  next
    case 2
    then have "fl x \<le> 0" "0 \<le> fl y"
      using fl_pos_positive [of "- x"] fl_pos_positive [of y] by (auto simp: fl_def)
    then show ?thesis by linarith
  next
    case 3
    with xy show ?thesis by (simp add: fl_def fl_pos_mono)
  qed
qed

lemma fl_pos_of_int:
  assumes n: "0 < n" "n \<le> 2 ^ 53"
  shows "fl_pos (of_int n) = of_int n"
proof -
  let ?x = "of_int n :: rat"
  have x: "0 < ?x" using n by simp
  have "pow2 (expo ?x) \<le> of_int (2 ^ 53)"
    using expo_bounds(1) [OF x] n(2) by (metis of_int_le_iff order_trans)
  then have "pow2 (expo ?x) \<le> pow2 53" by (simp add: pow2_def [of 53])
  then have e: "expo ?x \<le> 53" using pow2_strict [of 53 "expo ?x"] by linarith
  show ?thesis
  proof (cases "expo ?x \<le> 52")
    case True
    have "pow2 (52 - expo ?x) * ulp ?x = 1"
      using pow2_add [of "52 - expo ?x" "expo ?x - 52"] by (simp add: ulp_def pow2_def [of 0])
    moreover have "pow2 (52 - expo ?x) = of_int (2 ^ nat (52 - expo ?x))"
      using True by (simp add: pow2_def)
    ultimately have m: "of_int (2 ^ nat (52 - expo ?x)) * ulp ?x = 1" by simp
    then have "?x / ulp ?x = of_int (n * 2 ^ nat (52 - expo ?x))"
      using ulp_pos [of ?x] by (simp add: divide_eq_eq mult.assoc less_imp_neq [symmetric])
    then have "fl_pos ?x = of_int (n * 2 ^ nat (52 - expo ?x)) * ulp ?x"
      by (simp only: fl_pos_def round_he_of_int)
    with m show ?thesis by (simp only: of_int_mult mult.assoc mult_1_right)
  next
    case False
    with e have e53: "expo ?x = 53" by simp
    with expo_bounds(1) [OF x] have "of_int (2 ^ 53) \<le> ?x" by (simp add: pow2_def [of 53])
    with n have ne: "n = 2 ^ 53" by (metis of_int_le_iff order_antisym)
    have u: "ulp ?x = 2" by (simp add: ulp_def e53 pow2_def)
    have "?x / ulp ?x = of_int n / 2" by (simp only: u)
    also have "\<dots> = of_int (2 ^ 52)" by (simp add: ne)
    finally have "fl_pos ?x = of_int (2 ^ 52) * ulp ?x" by (simp only: fl_pos_def round_he_of_int)
    also have "\<dots> = of_int (2 ^ 52) * 2" by (simp only: u)
    also have "\<dots> = ?x" by (simp add: ne)
    finally show ?thesis .
  qed
qed

lemma fl_of_int: "\<bar>n\<bar> \<le> 2 ^ 53 \<Longrightarrow> fl (of_int n) = of_int n"
  using fl_pos_of_int [of n] fl_pos_of_int [of "- n"] by (auto simp: fl_def)

lemma fl_nonneg: "0 \<le> x \<Longrightarrow> 0 \<le> fl x"
  using fl_mono [of 0 x] by simp

lemma fl_positive_iff [simp]: "0 < fl x \<longleftrightarrow> 0 < x"
  using fl_pos_positive [of x] fl_pos_positive [of "- x"] by (auto simp: fl_def)

lemma fl_pos_err: "0 < x \<Longrightarrow> \<bar>fl_pos x - x\<bar> \<le> x / 2 ^ 53"
proof -
  assume x: "0 < x"
  have "\<bar>of_int (round_he (x / ulp x)) - x / ulp x\<bar> * ulp x \<le> 1 / 2 * ulp x"
    using round_he_err [of "x / ulp x"] by (intro mult_right_mono) (auto simp: less_imp_le)
  moreover have "\<bar>of_int (round_he (x / ulp x)) - x / ulp x\<bar> * ulp x = \<bar>fl_pos x - x\<bar>"
    using ulp_pos [of x]
    by (simp add: fl_pos_def abs_mult_pos less_imp_le left_diff_distrib less_imp_neq [symmetric])
  moreover have "ulp x \<le> x / 2 ^ 52"
    using expo_bounds(1) [OF x] by (simp add: pow2_expo_ulp pos_le_divide_eq mult.commute)
  ultimately show ?thesis by simp
qed

lemma fl_err: "\<bar>fl x - x\<bar> \<le> \<bar>x\<bar> / 2 ^ 53"
proof -
  consider "x = 0" | "0 < x" | "0 < - x" by linarith
  then show ?thesis
  proof cases
    case 1
    then show ?thesis by simp
  next
    case 2
    with fl_pos_err [OF 2] show ?thesis by (simp add: fl_def)
  next
    case 3
    from fl_pos_err [OF 3] 3 show ?thesis by (simp add: fl_def abs_minus_commute)
  qed
qed

text \<open>Evaluating \<open>fl\<close> on a numeral: give the binary exponent.\<close>

lemma fl_eval:
  assumes "pow2 k \<le> x" and "x < pow2 (k + 1)"
  shows "fl x = of_int (round_he (x / pow2 (k - 52))) * pow2 (k - 52)"
proof -
  have x: "0 < x" using assms(1) pow2_pos [of k] by linarith
  with assms have "expo x = k" by (intro expo_unique)
  with x show ?thesis by (simp add: fl_def fl_pos_def ulp_def)
qed

lemma fl_numeral [simp]: "fl 1 = 1" "(numeral n :: int) \<le> 2 ^ 53 \<Longrightarrow> fl (numeral n) = numeral n"
  using fl_of_int [of 1] fl_of_int [of "numeral n"] by simp_all

section \<open>round(x, 2)\<close>

definition py_round2 :: "rat \<Rightarrow> rat" where
  "py_round2 x = fl (of_int (round_he (x * 100)) / 100)"

lemma py_round2_mono: "x \<le> y \<Longrightarrow> py_round2 x \<le> py_round2 y"
  by (simp add: py_round2_def fl_mono divide_right_mono round_he_mono)

lemma py_round2_of_int: "\<bar>n\<bar> \<le> 2 ^ 53 \<Longrightarrow> py_round2 (of_int n) = of_int n"
proof -
  assume n: "\<bar>n\<bar> \<le> 2 ^ 53"
  have "round_he ((of_int n :: rat) * 100) = n * 100"
    using round_he_of_int [of "n * 100"] by simp
  then have "of_int (round_he ((of_int n :: rat) * 100)) / 100 = (of_int n :: rat)" by simp
  with fl_of_int [OF n] show ?thesis by (simp only: py_round2_def)
qed

lemma py_round2_0 [simp]: "py_round2 0 = 0"
  using py_round2_of_int [of 0] by simp

lemma py_round2_nonneg: "0 \<le> x \<Longrightarrow> 0 \<le> py_round2 x"
  using py_round2_mono [of 0 x] by simp

lemma py_round2_numeral [simp]:
  "py_round2 1 = 1" "(numeral n :: int) \<le> 2 ^ 53 \<Longrightarrow> py_round2 (numeral n) = numeral n"
  using py_round2_of_int [of 1] py_round2_of_int [of "numeral n"] by simp_all

section \<open>The interface the components use\<close>

locale monotone_rounding =
  fixes r :: "rat \<Rightarrow> rat"
  assumes r_mono: "x \<le> y \<Longrightarrow> r x \<le> r y"
    and r_int: "\<bar>n\<bar> \<le> 2 ^ 53 \<Longrightarrow> r (of_int n) = of_int n"
begin

lemma r_ge_int: "\<bar>n\<bar> \<le> 2 ^ 53 \<Longrightarrow> of_int n \<le> x \<Longrightarrow> of_int n \<le> r x"
  using r_mono [of "of_int n" x] r_int [of n] by simp

lemma r_le_int: "\<bar>n\<bar> \<le> 2 ^ 53 \<Longrightarrow> x \<le> of_int n \<Longrightarrow> r x \<le> of_int n"
  using r_mono [of x "of_int n"] r_int [of n] by simp

lemma r_between: "\<bar>a\<bar> \<le> 2 ^ 53 \<Longrightarrow> \<bar>b\<bar> \<le> 2 ^ 53 \<Longrightarrow> of_int a \<le> x \<Longrightarrow> x \<le> of_int b
    \<Longrightarrow> of_int a \<le> r x \<and> r x \<le> of_int b"
  by (simp add: r_ge_int r_le_int)

lemma r_unit: "0 \<le> x \<Longrightarrow> x \<le> 1 \<Longrightarrow> 0 \<le> r x \<and> r x \<le> 1"
  using r_between [of 0 1 x] by simp

lemma r_percent: "0 \<le> x \<Longrightarrow> x \<le> 100 \<Longrightarrow> 0 \<le> r x \<and> r x \<le> 100"
  using r_between [of 0 100 x] by simp

end

interpretation fl64: monotone_rounding fl
  by unfold_locales (auto simp: fl_mono fl_of_int)

interpretation round2: monotone_rounding py_round2
  by unfold_locales (auto simp: py_round2_mono py_round2_of_int)

lemma fl_int_ops: "fl (of_int a * of_int b) = of_int (a * b)" if "\<bar>a * b\<bar> \<le> 2 ^ 53"
  using fl_of_int [OF that] by simp

end
