(* ===== verification/Enums.thy ===== *)
theory Enums
  imports PyFloat
begin

text \<open>
  The enumerations of \<open>src/app/models/enums.py\<close>, each with the string the database and the API
  carry, and the constants of \<open>src/app/core/speed_test_defaults.py\<close> and of the services that use
  them. Rows keep the string (a column is free text); the enumerations give the literals.
\<close>

section \<open>Enumerations\<close>

datatype CheckOutcome = UP | DOWN | DEGRADED | TIMEOUT | ERROR

fun CheckOutcome_value :: "CheckOutcome \<Rightarrow> string" where
  "CheckOutcome_value UP = ''up''"
| "CheckOutcome_value DOWN = ''down''"
| "CheckOutcome_value DEGRADED = ''degraded''"
| "CheckOutcome_value TIMEOUT = ''timeout''"
| "CheckOutcome_value ERROR = ''error''"

datatype CheckType = HTTP_STATUS | JSON | XML | OPENVPN | XRAY

fun CheckType_value :: "CheckType \<Rightarrow> string" where
  "CheckType_value HTTP_STATUS = ''http_status''"
| "CheckType_value JSON = ''json''"
| "CheckType_value XML = ''xml''"
| "CheckType_value OPENVPN = ''openvpn''"
| "CheckType_value XRAY = ''xray''"

datatype ConnectionMode = EPHEMERAL | PERSISTENT

fun ConnectionMode_value :: "ConnectionMode \<Rightarrow> string" where
  "ConnectionMode_value EPHEMERAL = ''ephemeral''"
| "ConnectionMode_value PERSISTENT = ''persistent''"

datatype IpFamily = AUTO | IPV4 | IPV6

fun IpFamily_value :: "IpFamily \<Rightarrow> string" where
  "IpFamily_value AUTO = ''auto''"
| "IpFamily_value IPV4 = ''ipv4''"
| "IpFamily_value IPV6 = ''ipv6''"

datatype ConnectionEventType =
  TUNNEL_UP | TUNNEL_DOWN | RECONNECT | CONNECT_FAILED | UNAVAILABLE | AVAILABLE

fun ConnectionEventType_value :: "ConnectionEventType \<Rightarrow> string" where
  "ConnectionEventType_value TUNNEL_UP = ''tunnel_up''"
| "ConnectionEventType_value TUNNEL_DOWN = ''tunnel_down''"
| "ConnectionEventType_value RECONNECT = ''reconnect''"
| "ConnectionEventType_value CONNECT_FAILED = ''connect_failed''"
| "ConnectionEventType_value UNAVAILABLE = ''unavailable''"
| "ConnectionEventType_value AVAILABLE = ''available''"

definition CONNECTION_EVENT_TYPES :: "string list" where
  "CONNECTION_EVENT_TYPES =
     map ConnectionEventType_value [TUNNEL_UP, TUNNEL_DOWN, RECONNECT, CONNECT_FAILED, UNAVAILABLE, AVAILABLE]"

definition VPN_CHECK_TYPES :: "string list" where
  "VPN_CHECK_TYPES = map CheckType_value [OPENVPN, XRAY]"

definition PERSISTENT_VPN_CHECK_TYPES :: "string list" where
  "PERSISTENT_VPN_CHECK_TYPES = map CheckType_value [OPENVPN]"

definition HTTP_CHECK_TYPES :: "string list" where
  "HTTP_CHECK_TYPES = map CheckType_value [HTTP_STATUS, JSON, XML]"

datatype IncidentUpdateStatus = INVESTIGATING | IDENTIFIED | MONITORING | RESOLVED | UPDATE

fun IncidentUpdateStatus_value :: "IncidentUpdateStatus \<Rightarrow> string" where
  "IncidentUpdateStatus_value INVESTIGATING = ''investigating''"
| "IncidentUpdateStatus_value IDENTIFIED = ''identified''"
| "IncidentUpdateStatus_value MONITORING = ''monitoring''"
| "IncidentUpdateStatus_value RESOLVED = ''resolved''"
| "IncidentUpdateStatus_value UPDATE = ''update''"

section \<open>Outcome classes\<close>

definition OUTAGE_OUTCOMES :: "string list" where
  "OUTAGE_OUTCOMES = map CheckOutcome_value [DOWN, TIMEOUT, ERROR]"

definition DEGRADED_OUTCOMES :: "string list" where
  "DEGRADED_OUTCOMES = map CheckOutcome_value [DEGRADED]"

definition ACTIVE_INCIDENT_STATUSES :: "string list" where
  "ACTIVE_INCIDENT_STATUSES = map IncidentUpdateStatus_value [INVESTIGATING, IDENTIFIED, MONITORING]"

section \<open>Speed-test constants\<close>

definition DEFAULT_SPEED_TEST_INTERVAL_SECONDS :: int where "DEFAULT_SPEED_TEST_INTERVAL_SECONDS = 3600"
definition SPEED_TEST_MIN_GAP_SECONDS :: int where "SPEED_TEST_MIN_GAP_SECONDS = 60"
definition SPEED_TEST_RATE_LIMIT_BACKOFF_SECONDS :: int where "SPEED_TEST_RATE_LIMIT_BACKOFF_SECONDS = 3600"
definition GUIDANCE_REQUESTS_PER_MINUTE :: int where "GUIDANCE_REQUESTS_PER_MINUTE = 10"

definition FALLBACK_SPEED_TEST_URL_TEMPLATE :: string where
  "FALLBACK_SPEED_TEST_URL_TEMPLATE = ''https://speed.cloudflare.com/__down?bytes={bytes}''"

definition FALLBACK_CLOUDFLARE_SPEED_TEST_ORIGIN :: string where
  "FALLBACK_CLOUDFLARE_SPEED_TEST_ORIGIN = ''https://speed.cloudflare.com''"

text \<open>The part of \<open>Settings\<close> (\<open>src/app/config.py\<close>) the modelled code reads.\<close>

record settings =
  cfg_speed_test_url_template :: string
  cfg_cloudflare_origin :: string
  cfg_probe_url :: string
  cfg_allow_registration :: bool
  cfg_require_email_verification :: bool
  cfg_require_https :: bool
  cfg_refresh_token_expire_days :: int
  cfg_jwt_expire_minutes :: int
  cfg_mfa_token_expire_minutes :: int
  cfg_access_cookie_name :: string
  cfg_refresh_cookie_name :: string
  cfg_google_probe_url :: string
  cfg_internet_ping_host :: string
  cfg_vpn_netns_dns_servers :: string
  cfg_datagate_allowed_hosts :: string
  cfg_datagate_credentials_key :: string
  cfg_jwt_secret :: string
  cfg_google_client_id :: string
  cfg_google_client_secret :: string
  cfg_totp_issuer :: string
  cfg_cookie_secure :: bool
  cfg_cookie_samesite :: string

definition default_speed_test_url_template :: "settings \<Rightarrow> string" where
  "default_speed_test_url_template cfg =
     (let v = strip (cfg_speed_test_url_template cfg)
      in if v = [] then FALLBACK_SPEED_TEST_URL_TEMPLATE else v)"

definition cloudflare_speed_test_origin :: "settings \<Rightarrow> string" where
  "cloudflare_speed_test_origin cfg =
     (let v = strip (cfg_cloudflare_origin cfg)
      in rstrip_by (\<lambda>c. c = CHR ''/'') (if v = [] then FALLBACK_CLOUDFLARE_SPEED_TEST_ORIGIN else v))"

definition default_probe_url :: "settings \<Rightarrow> string" where
  "default_probe_url cfg =
     (let v = strip (cfg_probe_url cfg) in if v = [] then ''https://ifconfig.me/ip'' else v)"

definition google_probe_url :: "settings \<Rightarrow> string" where
  "google_probe_url cfg =
     (let v = strip (cfg_google_probe_url cfg) in if v = [] then ''https://www.gstatic.com/generate_204'' else v)"

definition internet_ping_host :: "settings \<Rightarrow> string" where
  "internet_ping_host cfg = (let v = strip (cfg_internet_ping_host cfg) in if v = [] then ''8.8.8.8'' else v)"

section \<open>Facts about the literals\<close>

lemma CheckOutcome_value_inj: "CheckOutcome_value a = CheckOutcome_value b \<Longrightarrow> a = b"
  by (cases a; cases b) simp_all

lemma ConnectionEventType_value_member [simp]: "ConnectionEventType_value e \<in> set CONNECTION_EVENT_TYPES"
  by (cases e) (simp_all add: CONNECTION_EVENT_TYPES_def)

lemma persistent_types_are_vpn: "set PERSISTENT_VPN_CHECK_TYPES \<subseteq> set VPN_CHECK_TYPES"
  by (simp add: PERSISTENT_VPN_CHECK_TYPES_def VPN_CHECK_TYPES_def)

lemma vpn_http_disjoint: "set VPN_CHECK_TYPES \<inter> set HTTP_CHECK_TYPES = {}"
  by (simp add: VPN_CHECK_TYPES_def HTTP_CHECK_TYPES_def)

lemma outage_degraded_up_disjoint:
  "''up'' \<notin> set OUTAGE_OUTCOMES" "''degraded'' \<notin> set OUTAGE_OUTCOMES" "''up'' \<notin> set DEGRADED_OUTCOMES"
  by (simp_all add: OUTAGE_OUTCOMES_def DEGRADED_OUTCOMES_def)

end
