(* ===== verification/UptimeStats.thy ===== *)
theory UptimeStats
  imports Enums
begin

text \<open>
  \<open>src/app/services/uptime_stats.py\<close>: per-day check statistics, the downtime of a day, availability
  in percent and the day's status. \<open>day_status\<close> is the status string as an enumeration, made a linear
  order by \<open>STATUS_PRIORITY\<close> of \<open>public_status_service.py\<close>, so that merging two statuses is the
  maximum. The specification of downtime is \<open>outage_at\<close>: the last check at or before an instant
  decides whether the service is down there.
\<close>

section \<open>Day statistics\<close>

record DayCheckStats =
  st_downtime_seconds :: int
  st_total :: int
  st_up :: int
  st_degraded :: int
  st_failed :: int

definition empty_day_stats :: DayCheckStats where
  "empty_day_stats = \<lparr>st_downtime_seconds = 0, st_total = 0, st_up = 0, st_degraded = 0, st_failed = 0\<rparr>"

definition is_outage_outcome :: "string \<Rightarrow> bool" where
  "is_outage_outcome outcome \<longleftrightarrow> outcome \<in> set OUTAGE_OUTCOMES"

definition day_check_counts :: "string list \<Rightarrow> int \<times> int \<times> int \<times> int" where
  "day_check_counts outcomes =
     (int (length outcomes),
      int (length (filter (\<lambda>x. x = CheckOutcome_value UP) outcomes)),
      int (length (filter (\<lambda>x. x \<in> set DEGRADED_OUTCOMES) outcomes)),
      int (length (filter (\<lambda>x. x \<in> set OUTAGE_OUTCOMES) outcomes)))"

definition from_outcomes :: "string list \<Rightarrow> int \<Rightarrow> DayCheckStats" where
  "from_outcomes outcomes downtime =
     (let (tot, u, d, f) = day_check_counts outcomes
      in \<lparr>st_downtime_seconds = downtime, st_total = tot, st_up = u, st_degraded = d, st_failed = f\<rparr>)"

definition with_downtime :: "DayCheckStats \<Rightarrow> int \<Rightarrow> DayCheckStats" where
  "with_downtime s d =
     \<lparr>st_downtime_seconds = d, st_total = st_total s, st_up = st_up s, st_degraded = st_degraded s,
      st_failed = st_failed s\<rparr>"

section \<open>Downtime\<close>

definition day_start :: "day \<Rightarrow> instant" where "day_start d = d * usec_per_day"

definition int_total_seconds :: "int \<Rightarrow> int" where
  \<comment> \<open>\<open>int(td.total_seconds())\<close> truncates towards zero\<close>
  "int_total_seconds us = (if us < 0 then - ((- us) div usec_per_second) else us div usec_per_second)"

fun downtime_loop :: "(instant \<times> string) list \<Rightarrow> int \<Rightarrow> instant option \<Rightarrow> int \<times> instant option" where
  "downtime_loop [] tot down_since = (tot, down_since)"
| "downtime_loop ((checked_at, outcome) # es) tot down_since =
     (if is_outage_outcome outcome
      then downtime_loop es tot (case down_since of None \<Rightarrow> Some checked_at | Some d \<Rightarrow> Some d)
      else case down_since of
             None \<Rightarrow> downtime_loop es tot None
           | Some d \<Rightarrow> downtime_loop es (tot + max (int_total_seconds (checked_at - d)) 0) None)"

definition compute_downtime_seconds :: "(instant \<times> string) list \<Rightarrow> day \<Rightarrow> instant \<Rightarrow> bool \<Rightarrow> int" where
  "compute_downtime_seconds events day now continuing_outage =
     (let ds = day_start day;
          period_end = min (ds + usec_per_day) now;
          down_since = (if continuing_outage then Some ds else None)
      in if events = [] then
           (case down_since of
              Some d \<Rightarrow> max (int_total_seconds (period_end - d)) 0
            | None \<Rightarrow> 0)
         else
           (case downtime_loop (sort_key fst events) 0 down_since of
              (tot, Some d) \<Rightarrow> tot + max (int_total_seconds (period_end - d)) 0
            | (tot, None) \<Rightarrow> tot))"

section \<open>Availability and status\<close>

definition availability_from_counts :: "int \<Rightarrow> int \<Rightarrow> int \<Rightarrow> rat option" where
  "availability_from_counts tot u d =
     (if tot \<le> 0 then None
      else Some (py_round2 (fl (fl (of_int (u + d) / of_int tot) * 100))))"

definition availability_percent :: "string list \<Rightarrow> rat option" where
  "availability_percent outcomes =
     (if outcomes = [] then None
      else let (tot, u, d, _) = day_check_counts outcomes in availability_from_counts tot u d)"

definition availability_from_stats :: "DayCheckStats \<Rightarrow> rat option" where
  "availability_from_stats s = availability_from_counts (st_total s) (st_up s) (st_degraded s)"

datatype day_status = No_data | Operational | Degraded_day | Outage

fun day_status_str :: "day_status \<Rightarrow> string" where
  "day_status_str No_data = ''no_data''"
| "day_status_str Operational = ''operational''"
| "day_status_str Degraded_day = ''degraded''"
| "day_status_str Outage = ''outage''"

fun STATUS_PRIORITY :: "day_status \<Rightarrow> nat" where
  "STATUS_PRIORITY Outage = 3"
| "STATUS_PRIORITY Degraded_day = 2"
| "STATUS_PRIORITY Operational = 1"
| "STATUS_PRIORITY No_data = 0"

instantiation day_status :: linorder
begin

definition less_eq_day_status :: "day_status \<Rightarrow> day_status \<Rightarrow> bool" where
  "less_eq_day_status a b \<longleftrightarrow> STATUS_PRIORITY a \<le> STATUS_PRIORITY b"

definition less_day_status :: "day_status \<Rightarrow> day_status \<Rightarrow> bool" where
  "less_day_status a b \<longleftrightarrow> STATUS_PRIORITY a < STATUS_PRIORITY b"

instance
proof
  fix a b c :: day_status
  show "a < b \<longleftrightarrow> a \<le> b \<and> \<not> b \<le> a" by (auto simp: less_eq_day_status_def less_day_status_def)
  show "a \<le> a" by (simp add: less_eq_day_status_def)
  show "a \<le> b \<Longrightarrow> b \<le> c \<Longrightarrow> a \<le> c" by (simp add: less_eq_day_status_def)
  show "a \<le> b \<Longrightarrow> b \<le> a \<Longrightarrow> a = b" by (cases a; cases b) (simp_all add: less_eq_day_status_def)
  show "a \<le> b \<or> b \<le> a" by (auto simp: less_eq_day_status_def)
qed

end

definition status_from_availability :: "rat option \<Rightarrow> day_status" where
  "status_from_availability a =
     (case a of None \<Rightarrow> No_data
      | Some v \<Rightarrow> if 99 \<le> v then Operational else if 90 \<le> v then Degraded_day else Outage)"

definition status_from_outcomes :: "string list \<Rightarrow> day_status" where
  "status_from_outcomes outcomes = status_from_availability (availability_percent outcomes)"

definition status_from_stats :: "DayCheckStats \<Rightarrow> day_status" where
  "status_from_stats s = status_from_availability (availability_from_stats s)"

section \<open>Lemmas: seconds\<close>

lemma int_total_seconds_nonneg: "0 \<le> us \<Longrightarrow> int_total_seconds us = us div usec_per_second"
  by (simp add: int_total_seconds_def)

lemma max_int_total_seconds: "max (int_total_seconds us) 0 = (if us \<le> 0 then 0 else us div usec_per_second)"
  by (auto simp: int_total_seconds_def max_def)

definition whole_second :: "instant \<Rightarrow> bool" where "whole_second t \<longleftrightarrow> t mod usec_per_second = 0"

lemma whole_second_div: "whole_second t \<Longrightarrow> t div usec_per_second * usec_per_second = t"
  using div_mult_mod_eq [of t usec_per_second] by (simp add: whole_second_def)

lemma whole_second_day_start [simp]: "whole_second (day_start d)"
  by (simp add: whole_second_def day_start_def)

section \<open>Specification of downtime\<close>

definition outage_at :: "(instant \<times> string) list \<Rightarrow> bool \<Rightarrow> instant \<Rightarrow> bool" where
  "outage_at events before t =
     (let seen = filter (\<lambda>e. fst e \<le> t) (sort_key fst events)
      in if seen = [] then before else is_outage_outcome (snd (last seen)))"

text \<open>The same on a sorted list, by recursion.\<close>

fun outage_from :: "(instant \<times> string) list \<Rightarrow> bool \<Rightarrow> instant \<Rightarrow> bool" where
  "outage_from [] cur t = cur"
| "outage_from ((c, outcome) # es) cur t =
     (if c \<le> t then outage_from es (is_outage_outcome outcome) t else cur)"

lemma filter_le_empty: "\<forall>e \<in> set es. c \<le> fst e \<Longrightarrow> (t::int) < c \<Longrightarrow> filter (\<lambda>e. fst e \<le> t) es = []"
  by (auto simp: filter_empty_conv)

lemma outage_from_last:
  "sorted (map fst es) \<Longrightarrow>
   outage_from es cur t =
     (let seen = filter (\<lambda>e. fst e \<le> t) es
      in if seen = [] then cur else is_outage_outcome (snd (last seen)))"
proof (induction es arbitrary: cur)
  case Nil
  then show ?case by simp
next
  case (Cons e es)
  obtain c outcome where e: "e = (c, outcome)" by (cases e)
  from Cons.prems e have s: "sorted (map fst es)" and lo: "\<forall>x \<in> set es. c \<le> fst x" by auto
  show ?case
  proof (cases "c \<le> t")
    case True
    with Cons.IH [OF s] show ?thesis by (simp add: e Let_def)
  next
    case False
    with filter_le_empty [OF lo, of t] show ?thesis by (simp add: e)
  qed
qed

lemma outage_at_sorted: "outage_at events before t = outage_from (sort_key fst events) before t"
  unfolding outage_at_def by (subst outage_from_last) simp_all

section \<open>Downtime and the exact duration of the outages\<close>

definition outage_time :: "(instant \<times> string) list \<Rightarrow> bool \<Rightarrow> instant \<Rightarrow> instant \<Rightarrow> instant set" where
  \<comment> \<open>the microseconds in outage\<close>
  "outage_time es cur a b = {t. a \<le> t \<and> t < b \<and> outage_from es cur t}"

fun outage_starts :: "bool \<Rightarrow> string list \<Rightarrow> nat" where
  \<comment> \<open>how often an outage begins\<close>
  "outage_starts down [] = 0"
| "outage_starts down (outcome # outcomes) =
     (if is_outage_outcome outcome \<and> \<not> down then 1 else 0) + outage_starts (is_outage_outcome outcome) outcomes"

lemma card_interval: "a \<le> b \<Longrightarrow> int (card {t :: int. a \<le> t \<and> t < b}) = b - a"
proof -
  assume "a \<le> b"
  moreover have "{t. a \<le> t \<and> t < b} = {a..<b}" by auto
  ultimately show ?thesis by simp
qed

lemma finite_outage_time [simp]: "finite (outage_time es cur a b)"
  by (rule finite_subset [of _ "{a..<b}"]) (auto simp: outage_time_def)

lemma card_outage_time_Cons:
  assumes "a \<le> c" "c \<le> b"
  shows "int (card (outage_time ((c, outcome) # es) cur a b)) =
     (if cur then c - a else 0) + int (card (outage_time es (is_outage_outcome outcome) c b))"
proof -
  have "outage_time ((c, outcome) # es) cur a b =
      (if cur then {t. a \<le> t \<and> t < c} else {}) \<union> outage_time es (is_outage_outcome outcome) c b"
    using assms by (auto simp: outage_time_def)
  moreover have "{t. a \<le> t \<and> t < c} \<inter> outage_time es (is_outage_outcome outcome) c b = {}" by (auto simp: outage_time_def)
  moreover have "finite {t. a \<le> t \<and> t < c}" by (rule finite_subset [of _ "{a..<c}"]) auto
  ultimately show ?thesis using card_interval [OF assms(1)] by (simp add: card_Un_disjoint)
qed

lemma whole_seconds_below:
  "0 \<le> t \<Longrightarrow> max (int_total_seconds t) 0 * usec_per_second \<le> t \<and> t \<le> max (int_total_seconds t) 0 * usec_per_second + 999999"
  by (simp add: max_int_total_seconds) linarith

text \<open>
  \<open>downtime_loop\<close> from a state: what is still to be counted from the cursor \<open>a\<close> on. When the service
  is already down since \<open>d\<close>, the time from \<open>d\<close> to the cursor are pending.
\<close>

definition closed_total :: "int \<times> instant option \<Rightarrow> instant \<Rightarrow> int" where
  "closed_total r period_end =
     (case r of (tot, Some d) \<Rightarrow> tot + max (int_total_seconds (period_end - d)) 0 | (tot, None) \<Rightarrow> tot)"

lemma compute_downtime_closed:
  "compute_downtime_seconds events dy now cont =
     closed_total (downtime_loop (sort_key fst events) 0 (if cont then Some (day_start dy) else None))
       (min (day_start dy + usec_per_day) now)"
  by (simp add: compute_downtime_seconds_def closed_total_def Let_def split: option.splits prod.splits)

lemma downtime_loop_exact:
  assumes "sorted (map fst es)" and "\<forall>e \<in> set es. a \<le> fst e \<and> fst e \<le> b" and "a \<le> b"
    and "case ds of None \<Rightarrow> True | Some d \<Rightarrow> d \<le> a"
  shows "let outage = int (card (outage_time es (ds \<noteq> None) a b)) + (case ds of None \<Rightarrow> 0 | Some d \<Rightarrow> a - d);
         counted = (closed_total (downtime_loop es tot ds) b - tot) * usec_per_second
     in counted \<le> outage
      \<and> outage \<le> counted + int (outage_starts (ds \<noteq> None) (map snd es) + (if ds = None then 0 else 1)) * 999999"
  using assms
proof (induction es arbitrary: tot ds a)
  case Nil
  show ?case
  proof (cases ds)
    case None
    then show ?thesis by (simp add: closed_total_def outage_time_def)
  next
    case (Some d)
    with Nil.prems have d: "d \<le> a" "a \<le> b" by auto
    have "int (card (outage_time [] True a b)) = b - a" using card_interval [OF d(2)] by (simp add: outage_time_def)
    with Some d whole_seconds_below [of "b - d"] show ?thesis by (simp add: closed_total_def Let_def)
  qed
next
  case (Cons e es)
  obtain c outcome where e: "e = (c, outcome)" by (cases e)
  from Cons.prems e have s: "sorted (map fst es)" and c: "a \<le> c" "c \<le> b"
    and rest: "\<forall>e \<in> set es. c \<le> fst e \<and> fst e \<le> b" by auto
  note IH = Cons.IH [OF s rest c(2), unfolded Let_def]
  note split = card_outage_time_Cons [OF c, of outcome es]
  show ?case
  proof (cases ds)
    case None
    show ?thesis
    proof (cases "is_outage_outcome outcome")
      case True
      with IH [of "Some c" tot] split [of False] None c show ?thesis by (simp add: e Let_def)
    next
      case False
      with IH [of None tot] split [of False] None show ?thesis by (simp add: e Let_def)
    qed
  next
    case (Some d)
    with Cons.prems have d: "d \<le> a" by auto
    show ?thesis
    proof (cases "is_outage_outcome outcome")
      case True
      with IH [of "Some d" tot] split [of True] Some d c show ?thesis by (simp add: e Let_def)
    next
      case False
      let ?p = "max (int_total_seconds (c - d)) 0"
      have "?p * usec_per_second \<le> c - d" "c - d \<le> ?p * usec_per_second + 999999"
        using whole_seconds_below [of "c - d"] d c by simp_all
      with False IH [of None "tot + ?p"] split [of True] Some show ?thesis
        by (simp add: e Let_def algebra_simps)
    qed
  qed
qed

lemma whole_difference:
  "whole_second c \<Longrightarrow> whole_second d \<Longrightarrow> d \<le> c \<Longrightarrow> max (int_total_seconds (c - d)) 0 * usec_per_second = c - d"
  unfolding whole_second_def by (simp add: max_int_total_seconds dvd_eq_mod_eq_0 [symmetric])

lemma downtime_loop_whole:
  assumes "sorted (map fst es)" and "\<forall>e \<in> set es. a \<le> fst e \<and> fst e \<le> b \<and> whole_second (fst e)" and "a \<le> b" and "whole_second b"
    and "case ds of None \<Rightarrow> True | Some d \<Rightarrow> d \<le> a \<and> whole_second d"
  shows "(closed_total (downtime_loop es tot ds) b - tot) * usec_per_second
     = int (card (outage_time es (ds \<noteq> None) a b)) + (case ds of None \<Rightarrow> 0 | Some d \<Rightarrow> a - d)"
  using assms
proof (induction es arbitrary: tot ds a)
  case Nil
  show ?case
  proof (cases ds)
    case None
    then show ?thesis by (simp add: closed_total_def outage_time_def)
  next
    case (Some d)
    with Nil.prems have d: "d \<le> a" "a \<le> b" "whole_second d" by auto
    have "int (card (outage_time [] True a b)) = b - a" using card_interval [OF d(2)] by (simp add: outage_time_def)
    with Some d whole_difference [of b d] Nil.prems(4) show ?thesis by (simp add: closed_total_def)
  qed
next
  case (Cons e es)
  obtain c outcome where e: "e = (c, outcome)" by (cases e)
  from Cons.prems e have s: "sorted (map fst es)" and c: "a \<le> c" "c \<le> b" "whole_second c"
    and rest: "\<forall>e \<in> set es. c \<le> fst e \<and> fst e \<le> b \<and> whole_second (fst e)" by auto
  note IH = Cons.IH [OF s rest c(2) Cons.prems(4)]
  note split = card_outage_time_Cons [OF c(1,2), of outcome es]
  show ?case
  proof (cases ds)
    case None
    with IH [of "Some c" tot] IH [of None tot] split [of False] c show ?thesis by (simp add: e)
  next
    case (Some d)
    with Cons.prems have d: "d \<le> a" "whole_second d" by auto
    show ?thesis
    proof (cases "is_outage_outcome outcome")
      case True
      with IH [of "Some d" tot] split [of True] Some d c show ?thesis by (simp add: e)
    next
      case False
      let ?p = "max (int_total_seconds (c - d)) 0"
      have "?p * usec_per_second = c - d" using whole_difference [of c d] d c by simp
      with False IH [of None "tot + ?p"] split [of True] Some show ?thesis by (simp add: e algebra_simps)
    qed
  qed
qed

text \<open>
  C9. The downtime the loop adds up interval by interval is the time of the elapsed part of the day in which the last check
  seen so far (or, before the first one, the carried-over state) reports an outage, in whole seconds: every outage of the day
  loses at most its last incomplete second, nothing is counted twice, and when all times are whole seconds it is exact.
\<close>

theorem downtime_counts_outage_seconds:
  assumes "day_start dy \<le> now" and "\<forall>e \<in> set events. day_start dy \<le> fst e \<and> fst e \<le> min (day_start dy + usec_per_day) now"
  shows "let outage = int (card {t. day_start dy \<le> t \<and> t < min (day_start dy + usec_per_day) now \<and> outage_at events cont t});
         outages = outage_starts cont (map snd (sort_key fst events)) + (if cont then 1 else 0);
         downtime = compute_downtime_seconds events dy now cont
     in downtime * 1000000 \<le> outage \<and> outage \<le> downtime * 1000000 + int outages * 999999
      \<and> (now mod 1000000 = 0 \<and> (\<forall>e \<in> set events. fst e mod 1000000 = 0) \<longrightarrow> outage = downtime * 1000000)"
proof -
  let ?a = "day_start dy" and ?b = "min (day_start dy + usec_per_day) now" and ?es = "sort_key fst events"
  have b: "?a \<le> ?b" using assms(1) by simp
  have "sorted (map fst ?es)" by simp
  moreover have rest: "\<forall>e \<in> set ?es. ?a \<le> fst e \<and> fst e \<le> ?b" using assms(2) by simp
  moreover have down: "case if cont then Some ?a else None of None \<Rightarrow> True | Some d \<Rightarrow> d \<le> ?a" by simp
  ultimately have general: "let outage = int (card (outage_time ?es cont ?a ?b));
         counted = closed_total (downtime_loop ?es 0 (if cont then Some ?a else None)) ?b * usec_per_second
     in counted \<le> outage \<and> outage \<le> counted + int (outage_starts cont (map snd ?es) + (if cont then 1 else 0)) * 999999"
    using downtime_loop_exact [of ?es ?a ?b "if cont then Some ?a else None" 0] b by (cases cont) (simp_all add: Let_def)
  have "closed_total (downtime_loop ?es 0 (if cont then Some ?a else None)) ?b * usec_per_second = int (card (outage_time ?es cont ?a ?b))"
    if whole: "whole_second now" "\<forall>e \<in> set events. whole_second (fst e)"
  proof -
    have start: "whole_second ?a" "whole_second (?a + usec_per_day)" by (simp_all add: whole_second_def day_start_def)
    then have "whole_second ?b" using whole(1) by (simp add: min_def)
    moreover have "\<forall>e \<in> set ?es. ?a \<le> fst e \<and> fst e \<le> ?b \<and> whole_second (fst e)" using rest whole(2) by simp
    ultimately show ?thesis
      using downtime_loop_whole [of ?es ?a ?b "if cont then Some ?a else None" 0] b start(1) by (cases cont) simp_all
  qed
  with general show ?thesis
    unfolding Let_def compute_downtime_closed outage_at_sorted outage_time_def whole_second_def by simp
qed

lemma downtime_counts_outage_seconds_witness:
  "compute_downtime_seconds [(3600500000, ''down''), (3601200000, ''up'')] 0 usec_per_day False = 0 \<and>
   int (card {t. day_start 0 \<le> t \<and> t < min (day_start 0 + usec_per_day) usec_per_day
      \<and> outage_at [(3600500000, ''down''), (3601200000, ''up'')] False t}) \<le> 999999"
proof -
  let ?ev = "[(3600500000, ''down''), (3601200000, ''up'')]"
  have v: "compute_downtime_seconds ?ev 0 usec_per_day False = 0"
    by (simp add: compute_downtime_seconds_def day_start_def is_outage_outcome_def OUTAGE_OUTCOMES_def
        int_total_seconds_def Let_def)
  have n: "outage_starts False (map snd (sort_key fst ?ev)) = 1"
    by (simp add: is_outage_outcome_def OUTAGE_OUTCOMES_def)
  have "day_start 0 \<le> usec_per_day" "\<forall>e \<in> set ?ev. day_start 0 \<le> fst e \<and> fst e \<le> min (day_start 0 + usec_per_day) usec_per_day"
    by (simp_all add: day_start_def)
  from downtime_counts_outage_seconds [OF this, of False, unfolded Let_def v n] v show ?thesis by simp
qed

section \<open>Bounds\<close>

lemma secs_superadd:
  assumes "a \<le> c" "c \<le> b"
  shows "max (int_total_seconds (c - a)) 0 + max (int_total_seconds (b - c)) 0 \<le> max (int_total_seconds (b - a)) 0"
proof -
  have "(c - a) div usec_per_second + (b - c) div usec_per_second \<le> (b - a) div usec_per_second"
    by linarith
  with assms show ?thesis by (auto simp: max_int_total_seconds)
qed

lemma secs_mono: "a \<le> b \<Longrightarrow> max (int_total_seconds a) 0 \<le> max (int_total_seconds b) 0"
  by (auto simp: max_int_total_seconds zdiv_mono1)

lemma downtime_loop_bounds:
  assumes "sorted (map fst es)" and "\<forall>e \<in> set es. a \<le> fst e \<and> fst e \<le> b"
    and "case ds of None \<Rightarrow> True | Some d \<Rightarrow> d \<le> a" and "pe \<le> b" and "a \<le> b"
  shows "tot \<le> closed_total (downtime_loop es tot ds) pe
     \<and> closed_total (downtime_loop es tot ds) pe \<le> tot + max (int_total_seconds (b - default_to a ds)) 0"
  using assms
proof (induction es arbitrary: tot ds a)
  case Nil
  then show ?case
    using secs_mono [of "pe - the ds" "b - the ds"] by (cases ds) (simp_all add: closed_total_def)
next
  case (Cons e es)
  obtain c outcome where e: "e = (c, outcome)" by (cases e)
  from Cons.prems e have s: "sorted (map fst es)" and c: "a \<le> c" "c \<le> b"
    and rest: "\<forall>e \<in> set es. c \<le> fst e \<and> fst e \<le> b" by auto
  note IH = Cons.IH [OF s rest _ Cons.prems(4) c(2)]
  show ?case
  proof (cases ds)
    case None
    with IH [of "Some c" tot] IH [of None tot] secs_mono [of "b - c" "b - a"] c show ?thesis
      by (auto simp: e)
  next
    case (Some d)
    with Cons.prems c have d: "d \<le> a" "d \<le> c" by auto
    show ?thesis
    proof (cases "is_outage_outcome outcome")
      case True
      with Some d IH [of "Some d" tot] show ?thesis by (simp add: e)
    next
      case False
      have "0 \<le> max (int_total_seconds (c - d)) 0" by (rule max.cobounded2)
      with secs_superadd [OF d(2) c(2)] IH [of None "tot + max (int_total_seconds (c - d)) 0", simplified]
      show ?thesis
        unfolding e Some downtime_loop.simps option.case default_to_simps if_not_P [OF False] by linarith
    qed
  qed
qed

text \<open>
  The downtime of a day is between 0 and 86400 seconds, whatever the current time is, when the
  checks are those of that day.
\<close>

theorem downtime_within_day:
  assumes "\<forall>e \<in> set events. day_start dy \<le> fst e \<and> fst e \<le> day_start dy + usec_per_day"
  shows "0 \<le> compute_downtime_seconds events dy now cont \<and> compute_downtime_seconds events dy now cont \<le> 86400"
proof -
  have "max (int_total_seconds usec_per_day) 0 = 86400" by (simp add: int_total_seconds_def)
  then show ?thesis
    using downtime_loop_bounds [of "sort_key fst events" "day_start dy" "day_start dy + usec_per_day"
        "if cont then Some (day_start dy) else None" "min (day_start dy + usec_per_day) now" 0] assms
    by (auto simp: compute_downtime_closed)
qed

lemma downtime_within_day_witness:
  "0 \<le> compute_downtime_seconds [(5, ''error'')] 0 usec_per_day True
   \<and> compute_downtime_seconds [(5, ''error'')] 0 usec_per_day True \<le> 86400"
  by (rule downtime_within_day) (simp add: day_start_def)

section \<open>Thresholds\<close>

lemma percent_99: "fl (fl (99 / 100) * 100) = 99"
proof -
  have f: "fl (99 / 100) = 4458563631096791 / 4503599627370496" by (simp add: fl_eval[where k="-1"] pow2_def)
  show ?thesis unfolding f by (simp add: fl_eval[where k="6"] pow2_def)
qed
lemma percent_90: "fl (fl (90 / 100) * 100) = 90"
proof -
  have f: "fl (90 / 100) = 8106479329266893/9007199254740992" by (simp add: fl_eval[where k="-1"] pow2_def)
  show ?thesis unfolding f by (simp add: fl_eval[where k="6"] pow2_def)
qed
lemma percent_98994: "py_round2 (fl (fl (98994 / 100000) * 100)) < 99"
proof -
  have f: "fl (98994 / 100000) = 4458293415119149/4503599627370496" by (simp add: fl_eval[where k="-1"] pow2_def)
  have g: "fl (fl (98994 / 100000) * 100) = 3483041730561835/35184372088832" unfolding f by (simp add: fl_eval[where k="6"] pow2_def)
  show ?thesis unfolding g by (simp add: py_round2_def fl_eval[where k="6"] pow2_def)
qed
lemma percent_89994: "py_round2 (fl (fl (89994 / 100000) * 100)) < 90"
proof -
  have f: "fl (89994 / 100000) = 1013242362163951/1125899906842624" by (simp add: fl_eval[where k="-1"] pow2_def)
  have g: "fl (fl (89994 / 100000) * 100) = 3166382381762347/35184372088832" unfolding f by (simp add: fl_eval[where k="6"] pow2_def)
  show ?thesis unfolding g by (simp add: py_round2_def fl_eval[where k="6"] pow2_def)
qed

definition percent_of :: "int \<Rightarrow> int \<Rightarrow> rat" where
  "percent_of tot ok = py_round2 (fl (fl (of_int ok / of_int tot) * 100))"

lemma fl_percent_mono: "x \<le> y \<Longrightarrow> fl (fl x * 100) \<le> fl (fl y * 100)"
  by (simp add: fl_mono)

lemma percent_of_ge:
  assumes "0 < tot" "n * tot \<le> 100 * ok" "fl (fl (of_int n / 100) * 100) = of_int n" "\<bar>n\<bar> \<le> 2 ^ 53"
  shows "of_int n \<le> percent_of tot ok"
proof -
  have "(of_int (n * tot) :: rat) \<le> of_int (100 * ok)" using assms(2) by (simp only: of_int_le_iff)
  then have "(of_int n :: rat) / 100 \<le> of_int ok / of_int tot"
    using assms(1) by (simp add: field_simps)
  then have "of_int n \<le> fl (fl (of_int ok / of_int tot) * 100)"
    using fl_percent_mono assms(3) by metis
  then show ?thesis using assms(4) by (simp add: percent_of_def round2.r_ge_int)
qed

lemma percent_of_less:
  assumes "0 < tot" "100000 * ok \<le> n * tot" "py_round2 (fl (fl (of_int n / 100000) * 100)) < b"
  shows "percent_of tot ok < b"
proof -
  have "(of_int (100000 * ok) :: rat) \<le> of_int (n * tot)" using assms(2) by (simp only: of_int_le_iff)
  then have "(of_int ok :: rat) / of_int tot \<le> of_int n / 100000"
    using assms(1) by (simp add: field_simps)
  then have "percent_of tot ok \<le> py_round2 (fl (fl (of_int n / 100000) * 100))"
    by (simp add: percent_of_def py_round2_mono fl_percent_mono)
  with assms(3) show ?thesis by simp
qed

lemma percent_of_range:
  assumes "0 < tot" "0 \<le> ok" "ok \<le> tot"
  shows "0 \<le> percent_of tot ok \<and> percent_of tot ok \<le> 100"
proof -
  have "0 \<le> (of_int ok :: rat) / of_int tot \<and> (of_int ok :: rat) / of_int tot \<le> 1" using assms by simp
  then have "0 \<le> fl (of_int ok / of_int tot) \<and> fl (of_int ok / of_int tot) \<le> 1"
    by (metis fl64.r_unit)
  then have "0 \<le> fl (of_int ok / of_int tot) * 100 \<and> fl (of_int ok / of_int tot) * 100 \<le> 100" by linarith
  then have "0 \<le> fl (fl (of_int ok / of_int tot) * 100) \<and> fl (fl (of_int ok / of_int tot) * 100) \<le> 100"
    by (metis fl64.r_percent)
  then show ?thesis unfolding percent_of_def by (metis round2.r_percent)
qed

lemma availability_from_counts_percent:
  "availability_from_counts tot u d = (if tot \<le> 0 then None else Some (percent_of tot (u + d)))"
  by (simp add: availability_from_counts_def percent_of_def)

definition stats_wf :: "DayCheckStats \<Rightarrow> bool" where
  "stats_wf s \<longleftrightarrow> 0 \<le> st_up s \<and> 0 \<le> st_degraded s \<and> 0 \<le> st_failed s \<and> st_up s + st_degraded s + st_failed s \<le> st_total s"

lemma length_filter_three:
  assumes "\<And>x. \<not> (P x \<and> Q x)" "\<And>x. \<not> (P x \<and> R x)" "\<And>x. \<not> (Q x \<and> R x)"
  shows "length (filter P xs) + length (filter Q xs) + length (filter R xs) \<le> length xs"
  using assms by (induction xs) (auto simp: le_Suc_eq)

lemma stats_wf_from_outcomes [simp]: "stats_wf (from_outcomes outcomes dt)"
proof -
  have "length (filter (\<lambda>x. x = CheckOutcome_value UP) outcomes) + length (filter (\<lambda>x. x \<in> set DEGRADED_OUTCOMES) outcomes)
     + length (filter (\<lambda>x. x \<in> set OUTAGE_OUTCOMES) outcomes) \<le> length outcomes"
    by (rule length_filter_three) (auto simp: DEGRADED_OUTCOMES_def OUTAGE_OUTCOMES_def)
  then show ?thesis by (simp add: stats_wf_def from_outcomes_def day_check_counts_def)
qed

lemma stats_wf_empty [simp]: "stats_wf empty_day_stats"
  by (simp add: stats_wf_def empty_day_stats_def)

lemma stats_wf_with_downtime [simp]: "stats_wf (with_downtime s d) = stats_wf s"
  by (simp add: stats_wf_def with_downtime_def)

text \<open>
  Availability is a percentage between 0 and 100, missing exactly when no check was counted.
\<close>

theorem availability_in_percent_range:
  assumes "stats_wf s"
  shows "case availability_from_stats s of None \<Rightarrow> st_total s \<le> 0 | Some a \<Rightarrow> 0 < st_total s \<and> 0 \<le> a \<and> a \<le> 100"
  using assms percent_of_range [of "st_total s" "st_up s + st_degraded s"]
  by (auto simp: availability_from_stats_def availability_from_counts_percent stats_wf_def)

lemma availability_in_percent_range_witness:
  "\<exists>a. availability_from_stats \<lparr>st_downtime_seconds = 0, st_total = 3, st_up = 2, st_degraded = 0, st_failed = 1\<rparr> = Some a
     \<and> 0 \<le> a \<and> a \<le> 100"
  using availability_in_percent_range
    [of "\<lparr>st_downtime_seconds = 0, st_total = 3, st_up = 2, st_degraded = 0, st_failed = 1\<rparr>"]
  by (simp add: stats_wf_def split: option.splits)

lemma status_from_stats_percent:
  "status_from_stats (from_outcomes outcomes dt) = (if outcomes = [] then No_data else
     (let s = from_outcomes outcomes dt; p = percent_of (st_total s) (st_up s + st_degraded s)
      in if 99 \<le> p then Operational else if 90 \<le> p then Degraded_day else Outage))"
  by (simp add: status_from_stats_def availability_from_stats_def availability_from_counts_percent
      status_from_availability_def from_outcomes_def day_check_counts_def Let_def)

lemma status_by_percent:
  assumes "0 < n"
  shows "99 * n \<le> 100 * ok \<Longrightarrow> 99 \<le> percent_of n ok"
    and "90 * n \<le> 100 * ok \<Longrightarrow> 90 \<le> percent_of n ok"
    and "100000 * ok \<le> 98994 * n \<Longrightarrow> percent_of n ok < 99"
    and "100000 * ok \<le> 89994 * n \<Longrightarrow> percent_of n ok < 90"
  using percent_of_ge [OF assms, of 99 ok] percent_of_ge [OF assms, of 90 ok]
    percent_of_less [OF assms, of ok 98994 99] percent_of_less [OF assms, of ok 89994 90]
    percent_99 percent_90 percent_98994 percent_89994
  by simp_all

text \<open>
  The status of a day in integers, rounding of the percentage included: no data without checks;
  operational from 99 % good checks on; degraded from 90 % on and up to 98.994 %; outage up to 89.994 %.
  Between 98.994 % and 99 % (89.994 % and 90 %) rounding to two decimals decides.
\<close>

theorem day_status_thresholds:
  "let s = from_outcomes outcomes dt; ok = st_up s + st_degraded s; n = st_total s; r = status_from_stats s
   in (r = No_data \<longleftrightarrow> outcomes = [])
    \<and> (0 < n \<and> 99 * n \<le> 100 * ok \<longrightarrow> r = Operational)
    \<and> (0 < n \<and> 90 * n \<le> 100 * ok \<and> 100000 * ok \<le> 98994 * n \<longrightarrow> r = Degraded_day)
    \<and> (0 < n \<and> 100000 * ok \<le> 89994 * n \<longrightarrow> r = Outage)"
proof -
  let ?s = "from_outcomes outcomes dt"
  have tot: "st_total ?s = int (length outcomes)" by (simp add: from_outcomes_def day_check_counts_def)
  note cuts = status_by_percent [of "st_total ?s" "st_up ?s + st_degraded ?s"]
  show ?thesis
    using cuts tot by (auto simp: Let_def status_from_stats_percent)
qed

lemma day_status_thresholds_witness:
  "status_from_stats (from_outcomes (replicate 9 ''up'' @ [''timeout'']) 0) = Degraded_day"
  using day_status_thresholds [of "replicate 9 ''up'' @ [''timeout'']" 0]
  by (simp add: from_outcomes_def day_check_counts_def Let_def DEGRADED_OUTCOMES_def)

end
