(* ===== verification/PyJson.thy ===== *)
theory PyJson
  imports PyFloat
begin

text \<open>
  JSON values as Python holds them (a \<open>dict\<close> is an association list in insertion order), the
  accessors the program uses on the \<open>details\<close> column, truth values, and the conversions \<open>float()\<close>
  and \<open>int()\<close>, which fail (\<open>TypeError\<close>, \<open>ValueError\<close>) as \<open>None\<close>. Text is converted when it is a plain
  decimal number; \<open>inf\<close>, \<open>nan\<close> and digit groups with underscores are treated as failures.
\<close>

section \<open>Values\<close>

datatype json =
    JNull
  | JBool bool
  | JInt int
  | JFloat rat
  | JStr string
  | JArr "json list"
  | JObj "(string \<times> json) list"

type_synonym dict = "(string \<times> json) list"

definition jget :: "dict \<Rightarrow> string \<Rightarrow> json" where
  \<comment> \<open>\<open>d.get(k)\<close>\<close>
  "jget d k = default_to JNull (map_of d k)"

definition jset :: "string \<Rightarrow> json \<Rightarrow> dict \<Rightarrow> dict" where
  \<comment> \<open>\<open>d[k] = v\<close>\<close>
  "jset k v d = AList.update k v d"

definition jset_default :: "string \<Rightarrow> json \<Rightarrow> dict \<Rightarrow> dict" where
  \<comment> \<open>\<open>d.setdefault(k, v)\<close>\<close>
  "jset_default k v d = (if map_of d k = None then d @ [(k, v)] else d)"

definition jpop :: "string \<Rightarrow> dict \<Rightarrow> dict" where
  \<comment> \<open>\<open>d.pop(k, None)\<close>\<close>
  "jpop k d = AList.delete k d"

fun as_dict :: "json \<Rightarrow> dict option" where
  \<comment> \<open>\<open>isinstance(v, dict)\<close>\<close>
  "as_dict (JObj d) = Some d"
| "as_dict _ = None"

fun as_list :: "json \<Rightarrow> json list option" where
  "as_list (JArr xs) = Some xs"
| "as_list _ = None"

fun as_str :: "json \<Rightarrow> string option" where
  "as_str (JStr s) = Some s"
| "as_str _ = None"

fun truthy :: "json \<Rightarrow> bool" where
  "truthy JNull = False"
| "truthy (JBool b) = b"
| "truthy (JInt i) = (i \<noteq> 0)"
| "truthy (JFloat x) = (x \<noteq> 0)"
| "truthy (JStr s) = (s \<noteq> [])"
| "truthy (JArr xs) = (xs \<noteq> [])"
| "truthy (JObj d) = (d \<noteq> [])"

definition jor :: "json \<Rightarrow> json \<Rightarrow> json" where
  \<comment> \<open>\<open>a or b\<close>\<close>
  "jor a b = (if truthy a then a else b)"

fun opt_json :: "('a \<Rightarrow> json) \<Rightarrow> 'a option \<Rightarrow> json" where
  "opt_json f None = JNull"
| "opt_json f (Some x) = f x"

section \<open>Numbers\<close>

definition json_digit :: "char \<Rightarrow> bool" where
  "json_digit c \<longleftrightarrow> (let n = of_char c :: nat in 48 \<le> n \<and> n \<le> 57)"

definition dec_value :: "string \<Rightarrow> nat" where
  "dec_value ds = foldl (\<lambda>acc c. 10 * acc + (of_char c - 48)) 0 ds"

lemma of_char_digit_char: "d < 10 \<Longrightarrow> of_char (digit_char d) - 48 = d"
  by (simp add: digit_char_def)

lemma dec_value_nat_str: "dec_value (nat_str n) = n"
proof (induction n rule: nat_str.induct)
  case (1 n)
  show ?case
  proof (cases "n < 10")
    case True
    then show ?thesis by (subst nat_str.simps) (simp add: dec_value_def of_char_digit_char)
  next
    case False
    have "dec_value (nat_str n) = 10 * dec_value (nat_str (n div 10)) + n mod 10"
      using False by (subst nat_str.simps) (simp add: dec_value_def of_char_digit_char)
    with 1 False show ?thesis by simp
  qed
qed

lemma nat_str_inj: "nat_str m = nat_str n \<longleftrightarrow> m = n"
  by (metis dec_value_nat_str)

lemma json_digit_digit_char: "d < 10 \<Longrightarrow> json_digit (digit_char d)"
  by (simp add: json_digit_def digit_char_def)

lemma digits_nat_str: "list_all json_digit (nat_str n) \<and> nat_str n \<noteq> []"
proof (induction n rule: nat_str.induct)
  case (1 n)
  then show ?case
    by (subst (1 2) nat_str.simps) (auto simp: json_digit_digit_char)
qed

definition split_sign :: "string \<Rightarrow> bool \<times> string" where
  "split_sign s = (case s of [] \<Rightarrow> (False, [])
     | c # r \<Rightarrow> if c = CHR ''-'' then (True, r) else if c = CHR ''+'' then (False, r) else (False, s))"

definition int_of_str :: "string \<Rightarrow> int option" where
  "int_of_str s = (case split_sign (strip s) of (neg, ds) \<Rightarrow>
     if ds \<noteq> [] \<and> list_all json_digit ds
     then Some (if neg then - int (dec_value ds) else int (dec_value ds)) else None)"

definition pow10 :: "int \<Rightarrow> rat" where
  "pow10 e = (if 0 \<le> e then 10 ^ nat e else 1 / 10 ^ nat (- e))"

definition float_of_str :: "string \<Rightarrow> rat option" where
  "float_of_str s = (case split_sign (strip s) of (neg, r) \<Rightarrow>
     let ip = takeWhile json_digit r; r1 = dropWhile json_digit r;
         (fp, r2) = (case r1 of [] \<Rightarrow> ([], [])
                     | c # r' \<Rightarrow> if c = CHR ''.'' then (takeWhile json_digit r', dropWhile json_digit r') else ([], r1));
         ex = (case r2 of [] \<Rightarrow> Some 0
               | c # r' \<Rightarrow> if c = CHR ''e'' \<or> c = CHR ''E'' then
                     (case split_sign r' of (eneg, eds) \<Rightarrow>
                        if eds \<noteq> [] \<and> list_all json_digit eds
                        then Some (if eneg then - int (dec_value eds) else int (dec_value eds)) else None)
                   else None)
     in if ip @ fp = [] then None
        else (case ex of None \<Rightarrow> None
              | Some e \<Rightarrow> let m = of_nat (dec_value (ip @ fp)) * pow10 (e - int (length fp))
                         in Some (fl (if neg then - m else m))))"

fun py_float :: "json \<Rightarrow> rat option" where
  \<comment> \<open>\<open>float(v)\<close>\<close>
  "py_float (JBool b) = Some (if b then 1 else 0)"
| "py_float (JInt i) = Some (fl (of_int i))"
| "py_float (JFloat x) = Some x"
| "py_float (JStr s) = float_of_str s"
| "py_float _ = None"

definition trunc :: "rat \<Rightarrow> int" where
  "trunc x = (if x < 0 then - floor (- x) else floor x)"

fun py_int :: "json \<Rightarrow> int option" where
  \<comment> \<open>\<open>int(v)\<close>\<close>
  "py_int (JBool b) = Some (if b then 1 else 0)"
| "py_int (JInt i) = Some i"
| "py_int (JFloat x) = Some (trunc x)"
| "py_int (JStr s) = int_of_str s"
| "py_int _ = None"

text \<open>\<open>str(v)\<close>; floats and containers, which no writer of the program stores where it is applied, have
  no text here.\<close>

fun py_str :: "json \<Rightarrow> string" where
  "py_str JNull = ''None''"
| "py_str (JBool b) = (if b then ''True'' else ''False'')"
| "py_str (JInt i) = int_str i"
| "py_str (JStr s) = s"
| "py_str _ = ''''"

fun is_number :: "json \<Rightarrow> bool" where
  \<comment> \<open>\<open>isinstance(v, (int, float))\<close>; \<open>bool\<close> is a subclass of \<open>int\<close>\<close>
  "is_number (JBool b) = True"
| "is_number (JInt i) = True"
| "is_number (JFloat x) = True"
| "is_number _ = False"

section \<open>Dictionaries\<close>

lemma jget_Nil [simp]: "jget [] k = JNull"
  by (simp add: jget_def)

lemma jget_Cons [simp]: "jget ((k', v) # d) k = (if k = k' then v else jget d k)"
  by (simp add: jget_def)

lemma jget_jset [simp]: "jget (jset k v d) k' = (if k = k' then v else jget d k')"
  by (auto simp: jget_def jset_def update_conv')

lemma jget_jpop [simp]: "jget (jpop k d) k' = (if k = k' then JNull else jget d k')"
  by (simp add: jget_def jpop_def delete_conv')

lemma jget_append: "jget (d @ e) k = (if map_of d k = None then jget e k else jget d k)"
  by (simp add: jget_def map_add_def split: option.splits)

lemma jget_jset_default:
  "jget (jset_default k v d) k' = (if k' = k \<and> map_of d k = None then v else jget d k')"
  by (auto simp: jset_default_def jget_append) (simp_all add: jget_def)

lemma jset_not_Nil [simp]: "jset k v d \<noteq> []"
  by (cases d) (auto simp: jset_def)

lemma distinct_jset [simp]: "distinct (map fst d) \<Longrightarrow> distinct (map fst (jset k v d))"
  by (simp add: jset_def distinct_update)

lemma as_dict_Some [simp]: "as_dict j = Some d \<longleftrightarrow> j = JObj d"
  by (cases j) auto

lemma as_str_Some [simp]: "as_str j = Some s \<longleftrightarrow> j = JStr s"
  by (cases j) auto

lemma as_list_Some [simp]: "as_list j = Some xs \<longleftrightarrow> j = JArr xs"
  by (cases j) auto

lemma py_float_numeral [simp]: "py_float (JInt (numeral n)) = Some (fl (numeral n))"
  by simp

end
