(* ===== verification/Models.thy ===== *)
theory Models
  imports Enums PyJson
begin

text \<open>
  The rows of the database tables (\<open>src/app/models/*.py\<close>), one record per table. A nullable column is
  an \<open>option\<close>, a JSONB column a \<open>json\<close> value (\<open>JNull\<close> when the column is null), a table is the list of
  its rows. Columns no modelled code reads (most creation and update times) are left out.
\<close>

record MonitoringSettings =
  ms_default_poll_interval_seconds :: int
  ms_scheduler_interval_seconds :: int
  ms_default_speed_test_url_template :: string
  ms_default_speed_test_interval_seconds :: int

record Project =
  pr_id :: uuid
  pr_name :: string
  pr_slug :: string
  pr_description :: "string option"
  pr_is_active :: bool
  pr_created_at :: instant

record ComponentGroup =
  cg_id :: uuid
  cg_project_id :: uuid
  cg_name :: string
  cg_slug :: string
  cg_description :: "string option"
  cg_sort_order :: int
  cg_is_active :: bool

record ComponentKind =
  ck_id :: uuid
  ck_name :: string
  ck_slug :: string
  ck_description :: "string option"

record MonitoredComponent =
  mc_id :: uuid
  mc_project_id :: uuid
  mc_component_kind_id :: uuid
  mc_group_id :: "uuid option"
  mc_name :: string
  mc_slug :: string
  mc_description :: "string option"
  mc_environment :: "string option"
  mc_check_url :: string
  mc_check_method :: string
  mc_expected_status_code :: int
  mc_timeout_seconds :: int
  mc_ip_family :: string
  mc_check_type :: string
  mc_check_config :: json
  mc_speed_test_bytes :: "int option"
  mc_speed_test_url_template :: "string option"
  mc_speed_test_interval_seconds :: "int option"
  mc_speed_test_enabled :: bool
  mc_poll_interval_seconds :: "int option"
  mc_sort_order :: int
  mc_connection_mode :: string
  mc_datagate_server_id :: "int option"
  mc_datagate_common_name :: "string option"
  mc_last_checked_at :: "py_datetime option"
  mc_is_active :: bool

record CheckResult =
  cr_id :: uuid
  cr_monitored_component_id :: uuid
  cr_checked_at :: py_datetime
  cr_outcome :: string
  cr_latency_ms :: "int option"
  cr_http_status_code :: "int option"
  cr_error_message :: "string option"
  cr_details :: json

record ConnectionEvent =
  ce_id :: uuid
  ce_monitored_component_id :: uuid
  ce_occurred_at :: instant
  ce_event_type :: string
  ce_outcome :: "string option"
  ce_message :: "string option"
  ce_details :: json

record TunnelPingSample =
  tp_id :: uuid
  tp_monitored_component_id :: uuid
  tp_bucket_start :: instant
  tp_target :: string
  tp_target_host :: "string option"
  tp_samples_sent :: int
  tp_samples_received :: int
  tp_loss_percent :: "rat option"
  tp_min_ms :: "rat option"
  tp_avg_ms :: "rat option"
  tp_max_ms :: "rat option"
  tp_jitter_ms :: "rat option"

record IncidentUpdate =
  iu_id :: uuid
  iu_incident_id :: uuid
  iu_message :: string
  iu_status :: string
  iu_posted_at :: instant

record Incident =
  in_id :: uuid
  in_project_id :: uuid
  in_monitored_component_id :: "uuid option"
  in_title :: string
  in_starts_at :: instant
  in_ends_at :: "instant option"
  in_created_at :: instant

record AccessRole =
  ar_id :: uuid
  ar_name :: string
  ar_slug :: string

record Account =
  ac_id :: uuid
  ac_email :: string
  ac_username :: "string option"
  ac_password_hash :: "string option"
  ac_google_sub :: "string option"
  ac_full_name :: "string option"
  ac_avatar_url :: "string option"
  ac_totp_secret :: "string option"
  ac_is_totp_enabled :: bool
  ac_is_active :: bool
  ac_is_email_verified :: bool
  ac_email_verification_token :: "string option"
  ac_access_roles :: "string list"

record RefreshToken =
  rt_id :: uuid
  rt_account_id :: uuid
  rt_token_hash :: string
  rt_expires_at :: py_datetime
  rt_revoked_at :: "instant option"
  rt_replaced_by_id :: "uuid option"

record DatagateIntegration =
  dg_project_id :: uuid
  dg_base_url :: string
  dg_client_id :: string
  dg_client_secret :: string
  dg_monitor_cn_prefix :: string
  dg_is_enabled :: bool

definition cr_is_success :: "CheckResult \<Rightarrow> bool" where
  "cr_is_success r \<longleftrightarrow> cr_outcome r = CheckOutcome_value UP \<or> cr_outcome r = CheckOutcome_value DEGRADED"

lemma cr_is_success_not_outage: "cr_is_success r \<Longrightarrow> cr_outcome r \<notin> set OUTAGE_OUTCOMES"
  using outage_degraded_up_disjoint by (auto simp: cr_is_success_def)

end
