(* ===== verification/PyTime.thy ===== *)
theory PyTime
  imports Prelude
begin

text \<open>
  The part of Python's \<open>datetime\<close> the program uses: the proleptic Gregorian calendar (days since
  1970-01-01 to year, month, day and back), \<open>datetime.isoformat()\<close> of an aware UTC value,
  \<open>datetime.fromisoformat()\<close> on the extended calendar format (\<open>YYYY-MM-DD\<close>, optionally a separator
  and \<open>HH:MM[:SS[.digits]]\<close>, optionally \<open>Z\<close> or an offset), and the \<open>strftime\<close> directives the labels
  are made of. The main results are the two round trips: civil date to day number, and
  \<open>fromisoformat\<close> of \<open>isoformat\<close>. The basic and the week formats of \<open>fromisoformat\<close>, which no
  value written by the program has, are rejected here.
\<close>

section \<open>Calendar\<close>

text \<open>Years are counted from March, so that the leap day is the last day of a year.\<close>

definition civil_from_days :: "day \<Rightarrow> int \<times> int \<times> int" where
  "civil_from_days z =
     (let n = z + 719468; era = n div 146097; doe = n mod 146097;
          c = min (doe div 36524) 3; doc = doe - 36524 * c;
          q = doc div 1461; doq = doc - 1461 * q;
          r = min (doq div 365) 3; doy = doq - 365 * r;
          mp = (5 * doy + 2) div 153; d = doy - (153 * mp + 2) div 5 + 1;
          m = (if mp < 10 then mp + 3 else mp - 9);
          y = 400 * era + 100 * c + 4 * q + r + (if m \<le> 2 then 1 else 0)
      in (y, m, d))"

definition days_from_civil :: "int \<Rightarrow> int \<Rightarrow> int \<Rightarrow> day" where
  "days_from_civil y m d =
     (let y' = (if m \<le> 2 then y - 1 else y); era = y' div 400; yoe = y' mod 400;
          mp = (if m > 2 then m - 3 else m + 9); doy = (153 * mp + 2) div 5 + d - 1
      in era * 146097 + (yoe * 365 + yoe div 4 - yoe div 100 + doy) - 719468)"

definition is_leap :: "int \<Rightarrow> bool" where
  "is_leap y \<longleftrightarrow> y mod 4 = 0 \<and> (y mod 100 \<noteq> 0 \<or> y mod 400 = 0)"

definition days_in_month :: "int \<Rightarrow> int \<Rightarrow> int" where
  "days_in_month y m =
     (if m = 2 then (if is_leap y then 29 else 28) else if m \<in> {4, 6, 9, 11} then 30 else 31)"

definition valid_date :: "int \<Rightarrow> int \<Rightarrow> int \<Rightarrow> bool" where
  "valid_date y m d \<longleftrightarrow> 1 \<le> y \<and> y \<le> 9999 \<and> 1 \<le> m \<and> m \<le> 12 \<and> 1 \<le> d \<and> d \<le> days_in_month y m"

definition date_of :: "instant \<Rightarrow> day" where "date_of t = t div usec_per_day"

text \<open>0001-01-01 to 9999-12-31, the range of \<open>date\<close>.\<close>

definition date_in_range :: "day \<Rightarrow> bool" where
  "date_in_range z \<longleftrightarrow> - 719162 \<le> z \<and> z \<le> 2932896"

lemma civil_chain:
  fixes z :: int
  obtains era c q r doy where
    "0 \<le> c" "c \<le> 3" "0 \<le> q" "q \<le> 24" "0 \<le> r" "r \<le> 3" "0 \<le> doy" "doy \<le> 365"
    "doy = 365 \<longrightarrow> r = 3 \<and> (q = 24 \<longrightarrow> c = 3)"
    "z + 719468 = 146097 * era + 36524 * c + 1461 * q + 365 * r + doy"
    "civil_from_days z =
       (let mp = (5 * doy + 2) div 153; m = (if mp < 10 then mp + 3 else mp - 9)
        in (400 * era + 100 * c + 4 * q + r + (if m \<le> 2 then 1 else 0), m,
            doy - (153 * mp + 2) div 5 + 1))"
proof -
  define era where "era = (z + 719468) div 146097"
  define doe where "doe = (z + 719468) mod 146097"
  define c where "c = min (doe div 36524) 3"
  define doc where "doc = doe - 36524 * c"
  define q where "q = doc div 1461"
  define doq where "doq = doc - 1461 * q"
  define r where "r = min (doq div 365) 3"
  define doy where "doy = doq - 365 * r"
  have doe: "0 \<le> doe" "doe < 146097" by (simp_all add: doe_def)
  have z: "z + 719468 = 146097 * era + doe"
    unfolding era_def doe_def by (rule mult_div_mod_eq [symmetric])
  have c: "0 \<le> c" "c \<le> 3" using doe by (simp_all add: c_def)
  have doc: "0 \<le> doc" "doc \<le> 36524" "c < 3 \<longrightarrow> doc < 36524"
    using doe unfolding doc_def c_def by (auto simp: min_def)
  have q: "0 \<le> q" "q \<le> 24" using doc by (auto simp: q_def)
  have doq: "0 \<le> doq" "doq < 1461" "q = 24 \<longrightarrow> doq \<le> 1460 \<and> (c < 3 \<longrightarrow> doq < 1460)"
    using doc unfolding doq_def q_def by auto
  have r: "0 \<le> r" "r \<le> 3" using doq by (simp_all add: r_def)
  have doy: "0 \<le> doy" "doy \<le> 365" "doy = 365 \<longrightarrow> r = 3 \<and> (q = 24 \<longrightarrow> c = 3)"
    using doq c unfolding doy_def r_def by (auto simp: min_def split: if_splits)
  have sum: "z + 719468 = 146097 * era + 36524 * c + 1461 * q + 365 * r + doy"
    using z unfolding doy_def doq_def doc_def by linarith
  have "civil_from_days z =
       (let mp = (5 * doy + 2) div 153; m = (if mp < 10 then mp + 3 else mp - 9)
        in (400 * era + 100 * c + 4 * q + r + (if m \<le> 2 then 1 else 0), m,
            doy - (153 * mp + 2) div 5 + 1))"
    unfolding civil_from_days_def Let_def
    unfolding era_def [symmetric] doe_def [symmetric]
    unfolding c_def [symmetric] unfolding doc_def [symmetric] unfolding q_def [symmetric]
    unfolding doq_def [symmetric] unfolding r_def [symmetric] unfolding doy_def [symmetric]
    by (rule refl)
  from that [OF c q r doy sum this] show ?thesis .
qed

lemma month_of_doy:
  fixes doy :: int
  assumes "0 \<le> doy" "doy \<le> 365"
  shows "0 \<le> (5 * doy + 2) div 153 \<and> (5 * doy + 2) div 153 \<le> 11"
  using assms by auto

theorem days_from_civil_from_days:
  "(case civil_from_days z of (y, m, d) \<Rightarrow> days_from_civil y m d) = z"
proof -
  obtain era c q r doy where b: "0 \<le> c" "c \<le> 3" "0 \<le> q" "q \<le> 24" "0 \<le> r" "r \<le> 3" "0 \<le> doy" "doy \<le> 365"
    and z: "z + 719468 = 146097 * era + 36524 * c + 1461 * q + 365 * r + doy"
    and civ: "civil_from_days z =
       (let mp = (5 * doy + 2) div 153; m = (if mp < 10 then mp + 3 else mp - 9)
        in (400 * era + 100 * c + 4 * q + r + (if m \<le> 2 then 1 else 0), m, doy - (153 * mp + 2) div 5 + 1))"
    by (rule civil_chain [of z])
  define yoe where "yoe = 100 * c + 4 * q + r"
  have mod_eq: "(400 * era + 100 * c + 4 * q + r) mod 400 = 100 * c + 4 * q + r"
  proof -
    have "(400 * era + 100 * c + 4 * q + r) mod 400 = (100 * c + 4 * q + r + 400 * era) mod 400"
      by (simp only: ac_simps)
    also have "\<dots> = (100 * c + 4 * q + r) mod 400" by (rule mod_mult_self2)
    finally show ?thesis using b by simp
  qed
  have y: "(400 * era + 100 * c + 4 * q + r) div 400 = era" "(400 * era + 100 * c + 4 * q + r) mod 400 = yoe"
    "yoe div 4 = 25 * c + q" "yoe div 100 = c"
    using b by (auto simp: yoe_def mod_eq)
  define mp where "mp = (5 * doy + 2) div 153"
  define Y where "Y = 400 * era + 100 * c + 4 * q + r"
  define m where "m = (if mp < 10 then mp + 3 else mp - 9)"
  have mp: "0 \<le> mp" "mp \<le> 11" using month_of_doy [OF b(7,8)] by (simp_all add: mp_def)
  have inv: "(if m \<le> 2 then (Y + (if m \<le> 2 then 1 else 0)) - 1 else Y + (if m \<le> 2 then 1 else 0)) = Y"
    "(if m > 2 then m - 3 else m + 9) = mp"
    using mp by (auto simp: m_def)
  have "civil_from_days z = (Y + (if m \<le> 2 then 1 else 0), m, doy - (153 * mp + 2) div 5 + 1)"
    using civ unfolding Let_def by (simp only: m_def Y_def mp_def)
  then have "(case civil_from_days z of (y, m, d) \<Rightarrow> days_from_civil y m d) =
      Y div 400 * 146097 + (Y mod 400 * 365 + Y mod 400 div 4 - Y mod 400 div 100 + doy) - 719468"
    by (simp only: prod.case days_from_civil_def Let_def inv)
  also have "\<dots> = z" using z by (simp add: Y_def y) (simp add: yoe_def)
  finally show ?thesis .
qed

lemma leap_of_chain:
  fixes era c q r :: int
  assumes "0 \<le> c" "c \<le> 3" "0 \<le> q" "q \<le> 24" "r = 3" "q = 24 \<longrightarrow> c = 3"
  shows "is_leap (400 * era + 100 * c + 4 * q + r + 1)"
proof -
  have e: "400 * era + 100 * c + 4 * q + r + 1 = 4 * (100 * era + 25 * c + q + 1)" using assms by simp
  have four: "(400 * era + 100 * c + 4 * q + r + 1) mod 4 = 0" unfolding e by simp
  show ?thesis
  proof (cases "q = 24")
    case True
    with assms have "400 * era + 100 * c + 4 * q + r + 1 = 400 * (era + 1)" by simp
    then have "(400 * era + 100 * c + 4 * q + r + 1) mod 400 = 0" by (simp only: mod_mult_self1_is_0)
    with four show ?thesis by (simp add: is_leap_def)
  next
    case False
    have "400 * era + 100 * c + 4 * q + r + 1 = (4 * q + 4) + 100 * (4 * era + c)" using assms by simp
    then have "(400 * era + 100 * c + 4 * q + r + 1) mod 100 = (4 * q + 4) mod 100"
      by (simp only: mod_mult_self2)
    also have "\<dots> = 4 * q + 4" using assms False by simp
    finally show ?thesis using four assms by (simp add: is_leap_def)
  qed
qed

lemma day_in_month_of_doy:
  fixes doy :: int
  assumes "0 \<le> doy" "doy \<le> 365" "doy = 365 \<longrightarrow> is_leap y"
  shows "let mp = (5 * doy + 2) div 153; m = (if mp < 10 then mp + 3 else mp - 9); d = doy - (153 * mp + 2) div 5 + 1
     in 1 \<le> m \<and> m \<le> 12 \<and> 1 \<le> d \<and> d \<le> days_in_month y m"
proof -
  define mp where "mp = (5 * doy + 2) div 153"
  have mp: "153 * mp \<le> 5 * doy + 2" "5 * doy + 2 < 153 * mp + 153" "0 \<le> mp" "mp \<le> 11"
    using month_of_doy [OF assms(1,2)] unfolding mp_def by auto
  then have "mp \<in> set [0..11]" by simp
  then have "mp = 0 \<or> mp = 1 \<or> mp = 2 \<or> mp = 3 \<or> mp = 4 \<or> mp = 5 \<or> mp = 6 \<or> mp = 7
    \<or> mp = 8 \<or> mp = 9 \<or> mp = 10 \<or> mp = 11" by (simp add: upto.simps del: set_upto)
  then show ?thesis
    unfolding Let_def mp_def [symmetric] days_in_month_def
    using mp(1,2) assms by (elim disjE) (simp_all, linarith)
qed

lemma civil_valid:
  assumes "date_in_range z" and "civil_from_days z = (y, m, d)"
  shows "valid_date y m d"
proof -
  obtain era c q r doy where b: "0 \<le> c" "c \<le> 3" "0 \<le> q" "q \<le> 24" "0 \<le> r" "r \<le> 3" "0 \<le> doy" "doy \<le> 365"
    and leap: "doy = 365 \<longrightarrow> r = 3 \<and> (q = 24 \<longrightarrow> c = 3)"
    and z: "z + 719468 = 146097 * era + 36524 * c + 1461 * q + 365 * r + doy"
    and civ: "civil_from_days z =
       (let mp = (5 * doy + 2) div 153; m = (if mp < 10 then mp + 3 else mp - 9)
        in (400 * era + 100 * c + 4 * q + r + (if m \<le> 2 then 1 else 0), m, doy - (153 * mp + 2) div 5 + 1))"
    by (rule civil_chain [of z])
  define mp where "mp = (5 * doy + 2) div 153"
  define Y where "Y = 400 * era + 100 * c + 4 * q + r"
  have mp: "153 * mp \<le> 5 * doy + 2" "5 * doy + 2 < 153 * mp + 153" "0 \<le> mp" "mp \<le> 11"
    using month_of_doy [OF b(7,8)] unfolding mp_def by auto
  have m: "m = (if mp < 10 then mp + 3 else mp - 9)" and y: "y = Y + (if m \<le> 2 then 1 else 0)"
    and d: "d = doy - (153 * mp + 2) div 5 + 1"
    using trans [OF sym [OF assms(2)] civ, unfolded Let_def, folded mp_def Y_def] by simp_all
  have feb: "mp < 10 \<longleftrightarrow> \<not> m \<le> 2" using m mp by auto
  have "doy = 365 \<longrightarrow> is_leap y"
  proof
    assume 365: "doy = 365"
    with mp have "mp = 11" by linarith
    with feb y have "y = Y + 1" by simp
    with leap_of_chain [OF b(1-4)] leap 365 show "is_leap y" by (simp add: Y_def)
  qed
  from day_in_month_of_doy [OF b(7,8) this]
  have md: "1 \<le> m \<and> m \<le> 12 \<and> 1 \<le> d \<and> d \<le> days_in_month y m"
    by (simp add: Let_def mp_def [symmetric] m d)
  have era: "0 \<le> era" "era \<le> 24" using z b assms(1) by (simp_all add: date_in_range_def)
  have lo: "1 \<le> y"
  proof (cases "Y = 0")
    case True
    with era b have "era = 0 \<and> c = 0 \<and> q = 0 \<and> r = 0" unfolding Y_def by (intro conjI; linarith)
    with z assms(1) have "306 \<le> doy" by (simp add: date_in_range_def)
    with mp have "10 \<le> mp" by linarith
    with feb y True show ?thesis by simp
  next
    case False
    then have "1 \<le> Y" using era b by (simp add: Y_def)
    with y show ?thesis by simp
  qed
  have hi: "y \<le> 9999"
  proof (cases "Y = 9999")
    case True
    with era b have "era = 24 \<and> c = 3 \<and> q = 24 \<and> r = 3" unfolding Y_def by (intro conjI; linarith)
    with z assms(1) have "doy \<le> 305" by (simp add: date_in_range_def)
    with mp have "mp < 10" by linarith
    with feb y True show ?thesis by simp
  next
    case False
    then have "Y \<le> 9998" using era b by (simp add: Y_def)
    with y show ?thesis by simp
  qed
  show ?thesis using md lo hi by (simp add: valid_date_def)
qed

section \<open>Fixed-width decimal fields\<close>

fun pad :: "nat \<Rightarrow> nat \<Rightarrow> string" where
  "pad 0 n = []"
| "pad (Suc k) n = pad k (n div 10) @ [digit_char (n mod 10)]"

definition is_digit :: "char \<Rightarrow> bool" where
  "is_digit c \<longleftrightarrow> (let n = of_char c :: nat in 48 \<le> n \<and> n \<le> 57)"

definition digit_val :: "char \<Rightarrow> nat" where "digit_val c = of_char c - 48"

fun read_digits :: "nat \<Rightarrow> nat \<Rightarrow> string \<Rightarrow> (nat \<times> string) option" where
  "read_digits 0 acc s = Some (acc, s)"
| "read_digits (Suc k) acc [] = None"
| "read_digits (Suc k) acc (c # s) = (if is_digit c then read_digits k (10 * acc + digit_val c) s else None)"

fun expect :: "char \<Rightarrow> string \<Rightarrow> string option" where
  "expect c [] = None"
| "expect c (d # s) = (if c = d then Some s else None)"

lemma of_char_digit: "d < 10 \<Longrightarrow> (of_char (digit_char d) :: nat) = 48 + d"
  unfolding digit_char_def by (subst of_char_of) simp

lemma digit_char_simps [simp]:
  assumes "d < 10"
  shows "is_digit (digit_char d)" "digit_val (digit_char d) = d"
  using of_char_digit [OF assms] assms by (simp_all add: is_digit_def digit_val_def)

lemma length_pad [simp]: "length (pad k n) = k"
  by (induction k arbitrary: n) auto

lemma read_digits_snoc:
  "read_digits (Suc k) acc s =
     (case read_digits k acc s of None \<Rightarrow> None | Some (a, s') \<Rightarrow> read_digits 1 a s')"
  by (induction k acc s rule: read_digits.induct) (auto split: option.splits)

lemma read_digits_pad: "n < 10 ^ k \<Longrightarrow> read_digits k acc (pad k n @ s) = Some (acc * 10 ^ k + n, s)"
proof (induction k arbitrary: n s)
  case 0
  then show ?case by simp
next
  case (Suc k)
  then have "n div 10 < 10 ^ k" by auto
  from Suc.IH [OF this, of "digit_char (n mod 10) # s"] show ?case
    by (simp only: read_digits_snoc [of k] pad.simps append.simps append_assoc)
       (simp add: algebra_simps)
qed

lemma read_digits_pad_0 [simp]: "n < 10 ^ k \<Longrightarrow> read_digits k 0 (pad k n @ s) = Some (n, s)"
  using read_digits_pad [of n k 0 s] by simp

lemma pad_all_digits: "list_all is_digit (pad k n)"
  by (induction k arbitrary: n) auto

section \<open>isoformat and fromisoformat\<close>

definition hour_of :: "instant \<Rightarrow> int" where "hour_of t = t mod usec_per_day div 3600000000"
definition minute_of :: "instant \<Rightarrow> int" where "minute_of t = t mod 3600000000 div 60000000"
definition second_of :: "instant \<Rightarrow> int" where "second_of t = t mod 60000000 div usec_per_second"
definition micro_of :: "instant \<Rightarrow> int" where "micro_of t = t mod usec_per_second"

definition iso_date :: "day \<Rightarrow> string" where
  "iso_date z = (case civil_from_days z of (y, m, d) \<Rightarrow>
     pad 4 (nat y) @ ''-'' @ pad 2 (nat m) @ ''-'' @ pad 2 (nat d))"

definition iso_time :: "instant \<Rightarrow> string" where
  "iso_time t = pad 2 (nat (hour_of t)) @ '':'' @ pad 2 (nat (minute_of t)) @ '':'' @ pad 2 (nat (second_of t))
     @ (if micro_of t = 0 then [] else ''.'' @ pad 6 (nat (micro_of t)))"

definition isoformat :: "instant \<Rightarrow> string" where
  "isoformat t = iso_date (date_of t) @ ''T'' @ iso_time t @ ''+00:00''"

definition parse_date :: "string \<Rightarrow> (day \<times> string) option" where
  "parse_date s =
     Option.bind (read_digits 4 0 s) (\<lambda>(y, s). Option.bind (expect (CHR ''-'') s) (\<lambda>s.
     Option.bind (read_digits 2 0 s) (\<lambda>(m, s). Option.bind (expect (CHR ''-'') s) (\<lambda>s.
     Option.bind (read_digits 2 0 s) (\<lambda>(d, s).
       if valid_date (int y) (int m) (int d) then Some (days_from_civil (int y) (int m) (int d), s) else None)))))"

definition parse_fraction :: "string \<Rightarrow> (nat \<times> string) option" where
  \<comment> \<open>optional fraction: one digit or more, six of them count\<close>
  "parse_fraction s =
     (case s of [] \<Rightarrow> Some (0, [])
      | c # s' \<Rightarrow>
          if c = CHR ''.'' \<or> c = CHR '','' then
            (let ds = takeWhile is_digit s'
             in if ds = [] then None
                else Option.bind (read_digits 6 0 (take 6 (ds @ ''000000''))) (\<lambda>(f, _). Some (f, dropWhile is_digit s')))
          else Some (0, s))"

definition parse_clock :: "string \<Rightarrow> (int \<times> string) option" where
  \<comment> \<open>\<open>HH[:MM[:SS[.f]]]\<close> in microseconds\<close>
  "parse_clock s =
     Option.bind (read_digits 2 0 s) (\<lambda>(h, s).
       case expect (CHR '':'') s of None \<Rightarrow> if h < 24 then Some (int h * 3600000000, s) else None
       | Some s \<Rightarrow> Option.bind (read_digits 2 0 s) (\<lambda>(mi, s).
           case expect (CHR '':'') s of
             None \<Rightarrow> if h < 24 \<and> mi < 60 then Some (int h * 3600000000 + int mi * 60000000, s) else None
           | Some s \<Rightarrow> Option.bind (read_digits 2 0 s) (\<lambda>(sec, s).
               Option.bind (parse_fraction s) (\<lambda>(us, s).
                 if h < 24 \<and> mi < 60 \<and> sec < 60
                 then Some (int h * 3600000000 + int mi * 60000000 + int sec * usec_per_second + int us, s)
                 else None))))"

definition parse_zone :: "instant \<Rightarrow> string \<Rightarrow> py_datetime option" where
  "parse_zone t s =
     (case s of [] \<Rightarrow> Some (Naive t)
      | c # s' \<Rightarrow>
          if c = CHR ''Z'' \<and> s' = [] then Some (Aware t)
          else if c = CHR ''+'' \<or> c = CHR ''-'' then
            Option.bind (parse_clock s') (\<lambda>(off, r).
              if r = [] then Some (Aware (if c = CHR ''+'' then t - off else t + off)) else None)
          else None)"

definition fromisoformat :: "string \<Rightarrow> py_datetime option" where
  "fromisoformat s =
     Option.bind (parse_date s) (\<lambda>(z, s).
       case s of [] \<Rightarrow> Some (Naive (z * usec_per_day))
       | _ # s' \<Rightarrow> Option.bind (parse_clock s') (\<lambda>(clk, r). parse_zone (z * usec_per_day + clk) r))"

lemma parse_date_iso_date:
  assumes "date_in_range z"
  shows "parse_date (iso_date z @ s) = Some (z, s)"
proof -
  obtain y m d where c: "civil_from_days z = (y, m, d)" by (cases "civil_from_days z") auto
  from civil_valid [OF assms c] have v: "valid_date y m d" .
  then have "days_in_month y m \<le> 31" by (auto simp: days_in_month_def)
  with v have r: "0 \<le> y" "nat y < 10 ^ 4" "0 \<le> m" "nat m < 10 ^ 2" "0 \<le> d" "nat d < 10 ^ 2"
    by (auto simp: valid_date_def)
  from days_from_civil_from_days [of z] c have "days_from_civil y m d = z" by simp
  with r v show ?thesis by (simp add: parse_date_def iso_date_def c del: pad.simps power_numeral)
qed

lemma clock_fields:
  "0 \<le> hour_of t" "hour_of t < 24" "0 \<le> minute_of t" "minute_of t < 60" "0 \<le> second_of t" "second_of t < 60"
  "0 \<le> micro_of t" "micro_of t < 1000000"
  "hour_of t * 3600000000 + minute_of t * 60000000 + second_of t * usec_per_second + micro_of t = t mod usec_per_day"
proof -
  have a: "t mod usec_per_day mod 3600000000 = t mod 3600000000" "t mod 3600000000 mod 60000000 = t mod 60000000"
    "t mod 60000000 mod usec_per_second = t mod usec_per_second"
    by (rule mod_mod_cancel, simp)+
  show "hour_of t * 3600000000 + minute_of t * 60000000 + second_of t * usec_per_second + micro_of t = t mod usec_per_day"
    using div_mult_mod_eq [of "t mod usec_per_day" 3600000000] div_mult_mod_eq [of "t mod 3600000000" 60000000]
      div_mult_mod_eq [of "t mod 60000000" usec_per_second]
    unfolding a hour_of_def minute_of_def second_of_def micro_of_def by linarith
  have "0 \<le> t mod usec_per_day" "t mod usec_per_day < usec_per_day" "0 \<le> t mod 3600000000" "t mod 3600000000 < 3600000000"
     "0 \<le> t mod 60000000" "t mod 60000000 < 60000000" by simp_all
  then show "0 \<le> hour_of t" "hour_of t < 24" "0 \<le> minute_of t" "minute_of t < 60" "0 \<le> second_of t" "second_of t < 60"
    "0 \<le> micro_of t" "micro_of t < 1000000"
    unfolding hour_of_def minute_of_def second_of_def micro_of_def by auto
qed

lemma takeWhile_pad: "takeWhile is_digit (pad k n @ CHR ''+'' # s) = pad k n"
    "dropWhile is_digit (pad k n @ CHR ''+'' # s) = CHR ''+'' # s"
proof -
  have "\<not> is_digit (CHR ''+'')" by (simp add: is_digit_def)
  moreover have "\<forall>c \<in> set (pad k n). is_digit c" using pad_all_digits by (simp add: list_all_iff)
  ultimately show "takeWhile is_digit (pad k n @ CHR ''+'' # s) = pad k n"
    "dropWhile is_digit (pad k n @ CHR ''+'' # s) = CHR ''+'' # s"
    by (simp_all add: takeWhile_append2 dropWhile_append2)
qed

lemma read_pad_alone: "n < 10 ^ k \<Longrightarrow> read_digits k 0 (pad k n) = Some (n, [])"
  using read_digits_pad_0 [of n k "[]"] by simp

lemma parse_fraction_iso:
  "parse_fraction ((if micro_of t = 0 then [] else ''.'' @ pad 6 (nat (micro_of t))) @ CHR ''+'' # s) =
     Some (nat (micro_of t), CHR ''+'' # s)"
proof (cases "micro_of t = 0")
  case True
  then show ?thesis by (simp add: parse_fraction_def)
next
  case False
  have lt: "nat (micro_of t) < 10 ^ 6" using clock_fields(8) [of t] clock_fields(7) [of t] by simp
  have ne: "pad 6 (nat (micro_of t)) \<noteq> []" using length_pad [of 6 "nat (micro_of t)"]
    by (metis list.size(3) zero_neq_numeral)
  have tk: "take 6 (pad 6 (nat (micro_of t)) @ ''000000'') = pad 6 (nat (micro_of t))"
    by simp
  show ?thesis using False ne
    by (simp add: parse_fraction_def takeWhile_pad tk read_pad_alone [OF lt] Let_def del: pad.simps)
qed

lemma parse_clock_iso:
  "parse_clock (iso_time t @ CHR ''+'' # s) = Some (t mod usec_per_day, CHR ''+'' # s)"
proof -
  have r: "nat (hour_of t) < 10 ^ 2" "nat (minute_of t) < 10 ^ 2" "nat (second_of t) < 10 ^ 2"
    using clock_fields [of t] by simp_all
  define fr where "fr = (if micro_of t = 0 then [] else ''.'' @ pad 6 (nat (micro_of t)))"
  have F: "parse_fraction (fr @ CHR ''+'' # s) = Some (nat (micro_of t), CHR ''+'' # s)"
    using parse_fraction_iso [of t s] by (simp only: fr_def)
  show ?thesis
    using clock_fields [of t]
    by (simp add: parse_clock_def iso_time_def fr_def [symmetric] read_digits_pad_0 [OF r(1)]
        read_digits_pad_0 [OF r(2)] read_digits_pad_0 [OF r(3)] F nat_less_iff)
qed

text \<open>
  An instant written with \<open>isoformat\<close> is read back unchanged by \<open>fromisoformat\<close>.
\<close>

theorem fromisoformat_isoformat:
  assumes "date_in_range (date_of t)"
  shows "fromisoformat (isoformat t) = Some (Aware t)"
proof -
  have "date_of t * usec_per_day + t mod usec_per_day = t" by (simp add: date_of_def)
  moreover have "parse_clock ''00:00'' = Some (0, [])" by (simp add: parse_clock_def is_digit_def digit_val_def parse_fraction_def numeral_2_eq_2)
  ultimately show ?thesis
    using parse_clock_iso [of t "''00:00''"]
    by (simp add: fromisoformat_def isoformat_def parse_date_iso_date [OF assms] parse_zone_def)
qed

section \<open>strftime\<close>

definition month_names :: "string list" where
  "month_names = [''January'', ''February'', ''March'', ''April'', ''May'', ''June'', ''July'', ''August'',
     ''September'', ''October'', ''November'', ''December'']"

definition weekday_names :: "string list" where
  "weekday_names = [''Mon'', ''Tue'', ''Wed'', ''Thu'', ''Fri'', ''Sat'', ''Sun'']"

definition year_of :: "day \<Rightarrow> int" where "year_of z = (case civil_from_days z of (y, _, _) \<Rightarrow> y)"
definition month_of :: "day \<Rightarrow> int" where "month_of z = (case civil_from_days z of (_, m, _) \<Rightarrow> m)"
definition day_of_month :: "day \<Rightarrow> int" where "day_of_month z = (case civil_from_days z of (_, _, d) \<Rightarrow> d)"
definition weekday_of :: "day \<Rightarrow> int" where "weekday_of z = (z + 3) mod 7"

definition strftime_B :: "day \<Rightarrow> string" where "strftime_B z = month_names ! nat (month_of z - 1)"
definition strftime_b :: "day \<Rightarrow> string" where "strftime_b z = take 3 (strftime_B z)"
definition strftime_b_Y :: "day \<Rightarrow> string" where "strftime_b_Y z = strftime_b z @ '' '' @ int_str (year_of z)"
definition strftime_a :: "day \<Rightarrow> string" where "strftime_a z = weekday_names ! nat (weekday_of z)"
definition strftime_YmdH :: "instant \<Rightarrow> string" where
  "strftime_YmdH t = pad 4 (nat (year_of (date_of t))) @ pad 2 (nat (month_of (date_of t)))
     @ pad 2 (nat (day_of_month (date_of t))) @ pad 2 (nat (hour_of t))"

end
