(* ===== verification/SpeedTestMemory.thy ===== *)
theory SpeedTestMemory
  imports Enums PyTime PyJson
begin

text \<open>
  \<open>src/app/services/speed_test_memory.py\<close>: what a stored speed-test row means (live or carried over,
  meaningful or empty, rate limited), when it was measured, which row of \<open>details.network\<close> is the last
  attempt and the last success, the running statistics, and the row to display. The download and the
  upload series are two copies of the same code with different keys; the copies are instances of one
  definition with the keys as arguments.

  A row is a \<open>dict option\<close> (\<open>dict | None\<close>), a \<open>details\<close> column an arbitrary \<open>json\<close> value.
\<close>

section \<open>Rows\<close>

definition is_live_speed_test_row :: "dict \<Rightarrow> bool" where
  "is_live_speed_test_row d \<longleftrightarrow>
     \<not> (truthy (jget d ''cached'') \<or> truthy (jget d ''deferred'') \<or> truthy (jget d ''throttled'')
        \<or> truthy (jget d ''stale''))"

definition is_deferred_speed_test_row :: "dict \<Rightarrow> bool" where
  "is_deferred_speed_test_row d \<longleftrightarrow>
     truthy (jget d ''cached'') \<or> truthy (jget d ''deferred'') \<or> truthy (jget d ''throttled'')"

definition is_meaningful_speed_test_success :: "dict option \<Rightarrow> bool" where
  "is_meaningful_speed_test_success st =
     (case st of None \<Rightarrow> False
      | Some d \<Rightarrow>
          if d = [] \<or> jget d ''ok'' \<noteq> JBool True then False
          else let bytes_count = default_to 0 (py_float (jor (jget d ''bytes'') (JInt 0)))
               in if bytes_count \<le> 0 then False
                  else if jget d ''mbps'' = JNull then True
                  else (case py_float (jget d ''mbps'') of None \<Rightarrow> False | Some m \<Rightarrow> 0 < m))"

definition stamp_speed_test_measured_at :: "dict \<Rightarrow> instant \<Rightarrow> dict" where
  \<comment> \<open>\<open>when or now\<close> is the second argument\<close>
  "stamp_speed_test_measured_at d w = jset ''measured_at'' (JStr (isoformat w)) d"

definition hydrate_speed_test_measured_at :: "dict option \<Rightarrow> py_datetime option \<Rightarrow> dict option" where
  "hydrate_speed_test_measured_at st checked_at =
     (case st of None \<Rightarrow> None
      | Some d \<Rightarrow>
          if d = [] then None
          else if truthy (jget d ''measured_at'') \<or> checked_at = None then Some d
          else if \<not> is_meaningful_speed_test_success (Some d) \<or> \<not> is_live_speed_test_row d then Some d
          else Some (stamp_speed_test_measured_at d (utc_of (the checked_at))))"

definition parse_speed_test_measured_at :: "dict option \<Rightarrow> instant option" where
  "parse_speed_test_measured_at st =
     (case st of None \<Rightarrow> None
      | Some d \<Rightarrow>
          (case jget d ''measured_at'' of
             JStr raw \<Rightarrow>
               if strip raw = [] then None
               else map_option utc_of (fromisoformat (replace_all ''Z'' ''+00:00'' raw))
           | _ \<Rightarrow> None))"

definition network_of :: "json \<Rightarrow> dict option" where
  \<comment> \<open>the two \<open>isinstance(..., dict)\<close> guards all extractors start with\<close>
  "network_of details = Option.bind (as_dict details) (\<lambda>d. as_dict (jget d ''network''))"

definition last_live_row :: "string \<Rightarrow> string \<Rightarrow> json \<Rightarrow> py_datetime option \<Rightarrow> dict option" where
  "last_live_row attempt_key row_key details checked_at =
     (case network_of details of None \<Rightarrow> None
      | Some network \<Rightarrow>
          (case as_dict (jget network attempt_key) of
             Some last_attempt \<Rightarrow>
               if is_live_speed_test_row last_attempt
               then hydrate_speed_test_measured_at (Some last_attempt) checked_at
               else (case as_dict (jget network row_key) of
                       Some d \<Rightarrow> if is_live_speed_test_row d
                                 then hydrate_speed_test_measured_at (Some d) checked_at else None
                     | None \<Rightarrow> None)
           | None \<Rightarrow>
               (case as_dict (jget network row_key) of
                  Some d \<Rightarrow> if is_live_speed_test_row d
                            then hydrate_speed_test_measured_at (Some d) checked_at else None
                | None \<Rightarrow> None)))"

definition extract_last_live_speed_test_from_details :: "json \<Rightarrow> py_datetime option \<Rightarrow> dict option" where
  "extract_last_live_speed_test_from_details = last_live_row ''speed_test_last_attempt'' ''speed_test''"

definition extract_last_live_speed_test_upload_from_details :: "json \<Rightarrow> py_datetime option \<Rightarrow> dict option" where
  "extract_last_live_speed_test_upload_from_details =
     last_live_row ''speed_test_upload_last_attempt'' ''speed_test_upload''"

definition stored_row :: "string \<Rightarrow> json \<Rightarrow> py_datetime option \<Rightarrow> dict option" where
  "stored_row row_key details checked_at =
     (case network_of details of None \<Rightarrow> None
      | Some network \<Rightarrow>
          (case as_dict (jget network row_key) of None \<Rightarrow> None
           | Some d \<Rightarrow> hydrate_speed_test_measured_at (Some d) checked_at))"

definition extract_speed_test_from_details :: "json \<Rightarrow> py_datetime option \<Rightarrow> dict option" where
  "extract_speed_test_from_details = stored_row ''speed_test''"

definition extract_speed_test_upload_from_details :: "json \<Rightarrow> py_datetime option \<Rightarrow> dict option" where
  "extract_speed_test_upload_from_details = stored_row ''speed_test_upload''"

definition last_success_row :: "string \<Rightarrow> string \<Rightarrow> json \<Rightarrow> py_datetime option \<Rightarrow> dict option" where
  "last_success_row success_key row_key details checked_at =
     (case network_of details of None \<Rightarrow> None
      | Some network \<Rightarrow>
          if is_meaningful_speed_test_success (as_dict (jget network success_key))
          then hydrate_speed_test_measured_at (as_dict (jget network success_key)) checked_at
          else if is_meaningful_speed_test_success (as_dict (jget network row_key))
          then hydrate_speed_test_measured_at (as_dict (jget network row_key)) checked_at
          else None)"

definition extract_last_successful_speed_test :: "json \<Rightarrow> py_datetime option \<Rightarrow> dict option" where
  "extract_last_successful_speed_test = last_success_row ''speed_test_last_success'' ''speed_test''"

definition extract_last_successful_speed_test_upload :: "json \<Rightarrow> py_datetime option \<Rightarrow> dict option" where
  "extract_last_successful_speed_test_upload =
     last_success_row ''speed_test_upload_last_success'' ''speed_test_upload''"

section \<open>Statistics\<close>

definition stats_dict :: "rat \<Rightarrow> rat \<Rightarrow> rat \<Rightarrow> int \<Rightarrow> dict" where
  "stats_dict mn mx av n =
     [(''min_mbps'', JFloat mn), (''max_mbps'', JFloat mx), (''avg_mbps'', JFloat av), (''sample_count'', JInt n)]"

definition normalize_speed_test_stats :: "dict \<Rightarrow> (rat \<times> rat \<times> rat \<times> int) option" where
  \<comment> \<open>a missing key and an unconvertible value both end in \<open>None\<close>\<close>
  "normalize_speed_test_stats s =
     (case (py_float (jget s ''min_mbps''), py_float (jget s ''max_mbps''), py_float (jget s ''avg_mbps''),
            py_int (jget s ''sample_count'')) of
        (Some mn, Some mx, Some av, Some n) \<Rightarrow>
          if n \<le> 0 \<or> mn \<le> 0 \<or> mx \<le> 0 \<or> av \<le> 0 then None
          else if mx < mn then None
          else Some (py_round2 mn, py_round2 mx, py_round2 av, n)
      | _ \<Rightarrow> None)"

definition stats_json :: "rat \<times> rat \<times> rat \<times> int \<Rightarrow> dict" where
  "stats_json = (\<lambda>(mn, mx, av, n). stats_dict mn mx av n)"

definition series_stats :: "string \<Rightarrow> (json \<Rightarrow> py_datetime option \<Rightarrow> dict option) \<Rightarrow> json \<Rightarrow> dict option" where
  "series_stats stats_key last_successful details =
     (case network_of details of None \<Rightarrow> None
      | Some network \<Rightarrow>
          (case Option.bind (as_dict (jget network stats_key)) normalize_speed_test_stats of
             Some q \<Rightarrow> Some (stats_json q)
           | None \<Rightarrow>
               let last_success = last_successful details None
               in if \<not> is_meaningful_speed_test_success last_success then None
                  else map_option (\<lambda>m. stats_dict m m m 1) (py_float (jget (the last_success) ''mbps''))))"

definition extract_speed_test_stats :: "json \<Rightarrow> dict option" where
  "extract_speed_test_stats = series_stats ''speed_test_stats'' extract_last_successful_speed_test"

definition extract_speed_test_upload_stats :: "json \<Rightarrow> dict option" where
  "extract_speed_test_upload_stats = series_stats ''speed_test_upload_stats'' extract_last_successful_speed_test_upload"

definition update_speed_test_stats :: "dict option \<Rightarrow> rat \<Rightarrow> dict" where
  "update_speed_test_stats previous mbps =
     (let v = py_round2 mbps;
          normalized = (case previous of None \<Rightarrow> None | Some d \<Rightarrow> if d = [] then None else normalize_speed_test_stats d)
      in case normalized of None \<Rightarrow> stats_dict v v v 1
         | Some (mn, mx, av, n) \<Rightarrow>
             let cnt = n + 1; avg = fl (fl (fl (av * of_int n) + v) / of_int cnt)
             in stats_dict (py_round2 (min mn v)) (py_round2 (max mx v)) (py_round2 avg) cnt)"

section \<open>Memory across rows\<close>

definition series_memory ::
  "(json \<Rightarrow> py_datetime option \<Rightarrow> dict option) \<Rightarrow> (json \<Rightarrow> py_datetime option \<Rightarrow> dict option) \<Rightarrow>
   (json \<Rightarrow> dict option) \<Rightarrow> string \<Rightarrow> json \<Rightarrow> py_datetime option \<Rightarrow> json \<Rightarrow> py_datetime option \<Rightarrow>
   dict option \<times> dict option \<times> dict option" where
  "series_memory stored last_successful stats success_key latest latest_at history history_at =
     (let previous = stored latest latest_at;
          success0 = last_successful latest latest_at;
          stats0 = stats latest;
          success1 = (if success0 = None \<and> history \<noteq> JNull then last_successful history history_at else success0);
          stats1 = (if stats0 = None \<and> history \<noteq> JNull then stats history else stats0);
          stats2 = (if stats1 = None \<and> is_meaningful_speed_test_success success1
                    then stats (JObj [(''network'', JObj [(success_key, JObj (the success1))])]) else stats1)
      in (previous, success1, stats2))"

definition resolve_speed_test_memory ::
  "json \<Rightarrow> py_datetime option \<Rightarrow> json \<Rightarrow> py_datetime option \<Rightarrow> dict option \<times> dict option \<times> dict option" where
  "resolve_speed_test_memory =
     series_memory extract_speed_test_from_details extract_last_successful_speed_test extract_speed_test_stats
       ''speed_test_last_success''"

definition resolve_speed_test_upload_memory ::
  "json \<Rightarrow> py_datetime option \<Rightarrow> json \<Rightarrow> py_datetime option \<Rightarrow> dict option \<times> dict option \<times> dict option" where
  "resolve_speed_test_upload_memory =
     series_memory extract_speed_test_upload_from_details extract_last_successful_speed_test_upload
       extract_speed_test_upload_stats ''speed_test_upload_last_success''"

section \<open>Rate limiting and display\<close>

definition is_rate_limited_speed_test :: "dict option \<Rightarrow> bool" where
  "is_rate_limited_speed_test st =
     (case st of None \<Rightarrow> False
      | Some d \<Rightarrow>
          if d = [] \<or> jget d ''ok'' = JBool True then False
          else let error = (case map_of d ''error'' of None \<Rightarrow> '''' | Some e \<Rightarrow> py_str e)
               in contains error ''429'' \<or> contains (lower error) ''rate limit'')"

definition pick_display_speed_test :: "dict option \<Rightarrow> dict option \<Rightarrow> dict option" where
  "pick_display_speed_test previous last_successful =
     (if is_meaningful_speed_test_success previous then previous
      else if is_meaningful_speed_test_success last_successful
      then Some (jset ''stale'' (JBool True) (the last_successful))
      else (case previous of None \<Rightarrow> None
            | Some d \<Rightarrow>
                if d \<noteq> [] \<and> jget d ''ok'' = JBool False then previous
                else if d \<noteq> [] then
                  Some (jset_default ''error'' (JStr ''Speed test downloaded no data'') (jset ''ok'' (JBool False) d))
                else previous))"

section \<open>Hundredths\<close>

text \<open>A stored Mbps value is the double nearest to a number of hundredths.\<close>

definition hundredths :: "int \<Rightarrow> rat" where "hundredths k = fl (of_int k / 100)"

lemma hundredths_mono: "a \<le> b \<Longrightarrow> hundredths a \<le> hundredths b"
  by (simp add: hundredths_def fl_mono divide_right_mono)

lemma hundredths_pos: "0 < a \<Longrightarrow> 0 < hundredths a"
  by (simp add: hundredths_def)

lemma py_round2_hundredths_eq: "py_round2 x = hundredths (round_he (x * 100))"
  by (simp add: py_round2_def hundredths_def)

lemma min_hundredths: "min (hundredths a) (hundredths b) = hundredths (min a b)"
  using hundredths_mono [of a b] hundredths_mono [of b a] by (auto simp: min_def)

lemma max_hundredths: "max (hundredths a) (hundredths b) = hundredths (max a b)"
  using hundredths_mono [of a b] hundredths_mono [of b a] by (auto simp: max_def)

definition eps :: rat where "eps = 1 / 2 ^ 53"

lemma fl_err_eps: "0 \<le> x \<Longrightarrow> \<bar>fl x - x\<bar> \<le> x * eps"
  using fl_err [of x] by (simp add: eps_def)

lemma fl_lower: "0 \<le> x \<Longrightarrow> x * (1 - eps) \<le> fl x"
  using fl_err_eps [of x] unfolding right_diff_distrib by linarith

lemma fl_upper: "0 \<le> x \<Longrightarrow> fl x \<le> x * (1 + eps)"
  using fl_err_eps [of x] unfolding distrib_left by linarith

lemma rat_of_bound: "k \<le> 10 ^ 12 \<Longrightarrow> (of_int k :: rat) \<le> 10 ^ 12"
proof -
  assume "k \<le> 10 ^ 12"
  then have "(of_int k :: rat) \<le> of_int (10 ^ 12)" by (simp only: of_int_le_iff)
  then show ?thesis by simp
qed

lemma round_he_near_ge: "of_int n - 1 / 2 < x \<Longrightarrow> n \<le> round_he x"
  using round_he_err [of x] by linarith

lemma round_he_near_le: "x < of_int n + 1 / 2 \<Longrightarrow> round_he x \<le> n"
  using round_he_err [of x] by linarith

lemma py_round2_idem:
  assumes "0 \<le> k" "k \<le> 10 ^ 12"
  shows "py_round2 (hundredths k) = hundredths k"
proof -
  have k: "0 \<le> (of_int k :: rat)" "(of_int k :: rat) \<le> 10 ^ 12"
    using assms(1) rat_of_bound [OF assms(2)] by simp_all
  then have "of_int k / 100 * (1 - eps) \<le> hundredths k" "hundredths k \<le> of_int k / 100 * (1 + eps)"
    unfolding hundredths_def by (intro fl_lower fl_upper, simp)+
  with k have "of_int k - 1 / 2 < hundredths k * 100" "hundredths k * 100 < of_int k + 1 / 2"
    by (simp_all add: eps_def)
  then have "round_he (hundredths k * 100) = k"
    using round_he_near_ge round_he_near_le by (simp add: order_antisym)
  then show ?thesis by (simp add: py_round2_hundredths_eq)
qed

lemma running_average_lower:
  assumes "0 \<le> L" "L \<le> x" "L \<le> y" "1 \<le> n"
  shows "L * (1 - eps) ^ 3 \<le> fl (fl (fl (x * of_int n) + y) / of_int (n + 1))"
proof -
  have e: "0 < 1 - eps" "1 - eps \<le> 1" by (simp_all add: eps_def)
  have n: "0 \<le> (of_int n :: rat)" "(of_int (n + 1) :: rat) = of_int n + 1" "0 < (of_int (n + 1) :: rat)"
    using assms(4) by simp_all
  have "L * of_int n * (1 - eps) \<le> x * of_int n * (1 - eps)"
    using assms n e by (intro mult_right_mono) auto
  also have "\<dots> \<le> fl (x * of_int n)" using assms n by (intro fl_lower) simp
  finally have s: "L * (1 - eps) * of_int n \<le> fl (x * of_int n)" by (simp add: mult.commute mult.left_commute)
  have "L * (1 - eps) \<le> L" using assms(1) e by (simp add: mult_left_le)
  with s assms have "L * (1 - eps) * of_int (n + 1) \<le> fl (x * of_int n) + y" by (simp add: n distrib_left)
  moreover have z: "0 \<le> L * (1 - eps) * of_int (n + 1)" using assms e n by simp
  ultimately have "L * (1 - eps) * of_int (n + 1) * (1 - eps) \<le> fl (fl (x * of_int n) + y)"
    using fl_lower [of "fl (x * of_int n) + y"] e
    by (meson dual_order.trans less_imp_le mult_right_mono)
  then have "L * (1 - eps) * (1 - eps) \<le> fl (fl (x * of_int n) + y) / of_int (n + 1)"
    using n(3) by (simp add: pos_le_divide_eq mult.commute mult.left_commute)
  moreover have "0 \<le> L * (1 - eps) * (1 - eps)" using assms e by simp
  ultimately have "L * (1 - eps) * (1 - eps) * (1 - eps) \<le> fl (fl (fl (x * of_int n) + y) / of_int (n + 1))"
    using fl_lower [of "fl (fl (x * of_int n) + y) / of_int (n + 1)"] e
    by (meson dual_order.trans less_imp_le mult_right_mono)
  then show ?thesis by (simp add: power3_eq_cube mult.assoc)
qed

lemma running_average_upper:
  assumes "0 \<le> x" "0 \<le> y" "x \<le> U" "y \<le> U" "1 \<le> n"
  shows "fl (fl (fl (x * of_int n) + y) / of_int (n + 1)) \<le> U * (1 + eps) ^ 3"
proof -
  have e: "1 \<le> 1 + eps" "0 \<le> 1 + eps" by (simp_all add: eps_def)
  have U: "0 \<le> U" using assms by simp
  have n: "0 \<le> (of_int n :: rat)" "(of_int (n + 1) :: rat) = of_int n + 1" "0 < (of_int (n + 1) :: rat)"
    using assms(5) by simp_all
  have "fl (x * of_int n) \<le> x * of_int n * (1 + eps)" using assms n by (intro fl_upper) simp
  also have "\<dots> \<le> U * of_int n * (1 + eps)" using assms n e by (intro mult_right_mono) auto
  finally have s: "fl (x * of_int n) \<le> U * (1 + eps) * of_int n" by (simp add: mult.commute mult.left_commute)
  have "U \<le> U * (1 + eps)" using U e by (simp add: eps_def)
  with s assms have a: "fl (x * of_int n) + y \<le> U * (1 + eps) * of_int (n + 1)" by (simp add: n distrib_left)
  have "0 \<le> fl (x * of_int n) + y" using assms n by (simp add: fl_nonneg)
  note f = fl_upper [OF this] fl_nonneg [OF this]
  from f(1) a have "fl (fl (x * of_int n) + y) \<le> U * (1 + eps) * of_int (n + 1) * (1 + eps)"
    using e by (meson dual_order.trans mult_right_mono)
  then have b: "fl (fl (x * of_int n) + y) / of_int (n + 1) \<le> U * (1 + eps) * (1 + eps)"
    using n(3) by (simp add: pos_divide_le_eq mult.commute mult.left_commute)
  have "0 \<le> fl (fl (x * of_int n) + y) / of_int (n + 1)" using f(2) n(3) by simp
  from fl_upper [OF this] b have "fl (fl (fl (x * of_int n) + y) / of_int (n + 1)) \<le> U * (1 + eps) * (1 + eps) * (1 + eps)"
    using e by (meson dual_order.trans mult_right_mono)
  then show ?thesis by (simp add: power3_eq_cube mult.assoc)
qed

lemma running_average_hundredths:
  assumes "0 \<le> lo" "lo \<le> b" "lo \<le> k" "b \<le> hi" "k \<le> hi" "hi \<le> 10 ^ 12" "1 \<le> n"
  defines "x \<equiv> fl (fl (fl (hundredths b * of_int n) + hundredths k) / of_int (n + 1))"
  shows "lo \<le> round_he (x * 100) \<and> round_he (x * 100) \<le> hi"
proof -
  have r: "0 \<le> (of_int lo :: rat)" "(of_int lo :: rat) \<le> 10 ^ 12" "0 \<le> (of_int hi :: rat)" "(of_int hi :: rat) \<le> 10 ^ 12"
    using assms(1,2,4,6) rat_of_bound [of lo] rat_of_bound [of hi] by simp_all
  have "of_int lo / 100 * (1 - eps) \<le> hundredths lo" "hundredths hi \<le> of_int hi / 100 * (1 + eps)"
    using r unfolding hundredths_def by (intro fl_lower fl_upper, simp)+
  moreover have "hundredths lo \<le> hundredths b" "hundredths lo \<le> hundredths k" "hundredths b \<le> hundredths hi"
    "hundredths k \<le> hundredths hi" "0 \<le> hundredths b" "0 \<le> hundredths k"
    using assms by (auto intro: hundredths_mono) (simp_all add: hundredths_def fl_nonneg)
  moreover have "0 \<le> of_int lo / 100 * (1 - eps)" using r by (simp add: eps_def)
  ultimately have b: "of_int lo / 100 * (1 - eps) * (1 - eps) ^ 3 \<le> x" "x \<le> of_int hi / 100 * (1 + eps) * (1 + eps) ^ 3"
    unfolding x_def using assms(7)
    by - (rule running_average_lower running_average_upper; linarith)+
  have "(1 - eps) * (1 - eps) ^ 3 \<ge> 1 - 4 * eps" "(1 + eps) * (1 + eps) ^ 3 \<le> 1 + 5 * eps"
    by (simp_all add: eps_def power3_eq_cube)
  then have "of_int lo / 100 * (1 - 4 * eps) \<le> of_int lo / 100 * ((1 - eps) * (1 - eps) ^ 3)"
    "of_int hi / 100 * ((1 + eps) * (1 + eps) ^ 3) \<le> of_int hi / 100 * (1 + 5 * eps)"
    using r by (auto intro!: mult_left_mono)
  with b have "of_int lo / 100 * (1 - 4 * eps) \<le> x" "x \<le> of_int hi / 100 * (1 + 5 * eps)"
    unfolding mult.assoc by linarith+
  with r have "of_int lo - 1 / 2 < x * 100" "x * 100 < of_int hi + 1 / 2" by (simp_all add: eps_def)
  then show ?thesis using round_he_near_ge round_he_near_le by blast
qed

section \<open>The running statistics\<close>

definition stats_hundredths :: "int \<Rightarrow> int \<Rightarrow> int \<Rightarrow> int \<Rightarrow> dict" where
  "stats_hundredths a c b n = stats_dict (hundredths a) (hundredths c) (hundredths b) n"

lemma jget_stats_dict [simp]:
  "jget (stats_dict mn mx av n) ''min_mbps'' = JFloat mn" "jget (stats_dict mn mx av n) ''max_mbps'' = JFloat mx"
  "jget (stats_dict mn mx av n) ''avg_mbps'' = JFloat av" "jget (stats_dict mn mx av n) ''sample_count'' = JInt n"
  "stats_dict mn mx av n \<noteq> []"
  by (simp_all add: stats_dict_def)

lemma normalize_stats_hundredths:
  assumes "1 \<le> a" "a \<le> b" "b \<le> c" "c \<le> 10 ^ 12" "1 \<le> n"
  shows "normalize_speed_test_stats (stats_hundredths a c b n) = Some (hundredths a, hundredths c, hundredths b, n)"
proof -
  have "0 < hundredths a" "0 < hundredths b" "0 < hundredths c" using assms by (simp_all add: hundredths_pos)
  moreover have "hundredths a \<le> hundredths c" using assms by (simp add: hundredths_mono)
  moreover have "py_round2 (hundredths a) = hundredths a" "py_round2 (hundredths b) = hundredths b"
    "py_round2 (hundredths c) = hundredths c" using assms by (simp_all add: py_round2_idem)
  ultimately show ?thesis using assms(5)
    by (simp add: normalize_speed_test_stats_def stats_hundredths_def)
qed

lemma update_stats_hundredths:
  assumes "1 \<le> a" "a \<le> b" "b \<le> c" "c \<le> 10 ^ 12" "1 \<le> n" and k: "1 \<le> k" "k \<le> 10 ^ 12" "k = round_he (m * 100)"
  shows "\<exists>b'. update_speed_test_stats (Some (stats_hundredths a c b n)) m = stats_hundredths (min a k) (max c k) b' (n + 1)
     \<and> min a k \<le> b' \<and> b' \<le> max c k"
proof -
  let ?x = "fl (fl (fl (hundredths b * of_int n) + hundredths k) / of_int (n + 1))"
  have "update_speed_test_stats (Some (stats_hundredths a c b n)) m =
      stats_dict (py_round2 (hundredths (min a k))) (py_round2 (hundredths (max c k))) (py_round2 ?x) (n + 1)"
    using normalize_stats_hundredths [OF assms(1-5)] k(3)
    by (simp add: update_speed_test_stats_def py_round2_hundredths_eq [of m] min_hundredths max_hundredths Let_def
        stats_hundredths_def)
  moreover have "py_round2 (hundredths (min a k)) = hundredths (min a k)" "py_round2 (hundredths (max c k)) = hundredths (max c k)"
    using assms by (simp_all add: py_round2_idem)
  moreover have "min a k \<le> round_he (?x * 100) \<and> round_he (?x * 100) \<le> max c k"
    using assms by (intro running_average_hundredths) auto
  ultimately show ?thesis
    unfolding stats_hundredths_def py_round2_hundredths_eq [of ?x] by (intro exI [of _ "round_he (?x * 100)"]) simp
qed

definition accumulate_stats :: "rat list \<Rightarrow> dict option" where
  "accumulate_stats ms = fold (\<lambda>m s. Some (update_speed_test_stats s m)) ms None"

definition hund_of :: "rat \<Rightarrow> int" where "hund_of m = round_he (m * 100)"

lemma accumulate_stats_invariant:
  assumes "ms \<noteq> []" and "\<forall>m \<in> set ms. 1 \<le> hund_of m \<and> hund_of m \<le> 10 ^ 12"
  shows "\<exists>b. accumulate_stats ms =
       Some (stats_hundredths (Min (hund_of ` set ms)) (Max (hund_of ` set ms)) b (int (length ms)))
     \<and> Min (hund_of ` set ms) \<le> b \<and> b \<le> Max (hund_of ` set ms)"
  using assms
proof (induction ms rule: rev_induct)
  case Nil
  then show ?case by simp
next
  case (snoc m ms)
  show ?case
  proof (cases "ms = []")
    case True
    then show ?thesis
      by (simp add: accumulate_stats_def update_speed_test_stats_def stats_hundredths_def Let_def
          py_round2_hundredths_eq [of m] hund_of_def exI [of _ "round_he (m * 100)"])
  next
    case False
    let ?A = "Min (hund_of ` set ms)" and ?C = "Max (hund_of ` set ms)"
    from snoc False obtain b where IH: "accumulate_stats ms = Some (stats_hundredths ?A ?C b (int (length ms)))"
      "?A \<le> b" "b \<le> ?C" by auto
    have fin: "finite (hund_of ` set ms)" "hund_of ` set ms \<noteq> {}" using False by simp_all
    have A: "1 \<le> ?A" and C: "?C \<le> 10 ^ 12" using snoc.prems fin by (simp_all add: Min_ge_iff Max_le_iff)
    have "1 \<le> int (length ms)" using False by (simp add: Suc_leI)
    from update_stats_hundredths [OF A IH(2,3) C this, of "hund_of m" m] snoc.prems
    obtain b' where "update_speed_test_stats (Some (stats_hundredths ?A ?C b (int (length ms)))) m =
        stats_hundredths (min ?A (hund_of m)) (max ?C (hund_of m)) b' (int (length ms) + 1)"
      "min ?A (hund_of m) \<le> b'" "b' \<le> max ?C (hund_of m)" by (auto simp: hund_of_def)
    moreover have "accumulate_stats (ms @ [m]) = Some (update_speed_test_stats (accumulate_stats ms) m)"
      by (simp add: accumulate_stats_def)
    moreover have "Min (hund_of ` set (ms @ [m])) = min ?A (hund_of m)" "Max (hund_of ` set (ms @ [m])) = max ?C (hund_of m)"
      using fin by (simp_all add: min.commute max.commute)
    ultimately show ?thesis by (intro exI [of _ b']) (simp add: IH(1) add.commute)
  qed
qed

text \<open>
  Feeding measurements one by one into \<open>update_speed_test_stats\<close> yields statistics that pass their own
  validation, count every measurement, hold the smallest and the largest rounded value exactly, and
  whose rounded running average never leaves the range between them, floating-point error included.
\<close>

theorem speed_test_stats_running:
  assumes "ms \<noteq> []" and "\<forall>m \<in> set ms. 1 / 100 \<le> m \<and> m \<le> 10 ^ 10"
  shows "\<exists>s av. accumulate_stats ms = Some s
     \<and> normalize_speed_test_stats s = Some (Min (py_round2 ` set ms), Max (py_round2 ` set ms), av, int (length ms))
     \<and> Min (py_round2 ` set ms) \<le> av \<and> av \<le> Max (py_round2 ` set ms)"
proof -
  have r: "\<forall>m \<in> set ms. 1 \<le> hund_of m \<and> hund_of m \<le> 10 ^ 12"
    using assms(2) by (auto simp: hund_of_def intro!: round_he_ge round_he_le)
  let ?A = "Min (hund_of ` set ms)" and ?C = "Max (hund_of ` set ms)"
  from accumulate_stats_invariant [OF assms(1) r] obtain b where
    b: "accumulate_stats ms = Some (stats_hundredths ?A ?C b (int (length ms)))" "?A \<le> b" "b \<le> ?C" by blast
  have fin: "finite (hund_of ` set ms)" "hund_of ` set ms \<noteq> {}" using assms(1) by simp_all
  have A: "1 \<le> ?A" and C: "?C \<le> 10 ^ 12" using r fin by (simp_all add: Min_ge_iff Max_le_iff)
  have "1 \<le> int (length ms)" using assms(1) by (simp add: Suc_leI)
  note n = normalize_stats_hundredths [OF A b(2,3) C this]
  have mono: "mono hundredths" by (simp add: mono_def hundredths_mono)
  have im: "py_round2 ` set ms = hundredths ` (hund_of ` set ms)"
    by (simp add: image_image py_round2_hundredths_eq hund_of_def)
  have "Min (py_round2 ` set ms) = hundredths ?A" "Max (py_round2 ` set ms) = hundredths ?C"
    using mono_Min_commute [OF mono fin] mono_Max_commute [OF mono fin] by (simp_all add: im)
  with b n show ?thesis by (auto intro: hundredths_mono)
qed

lemma speed_test_stats_running_witness:
  "\<exists>s av. accumulate_stats [10, 20] = Some s \<and> normalize_speed_test_stats s = Some (10, 20, av, 2) \<and> 10 \<le> av \<and> av \<le> 20"
  using speed_test_stats_running [of "[10, 20]"] by simp

section \<open>Time stamps\<close>

lemma pad_chars: "set (pad k n) \<subseteq> {c. is_digit c}"
  using pad_all_digits [of k n] by (auto simp: list_all_iff)

lemma pad_no_Z: "list_all (\<lambda>c. c \<noteq> CHR ''Z'') (pad k n)"
  using pad_all_digits [of k n] by (rule list.pred_mono_strong) (auto simp: is_digit_def)

lemma Z_not_in_iso: "CHR ''Z'' \<notin> set (isoformat t)"
proof -
  have "list_all (\<lambda>c. c \<noteq> CHR ''Z'') (isoformat t)"
    by (simp add: isoformat_def iso_date_def iso_time_def pad_no_Z split: prod.splits)
  then show ?thesis by (auto simp: list_all_iff)
qed

lemma contains_single: "contains s [c] \<longleftrightarrow> c \<in> set s"
  by (auto simp: contains_infix in_set_conv_decomp)

lemma replace_Z_iso: "replace_all ''Z'' new (isoformat t) = isoformat t"
  by (rule replace_all_absent) (simp add: contains_single Z_not_in_iso)

lemma dropWhile_head: "\<not> p c \<Longrightarrow> dropWhile p (c # s) = c # s" by simp

lemma strip_iso: "strip (isoformat t) \<noteq> []"
proof -
  have nd: "\<exists>c s. isoformat t = c # s \<and> is_digit c"
  proof -
    obtain y m d where c: "civil_from_days (date_of t) = (y, m, d)" by (cases "civil_from_days (date_of t)") auto
    obtain c s where "pad 4 (nat y) = c # s" using length_pad [of 4 "nat y"] by (cases "pad 4 (nat y)") auto
    then show ?thesis using pad_chars [of 4 "nat y"] by (auto simp: isoformat_def iso_date_def c)
  qed
  then obtain c s where cs: "isoformat t = c # s" "is_digit c" by blast
  have "\<not> is_space c" using cs(2) by (auto simp: is_digit_def is_space_def Let_def)
  then have "lstrip (isoformat t) = isoformat t" by (simp add: lstrip_def cs)
  moreover have "c \<in> set (isoformat t)" by (simp add: cs)
  ultimately show ?thesis using \<open>\<not> is_space c\<close>
    by (auto simp: strip_def rstrip_by_def)
qed

text \<open>
  A row stamped with the time of a measurement is read back with exactly that time, for every
  date Python can represent.
\<close>

theorem stamp_parse_measured_at:
  assumes "date_in_range (date_of w)"
  shows "parse_speed_test_measured_at (Some (stamp_speed_test_measured_at d w)) = Some w"
  by (simp add: parse_speed_test_measured_at_def stamp_speed_test_measured_at_def strip_iso replace_Z_iso
      fromisoformat_isoformat [OF assms])

lemma stamp_parse_measured_at_witness:
  "parse_speed_test_measured_at (Some (stamp_speed_test_measured_at [(''ok'', JBool True)] 1700000000123456))
     = Some 1700000000123456"
  by (rule stamp_parse_measured_at) (simp add: date_in_range_def date_of_def)

section \<open>Meaningful rows\<close>

lemma meaningful_Some_iff:
  "is_meaningful_speed_test_success (Some d) \<longleftrightarrow>
     jget d ''ok'' = JBool True
     \<and> 0 < default_to 0 (py_float (jor (jget d ''bytes'') (JInt 0)))
     \<and> (jget d ''mbps'' = JNull \<or> (\<exists>m. py_float (jget d ''mbps'') = Some m \<and> 0 < m))"
  by (cases d) (auto simp: is_meaningful_speed_test_success_def Let_def split: option.splits)

lemma meaningful_None [simp]: "\<not> is_meaningful_speed_test_success None"
  by (simp add: is_meaningful_speed_test_success_def)

lemma meaningful_not_Nil: "is_meaningful_speed_test_success (Some d) \<Longrightarrow> d \<noteq> []"
  by (auto simp: is_meaningful_speed_test_success_def)

lemma meaningful_jset [simp]:
  "k \<notin> {''ok'', ''bytes'', ''mbps''} \<Longrightarrow>
   is_meaningful_speed_test_success (Some (jset k v d)) = is_meaningful_speed_test_success (Some d)"
  by (simp add: meaningful_Some_iff)

lemma meaningful_stamp [simp]:
  "is_meaningful_speed_test_success (Some (stamp_speed_test_measured_at d w)) = is_meaningful_speed_test_success (Some d)"
  by (simp add: stamp_speed_test_measured_at_def)

lemma live_stamp [simp]: "is_live_speed_test_row (stamp_speed_test_measured_at d w) = is_live_speed_test_row d"
  by (simp add: is_live_speed_test_row_def stamp_speed_test_measured_at_def)

lemma jget_stamp: "k \<noteq> ''measured_at'' \<Longrightarrow> jget (stamp_speed_test_measured_at d w) k = jget d k"
  by (simp add: stamp_speed_test_measured_at_def)

lemma hydrate_cases:
  assumes "hydrate_speed_test_measured_at (Some d) ct = Some d'"
  shows "d' = d \<or> (\<exists>w. d' = stamp_speed_test_measured_at d w)"
  using assms by (auto simp: hydrate_speed_test_measured_at_def split: if_splits)

lemma hydrate_not_Nil: "d \<noteq> [] \<Longrightarrow> \<exists>d'. hydrate_speed_test_measured_at (Some d) ct = Some d'"
  by (simp add: hydrate_speed_test_measured_at_def)

lemma hydrate_meaningful:
  assumes "hydrate_speed_test_measured_at (Some d) ct = Some d'"
  shows "is_meaningful_speed_test_success (Some d') = is_meaningful_speed_test_success (Some d)"
    "is_live_speed_test_row d' = is_live_speed_test_row d" "jget d' ''mbps'' = jget d ''mbps''"
  using hydrate_cases [OF assms] by (auto simp: jget_stamp)

lemma meaningful_option: "is_meaningful_speed_test_success x \<Longrightarrow> \<exists>d. x = Some d \<and> d \<noteq> []"
  by (cases x) (auto dest: meaningful_not_Nil)

lemma last_live_row_live:
  "last_live_row a r details ct = Some d \<Longrightarrow> is_live_speed_test_row d"
  by (auto simp: last_live_row_def hydrate_meaningful split: option.splits if_splits)

lemma hydrate_keeps_meaningful:
  "hydrate_speed_test_measured_at x ct = Some d \<Longrightarrow> is_meaningful_speed_test_success x
     \<Longrightarrow> is_meaningful_speed_test_success (Some d)"
  by (cases x) (auto simp: hydrate_meaningful)

lemma last_success_row_meaningful:
  "last_success_row s r details ct = Some d \<Longrightarrow> is_meaningful_speed_test_success (Some d)"
  by (auto simp: last_success_row_def hydrate_keeps_meaningful split: option.splits if_splits)

lemma last_success_row_single:
  assumes "is_meaningful_speed_test_success (Some d)"
  shows "\<exists>d'. last_success_row s r (JObj [(''network'', JObj [(s, JObj d)])]) ct = Some d'
     \<and> is_meaningful_speed_test_success (Some d') \<and> jget d' ''mbps'' = jget d ''mbps''"
proof -
  have "last_success_row s r (JObj [(''network'', JObj [(s, JObj d)])]) ct = hydrate_speed_test_measured_at (Some d) ct"
    using assms by (simp add: last_success_row_def network_of_def)
  moreover obtain d' where "hydrate_speed_test_measured_at (Some d) ct = Some d'"
    using hydrate_not_Nil meaningful_not_Nil [OF assms] by blast
  ultimately show ?thesis using hydrate_meaningful assms by metis
qed

lemma last_success_row_time: "last_success_row s r details ct = None \<longleftrightarrow> last_success_row s r details ct2 = None"
  by (auto simp: last_success_row_def split: option.splits dest!: meaningful_option)
     (metis hydrate_not_Nil option.distinct(1))+

section \<open>The interface of a measured series\<close>

text \<open>
  What \<open>series_memory\<close> relies on in the three extractors of a series: a recorded success is meaningful,
  a success written under the series' own key is found again with its speed, a success with a speed
  yields statistics, and a row without a \<open>network\<close> object yields nothing.
\<close>

locale speed_series =
  fixes stored last_ok :: "json \<Rightarrow> py_datetime option \<Rightarrow> dict option"
    and stats :: "json \<Rightarrow> dict option" and success_key :: string
  assumes ok_meaningful: "last_ok details ct = Some d \<Longrightarrow> is_meaningful_speed_test_success (Some d)"
    and ok_carried: "is_meaningful_speed_test_success (Some d) \<Longrightarrow>
      \<exists>d'. last_ok (JObj [(''network'', JObj [(success_key, JObj d)])]) ct = Some d' \<and> jget d' ''mbps'' = jget d ''mbps''"
    and ok_stats: "last_ok details None = Some d \<Longrightarrow> jget d ''mbps'' \<noteq> JNull \<Longrightarrow> stats details \<noteq> None"
    and no_network: "network_of details = None \<Longrightarrow> stored details ct = None \<and> last_ok details ct = None \<and> stats details = None"
begin

lemma memory_success_meaningful:
  assumes "series_memory stored last_ok stats success_key latest la history ha = (previous, Some d, st)"
  shows "is_meaningful_speed_test_success (Some d)"
  using assms ok_meaningful by (auto simp: series_memory_def Let_def split: if_splits)

lemma memory_success_has_stats:
  assumes "series_memory stored last_ok stats success_key latest la history ha = (previous, Some d, st)"
    and "jget d ''mbps'' \<noteq> JNull"
  shows "st \<noteq> None"
proof
  assume st: "st = None"
  have m: "is_meaningful_speed_test_success (Some d)" using assms(1) by (rule memory_success_meaningful)
  with assms(1) st have "stats (JObj [(''network'', JObj [(success_key, JObj d)])]) = None"
    by (auto simp: series_memory_def Let_def split: if_splits)
  moreover obtain d' where "last_ok (JObj [(''network'', JObj [(success_key, JObj d)])]) None = Some d'"
    "jget d' ''mbps'' = jget d ''mbps''" using ok_carried [OF m, of None] by blast
  ultimately show False using ok_stats assms(2) by metis
qed

lemma memory_survives_gap:
  assumes "network_of latest = None" and "history \<noteq> JNull"
  shows "\<exists>st. series_memory stored last_ok stats success_key latest la history ha = (None, last_ok history ha, st)"
  using no_network [OF assms(1)] assms(2) by (simp add: series_memory_def Let_def)

lemma memory_latest_wins:
  assumes "last_ok latest la = Some d"
  shows "\<exists>st. series_memory stored last_ok stats success_key latest la history ha = (stored latest la, Some d, st)"
  using assms by (simp add: series_memory_def Let_def)

end

lemma series_stats_from_success:
  assumes "last_success_row s r details None = Some d" and "jget d ''mbps'' \<noteq> JNull"
  shows "series_stats k (last_success_row s r) details \<noteq> None"
proof -
  have m: "is_meaningful_speed_test_success (Some d)" by (rule last_success_row_meaningful [OF assms(1)])
  then obtain v where "py_float (jget d ''mbps'') = Some v" using assms(2) by (auto simp: meaningful_Some_iff)
  moreover obtain network where "network_of details = Some network"
    using assms(1) by (auto simp: last_success_row_def split: option.splits)
  ultimately show ?thesis using assms(1) m by (simp add: series_stats_def split: option.splits)
qed

lemma last_success_row_carried:
  "is_meaningful_speed_test_success (Some d) \<Longrightarrow>
   \<exists>d'. last_success_row s r (JObj [(''network'', JObj [(s, JObj d)])]) ct = Some d' \<and> jget d' ''mbps'' = jget d ''mbps''"
  using last_success_row_single [of d s r ct] by blast

lemma series_no_network:
  "network_of details = None \<Longrightarrow> stored_row r details ct = None \<and> last_success_row s r details ct = None
     \<and> series_stats k ok details = None"
  by (simp add: stored_row_def last_success_row_def series_stats_def)

interpretation download: speed_series extract_speed_test_from_details extract_last_successful_speed_test
  extract_speed_test_stats "''speed_test_last_success''"
  unfolding extract_speed_test_from_details_def extract_last_successful_speed_test_def extract_speed_test_stats_def
  by unfold_locales
    (erule last_success_row_meaningful | erule last_success_row_carried
      | erule (1) series_stats_from_success | erule series_no_network)+

interpretation upload: speed_series extract_speed_test_upload_from_details extract_last_successful_speed_test_upload
  extract_speed_test_upload_stats "''speed_test_upload_last_success''"
  unfolding extract_speed_test_upload_from_details_def extract_last_successful_speed_test_upload_def
    extract_speed_test_upload_stats_def
  by unfold_locales
    (erule last_success_row_meaningful | erule last_success_row_carried
      | erule (1) series_stats_from_success | erule series_no_network)+

text \<open>
  The speed memory survives checks without network details (down, timeout): the last success of the
  history row is returned for both series, and whenever the returned success has a speed, statistics
  are returned with it.
\<close>

theorem speed_memory_survives_gap:
  assumes "network_of latest = None" and "history \<noteq> JNull"
    and "extract_last_successful_speed_test history ha = Some d" and "jget d ''mbps'' \<noteq> JNull"
    and "extract_last_successful_speed_test_upload history ha = Some u" and "jget u ''mbps'' \<noteq> JNull"
  shows "\<exists>st su. resolve_speed_test_memory latest la history ha = (None, Some d, Some st)
     \<and> resolve_speed_test_upload_memory latest la history ha = (None, Some u, Some su)"
proof -
  obtain st su where
    "resolve_speed_test_memory latest la history ha = (None, Some d, st)"
    "resolve_speed_test_upload_memory latest la history ha = (None, Some u, su)"
    using download.memory_survives_gap [OF assms(1,2), of la ha] upload.memory_survives_gap [OF assms(1,2), of la ha]
    unfolding resolve_speed_test_memory_def resolve_speed_test_upload_memory_def assms(3,5) by blast
  moreover from this have "st \<noteq> None" "su \<noteq> None"
    using download.memory_success_has_stats upload.memory_success_has_stats assms(4,6)
    unfolding resolve_speed_test_memory_def resolve_speed_test_upload_memory_def by blast+
  ultimately show ?thesis by auto
qed

definition sample_row :: dict where
  "sample_row = [(''ok'', JBool True), (''bytes'', JInt 1000000), (''mbps'', JInt 80), (''measured_at'', JStr ''2024-01-01T00:00:00+00:00'')]"

lemma speed_memory_survives_gap_witness:
  "\<exists>st su. resolve_speed_test_memory JNull None
      (JObj [(''network'', JObj [(''speed_test'', JObj sample_row), (''speed_test_upload'', JObj sample_row)])]) None
      = (None, Some sample_row, Some st)
   \<and> resolve_speed_test_upload_memory JNull None
      (JObj [(''network'', JObj [(''speed_test'', JObj sample_row), (''speed_test_upload'', JObj sample_row)])]) None
      = (None, Some sample_row, Some su)"
proof (rule speed_memory_survives_gap)
  have m: "is_meaningful_speed_test_success (Some sample_row)"
    by (simp add: meaningful_Some_iff sample_row_def jor_def)
  then show "extract_last_successful_speed_test
     (JObj [(''network'', JObj [(''speed_test'', JObj sample_row), (''speed_test_upload'', JObj sample_row)])]) None = Some sample_row"
    "extract_last_successful_speed_test_upload
     (JObj [(''network'', JObj [(''speed_test'', JObj sample_row), (''speed_test_upload'', JObj sample_row)])]) None = Some sample_row"
    by (simp_all add: extract_last_successful_speed_test_def extract_last_successful_speed_test_upload_def
        last_success_row_def network_of_def hydrate_speed_test_measured_at_def) (simp_all add: sample_row_def)
qed (simp_all add: network_of_def sample_row_def)

section \<open>Display\<close>

text \<open>
  The displayed row never claims a success it does not have: a row shown as ok is a meaningful
  measurement; a row taken from the last success is marked stale; and nothing is shown only when there
  is neither a row nor a success.
\<close>

theorem pick_display_honest:
  "case pick_display_speed_test p l of
     None \<Rightarrow> p = None \<and> \<not> is_meaningful_speed_test_success l
   | Some d \<Rightarrow>
       (jget d ''ok'' = JBool True \<longrightarrow> is_meaningful_speed_test_success (Some d))
       \<and> (\<not> is_meaningful_speed_test_success p \<and> is_meaningful_speed_test_success l \<longrightarrow>
            jget d ''stale'' = JBool True \<and> (\<forall>k. k \<noteq> ''stale'' \<longrightarrow> jget d k = jget (the l) k))"
  by (cases l) (auto simp: pick_display_speed_test_def jget_jset_default split: option.splits)

lemma pick_display_honest_witness:
  "case pick_display_speed_test (Some [(''ok'', JBool True), (''bytes'', JInt 0)]) None of
     None \<Rightarrow> False | Some d \<Rightarrow> jget d ''ok'' = JBool False"
  using pick_display_honest [of "Some [(''ok'', JBool True), (''bytes'', JInt 0)]" None]
  by (simp add: pick_display_speed_test_def meaningful_Some_iff jor_def jset_default_def jset_def split: option.splits)

end
