(* ===== verification/SpeedTestConfig.thy ===== *)
theory SpeedTestConfig
  imports Models SpeedTestMemory
begin

text \<open>
  \<open>src/app/services/speed_test_config.py\<close>: URL templates, when a component is due for a live speed
  test, which of the due components run in a worker cycle, the process-wide live slot, and the
  request-rate estimate behind the admin warning. \<open>hashlib.sha256(...).hexdigest()\<close> is the argument
  \<open>sha256_hex\<close>. The slot's state is the module variable \<open>_speed_test_last_at\<close>, a monotonic clock
  reading in seconds.
\<close>

record SpeedTestRunContext =
  rc_url_template :: string
  rc_run_speed_test :: bool
  rc_previous_speed_test :: "dict option"
  rc_last_successful_speed_test :: "dict option"
  rc_previous_speed_test_stats :: "dict option"
  rc_last_live_speed_test :: "dict option"
  rc_previous_speed_test_upload :: "dict option"
  rc_last_successful_speed_test_upload :: "dict option"
  rc_previous_speed_test_upload_stats :: "dict option"
  rc_last_live_speed_test_upload :: "dict option"

definition default_context :: "settings \<Rightarrow> SpeedTestRunContext" where
  "default_context cfg =
     \<lparr>rc_url_template = default_speed_test_url_template cfg, rc_run_speed_test = True,
      rc_previous_speed_test = None, rc_last_successful_speed_test = None, rc_previous_speed_test_stats = None,
      rc_last_live_speed_test = None, rc_previous_speed_test_upload = None,
      rc_last_successful_speed_test_upload = None, rc_previous_speed_test_upload_stats = None,
      rc_last_live_speed_test_upload = None\<rparr>"

section \<open>Live slot\<close>

definition try_acquire_speed_test_slot :: "rat \<Rightarrow> rat \<Rightarrow> bool \<times> rat" where
  \<comment> \<open>clock reading, last grant; the lock makes the body atomic\<close>
  "try_acquire_speed_test_slot current last_at =
     (if fl (current - last_at) < of_int SPEED_TEST_MIN_GAP_SECONDS then (False, last_at) else (True, current))"

definition is_cloudflare_speed_test_template :: "settings \<Rightarrow> string \<Rightarrow> bool" where
  "is_cloudflare_speed_test_template cfg template =
     starts_with (strip template) (cloudflare_speed_test_origin cfg @ ''/'')"

section \<open>URL templates\<close>

definition validate_speed_test_url_template :: "string \<Rightarrow> string res" where
  "validate_speed_test_url_template v =
     (let trimmed = strip v
      in if trimmed = [] then Inl (ValueError ''Speed test URL template is required'')
         else if \<not> contains trimmed ''{bytes}'' then
           Inl (ValueError ''Speed test URL template must include the {bytes} placeholder'')
         else if \<not> starts_with trimmed ''https://'' then Inl (ValueError ''Speed test URL must use HTTPS'')
         else if length trimmed > 2048 then Inl (ValueError ''Speed test URL template is too long'')
         else Inr trimmed)"

text \<open>\<open>str.format(bytes=n)\<close> on templates whose only fields are \<open>{bytes}\<close>; any other field or a lone
  brace raises (\<open>None\<close>).\<close>

fun format_bytes :: "string \<Rightarrow> string \<Rightarrow> string option" where
  "format_bytes n [] = Some []"
| "format_bytes n (c # s) =
     (if c = CHR ''{'' then
        (if starts_with s ''{'' then map_option ((#) (CHR ''{'')) (format_bytes n (drop 1 s))
         else if starts_with s ''bytes}'' then map_option ((@) n) (format_bytes n (drop 6 s))
         else None)
      else if c = CHR ''}'' then
        (if starts_with s ''}'' then map_option ((#) (CHR ''}'')) (format_bytes n (drop 1 s)) else None)
      else map_option ((#) c) (format_bytes n s))"

definition build_speed_test_url :: "string \<Rightarrow> int \<Rightarrow> string res" where
  "build_speed_test_url template bytes_count =
     (case validate_speed_test_url_template template of
        Inl e \<Rightarrow> Inl e
      | Inr t \<Rightarrow> (case format_bytes (int_str bytes_count) t of
                    None \<Rightarrow> Inl (ValueError ''format'') | Some u \<Rightarrow> Inr u))"

definition build_speed_test_upload_url :: "string \<Rightarrow> string option res" where
  "build_speed_test_upload_url template =
     (case validate_speed_test_url_template template of
        Inl e \<Rightarrow> Inl e
      | Inr trimmed \<Rightarrow>
          if \<not> contains trimmed ''__down'' then Inr None
          else let u1 = replace_all ''__down'' ''__up'' trimmed;
                   u2 = replace_all ''&bytes={bytes}'' '''' (replace_all ''?bytes={bytes}'' '''' u1);
                   u3 = replace_all ''bytes={bytes}'' '''' u2
               in Inr (Some (if ends_with u3 ''?'' \<or> ends_with u3 ''&'' then butlast u3 else u3)))"

definition effective_speed_test_url_template :: "settings \<Rightarrow> MonitoredComponent \<Rightarrow> MonitoringSettings \<Rightarrow> string" where
  "effective_speed_test_url_template cfg c ms =
     (case mc_speed_test_url_template c of
        Some (x # xs) \<Rightarrow> strip (x # xs)
      | _ \<Rightarrow> strip (if ms_default_speed_test_url_template ms = [] then default_speed_test_url_template cfg
                   else ms_default_speed_test_url_template ms))"

definition effective_speed_test_interval_seconds :: "MonitoredComponent \<Rightarrow> MonitoringSettings \<Rightarrow> int" where
  "effective_speed_test_interval_seconds c ms =
     default_to (ms_default_speed_test_interval_seconds ms) (mc_speed_test_interval_seconds c)"

definition uses_default_cloudflare_template :: "settings \<Rightarrow> MonitoredComponent \<Rightarrow> MonitoringSettings \<Rightarrow> bool" where
  "uses_default_cloudflare_template cfg c ms =
     is_cloudflare_speed_test_template cfg (effective_speed_test_url_template cfg c ms)"

section \<open>Scheduling\<close>

definition effective_speed_test_retry_seconds ::
  "MonitoredComponent \<Rightarrow> MonitoringSettings \<Rightarrow> dict option \<Rightarrow> int" where
  "effective_speed_test_retry_seconds c ms previous =
     (let interval = effective_speed_test_interval_seconds c ms
      in if is_rate_limited_speed_test previous then max interval SPEED_TEST_RATE_LIMIT_BACKOFF_SECONDS else interval)"

definition total_seconds :: "int \<Rightarrow> rat" where
  \<comment> \<open>\<open>timedelta.total_seconds()\<close>\<close>
  "total_seconds us = fl (of_int us / 1000000)"

definition details_of :: "CheckResult \<Rightarrow> json" where
  \<comment> \<open>\<open>details if isinstance(details, dict) else None\<close>\<close>
  "details_of r = (case cr_details r of JObj d \<Rightarrow> JObj d | _ \<Rightarrow> JNull)"

definition speed_test_scheduling_row :: "CheckResult \<Rightarrow> dict \<Rightarrow> dict option" where
  \<comment> \<open>the row the interval is counted from; \<open>None\<close>: never measured live, stay due\<close>
  "speed_test_scheduling_row r previous =
     (case extract_last_live_speed_test_from_details (details_of r) (Some (cr_checked_at r)) of
        Some d \<Rightarrow> Some d
      | None \<Rightarrow>
          if is_deferred_speed_test_row previous \<and> parse_speed_test_measured_at (Some previous) = None then None
          else Some previous)"

definition should_run_speed_test ::
  "MonitoredComponent \<Rightarrow> MonitoringSettings \<Rightarrow> CheckResult option \<Rightarrow> instant \<Rightarrow> bool" where
  "should_run_speed_test c ms latest now =
     (if \<not> mc_speed_test_enabled c then False
      else case latest of None \<Rightarrow> True
      | Some r \<Rightarrow>
          (case extract_speed_test_from_details (details_of r) (Some (cr_checked_at r)) of
             None \<Rightarrow> True
           | Some previous \<Rightarrow>
               (case speed_test_scheduling_row r previous of
                  None \<Rightarrow> True
                | Some scheduling \<Rightarrow>
                    if is_live_speed_test_row scheduling \<and> jget scheduling ''ok'' = JBool True
                       \<and> \<not> is_meaningful_speed_test_success (Some scheduling) then True
                    else let retry_after = effective_speed_test_retry_seconds c ms (Some scheduling)
                         in if retry_after \<le> 0 then True
                            else let measured_at = default_to (utc_of (cr_checked_at r))
                                                     (parse_speed_test_measured_at (Some scheduling))
                                 in of_int retry_after \<le> total_seconds (now - measured_at))))"

fun hex_digit :: "char \<Rightarrow> nat" where
  "hex_digit c = (let n = of_char c :: nat in if n \<le> 57 then n - 48 else if n \<le> 70 then n - 55 else n - 87)"

definition int_base16 :: "string \<Rightarrow> int" where
  "int_base16 s = int (foldl (\<lambda>acc c. 16 * acc + hex_digit c) 0 s)"

definition speed_test_stagger_key :: "(string \<Rightarrow> string) \<Rightarrow> uuid \<Rightarrow> instant \<Rightarrow> int \<times> string" where
  "speed_test_stagger_key sha256_hex cid now =
     (int_base16 (take 8 (sha256_hex (cid @ '':'' @ strftime_YmdH now))), cid)"

definition datetime_min :: instant where "datetime_min = - 62135596800000000"

definition stagger_measured_at :: "(uuid \<Rightarrow> CheckResult option) \<Rightarrow> MonitoredComponent \<Rightarrow> instant" where
  "stagger_measured_at latest_by_id c =
     (let latest = latest_by_id (mc_id c);
          details = (case latest of None \<Rightarrow> JNull | Some r \<Rightarrow> details_of r);
          checked_at = map_option cr_checked_at latest;
          scheduling = py_or (extract_last_live_speed_test_from_details details checked_at)
                             (extract_speed_test_from_details details checked_at)
      in default_to datetime_min (parse_speed_test_measured_at scheduling))"

definition staggered_due ::
  "(string \<Rightarrow> string) \<Rightarrow> MonitoredComponent list \<Rightarrow> MonitoringSettings \<Rightarrow> (uuid \<Rightarrow> CheckResult option) \<Rightarrow> instant
     \<Rightarrow> ((instant \<times> (int \<times> string)) \<times> uuid) list" where
  "staggered_due sha256_hex components ms latest_by_id now =
     map (\<lambda>c. ((stagger_measured_at latest_by_id c, speed_test_stagger_key sha256_hex (mc_id c) now), mc_id c))
       (filter (\<lambda>c. should_run_speed_test c ms (latest_by_id (mc_id c)) now) components)"

definition pick_staggered_speed_test_component_ids ::
  "(string \<Rightarrow> string) \<Rightarrow> MonitoredComponent list \<Rightarrow> MonitoringSettings \<Rightarrow> (uuid \<Rightarrow> CheckResult option) \<Rightarrow> instant
     \<Rightarrow> int \<Rightarrow> uuid list" where
  "pick_staggered_speed_test_component_ids sha256_hex components ms latest_by_id now limit =
     map snd (take (nat limit) (sort_key fst (staggered_due sha256_hex components ms latest_by_id now)))"

section \<open>Request rate\<close>

definition effective_poll_interval_seconds :: "MonitoredComponent \<Rightarrow> MonitoringSettings \<Rightarrow> int" where
  "effective_poll_interval_seconds c ms =
     (case mc_poll_interval_seconds c of
        None \<Rightarrow> ms_default_poll_interval_seconds ms
      | Some p \<Rightarrow> if p = 0 then ms_default_poll_interval_seconds ms else p)"

fun estimate_loop :: "MonitoringSettings \<Rightarrow> MonitoredComponent list \<Rightarrow> rat \<Rightarrow> int list \<Rightarrow> rat \<times> int list" where
  "estimate_loop ms [] tot unbounded = (tot, unbounded)"
| "estimate_loop ms (c # cs) tot unbounded =
     (if \<not> mc_is_active c \<or> \<not> mc_speed_test_enabled c then estimate_loop ms cs tot unbounded
      else let poll_interval = max (effective_poll_interval_seconds c ms) 1;
               speed_interval = effective_speed_test_interval_seconds c ms
           in if speed_interval \<le> 0 then estimate_loop ms cs tot (unbounded @ [poll_interval])
              else estimate_loop ms cs (fl (tot + fl (60 / of_int (max poll_interval speed_interval)))) unbounded)"

definition estimate_speed_tests_per_minute :: "MonitoredComponent list \<Rightarrow> MonitoringSettings \<Rightarrow> rat" where
  "estimate_speed_tests_per_minute cs ms =
     (case estimate_loop ms cs 0 [] of
        (tot, []) \<Rightarrow> tot
      | (tot, p # ps) \<Rightarrow>
          fl (tot + fl (60 / of_int (max (foldl min p ps) SPEED_TEST_MIN_GAP_SECONDS))))"

definition estimate_speed_test_http_requests_per_minute ::
  "settings \<Rightarrow> MonitoredComponent list \<Rightarrow> MonitoringSettings \<Rightarrow> rat res" where
  \<comment> \<open>\<open>any\<close> stops at the first component with an upload URL or at the first template that does not validate\<close>
  "estimate_speed_test_http_requests_per_minute cfg cs ms =
     (let slots = estimate_speed_tests_per_minute cs ms
      in if cs = [] then Inr slots
         else case find (\<lambda>u. u \<noteq> Inr None)
                     (map (\<lambda>c. build_speed_test_upload_url (effective_speed_test_url_template cfg c ms))
                        (filter (\<lambda>c. mc_is_active c \<and> mc_speed_test_enabled c) cs)) of
                None \<Rightarrow> Inr (fl (slots * 1))
              | Some (Inl e) \<Rightarrow> Inl e
              | Some (Inr _) \<Rightarrow> Inr (fl (slots * 2)))"

definition format_1f :: "rat \<Rightarrow> string" where
  \<comment> \<open>\<open>f\"{x:.1f}\"\<close> for a non-negative \<open>x\<close>\<close>
  "format_1f x = (let k = nat (round_he (x * 10)) in nat_str (k div 10) @ ''.'' @ nat_str (k mod 10))"

definition removeprefix :: "string \<Rightarrow> string \<Rightarrow> string" where
  "removeprefix p s = (if starts_with s p then drop (length p) s else s)"

definition speed_test_rate_warning :: "settings \<Rightarrow> MonitoredComponent list \<Rightarrow> MonitoringSettings \<Rightarrow> string option res" where
  "speed_test_rate_warning cfg cs ms =
     (let active_vpn = filter (\<lambda>c. mc_is_active c \<and> mc_speed_test_enabled c) cs
      in if active_vpn = [] then Inr None
         else if \<not> list_ex (\<lambda>c. uses_default_cloudflare_template cfg c ms) active_vpn then Inr None
         else case estimate_speed_test_http_requests_per_minute cfg active_vpn ms of
                Inl e \<Rightarrow> Inl e
              | Inr per_minute \<Rightarrow>
                  if per_minute \<le> of_int GUIDANCE_REQUESTS_PER_MINUTE then Inr None
                  else Inr (Some
                    (nat_str (length active_vpn) @ '' active VPN services may trigger about ''
                     @ format_1f per_minute @ '' speed-test HTTP requests per minute on ''
                     @ rstrip_by (\<lambda>c. c = CHR ''/'')
                         (removeprefix ''http://'' (removeprefix ''https://'' (cloudflare_speed_test_origin cfg)))
                     @ '' from this server (Cloudflare has no published limit; HTTP 429 may occur above ~''
                     @ int_str GUIDANCE_REQUESTS_PER_MINUTE @ ''/min). The worker enforces at least ''
                     @ int_str SPEED_TEST_MIN_GAP_SECONDS
                     @ ''s between live speed tests and staggers which VPN runs next. ''
                     @ ''Use a custom speed test URL, increase speed-test intervals, or reduce polling frequency.'')))"

section \<open>The slot spaces live tests\<close>

text \<open>
  A limiter: a request at a clock reading is granted or denied; a grant is at least \<open>gap\<close> after the last
  one and becomes the last one, a denial changes nothing.
\<close>

locale spaced_grants =
  fixes request :: "rat \<Rightarrow> 's \<Rightarrow> bool \<times> 's" and last_grant :: "'s \<Rightarrow> rat" and elapsed :: "rat \<Rightarrow> rat" and gap :: rat
  assumes granted: "request t s = (True, s') \<Longrightarrow> gap \<le> elapsed (t - last_grant s) \<and> last_grant s' = t"
    and denied: "request t s = (False, s') \<Longrightarrow> elapsed (t - last_grant s) < gap \<and> s' = s"
    and elapsed_mono: "x \<le> y \<Longrightarrow> elapsed x \<le> elapsed y"
begin

fun grants :: "rat list \<Rightarrow> 's \<Rightarrow> rat list" where
  "grants [] s = []"
| "grants (t # ts) s = (case request t s of (ok, s') \<Rightarrow> if ok then t # grants ts s' else grants ts s')"

lemma grants_subset: "set (grants ts s) \<subseteq> set ts"
  by (induction ts arbitrary: s) (auto split: prod.splits)

lemma grants_after_last:
  assumes "sorted ts" and "g \<in> set (grants ts s)"
  shows "gap \<le> elapsed (g - last_grant s)"
  using assms
proof (induction ts arbitrary: s)
  case Nil
  then show ?case by simp
next
  case (Cons t ts)
  obtain ok s' where r: "request t s = (ok, s')" by (cases "request t s")
  show ?case
  proof (cases ok)
    case True
    with r have "request t s = (True, s')" by simp
    then have t: "gap \<le> elapsed (t - last_grant s)" using granted by blast
    have "g = t \<or> g \<in> set ts"
      using Cons.prems(2) r True grants_subset [of ts s'] by auto
    then have "t \<le> g" using Cons.prems(1) by auto
    then have "elapsed (t - last_grant s) \<le> elapsed (g - last_grant s)" by (intro elapsed_mono) simp
    with t show ?thesis by simp
  next
    case False
    with r have "request t s = (False, s')" by simp
    then have "s' = s" using denied by blast
    with Cons r False show ?thesis by auto
  qed
qed

lemma grants_spaced:
  assumes "sorted ts"
  shows "sorted_wrt (\<lambda>a b. gap \<le> elapsed (b - a)) (grants ts s)"
  using assms
proof (induction ts arbitrary: s)
  case Nil
  then show ?case by simp
next
  case (Cons t ts)
  obtain ok s' where r: "request t s = (ok, s')" by (cases "request t s")
  show ?case
  proof (cases ok)
    case True
    with r have "request t s = (True, s')" by simp
    then have "last_grant s' = t" using granted by blast
    with Cons r True grants_after_last [of ts _ s'] show ?thesis by auto
  next
    case False
    with Cons r show ?thesis by auto
  qed
qed

end

interpretation live_slot: spaced_grants try_acquire_speed_test_slot "\<lambda>last_at. last_at" fl
  "of_int SPEED_TEST_MIN_GAP_SECONDS"
  by unfold_locales (auto simp: try_acquire_speed_test_slot_def fl_mono split: if_splits)

fun slot_grants :: "rat list \<Rightarrow> rat \<Rightarrow> rat list" where
  "slot_grants [] last_at = []"
| "slot_grants (t # ts) last_at =
     (case try_acquire_speed_test_slot t last_at of (ok, l) \<Rightarrow> if ok then t # slot_grants ts l else slot_grants ts l)"

lemma slot_grants_eq: "slot_grants ts l = live_slot.grants ts l"
  by (induction ts arbitrary: l) (auto split: prod.splits)

text \<open>
  However often the slot is asked for, on a monotonic clock any two live speed tests of the process
  are at least 60 seconds apart, and a request made when the gap has passed is granted.
\<close>

theorem speed_test_slot_spacing:
  assumes "sorted ts"
  shows "sorted_wrt (\<lambda>a b. 60 \<le> fl (b - a)) (slot_grants ts l)
    \<and> (60 \<le> fl (t - l) \<longrightarrow> try_acquire_speed_test_slot t l = (True, t))"
  using live_slot.grants_spaced [OF assms, of l]
  by (simp add: slot_grants_eq SPEED_TEST_MIN_GAP_SECONDS_def try_acquire_speed_test_slot_def)

lemma speed_test_slot_spacing_witness:
  "slot_grants [100, 130, 159, 160, 219, 225] 0 = [100, 160, 225]
   \<and> sorted_wrt (\<lambda>a b. 60 \<le> fl (b - a)) (slot_grants [100, 130, 159, 160, 219, 225] 0)"
  using speed_test_slot_spacing [of "[100, 130, 159, 160, 219, 225]" 0 0]
  by (simp add: try_acquire_speed_test_slot_def SPEED_TEST_MIN_GAP_SECONDS_def)

section \<open>When a component is due\<close>

lemma total_seconds_ge_iff:
  assumes "0 < n" "n \<le> 2 ^ 31"
  shows "of_int n \<le> total_seconds us \<longleftrightarrow> n * usec_per_second \<le> us"
proof
  assume "n * usec_per_second \<le> us"
  then have "(of_int (n * usec_per_second) :: rat) \<le> of_int us" by (simp only: of_int_le_iff)
  then have "of_int n \<le> (of_int us / 1000000 :: rat)" by simp
  then show "of_int n \<le> total_seconds us" using assms by (simp add: total_seconds_def fl64.r_ge_int)
next
  assume le: "of_int n \<le> total_seconds us"
  show "n * usec_per_second \<le> us"
  proof (rule ccontr)
    assume "\<not> n * usec_per_second \<le> us"
    then have "us \<le> n * usec_per_second - 1" by simp
    then have "(of_int us :: rat) \<le> of_int (n * usec_per_second - 1)" by (simp only: of_int_le_iff)
    then have x: "of_int us / 1000000 \<le> (of_int n - 1 / 1000000 :: rat)" by simp
    have n: "1 \<le> (of_int n :: rat)" "(of_int n :: rat) \<le> 2 ^ 31"
    proof -
      have "(of_int n :: rat) \<le> of_int (2 ^ 31)" using assms(2) by (simp only: of_int_le_iff)
      then show "(of_int n :: rat) \<le> 2 ^ 31" by simp
      have "(of_int 1 :: rat) \<le> of_int n" using assms(1) by (simp only: of_int_le_iff)
      then show "1 \<le> (of_int n :: rat)" by simp
    qed
    have "total_seconds us \<le> fl (of_int n - 1 / 1000000)" unfolding total_seconds_def by (rule fl_mono [OF x])
    also have "\<dots> \<le> (of_int n - 1 / 1000000) * (1 + eps)" using n by (intro fl_upper) simp
    also have "\<dots> < of_int n" using n by (simp add: eps_def)
    finally show False using le by simp
  qed
qed

text \<open>
  C28. When the next live speed test is due. A component whose test is switched off is never due; one that is switched on and has
  no result yet is. Once it has a live attempt measured at \<open>w\<close>, it is due exactly when its interval has passed since \<open>w\<close>,
  and after a rate-limited attempt (HTTP 429) not before an hour has passed, to the microsecond, whatever the display row holds;
  and in three cases at once: when the latest result shows no speed test, when the attempt was a success that moved no data, and
  when the interval is not positive and the attempt was not rate limited.
\<close>

theorem speed_test_due_iff_interval_passed:
  assumes "extract_last_live_speed_test_from_details (details_of r) (Some (cr_checked_at r)) = Some attempt"
    and "parse_speed_test_measured_at (Some attempt) = Some w" and "effective_speed_test_interval_seconds c ms \<le> 2 ^ 31"
  shows "(should_run_speed_test c ms None now \<longleftrightarrow> mc_speed_test_enabled c)
    \<and> (should_run_speed_test c ms (Some r) now \<longleftrightarrow> mc_speed_test_enabled c
        \<and> (extract_speed_test_from_details (details_of r) (Some (cr_checked_at r)) = None
           \<or> is_live_speed_test_row attempt \<and> jget attempt ''ok'' = JBool True \<and> \<not> is_meaningful_speed_test_success (Some attempt)
           \<or> effective_speed_test_interval_seconds c ms \<le> 0 \<and> \<not> is_rate_limited_speed_test (Some attempt)
           \<or> w + effective_speed_test_interval_seconds c ms * 1000000 \<le> now
             \<and> (is_rate_limited_speed_test (Some attempt) \<longrightarrow> w + 3600 * 1000000 \<le> now)))"
proof -
  let ?i = "effective_speed_test_interval_seconds c ms"
  let ?retry = "effective_speed_test_retry_seconds c ms (Some attempt)"
  have retry: "?retry = (if is_rate_limited_speed_test (Some attempt) then max ?i 3600 else ?i)"
    by (simp add: effective_speed_test_retry_seconds_def Let_def SPEED_TEST_RATE_LIMIT_BACKOFF_SECONDS_def)
  have passed: "0 < ?retry \<Longrightarrow> of_int ?retry \<le> total_seconds (now - w) \<longleftrightarrow> w + ?retry * usec_per_second \<le> now"
    using retry assms(3) total_seconds_ge_iff [of ?retry "now - w"] by (auto split: if_splits)
  have "should_run_speed_test c ms (Some r) now \<longleftrightarrow> mc_speed_test_enabled c
      \<and> (extract_speed_test_from_details (details_of r) (Some (cr_checked_at r)) = None
         \<or> is_live_speed_test_row attempt \<and> jget attempt ''ok'' = JBool True \<and> \<not> is_meaningful_speed_test_success (Some attempt)
         \<or> ?retry \<le> 0 \<or> of_int ?retry \<le> total_seconds (now - w))"
    using assms(1,2) by (auto simp: should_run_speed_test_def speed_test_scheduling_row_def Let_def split: option.split)
  moreover have "(?retry \<le> 0 \<or> of_int ?retry \<le> total_seconds (now - w)) \<longleftrightarrow>
      ?i \<le> 0 \<and> \<not> is_rate_limited_speed_test (Some attempt)
      \<or> w + ?i * usec_per_second \<le> now \<and> (is_rate_limited_speed_test (Some attempt) \<longrightarrow> w + 3600 * usec_per_second \<le> now)"
  proof (cases "0 < ?retry")
    case True
    with passed show ?thesis using retry by (auto split: if_splits simp: max_def)
  next
    case False
    with retry show ?thesis by (auto split: if_splits)
  qed
  ultimately show ?thesis by (auto simp: should_run_speed_test_def)
qed

definition sample_component :: MonitoredComponent where
  "sample_component =
     \<lparr>mc_id = ''c1'', mc_project_id = ''p1'', mc_component_kind_id = ''k1'', mc_group_id = None, mc_name = ''n'',
      mc_slug = ''n'', mc_description = None, mc_environment = None, mc_check_url = ''https://x'',
      mc_check_method = ''GET'', mc_expected_status_code = 200, mc_timeout_seconds = 10, mc_ip_family = ''auto'',
      mc_check_type = ''openvpn'', mc_check_config = JNull, mc_speed_test_bytes = None,
      mc_speed_test_url_template = None, mc_speed_test_interval_seconds = Some 600, mc_speed_test_enabled = True,
      mc_poll_interval_seconds = None, mc_sort_order = 0, mc_connection_mode = ''ephemeral'',
      mc_datagate_server_id = None, mc_datagate_common_name = None, mc_last_checked_at = None, mc_is_active = True\<rparr>"

definition sample_settings :: MonitoringSettings where
  "sample_settings = \<lparr>ms_default_poll_interval_seconds = 60, ms_scheduler_interval_seconds = 30,
     ms_default_speed_test_url_template = FALLBACK_SPEED_TEST_URL_TEMPLATE, ms_default_speed_test_interval_seconds = 3600\<rparr>"

definition sample_attempt :: dict where
  "sample_attempt = stamp_speed_test_measured_at [(''ok'', JBool False), (''error'', JStr ''HTTP 429'')] 1700000000000000"

definition sample_result :: CheckResult where
  "sample_result = \<lparr>cr_id = ''r1'', cr_monitored_component_id = ''c1'', cr_checked_at = Aware 1700000600000000,
     cr_outcome = ''up'', cr_latency_ms = None, cr_http_status_code = None, cr_error_message = None,
     cr_details = JObj [(''network'', JObj [(''speed_test'', JObj [(''ok'', JBool False), (''cached'', JBool True)]),
        (''speed_test_last_attempt'', JObj sample_attempt)])]\<rparr>"

lemma sample_attempt_read:
  "extract_last_live_speed_test_from_details (details_of sample_result) (Some (cr_checked_at sample_result)) = Some sample_attempt"
  "parse_speed_test_measured_at (Some sample_attempt) = Some 1700000000000000"
  "is_rate_limited_speed_test (Some sample_attempt)"
  "extract_speed_test_from_details (details_of sample_result) (Some (cr_checked_at sample_result))
     = Some [(''ok'', JBool False), (''cached'', JBool True)]"
proof -
  show "parse_speed_test_measured_at (Some sample_attempt) = Some 1700000000000000"
    unfolding sample_attempt_def
    by (simp add: parse_speed_test_measured_at_def stamp_speed_test_measured_at_def strip_iso replace_Z_iso
      fromisoformat_isoformat date_in_range_def date_of_def)
  show "is_rate_limited_speed_test (Some sample_attempt)"
    by (simp add: is_rate_limited_speed_test_def sample_attempt_def stamp_speed_test_measured_at_def
        jset_def lower_def lower_char_def)
  have "is_live_speed_test_row sample_attempt" "\<not> is_meaningful_speed_test_success (Some sample_attempt)" "sample_attempt \<noteq> []"
    by (simp_all add: sample_attempt_def is_live_speed_test_row_def stamp_speed_test_measured_at_def meaningful_Some_iff)
  then show "extract_last_live_speed_test_from_details (details_of sample_result) (Some (cr_checked_at sample_result)) = Some sample_attempt"
    by (simp add: extract_last_live_speed_test_from_details_def last_live_row_def network_of_def details_of_def
        sample_result_def hydrate_speed_test_measured_at_def)
  show "extract_speed_test_from_details (details_of sample_result) (Some (cr_checked_at sample_result))
     = Some [(''ok'', JBool False), (''cached'', JBool True)]"
    by (simp add: extract_speed_test_from_details_def stored_row_def network_of_def details_of_def
        sample_result_def hydrate_speed_test_measured_at_def meaningful_Some_iff)
qed

lemma speed_test_due_iff_interval_passed_witness:
  "\<not> should_run_speed_test sample_component sample_settings (Some sample_result) (1700000000000000 + 3599 * usec_per_second)
   \<and> should_run_speed_test sample_component sample_settings (Some sample_result) (1700000000000000 + 3600 * usec_per_second)"
proof -
  have "jget sample_attempt ''ok'' = JBool False" by (simp add: sample_attempt_def stamp_speed_test_measured_at_def)
  moreover have "effective_speed_test_interval_seconds sample_component sample_settings = 600" "mc_speed_test_enabled sample_component"
    by (simp_all add: sample_component_def effective_speed_test_interval_seconds_def)
  ultimately have "should_run_speed_test sample_component sample_settings (Some sample_result) now \<longleftrightarrow>
     1700000000000000 + 600 * usec_per_second \<le> now \<and> 1700000000000000 + 3600 * usec_per_second \<le> now" for now
    using speed_test_due_iff_interval_passed [OF sample_attempt_read(1,2), of sample_component sample_settings now]
    by (simp add: sample_attempt_read(3,4))
  then show ?thesis by simp
qed

section \<open>Staggering\<close>

lemma take_sorted_before:
  assumes "sorted (map f xs)" and "x \<in> set (take n xs)" and "y \<in> set xs" and "y \<notin> set (take n xs)"
  shows "f x \<le> f y"
proof -
  have "y \<in> set (drop n xs)" using assms(3,4) by (metis UnE append_take_drop_id set_append)
  moreover have "sorted (map f (take n xs) @ map f (drop n xs))"
    using assms(1) by (simp flip: map_append)
  ultimately show ?thesis using assms(2) by (auto simp: sorted_append)
qed

lemma pick_first:
  fixes es :: "('k::linorder \<times> 'i) list" and n :: nat
  assumes "distinct (map snd es)"
  defines "P \<equiv> snd ` set (take n (sort_key fst es))"
  shows "P \<subseteq> snd ` set es" and "card P = min n (length es)"
    and "e \<in> set es \<Longrightarrow> e' \<in> set es \<Longrightarrow> snd e \<in> P \<Longrightarrow> snd e' \<notin> P \<Longrightarrow> fst e \<le> fst e'"
proof -
  let ?xs = "sort_key fst es"
  have "mset (map snd ?xs) = mset (map snd es)" by simp
  then have dx: "distinct (map snd ?xs)" using assms(1) mset_eq_imp_distinct_iff by blast
  show "P \<subseteq> snd ` set es" using set_take_subset [of n ?xs] by (auto simp: P_def)
  have "P = set (take n (map snd ?xs))" by (simp add: P_def take_map)
  moreover have "card (set (take n (map snd ?xs))) = length (take n (map snd ?xs))"
    by (rule distinct_card) (use dx in simp)
  ultimately show "card P = min n (length es)" by simp
  assume e: "e \<in> set es" "e' \<in> set es" "snd e \<in> P" "snd e' \<notin> P"
  have inj: "inj_on snd (set ?xs)" using dx unfolding distinct_map by simp
  obtain x where x: "x \<in> set (take n ?xs)" "snd x = snd e" using e(3) by (auto simp: P_def)
  have "x \<in> set ?xs" using x(1) by (rule in_set_takeD)
  with inj e(1) x(2) have "x = e" by (auto dest: inj_onD)
  moreover have "e' \<notin> set (take n ?xs)" using e(4) by (auto simp: P_def)
  ultimately show "fst e \<le> fst e'" using take_sorted_before [of fst ?xs e n e'] x(1) e(2) by simp
qed

text \<open>
  A cycle grants at most \<open>limit\<close> live tests, exactly \<open>limit\<close> when that many components are due, only to
  due components, and never to a component while one with an older measurement has to wait.
\<close>

theorem staggered_pick:
  fixes cs :: "MonitoredComponent list" and ms :: MonitoringSettings and latest :: "uuid \<Rightarrow> CheckResult option"
    and now :: instant and sha :: "string \<Rightarrow> string" and limit :: int
  assumes "distinct (map mc_id cs)"
  defines "due \<equiv> {c \<in> set cs. should_run_speed_test c ms (latest (mc_id c)) now}"
    and "picked \<equiv> set (pick_staggered_speed_test_component_ids sha cs ms latest now limit)"
  shows "picked \<subseteq> mc_id ` due \<and> card picked = min (nat limit) (card due)
    \<and> (\<forall>c \<in> due. \<forall>d \<in> due. mc_id c \<in> picked \<and> mc_id d \<notin> picked \<longrightarrow>
          stagger_measured_at latest c \<le> stagger_measured_at latest d)"
proof -
  let ?D = "filter (\<lambda>c. should_run_speed_test c ms (latest (mc_id c)) now) cs"
  let ?es = "staggered_due sha cs ms latest now"
  let ?e = "\<lambda>c. ((stagger_measured_at latest c, speed_test_stagger_key sha (mc_id c) now), mc_id c)"
  have es: "set ?es = ?e ` due" "map snd ?es = map mc_id ?D"
    by (simp_all add: staggered_due_def due_def)
  have dd: "distinct (map mc_id ?D)" using assms(1) by (rule Prelude.distinct_map_filter)
  then have "distinct ?D" unfolding distinct_map by simp
  then have "length ?D = card due" using distinct_card [of ?D] by (simp add: due_def)
  then have len: "length ?es = card due" by (simp add: staggered_due_def)
  have picked: "picked = snd ` set (take (nat limit) (sort_key fst ?es))"
    by (simp add: picked_def pick_staggered_speed_test_component_ids_def)
  have de: "distinct (map snd ?es)" using dd es(2) by simp
  note first = pick_first [OF de, where n = "nat limit", folded picked]
  have "stagger_measured_at latest c \<le> stagger_measured_at latest d"
    if "c \<in> due" "d \<in> due" "mc_id c \<in> picked" "mc_id d \<notin> picked" for c d
  proof -
    have "fst (?e c) \<le> fst (?e d)" using first(3) [where e = "?e c" and e' = "?e d"] that es(1) by simp
    then show ?thesis by (auto simp: less_eq_prod_def split: prod.splits)
  qed
  with first(1,2) es(1) len show ?thesis by auto
qed

lemma staggered_pick_witness:
  "pick_staggered_speed_test_component_ids (\<lambda>_. ''0'') [sample_component] sample_settings (\<lambda>_. None) 0 1 = [''c1''] \<and>
   card (set (pick_staggered_speed_test_component_ids (\<lambda>_. ''0'') [sample_component] sample_settings (\<lambda>_. None) 0 1)) = 1"
proof -
  have "pick_staggered_speed_test_component_ids (\<lambda>_. ''0'') [sample_component] sample_settings (\<lambda>_. None) 0 1 = [''c1'']"
    by (simp add: pick_staggered_speed_test_component_ids_def staggered_due_def should_run_speed_test_def sample_component_def)
  with staggered_pick [where cs = "[sample_component]" and ms = sample_settings and latest = "\<lambda>_. None"
        and now = 0 and sha = "\<lambda>_. ''0''" and limit = 1] show ?thesis by simp
qed

end
