(* ===== verification/HostWan.thy ===== *)
theory HostWan
  imports SpeedTestConfig
begin

text \<open>
  \<open>src/app/services/host_wan_speed.py\<close>: the host WAN baseline, its bounded history, the pending skip
  reason, the copy on disk shared by the API and the worker processes, and the counter of ephemeral
  OpenVPN sessions. The module variables are the record \<open>host_wan\<close>; the file is its modification time
  and its parsed JSON (\<open>None\<close>: does not parse), so \<open>json.loads\<close> of \<open>json.dumps\<close> is the identity. A write
  is given the new modification time, or \<open>None\<close> when the file system fails (\<open>OSError\<close>). The locks make
  each function atomic. Measurements of \<open>speed_measure.py\<close> are arguments (\<open>URL\<close> to row).
\<close>

record HostWanBaseline =
  hb_measured_at :: instant
  hb_download :: "dict option"
  hb_upload :: "dict option"
  hb_skipped :: bool
  hb_skip_reason :: "string option"

record host_wan =
  hw_ephemeral_sessions :: int
  hw_latest :: "HostWanBaseline option"
  hw_history :: "HostWanBaseline list"
  hw_pending_skip_reason :: "string option"
  hw_disk_hydrated :: bool
  hw_disk_mtime_ns :: "int option"
  hw_file :: "(int \<times> json option) option"
  hw_slot_last_at :: rat

definition HISTORY_LIMIT :: nat where "HISTORY_LIMIT = 128"

definition DEFAULT_SPEED_TEST_BYTES :: int where "DEFAULT_SPEED_TEST_BYTES = 5242880"

section \<open>A baseline as dictionaries\<close>

definition nonempty_str :: "string option \<Rightarrow> string option" where
  \<comment> \<open>a string used as a truth value\<close>
  "nonempty_str s = (case s of Some (c # cs) \<Rightarrow> Some (c # cs) | _ \<Rightarrow> None)"

definition as_network_fields :: "HostWanBaseline \<Rightarrow> string option \<Rightarrow> dict" where
  "as_network_fields b overlay =
     (let skip_reason = py_or (nonempty_str overlay) (if hb_skipped b then hb_skip_reason b else None)
      in [(''direct_speed_test_measured_at'', JStr (isoformat (hb_measured_at b)))]
         @ (case hb_download b of None \<Rightarrow> [] | Some d \<Rightarrow> [(''direct_speed_test'', JObj d)])
         @ (case hb_upload b of None \<Rightarrow> [] | Some d \<Rightarrow> [(''direct_speed_test_upload'', JObj d)])
         @ (if hb_skipped b \<or> nonempty_str overlay \<noteq> None
            then [(''direct_speed_test_skipped'', JBool True)]
                 @ (case nonempty_str skip_reason of None \<Rightarrow> []
                    | Some r \<Rightarrow> [(''direct_speed_test_skip_reason'', JStr r)])
            else []))"

definition baseline_to_dict :: "HostWanBaseline \<Rightarrow> dict" where
  "baseline_to_dict b =
     [(''measured_at'', JStr (isoformat (hb_measured_at b))), (''download'', opt_json JObj (hb_download b)),
      (''upload'', opt_json JObj (hb_upload b)), (''skipped'', JBool (hb_skipped b)),
      (''skip_reason'', opt_json JStr (hb_skip_reason b))]"

definition baseline_from_dict :: "dict \<Rightarrow> HostWanBaseline option" where
  "baseline_from_dict payload =
     (case jget payload ''measured_at'' of
        JStr raw \<Rightarrow>
          (case fromisoformat raw of None \<Rightarrow> None
           | Some t \<Rightarrow> Some \<lparr>hb_measured_at = utc_of t, hb_download = as_dict (jget payload ''download''),
                hb_upload = as_dict (jget payload ''upload''), hb_skipped = truthy (jget payload ''skipped''),
                hb_skip_reason = as_str (jget payload ''skip_reason'')\<rparr>)
      | _ \<Rightarrow> None)"

section \<open>Disk\<close>

definition disk_payload :: "host_wan \<Rightarrow> json" where
  "disk_payload s = JObj
     [(''latest'', opt_json (\<lambda>b. JObj (baseline_to_dict b)) (hw_latest s)),
      (''history'', JArr (map (\<lambda>b. JObj (baseline_to_dict b)) (hw_history s))),
      (''pending_skip_reason'', opt_json JStr (hw_pending_skip_reason s))]"

definition write_disk :: "int option \<Rightarrow> host_wan \<Rightarrow> host_wan" where
  "write_disk w s =
     (case w of None \<Rightarrow> s
      | Some mtime \<Rightarrow> s\<lparr>hw_file := Some (mtime, Some (disk_payload s)), hw_disk_hydrated := True,
                        hw_disk_mtime_ns := Some mtime\<rparr>)"

definition load_history :: "json \<Rightarrow> HostWanBaseline list" where
  "load_history j =
     (case j of JArr items \<Rightarrow> List.map_filter (\<lambda>item. Option.bind (as_dict item) baseline_from_dict) items | _ \<Rightarrow> [])"

definition last_n :: "nat \<Rightarrow> 'a list \<Rightarrow> 'a list" where
  \<comment> \<open>\<open>xs[-n:]\<close> for \<open>n > 0\<close>\<close>
  "last_n n xs = drop (length xs - n) xs"

definition hydrate_from_disk :: "bool \<Rightarrow> host_wan \<Rightarrow> host_wan" where
  "hydrate_from_disk force s =
     (let mtime_ns = map_option fst (hw_file s)
      in if \<not> force \<and> hw_disk_hydrated s \<and> mtime_ns \<noteq> None \<and> mtime_ns = hw_disk_mtime_ns s then s
         else if \<not> force \<and> hw_disk_hydrated s \<and> mtime_ns = None \<and> hw_disk_mtime_ns s = None \<and> hw_latest s = None then s
         else let s = s\<lparr>hw_disk_hydrated := True, hw_disk_mtime_ns := mtime_ns\<rparr>
              in case hw_file s of
                   Some (_, Some (JObj payload)) \<Rightarrow>
                     (let history = load_history (jget payload ''history'');
                          latest = Option.bind (as_dict (jget payload ''latest'')) baseline_from_dict
                      in s\<lparr>hw_history := last_n HISTORY_LIMIT history,
                           hw_latest := (if latest = None \<and> history \<noteq> [] then Some (last history) else latest),
                           hw_pending_skip_reason := as_str (jget payload ''pending_skip_reason'')\<rparr>)
                 | _ \<Rightarrow> s)"

section \<open>Ephemeral sessions\<close>

definition enter_ephemeral :: "host_wan \<Rightarrow> host_wan" where
  "enter_ephemeral s = s\<lparr>hw_ephemeral_sessions := hw_ephemeral_sessions s + 1\<rparr>"

definition leave_ephemeral :: "host_wan \<Rightarrow> host_wan" where
  "leave_ephemeral s = s\<lparr>hw_ephemeral_sessions := max 0 (hw_ephemeral_sessions s - 1)\<rparr>"

definition ephemeral_openvpn_active :: "host_wan \<Rightarrow> bool" where
  "ephemeral_openvpn_active s \<longleftrightarrow> 0 < hw_ephemeral_sessions s"

section \<open>Reading and storing\<close>

definition get_latest_host_wan_baseline :: "host_wan \<Rightarrow> HostWanBaseline option \<times> host_wan" where
  "get_latest_host_wan_baseline s = (let s = hydrate_from_disk False s in (hw_latest s, s))"

definition baseline_at :: "instant \<Rightarrow> host_wan \<Rightarrow> HostWanBaseline option" where
  "baseline_at target s =
     (let candidates = filter (\<lambda>row. hb_measured_at row \<le> target) (hw_history s)
      in if candidates \<noteq> [] then Some (last candidates)
         else case hw_latest s of
                Some b \<Rightarrow> if hb_measured_at b \<le> target then Some b else None
              | None \<Rightarrow> None)"

definition host_wan_baseline_at_or_before :: "py_datetime \<Rightarrow> host_wan \<Rightarrow> HostWanBaseline option \<times> host_wan" where
  "host_wan_baseline_at_or_before w s = (let s = hydrate_from_disk False s in (baseline_at (utc_of w) s, s))"

definition store_baseline :: "int option \<Rightarrow> HostWanBaseline \<Rightarrow> host_wan \<Rightarrow> host_wan" where
  "store_baseline w b s =
     write_disk w
       (s\<lparr>hw_disk_hydrated := True, hw_latest := Some b,
          hw_history := last_n HISTORY_LIMIT (hw_history s @ [b]),
          hw_pending_skip_reason := (if hb_skipped b then hw_pending_skip_reason s else None)\<rparr>)"

definition should_run_host_wan :: "int \<Rightarrow> instant \<Rightarrow> host_wan \<Rightarrow> bool \<times> host_wan" where
  "should_run_host_wan interval_seconds now s =
     (case get_latest_host_wan_baseline s of
        (None, s) \<Rightarrow> (True, s)
      | (Some latest, s) \<Rightarrow>
          (hb_skipped latest \<or> max 1 interval_seconds * usec_per_second \<le> now - hb_measured_at latest, s))"

definition dict_update :: "dict \<Rightarrow> dict \<Rightarrow> dict" where
  \<comment> \<open>\<open>network.update(fields)\<close>\<close>
  "dict_update network fs = fold (\<lambda>(k, v) d. jset k v d) fs network"

definition attach_host_wan_baseline_to_network ::
  "dict \<Rightarrow> py_datetime option \<Rightarrow> host_wan \<Rightarrow> dict \<times> host_wan" where
  "attach_host_wan_baseline_to_network network w s =
     (let s = hydrate_from_disk False s;
          baseline = (case w of Some t \<Rightarrow> baseline_at (utc_of t) s | None \<Rightarrow> hw_latest s)
      in case baseline of
           None \<Rightarrow> (network, s)
         | Some b \<Rightarrow> (dict_update network (as_network_fields b (hw_pending_skip_reason s)), s))"

section \<open>Measuring\<close>

definition settle_measurement :: "instant \<Rightarrow> string \<Rightarrow> dict option \<Rightarrow> dict option" where
  \<comment> \<open>stamp a non-empty row; an empty success becomes a failure\<close>
  "settle_measurement now empty_error row =
     (case row of
        Some (kv # kvs) \<Rightarrow>
          let d = stamp_speed_test_measured_at (kv # kvs) now
          in Some (if jget d ''ok'' = JBool True \<and> \<not> is_meaningful_speed_test_success (Some d)
                   then jset ''error'' (JStr empty_error) (jset ''ok'' (JBool False) d) else d)
      | _ \<Rightarrow> row)"

definition measure_host_wan ::
  "settings \<Rightarrow> (string \<Rightarrow> dict option) \<Rightarrow> (string \<Rightarrow> dict option) \<Rightarrow> MonitoringSettings \<Rightarrow> instant \<Rightarrow> int
     \<Rightarrow> HostWanBaseline res" where
  "measure_host_wan cfg measure_download measure_upload ms now bytes_count =
     (let template = strip (if ms_default_speed_test_url_template ms = [] then default_speed_test_url_template cfg
                            else ms_default_speed_test_url_template ms)
      in case build_speed_test_url template bytes_count of
           Inl e \<Rightarrow> Inl e
         | Inr download_url \<Rightarrow>
             (case build_speed_test_upload_url template of
                Inl e \<Rightarrow> Inl e
              | Inr upload_url \<Rightarrow> Inr
                  \<lparr>hb_measured_at = now,
                   hb_download = settle_measurement now ''Speed test downloaded no data'' (measure_download download_url),
                   hb_upload = (case nonempty_str upload_url of None \<Rightarrow> None
                      | Some u \<Rightarrow> settle_measurement now ''Speed test uploaded no data'' (measure_upload u)),
                   hb_skipped = False, hb_skip_reason = None\<rparr>))"

definition run_host_wan_speed_if_due ::
  "settings \<Rightarrow> (string \<Rightarrow> dict option) \<Rightarrow> (string \<Rightarrow> dict option) \<Rightarrow> MonitoringSettings \<Rightarrow> instant \<Rightarrow> rat
     \<Rightarrow> int option \<Rightarrow> int \<Rightarrow> host_wan \<Rightarrow> HostWanBaseline option res \<times> host_wan" where
  \<comment> \<open>\<open>clock\<close> is \<open>time.monotonic()\<close>, \<open>w\<close> the outcome of a write to the file\<close>
  "run_host_wan_speed_if_due cfg measure_download measure_upload ms now clock w bytes_count s =
     (let interval = (if ms_default_speed_test_interval_seconds ms = 0 then DEFAULT_SPEED_TEST_INTERVAL_SECONDS
                      else ms_default_speed_test_interval_seconds ms);
          (due, s) = should_run_host_wan interval now s
      in if \<not> due then (case get_latest_host_wan_baseline s of (b, s) \<Rightarrow> (Inr b, s))
         else if ephemeral_openvpn_active s then
           (case get_latest_host_wan_baseline s of
              (None, s) \<Rightarrow>
                let s = store_baseline w \<lparr>hb_measured_at = now, hb_download = None, hb_upload = None,
                                          hb_skipped = True, hb_skip_reason = Some ''ephemeral_openvpn_active''\<rparr> s
                in (case get_latest_host_wan_baseline s of (b, s) \<Rightarrow> (Inr b, s))
            | (Some _, s) \<Rightarrow>
                let s = write_disk w ((hydrate_from_disk False s)\<lparr>hw_pending_skip_reason := Some ''ephemeral_openvpn_active''\<rparr>)
                in (case get_latest_host_wan_baseline s of (b, s) \<Rightarrow> (Inr b, s)))
         else case try_acquire_speed_test_slot clock (hw_slot_last_at s) of
           (False, _) \<Rightarrow> (case get_latest_host_wan_baseline s of (b, s) \<Rightarrow> (Inr b, s))
         | (True, l) \<Rightarrow>
             let s = s\<lparr>hw_slot_last_at := l\<rparr>
             in case measure_host_wan cfg measure_download measure_upload ms now bytes_count of
                  Inl e \<Rightarrow> (Inl e, s)
                | Inr b \<Rightarrow>
                    let has_success = is_meaningful_speed_test_success (hb_download b)
                                      \<or> is_meaningful_speed_test_success (hb_upload b);
                        (prior, s) = get_latest_host_wan_baseline s
                    in (case prior of
                          Some p \<Rightarrow> if \<not> has_success \<and> \<not> hb_skipped p then (Inr (Some p), s)
                                    else (Inr (Some b), store_baseline w b s)
                        | None \<Rightarrow> (Inr (Some b), store_baseline w b s)))"

definition direct_mbps_from_payload :: "dict option \<Rightarrow> rat option" where
  "direct_mbps_from_payload payload =
     (if \<not> is_meaningful_speed_test_success payload then None
      else case py_float (jget (the payload) ''mbps'') of
             None \<Rightarrow> None | Some v \<Rightarrow> if 0 < v then Some v else None)"

definition baseline_age_seconds :: "HostWanBaseline option \<Rightarrow> instant \<Rightarrow> rat option" where
  "baseline_age_seconds b now =
     (case b of None \<Rightarrow> None
      | Some b \<Rightarrow>
          let measured = default_to (hb_measured_at b) (parse_speed_test_measured_at (hb_download b))
          in Some (max 0 (total_seconds (now - measured))))"

section \<open>The copy on disk\<close>

lemma as_dict_opt_json [simp]: "as_dict (opt_json JObj d) = d"
  by (cases d) auto

lemma as_str_opt_json [simp]: "as_str (opt_json JStr d) = d"
  by (cases d) auto

definition baseline_in_range :: "HostWanBaseline \<Rightarrow> bool" where
  "baseline_in_range b \<longleftrightarrow> date_in_range (date_of (hb_measured_at b))"

lemma baseline_roundtrip: "baseline_in_range b \<Longrightarrow> baseline_from_dict (baseline_to_dict b) = Some b"
  by (simp add: baseline_from_dict_def baseline_to_dict_def fromisoformat_isoformat baseline_in_range_def)

lemma length_last_n: "length (last_n n xs) = min n (length xs)"
  by (auto simp: last_n_def)

lemma last_n_short: "length xs \<le> n \<Longrightarrow> last_n n xs = xs"
  by (simp add: last_n_def)

lemma set_last_n: "set (last_n n xs) \<subseteq> set xs"
  by (auto simp: last_n_def dest: in_set_dropD)

lemma load_history_saved:
  "\<forall>b \<in> set bs. baseline_in_range b \<Longrightarrow> load_history (JArr (map (\<lambda>b. JObj (baseline_to_dict b)) bs)) = bs"
  by (induction bs) (auto simp: load_history_def List.map_filter_simps baseline_roundtrip)

definition fresh_process :: "(int \<times> json option) option \<Rightarrow> host_wan" where
  "fresh_process file =
     \<lparr>hw_ephemeral_sessions = 0, hw_latest = None, hw_history = [], hw_pending_skip_reason = None,
      hw_disk_hydrated = False, hw_disk_mtime_ns = None, hw_file = file, hw_slot_last_at = 0\<rparr>"

definition host_wan_data :: "host_wan \<Rightarrow> HostWanBaseline option \<times> HostWanBaseline list \<times> string option" where
  "host_wan_data s = (hw_latest s, hw_history s, hw_pending_skip_reason s)"

lemma hydrate_saved:
  assumes "\<forall>b \<in> set (hw_history s). baseline_in_range b" and "length (hw_history s) \<le> HISTORY_LIMIT"
    and "hw_latest s = Some b" and "baseline_in_range b"
  shows "host_wan_data (hydrate_from_disk force (fresh_process (Some (mtime, Some (disk_payload s))))) = host_wan_data s"
  using assms load_history_saved [OF assms(1)]
  by (simp add: hydrate_from_disk_def fresh_process_def Let_def disk_payload_def host_wan_data_def baseline_roundtrip
      last_n_short)

text \<open>
  A baseline stored by one process is what every other process, or the same one after a restart,
  reads from the file: latest baseline, whole history and pending skip reason.
\<close>

theorem store_baseline_survives_restart:
  assumes "baseline_in_range b" and "\<forall>b \<in> set (hw_history s). baseline_in_range b"
  shows "host_wan_data (hydrate_from_disk force (fresh_process (hw_file (store_baseline (Some mtime) b s))))
     = host_wan_data (store_baseline (Some mtime) b s)"
proof -
  let ?t = "s\<lparr>hw_disk_hydrated := True, hw_latest := Some b, hw_history := last_n HISTORY_LIMIT (hw_history s @ [b]),
          hw_pending_skip_reason := (if hb_skipped b then hw_pending_skip_reason s else None)\<rparr>"
  have "\<forall>c \<in> set (hw_history ?t). baseline_in_range c"
    using set_last_n [of HISTORY_LIMIT "hw_history s @ [b]"] assms by auto
  from hydrate_saved [OF this, of b force mtime] assms(1)
  show ?thesis by (simp add: store_baseline_def write_disk_def length_last_n host_wan_data_def)
qed

definition sample_baseline :: HostWanBaseline where
  "sample_baseline = \<lparr>hb_measured_at = 1700000000000000, hb_download = Some sample_row, hb_upload = None,
     hb_skipped = False, hb_skip_reason = None\<rparr>"

lemma store_baseline_survives_restart_witness:
  "hw_latest (hydrate_from_disk False (fresh_process (hw_file (store_baseline (Some 7) sample_baseline (fresh_process None)))))
     = Some sample_baseline"
  using store_baseline_survives_restart [of sample_baseline "fresh_process None" False 7]
  by (simp add: baseline_in_range_def sample_baseline_def date_in_range_def date_of_def host_wan_data_def
      fresh_process_def store_baseline_def write_disk_def)

section \<open>The state of a running process\<close>

definition coherent :: "host_wan \<Rightarrow> bool" where
  "coherent s \<longleftrightarrow> hw_disk_hydrated s \<and> hw_disk_mtime_ns s = map_option fst (hw_file s)"

lemma hydrate_coherent [simp]: "coherent s \<Longrightarrow> hydrate_from_disk False s = s"
  by (cases s; cases "hw_file s") (auto simp: coherent_def hydrate_from_disk_def Let_def)

lemma coherent_write_disk [simp]: "coherent s \<Longrightarrow> coherent (write_disk w s)"
  by (auto simp: coherent_def write_disk_def split: option.splits)

lemma coherent_store [simp]: "coherent s \<Longrightarrow> coherent (store_baseline w b s)"
  unfolding store_baseline_def by (rule coherent_write_disk) (simp add: coherent_def)

lemma coherent_hydrate [simp]: "coherent (hydrate_from_disk force s)"
  by (auto simp: coherent_def hydrate_from_disk_def Let_def split: option.splits prod.splits json.splits)

lemma write_disk_simps [simp]:
  "hw_ephemeral_sessions (write_disk w s) = hw_ephemeral_sessions s" "hw_latest (write_disk w s) = hw_latest s"
  "hw_history (write_disk w s) = hw_history s" "hw_slot_last_at (write_disk w s) = hw_slot_last_at s"
  "hw_pending_skip_reason (write_disk w s) = hw_pending_skip_reason s"
  by (simp_all add: write_disk_def split: option.splits)

lemma store_baseline_simps [simp]:
  "hw_ephemeral_sessions (store_baseline w b s) = hw_ephemeral_sessions s" "hw_latest (store_baseline w b s) = Some b"
  "hw_history (store_baseline w b s) = last_n HISTORY_LIMIT (hw_history s @ [b])"
  by (simp_all add: store_baseline_def)

lemma get_latest_coherent [simp]: "coherent s \<Longrightarrow> get_latest_host_wan_baseline s = (hw_latest s, s)"
  by (simp add: get_latest_host_wan_baseline_def)

lemma hydrate_simps [simp]: "hw_ephemeral_sessions (hydrate_from_disk force s) = hw_ephemeral_sessions s"
  "hw_slot_last_at (hydrate_from_disk force s) = hw_slot_last_at s"
  by (auto simp: hydrate_from_disk_def Let_def split: option.splits prod.splits json.splits)

lemma should_run_hydrated:
  "should_run_host_wan i now s = (fst (should_run_host_wan i now s), hydrate_from_disk False s)"
  by (auto simp: should_run_host_wan_def get_latest_host_wan_baseline_def Let_def split: option.splits)

definition measured_ok :: "HostWanBaseline \<Rightarrow> bool" where
  "measured_ok b \<longleftrightarrow> \<not> hb_skipped b
     \<and> (is_meaningful_speed_test_success (hb_download b) \<or> is_meaningful_speed_test_success (hb_upload b))"

lemma measure_host_wan_fields:
  "measure_host_wan cfg dl ul ms now n = Inr b \<Longrightarrow> \<not> hb_skipped b \<and> hb_measured_at b = now"
  by (auto simp: measure_host_wan_def Let_def split: sum.splits)

lemma coherent_updates [simp]:
  "coherent (s\<lparr>hw_pending_skip_reason := p\<rparr>) = coherent s" "coherent (s\<lparr>hw_slot_last_at := l\<rparr>) = coherent s"
  "coherent (s\<lparr>hw_ephemeral_sessions := n\<rparr>) = coherent s"
  by (simp_all add: coherent_def)

text \<open>One cycle, with the repeated reads of the file removed.\<close>

lemma run_host_wan_eq:
  "run_host_wan_speed_if_due cfg dl ul ms now clock w n s =
     (let s = hydrate_from_disk False s;
          interval = (if ms_default_speed_test_interval_seconds ms = 0 then DEFAULT_SPEED_TEST_INTERVAL_SECONDS
                      else ms_default_speed_test_interval_seconds ms)
      in if \<not> fst (should_run_host_wan interval now s) then (Inr (hw_latest s), s)
         else if ephemeral_openvpn_active s then
           (let s' = (if hw_latest s = None
                      then store_baseline w \<lparr>hb_measured_at = now, hb_download = None, hb_upload = None,
                             hb_skipped = True, hb_skip_reason = Some ''ephemeral_openvpn_active''\<rparr> s
                      else write_disk w (s\<lparr>hw_pending_skip_reason := Some ''ephemeral_openvpn_active''\<rparr>))
            in (Inr (hw_latest s'), s'))
         else if \<not> fst (try_acquire_speed_test_slot clock (hw_slot_last_at s)) then (Inr (hw_latest s), s)
         else (let s1 = s\<lparr>hw_slot_last_at := clock\<rparr>
               in case measure_host_wan cfg dl ul ms now n of
                    Inl e \<Rightarrow> (Inl e, s1)
                  | Inr b \<Rightarrow>
                      if \<not> (is_meaningful_speed_test_success (hb_download b) \<or> is_meaningful_speed_test_success (hb_upload b))
                         \<and> (\<exists>p. hw_latest s = Some p \<and> \<not> hb_skipped p)
                      then (Inr (hw_latest s), s1) else (Inr (Some b), store_baseline w b s1)))"
proof -
  let ?i = "if ms_default_speed_test_interval_seconds ms = 0 then DEFAULT_SPEED_TEST_INTERVAL_SECONDS
            else ms_default_speed_test_interval_seconds ms"
  let ?s = "hydrate_from_disk False s"
  have c: "coherent ?s" by simp
  have due: "should_run_host_wan ?i now s = (fst (should_run_host_wan ?i now ?s), ?s)"
    using c by (auto simp: should_run_host_wan_def get_latest_host_wan_baseline_def Let_def split: option.splits)
  show ?thesis
    unfolding run_host_wan_speed_if_due_def Let_def due prod.case
    using c by (auto simp: try_acquire_speed_test_slot_def split: option.splits sum.splits)
qed

lemmas run_host_wan_cases = run_host_wan_eq [unfolded Let_def]

lemma run_host_wan_latest:
  assumes "run_host_wan_speed_if_due cfg dl ul ms now clock w n s = (r, s')"
  defines "old \<equiv> hw_latest (hydrate_from_disk False s)"
  shows "hw_latest s' = old
     \<or> (\<exists>b. hw_latest s' = Some b \<and> (measured_ok b \<or> old = None \<or> (\<exists>p. old = Some p \<and> hb_skipped p)))"
  using assms(1) unfolding old_def run_host_wan_cases
  by (auto simp: measured_ok_def dest!: measure_host_wan_fields split: if_splits sum.splits)

text \<open>
  C29. Once a WAN measurement has succeeded, no later cycle loses it: whatever the measurements return,
  whether an OpenVPN session is active, the slot is taken or the disk fails, the latest baseline stays a
  successful measurement, and it is replaced by a successful one only.
\<close>

theorem good_host_wan_baseline_kept:
  assumes "hw_latest (hydrate_from_disk False s) = Some g" and "measured_ok g"
    and "run_host_wan_speed_if_due cfg dl ul ms now clock w n s = (r, s')"
  shows "\<exists>b. hw_latest s' = Some b \<and> measured_ok b \<and> (b \<noteq> g \<longrightarrow> hb_measured_at b = now)"
proof -
  have "hw_latest s' = Some g \<or> (\<exists>b. hw_latest s' = Some b \<and> measured_ok b)"
    using run_host_wan_latest [OF assms(3)] assms(1,2) by (auto simp: measured_ok_def)
  moreover have "hw_latest s' = Some g \<or> (\<exists>b. hw_latest s' = Some b \<and> hb_measured_at b = now)"
    using assms(1,3) unfolding run_host_wan_cases
    by (auto dest!: measure_host_wan_fields split: if_splits sum.splits)
  ultimately show ?thesis using assms(2) by auto
qed

definition sample_cfg :: settings where
  "sample_cfg = \<lparr>cfg_speed_test_url_template = '''', cfg_cloudflare_origin = '''', cfg_probe_url = '''',
     cfg_allow_registration = True, cfg_require_email_verification = False, cfg_require_https = False,
     cfg_refresh_token_expire_days = 30, cfg_jwt_expire_minutes = 15, cfg_mfa_token_expire_minutes = 5,
     cfg_access_cookie_name = ''sg_access_token'', cfg_refresh_cookie_name = ''sg_refresh_token'',
     cfg_google_probe_url = '''', cfg_internet_ping_host = '''', cfg_vpn_netns_dns_servers = '''',
     cfg_datagate_allowed_hosts = ''api.datagateapp.com,localhost,127.0.0.1'', cfg_datagate_credentials_key = '''',
     cfg_jwt_secret = ''secret'', cfg_google_client_id = '''', cfg_google_client_secret = '''', cfg_totp_issuer = ''StatusGate'',
     cfg_cookie_secure = False, cfg_cookie_samesite = ''lax''\<rparr>"

lemma good_host_wan_baseline_kept_witness:
  "\<exists>b. hw_latest (snd (run_host_wan_speed_if_due sample_cfg (\<lambda>_. None) (\<lambda>_. None) sample_settings
        1800000000000000 500 None 1000 (store_baseline (Some 7) sample_baseline (fresh_process None)))) = Some b
     \<and> measured_ok b"
proof -
  let ?s = "store_baseline (Some 7) sample_baseline (fresh_process None)"
  have "hydrate_from_disk False ?s = ?s"
    by (rule hydrate_coherent) (simp add: coherent_def store_baseline_def write_disk_def)
  then have g: "hw_latest (hydrate_from_disk False ?s) = Some sample_baseline" by simp
  have m: "measured_ok sample_baseline"
    by (simp add: measured_ok_def sample_baseline_def meaningful_Some_iff sample_row_def jor_def)
  obtain r s' where run: "run_host_wan_speed_if_due sample_cfg (\<lambda>_. None) (\<lambda>_. None) sample_settings
        1800000000000000 500 None 1000 ?s = (r, s')" by fastforce
  from good_host_wan_baseline_kept [OF g m run] run show ?thesis by auto
qed

text \<open>
  While an ephemeral OpenVPN session is active the host path is never measured: neither the live slot
  nor the result of a measurement is used, and a new baseline is at most a skip marker.
\<close>

theorem host_wan_not_measured_during_ephemeral:
  assumes "0 < hw_ephemeral_sessions s"
  shows "run_host_wan_speed_if_due cfg dl ul ms now clock w n s = run_host_wan_speed_if_due cfg dl' ul' ms now clock' w n' s
    \<and> hw_slot_last_at (snd (run_host_wan_speed_if_due cfg dl ul ms now clock w n s)) = hw_slot_last_at s
    \<and> (\<forall>b. hw_latest (snd (run_host_wan_speed_if_due cfg dl ul ms now clock w n s)) = Some b \<longrightarrow>
           hw_latest (hydrate_from_disk False s) = Some b \<or> hb_skipped b)"
proof -
  have a: "ephemeral_openvpn_active (hydrate_from_disk False s)" using assms by (simp add: ephemeral_openvpn_active_def)
  show ?thesis unfolding run_host_wan_cases using a by (auto simp: store_baseline_def)
qed

lemma host_wan_not_measured_during_ephemeral_witness:
  "run_host_wan_speed_if_due sample_cfg (\<lambda>_. Some sample_row) (\<lambda>_. None) sample_settings 0 500 None 1000 (enter_ephemeral (fresh_process None))
   = run_host_wan_speed_if_due sample_cfg (\<lambda>_. None) (\<lambda>_. None) sample_settings 0 0 None 1000 (enter_ephemeral (fresh_process None))"
  using host_wan_not_measured_during_ephemeral [of "enter_ephemeral (fresh_process None)"]
  by (simp add: enter_ephemeral_def fresh_process_def)

section \<open>All runs of a process\<close>

text \<open>
  The states a process can reach, with the number of ephemeral sessions it holds open: sessions open and
  close in any order, cycles run with any outcome, checks attach baselines, and another process may
  replace the file at any time.
\<close>

inductive host_wan_reach :: "host_wan \<Rightarrow> nat \<Rightarrow> bool" where
  started: "host_wan_reach (fresh_process file) 0"
| session_opens: "host_wan_reach s k \<Longrightarrow> host_wan_reach (enter_ephemeral s) (Suc k)"
| session_closes: "host_wan_reach s (Suc k) \<Longrightarrow> host_wan_reach (leave_ephemeral s) k"
| cycle: "host_wan_reach s k \<Longrightarrow> host_wan_reach (snd (run_host_wan_speed_if_due cfg dl ul ms now clock w n s)) k"
| attach: "host_wan_reach s k \<Longrightarrow> host_wan_reach (snd (attach_host_wan_baseline_to_network net t s)) k"
| other_process_writes: "host_wan_reach s k \<Longrightarrow> host_wan_reach (s\<lparr>hw_file := file\<rparr>) k"

definition host_wan_inv :: "nat \<Rightarrow> host_wan \<Rightarrow> bool" where
  "host_wan_inv k s \<longleftrightarrow> hw_ephemeral_sessions s = int k \<and> length (hw_history s) \<le> HISTORY_LIMIT"

lemma host_wan_inv_hydrate [inv_intros]: "host_wan_inv k s \<Longrightarrow> host_wan_inv k (hydrate_from_disk force s)"
  by (auto simp: host_wan_inv_def hydrate_from_disk_def Let_def length_last_n split: option.splits prod.splits json.splits)

lemma host_wan_inv_store [inv_intros]: "host_wan_inv k s \<Longrightarrow> host_wan_inv k (store_baseline w b s)"
  by (simp add: host_wan_inv_def length_last_n)

lemma host_wan_inv_write [inv_intros]: "host_wan_inv k s \<Longrightarrow> host_wan_inv k (write_disk w s)"
  by (simp add: host_wan_inv_def)

lemma host_wan_inv_update [simp]:
  "host_wan_inv k (s\<lparr>hw_pending_skip_reason := p\<rparr>) = host_wan_inv k s"
  "host_wan_inv k (s\<lparr>hw_slot_last_at := l\<rparr>) = host_wan_inv k s" "host_wan_inv k (s\<lparr>hw_file := f\<rparr>) = host_wan_inv k s"
  by (simp_all add: host_wan_inv_def)

lemma host_wan_inv_run [inv_intros]:
  "host_wan_inv k s \<Longrightarrow> host_wan_inv k (snd (run_host_wan_speed_if_due cfg dl ul ms now clock w n s))"
  unfolding run_host_wan_cases by (auto intro!: inv_intros split: sum.splits)

lemma host_wan_inv_attach [inv_intros]:
  "host_wan_inv k s \<Longrightarrow> host_wan_inv k (snd (attach_host_wan_baseline_to_network net t s))"
  by (auto simp: attach_host_wan_baseline_to_network_def Let_def intro!: inv_intros split: option.splits)

text \<open>
  In every reachable state the session counter is the number of sessions actually open, so that the
  host path is blocked exactly while one is open, and the history never exceeds 128 baselines.
\<close>

theorem host_wan_reachable_invariant:
  assumes "host_wan_reach s k"
  shows "(ephemeral_openvpn_active s \<longleftrightarrow> 0 < k) \<and> hw_ephemeral_sessions s = int k \<and> length (hw_history s) \<le> 128"
proof -
  have "host_wan_inv k s" using assms
  proof induction
    case (started f)
    then show ?case by (simp add: host_wan_inv_def fresh_process_def)
  next
    case (session_closes s k)
    then show ?case by (simp add: host_wan_inv_def leave_ephemeral_def)
  next
    case (session_opens s k)
    then show ?case by (simp add: host_wan_inv_def enter_ephemeral_def)
  qed (simp_all add: inv_intros)
  then show ?thesis by (simp add: host_wan_inv_def ephemeral_openvpn_active_def HISTORY_LIMIT_def)
qed

lemma host_wan_reachable_invariant_witness:
  "ephemeral_openvpn_active (enter_ephemeral (fresh_process None))
   \<and> \<not> ephemeral_openvpn_active (leave_ephemeral (enter_ephemeral (fresh_process None)))"
  using host_wan_reachable_invariant [OF session_opens [OF started [of None]]]
    host_wan_reachable_invariant [OF session_closes [OF session_opens [OF started [of None]]]] by simp

end
