(* ===== verification/NetworkEnrich.thy ===== *)
theory NetworkEnrich
  imports HostWan
begin

text \<open>
  \<open>src/app/services/network_enrich.py\<close>: the \<open>details.network\<close> object of a VPN check. Rows and outputs
  of \<open>ip -json\<close>, \<open>ping\<close> and the two speed measurements are arguments (\<open>None\<close>: the call failed); the
  file system's \<open>/etc/resolv.conf\<close> is its text. The keys and messages that distinguish the download from
  the upload series are the record \<open>speed_family\<close>.
\<close>

section \<open>Interface details\<close>

fun splitlines :: "string \<Rightarrow> string list" where
  "splitlines [] = []"
| "splitlines (c # s) =
     (if c = CHR 0x0A then [] # splitlines s
      else case splitlines s of [] \<Rightarrow> [[c]] | l # ls \<Rightarrow> (c # l) # ls)"

definition nameserver_of :: "string \<Rightarrow> string option" where
  \<comment> \<open>\<open>^\s*nameserver\s+(\S+)\<close>\<close>
  "nameserver_of line =
     (let l = lstrip line
      in if starts_with l ''nameserver'' then
           (let r = drop 10 l; v = takeWhile (\<lambda>c. \<not> is_space c) (lstrip r)
            in if r \<noteq> [] \<and> is_space (hd r) \<and> v \<noteq> [] then Some v else None)
         else None)"

definition read_dns_servers :: "string option \<Rightarrow> string list" where
  "read_dns_servers resolv =
     (case resolv of None \<Rightarrow> [] | Some text \<Rightarrow> List.map_filter nameserver_of (splitlines text))"

definition addr_locals :: "string \<Rightarrow> dict list \<Rightarrow> json list" where
  "addr_locals family rows =
     [jget info ''local'' . row \<leftarrow> rows,
        info \<leftarrow> List.map_filter as_dict (default_to [] (as_list (jget row ''addr_info''))),
        truthy (jget info ''local'') \<and> jget info ''family'' = JStr family]"

definition collect_network_details ::
  "string option \<Rightarrow> dict list option \<Rightarrow> dict list option \<Rightarrow> dict list option \<Rightarrow> dict" where
  \<comment> \<open>arguments: resolv.conf, \<open>ip addr\<close>, \<open>ip route\<close>, \<open>ip link\<close>\<close>
  "collect_network_details resolv addr_rows routes link_rows =
     (let v4 = addr_locals ''inet'' (default_to [] addr_rows);
          v6 = addr_locals ''inet6'' (default_to [] addr_rows);
          rs = map (\<lambda>r. [(''dst'', jget r ''dst''), (''gateway'', jget r ''gateway''), (''prefsrc'', jget r ''prefsrc'')])
                 (take 10 (default_to [] routes));
          network = [(''ipv4_addresses'', JArr v4), (''ipv6_addresses'', JArr v6), (''routes'', JArr (map JObj rs)),
                     (''dns_servers'', JArr (map JStr (read_dns_servers resolv)))];
          network = (if v4 \<noteq> [] then jset ''ipv4_address'' (hd v4) network else network);
          network = (if rs \<noteq> [] then
                       jset ''gateway'' (default_to JNull (find truthy (map (\<lambda>r. jget r ''gateway'') rs))) network
                     else network)
      in case default_to [] link_rows of
           [] \<Rightarrow> network
         | l # _ \<Rightarrow> jset ''operstate'' (jget l ''operstate'') (jset ''mtu'' (jget l ''mtu'') network))"

section \<open>Ping output\<close>

text \<open>\<open>re.search\<close> of \<open>(\d+(?:\.\d+)?)% packet loss\<close>: the leftmost match, and the digits it captures.\<close>

definition loss_here :: "string \<Rightarrow> string option" where
  "loss_here s =
     (let ds = takeWhile json_digit s; r = dropWhile json_digit s
      in if ds = [] then None
         else if starts_with r ''% packet loss'' then Some ds
         else (case r of
                 c # r' \<Rightarrow>
                   let fs = takeWhile json_digit r'
                   in if c = CHR ''.'' \<and> fs \<noteq> [] \<and> starts_with (dropWhile json_digit r') ''% packet loss''
                      then Some (ds @ ''.'' @ fs) else None
               | [] \<Rightarrow> None))"

fun search_loss :: "string \<Rightarrow> string option" where
  "search_loss [] = None"
| "search_loss (c # s) = (case loss_here (c # s) of Some m \<Rightarrow> Some m | None \<Rightarrow> search_loss s)"

definition number_char :: "char \<Rightarrow> bool" where "number_char c \<longleftrightarrow> json_digit c \<or> c = CHR ''.''"

definition number_field :: "string \<Rightarrow> (string \<times> string) option" where
  "number_field s = (let f = takeWhile number_char s in if f = [] then None else Some (f, dropWhile number_char s))"

definition rtt_here :: "string \<Rightarrow> (string \<times> string \<times> string \<times> string) option" where
  "rtt_here s =
     (if \<not> starts_with s ''rtt min/avg/max/mdev = '' then None
      else Option.bind (number_field (drop 23 s)) (\<lambda>(a, s). if \<not> starts_with s ''/'' then None else
           Option.bind (number_field (drop 1 s)) (\<lambda>(b, s). if \<not> starts_with s ''/'' then None else
           Option.bind (number_field (drop 1 s)) (\<lambda>(c, s). if \<not> starts_with s ''/'' then None else
           Option.bind (number_field (drop 1 s)) (\<lambda>(d, _). Some (a, b, c, d))))))"

fun search_rtt :: "string \<Rightarrow> (string \<times> string \<times> string \<times> string) option" where
  "search_rtt [] = None"
| "search_rtt (c # s) = (case rtt_here (c # s) of Some m \<Rightarrow> Some m | None \<Rightarrow> search_rtt s)"

definition parse_ping_output :: "string \<Rightarrow> dict option res" where
  \<comment> \<open>\<open>float()\<close> of a captured group such as \<open>1.2.3\<close> raises\<close>
  "parse_ping_output output =
     (let num = (\<lambda>k t. map_option (\<lambda>v. [(k, JFloat v)]) (float_of_str t));
          loss = (case search_loss output of None \<Rightarrow> Some [] | Some l \<Rightarrow> num ''loss_percent'' l);
          rtt = (case search_rtt output of None \<Rightarrow> Some []
                 | Some (a, b, c, d) \<Rightarrow>
                     (case (num ''min_ms'' a, num ''avg_ms'' b, num ''max_ms'' c, num ''jitter_ms'' d) of
                        (Some a, Some b, Some c, Some d) \<Rightarrow> Some (a @ b @ c @ d) | _ \<Rightarrow> None))
      in if search_loss output = None \<and> search_rtt output = None then Inr None
         else case (loss, rtt) of
                (Some l, Some r) \<Rightarrow> Inr (Some (l @ r)) | _ \<Rightarrow> Inl (ValueError ''could not convert string to float''))"

section \<open>Recording a live measurement\<close>

definition truthy_row :: "dict option \<Rightarrow> bool" where
  \<comment> \<open>a \<open>dict | None\<close> used as a truth value\<close>
  "truthy_row d \<longleftrightarrow> (\<exists>kv kvs. d = Some (kv # kvs))"

lemma truthy_row_code [simp]: "truthy_row None = False" "truthy_row (Some d) = (d \<noteq> [])"
  by (auto simp: truthy_row_def neq_Nil_conv)

definition keep_memory :: "string \<Rightarrow> string \<Rightarrow> dict option \<Rightarrow> dict option \<Rightarrow> dict \<Rightarrow> dict" where
  "keep_memory success_key stats_key last_successful stats network =
     (let network = (if truthy_row last_successful then jset success_key (JObj (the last_successful)) network else network)
      in if truthy_row stats then jset stats_key (JObj (the stats)) network else network)"

definition record_live_speed_test ::
  "dict \<Rightarrow> instant \<Rightarrow> dict option \<Rightarrow> string \<Rightarrow> string \<Rightarrow> string \<Rightarrow> string \<Rightarrow> string \<Rightarrow> dict option \<Rightarrow> dict option \<Rightarrow> dict option
     \<Rightarrow> dict" where
  "record_live_speed_test network now measured url empty_error result_key last_success_key stats_key
     previous_stats last_successful fallback_stats =
     (if truthy_row measured then
        let speed = the (settle_measurement now empty_error measured);
            network = jset result_key (JObj speed) network
        in if is_meaningful_speed_test_success (Some speed) then
             let network = jset last_success_key (JObj speed) network
             in case py_float (jget speed ''mbps'') of
                  Some mbps \<Rightarrow> if 0 < mbps then jset stats_key (JObj (update_speed_test_stats previous_stats mbps)) network
                               else network
                | None \<Rightarrow> network
           else keep_memory last_success_key stats_key last_successful fallback_stats network
      else keep_memory last_success_key stats_key last_successful fallback_stats
             (jset result_key (JObj (stamp_speed_test_measured_at
                [(''ok'', JBool False), (''url'', JStr url), (''error'', JStr ''Speed test failed'')] now)) network))"

section \<open>Carrying memory over a deferred cycle\<close>

record speed_family =
  sf_result_key :: string
  sf_last_attempt_key :: string
  sf_last_success_key :: string
  sf_stats_key :: string
  sf_empty_error :: string
  sf_deferred_slot_error :: string
  sf_deferred_stagger_error :: string

definition download_family :: speed_family where
  "download_family =
     \<lparr>sf_result_key = ''speed_test'', sf_last_attempt_key = ''speed_test_last_attempt'',
      sf_last_success_key = ''speed_test_last_success'', sf_stats_key = ''speed_test_stats'',
      sf_empty_error = ''Speed test downloaded no data'',
      sf_deferred_slot_error = ''Speed test deferred (shared rate limit '' @ em_dash @ '' retry on next interval)'',
      sf_deferred_stagger_error = ''Speed test deferred (waiting for a free slot among VPN services)''\<rparr>"

definition upload_family :: speed_family where
  "upload_family =
     \<lparr>sf_result_key = ''speed_test_upload'', sf_last_attempt_key = ''speed_test_upload_last_attempt'',
      sf_last_success_key = ''speed_test_upload_last_success'', sf_stats_key = ''speed_test_upload_stats'',
      sf_empty_error = ''Speed test uploaded no data'',
      sf_deferred_slot_error = ''Upload speed test deferred (shared rate limit '' @ em_dash @ '' retry on next interval)'',
      sf_deferred_stagger_error = ''Upload speed test deferred (waiting for a free slot among VPN services)''\<rparr>"

definition display_flags :: "string list" where
  "display_flags = [''cached'', ''deferred'', ''throttled'', ''defer_reason'', ''stale'']"

definition drop_flags :: "dict \<Rightarrow> dict" where
  "drop_flags d = filter (\<lambda>(k, _). k \<notin> set display_flags) d"

definition carry_measured_at :: "dict option \<Rightarrow> dict \<Rightarrow> dict" where
  "carry_measured_at last_success cached =
     (if as_str (jget cached ''measured_at'') = None then
        (case Option.bind last_success (\<lambda>d. as_str (jget d ''measured_at'')) of
           Some t \<Rightarrow> if strip t \<noteq> [] then jset ''measured_at'' (JStr t) cached else cached
         | None \<Rightarrow> cached)
      else cached)"

definition cached_display :: "speed_family \<Rightarrow> bool \<Rightarrow> dict option \<Rightarrow> dict \<Rightarrow> dict" where
  "cached_display fam throttled last_success displayed =
     (let cached = jset ''defer_reason'' (JStr (if throttled then ''slot'' else ''stagger''))
                     (jset ''deferred'' (JBool True) (jset ''cached'' (JBool True) displayed));
          cached = (if throttled then jset ''throttled'' (JBool True) cached else cached);
          cached = carry_measured_at last_success cached
      in if jget cached ''ok'' = JBool True \<and> \<not> is_meaningful_speed_test_success (Some cached)
         then jset_default ''error'' (JStr (sf_empty_error fam)) (jset ''ok'' (JBool False) cached) else cached)"

definition apply_cached_speed_family ::
  "speed_family \<Rightarrow> dict option \<Rightarrow> dict option \<Rightarrow> dict option \<Rightarrow> dict option \<Rightarrow> bool \<Rightarrow> dict \<Rightarrow> dict" where
  "apply_cached_speed_family fam previous last_live last_success previous_stats throttled network =
     (let live = (if last_live = None \<and> previous \<noteq> None \<and> is_live_speed_test_row (the previous)
                  then previous else last_live);
          network = (case live of Some d \<Rightarrow> jset (sf_last_attempt_key fam) (JObj (drop_flags d)) network | None \<Rightarrow> network);
          displayed = pick_display_speed_test previous last_success
      in if truthy_row displayed then
           let cached = cached_display fam throttled last_success (the displayed);
               network = jset (sf_result_key fam) (JObj cached) network;
               network = (if truthy_row last_success then jset (sf_last_success_key fam) (JObj (the last_success)) network
                          else if jget cached ''ok'' = JBool True \<and> is_meaningful_speed_test_success (Some cached)
                          then jset (sf_last_success_key fam) (JObj (drop_flags cached)) network else network)
           in if truthy_row previous_stats then jset (sf_stats_key fam) (JObj (the previous_stats)) network else network
         else
           let row = [(''ok'', JBool False),
                      (''error'', JStr (if throttled then sf_deferred_slot_error fam else sf_deferred_stagger_error fam)),
                      (''deferred'', JBool True), (''defer_reason'', JStr (if throttled then ''slot'' else ''stagger''))];
               row = (if throttled then jset ''throttled'' (JBool True) row else row)
           in keep_memory (sf_last_success_key fam) (sf_stats_key fam) last_success previous_stats
                (jset (sf_result_key fam) (JObj row) network))"

definition apply_cached_speed_test :: "SpeedTestRunContext \<Rightarrow> bool \<Rightarrow> dict \<Rightarrow> dict" where
  "apply_cached_speed_test ctx =
     apply_cached_speed_family download_family (rc_previous_speed_test ctx) (rc_last_live_speed_test ctx)
       (rc_last_successful_speed_test ctx) (rc_previous_speed_test_stats ctx)"

definition apply_cached_speed_test_upload :: "SpeedTestRunContext \<Rightarrow> bool \<Rightarrow> dict \<Rightarrow> dict" where
  "apply_cached_speed_test_upload ctx =
     apply_cached_speed_family upload_family (rc_previous_speed_test_upload ctx) (rc_last_live_speed_test_upload ctx)
       (rc_last_successful_speed_test_upload ctx) (rc_previous_speed_test_upload_stats ctx)"

definition has_upload_memory :: "SpeedTestRunContext \<Rightarrow> bool" where
  "has_upload_memory ctx \<longleftrightarrow>
     truthy_row (rc_previous_speed_test_upload ctx) \<or> truthy_row (rc_last_successful_speed_test_upload ctx)
     \<or> truthy_row (rc_previous_speed_test_upload_stats ctx)"

section \<open>Enrichment of a check\<close>

definition enrich_gateway_ping :: "string option \<Rightarrow> dict option \<Rightarrow> dict \<Rightarrow> dict" where
  "enrich_gateway_ping gateway ping network =
     (case (nonempty_str gateway, ping) of
        (Some g, Some (kv # kvs)) \<Rightarrow> jset ''gateway_ping'' (JObj (jset ''host'' (JStr g) (kv # kvs))) network
      | _ \<Rightarrow> network)"

definition finish_enrich :: "dict \<Rightarrow> host_wan \<Rightarrow> dict res \<times> host_wan" where
  "finish_enrich network s = (case attach_host_wan_baseline_to_network network None s of (n, s) \<Rightarrow> (Inr n, s))"

definition enrich_deferred :: "SpeedTestRunContext \<Rightarrow> dict \<Rightarrow> dict res" where
  \<comment> \<open>no live test in this cycle\<close>
  "enrich_deferred ctx network =
     (let network = apply_cached_speed_test ctx False network
      in if has_upload_memory ctx then Inr (apply_cached_speed_test_upload ctx False network)
         else case build_speed_test_upload_url (rc_url_template ctx) of
                Inl e \<Rightarrow> Inl e
              | Inr u \<Rightarrow> Inr (if nonempty_str u \<noteq> None then apply_cached_speed_test_upload ctx False network else network))"

definition enrich_throttled :: "SpeedTestRunContext \<Rightarrow> string option \<Rightarrow> dict \<Rightarrow> dict" where
  \<comment> \<open>the shared slot is taken\<close>
  "enrich_throttled ctx upload_url network =
     (let network = apply_cached_speed_test ctx True network
      in if upload_url \<noteq> None \<or> has_upload_memory ctx then apply_cached_speed_test_upload ctx True network else network)"

definition live_download :: "(string \<Rightarrow> dict option) \<Rightarrow> instant \<Rightarrow> SpeedTestRunContext \<Rightarrow> string \<Rightarrow> dict \<Rightarrow> dict" where
  "live_download measure_download now ctx url network =
     record_live_speed_test network now (measure_download url) url
       ''Speed test downloaded no data'' ''speed_test'' ''speed_test_last_success'' ''speed_test_stats''
       (rc_previous_speed_test_stats ctx) (rc_last_successful_speed_test ctx) (rc_previous_speed_test_stats ctx)"

definition live_upload :: "(string \<Rightarrow> dict option) \<Rightarrow> instant \<Rightarrow> SpeedTestRunContext \<Rightarrow> string option \<Rightarrow> dict \<Rightarrow> dict" where
  "live_upload measure_upload now ctx upload_url network =
     (case upload_url of
        Some up \<Rightarrow> record_live_speed_test network now (measure_upload up) up
          ''Speed test uploaded no data'' ''speed_test_upload'' ''speed_test_upload_last_success''
          ''speed_test_upload_stats'' (rc_previous_speed_test_upload_stats ctx)
          (rc_last_successful_speed_test_upload ctx) (rc_previous_speed_test_upload_stats ctx)
      | None \<Rightarrow> if has_upload_memory ctx then apply_cached_speed_test_upload ctx False network else network)"

definition backfill_mtu :: "string option \<Rightarrow> json option \<Rightarrow> dict \<Rightarrow> dict" where
  "backfill_mtu iface link_mtu network =
     (if nonempty_str iface \<noteq> None \<and> \<not> truthy (jget network ''mtu'')
      then (case link_mtu of Some m \<Rightarrow> jset ''mtu'' m network | None \<Rightarrow> network) else network)"

definition enrich_network_metrics ::
  "(string \<Rightarrow> dict option) \<Rightarrow> (string \<Rightarrow> dict option) \<Rightarrow> dict option \<Rightarrow> json option \<Rightarrow> instant \<Rightarrow> rat
     \<Rightarrow> dict \<Rightarrow> string option \<Rightarrow> string option \<Rightarrow> int \<Rightarrow> SpeedTestRunContext \<Rightarrow> host_wan \<Rightarrow> dict res \<times> host_wan" where
  "enrich_network_metrics measure_download measure_upload ping link_mtu now clock
     network gateway iface speed_test_bytes ctx s =
     (let network = enrich_gateway_ping gateway ping network
      in if \<not> rc_run_speed_test ctx then
           (case enrich_deferred ctx network of Inl e \<Rightarrow> (Inl e, s) | Inr n \<Rightarrow> finish_enrich n s)
         else case build_speed_test_url (rc_url_template ctx) speed_test_bytes of
           Inl e \<Rightarrow> (Inl e, s)
         | Inr url \<Rightarrow>
           (case build_speed_test_upload_url (rc_url_template ctx) of
              Inl e \<Rightarrow> (Inl e, s)
            | Inr u \<Rightarrow>
              (case try_acquire_speed_test_slot clock (hw_slot_last_at s) of
                 (False, _) \<Rightarrow> finish_enrich (enrich_throttled ctx (nonempty_str u) network) s
               | (True, l) \<Rightarrow>
                   let network = live_download measure_download now ctx url network;
                       network = live_upload measure_upload now ctx (nonempty_str u) network
                   in finish_enrich (backfill_mtu iface link_mtu network) (s\<lparr>hw_slot_last_at := l\<rparr>))))"

section \<open>What a cycle writes\<close>

definition details_with :: "dict \<Rightarrow> json" where
  "details_with network = JObj [(''network'', JObj network)]"

lemma network_of_details_with [simp]: "network_of (details_with n) = Some n"
  by (simp add: network_of_def details_with_def)

lemma map_of_drop_flags: "map_of (drop_flags d) k = (if k \<in> set display_flags then None else map_of d k)"
  by (induction d) (auto simp: drop_flags_def)

lemma jget_drop_flags: "jget (drop_flags d) k = (if k \<in> set display_flags then JNull else jget d k)"
  by (simp add: jget_def map_of_drop_flags)

lemma live_drop_flags [simp]: "is_live_speed_test_row (drop_flags d)"
  by (simp add: is_live_speed_test_row_def jget_drop_flags display_flags_def)

lemma meaningful_drop_flags [simp]:
  "is_meaningful_speed_test_success (Some (drop_flags d)) = is_meaningful_speed_test_success (Some d)"
  by (simp add: meaningful_Some_iff jget_drop_flags display_flags_def)

lemma jget_dict_update_other: "k \<notin> fst ` set fs \<Longrightarrow> jget (dict_update d fs) k = jget d k"
  unfolding dict_update_def by (induction fs arbitrary: d) auto

definition direct_keys :: "string set" where
  "direct_keys = {''direct_speed_test_measured_at'', ''direct_speed_test'', ''direct_speed_test_upload'',
     ''direct_speed_test_skipped'', ''direct_speed_test_skip_reason''}"

lemma keys_as_network_fields: "fst ` set (as_network_fields b p) \<subseteq> direct_keys"
  unfolding as_network_fields_def Let_def direct_keys_def by (auto split: option.splits if_splits)

definition download_keys :: "string set" where
  "download_keys = {''speed_test'', ''speed_test_last_attempt'', ''speed_test_last_success'', ''speed_test_stats''}"

lemma attach_keeps_other:
  assumes "attach_host_wan_baseline_to_network network t s = (n, s')" and "k \<notin> direct_keys"
  shows "jget n k = jget network k"
  using assms jget_dict_update_other keys_as_network_fields
  by (fastforce simp: attach_host_wan_baseline_to_network_def Let_def split: option.splits)

lemma download_direct_disjoint: "download_keys \<inter> direct_keys = {}"
  by (simp add: download_keys_def direct_keys_def)

lemma attach_keeps:
  assumes "attach_host_wan_baseline_to_network network t s = (n, s')" and "k \<in> download_keys"
  shows "jget n k = jget network k"
proof (rule attach_keeps_other [OF assms(1)])
  show "k \<notin> direct_keys" using assms(2) download_direct_disjoint by (metis disjoint_iff)
qed

lemma jget_keep_memory:
  "k \<noteq> sk \<Longrightarrow> k \<noteq> tk \<Longrightarrow> jget (keep_memory sk tk l st n) k = jget n k"
  by (simp add: keep_memory_def Let_def)

lemma jget_apply_family_other:
  assumes "k \<notin> {sf_result_key fam, sf_last_attempt_key fam, sf_last_success_key fam, sf_stats_key fam}"
  shows "jget (apply_cached_speed_family fam p l su st thr n) k = jget n k"
proof -
  define shown where "shown = pick_display_speed_test p su"
  define cached where "cached = cached_display fam thr su (the shown)"
  define live where "live = (if l = None \<and> p \<noteq> None \<and> is_live_speed_test_row (the p) then p else l)"
  define n1 where "n1 = (case live of Some d \<Rightarrow> jset (sf_last_attempt_key fam) (JObj (drop_flags d)) n | None \<Rightarrow> n)"
  have ks: "k \<noteq> sf_result_key fam" "sf_result_key fam \<noteq> k" "k \<noteq> sf_last_attempt_key fam" "sf_last_attempt_key fam \<noteq> k"
    "k \<noteq> sf_last_success_key fam" "sf_last_success_key fam \<noteq> k" "k \<noteq> sf_stats_key fam" "sf_stats_key fam \<noteq> k"
    using assms by auto
  have n1: "jget n1 k = jget n k" using ks by (simp add: n1_def split: option.split)
  show ?thesis
    unfolding apply_cached_speed_family_def Let_def
    unfolding live_def [symmetric] unfolding n1_def [symmetric] unfolding shown_def [symmetric]
    unfolding cached_def [symmetric]
    using ks n1 by (simp add: jget_keep_memory)
qed

lemma upload_keeps: "k \<in> download_keys \<Longrightarrow> jget (apply_cached_speed_test_upload ctx thr n) k = jget n k"
  unfolding apply_cached_speed_test_upload_def
  by (rule jget_apply_family_other) (auto simp: upload_family_def download_keys_def)

lemma jget_record_live_other:
  assumes "k \<notin> {rk, sk, tk}"
  shows "jget (record_live_speed_test n now m url e rk sk tk ps l f) k = jget n k"
proof -
  define speed where "speed = the (settle_measurement now e m)"
  show ?thesis using assms
    unfolding record_live_speed_test_def Let_def speed_def [symmetric]
    by (auto simp: jget_keep_memory split: option.splits)
qed

lemma live_upload_keeps: "k \<in> download_keys \<Longrightarrow> jget (live_upload mu now ctx u n) k = jget n k"
  unfolding live_upload_def
  by (auto simp: upload_keeps download_keys_def intro!: jget_record_live_other split: option.split)

lemma backfill_keeps: "k \<in> download_keys \<Longrightarrow> jget (backfill_mtu iface m n) k = jget n k"
  by (auto simp: backfill_mtu_def download_keys_def split: option.splits)

lemma finish_keeps:
  "finish_enrich n0 s = (Inr n, s') \<Longrightarrow> k \<in> download_keys \<Longrightarrow> jget n k = jget n0 k"
  by (auto simp: finish_enrich_def split: prod.splits dest: attach_keeps)

lemma enrich_deferred_keeps:
  "enrich_deferred ctx n0 = Inr n \<Longrightarrow> k \<in> download_keys \<Longrightarrow> jget n k = jget (apply_cached_speed_test ctx False n0) k"
  by (auto simp: enrich_deferred_def Let_def upload_keeps split: if_splits sum.splits)

lemma enrich_throttled_keeps:
  "k \<in> download_keys \<Longrightarrow> jget (enrich_throttled ctx u n0) k = jget (apply_cached_speed_test ctx True n0) k"
  by (simp add: enrich_throttled_def Let_def upload_keeps)

lemma enrich_download_keys:
  assumes "enrich_network_metrics md mu ping mtu now clock network gw iface bytes ctx s = (Inr n, s')"
  shows "(\<exists>thr n0. \<forall>k \<in> download_keys. jget n k = jget (apply_cached_speed_test ctx thr n0) k)
     \<or> (rc_run_speed_test ctx \<and> (\<exists>url n0. \<forall>k \<in> download_keys. jget n k = jget (live_download md now ctx url n0) k))"
proof (cases "rc_run_speed_test ctx")
  case False
  then obtain n1 where "enrich_deferred ctx (enrich_gateway_ping gw ping network) = Inr n1" "finish_enrich n1 s = (Inr n, s')"
    using assms by (auto simp: enrich_network_metrics_def split: sum.splits)
  then have "\<forall>k \<in> download_keys. jget n k = jget (apply_cached_speed_test ctx False (enrich_gateway_ping gw ping network)) k"
    using finish_keeps enrich_deferred_keeps by metis
  then show ?thesis by blast
next
  case True
  let ?n0 = "enrich_gateway_ping gw ping network"
  from True assms obtain url u ok l where
    r: "(case (ok, l) of (False, _) \<Rightarrow> finish_enrich (enrich_throttled ctx (nonempty_str u) ?n0) s
       | (True, l) \<Rightarrow> finish_enrich (backfill_mtu iface mtu (live_upload mu now ctx (nonempty_str u) (live_download md now ctx url ?n0)))
           (s\<lparr>hw_slot_last_at := l\<rparr>)) = (Inr n, s')"
    unfolding enrich_network_metrics_def Let_def
    by (cases "try_acquire_speed_test_slot clock (hw_slot_last_at s)") (auto split: sum.splits)
  show ?thesis
  proof (cases ok)
    case False
    with r have "finish_enrich (enrich_throttled ctx (nonempty_str u) ?n0) s = (Inr n, s')" by simp
    then have "\<forall>k \<in> download_keys. jget n k = jget (apply_cached_speed_test ctx True ?n0) k"
      using finish_keeps enrich_throttled_keeps by metis
    then show ?thesis by blast
  next
    case True
    with r have "finish_enrich (backfill_mtu iface mtu (live_upload mu now ctx (nonempty_str u) (live_download md now ctx url ?n0)))
        (s\<lparr>hw_slot_last_at := l\<rparr>) = (Inr n, s')" by simp
    then have "\<forall>k \<in> download_keys. jget n k = jget (live_download md now ctx url ?n0) k"
      using finish_keeps backfill_keeps live_upload_keeps by metis
    with \<open>rc_run_speed_test ctx\<close> show ?thesis by blast
  qed
qed

section \<open>Speed memory is never lost\<close>

lemma pick_display_truthy:
  assumes "is_meaningful_speed_test_success l"
  shows "truthy_row (pick_display_speed_test p l)"
  using assms by (cases p; cases l) (auto simp: pick_display_speed_test_def dest: meaningful_not_Nil)

lemma keep_memory_success:
  assumes "l = Some d" "d \<noteq> []" "sk \<noteq> tk"
  shows "jget (keep_memory sk tk l st n) sk = JObj d"
  using assms by (simp add: keep_memory_def Let_def)

lemma apply_cached_success:
  assumes "rc_last_successful_speed_test ctx = Some d" "is_meaningful_speed_test_success (Some d)"
  shows "jget (apply_cached_speed_test ctx thr n) ''speed_test_last_success'' = JObj d"
proof -
  have "truthy_row (pick_display_speed_test p (Some d))" "truthy_row (Some d)" for p
    using assms(2) pick_display_truthy meaningful_not_Nil by simp_all
  then show ?thesis using assms(1)
    by (simp add: apply_cached_speed_test_def apply_cached_speed_family_def Let_def download_family_def)
qed

lemma settle_measurement_honest:
  "settle_measurement now e (Some d) = Some r \<Longrightarrow> d \<noteq> [] \<Longrightarrow> jget r ''ok'' = JBool True \<Longrightarrow> is_meaningful_speed_test_success (Some r)"
  by (cases d) (auto simp: settle_measurement_def Let_def split: if_splits)

lemma settle_measurement_some: "truthy_row m \<Longrightarrow> \<exists>r. settle_measurement now e m = Some r"
  by (auto simp: truthy_row_def settle_measurement_def Let_def)

lemma live_download_success:
  assumes "rc_last_successful_speed_test ctx = Some d" "is_meaningful_speed_test_success (Some d)"
  shows "\<exists>r. jget (live_download md now ctx url n) ''speed_test_last_success'' = JObj r \<and> is_meaningful_speed_test_success (Some r)"
proof -
  define speed where "speed = the (settle_measurement now ''Speed test downloaded no data'' (md url))"
  show ?thesis using assms meaningful_not_Nil [OF assms(2)]
    unfolding live_download_def record_live_speed_test_def Let_def speed_def [symmetric]
    by (auto simp: keep_memory_success split: option.split)
qed


lemma slot_first_time: "try_acquire_speed_test_slot 100 0 = (True, 100)"
  by (simp add: try_acquire_speed_test_slot_def SPEED_TEST_MIN_GAP_SECONDS_def)

definition sample_context :: SpeedTestRunContext where
  "sample_context = (default_context sample_cfg)\<lparr>rc_run_speed_test := False,
     rc_last_successful_speed_test := Some sample_row, rc_previous_speed_test_upload := Some sample_row,
     rc_last_live_speed_test := Some sample_row\<rparr>"

lemma sample_row_meaningful: "is_meaningful_speed_test_success (Some sample_row)"
  by (simp add: meaningful_Some_iff sample_row_def jor_def)

lemma sample_enrich:
  "\<exists>n. enrich_network_metrics (\<lambda>_. None) (\<lambda>_. None) None None 0 100 [] None None 1000 sample_context (fresh_process None)
     = (Inr n, hydrate_from_disk False (fresh_process None))"
  by (simp add: enrich_network_metrics_def enrich_deferred_def finish_enrich_def Let_def sample_context_def
      default_context_def has_upload_memory_def sample_row_def attach_host_wan_baseline_to_network_def
      hydrate_from_disk_def fresh_process_def)


section \<open>A deferred cycle keeps the schedule\<close>

lemma apply_family_attempt:
  assumes "l = Some d"
    and "sf_last_attempt_key fam \<noteq> sf_result_key fam" "sf_last_attempt_key fam \<noteq> sf_last_success_key fam"
    "sf_last_attempt_key fam \<noteq> sf_stats_key fam"
  shows "jget (apply_cached_speed_family fam p l su st thr n) (sf_last_attempt_key fam) = JObj (drop_flags d)"
proof -
  define shown where "shown = pick_display_speed_test p su"
  define cached where "cached = cached_display fam thr su (the shown)"
  define n1 where "n1 = jset (sf_last_attempt_key fam) (JObj (drop_flags d)) n"
  have n1: "jget n1 (sf_last_attempt_key fam) = JObj (drop_flags d)" by (simp add: n1_def)
  show ?thesis
    unfolding apply_cached_speed_family_def Let_def assms(1) option.case simp_thms if_False option.distinct
    unfolding n1_def [symmetric] unfolding shown_def [symmetric] unfolding cached_def [symmetric]
    using assms(2-4) assms(2-4) [symmetric] n1 by (simp add: jget_keep_memory)
qed

lemma enrich_not_live_keys:
  assumes "enrich_network_metrics md mu ping mtu now clock network gw iface bytes ctx s = (Inr n, s')"
    and "rc_run_speed_test ctx \<longrightarrow> \<not> fst (try_acquire_speed_test_slot clock (hw_slot_last_at s))"
  shows "\<exists>thr n0. \<forall>k \<in> download_keys. jget n k = jget (apply_cached_speed_test ctx thr n0) k"
proof (cases "rc_run_speed_test ctx")
  case False
  then obtain n1 where "enrich_deferred ctx (enrich_gateway_ping gw ping network) = Inr n1" "finish_enrich n1 s = (Inr n, s')"
    using assms by (auto simp: enrich_network_metrics_def split: sum.splits)
  then show ?thesis using finish_keeps enrich_deferred_keeps by metis
next
  case True
  with assms(2) obtain l where "try_acquire_speed_test_slot clock (hw_slot_last_at s) = (False, l)"
    by (cases "try_acquire_speed_test_slot clock (hw_slot_last_at s)") auto
  with True assms(1) obtain u where
    "finish_enrich (enrich_throttled ctx (nonempty_str u) (enrich_gateway_ping gw ping network)) s = (Inr n, s')"
    unfolding enrich_network_metrics_def Let_def by (auto split: sum.splits)
  then show ?thesis using finish_keeps enrich_throttled_keeps by metis
qed

text \<open>
  A cycle that does not measure, because the component is not due, not picked or the slot is taken,
  leaves the schedule alone: the last live attempt read from the new details is the old one, with the
  same time of measurement and the same rate-limit verdict, so neither the interval nor the one-hour
  backoff restarts.
\<close>

theorem deferred_cycle_keeps_schedule:
  assumes "rc_last_live_speed_test ctx = Some d" and "jget d ''measured_at'' = JStr t" and "t \<noteq> []"
    and "rc_run_speed_test ctx \<longrightarrow> \<not> fst (try_acquire_speed_test_slot clock (hw_slot_last_at s))"
    and "enrich_network_metrics md mu ping mtu now clock network gw iface bytes ctx s = (Inr n, s')"
  shows "\<exists>a. extract_last_live_speed_test_from_details (details_with n) ct = Some a
     \<and> parse_speed_test_measured_at (Some a) = parse_speed_test_measured_at (Some d)
     \<and> is_rate_limited_speed_test (Some a) = is_rate_limited_speed_test (Some d)"
proof -
  have "jget n ''speed_test_last_attempt'' = JObj (drop_flags d)"
    using enrich_not_live_keys [OF assms(5,4)]
      apply_family_attempt [OF assms(1), of download_family]
    by (auto simp: download_keys_def apply_cached_speed_test_def download_family_def)
  moreover have m: "jget (drop_flags d) ''measured_at'' = JStr t" by (simp add: jget_drop_flags display_flags_def assms(2))
  moreover from m have ne: "drop_flags d \<noteq> []" by auto
  ultimately have "extract_last_live_speed_test_from_details (details_with n) ct = Some (drop_flags d)"
    using assms(3) by (simp add: extract_last_live_speed_test_from_details_def last_live_row_def hydrate_speed_test_measured_at_def)
  moreover have "parse_speed_test_measured_at (Some (drop_flags d)) = parse_speed_test_measured_at (Some d)"
    by (simp add: parse_speed_test_measured_at_def m assms(2))
  moreover have "is_rate_limited_speed_test (Some (drop_flags d)) = is_rate_limited_speed_test (Some d)"
  proof -
    have "d \<noteq> []" using assms(2) by auto
    with ne show ?thesis
      by (simp add: is_rate_limited_speed_test_def jget_drop_flags map_of_drop_flags display_flags_def)
  qed
  ultimately show ?thesis by blast
qed

lemma deferred_cycle_keeps_schedule_witness:
  "\<exists>n a. fst (enrich_network_metrics (\<lambda>_. None) (\<lambda>_. None) None None 0 100 [] None None 1000 sample_context (fresh_process None)) = Inr n
     \<and> extract_last_live_speed_test_from_details (details_with n) None = Some a
     \<and> parse_speed_test_measured_at (Some a) = parse_speed_test_measured_at (Some sample_row)"
proof -
  obtain n where n: "enrich_network_metrics (\<lambda>_. None) (\<lambda>_. None) None None 0 100 [] None None 1000 sample_context (fresh_process None)
     = (Inr n, hydrate_from_disk False (fresh_process None))" using sample_enrich by blast
  have "rc_last_live_speed_test sample_context = Some sample_row" "\<not> rc_run_speed_test sample_context"
    "jget sample_row ''measured_at'' = JStr ''2024-01-01T00:00:00+00:00''"
    by (simp_all add: sample_context_def sample_row_def)
  from deferred_cycle_keeps_schedule [OF this(1,3) _ _ n, of None] this(2) n show ?thesis by auto
qed

section \<open>The stored row is honest\<close>

lemma cached_display_honest:
  "jget (cached_display fam thr su d) ''ok'' = JBool True \<Longrightarrow> is_meaningful_speed_test_success (Some (cached_display fam thr su d))"
proof -
  define c where "c = carry_measured_at su
     (if thr then jset ''throttled'' (JBool True) (jset ''defer_reason'' (JStr (if thr then ''slot'' else ''stagger''))
                     (jset ''deferred'' (JBool True) (jset ''cached'' (JBool True) d)))
      else jset ''defer_reason'' (JStr (if thr then ''slot'' else ''stagger''))
                     (jset ''deferred'' (JBool True) (jset ''cached'' (JBool True) d)))"
  assume "jget (cached_display fam thr su d) ''ok'' = JBool True"
  then show ?thesis
    unfolding cached_display_def Let_def c_def [symmetric] by (auto simp: jget_jset_default split: if_splits)
qed

definition row_honest :: "json \<Rightarrow> bool" where
  "row_honest j \<longleftrightarrow> (\<exists>row. j = JObj row \<and> (jget row ''ok'' = JBool True \<longrightarrow> is_meaningful_speed_test_success (Some row)))"

lemma apply_cached_row_honest: "row_honest (jget (apply_cached_speed_test ctx thr n) ''speed_test'')"
proof -
  define shown where "shown = pick_display_speed_test (rc_previous_speed_test ctx) (rc_last_successful_speed_test ctx)"
  define cached where "cached = cached_display download_family thr (rc_last_successful_speed_test ctx) (the shown)"
  have "row_honest (JObj cached)" using cached_display_honest by (auto simp: row_honest_def cached_def)
  then show ?thesis
    unfolding apply_cached_speed_test_def apply_cached_speed_family_def Let_def shown_def [symmetric] cached_def [symmetric]
    by (simp add: download_family_def jget_keep_memory) (simp add: row_honest_def)
qed

lemma live_download_row_honest: "row_honest (jget (live_download md now ctx url n) ''speed_test'')"
proof (cases "truthy_row (md url)")
  case True
  then obtain d where d: "md url = Some d" "d \<noteq> []" by (auto simp: truthy_row_def)
  obtain r where r: "settle_measurement now ''Speed test downloaded no data'' (md url) = Some r"
    using settle_measurement_some [OF True] by blast
  then have "row_honest (JObj r)" using settle_measurement_honest d by (auto simp: row_honest_def)
  then show ?thesis using True r
    unfolding live_download_def record_live_speed_test_def Let_def
    by (simp add: jget_keep_memory split: option.split)
next
  case False
  then show ?thesis
    by (simp add: live_download_def record_live_speed_test_def jget_keep_memory row_honest_def jget_stamp)
qed

text \<open>
  Whatever happened in a cycle, the speed row it stores claims success only for a real, non-empty
  download.
\<close>

theorem stored_speed_row_honest:
  assumes "enrich_network_metrics md mu ping mtu now clock network gw iface bytes ctx s = (Inr n, s')"
  shows "\<exists>row. jget n ''speed_test'' = JObj row
     \<and> (jget row ''ok'' = JBool True \<longrightarrow> is_meaningful_speed_test_success (Some row))"
  using enrich_download_keys [OF assms] apply_cached_row_honest live_download_row_honest
  by (auto simp: download_keys_def row_honest_def)

lemma stored_speed_row_honest_witness:
  "\<exists>n row. fst (enrich_network_metrics (\<lambda>_. None) (\<lambda>_. None) None None 0 100 [] None None 1000 sample_context (fresh_process None)) = Inr n
     \<and> jget n ''speed_test'' = JObj row"
proof -
  obtain n where n: "enrich_network_metrics (\<lambda>_. None) (\<lambda>_. None) None None 0 100 [] None None 1000 sample_context (fresh_process None)
     = (Inr n, hydrate_from_disk False (fresh_process None))" using sample_enrich by blast
  from stored_speed_row_honest [OF n] n show ?thesis by auto
qed

end
