(* ===== verification/NetworkSummary.thy ===== *)
theory NetworkSummary
  imports HostWan
begin

text \<open>
  \<open>src/app/services/public_network_summary.py\<close> and \<open>format_speed_test_error\<close> of \<open>speed_measure.py\<close>: the
  public view of \<open>details.network\<close>. The DTO \<open>NetworkSummary\<close> is the dictionary of its fields; Pydantic
  keeps the values the program stores, so a field is the stored \<open>json\<close> value.
\<close>

section \<open>Error texts\<close>

text \<open>The argument is an \<open>httpx\<close> exception or any value, used through its text.\<close>

datatype speed_error = HTTPStatusError int | TimeoutException | ConnectError | Message string

definition http_error_text :: "int \<Rightarrow> string" where
  "http_error_text status_code =
     (if status_code = 429 then ''Speed test rate limited (HTTP 429)''
      else if status_code = 403 then ''Speed test blocked (HTTP 403)''
      else ''Speed test failed (HTTP '' @ int_str status_code @ '')'')"

fun search_client_error :: "string \<Rightarrow> int option" where
  \<comment> \<open>\<open>Client error '(\d{3})\<close>, leftmost match\<close>
  "search_client_error [] = None"
| "search_client_error (c # s) =
     (let ds = take 3 (drop 14 (c # s))
      in if starts_with (c # s) (''Client error '' @ [CHR 0x27]) \<and> length ds = 3 \<and> list_all json_digit ds
         then Some (int (dec_value ds)) else search_client_error s)"

definition word_char :: "char \<Rightarrow> bool" where
  "word_char c \<longleftrightarrow> json_digit c \<or> c = CHR ''_'' \<or> (let n = of_char (lower_char c) :: nat in 97 \<le> n \<and> n \<le> 122)"

fun word_timeout :: "bool \<Rightarrow> string \<Rightarrow> bool" where
  \<comment> \<open>\<open>\btimeout\b\<close>, ignoring case; the flag says that the previous character is a word character\<close>
  "word_timeout prev [] = False"
| "word_timeout prev (c # s) =
     ((\<not> prev \<and> starts_with (lower (c # s)) ''timeout''
        \<and> (case drop 7 (c # s) of [] \<Rightarrow> True | d # _ \<Rightarrow> \<not> word_char d))
      \<or> word_timeout (word_char c) s)"

definition format_speed_test_error :: "speed_error \<Rightarrow> string" where
  "format_speed_test_error error =
     (case error of
        HTTPStatusError code \<Rightarrow> http_error_text code
      | TimeoutException \<Rightarrow> ''Speed test timed out''
      | ConnectError \<Rightarrow> ''Speed test connection failed''
      | Message text \<Rightarrow>
          let message = strip text
          in if message = [] then ''Speed test failed''
             else if starts_with message ''Speed test '' then message
             else case search_client_error message of
                    Some code \<Rightarrow> http_error_text code
                  | None \<Rightarrow>
                      if contains message ''429'' \<or> contains (lower message) ''rate limit''
                      then ''Speed test rate limited (HTTP 429)''
                      else if word_timeout False message then ''Speed test timed out''
                      else ''Speed test failed'')"

definition error_of_json :: "json \<Rightarrow> speed_error" where
  "error_of_json e = Message (if e = JNull then '''' else py_str e)"

section \<open>A measured series\<close>

record speed_display =
  sd_ok :: "bool option"
  sd_error :: "string option"
  sd_mbps :: json
  sd_bytes :: json
  sd_duration_ms :: json
  sd_showing_last_success :: bool
  sd_measured_at :: "string option"
  sd_last_success_at :: "string option"

definition meaningful :: "dict \<Rightarrow> bool" where
  "meaningful d = is_meaningful_speed_test_success (Some d)"

definition series_core :: "dict \<Rightarrow> dict \<Rightarrow> string \<Rightarrow> speed_display" where
  \<comment> \<open>the first chain of branches\<close>
  "series_core st last_success empty_error =
     (let measured_at = as_str (jget st ''measured_at'');
          last_at = as_str (jget last_success ''measured_at'');
          base = \<lparr>sd_ok = None, sd_error = None, sd_mbps = jget st ''mbps'', sd_bytes = jget st ''bytes'',
                  sd_duration_ms = jget st ''duration_ms'', sd_showing_last_success = False,
                  sd_measured_at = measured_at, sd_last_success_at = last_at\<rparr>;
          from_last = (\<lambda>r. r\<lparr>sd_mbps := jget last_success ''mbps'', sd_bytes := jget last_success ''bytes'',
                             sd_duration_ms := jget last_success ''duration_ms'', sd_ok := Some True,
                             sd_showing_last_success := True, sd_last_success_at := last_at\<rparr>)
      in if st = [] then base
         else if meaningful st then base\<lparr>sd_ok := Some True\<rparr>
         else if jget st ''ok'' = JBool True then
           let r = base\<lparr>sd_ok := Some False, sd_mbps := JNull,
                        sd_error := Some (format_speed_test_error
                          (if truthy (jget st ''error'') then error_of_json (jget st ''error'') else Message empty_error))\<rparr>
           in if meaningful last_success then from_last r else r
         else if jget st ''ok'' = JBool False then
           let r = base\<lparr>sd_ok := Some False,
                        sd_error := Some (if truthy (jget st ''error'') then format_speed_test_error (error_of_json (jget st ''error''))
                                          else ''Speed test failed'')\<rparr>
           in if meaningful last_success then from_last r else r
         else if truthy (jget st ''stale'') \<and> meaningful (jset ''ok'' (JBool True) st) then
           base\<lparr>sd_ok := Some True, sd_showing_last_success := True,
                sd_last_success_at := (if nonempty_str last_at = None \<and> measured_at \<noteq> None then measured_at else last_at)\<rparr>
         else base)"

definition fill_last_at :: "bool \<Rightarrow> speed_display \<Rightarrow> speed_display" where
  "fill_last_at b r =
     (if b \<and> nonempty_str (sd_last_success_at r) = None \<and> sd_measured_at r \<noteq> None
      then r\<lparr>sd_last_success_at := sd_measured_at r\<rparr> else r)"

definition project_speed_series :: "dict \<Rightarrow> dict \<Rightarrow> string \<Rightarrow> speed_display" where
  "project_speed_series st last_success empty_error =
     (let r = series_core st last_success empty_error;
          r = (if meaningful st \<and> truthy (jget st ''cached'')
               then fill_last_at True (r\<lparr>sd_showing_last_success := sd_showing_last_success r \<or> truthy (jget st ''stale'')
                      \<or> truthy (jget st ''throttled'') \<or> truthy (jget st ''deferred'')\<rparr>)
               else r);
          r = fill_last_at (sd_showing_last_success r) r
      in fill_last_at (meaningful st \<and> \<not> truthy (jget st ''cached'')) r)"

record direct_display =
  dd_mbps :: "rat option"
  dd_bytes :: json
  dd_duration_ms :: json
  dd_cached :: "bool option"
  dd_measured_at :: "string option"

definition project_direct_speed :: "dict option \<Rightarrow> direct_display" where
  "project_direct_speed payload =
     (case payload of
        None \<Rightarrow> \<lparr>dd_mbps = None, dd_bytes = JNull, dd_duration_ms = JNull, dd_cached = None, dd_measured_at = None\<rparr>
      | Some d \<Rightarrow>
          let mbps = direct_mbps_from_payload (Some d)
          in \<lparr>dd_mbps = mbps,
              dd_bytes = (if mbps \<noteq> None then jget d ''bytes'' else JNull),
              dd_duration_ms = (if mbps \<noteq> None then jget d ''duration_ms'' else JNull),
              dd_cached = (if mbps \<noteq> None
                then Some (truthy (jget d ''cached'') \<or> truthy (jget d ''deferred'') \<or> truthy (jget d ''stale'')) else None),
              dd_measured_at = as_str (jget d ''measured_at'')\<rparr>)"

section \<open>The summary\<close>

definition dict_at :: "dict \<Rightarrow> string \<Rightarrow> dict" where
  \<comment> \<open>\<open>v if isinstance(v, dict) else {}\<close>\<close>
  "dict_at d k = default_to [] (as_dict (jget d k))"

definition stats_fields :: "string \<Rightarrow> dict option \<Rightarrow> dict" where
  "stats_fields prefix stats =
     (let s = default_to [] stats
      in [(prefix @ ''_min_mbps'', jget s ''min_mbps''), (prefix @ ''_max_mbps'', jget s ''max_mbps''),
          (prefix @ ''_avg_mbps'', jget s ''avg_mbps''), (prefix @ ''_sample_count'', jget s ''sample_count'')])"

definition series_fields :: "string \<Rightarrow> string \<Rightarrow> speed_display \<Rightarrow> dict" where
  "series_fields rate prefix r =
     [(rate @ ''_mbps'', sd_mbps r), (rate @ ''_bytes'', sd_bytes r), (rate @ ''_duration_ms'', sd_duration_ms r),
      (prefix @ ''_ok'', opt_json JBool (sd_ok r)), (prefix @ ''_error'', opt_json JStr (sd_error r)),
      (prefix @ ''_measured_at'', opt_json JStr (sd_measured_at r)),
      (prefix @ ''_last_success_at'', opt_json JStr (sd_last_success_at r)),
      (prefix @ ''_showing_last_success'', if sd_showing_last_success r then JBool True else JNull)]"

definition direct_fields :: "string \<Rightarrow> direct_display \<Rightarrow> json \<Rightarrow> dict" where
  "direct_fields prefix r measured_at =
     [(prefix @ ''_mbps'', opt_json JFloat (dd_mbps r)), (prefix @ ''_bytes'', dd_bytes r),
      (prefix @ ''_duration_ms'', dd_duration_ms r), (prefix @ ''_cached'', opt_json JBool (dd_cached r)),
      (prefix @ ''_measured_at'', measured_at)]"

definition summary_fields :: "dict \<Rightarrow> dict" where
  "summary_fields network =
     (let probe = dict_at network ''probe''; google_probe = dict_at network ''google_probe'';
          gateway_ping = dict_at network ''gateway_ping'';
          download = project_speed_series (dict_at network ''speed_test'') (dict_at network ''speed_test_last_success'')
                       ''Speed test downloaded no data'';
          upload = project_speed_series (dict_at network ''speed_test_upload'')
                     (dict_at network ''speed_test_upload_last_success'') ''Speed test uploaded no data'';
          details = JObj [(''network'', JObj network)];
          dd = project_direct_speed (as_dict (jget network ''direct_speed_test''));
          du = project_direct_speed (as_dict (jget network ''direct_speed_test_upload''))
      in [(k, jget network k). k \<leftarrow> [''interface'', ''ipv4_address'', ''gateway'', ''dns_servers'', ''mtu'', ''connect_time_ms'',
                                  ''proxy_url'', ''inbound_protocol'']]
         @ [(''probe_url'', jget probe ''url''), (''exit_ip'', jget probe ''exit_ip''),
            (''probe_latency_ms'', jget probe ''latency_ms''), (''google_probe_ok'', jget google_probe ''ok''),
            (''google_probe_latency_ms'', jget google_probe ''latency_ms''),
            (''gateway_ping_avg_ms'', jget gateway_ping ''avg_ms''),
            (''gateway_ping_loss_percent'', jget gateway_ping ''loss_percent''),
            (''gateway_ping_jitter_ms'', jget gateway_ping ''jitter_ms'')]
         @ series_fields ''download'' ''speed_test'' download @ stats_fields ''speed_test'' (extract_speed_test_stats details)
         @ series_fields ''upload'' ''upload_speed_test'' upload
         @ stats_fields ''upload_speed_test'' (extract_speed_test_upload_stats details)
         @ direct_fields ''direct_download'' dd
             (case nonempty_str (dd_measured_at dd) of
                Some t \<Rightarrow> JStr t
              | None \<Rightarrow> opt_json JStr (as_str (jget network ''direct_speed_test_measured_at'')))
         @ direct_fields ''direct_upload'' du (opt_json JStr (dd_measured_at du))
         @ [(''direct_speed_test_skip_reason'', opt_json JStr (as_str (jget network ''direct_speed_test_skip_reason'')))])"

definition public_network_summary :: "json \<Rightarrow> dict option" where
  \<comment> \<open>\<open>None\<close> when every field is \<open>None\<close>\<close>
  "public_network_summary details =
     (case network_of details of
        None \<Rightarrow> None
      | Some network \<Rightarrow>
          let fs = summary_fields network
          in if list_all (\<lambda>(k, v). v = JNull) fs then None else Some fs)"

section \<open>The public view is backed by a measurement\<close>

lemma fill_last_at_simps [simp]:
  "sd_ok (fill_last_at b r) = sd_ok r" "sd_mbps (fill_last_at b r) = sd_mbps r" "sd_error (fill_last_at b r) = sd_error r"
  "sd_showing_last_success (fill_last_at b r) = sd_showing_last_success r" "sd_measured_at (fill_last_at b r) = sd_measured_at r"
  by (simp_all add: fill_last_at_def)

lemma project_series_core:
  "sd_ok (project_speed_series st l e) = sd_ok (series_core st l e)"
  "sd_mbps (project_speed_series st l e) = sd_mbps (series_core st l e)"
  by (simp_all add: project_speed_series_def Let_def)

text \<open>
  The public page says a speed test is ok only with a real measurement behind it, the stored row (as a
  success) or the last success, and the speed it shows is the speed of that measurement; a failed row without
  a known success is shown as a failure with a text.
\<close>

theorem public_speed_backed:
  "(sd_ok (project_speed_series st l e) = Some True \<longrightarrow>
      (meaningful (jset ''ok'' (JBool True) st) \<and> sd_mbps (project_speed_series st l e) = jget st ''mbps'')
      \<or> (meaningful l \<and> sd_mbps (project_speed_series st l e) = jget l ''mbps''))
   \<and> (st \<noteq> [] \<and> jget st ''ok'' = JBool False \<and> \<not> meaningful l \<longrightarrow> sd_ok (project_speed_series st l e) = Some False)"
proof -
  have m: "meaningful st \<Longrightarrow> meaningful (jset ''ok'' (JBool True) st)"
    by (simp add: meaningful_def meaningful_Some_iff)
  have f: "jget st ''ok'' = JBool False \<Longrightarrow> \<not> meaningful st" by (simp add: meaningful_def meaningful_Some_iff)
  show ?thesis unfolding project_series_core using m f by (auto simp: series_core_def Let_def)
qed

lemma public_speed_backed_witness:
  "sd_ok (project_speed_series [(''ok'', JBool False)] sample_row ''e'') = Some True
   \<and> sd_mbps (project_speed_series [(''ok'', JBool False)] sample_row ''e'') = JInt 80"
proof -
  have f: "\<not> meaningful [(''ok'', JBool False)]" "\<not> meaningful (jset ''ok'' (JBool True) [(''ok'', JBool False)])"
    by (simp_all add: meaningful_def meaningful_Some_iff jor_def)
  have m: "meaningful sample_row" by (simp add: meaningful_def meaningful_Some_iff sample_row_def jor_def)
  have ok: "sd_ok (project_speed_series [(''ok'', JBool False)] sample_row ''e'') = Some True"
    using f m by (simp add: project_series_core series_core_def Let_def)
  with public_speed_backed [of "[(''ok'', JBool False)]" sample_row "''e''"] f show ?thesis by (simp add: sample_row_def)
qed

end
