(* ===== verification/Database.thy ===== *)
theory Database
  imports Models
begin

text \<open>
  The database as one record with a list of rows per table, the queries shared by several services,
  and the contract of a table keyed by an identifier. \<open>ORDER BY\<close> is a stable sort (rows that compare
  equal keep the order of the table), \<open>LIMIT\<close> and \<open>OFFSET\<close> are \<open>take\<close> and \<open>drop\<close>.
\<close>

record database =
  db_settings :: "MonitoringSettings option"
  db_projects :: "Project list"
  db_groups :: "ComponentGroup list"
  db_kinds :: "ComponentKind list"
  db_components :: "MonitoredComponent list"
  db_results :: "CheckResult list"
  db_events :: "ConnectionEvent list"
  db_samples :: "TunnelPingSample list"
  db_incidents :: "Incident list"
  db_updates :: "IncidentUpdate list"
  db_roles :: "AccessRole list"
  db_accounts :: "Account list"
  db_tokens :: "RefreshToken list"
  db_integrations :: "DatagateIntegration list"

definition empty_database :: database where
  "empty_database =
     \<lparr>db_settings = None, db_projects = [], db_groups = [], db_kinds = [], db_components = [], db_results = [],
      db_events = [], db_samples = [], db_incidents = [], db_updates = [], db_roles = [], db_accounts = [], db_tokens = [],
      db_integrations = []\<rparr>"

definition sort_desc :: "('a \<Rightarrow> 'b::linorder) \<Rightarrow> 'a list \<Rightarrow> 'a list" where
  \<comment> \<open>\<open>ORDER BY f DESC\<close>\<close>
  "sort_desc f xs = rev (sort_key f (rev xs))"

definition page :: "int \<Rightarrow> int \<Rightarrow> 'a list \<Rightarrow> 'a list" where
  \<comment> \<open>\<open>OFFSET o LIMIT l\<close>\<close>
  "page offset limit xs = take (nat limit) (drop (nat offset) xs)"

lemma set_sort_desc [simp]: "set (sort_desc f xs) = set xs"
  by (simp add: sort_desc_def)

lemma length_sort_desc [simp]: "length (sort_desc f xs) = length xs"
  by (simp add: sort_desc_def)

lemma mset_sort_desc [simp]: "mset (sort_desc f xs) = mset xs"
  by (simp add: sort_desc_def)

lemma distinct_sort_desc [simp]: "distinct (map g (sort_desc f xs)) = distinct (map g xs)"
proof -
  have "mset (map g (sort_desc f xs)) = mset (map g xs)" by simp
  then show ?thesis by (rule mset_eq_imp_distinct_iff)
qed

lemma sort_desc_sorted: "sorted_wrt (\<lambda>x y. f y \<le> f x) (sort_desc f xs)"
  unfolding sort_desc_def sorted_wrt_rev using sorted_sort_key [of f "rev xs"] by (simp add: sorted_wrt_map sorted_map)

lemma sort_desc_empty [simp]: "sort_desc f [] = []"
  by (simp add: sort_desc_def)

lemma sort_desc_Nil [simp]: "sort_desc f xs = [] \<longleftrightarrow> xs = []"
  by (metis length_0_conv length_sort_desc)

lemma hd_sort_desc_max: "x \<in> set xs \<Longrightarrow> f x \<le> f (hd (sort_desc f xs))"
  using sort_desc_sorted [of f xs] by (cases "sort_desc f xs") (auto simp flip: set_sort_desc [of f xs])

lemma hd_sort_desc_mem: "xs \<noteq> [] \<Longrightarrow> hd (sort_desc f xs) \<in> set xs"
  by (metis hd_in_set set_sort_desc sort_desc_Nil)

lemma take_desc_before_drop:
  assumes "x \<in> set (take n (sort_desc f xs))" and "y \<in> set (drop n (sort_desc f xs))"
  shows "f y \<le> f x"
proof -
  have "sorted_wrt (\<lambda>x y. f y \<le> f x) (take n (sort_desc f xs) @ drop n (sort_desc f xs))"
    by (simp only: append_take_drop_id sort_desc_sorted)
  with assms show ?thesis unfolding sorted_wrt_append by blast
qed

section \<open>A table keyed by an identifier\<close>

text \<open>
  What the services rely on in a table: it is read by identifier, a saved row is read back, saving
  touches no other row, and a deleted row is gone.
\<close>

locale keyed_table =
  fixes key :: "'r \<Rightarrow> string"
    and get :: "string \<Rightarrow> 's \<Rightarrow> 'r option"
    and insert :: "'r \<Rightarrow> 's \<Rightarrow> 's"
    and save :: "'r \<Rightarrow> 's \<Rightarrow> 's"
    and remove :: "string \<Rightarrow> 's \<Rightarrow> 's"
  assumes get_key: "get k s = Some r \<Longrightarrow> key r = k"
    and get_insert: "get (key r) s = None \<Longrightarrow> get k (insert r s) = (if k = key r then Some r else get k s)"
    and get_save: "get (key r) s \<noteq> None \<Longrightarrow> get k (save r s) = (if k = key r then Some r else get k s)"
    and get_remove: "get k (remove k' s) = (if k = k' then None else get k s)"
begin

lemma save_save: "get (key r) s \<noteq> None \<Longrightarrow> key r' = key r \<Longrightarrow> get k (save r' (save r s)) = get k (save r' s)"
  by (simp add: get_save)

lemma insert_then_remove: "get (key r) s = None \<Longrightarrow> get k (remove (key r) (insert r s)) = get k s"
  by (auto simp: get_remove get_insert)

lemma remove_keeps: "get k s = Some r \<Longrightarrow> k \<noteq> k' \<Longrightarrow> get k (remove k' s) = Some r"
  by (simp add: get_remove)

end

definition get_component :: "uuid \<Rightarrow> database \<Rightarrow> MonitoredComponent option" where
  "get_component cid db = lookup_row mc_id cid (db_components db)"

definition get_project :: "uuid \<Rightarrow> database \<Rightarrow> Project option" where
  "get_project pid db = lookup_row pr_id pid (db_projects db)"

definition get_incident :: "uuid \<Rightarrow> database \<Rightarrow> Incident option" where
  "get_incident iid db = lookup_row in_id iid (db_incidents db)"

definition save_component :: "MonitoredComponent \<Rightarrow> database \<Rightarrow> database" where
  "save_component c db = db\<lparr>db_components := replace_row mc_id c (db_components db)\<rparr>"

definition save_project :: "Project \<Rightarrow> database \<Rightarrow> database" where
  "save_project p db = db\<lparr>db_projects := replace_row pr_id p (db_projects db)\<rparr>"

definition save_incident :: "Incident \<Rightarrow> database \<Rightarrow> database" where
  "save_incident i db = db\<lparr>db_incidents := replace_row in_id i (db_incidents db)\<rparr>"

definition insert_component :: "MonitoredComponent \<Rightarrow> database \<Rightarrow> database" where
  "insert_component c db = db\<lparr>db_components := db_components db @ [c]\<rparr>"

definition insert_incident :: "Incident \<Rightarrow> database \<Rightarrow> database" where
  "insert_incident i db = db\<lparr>db_incidents := db_incidents db @ [i]\<rparr>"

lemma lookup_row_key: "lookup_row f k xs = Some r \<Longrightarrow> f r = k"
  by (auto dest: lookup_row_Some)

lemma lookup_row_in_keys: "lookup_row f k xs \<noteq> None \<longleftrightarrow> k \<in> f ` set xs"
  by (simp add: lookup_row_None)


lemma lookup_saved_row:
  "lookup_row f k (replace_row f r xs) = (if k = f r \<and> lookup_row f (f r) xs \<noteq> None then Some r else lookup_row f k xs)"
  using lookup_row_in_keys [of f "f r" xs] by (auto simp: lookup_replace_row)

text \<open>Deletions with the foreign keys' \<open>ON DELETE\<close> actions.\<close>

definition delete_incident_row :: "uuid \<Rightarrow> database \<Rightarrow> database" where
  "delete_incident_row iid db =
     db\<lparr>db_incidents := delete_row in_id iid (db_incidents db),
        db_updates := filter (\<lambda>u. iu_incident_id u \<noteq> iid) (db_updates db)\<rparr>"

definition delete_component_row :: "uuid \<Rightarrow> database \<Rightarrow> database" where
  "delete_component_row cid db =
     db\<lparr>db_components := delete_row mc_id cid (db_components db),
        db_results := filter (\<lambda>r. cr_monitored_component_id r \<noteq> cid) (db_results db),
        db_events := filter (\<lambda>e. ce_monitored_component_id e \<noteq> cid) (db_events db),
        db_samples := filter (\<lambda>s. tp_monitored_component_id s \<noteq> cid) (db_samples db),
        db_incidents := map (\<lambda>i. if in_monitored_component_id i = Some cid
                                 then i\<lparr>in_monitored_component_id := None\<rparr> else i) (db_incidents db)\<rparr>"

definition insert_project :: "Project \<Rightarrow> database \<Rightarrow> database" where
  "insert_project p db = db\<lparr>db_projects := db_projects db @ [p]\<rparr>"

definition delete_project_row :: "uuid \<Rightarrow> database \<Rightarrow> database" where
  "delete_project_row pid db =
     (let gone = map mc_id (filter (\<lambda>c. mc_project_id c = pid) (db_components db));
          inc = map in_id (filter (\<lambda>i. in_project_id i = pid) (db_incidents db));
          groups = map cg_id (filter (\<lambda>g. cg_project_id g = pid) (db_groups db))
      in db\<lparr>db_projects := delete_row pr_id pid (db_projects db),
            db_groups := filter (\<lambda>g. cg_project_id g \<noteq> pid) (db_groups db),
            db_components := map (\<lambda>c. if mc_group_id c \<in> Some ` set groups then c\<lparr>mc_group_id := None\<rparr> else c)
                               (filter (\<lambda>c. mc_project_id c \<noteq> pid) (db_components db)),
            db_results := filter (\<lambda>r. cr_monitored_component_id r \<notin> set gone) (db_results db),
            db_events := filter (\<lambda>e. ce_monitored_component_id e \<notin> set gone) (db_events db),
            db_samples := filter (\<lambda>s. tp_monitored_component_id s \<notin> set gone) (db_samples db),
            db_incidents := map (\<lambda>i. if in_monitored_component_id i \<in> Some ` set gone
                                     then i\<lparr>in_monitored_component_id := None\<rparr> else i)
                              (filter (\<lambda>i. in_project_id i \<noteq> pid) (db_incidents db)),
            db_updates := filter (\<lambda>u. iu_incident_id u \<notin> set inc) (db_updates db),
            db_integrations := filter (\<lambda>d. dg_project_id d \<noteq> pid) (db_integrations db)\<rparr>)"

definition get_group :: "uuid \<Rightarrow> database \<Rightarrow> ComponentGroup option" where
  "get_group gid db = lookup_row cg_id gid (db_groups db)"

definition insert_group :: "ComponentGroup \<Rightarrow> database \<Rightarrow> database" where
  "insert_group g db = db\<lparr>db_groups := db_groups db @ [g]\<rparr>"

definition save_group :: "ComponentGroup \<Rightarrow> database \<Rightarrow> database" where
  "save_group g db = db\<lparr>db_groups := replace_row cg_id g (db_groups db)\<rparr>"

definition delete_group_row :: "uuid \<Rightarrow> database \<Rightarrow> database" where
  "delete_group_row gid db =
     db\<lparr>db_groups := delete_row cg_id gid (db_groups db),
        db_components := map (\<lambda>c. if mc_group_id c = Some gid then c\<lparr>mc_group_id := None\<rparr> else c) (db_components db)\<rparr>"

definition get_kind :: "uuid \<Rightarrow> database \<Rightarrow> ComponentKind option" where
  "get_kind kid db = lookup_row ck_id kid (db_kinds db)"

definition insert_kind :: "ComponentKind \<Rightarrow> database \<Rightarrow> database" where
  "insert_kind k db = db\<lparr>db_kinds := db_kinds db @ [k]\<rparr>"

definition save_kind :: "ComponentKind \<Rightarrow> database \<Rightarrow> database" where
  "save_kind k db = db\<lparr>db_kinds := replace_row ck_id k (db_kinds db)\<rparr>"

definition delete_kind_row :: "uuid \<Rightarrow> database \<Rightarrow> database" where
  "delete_kind_row kid db = db\<lparr>db_kinds := delete_row ck_id kid (db_kinds db)\<rparr>"

interpretation component_table: keyed_table mc_id get_component insert_component save_component delete_component_row
  by unfold_locales
    (auto simp: get_component_def insert_component_def save_component_def delete_component_row_def
      lookup_append_row lookup_saved_row lookup_delete_row dest: lookup_row_key split: option.split)

interpretation project_table: keyed_table pr_id get_project insert_project save_project delete_project_row
  by unfold_locales
    (auto simp: get_project_def insert_project_def save_project_def delete_project_row_def Let_def
      lookup_append_row lookup_saved_row lookup_delete_row dest: lookup_row_key split: option.split)

interpretation incident_table: keyed_table in_id get_incident insert_incident save_incident delete_incident_row
  by unfold_locales
    (auto simp: get_incident_def insert_incident_def save_incident_def delete_incident_row_def
      lookup_append_row lookup_saved_row lookup_delete_row dest: lookup_row_key split: option.split)

interpretation group_table: keyed_table cg_id get_group insert_group save_group delete_group_row
  by unfold_locales
    (auto simp: get_group_def insert_group_def save_group_def delete_group_row_def
      lookup_append_row lookup_saved_row lookup_delete_row dest: lookup_row_key split: option.split)

interpretation kind_table: keyed_table ck_id get_kind insert_kind save_kind delete_kind_row
  by unfold_locales
    (auto simp: get_kind_def insert_kind_def save_kind_def delete_kind_row_def
      lookup_append_row lookup_saved_row lookup_delete_row dest: lookup_row_key split: option.split)

end
