(* ===== verification/Monitoring.thy ===== *)
theory Monitoring
  imports Database HostWan
begin

text \<open>
  \<open>src/app/services/monitoring_service.py\<close>: latest check per component, paginated results and events,
  purging, which components are due, one check with its speed-test context, and a scheduler cycle.
  \<open>run_health_check\<close> (probes over HTTP, OpenVPN or Xray) is the argument \<open>health_check\<close>; it sees the
  component, the context and the host WAN state of the process, which it may change. The readings of the
  clock in a cycle are arguments.
\<close>

section \<open>Repositories\<close>

definition latest_check :: "uuid \<Rightarrow> instant option \<Rightarrow> database \<Rightarrow> CheckResult option" where
  \<comment> \<open>the lateral subquery: \<open>ORDER BY checked_at DESC LIMIT 1\<close>\<close>
  "latest_check cid before db =
     (case sort_desc (\<lambda>r. utc_of (cr_checked_at r))
             (filter (\<lambda>r. cr_monitored_component_id r = cid
                          \<and> (case before of None \<Rightarrow> True | Some b \<Rightarrow> utc_of (cr_checked_at r) < b)) (db_results db)) of
        [] \<Rightarrow> None | r # _ \<Rightarrow> Some r)"

definition fetch_latest_check_results :: "database \<Rightarrow> uuid list \<Rightarrow> instant option \<Rightarrow> CheckResult list" where
  "fetch_latest_check_results db component_ids before =
     (if component_ids = [] then []
      else let latest_ids = map cr_id (List.map_filter (\<lambda>cid. latest_check cid before db) component_ids)
           in if latest_ids = [] then [] else filter (\<lambda>r. cr_id r \<in> set latest_ids) (db_results db))"

definition get_monitoring_settings :: "settings \<Rightarrow> database \<Rightarrow> MonitoringSettings \<times> database" where
  \<comment> \<open>a missing row is added with the column defaults\<close>
  "get_monitoring_settings cfg db =
     (case db_settings db of
        Some row \<Rightarrow> (row, db)
      | None \<Rightarrow>
          let row = \<lparr>ms_default_poll_interval_seconds = 60, ms_scheduler_interval_seconds = 30,
                     ms_default_speed_test_url_template = default_speed_test_url_template cfg,
                     ms_default_speed_test_interval_seconds = DEFAULT_SPEED_TEST_INTERVAL_SECONDS\<rparr>
          in (row, db\<lparr>db_settings := Some row\<rparr>))"

definition add_result :: "CheckResult \<Rightarrow> database \<Rightarrow> database" where
  "add_result r db = db\<lparr>db_results := db_results db @ [r]\<rparr>"

definition results_of :: "uuid \<Rightarrow> database \<Rightarrow> CheckResult list" where
  "results_of cid db = filter (\<lambda>r. cr_monitored_component_id r = cid) (db_results db)"

definition list_results_paginated :: "database \<Rightarrow> uuid \<Rightarrow> int \<Rightarrow> int \<Rightarrow> CheckResult list \<times> int" where
  "list_results_paginated db cid offset limit =
     (page offset limit (sort_desc (\<lambda>r. utc_of (cr_checked_at r)) (results_of cid db)), int (length (results_of cid db)))"

definition latest_by_component_ids :: "database \<Rightarrow> uuid list \<Rightarrow> uuid \<Rightarrow> CheckResult option" where
  \<comment> \<open>a later row of the list overwrites an earlier one in the dict\<close>
  "latest_by_component_ids db component_ids cid =
     map_of (rev (map (\<lambda>r. (cr_monitored_component_id r, r)) (fetch_latest_check_results db component_ids None))) cid"

definition network_row_ok :: "string \<Rightarrow> json \<Rightarrow> bool" where
  \<comment> \<open>\<open>details @> {\"network\": {k: {\"ok\": true}}}\<close>\<close>
  "network_row_ok k details =
     (case network_of details of None \<Rightarrow> False
      | Some network \<Rightarrow> (case as_dict (jget network k) of None \<Rightarrow> False | Some d \<Rightarrow> jget d ''ok'' = JBool True))"

definition latest_with_meaningful_speed_test :: "database \<Rightarrow> uuid \<Rightarrow> int \<Rightarrow> CheckResult option" where
  "latest_with_meaningful_speed_test db cid limit =
     find (\<lambda>r. extract_last_successful_speed_test (details_of r) (Some (cr_checked_at r)) \<noteq> None)
       (take (nat limit) (sort_desc (\<lambda>r. utc_of (cr_checked_at r))
          (filter (\<lambda>r. cr_details r \<noteq> JNull
                       \<and> (network_row_ok ''speed_test_last_success'' (cr_details r) \<or> network_row_ok ''speed_test'' (cr_details r)))
             (results_of cid db))))"

definition count_for_component :: "database \<Rightarrow> uuid \<Rightarrow> int" where
  "count_for_component db cid = int (length (results_of cid db))"

definition purge_results :: "uuid \<Rightarrow> int \<Rightarrow> database \<Rightarrow> (int \<times> int) res \<times> database" where
  "purge_results cid keep db =
     (if keep < 0 then (Inl (ValueError ''keep must be non-negative''), db)
      else let tot = count_for_component db cid
           in if tot = 0 \<or> tot \<le> keep then (Inr (0, tot), db)
              else let keep_ids = map cr_id (take (nat keep) (sort_desc (\<lambda>r. utc_of (cr_checked_at r)) (results_of cid db)));
                       doomed = (\<lambda>r. cr_monitored_component_id r = cid \<and> cr_id r \<notin> set keep_ids);
                       deleted = int (length (filter doomed (db_results db)))
                   in (Inr (deleted, tot - deleted), db\<lparr>db_results := filter (\<lambda>r. \<not> doomed r) (db_results db)\<rparr>))"

definition list_events_paginated :: "database \<Rightarrow> uuid \<Rightarrow> int \<Rightarrow> int \<Rightarrow> ConnectionEvent list \<times> int" where
  "list_events_paginated db cid offset limit =
     (let rows = filter (\<lambda>e. ce_monitored_component_id e = cid) (db_events db)
      in (page offset limit (sort_desc (\<lambda>e. (ce_occurred_at e, ce_id e)) rows), int (length rows)))"

definition purge_events :: "uuid \<Rightarrow> database \<Rightarrow> int \<times> database" where
  "purge_events cid db =
     (int (length (filter (\<lambda>e. ce_monitored_component_id e = cid) (db_events db))),
      db\<lparr>db_events := filter (\<lambda>e. ce_monitored_component_id e \<noteq> cid) (db_events db)\<rparr>)"

section \<open>Health-check runner\<close>

definition effective_poll_interval :: "MonitoredComponent \<Rightarrow> MonitoringSettings \<Rightarrow> int" where
  "effective_poll_interval c ms =
     (case mc_poll_interval_seconds c of
        Some p \<Rightarrow> if p \<noteq> 0 then p else ms_default_poll_interval_seconds ms
      | None \<Rightarrow> ms_default_poll_interval_seconds ms)"

definition is_due :: "MonitoredComponent \<Rightarrow> MonitoringSettings \<Rightarrow> instant \<Rightarrow> bool" where
  "is_due c ms now =
     (if \<not> mc_is_active c then False
      else if mc_check_type c \<in> set PERSISTENT_VPN_CHECK_TYPES \<and> mc_connection_mode c = ConnectionMode_value PERSISTENT
      then False
      else case mc_last_checked_at c of
             None \<Rightarrow> True
           | Some last_checked \<Rightarrow> effective_poll_interval c ms * usec_per_second \<le> now - utc_of last_checked)"

definition list_due_components :: "settings \<Rightarrow> instant \<Rightarrow> database \<Rightarrow> MonitoredComponent list \<times> database" where
  "list_due_components cfg now db =
     (let (ms, db) = get_monitoring_settings cfg db;
          active = set (map pr_id (filter pr_is_active (db_projects db)))
      in (filter (\<lambda>c. mc_is_active c \<and> mc_project_id c \<in> active \<and> is_due c ms now) (db_components db), db))"

definition check_context ::
  "settings \<Rightarrow> MonitoringSettings \<Rightarrow> MonitoredComponent \<Rightarrow> uuid list option \<Rightarrow> instant \<Rightarrow> database
     \<Rightarrow> SpeedTestRunContext option" where
  "check_context cfg ms c allowed now db =
     (if mc_check_type c \<notin> set VPN_CHECK_TYPES then None
      else let latest = latest_by_component_ids db [mc_id c] (mc_id c);
               latest_details = (case latest of None \<Rightarrow> JNull | Some r \<Rightarrow> details_of r);
               checked_at = map_option cr_checked_at latest;
               history = (if extract_last_successful_speed_test latest_details checked_at = None
                          then latest_with_meaningful_speed_test db (mc_id c) 50 else None);
               history_details = (case history of None \<Rightarrow> JNull | Some r \<Rightarrow> details_of r);
               history_at = map_option cr_checked_at history;
               (previous, success, stats) = resolve_speed_test_memory latest_details checked_at history_details history_at;
               (previous_up, success_up, stats_up) =
                 resolve_speed_test_upload_memory latest_details checked_at history_details history_at;
               due = should_run_speed_test c ms latest now
           in Some \<lparr>rc_url_template = effective_speed_test_url_template cfg c ms,
                    rc_run_speed_test = (case allowed of None \<Rightarrow> due | Some ids \<Rightarrow> due \<and> mc_id c \<in> set ids),
                    rc_previous_speed_test = previous, rc_last_successful_speed_test = success,
                    rc_previous_speed_test_stats = stats,
                    rc_last_live_speed_test = extract_last_live_speed_test_from_details latest_details checked_at,
                    rc_previous_speed_test_upload = previous_up, rc_last_successful_speed_test_upload = success_up,
                    rc_previous_speed_test_upload_stats = stats_up,
                    rc_last_live_speed_test_upload =
                      extract_last_live_speed_test_upload_from_details latest_details checked_at\<rparr>)"

type_synonym health_check =
  "MonitoredComponent \<Rightarrow> SpeedTestRunContext option \<Rightarrow> host_wan \<Rightarrow> CheckResult res \<times> host_wan"

definition run_check ::
  "settings \<Rightarrow> health_check \<Rightarrow> MonitoredComponent \<Rightarrow> uuid list option \<Rightarrow> instant \<Rightarrow> database \<times> host_wan
     \<Rightarrow> CheckResult res \<times> database \<times> host_wan" where
  "run_check cfg health_check c allowed now st =
     (let (db, hw) = st;
          (ms, db) = get_monitoring_settings cfg db;
          (outcome, hw) = health_check c (check_context cfg ms c allowed now db) hw
      in case outcome of
           Inl e \<Rightarrow> (Inl e, db, hw)
         | Inr result \<Rightarrow>
             let db = save_component (c\<lparr>mc_last_checked_at := Some (cr_checked_at result)\<rparr>) db
             in (Inr result, add_result result db, hw))"

fun run_checks ::
  "settings \<Rightarrow> health_check \<Rightarrow> MonitoredComponent list \<Rightarrow> uuid list \<Rightarrow> (uuid \<Rightarrow> instant) \<Rightarrow> database \<times> host_wan
     \<Rightarrow> CheckResult list res \<times> database \<times> host_wan" where
  "run_checks cfg health_check [] allowed clock st = (Inr [], st)"
| "run_checks cfg health_check (c # cs) allowed clock st =
     (case run_check cfg health_check c (Some allowed) (clock (mc_id c)) st of
        (Inl e, st) \<Rightarrow> (Inl e, st)
      | (Inr r, st) \<Rightarrow>
          (case run_checks cfg health_check cs allowed clock st of
             (Inl e, st) \<Rightarrow> (Inl e, st) | (Inr rs, st) \<Rightarrow> (Inr (r # rs), st)))"

definition due_order :: "MonitoredComponent list \<Rightarrow> MonitoredComponent list" where
  "due_order = sort_key (\<lambda>c. (mc_check_type c \<notin> set VPN_CHECK_TYPES, mc_id c))"

definition cycle_allowed ::
  "(string \<Rightarrow> string) \<Rightarrow> MonitoredComponent list \<Rightarrow> MonitoringSettings \<Rightarrow> instant \<Rightarrow> database \<Rightarrow> uuid list" where
  "cycle_allowed sha256_hex due ms now db =
     (let vpn_due = filter (\<lambda>c. mc_check_type c \<in> set VPN_CHECK_TYPES) due
      in pick_staggered_speed_test_component_ids sha256_hex vpn_due ms
           (latest_by_component_ids db (map mc_id vpn_due)) now 1)"

definition run_due_checks ::
  "settings \<Rightarrow> (string \<Rightarrow> string) \<Rightarrow> health_check \<Rightarrow> (MonitoringSettings \<Rightarrow> host_wan \<Rightarrow> HostWanBaseline option res \<times> host_wan)
     \<Rightarrow> instant \<Rightarrow> instant \<Rightarrow> (uuid \<Rightarrow> instant) \<Rightarrow> database \<times> host_wan \<Rightarrow> CheckResult list res \<times> database \<times> host_wan" where
  \<comment> \<open>\<open>host_wan_cycle\<close> is \<open>run_host_wan_speed_if_due\<close> with its clock and measurements; when a check raises nothing is
    committed\<close>
  "run_due_checks cfg sha256_hex health_check host_wan_cycle now_due now_pick clock st =
     (let (db, hw) = st;
          (due, db) = list_due_components cfg now_due db;
          due = due_order due;
          (ms, db) = get_monitoring_settings cfg db
      in case host_wan_cycle ms hw of
           (Inl e, hw) \<Rightarrow> (Inl e, fst st, hw)
         | (Inr _, hw) \<Rightarrow>
             (case run_checks cfg health_check due (cycle_allowed sha256_hex due ms now_pick db) clock (db, hw) of
                (Inl e, _, hw) \<Rightarrow> (Inl e, fst st, hw)
              | (Inr results, st) \<Rightarrow> (Inr results, st)))"

section \<open>Latest checks\<close>

definition results_wf :: "database \<Rightarrow> bool" where
  "results_wf db \<longleftrightarrow> distinct (map cr_id (db_results db))"

lemma latest_check_Some:
  assumes "latest_check cid None db = Some r"
  shows "r \<in> set (results_of cid db)"
    and "x \<in> set (results_of cid db) \<Longrightarrow> utc_of (cr_checked_at x) \<le> utc_of (cr_checked_at r)"
proof -
  let ?s = "sort_desc (\<lambda>r. utc_of (cr_checked_at r)) (results_of cid db)"
  have s: "?s \<noteq> [] \<and> r = hd ?s"
    using assms unfolding latest_check_def results_of_def by (cases "?s") (auto simp: results_of_def)
  then have "r \<in> set ?s" by (metis hd_in_set)
  then show "r \<in> set (results_of cid db)" by simp
  show "x \<in> set (results_of cid db) \<Longrightarrow> utc_of (cr_checked_at x) \<le> utc_of (cr_checked_at r)"
    using s hd_sort_desc_max [of x "results_of cid db" "\<lambda>r. utc_of (cr_checked_at r)"] by simp
qed

lemma latest_check_None: "latest_check cid None db = None \<longleftrightarrow> results_of cid db = []"
  by (auto simp: latest_check_def results_of_def split: list.splits)

lemma results_of_component: "r \<in> set (results_of cid db) \<longleftrightarrow> r \<in> set (db_results db) \<and> cr_monitored_component_id r = cid"
  by (auto simp: results_of_def)

lemma latest_check_mem: "latest_check cid before db = Some r \<Longrightarrow> r \<in> set (results_of cid db)"
proof -
  assume l: "latest_check cid before db = Some r"
  let ?R = "filter (\<lambda>r. cr_monitored_component_id r = cid \<and> (case before of None \<Rightarrow> True | Some b \<Rightarrow> utc_of (cr_checked_at r) < b)) (db_results db)"
  obtain xs where "sort_desc (\<lambda>r. utc_of (cr_checked_at r)) ?R = r # xs"
    using l unfolding latest_check_def by (auto split: list.splits)
  then have "r \<in> set (sort_desc (\<lambda>r. utc_of (cr_checked_at r)) ?R)" by (metis list.set_intros(1))
  then show ?thesis by (simp add: results_of_def)
qed

lemma latest_check_component: "latest_check cid before db = Some r \<Longrightarrow> cr_monitored_component_id r = cid"
  using latest_check_mem results_of_component by blast

lemma fetch_latest_set:
  assumes "results_wf db"
  shows "set (fetch_latest_check_results db ids before) = {r. \<exists>cid \<in> set ids. latest_check cid before db = Some r}"
proof -
  have ids: "set (map cr_id (List.map_filter (\<lambda>cid. latest_check cid before db) ids)) =
      {i. \<exists>cid \<in> set ids. \<exists>r. latest_check cid before db = Some r \<and> cr_id r = i}"
    by (auto simp: List.map_filter_def image_iff) force+
  have inj: "inj_on cr_id (set (db_results db))" using assms by (simp add: results_wf_def distinct_map)
  have mem: "latest_check cid before db = Some r \<Longrightarrow> r \<in> set (db_results db)" for cid r
    using latest_check_mem results_of_component by blast
  have "set (fetch_latest_check_results db ids before) =
      {x \<in> set (db_results db). \<exists>cid \<in> set ids. \<exists>r. latest_check cid before db = Some r \<and> cr_id r = cr_id x}"
    unfolding fetch_latest_check_results_def Let_def using ids by auto
  also have "\<dots> = {r. \<exists>cid \<in> set ids. latest_check cid before db = Some r}"
    using mem inj_onD [OF inj] by auto metis
  finally show ?thesis .
qed

text \<open>
  The batch query returns, for every requested component with at least one check, its newest check,
  and nothing for the others.
\<close>

theorem latest_by_component_ids_newest:
  assumes "results_wf db"
  shows "case latest_by_component_ids db ids cid of
      None \<Rightarrow> cid \<notin> set ids \<or> results_of cid db = []
    | Some r \<Rightarrow> cid \<in> set ids \<and> r \<in> set (results_of cid db)
        \<and> (\<forall>x \<in> set (results_of cid db). utc_of (cr_checked_at x) \<le> utc_of (cr_checked_at r))"
proof -
  let ?m = "rev (map (\<lambda>r. (cr_monitored_component_id r, r)) (fetch_latest_check_results db ids None))"
  have m: "(c, r) \<in> set ?m \<longleftrightarrow> cr_monitored_component_id r = c \<and> c \<in> set ids \<and> latest_check c None db = Some r" for c r
    using fetch_latest_set [OF assms, of ids] by (auto simp: image_iff dest: latest_check_component)
  show ?thesis
  proof (cases "map_of ?m cid")
    case None
    then have "cid \<notin> fst ` set ?m" by (simp add: map_of_eq_None_iff)
    then have no: "(cid, r) \<notin> set ?m" for r by force
    have "cid \<notin> set ids \<or> latest_check cid None db = None"
    proof (cases "latest_check cid None db")
      case (Some r)
      with no [of r] m [of cid r] latest_check_component [OF Some] show ?thesis by blast
    qed simp
    with None show ?thesis by (simp add: latest_by_component_ids_def latest_check_None)
  next
    case (Some r)
    then have "(cid, r) \<in> set ?m" by (rule map_of_SomeD)
    with m have l: "latest_check cid None db = Some r" "cid \<in> set ids" by blast+
    with Some latest_check_Some(1) [OF l(1)] latest_check_Some(2) [OF l(1)] show ?thesis
      by (simp add: latest_by_component_ids_def)
  qed
qed

lemma latest_by_component_ids_newest_witness:
  "latest_by_component_ids (empty_database\<lparr>db_results := [sample_result]\<rparr>) [''c1''] ''c1'' = Some sample_result"
proof -
  have w: "results_wf (empty_database\<lparr>db_results := [sample_result]\<rparr>)" by (simp add: results_wf_def)
  have "results_of ''c1'' (empty_database\<lparr>db_results := [sample_result]\<rparr>) = [sample_result]"
    by (simp add: results_of_def sample_result_def)
  with latest_by_component_ids_newest [OF w, where ids = "[''c1'']" and cid = "''c1''"] show ?thesis by (auto split: option.splits)
qed

section \<open>Purging\<close>

lemma keep_first_rows:
  fixes key :: "'r \<Rightarrow> 'k" and f :: "'r \<Rightarrow> 'o::linorder" and R :: "'r list" and n :: nat
  assumes "distinct (map key R)"
  defines "K \<equiv> take n (sort_desc f R)"
  shows "set (filter (\<lambda>r. key r \<in> set (map key K)) R) = set K"
    and "length (filter (\<lambda>r. key r \<in> set (map key K)) R) = min n (length R)"
    and "k \<in> set K \<Longrightarrow> r \<in> set R - set K \<Longrightarrow> f r \<le> f k"
proof -
  have KR: "set K \<subseteq> set R" using set_take_subset [of n "sort_desc f R"] by (simp add: K_def)
  have inj: "inj_on key (set R)" using assms(1) by (simp add: distinct_map)
  have "key r \<in> key ` set K \<longleftrightarrow> r \<in> set K" if "r \<in> set R" for r
    using inj_on_image_mem_iff [OF inj that KR] .
  then show set: "set (filter (\<lambda>r. key r \<in> set (map key K)) R) = set K" using KR by auto
  have "distinct R" using assms(1) by (simp add: distinct_map)
  then have "distinct (sort_desc f R)" using distinct_sort_desc [of "\<lambda>x. x" f R] by simp
  then have "distinct K" by (simp add: K_def)
  moreover have "distinct (filter (\<lambda>r. key r \<in> set (map key K)) R)" using \<open>distinct R\<close> by simp
  ultimately have "length (filter (\<lambda>r. key r \<in> set (map key K)) R) = length K" using set by (metis distinct_card)
  then show "length (filter (\<lambda>r. key r \<in> set (map key K)) R) = min n (length R)" by (simp add: K_def)
  assume kr: "k \<in> set K" "r \<in> set R - set K"
  have "r \<in> set (drop n (sort_desc f R))"
    using kr(2) unfolding K_def by (metis Diff_iff UnE append_take_drop_id set_append set_sort_desc)
  with kr(1) show "f r \<le> f k" unfolding K_def by (rule take_desc_before_drop)
qed

lemma results_of_filter:
  "results_of c (db\<lparr>db_results := filter P (db_results db)\<rparr>) = filter P (results_of c db)"
  unfolding results_of_def by (simp add: conj_commute)

lemma results_of_distinct: "results_wf db \<Longrightarrow> distinct (map cr_id (results_of cid db))"
  unfolding results_of_def results_wf_def by (rule Prelude.distinct_map_filter)

text \<open>
  A purge leaves every other component's results alone, keeps the newest \<open>keep\<close> results of the component,
  reports how many it deleted and how many remain, and the two add up to what there was.
\<close>

theorem purge_keeps_newest:
  assumes "results_wf db" and "0 \<le> keep"
    and "purge_results cid keep db = (Inr (deleted, remaining), db')"
  shows "remaining = int (length (results_of cid db')) \<and> remaining = min keep (int (length (results_of cid db)))
    \<and> deleted + remaining = int (length (results_of cid db))
    \<and> (\<forall>k \<in> set (results_of cid db'). \<forall>r \<in> set (results_of cid db) - set (results_of cid db').
          utc_of (cr_checked_at r) \<le> utc_of (cr_checked_at k))
    \<and> (\<forall>c. c \<noteq> cid \<longrightarrow> results_of c db' = results_of c db)"
proof (cases "count_for_component db cid = 0 \<or> count_for_component db cid \<le> keep")
  case True
  with assms show ?thesis by (auto simp: purge_results_def Let_def count_for_component_def)
next
  case False
  let ?R = "results_of cid db" and ?f = "\<lambda>r. utc_of (cr_checked_at r)"
  let ?ids = "set (map cr_id (take (nat keep) (sort_desc ?f ?R)))"
  let ?doomed = "\<lambda>r. cr_monitored_component_id r = cid \<and> cr_id r \<notin> ?ids"
  note first = keep_first_rows [OF results_of_distinct [OF assms(1), of cid], where n = "nat keep" and f = ?f]
  from False assms(2,3) have db': "db' = db\<lparr>db_results := filter (\<lambda>r. \<not> ?doomed r) (db_results db)\<rparr>"
    and del: "deleted = int (length (filter ?doomed (db_results db)))" and rem: "remaining = int (length ?R) - deleted"
    by (auto simp: purge_results_def Let_def count_for_component_def)
  have res': "results_of cid db' = filter (\<lambda>r. cr_id r \<in> ?ids) ?R"
    unfolding db' results_of_filter by (rule filter_cong) (auto simp: results_of_def)
  have "filter ?doomed (db_results db) = filter (\<lambda>r. \<not> cr_id r \<in> ?ids) ?R"
    unfolding results_of_def filter_filter by (rule filter_cong) auto
  then have sum: "length (filter ?doomed (db_results db)) + length (results_of cid db') = length ?R"
    unfolding res' using sum_length_filter_compl [of "\<lambda>r. cr_id r \<in> ?ids" ?R] by simp
  have len: "length (results_of cid db') = min (nat keep) (length ?R)" unfolding res' by (rule first(2))
  have set': "set (results_of cid db') = set (take (nat keep) (sort_desc ?f ?R))" unfolding res' by (rule first(1))
  have oth: "results_of c db' = results_of c db" if "c \<noteq> cid" for c
    unfolding db' results_of_filter using that by (auto simp: results_of_component filter_id_conv)
  show ?thesis using first(3) oth sum len assms(2) del rem unfolding set' by auto
qed

lemma purge_keeps_newest_witness:
  "\<exists>db'. purge_results ''c1'' 1 (empty_database\<lparr>db_results :=
      [sample_result, sample_result\<lparr>cr_id := ''r2'', cr_checked_at := Aware 1800000000000000\<rparr>]\<rparr>) = (Inr (1, 1), db')
     \<and> length (results_of ''c1'' db') = 1"
proof -
  let ?db = "empty_database\<lparr>db_results := [sample_result, sample_result\<lparr>cr_id := ''r2'', cr_checked_at := Aware 1800000000000000\<rparr>]\<rparr>"
  have w: "results_wf ?db" by (simp add: results_wf_def sample_result_def)
  have n: "length (results_of ''c1'' ?db) = 2" by (simp add: results_of_def sample_result_def)
  obtain d r db' where p: "purge_results ''c1'' 1 ?db = (Inr (d, r), db')"
    using n by (auto simp: purge_results_def Let_def count_for_component_def)
  from purge_keeps_newest [OF w _ p] n have "r = 1 \<and> d = 1 \<and> length (results_of ''c1'' db') = 1" by auto
  with p show ?thesis by blast
qed

section \<open>A scheduler cycle\<close>

definition reports_own_component :: "health_check \<Rightarrow> bool" where
  "reports_own_component hc \<longleftrightarrow> (\<forall>c ctx hw r. fst (hc c ctx hw) = Inr r \<longrightarrow> cr_monitored_component_id r = mc_id c)"

lemma get_monitoring_settings_keeps:
  "get_monitoring_settings cfg db = (ms, db') \<Longrightarrow> db_components db' = db_components db \<and> db_results db' = db_results db
     \<and> db_settings db' = Some ms \<and> db_projects db' = db_projects db"
  by (auto simp: get_monitoring_settings_def Let_def split: option.splits)

lemma get_component_simps [simp]:
  "get_component k (add_result r db) = get_component k db"
  "get_component k (db\<lparr>db_settings := m\<rparr>) = get_component k db"
  by (simp_all add: get_component_def add_result_def)

lemma db_results_simps [simp]:
  "db_results (add_result r db) = db_results db @ [r]" "db_results (save_component c db) = db_results db"
  by (simp_all add: add_result_def save_component_def)

lemma get_component_settings: "get_monitoring_settings cfg db = (ms, db') \<Longrightarrow> get_component k db' = get_component k db"
  using get_monitoring_settings_keeps by (simp add: get_component_def)

lemma run_check_effect:
  assumes "run_check cfg hc c allowed now (db, hw) = (Inr r, db', hw')" and "reports_own_component hc"
    and "get_component (mc_id c) db \<noteq> None"
  shows "cr_monitored_component_id r = mc_id c \<and> db_results db' = db_results db @ [r]
    \<and> (\<forall>k. get_component k db' = (if k = mc_id c then Some (c\<lparr>mc_last_checked_at := Some (cr_checked_at r)\<rparr>)
                                  else get_component k db))"
proof -
  obtain ms db0 where g: "get_monitoring_settings cfg db = (ms, db0)" by fastforce
  note keeps = get_monitoring_settings_keeps [OF g]
  have h: "fst (hc c (check_context cfg ms c allowed now db0) hw) = Inr r"
    and r: "db' = add_result r (save_component (c\<lparr>mc_last_checked_at := Some (cr_checked_at r)\<rparr>) db0)"
    using assms(1) by (auto simp: run_check_def g Let_def split: prod.splits sum.splits)
  have "get_component (mc_id c) db0 \<noteq> None" using assms(3) get_component_settings [OF g] by simp
  then have "get_component k (save_component (c\<lparr>mc_last_checked_at := Some (cr_checked_at r)\<rparr>) db0) =
      (if k = mc_id c then Some (c\<lparr>mc_last_checked_at := Some (cr_checked_at r)\<rparr>) else get_component k db0)" for k
    using component_table.get_save [of "c\<lparr>mc_last_checked_at := Some (cr_checked_at r)\<rparr>" db0 k] by simp
  moreover have "cr_monitored_component_id r = mc_id c" using assms(2) h unfolding reports_own_component_def by blast
  ultimately show ?thesis using r keeps get_component_settings [OF g] by simp
qed

lemma run_checks_effect:
  assumes "run_checks cfg hc cs allowed clock (db, hw) = (Inr rs, db', hw')" and "reports_own_component hc"
    and "\<forall>c \<in> set cs. get_component (mc_id c) db \<noteq> None" and "distinct (map mc_id cs)"
  shows "map cr_monitored_component_id rs = map mc_id cs \<and> db_results db' = db_results db @ rs
    \<and> (\<forall>k. k \<notin> mc_id ` set cs \<longrightarrow> get_component k db' = get_component k db)
    \<and> list_all2 (\<lambda>c r. get_component (mc_id c) db' = Some (c\<lparr>mc_last_checked_at := Some (cr_checked_at r)\<rparr>)) cs rs"
  using assms
proof (induction cs arbitrary: db hw rs)
  case Nil
  then show ?case by simp
next
  case (Cons c cs)
  obtain r db1 hw1 rs' where one: "run_check cfg hc c (Some allowed) (clock (mc_id c)) (db, hw) = (Inr r, db1, hw1)"
    and rest: "run_checks cfg hc cs allowed clock (db1, hw1) = (Inr rs', db', hw')" and eqs: "rs = r # rs'"
    using Cons.prems(1) by (auto split: prod.splits sum.splits)
  have "get_component (mc_id c) db \<noteq> None" using Cons.prems(3) by simp
  note e = run_check_effect [OF one Cons.prems(2) this]
  have "\<forall>c' \<in> set cs. get_component (mc_id c') db1 \<noteq> None" using e Cons.prems(3) by simp
  from Cons.IH [OF rest Cons.prems(2) this] Cons.prems(4) e show ?case
    by (auto simp: eqs)
qed

text \<open>What a cycle that does not raise does, over the list of due components.\<close>

lemma cycle_effect:
  assumes "run_due_checks cfg sha hc wan now_due now_pick clock (db, hw) = (Inr rs, db', hw')"
    and "reports_own_component hc" and "distinct (map mc_id (db_components db))"
  shows "let due = due_order (fst (list_due_components cfg now_due db)) in
     map cr_monitored_component_id rs = map mc_id due
     \<and> distinct (map mc_id due) \<and> set due = set (fst (list_due_components cfg now_due db))
     \<and> sorted (map (\<lambda>c. (mc_check_type c \<notin> set VPN_CHECK_TYPES, mc_id c)) due)
     \<and> db_results db' = db_results db @ rs
     \<and> list_all2 (\<lambda>c r. get_component (mc_id c) db' = Some (c\<lparr>mc_last_checked_at := Some (cr_checked_at r)\<rparr>)) due rs
     \<and> (\<forall>k. k \<notin> mc_id ` set due \<longrightarrow> get_component k db' = get_component k db)"
proof -
  obtain ms db1 where g: "get_monitoring_settings cfg db = (ms, db1)" by fastforce
  note keeps = get_monitoring_settings_keeps [OF g]
  obtain D where ld: "list_due_components cfg now_due db = (D, db1)" by (simp add: list_due_components_def g Let_def)
  let ?due = "due_order D"
  have D: "set D \<subseteq> set (db_components db)" "distinct (map mc_id D)"
    using assms(3) keeps ld by (auto simp: list_due_components_def g Let_def intro: Prelude.distinct_map_filter)
  have set: "set ?due = set D" by (simp add: due_order_def)
  have "mset (map mc_id ?due) = mset (map mc_id D)" by (simp add: due_order_def)
  then have dist: "distinct (map mc_id ?due)" using D(2) mset_eq_imp_distinct_iff by blast
  have g1: "get_monitoring_settings cfg db1 = (ms, db1)" using keeps by (simp add: get_monitoring_settings_def)
  obtain allowed hw1 where run: "run_checks cfg hc ?due allowed clock (db1, hw1) = (Inr rs, db', hw')"
  proof -
    obtain w hw1 where w: "wan ms hw = (w, hw1)" by fastforce
    obtain rs0 db0 hw0 where rc: "run_checks cfg hc ?due (cycle_allowed sha ?due ms now_pick db1) clock (db1, hw1) = (rs0, db0, hw0)"
      by (metis prod_cases3)
    have "run_due_checks cfg sha hc wan now_due now_pick clock (db, hw) =
        (case w of Inl e \<Rightarrow> (Inl e, db, hw1) | Inr _ \<Rightarrow> (case rs0 of Inl e \<Rightarrow> (Inl e, db, hw0) | Inr rs \<Rightarrow> (Inr rs, db0, hw0)))"
      by (cases w; cases rs0) (simp_all add: run_due_checks_def ld g1 w rc Let_def)
    with assms(1) rc that show thesis by (cases w; cases rs0) auto
  qed
  have "get_component (mc_id c) db1 \<noteq> None" if "c \<in> set ?due" for c
    using that set D(1) keeps unfolding get_component_def lookup_row_in_keys by auto
  then have "\<forall>c \<in> set ?due. get_component (mc_id c) db1 \<noteq> None" by blast
  note e = run_checks_effect [OF run assms(2) this dist]
  have "sorted (map (\<lambda>c. (mc_check_type c \<notin> set VPN_CHECK_TYPES, mc_id c)) ?due)" by (simp add: due_order_def)
  with e set dist keeps get_component_settings [OF g] show ?thesis unfolding Let_def by (simp add: ld)
qed

text \<open>A component is checked when it and its project are active, no worker thread owns it, and its interval has passed.\<close>

lemma standard_interval:
  "ms_default_poll_interval_seconds (fst (get_monitoring_settings cfg db))
     = (case db_settings db of None \<Rightarrow> 60 | Some ms \<Rightarrow> ms_default_poll_interval_seconds ms)"
  by (simp add: get_monitoring_settings_def Let_def split: option.split)

lemma due_components:
  fixes cfg :: settings and db :: database
  defines "standard \<equiv> (case db_settings db of None \<Rightarrow> 60 | Some ms \<Rightarrow> ms_default_poll_interval_seconds ms)"
  shows "set (fst (list_due_components cfg now db)) =
     {c \<in> set (db_components db). mc_is_active c \<and> (\<exists>p \<in> set (db_projects db). pr_id p = mc_project_id c \<and> pr_is_active p)
        \<and> \<not> (mc_check_type c = ''openvpn'' \<and> mc_connection_mode c = ''persistent'')
        \<and> (\<forall>t. mc_last_checked_at c = Some t \<longrightarrow>
             utc_of t + (case mc_poll_interval_seconds c of None \<Rightarrow> standard | Some p \<Rightarrow> if p = 0 then standard else p) * 1000000 \<le> now)}"
proof -
  obtain ms db1 where g: "get_monitoring_settings cfg db = (ms, db1)" by fastforce
  note keeps = get_monitoring_settings_keeps [OF g]
  have s: "ms_default_poll_interval_seconds ms = standard" using standard_interval [of cfg db] by (simp add: g standard_def)
  have i: "effective_poll_interval c ms = (case mc_poll_interval_seconds c of None \<Rightarrow> standard | Some p \<Rightarrow> if p = 0 then standard else p)" for c
    by (simp add: effective_poll_interval_def s split: option.split)
  have due: "is_due c ms now \<longleftrightarrow> mc_is_active c \<and> \<not> (mc_check_type c = ''openvpn'' \<and> mc_connection_mode c = ''persistent'')
      \<and> (\<forall>t. mc_last_checked_at c = Some t \<longrightarrow> utc_of t + effective_poll_interval c ms * 1000000 \<le> now)" for c
    by (cases "mc_last_checked_at c") (auto simp: is_due_def PERSISTENT_VPN_CHECK_TYPES_def)
  have active: "k \<in> set (map pr_id (filter pr_is_active ps)) \<longleftrightarrow> (\<exists>p \<in> set ps. pr_id p = k \<and> pr_is_active p)" for k ps
    by auto
  show ?thesis
    using keeps unfolding list_due_components_def g Let_def prod.case fst_conv set_filter active due i by auto
qed

text \<open>
  C7. A scheduler cycle checks exactly the due components, once each: the active components of active projects whose interval
  (their own, else the standard one of the settings, else 60 seconds) has passed since their last check or that were never
  checked, persistent OpenVPN components apart, which their workers check. VPN components come first, then the order of the
  identifiers. It appends one result per due component, stamps each with the time of its own check and leaves every other
  component as it was. When a check or the host measurement raises, the database stays as it was.
\<close>

theorem run_due_checks_once:
  assumes "run_due_checks cfg sha hc wan now_due now_pick clock (db, hw) = (r, db', hw')"
    and "reports_own_component hc" and "distinct (map mc_id (db_components db))"
  shows "let standard = (case db_settings db of None \<Rightarrow> 60 | Some ms \<Rightarrow> ms_default_poll_interval_seconds ms);
         interval = (\<lambda>c. case mc_poll_interval_seconds c of None \<Rightarrow> standard | Some p \<Rightarrow> if p = 0 then standard else p)
     in case r of
       Inl e \<Rightarrow> db' = db
     | Inr rs \<Rightarrow> \<exists>due.
         set due = {c \<in> set (db_components db). mc_is_active c
            \<and> (\<exists>p \<in> set (db_projects db). pr_id p = mc_project_id c \<and> pr_is_active p)
            \<and> \<not> (mc_check_type c = ''openvpn'' \<and> mc_connection_mode c = ''persistent'')
            \<and> (\<forall>t. mc_last_checked_at c = Some t \<longrightarrow> utc_of t + interval c * 1000000 \<le> now_due)}
         \<and> distinct (map mc_id due) \<and> map cr_monitored_component_id rs = map mc_id due
         \<and> sorted (map (\<lambda>c. (mc_check_type c \<notin> {''openvpn'', ''xray''}, mc_id c)) due)
         \<and> db_results db' = db_results db @ rs
         \<and> list_all2 (\<lambda>c r. get_component (mc_id c) db' = Some (c\<lparr>mc_last_checked_at := Some (cr_checked_at r)\<rparr>)) due rs
         \<and> (\<forall>k. k \<notin> mc_id ` set due \<longrightarrow> get_component k db' = get_component k db)"
proof (cases r)
  case (Inl e)
  with assms(1) show ?thesis by (auto simp: run_due_checks_def Let_def split: prod.splits sum.splits)
next
  case (Inr rs)
  define due where "due = due_order (fst (list_due_components cfg now_due db))"
  have "sorted (map (\<lambda>c. (mc_check_type c \<notin> {''openvpn'', ''xray''}, mc_id c)) due)"
    by (simp add: due_def due_order_def VPN_CHECK_TYPES_def)
  with cycle_effect [OF assms(1) [unfolded Inr] assms(2,3), folded due_def] show ?thesis
    unfolding Inr Let_def sum.case due_components by blast
qed
definition sample_project :: Project where
  "sample_project = \<lparr>pr_id = ''p1'', pr_name = ''P'', pr_slug = ''p'', pr_description = None, pr_is_active = True,
     pr_created_at = 0\<rparr>"

definition sample_database :: database where
  "sample_database = empty_database\<lparr>db_settings := Some sample_settings, db_projects := [sample_project],
     db_components := [sample_component\<lparr>mc_id := ''c2'', mc_check_type := ''http_status''\<rparr>, sample_component,
       sample_component\<lparr>mc_id := ''c3'', mc_last_checked_at := Some (Aware 999000000)\<rparr>]\<rparr>"

definition sample_check :: health_check where
  "sample_check c ctx hw = (Inr (sample_result\<lparr>cr_monitored_component_id := mc_id c\<rparr>), hw)"

definition no_wan :: "MonitoringSettings \<Rightarrow> host_wan \<Rightarrow> HostWanBaseline option res \<times> host_wan" where
  "no_wan ms hw = (Inr None, hw)"

lemma sample_due:
  "due_order (fst (list_due_components sample_cfg 1000000000 sample_database)) =
     [sample_component, sample_component\<lparr>mc_id := ''c2'', mc_check_type := ''http_status''\<rparr>]"
  by (simp add: list_due_components_def get_monitoring_settings_def sample_database_def is_due_def sample_component_def
      sample_project_def effective_poll_interval_def sample_settings_def due_order_def VPN_CHECK_TYPES_def
      PERSISTENT_VPN_CHECK_TYPES_def Collect_conv_if)

lemma run_due_checks_once_witness:
  "\<exists>rs db' hw'. run_due_checks sample_cfg (\<lambda>_. ''0'') sample_check no_wan 1000000000 1000000000 (\<lambda>_. 1000000000)
      (sample_database, fresh_process None) = (Inr rs, db', hw')
     \<and> set (map cr_monitored_component_id rs) = {''c1'', ''c2''} \<and> distinct (map cr_monitored_component_id rs)"
proof -
  obtain r db' hw' where run: "run_due_checks sample_cfg (\<lambda>_. ''0'') sample_check no_wan 1000000000 1000000000 (\<lambda>_. 1000000000)
      (sample_database, fresh_process None) = (r, db', hw')" by (metis prod_cases3)
  have total: "\<exists>rs st'. run_checks cfg sample_check cs allowed clock st = (Inr rs, st')" for cfg cs allowed clock st
    by (induction cs arbitrary: st) (auto simp: run_check_def sample_check_def Let_def split: prod.splits sum.splits, metis Inr_inject sum.distinct(1) prod.inject)
  obtain rs where r: "r = Inr rs"
    using run total by (auto simp: run_due_checks_def no_wan_def Let_def split: prod.splits sum.splits) (metis prod.inject sum.distinct(1))
  have "reports_own_component sample_check" by (simp add: reports_own_component_def sample_check_def)
  moreover have "distinct (map mc_id (db_components sample_database))" by (simp add: sample_database_def sample_component_def)
  ultimately obtain due where due: "distinct (map mc_id due)" "map cr_monitored_component_id rs = map mc_id due"
    and members: "set due = {c \<in> set (db_components sample_database). mc_is_active c
       \<and> (\<exists>p \<in> set (db_projects sample_database). pr_id p = mc_project_id c \<and> pr_is_active p)
       \<and> \<not> (mc_check_type c = ''openvpn'' \<and> mc_connection_mode c = ''persistent'')
       \<and> (\<forall>t. mc_last_checked_at c = Some t \<longrightarrow> utc_of t + (case mc_poll_interval_seconds c of
             None \<Rightarrow> (case db_settings sample_database of None \<Rightarrow> 60 | Some ms \<Rightarrow> ms_default_poll_interval_seconds ms)
           | Some p \<Rightarrow> if p = 0 then (case db_settings sample_database of None \<Rightarrow> 60 | Some ms \<Rightarrow> ms_default_poll_interval_seconds ms)
                       else p) * 1000000 \<le> 1000000000)}"
    using run_due_checks_once [OF run] unfolding r Let_def by auto
  have "set due = {sample_component\<lparr>mc_id := ''c2'', mc_check_type := ''http_status''\<rparr>, sample_component}"
    unfolding members by (auto simp: sample_database_def sample_component_def sample_project_def sample_settings_def)
  then have "set (map cr_monitored_component_id rs) = {''c1'', ''c2''}" by (auto simp: due(2) sample_component_def)
  moreover have "distinct (map cr_monitored_component_id rs)" using due by metis
  ultimately show ?thesis using run [unfolded r] by blast
qed

section \<open>One live speed test per cycle\<close>

lemma check_context_runs_allowed:
  assumes "check_context cfg ms c (Some allowed) now db = Some ctx" and "rc_run_speed_test ctx"
  shows "mc_id c \<in> set allowed"
  using assms by (auto simp: check_context_def Let_def split: if_splits prod.splits)

lemma check_context_Some:
  assumes "mc_check_type c \<in> set VPN_CHECK_TYPES"
  shows "\<exists>ctx. check_context cfg ms c allowed now db = Some ctx \<and>
     (rc_run_speed_test ctx \<longleftrightarrow> should_run_speed_test c ms (latest_by_component_ids db [mc_id c] (mc_id c)) now
        \<and> (case allowed of None \<Rightarrow> True | Some ids \<Rightarrow> mc_id c \<in> set ids))"
  using assms by (simp add: check_context_def Let_def split: prod.split option.split)

lemma cycle_allowed_at_most_one: "length (cycle_allowed sha due ms now db) \<le> 1"
  by (simp add: cycle_allowed_def pick_staggered_speed_test_component_ids_def Let_def)

text \<open>
  C23. In one scheduler cycle at most one component is allowed a live speed test, whatever the database and the
  clock are when the checks of the cycle build their contexts, and that component is a due VPN component.
\<close>

theorem one_live_speed_test_per_cycle:
  assumes "c \<in> set due" and "d \<in> set due"
    and "check_context cfg ms c (Some (cycle_allowed sha due ms' now0 db0)) now db = Some ctx" and "rc_run_speed_test ctx"
    and "check_context cfg ms d (Some (cycle_allowed sha due ms' now0 db0)) now' db' = Some ctx'" and "rc_run_speed_test ctx'"
  shows "mc_id c = mc_id d \<and> mc_check_type c \<in> set VPN_CHECK_TYPES"
proof -
  have "mc_id c \<in> set (cycle_allowed sha due ms' now0 db0)" "mc_id d \<in> set (cycle_allowed sha due ms' now0 db0)"
    using check_context_runs_allowed assms(3-6) by blast+
  moreover obtain x where "cycle_allowed sha due ms' now0 db0 = [] \<or> cycle_allowed sha due ms' now0 db0 = [x]"
    using cycle_allowed_at_most_one [of sha due ms' now0 db0]
    by (cases "cycle_allowed sha due ms' now0 db0") auto
  ultimately have "mc_id c = mc_id d" by auto
  moreover have "mc_check_type c \<in> set VPN_CHECK_TYPES" using assms(3) by (auto simp: check_context_def split: if_splits)
  ultimately show ?thesis ..
qed

lemma one_live_speed_test_per_cycle_witness:
  "\<exists>ctx. check_context sample_cfg sample_settings sample_component
        (Some (cycle_allowed (\<lambda>_. ''0'') [sample_component] sample_settings 0 empty_database)) 0 empty_database = Some ctx
     \<and> rc_run_speed_test ctx \<and> mc_check_type sample_component \<in> set VPN_CHECK_TYPES"
proof -
  have a: "cycle_allowed (\<lambda>_. ''0'') [sample_component] sample_settings 0 empty_database = [''c1'']"
    by (simp add: cycle_allowed_def pick_staggered_speed_test_component_ids_def staggered_due_def should_run_speed_test_def
        sample_component_def VPN_CHECK_TYPES_def latest_by_component_ids_def fetch_latest_check_results_def
        latest_check_def empty_database_def List.map_filter_simps)
  have "mc_check_type sample_component \<in> set VPN_CHECK_TYPES" by (simp add: sample_component_def VPN_CHECK_TYPES_def)
  from check_context_Some [OF this, of sample_cfg sample_settings "Some [''c1'']" 0 empty_database]
  obtain ctx where "check_context sample_cfg sample_settings sample_component (Some [''c1'']) 0 empty_database = Some ctx"
    "rc_run_speed_test ctx"
    by (auto simp: should_run_speed_test_def latest_by_component_ids_def fetch_latest_check_results_def
        latest_check_def empty_database_def List.map_filter_simps sample_component_def)
  then have c: "check_context sample_cfg sample_settings sample_component
        (Some (cycle_allowed (\<lambda>_. ''0'') [sample_component] sample_settings 0 empty_database)) 0 empty_database = Some ctx"
     "rc_run_speed_test ctx" by (simp_all add: a)
  from one_live_speed_test_per_cycle [OF _ _ c c] c show ?thesis by auto
qed

text \<open>
  After a check a component is due again exactly when its effective poll interval has passed since the
  time of that check; a persistent OpenVPN component is never due for the scheduler.
\<close>

theorem due_again_after_interval:
  assumes "mc_is_active c" and "run_check cfg hc c allowed t (db, hw) = (Inr r, db', hw')" and "reports_own_component hc"
    and "get_component (mc_id c) db \<noteq> None"
  shows "\<exists>c'. get_component (mc_id c) db' = Some c' \<and>
     (is_due c' ms now \<longleftrightarrow>
        \<not> (mc_check_type c = ''openvpn'' \<and> mc_connection_mode c = ''persistent'')
        \<and> utc_of (cr_checked_at r) + effective_poll_interval c ms * usec_per_second \<le> now)"
  using run_check_effect [OF assms(2-4)] assms(1)
  by (auto simp: is_due_def PERSISTENT_VPN_CHECK_TYPES_def effective_poll_interval_def split: option.splits)

lemma due_again_after_interval_witness:
  "\<exists>r db' hw' c'. run_check sample_cfg sample_check sample_component None 0 (sample_database, fresh_process None) = (Inr r, db', hw')
     \<and> get_component ''c1'' db' = Some c'"
proof -
  obtain r db' hw' where run: "run_check sample_cfg sample_check sample_component None 0 (sample_database, fresh_process None) = (Inr r, db', hw')"
    by (cases "get_monitoring_settings sample_cfg sample_database") (simp add: run_check_def sample_check_def)
  have "mc_is_active sample_component" "reports_own_component sample_check" "get_component (mc_id sample_component) sample_database \<noteq> None"
    by (simp_all add: sample_component_def reports_own_component_def sample_check_def get_component_def sample_database_def lookup_row_def)
  from due_again_after_interval [OF this(1) run this(2,3)] run show ?thesis by (auto simp: sample_component_def)
qed

end
