(* ===== verification/DayStats.thy ===== *)
theory DayStats
  imports UptimeStats Monitoring
begin

text \<open>
  The day statistics of \<open>src/app/services/public_status_service.py\<close>: the two grouped queries (counts per
  component, day and outcome; ordered events per component and day), downtime with outages carried over
  from the previous day, and the sums and maxima over components and days. A Python dictionary keyed by
  component and day is an association list; a \<open>GROUP BY\<close> is the list of distinct keys.
\<close>

type_synonym day_key = "uuid \<times> day"

definition result_day :: "CheckResult \<Rightarrow> day" where
  "result_day r = date_of (utc_of (cr_checked_at r))"

definition result_key :: "CheckResult \<Rightarrow> day_key" where
  "result_key r = (cr_monitored_component_id r, result_day r)"

definition results_between :: "database \<Rightarrow> uuid list \<Rightarrow> instant \<Rightarrow> instant \<Rightarrow> CheckResult list" where
  "results_between db component_ids start_dt end_dt =
     filter (\<lambda>r. cr_monitored_component_id r \<in> set component_ids
                 \<and> start_dt \<le> utc_of (cr_checked_at r) \<and> utc_of (cr_checked_at r) < end_dt) (db_results db)"

section \<open>Counts\<close>

definition outcome_rows :: "CheckResult list \<Rightarrow> (day_key \<times> string \<times> int) list" where
  \<comment> \<open>\<open>GROUP BY component, day, outcome\<close> with \<open>count(*)\<close>\<close>
  "outcome_rows rs =
     map (\<lambda>(k, outcome). (k, outcome, int (length (filter (\<lambda>r. result_key r = k \<and> cr_outcome r = outcome) rs))))
       (remdups (map (\<lambda>r. (result_key r, cr_outcome r)) rs))"

definition count_up :: "string \<Rightarrow> int \<Rightarrow> (string \<times> int) list \<Rightarrow> (string \<times> int) list" where
  \<comment> \<open>\<open>counts[outcome] += cnt\<close>\<close>
  "count_up outcome cnt counts = AList.update outcome (default_to 0 (map_of counts outcome) + cnt) counts"

definition counts_by_key :: "(day_key \<times> string \<times> int) list \<Rightarrow> (day_key \<times> (string \<times> int) list) list" where
  "counts_by_key rows =
     fold (\<lambda>(k, outcome, cnt) d. AList.update k (count_up outcome cnt (default_to [] (map_of d k))) d) rows []"

definition stats_of_counts :: "(string \<times> int) list \<Rightarrow> DayCheckStats" where
  "stats_of_counts counts =
     \<lparr>st_downtime_seconds = 0, st_total = sum_list (map snd counts),
      st_up = default_to 0 (map_of counts (CheckOutcome_value UP)),
      st_degraded = default_to 0 (map_of counts (CheckOutcome_value DEGRADED)),
      st_failed = sum_list (map (\<lambda>outcome. default_to 0 (map_of counts outcome)) OUTAGE_OUTCOMES)\<rparr>"

definition day_outcome_counts :: "database \<Rightarrow> uuid list \<Rightarrow> instant \<Rightarrow> instant \<Rightarrow> (day_key \<times> DayCheckStats) list" where
  "day_outcome_counts db component_ids start_dt end_dt =
     map (\<lambda>(k, counts). (k, stats_of_counts counts))
       (counts_by_key (outcome_rows (results_between db component_ids start_dt end_dt)))"

section \<open>Downtime\<close>

definition events_by_key :: "CheckResult list \<Rightarrow> (day_key \<times> (instant \<times> string) list) list" where
  \<comment> \<open>\<open>array_agg(... ORDER BY checked_at)\<close> per component and day; the outcome is reduced to down or up\<close>
  "events_by_key rs =
     map (\<lambda>k. (k, map (\<lambda>r. (utc_of (cr_checked_at r),
                            if is_outage_outcome (cr_outcome r) then CheckOutcome_value DOWN else CheckOutcome_value UP))
                    (sort_key (\<lambda>r. utc_of (cr_checked_at r)) (filter (\<lambda>r. result_key r = k) rs))))
       (remdups (map result_key rs))"

definition last_outcomes_before :: "database \<Rightarrow> uuid list \<Rightarrow> instant \<Rightarrow> uuid \<Rightarrow> string option" where
  "last_outcomes_before db component_ids before cid =
     map_of (rev (map (\<lambda>r. (cr_monitored_component_id r, cr_outcome r))
                    (fetch_latest_check_results db component_ids (Some before)))) cid"

fun max_by_time :: "(instant \<times> string) list \<Rightarrow> instant \<times> string" where
  \<comment> \<open>\<open>max(events, key=...)\<close>: the first of the latest\<close>
  "max_by_time [] = (0, '''')"
| "max_by_time [e] = e"
| "max_by_time (e # e' # es) = max_by_time ((if fst e < fst e' then e' else e) # es)"

definition outcome_at_end_of_previous_day ::
  "uuid \<Rightarrow> day \<Rightarrow> day \<Rightarrow> (uuid \<Rightarrow> string option) \<Rightarrow> (day_key \<times> (instant \<times> string) list) list \<Rightarrow> string option" where
  "outcome_at_end_of_previous_day cid d range_start pre_range_outcomes events =
     (case map_of events (cid, d - 1) of
        Some (e # es) \<Rightarrow> Some (snd (max_by_time (e # es)))
      | _ \<Rightarrow> if d = range_start then pre_range_outcomes cid else None)"

definition day_downtime ::
  "database \<Rightarrow> uuid list \<Rightarrow> day \<Rightarrow> instant \<Rightarrow> instant \<Rightarrow> instant \<Rightarrow> (day_key \<times> int) list" where
  "day_downtime db component_ids range_start start_dt end_dt now =
     (let events = events_by_key (results_between db component_ids start_dt end_dt);
          pre_range = last_outcomes_before db component_ids start_dt
      in map (\<lambda>((cid, d), es).
             let previous = outcome_at_end_of_previous_day cid d range_start pre_range events;
                 continuing = (case previous of None \<Rightarrow> False | Some p \<Rightarrow> is_outage_outcome p)
             in ((cid, d), compute_downtime_seconds es d now continuing)) events)"

definition day_stats_by_component_day ::
  "database \<Rightarrow> uuid list \<Rightarrow> day \<Rightarrow> day \<Rightarrow> bool \<Rightarrow> instant \<Rightarrow> (day_key \<times> DayCheckStats) list" where
  "day_stats_by_component_day db component_ids range_start range_end include_downtime now =
     (if component_ids = [] then []
      else let start_dt = day_start range_start; end_dt = day_start (range_end + 1);
               stats = day_outcome_counts db component_ids start_dt end_dt
           in if \<not> include_downtime then stats
              else fold (\<lambda>(k, secs) d. AList.update k (with_downtime (default_to empty_day_stats (map_of d k)) secs) d)
                     (day_downtime db component_ids range_start start_dt end_dt now) stats)"

section \<open>Sums and maxima\<close>

definition add_stats :: "DayCheckStats \<Rightarrow> DayCheckStats \<Rightarrow> DayCheckStats" where
  "add_stats l r =
     \<lparr>st_downtime_seconds = st_downtime_seconds l + st_downtime_seconds r, st_total = st_total l + st_total r,
      st_up = st_up l + st_up r, st_degraded = st_degraded l + st_degraded r, st_failed = st_failed l + st_failed r\<rparr>"

definition sum_stats :: "uuid list \<Rightarrow> day list \<Rightarrow> (day_key \<times> DayCheckStats) list \<Rightarrow> DayCheckStats" where
  "sum_stats component_ids day_keys stats_map =
     fold (\<lambda>k tot. case map_of stats_map k of
                    None \<Rightarrow> tot | Some s \<Rightarrow> if st_total s \<noteq> 0 then add_stats tot s else tot)
       (List.product component_ids day_keys) empty_day_stats"

definition stats_at :: "(day_key \<times> DayCheckStats) list \<Rightarrow> uuid \<Rightarrow> day \<Rightarrow> DayCheckStats" where
  \<comment> \<open>\<open>.get((component_id, day), empty_day_stats())\<close>\<close>
  "stats_at stats_map cid d = default_to empty_day_stats (map_of stats_map (cid, d))"

definition max_downtime_for_day :: "uuid list \<Rightarrow> day \<Rightarrow> (day_key \<times> DayCheckStats) list \<Rightarrow> int" where
  "max_downtime_for_day component_ids d stats_map =
     (case map (\<lambda>cid. st_downtime_seconds (stats_at stats_map cid d)) component_ids of
        [] \<Rightarrow> 0 | x # xs \<Rightarrow> fold max xs x)"

definition merge_status :: "day_status \<Rightarrow> day_status \<Rightarrow> day_status" where
  "merge_status current incoming = (if STATUS_PRIORITY current < STATUS_PRIORITY incoming then incoming else current)"

definition project_day_statuses :: "uuid list \<Rightarrow> day list \<Rightarrow> (day_key \<times> DayCheckStats) list \<Rightarrow> (day \<times> day_status) list" where
  \<comment> \<open>the double loop updates one day at a time; each day is merged over the components in order\<close>
  "project_day_statuses component_ids day_keys stats_map =
     fold (\<lambda>(cid, d) m. AList.update d (merge_status (default_to No_data (map_of m d)) (status_from_stats (stats_at stats_map cid d))) m)
       (List.product component_ids day_keys) (map (\<lambda>d. (d, No_data)) day_keys)"

fun date_range_loop :: "nat \<Rightarrow> day \<Rightarrow> day \<Rightarrow> day list" where
  "date_range_loop 0 current end_day = []"
| "date_range_loop (Suc n) current end_day =
     (if current \<le> end_day then current # date_range_loop n (current + 1) end_day else [])"

definition date_range :: "day \<Rightarrow> day \<Rightarrow> day list" where
  \<comment> \<open>the \<open>while current <= end\<close> loop; the fuel is its number of iterations\<close>
  "date_range start_day end_day = date_range_loop (nat (end_day - start_day + 1)) start_day end_day"

section \<open>Lemmas: grouping\<close>

lemma map_of_counts_by_key_fold:
  "map_of (fold (\<lambda>(k, outcome, cnt) d. AList.update k (count_up outcome cnt (default_to [] (map_of d k))) d) rows D) k =
     (if filter (\<lambda>row. fst row = k) rows = [] then map_of D k
      else Some (fold (\<lambda>(_, outcome, cnt) m. count_up outcome cnt m) (filter (\<lambda>row. fst row = k) rows)
                   (default_to [] (map_of D k))))"
proof (induction rows arbitrary: D)
  case Nil
  then show ?case by simp
next
  case (Cons row rows)
  then show ?case by (cases row) (auto simp: update_conv' filter_empty_conv default_to_def)
qed

lemma update_absent: "k \<notin> fst ` set m \<Longrightarrow> AList.update k v m = m @ [(k, v)]"
  by (induction m) auto

lemma fold_count_up_fresh:
  assumes "distinct (map (fst \<circ> snd) rows)" and "\<forall>row \<in> set rows. fst (snd row) \<notin> fst ` set m"
  shows "fold (\<lambda>(_, outcome, cnt) m. count_up outcome cnt m) rows m = m @ map snd rows"
  using assms
proof (induction rows arbitrary: m)
  case Nil
  then show ?case by simp
next
  case (Cons row rows)
  obtain k outcome cnt where row: "row = (k, outcome, cnt)" by (cases row)
  have new: "outcome \<notin> fst ` set m" using Cons.prems(2) by (simp add: row)
  then have "map_of m outcome = None" by (simp add: map_of_eq_None_iff)
  with new have step: "count_up outcome cnt m = m @ [(outcome, cnt)]"
    by (simp add: count_up_def update_absent default_to_def)
  have "fold (\<lambda>(_, outcome, cnt) m. count_up outcome cnt m) rows (m @ [(outcome, cnt)]) = (m @ [(outcome, cnt)]) @ map snd rows"
    using Cons.prems by (intro Cons.IH) (auto simp: row image_iff)
  then show ?case by (simp add: row step)
qed

lemma length_filter_pair_eq:
  "length (filter (\<lambda>r. result_key r = k \<and> cr_outcome r = x) rs) =
     count_list (map cr_outcome (filter (\<lambda>r. result_key r = k) rs)) x"
  by (induction rs) auto

definition outcomes_of_key :: "CheckResult list \<Rightarrow> day_key \<Rightarrow> string list" where
  "outcomes_of_key rs k = map cr_outcome (filter (\<lambda>r. result_key r = k) rs)"

definition distinct_outcomes :: "CheckResult list \<Rightarrow> day_key \<Rightarrow> string list" where
  "distinct_outcomes rs k = map snd (filter (\<lambda>p. fst p = k) (remdups (map (\<lambda>r. (result_key r, cr_outcome r)) rs)))"

lemma distinct_outcomes: "distinct (distinct_outcomes rs k)" "set (distinct_outcomes rs k) = set (outcomes_of_key rs k)"
  by (auto simp: distinct_outcomes_def outcomes_of_key_def distinct_map inj_on_def)
    (metis (mono_tags, lifting) fst_conv image_eqI mem_Collect_eq prod.exhaust_sel snd_conv)

lemma rows_of_key:
  "filter (\<lambda>row. fst row = k) (outcome_rows rs) =
     map (\<lambda>x. (k, x, int (count_list (outcomes_of_key rs k) x))) (distinct_outcomes rs k)"
  unfolding outcome_rows_def length_filter_pair_eq outcomes_of_key_def distinct_outcomes_def
  by (simp add: filter_map comp_def case_prod_unfold cong: filter_cong)

lemma counts_of_key:
  "map_of (counts_by_key (outcome_rows rs)) k =
     (if outcomes_of_key rs k = [] then None
      else Some (map (\<lambda>x. (x, int (count_list (outcomes_of_key rs k) x))) (distinct_outcomes rs k)))"
proof -
  have "distinct_outcomes rs k = [] \<longleftrightarrow> outcomes_of_key rs k = []"
    using distinct_outcomes(2) [of rs k] by (metis set_empty)
  moreover have "distinct (map (fst \<circ> snd) (map (\<lambda>x. (k, x, int (count_list (outcomes_of_key rs k) x))) (distinct_outcomes rs k)))"
    by (simp add: comp_def distinct_outcomes(1))
  ultimately show ?thesis
    unfolding counts_by_key_def map_of_counts_by_key_fold rows_of_key
    by (subst fold_count_up_fresh) (simp_all add: comp_def default_to_def)
qed

lemma default_to_count:
  "default_to 0 (map_of (map (\<lambda>x. (x, int (count_list os x))) xs) y) = int (if y \<in> set xs then count_list os y else 0)"
  by (simp add: map_of_map_restrict [unfolded comp_def] default_to_def)

lemma count_eq_length_filter: "count_list xs y = length (filter (\<lambda>x. x = y) xs)"
  by (induction xs) auto

lemma count_outage:
  "length (filter (\<lambda>x. x \<in> set OUTAGE_OUTCOMES) xs) = sum_list (map (count_list xs) OUTAGE_OUTCOMES)"
  by (induction xs) (auto simp: OUTAGE_OUTCOMES_def)

lemma stats_of_counts_outcomes:
  assumes "distinct xs" and "set xs = set os"
  shows "stats_of_counts (map (\<lambda>x. (x, int (count_list os x))) xs) = from_outcomes os 0"
proof -
  have c: "default_to 0 (map_of (map (\<lambda>x. (x, int (count_list os x))) xs) y) = int (count_list os y)" for y
    unfolding default_to_count using assms(2) by (auto simp: count_notin)
  have "sum_list (map (\<lambda>x. int (count_list os x)) xs) = int (\<Sum>x \<in> set os. count_list os x)"
    using assms by (simp add: sum_list_distinct_conv_sum_set)
  also have "\<dots> = int (length os)" by (simp add: sum_count_set)
  finally have tot: "sum_list (map (\<lambda>x. int (count_list os x)) xs) = int (length os)" .
  have "int (sum_list (map (count_list os) OUTAGE_OUTCOMES)) = sum_list (map (\<lambda>x. int (count_list os x)) OUTAGE_OUTCOMES)"
    by (simp add: OUTAGE_OUTCOMES_def)
  with tot show ?thesis
    unfolding stats_of_counts_def c
    by (simp add: from_outcomes_def day_check_counts_def count_outage comp_def)
      (simp add: count_eq_length_filter DEGRADED_OUTCOMES_def)
qed

lemma map_of_map_snd: "map_of (map (\<lambda>(k, v). (k, f v)) xs) k = map_option f (map_of xs k)"
  by (induction xs) auto

text \<open>
  The day statistics built from the grouped count query are those of the list of outcomes: for a
  component and day the model returns exactly \<open>from_outcomes\<close> of the outcomes stored for that component
  on that UTC day in the queried range, and no entry when there is no check.
\<close>

theorem day_counts_are_those_of_outcomes:
  "map_of (day_outcome_counts db ids start_dt end_dt) k =
     (let os = outcomes_of_key (results_between db ids start_dt end_dt) k
      in if os = [] then None else Some (from_outcomes os 0))"
  unfolding day_outcome_counts_def map_of_map_snd
  by (simp add: counts_of_key stats_of_counts_outcomes distinct_outcomes Let_def)

section \<open>Lemmas: downtime of a day\<close>

definition timed :: "CheckResult \<Rightarrow> instant \<times> string" where
  "timed r = (utc_of (cr_checked_at r), cr_outcome r)"

definition component_events :: "database \<Rightarrow> uuid \<Rightarrow> (instant \<times> string) list" where
  "component_events db cid = map timed (results_of cid db)"

definition down_or_up :: "string \<Rightarrow> string" where
  "down_or_up x = (if is_outage_outcome x then CheckOutcome_value DOWN else CheckOutcome_value UP)"

lemma is_outage_down_or_up [simp]: "is_outage_outcome (down_or_up x) = is_outage_outcome x"
  by (simp add: down_or_up_def is_outage_outcome_def OUTAGE_OUTCOMES_def)

lemma downtime_loop_down_or_up:
  "downtime_loop (map (\<lambda>e. (fst e, down_or_up (snd e))) es) tot ds = downtime_loop es tot ds"
  by (induction es tot ds rule: downtime_loop.induct) (simp_all split: option.splits)

lemma insort_key_map: "(\<And>x. g (h x) = f x) \<Longrightarrow> insort_key g (h x) (map h xs) = map h (insort_key f x xs)"
  by (induction xs) simp_all

lemma sort_key_map: "(\<And>x. g (h x) = f x) \<Longrightarrow> sort_key g (map h xs) = map h (sort_key f xs)"
  by (induction xs) (simp_all add: insort_key_map)

lemma sort_key_sorted: "sorted (map f ys) \<Longrightarrow> sort_key f ys = ys"
  by (induction ys) (simp_all add: insort_is_Cons)

lemma sort_key_sort_key: "sort_key f (sort_key f xs) = sort_key f xs"
  by (simp add: sort_key_sorted)

lemma last_of_sorted: "sorted (map f xs) \<Longrightarrow> x \<in> set xs \<Longrightarrow> f x \<le> f (last xs)"
  by (induction xs) auto

lemma map_of_map_key: "map_of (map (\<lambda>k. (k, F k)) ks) k = (if k \<in> set ks then Some (F k) else None)"
  by (induction ks) auto

lemma compute_downtime_of_events:
  "compute_downtime_seconds (map (\<lambda>r. (utc_of (cr_checked_at r), down_or_up (cr_outcome r)))
       (sort_key (\<lambda>r. utc_of (cr_checked_at r)) rs)) d now c =
     compute_downtime_seconds (map timed rs) d now c"
proof -
  let ?h = "\<lambda>r. (utc_of (cr_checked_at r), down_or_up (cr_outcome r))" and ?f = "\<lambda>r. utc_of (cr_checked_at r)"
  have "sort_key fst (map ?h (sort_key ?f rs)) = map ?h (sort_key ?f rs)"
    by (simp add: sort_key_map [where f = ?f] sort_key_sort_key)
  moreover have "map ?h (sort_key ?f rs) = map (\<lambda>e. (fst e, down_or_up (snd e))) (sort_key fst (map timed rs))"
    by (simp add: sort_key_map [where f = ?f] timed_def)
  ultimately show ?thesis
    by (simp add: compute_downtime_closed downtime_loop_down_or_up)
qed

lemma events_by_key_lookup:
  "map_of (events_by_key rs) k =
     (let rk = filter (\<lambda>r. result_key r = k) rs
      in if rk = [] then None
         else Some (map (\<lambda>r. (utc_of (cr_checked_at r), down_or_up (cr_outcome r)))
                      (sort_key (\<lambda>r. utc_of (cr_checked_at r)) rk)))"
  by (auto simp: events_by_key_def Let_def filter_empty_conv down_or_up_def map_of_map_key)

lemma max_by_time_latest: "es \<noteq> [] \<Longrightarrow> max_by_time es \<in> set es \<and> (\<forall>e \<in> set es. fst e \<le> fst (max_by_time es))"
proof (induction es rule: max_by_time.induct)
  case (3 e e' es)
  then show ?case by (cases "fst e < fst e'") force+
qed auto

lemma outage_at_latest:
  assumes "e \<in> set es" and "fst e \<le> t" and "\<And>e'. e' \<in> set es \<Longrightarrow> fst e' \<le> t \<Longrightarrow> fst e' \<le> fst e"
    and "distinct (map fst es)"
  shows "outage_at es b t = is_outage_outcome (snd e)"
proof -
  define seen where "seen = filter (\<lambda>e. fst e \<le> t) (sort_key fst es)"
  have mem: "e \<in> set seen" using assms(1,2) by (simp add: seen_def)
  then have ne: "seen \<noteq> []" by auto
  then have l: "last seen \<in> set seen" by simp
  have "sorted (map fst seen)" by (simp add: seen_def sorted_filter)
  then have "fst e \<le> fst (last seen)" using mem by (rule last_of_sorted)
  moreover have "fst (last seen) \<le> fst e" using l assms(3) by (auto simp: seen_def)
  ultimately have "fst (last seen) = fst e" by simp
  moreover have "last seen \<in> set es" using l by (simp add: seen_def)
  ultimately have "last seen = e" using assms(1,4) by (simp add: distinct_map inj_on_def)
  with ne show ?thesis by (simp add: outage_at_def Let_def flip: seen_def)
qed

lemma outage_at_none: "(\<And>e. e \<in> set es \<Longrightarrow> t < fst e) \<Longrightarrow> outage_at es b t = b"
  by (force simp: outage_at_def Let_def filter_empty_conv)

lemma latest_before_Some:
  assumes "latest_check cid (Some b) db = Some r"
  shows "utc_of (cr_checked_at r) < b"
    and "x \<in> set (results_of cid db) \<Longrightarrow> utc_of (cr_checked_at x) < b \<Longrightarrow> utc_of (cr_checked_at x) \<le> utc_of (cr_checked_at r)"
proof -
  let ?R = "filter (\<lambda>r. cr_monitored_component_id r = cid \<and> utc_of (cr_checked_at r) < b) (db_results db)"
  let ?s = "sort_desc (\<lambda>r. utc_of (cr_checked_at r)) ?R"
  have s: "?s \<noteq> [] \<and> r = hd ?s"
    using assms unfolding latest_check_def by (cases "?s") auto
  then have "r \<in> set ?s" by (metis hd_in_set)
  then show "utc_of (cr_checked_at r) < b" by simp
  show "x \<in> set (results_of cid db) \<Longrightarrow> utc_of (cr_checked_at x) < b \<Longrightarrow> utc_of (cr_checked_at x) \<le> utc_of (cr_checked_at r)"
    using s hd_sort_desc_max [of x ?R "\<lambda>r. utc_of (cr_checked_at r)"] by (simp add: results_of_def)
qed

lemma latest_before_None:
  "latest_check cid (Some b) db = None \<Longrightarrow> x \<in> set (results_of cid db) \<Longrightarrow> b \<le> utc_of (cr_checked_at x)"
proof -
  assume l: "latest_check cid (Some b) db = None" and x: "x \<in> set (results_of cid db)"
  have "sort_desc (\<lambda>r. utc_of (cr_checked_at r))
      (filter (\<lambda>r. cr_monitored_component_id r = cid \<and> utc_of (cr_checked_at r) < b) (db_results db)) = []"
    using l by (simp add: latest_check_def split: list.splits)
  with x show ?thesis by (auto simp: filter_empty_conv results_of_def)
qed

lemma last_outcomes_before_latest:
  assumes "results_wf db" and "cid \<in> set ids"
  shows "last_outcomes_before db ids b cid = map_option cr_outcome (latest_check cid (Some b) db)"
proof -
  let ?m = "rev (map (\<lambda>r. (cr_monitored_component_id r, cr_outcome r)) (fetch_latest_check_results db ids (Some b)))"
  have m: "(cid, p) \<in> set ?m \<longleftrightarrow> (\<exists>r. latest_check cid (Some b) db = Some r \<and> cr_outcome r = p)" for p
  proof -
    have "(cid, p) \<in> set ?m \<longleftrightarrow> (\<exists>r. (\<exists>c \<in> set ids. latest_check c (Some b) db = Some r) \<and> cr_monitored_component_id r = cid \<and> cr_outcome r = p)"
      unfolding set_rev set_map fetch_latest_set [OF assms(1)] by auto
    also have "\<dots> \<longleftrightarrow> (\<exists>r. latest_check cid (Some b) db = Some r \<and> cr_outcome r = p)"
      using latest_check_component assms(2) by blast
    finally show ?thesis .
  qed
  show ?thesis
  proof (cases "map_of ?m cid")
    case None
    then have "cid \<notin> fst ` set ?m" by (simp add: map_of_eq_None_iff)
    then have "(cid, p) \<notin> set ?m" for p by force
    with m have "latest_check cid (Some b) db = None" by (cases "latest_check cid (Some b) db") blast+
    with None show ?thesis by (simp add: last_outcomes_before_def)
  next
    case (Some p)
    then have "(cid, p) \<in> set ?m" by (rule map_of_SomeD)
    with m Some show ?thesis by (auto simp: last_outcomes_before_def)
  qed
qed

lemma div_eq_iff_interval:
  fixes u :: int
  assumes "0 < u"
  shows "t div u = d \<longleftrightarrow> d * u \<le> t \<and> t < (d + 1) * u"
proof
  assume "t div u = d"
  with assms show "d * u \<le> t \<and> t < (d + 1) * u"
    using div_mult_mod_eq [of t u] pos_mod_sign [OF assms, of t] pos_mod_bound [OF assms, of t]
    by (auto simp: algebra_simps)
next
  assume "d * u \<le> t \<and> t < (d + 1) * u"
  then show "t div u = d" by (intro int_div_pos_eq [of _ _ _ "t - u * d"]) (simp_all add: algebra_simps)
qed

lemma date_of_eq: "date_of t = d \<longleftrightarrow> day_start d \<le> t \<and> t < day_start (d + 1)"
  unfolding date_of_def day_start_def by (rule div_eq_iff_interval) simp

lemma day_start_mono: "d \<le> e \<Longrightarrow> day_start d \<le> day_start e"
  by (simp add: day_start_def)

lemma results_between_key:
  assumes "cid \<in> set ids"
  shows "filter (\<lambda>r. result_key r = (cid, d)) (results_between db ids (day_start a) (day_start (b + 1))) =
     (if a \<le> d \<and> d \<le> b then filter (\<lambda>r. result_day r = d) (results_of cid db) else [])"
proof (cases "a \<le> d \<and> d \<le> b")
  case True
  have "result_key r = (cid, d) \<and> cr_monitored_component_id r \<in> set ids \<and> day_start a \<le> utc_of (cr_checked_at r)
      \<and> utc_of (cr_checked_at r) < day_start (b + 1) \<longleftrightarrow> result_day r = d \<and> cr_monitored_component_id r = cid" for r
    using True assms day_start_mono [of a d] day_start_mono [of "d + 1" "b + 1"]
    by (auto simp: result_key_def result_day_def date_of_eq)
  then have "filter (\<lambda>r. (cr_monitored_component_id r \<in> set ids \<and> day_start a \<le> utc_of (cr_checked_at r)
      \<and> utc_of (cr_checked_at r) < day_start (b + 1)) \<and> result_key r = (cid, d)) (db_results db)
      = filter (\<lambda>r. cr_monitored_component_id r = cid \<and> result_day r = d) (db_results db)"
    by (intro filter_cong) blast+
  with True show ?thesis unfolding results_between_def results_of_def filter_filter by simp
next
  case False
  then have "day_start (d + 1) \<le> day_start a \<or> day_start (b + 1) \<le> day_start d"
    using day_start_mono by force
  with False show ?thesis
    by (auto simp: results_between_def result_key_def result_day_def date_of_eq filter_empty_conv)
qed

lemma map_of_fold_downtime:
  "distinct (map fst xs) \<Longrightarrow>
   map_of (fold (\<lambda>(k, secs) d. AList.update k (with_downtime (default_to empty_day_stats (map_of d k)) secs) d) xs D) k =
     (case map_of xs k of None \<Rightarrow> map_of D k
      | Some secs \<Rightarrow> Some (with_downtime (default_to empty_day_stats (map_of D k)) secs))"
proof (induction xs arbitrary: D)
  case (Cons x xs)
  obtain k' secs where x: "x = (k', secs)" by (cases x)
  show ?case
  proof (cases "k' = k")
    case True
    with Cons.prems have "map_of xs k = None" by (simp add: x map_of_eq_None_iff)
    with Cons True show ?thesis by (simp add: x update_conv')
  next
    case False
    with Cons show ?thesis by (simp add: x update_conv' split: option.splits)
  qed
qed simp

lemma map_of_map_value: "map_of (map (\<lambda>(k, v). (k, f k v)) xs) k = map_option (f k) (map_of xs k)"
  by (induction xs) auto

lemma day_downtime_lookup:
  "map_of (day_downtime db ids rstart s e now) (cid, d) =
     (let rs = results_between db ids s e; rk = filter (\<lambda>r. result_key r = (cid, d)) rs
      in if rk = [] then None
         else Some (compute_downtime_seconds (map timed rk) d now
           (case outcome_at_end_of_previous_day cid d rstart (last_outcomes_before db ids s) (events_by_key rs) of
              None \<Rightarrow> False | Some p \<Rightarrow> is_outage_outcome p)))"
proof -
  have split: "(\<lambda>((cid, d), es). ((cid, d), g cid d es)) = (\<lambda>(k, es). (k, g (fst k) (snd k) es))" for g :: "uuid \<Rightarrow> day \<Rightarrow> (instant \<times> string) list \<Rightarrow> int"
    by auto
  show ?thesis
    unfolding day_downtime_def Let_def split map_of_map_value events_by_key_lookup
    by (simp add: compute_downtime_of_events)
qed

lemma component_events_mem:
  "e \<in> set (component_events db cid) \<longleftrightarrow> (\<exists>r \<in> set (results_of cid db). e = timed r)"
  by (auto simp: component_events_def)

lemma map_sort_key_Nil: "map h (sort_key f xs) = [] \<longleftrightarrow> xs = []"
  by (metis length_0_conv length_map length_sort)

text \<open>Whether the component is down at midnight, as the code finds it out.\<close>

lemma carried_outage:
  assumes wf: "results_wf db" and cid: "cid \<in> set ids" and d: "a \<le> d" "d \<le> b"
    and dist: "distinct (map fst (component_events db cid))"
    and carry: "d = a \<or> (\<exists>r \<in> set (results_of cid db). result_day r = d - 1)"
  shows "(case outcome_at_end_of_previous_day cid d a (last_outcomes_before db ids (day_start a))
              (events_by_key (results_between db ids (day_start a) (day_start (b + 1)))) of
            None \<Rightarrow> False | Some p \<Rightarrow> is_outage_outcome p) =
     outage_at (component_events db cid) False (day_start d - 1)"
proof (cases "d = a")
  case True
  have out: "outcome_at_end_of_previous_day cid d a (last_outcomes_before db ids (day_start a))
      (events_by_key (results_between db ids (day_start a) (day_start (b + 1)))) =
      map_option cr_outcome (latest_check cid (Some (day_start a)) db)"
    using True by (simp add: outcome_at_end_of_previous_day_def events_by_key_lookup results_between_key [OF cid]
        last_outcomes_before_latest [OF wf cid])
  show ?thesis
  proof (cases "latest_check cid (Some (day_start a)) db")
    case None
    have "day_start d - 1 < fst e" if "e \<in> set (component_events db cid)" for e
      using that latest_before_None [OF None] True by (force simp: component_events_mem timed_def)
    then have "outage_at (component_events db cid) False (day_start d - 1) = False" by (rule outage_at_none)
    with out None show ?thesis by simp
  next
    case (Some r)
    have "outage_at (component_events db cid) False (day_start d - 1) = is_outage_outcome (snd (timed r))"
    proof (rule outage_at_latest [OF _ _ _ dist])
      show "timed r \<in> set (component_events db cid)" using latest_check_mem [OF Some] by (auto simp: component_events_mem)
      show "fst (timed r) \<le> day_start d - 1" using latest_before_Some(1) [OF Some] True by (simp add: timed_def)
      show "fst e' \<le> fst (timed r)" if "e' \<in> set (component_events db cid)" "fst e' \<le> day_start d - 1" for e'
        using that latest_before_Some(2) [OF Some] True by (auto simp: component_events_mem timed_def)
    qed
    with out Some show ?thesis by (simp add: timed_def)
  qed
next
  case False
  let ?P = "filter (\<lambda>r. result_day r = d - 1) (results_of cid db)"
  let ?es = "map (\<lambda>r. (utc_of (cr_checked_at r), down_or_up (cr_outcome r))) (sort_key (\<lambda>r. utc_of (cr_checked_at r)) ?P)"
  from False carry have P: "?P \<noteq> []" by (auto simp: filter_empty_conv)
  have key: "filter (\<lambda>r. result_key r = (cid, d - 1)) (results_between db ids (day_start a) (day_start (b + 1))) = ?P"
    using False d by (simp add: results_between_key [OF cid])
  from P have ne: "?es \<noteq> []" unfolding map_sort_key_Nil .
  then obtain e0 es0 where cons: "?es = e0 # es0" by (metis list.exhaust)
  obtain m where m: "m = max_by_time ?es" by simp
  have out: "outcome_at_end_of_previous_day cid d a (last_outcomes_before db ids (day_start a))
      (events_by_key (results_between db ids (day_start a) (day_start (b + 1)))) = Some (snd m)"
    unfolding outcome_at_end_of_previous_day_def events_by_key_lookup key Let_def using P cons m by simp
  have max: "m \<in> set ?es" "\<And>e. e \<in> set ?es \<Longrightarrow> fst e \<le> fst m"
    using max_by_time_latest [OF ne] m by blast+
  then obtain r where r: "r \<in> set ?P" "m = (utc_of (cr_checked_at r), down_or_up (cr_outcome r))" by auto
  have "outage_at (component_events db cid) False (day_start d - 1) = is_outage_outcome (snd (timed r))"
  proof (rule outage_at_latest [OF _ _ _ dist])
    show "timed r \<in> set (component_events db cid)" using r(1) by (auto simp: component_events_mem)
    have "day_start (d - 1) \<le> utc_of (cr_checked_at r) \<and> utc_of (cr_checked_at r) < day_start d"
      using r(1) date_of_eq [of "utc_of (cr_checked_at r)" "d - 1"] by (simp add: result_day_def)
    then show "fst (timed r) \<le> day_start d - 1" by (simp add: timed_def)
    fix e' assume e': "e' \<in> set (component_events db cid)" "fst e' \<le> day_start d - 1"
    then obtain r' where r': "r' \<in> set (results_of cid db)" "e' = timed r'" by (auto simp: component_events_mem)
    show "fst e' \<le> fst (timed r)"
    proof (cases "result_day r' = d - 1")
      case True
      with r' max(2) [of "(utc_of (cr_checked_at r'), down_or_up (cr_outcome r'))"] r(2) show ?thesis
        by (simp add: timed_def)
    next
      case False
      with e'(2) r'(2) have "utc_of (cr_checked_at r') < day_start (d - 1)"
        using date_of_eq [of "utc_of (cr_checked_at r')" "d - 1"] by (simp add: result_day_def timed_def)
      with \<open>day_start (d - 1) \<le> utc_of (cr_checked_at r) \<and> utc_of (cr_checked_at r) < day_start d\<close> r'(2)
      show ?thesis by (simp add: timed_def)
    qed
  qed
  with out r(2) show ?thesis by (simp add: timed_def)
qed

text \<open>After a day without any check, unless the day is the first of the range, no state is carried over.\<close>

lemma carried_state:
  assumes "results_wf db" "cid \<in> set ids" "a \<le> d" "d \<le> b" "distinct (map fst (component_events db cid))"
  shows "(case outcome_at_end_of_previous_day cid d a (last_outcomes_before db ids (day_start a))
              (events_by_key (results_between db ids (day_start a) (day_start (b + 1)))) of
            None \<Rightarrow> False | Some p \<Rightarrow> is_outage_outcome p) \<longleftrightarrow>
     (d = a \<or> (\<exists>r \<in> set (results_of cid db). result_day r = d - 1)) \<and> outage_at (component_events db cid) False (day_start d - 1)"
proof (cases "d = a \<or> (\<exists>r \<in> set (results_of cid db). result_day r = d - 1)")
  case True
  from carried_outage [OF assms this] True show ?thesis by simp
next
  case False
  then have "filter (\<lambda>r. result_key r = (cid, d - 1)) (results_between db ids (day_start a) (day_start (b + 1))) = []"
    using assms(3,4) by (simp add: results_between_key [OF assms(2)] filter_empty_conv)
  with False show ?thesis by (simp add: outcome_at_end_of_previous_day_def events_by_key_lookup)
qed

lemma with_downtime_from_outcomes: "with_downtime (from_outcomes os x) y = from_outcomes os y"
  by (simp add: with_downtime_def from_outcomes_def day_check_counts_def)

lemma keys_of_day_downtime: "distinct (map fst (day_downtime db ids a s e now))"
proof -
  have "map fst (day_downtime db ids a s e now) = remdups (map result_key (results_between db ids s e))"
    by (simp add: day_downtime_def events_by_key_def Let_def comp_def case_prod_unfold)
  then show ?thesis by simp
qed

text \<open>
  C8. The statistics of a day with checks are those of the component's stored checks of that UTC day, and their downtime starts
  from the state carried over midnight: for the first day of the range, and for a day whose preceding day has a check, that is
  the state the last check ever stored before midnight reported. For a day in the range whose preceding day has no check nothing
  is carried over and the day starts as "not down", even if the last check before it failed (see \<open>outage_lost_after_gap_day\<close>).
  The times of the component's checks are taken to be distinct.
\<close>

theorem day_downtime_from_midnight_state:
  fixes db :: database and cid :: uuid and d :: day and ids :: "uuid list"
  defines "day_events \<equiv> filter (\<lambda>e. date_of (fst e) = d) (component_events db cid)"
  assumes "results_wf db" and "cid \<in> set ids" and "a \<le> d" and "d \<le> b"
    and "distinct (map fst (component_events db cid))" and "day_events \<noteq> []"
  shows "stats_at (day_stats_by_component_day db ids a b True now) cid d =
     from_outcomes (map snd day_events)
       (compute_downtime_seconds day_events d now
          ((d = a \<or> (\<exists>e \<in> set (component_events db cid). date_of (fst e) = d - 1))
           \<and> outage_at (component_events db cid) False (day_start d - 1)))"
proof -
  let ?P = "filter (\<lambda>r. result_day r = d) (results_of cid db)"
  let ?rs = "results_between db ids (day_start a) (day_start (b + 1))"
  have key: "filter (\<lambda>r. result_key r = (cid, d)) ?rs = ?P"
    using assms by (simp add: results_between_key)
  have ev: "day_events = map timed ?P"
    by (simp add: day_events_def component_events_def filter_map comp_def timed_def result_day_def)
  with assms(7) have P: "?P \<noteq> []" by auto
  have snd: "map cr_outcome ?P = map snd day_events" by (simp add: ev timed_def)
  have "outcomes_of_key ?rs (cid, d) = map snd day_events"
    unfolding outcomes_of_key_def key by (rule snd)
  then have counts: "map_of (day_outcome_counts db ids (day_start a) (day_start (b + 1))) (cid, d) =
      Some (from_outcomes (map snd day_events) 0)"
    using assms(7) unfolding day_outcome_counts_def map_of_map_snd
    by (simp add: counts_of_key stats_of_counts_outcomes distinct_outcomes)
  have down: "map_of (day_downtime db ids a (day_start a) (day_start (b + 1)) now) (cid, d) =
      Some (compute_downtime_seconds day_events d now
        ((d = a \<or> (\<exists>e \<in> set (component_events db cid). date_of (fst e) = d - 1))
           \<and> outage_at (component_events db cid) False (day_start d - 1)))"
    using P unfolding day_downtime_lookup Let_def key ev carried_state [OF assms(2-6)]
    by (simp add: component_events_def timed_def result_day_def)
  from assms(3) have "ids \<noteq> []" by auto
  then show ?thesis
    unfolding stats_at_def day_stats_by_component_day_def Let_def
    by (simp add: map_of_fold_downtime [OF keys_of_day_downtime] down counts)
      (simp add: default_to_def with_downtime_from_outcomes)
qed


definition two_day_database :: database where
  \<comment> \<open>a check that failed on one day and one that passed on the next\<close>
  "two_day_database = empty_database\<lparr>db_results :=
     [sample_result\<lparr>cr_id := ''r0'', cr_checked_at := Aware 1699914200000000, cr_outcome := ''down''\<rparr>, sample_result]\<rparr>"

lemma two_day_database:
  "component_events two_day_database ''c1'' = [(1699914200000000, ''down''), (1700000600000000, ''up'')]"
  "results_wf two_day_database"
  by (simp_all add: component_events_def results_of_def two_day_database_def sample_result_def timed_def results_wf_def)

lemma day_downtime_from_midnight_state_witness:
  "st_downtime_seconds (stats_at (day_stats_by_component_day two_day_database [''c1''] 19674 19675 True 1700006400000000)
     ''c1'' 19675) = 80600"
proof -
  let ?ev = "component_events two_day_database ''c1''"
  have day: "filter (\<lambda>e. date_of (fst e) = 19675) ?ev = [(1700000600000000, ''up'')]"
    by (simp add: two_day_database date_of_def)
  have yesterday: "\<exists>e \<in> set ?ev. date_of (fst e) = 19675 - 1"
    by (simp add: two_day_database date_of_def)
  have outage: "outage_at ?ev False (day_start 19675 - 1)"
    by (simp add: two_day_database outage_at_def day_start_def is_outage_outcome_def OUTAGE_OUTCOMES_def)
  have "stats_at (day_stats_by_component_day two_day_database [''c1''] 19674 19675 True 1700006400000000) ''c1'' 19675 =
      from_outcomes [''up''] (compute_downtime_seconds [(1700000600000000, ''up'')] 19675 1700006400000000 True)"
    using day_downtime_from_midnight_state [of two_day_database "''c1''" "[''c1'']" 19674 19675 19675 1700006400000000]
      yesterday day outage by (simp add: two_day_database)
  then show ?thesis
    by (simp add: from_outcomes_def day_check_counts_def compute_downtime_seconds_def day_start_def
        is_outage_outcome_def OUTAGE_OUTCOMES_def int_total_seconds_def)
qed

text \<open>After a day without checks the outage is not carried over: the code starts the next day as "not down".\<close>

definition gap_database :: database where
  "gap_database = empty_database\<lparr>db_results :=
     [sample_result\<lparr>cr_id := ''r0'', cr_checked_at := Aware 1699827800000000, cr_outcome := ''down''\<rparr>, sample_result]\<rparr>"

lemma outage_lost_after_gap_day:
  "outage_at (component_events gap_database ''c1'') False (day_start 19675 - 1)
   \<and> st_downtime_seconds (stats_at (day_stats_by_component_day gap_database [''c1''] 19673 19675 True 1700006400000000)
        ''c1'' 19675) = 0"
proof
  show "outage_at (component_events gap_database ''c1'') False (day_start 19675 - 1)"
    by (simp add: component_events_def results_of_def gap_database_def sample_result_def timed_def outage_at_def
        day_start_def is_outage_outcome_def OUTAGE_OUTCOMES_def)
  have rs: "results_between gap_database [''c1''] (day_start 19673) (day_start (19675 + 1)) = db_results gap_database"
    by (simp add: results_between_def gap_database_def sample_result_def day_start_def)
  have k: "filter (\<lambda>r. result_key r = (''c1'', 19675)) (db_results gap_database) = [sample_result]"
    "filter (\<lambda>r. result_key r = (''c1'', 19674)) (db_results gap_database) = []"
    by (simp_all add: gap_database_def sample_result_def result_key_def result_day_def date_of_def)
  have "map_of (day_downtime gap_database [''c1''] 19673 (day_start 19673) (day_start (19675 + 1)) 1700006400000000) (''c1'', 19675)
      = Some 0"
    unfolding day_downtime_lookup Let_def rs k outcome_at_end_of_previous_day_def events_by_key_lookup
    by (simp add: k timed_def sample_result_def compute_downtime_seconds_def is_outage_outcome_def OUTAGE_OUTCOMES_def)
  then show "st_downtime_seconds (stats_at (day_stats_by_component_day gap_database [''c1''] 19673 19675 True 1700006400000000)
        ''c1'' 19675) = 0"
    by (simp add: stats_at_def day_stats_by_component_day_def Let_def map_of_fold_downtime [OF keys_of_day_downtime])
      (simp add: default_to_def with_downtime_def)
qed

section \<open>Lemmas: merging and summing\<close>

lemma merge_status_max: "merge_status a b = max a b"
  by (cases a; cases b) (simp_all add: merge_status_def max_def less_eq_day_status_def)

lemma No_data_least [simp]: "No_data \<le> s"
  by (simp add: less_eq_day_status_def)

lemma fold_product: "fold f (List.product xs ys) s = fold (\<lambda>x. fold (\<lambda>y. f (x, y)) ys) xs s"
  by (induction xs arbitrary: s) (simp_all add: fold_map comp_def)

lemma merge_days_lookup:
  "distinct ys \<Longrightarrow>
   map_of (fold (\<lambda>d m. AList.update d (merge_status (default_to No_data (map_of m d)) (g d)) m) ys m) d =
     (if d \<in> set ys then Some (max (default_to No_data (map_of m d)) (g d)) else map_of m d)"
  by (induction ys arbitrary: m) (auto simp: update_conv' merge_status_max)

lemma merge_components_lookup:
  assumes "distinct ys" and "d \<in> set ys"
  shows "map_of (fold (\<lambda>cid. fold (\<lambda>d m. AList.update d (merge_status (default_to No_data (map_of m d)) (g cid d)) m) ys) cids m) d =
     (if cids = [] then map_of m d else Some (fold (\<lambda>cid s. max s (g cid d)) cids (default_to No_data (map_of m d))))"
  using assms
proof (induction cids arbitrary: m)
  case (Cons cid cids)
  then show ?case by (simp add: merge_days_lookup)
qed simp

lemma fold_max_Max: "fold (\<lambda>x s. max s (g x)) xs s = Max (insert (s::'a::linorder) (g ` set xs))"
proof (induction xs arbitrary: s)
  case (Cons x xs)
  show ?case unfolding fold_simps Cons.IH
    by (cases "g ` set xs = {}") (simp_all add: max.assoc)
qed simp

text \<open>
  The status shown for a group on a day is the worst status of its components on that day (outage over
  degraded over operational over no data), and "no data" for an empty group.
\<close>

theorem group_day_status_is_worst:
  assumes "distinct days" and "d \<in> set days"
  shows "map_of (project_day_statuses cids days stats) d =
     Some (Max (insert No_data ((\<lambda>cid. status_from_stats (stats_at stats cid d)) ` set cids)))"
proof -
  have "map_of (map (\<lambda>d. (d, No_data)) days) d = Some No_data"
    using assms(2) by (simp add: map_of_map_key)
  then show ?thesis
    unfolding project_day_statuses_def fold_product case_prod_conv merge_components_lookup [OF assms]
    by (simp add: default_to_def fold_max_Max)
qed

lemma group_day_status_is_worst_witness:
  "map_of (project_day_statuses [''c1'', ''c2''] [19675] [((''c1'', 19675), from_outcomes [''up''] 0), ((''c2'', 19675), from_outcomes [''down''] 60)])
     19675 = Some Outage"
proof -
  have "status_from_stats (from_outcomes [''down''] 60) = Outage"
    by (simp add: from_outcomes_def day_check_counts_def status_from_stats_def availability_from_stats_def
        availability_from_counts_def status_from_availability_def OUTAGE_OUTCOMES_def DEGRADED_OUTCOMES_def)
  moreover have "s \<le> Outage" for s by (cases s) (simp_all add: less_eq_day_status_def)
  ultimately show ?thesis
    using group_day_status_is_worst [of "[19675]" 19675 "[''c1'', ''c2'']"
        "[((''c1'', 19675), from_outcomes [''up''] 0), ((''c2'', 19675), from_outcomes [''down''] 60)]"]
    by (simp add: stats_at_def default_to_def max_def)
qed

lemma date_range_loop: "date_range_loop n a b = map (\<lambda>i. a + int i) [0..<min n (nat (b - a + 1))]"
proof (induction n arbitrary: a)
  case (Suc n)
  show ?case
  proof (cases "a \<le> b")
    case True
    then have "nat (b - a + 1) = Suc (nat (b - (a + 1) + 1))" by simp
    then have "min (Suc n) (nat (b - a + 1)) = Suc (min n (nat (b - (a + 1) + 1)))" by simp
    with True Suc show ?thesis by (simp add: upt_conv_Cons map_Suc_upt [symmetric] comp_def algebra_simps del: upt_Suc)
  qed simp
qed simp

text \<open>
  The day keys of a range are all the days from the first to the last, each once and in order, so
  a timeline has one bar per day.
\<close>

theorem date_range_all_days:
  "set (date_range a b) = {a..b} \<and> distinct (date_range a b) \<and> sorted (date_range a b)
   \<and> length (date_range a b) = nat (b - a + 1)"
proof -
  have eq: "date_range a b = map (\<lambda>i. a + int i) [0..<nat (b - a + 1)]"
    by (simp add: date_range_def date_range_loop)
  have "set (date_range a b) = {a..b}"
  proof (intro equalityI subsetI)
    fix x assume "x \<in> {a..b}"
    then have "x = a + int (nat (x - a)) \<and> nat (x - a) < nat (b - a + 1)" by auto
    then show "x \<in> set (date_range a b)" unfolding eq by (metis atLeast0LessThan imageI lessThan_iff set_map set_upt)
  qed (auto simp: eq)
  then show ?thesis by (simp add: eq distinct_map inj_on_def sorted_map sorted_wrt_upt sorted_wrt_iff_nth_less)
qed

section \<open>Uptime over all checks\<close>

lemma from_outcomes_append: "from_outcomes (xs @ ys) (a + b) = add_stats (from_outcomes xs a) (from_outcomes ys b)"
  by (simp add: from_outcomes_def day_check_counts_def add_stats_def)

lemma from_outcomes_mset: "mset xs = mset ys \<Longrightarrow> from_outcomes xs c = from_outcomes ys c"
proof -
  assume eq: "mset xs = mset ys"
  have "length (filter P xs) = length (filter P ys)" for P
    using arg_cong [OF eq, of "\<lambda>m. size (filter_mset P m)"] by (simp flip: mset_filter)
  moreover have "length xs = length ys" using eq by (rule mset_eq_length)
  ultimately show ?thesis by (simp add: from_outcomes_def day_check_counts_def)
qed

lemma st_total_from_outcomes [simp]: "st_total (from_outcomes os c) = int (length os)"
  by (simp add: from_outcomes_def day_check_counts_def)

lemma sum_stats_outcomes:
  assumes "\<And>k. map_of m k = (if os k = [] then None else Some (from_outcomes (os k) 0))"
  shows "fold (\<lambda>k tot. case map_of m k of None \<Rightarrow> tot | Some s \<Rightarrow> if st_total s \<noteq> 0 then add_stats tot s else tot)
      ks (from_outcomes xs 0) = from_outcomes (xs @ concat (map os ks)) 0"
proof (induction ks arbitrary: xs)
  case (Cons k ks)
  have "from_outcomes (xs @ os k) 0 = add_stats (from_outcomes xs 0) (from_outcomes (os k) 0)"
    using from_outcomes_append [of xs "os k" 0 0] by simp
  from Cons [of "xs @ os k"] this Cons [of xs] show ?case by (simp add: assms)
qed simp

lemma mset_by_keys:
  "distinct ks \<Longrightarrow>
   mset (concat (map (\<lambda>k. map f (filter (\<lambda>r. key r = k) rs)) ks)) = mset (map f (filter (\<lambda>r. key r \<in> set ks) rs))"
proof (induction ks)
  case (Cons k ks)
  have "mset (filter (\<lambda>r. key r = k) rs) + mset (filter (\<lambda>r. key r \<in> set ks) rs) = mset (filter (\<lambda>r. key r \<in> set (k # ks)) rs)"
    using Cons.prems by (induction rs) auto
  from arg_cong [OF this, of "image_mset f"] Cons show ?case by simp
qed simp

lemma stats_by_key:
  "map_of (day_outcome_counts db ids s e) k =
     (if outcomes_of_key (results_between db ids s e) k = [] then None
      else Some (from_outcomes (outcomes_of_key (results_between db ids s e) k) 0))"
  unfolding day_outcome_counts_def map_of_map_snd by (simp add: counts_of_key stats_of_counts_outcomes distinct_outcomes)

lemma empty_from_outcomes: "empty_day_stats = from_outcomes [] 0"
  by (simp add: empty_day_stats_def from_outcomes_def day_check_counts_def)

lemma distinct_product_dates: "distinct ids \<Longrightarrow> distinct (List.product ids (date_range a b))"
  by (intro distinct_product) (simp_all add: date_range_def date_range_loop distinct_map inj_on_def)

lemma set_date_range: "d \<in> set (date_range a b) \<longleftrightarrow> a \<le> d \<and> d \<le> b"
proof -
  have "d \<in> set (date_range a b) \<longleftrightarrow> (\<exists>i. i < nat (b - a + 1) \<and> d = a + int i)"
    by (auto simp: date_range_def date_range_loop)
  also have "\<dots> \<longleftrightarrow> a \<le> d \<and> d \<le> b" by (auto intro: exI [of _ "nat (d - a)"])
  finally show ?thesis .
qed

text \<open>
  The uptime shown in the project list counts every check exactly once: the sum over the project's
  components and the days of the range is the statistics of the list of all outcomes stored for these
  components from the start of the first day to the end of the last.
\<close>

theorem project_uptime_counts_every_check:
  assumes "distinct ids"
  shows "sum_stats ids (date_range a b) (day_stats_by_component_day db ids a b False now) =
     from_outcomes (map cr_outcome (results_between db ids (day_start a) (day_start (b + 1)))) 0"
proof (cases "ids = []")
  case True
  then show ?thesis by (simp add: sum_stats_def results_between_def empty_from_outcomes)
next
  case False
  let ?rs = "results_between db ids (day_start a) (day_start (b + 1))" and ?ks = "List.product ids (date_range a b)"
  have "result_key r \<in> set ?ks" if r: "r \<in> set ?rs" for r
  proof -
    have "date_of (utc_of (cr_checked_at r)) = result_day r" by (simp add: result_day_def)
    then have "day_start (result_day r) \<le> utc_of (cr_checked_at r) \<and> utc_of (cr_checked_at r) < day_start (result_day r + 1)"
      by (simp only: date_of_eq)
    with r have "day_start a < day_start (result_day r + 1) \<and> day_start (result_day r) < day_start (b + 1)"
      by (auto simp: results_between_def)
    then have "a \<le> result_day r \<and> result_day r \<le> b" by (simp add: day_start_def)
    with r show ?thesis by (auto simp: result_key_def set_date_range results_between_def)
  qed
  then have all: "filter (\<lambda>r. result_key r \<in> set ?ks) ?rs = ?rs" by (simp add: filter_id_conv)
  have "sum_stats ids (date_range a b) (day_stats_by_component_day db ids a b False now) =
      from_outcomes ([] @ concat (map (outcomes_of_key ?rs) ?ks)) 0"
    using False unfolding sum_stats_def empty_from_outcomes day_stats_by_component_day_def Let_def
    by (simp only: if_False not_False_eq_True if_True sum_stats_outcomes [OF stats_by_key])
  also have "\<dots> = from_outcomes (map cr_outcome ?rs) 0"
  proof (rule from_outcomes_mset)
    show "mset ([] @ concat (map (outcomes_of_key ?rs) ?ks)) = mset (map cr_outcome ?rs)"
      unfolding outcomes_of_key_def append_Nil mset_by_keys [OF distinct_product_dates [OF assms]] all ..
  qed
  finally show ?thesis .
qed

lemma project_uptime_counts_every_check_witness:
  "sum_stats [''c1''] (date_range 19674 19675) (day_stats_by_component_day two_day_database [''c1''] 19674 19675 False 0) =
     from_outcomes [''down'', ''up''] 0"
  using project_uptime_counts_every_check [of "[''c1'']" 19674 19675 two_day_database 0]
  by (simp add: results_between_def two_day_database_def sample_result_def day_start_def)

end
