(* ===== verification/Timeline.thy ===== *)
theory Timeline
  imports DayStats NetworkSummary
begin

text \<open>
  The public status pages of \<open>src/app/services/public_status_service.py\<close>, with the DTOs of
  \<open>src/app/schemas/public_status.py\<close>: the incidents of a day, a day's bar, the groups of a project, the
  active alerts, and the three requests (project list, current status, timeline). A request reads the clock
  once here: \<open>now\<close> is an argument. \<open>ORDER BY name\<close> compares names as strings.
\<close>

section \<open>DTOs\<close>

record PublicProjectSummary =
  pps_id :: uuid
  pps_name :: string
  pps_slug :: string
  pps_description :: "string option"
  pps_uptime_percent :: "rat option"

record PublicServiceStatus =
  ss_id :: uuid
  ss_name :: string
  ss_slug :: string
  ss_description :: "string option"
  ss_environment :: "string option"
  ss_component_kind :: string
  ss_group_id :: "uuid option"
  ss_group_name :: "string option"
  ss_group_sort_order :: "int option"
  ss_status :: string
  ss_latency_ms :: "int option"
  ss_checked_at :: "py_datetime option"
  ss_network_summary :: "dict option"

record PublicServiceGroupStatus =
  sg_id :: "uuid option"
  sg_name :: string
  sg_sort_order :: int
  sg_services :: "PublicServiceStatus list"

record PublicProjectStatus =
  ps_id :: uuid
  ps_name :: string
  ps_slug :: string
  ps_description :: "string option"
  ps_groups :: "PublicServiceGroupStatus list"
  ps_services :: "PublicServiceStatus list"

record PublicDayIncident =
  pdi_title :: string
  pdi_message :: string
  pdi_status :: string
  pdi_posted_at :: instant
  pdi_starts_at :: "instant option"
  pdi_ends_at :: "instant option"
  pdi_service_name :: "string option"
  pdi_service_slug :: "string option"

record PublicDayBar =
  db_date :: day
  db_status :: day_status
  db_tooltip :: string
  db_check_count :: int
  db_failed_count :: int
  db_degraded_count :: int
  db_availability_percent :: "rat option"
  db_downtime_seconds :: int
  db_day_incidents :: "PublicDayIncident list"

record PublicServiceTimeline =
  tl_id :: uuid
  tl_name :: string
  tl_slug :: string
  tl_component_kind :: string
  tl_uptime_percent :: "rat option"
  tl_days :: "PublicDayBar list"

record PublicComponentGroupTimeline =
  tg_id :: "uuid option"
  tg_name :: string
  tg_sort_order :: int
  tg_component_count :: int
  tg_uptime_percent :: "rat option"
  tg_days :: "PublicDayBar list"
  tg_services :: "PublicServiceTimeline list"

record PublicActiveAlert =
  al_title :: string
  al_message :: string
  al_status :: string
  al_since :: "instant option"

record PublicSystemStatus =
  sys_project_id :: uuid
  sys_project_name :: string
  sys_project_slug :: string
  sys_range_start :: day
  sys_range_end :: day
  sys_range_label :: string
  sys_days :: int
  sys_groups :: "PublicComponentGroupTimeline list"
  sys_active_alerts :: "PublicActiveAlert list"

section \<open>Queries\<close>

definition get_project_by_slug :: "string \<Rightarrow> database \<Rightarrow> Project option" where
  "get_project_by_slug slug db = lookup_row pr_slug slug (db_projects db)"

definition list_active_projects :: "int \<Rightarrow> int \<Rightarrow> database \<Rightarrow> Project list \<times> int" where
  \<comment> \<open>\<open>list_active_paginated\<close>: the page and the total\<close>
  "list_active_projects offset limit db =
     (let active = filter pr_is_active (db_projects db)
      in (page offset limit (sort_desc pr_created_at active), int (length active)))"

definition component_group :: "database \<Rightarrow> MonitoredComponent \<Rightarrow> ComponentGroup option" where
  "component_group db c = (case mc_group_id c of None \<Rightarrow> None | Some g \<Rightarrow> lookup_row cg_id g (db_groups db))"

definition component_kind_name :: "database \<Rightarrow> MonitoredComponent \<Rightarrow> string" where
  \<comment> \<open>the foreign key is not null\<close>
  "component_kind_name db c =
     (case lookup_row ck_id (mc_component_kind_id c) (db_kinds db) of None \<Rightarrow> '''' | Some k \<Rightarrow> ck_name k)"

definition load_components :: "uuid \<Rightarrow> database \<Rightarrow> MonitoredComponent list" where
  "load_components project_id db =
     sort_key (\<lambda>c. (mc_sort_order c, mc_name c))
       (filter (\<lambda>c. mc_project_id c = project_id \<and> mc_is_active c) (db_components db))"

type_synonym latest_row = "string \<times> int option \<times> py_datetime option \<times> dict option"

definition latest_check_rows :: "uuid list \<Rightarrow> database \<Rightarrow> uuid \<Rightarrow> latest_row option" where
  "latest_check_rows component_ids db cid =
     map_option (\<lambda>r. (cr_outcome r, cr_latency_ms r, Some (cr_checked_at r), public_network_summary (details_of r)))
       (latest_by_component_ids db component_ids cid)"

definition incident_updates :: "database \<Rightarrow> Incident \<Rightarrow> IncidentUpdate list" where
  \<comment> \<open>\<open>incident.updates\<close>, newest first\<close>
  "incident_updates db i = sort_desc iu_posted_at (filter (\<lambda>u. iu_incident_id u = in_id i) (db_updates db))"

definition incident_component :: "database \<Rightarrow> Incident \<Rightarrow> MonitoredComponent option" where
  "incident_component db i =
     (case in_monitored_component_id i of None \<Rightarrow> None | Some cid \<Rightarrow> get_component cid db)"

definition load_timeline_incidents :: "uuid \<Rightarrow> day \<Rightarrow> day \<Rightarrow> database \<Rightarrow> Incident list" where
  "load_timeline_incidents project_id range_start range_end db =
     (let start_dt = day_start range_start; end_dt = day_start (range_end + 1)
      in sort_key in_starts_at
           (filter (\<lambda>i. in_project_id i = project_id \<and> in_starts_at i < end_dt
                        \<and> (case in_ends_at i of None \<Rightarrow> True | Some e \<Rightarrow> start_dt \<le> e)) (db_incidents db)))"

section \<open>Incidents of a day\<close>

definition incident_overlaps_day :: "Incident \<Rightarrow> day \<Rightarrow> instant \<Rightarrow> bool" where
  "incident_overlaps_day i d now =
     (let ds = day_start d; day_end = ds + usec_per_day; range_end = default_to now (in_ends_at i)
      in in_starts_at i < day_end \<and> ds \<le> range_end)"

definition incident_matches_scope :: "Incident \<Rightarrow> uuid option \<Rightarrow> uuid list option \<Rightarrow> bool" where
  "incident_matches_scope i component_id component_ids =
     (case in_monitored_component_id i of
        None \<Rightarrow> True
      | Some cid \<Rightarrow> (case component_id of
            Some c \<Rightarrow> cid = c
          | None \<Rightarrow> (case component_ids of Some cs \<Rightarrow> cid \<in> set cs | None \<Rightarrow> True)))"

definition day_update :: "IncidentUpdate list \<Rightarrow> day \<Rightarrow> IncidentUpdate option" where
  \<comment> \<open>the loop over \<open>sorted(updates)\<close> with its fall-back\<close>
  "day_update updates d =
     (let day_end = day_start (d + 1); sorted_updates = sort_key iu_posted_at updates;
          latest = fold (\<lambda>u latest. if iu_posted_at u < day_end then Some u else latest) sorted_updates None
      in if latest = None \<and> sorted_updates \<noteq> [] then Some (last sorted_updates) else latest)"

definition public_day_incident :: "database \<Rightarrow> day \<Rightarrow> Incident \<Rightarrow> PublicDayIncident" where
  "public_day_incident db d i =
     (let latest = day_update (incident_updates db i) d; component = incident_component db i
      in \<lparr>pdi_title = in_title i,
          pdi_message = (case latest of Some u \<Rightarrow> iu_message u | None \<Rightarrow> ''''),
          pdi_status = (case latest of Some u \<Rightarrow> iu_status u | None \<Rightarrow> ''update''),
          pdi_posted_at = (case latest of Some u \<Rightarrow> iu_posted_at u | None \<Rightarrow> in_starts_at i),
          pdi_starts_at = Some (in_starts_at i), pdi_ends_at = in_ends_at i,
          pdi_service_name = map_option mc_name component, pdi_service_slug = map_option mc_slug component\<rparr>)"

definition day_incidents_for ::
  "database \<Rightarrow> Incident list \<Rightarrow> day \<Rightarrow> uuid option \<Rightarrow> uuid list option \<Rightarrow> instant \<Rightarrow> PublicDayIncident list" where
  "day_incidents_for db incidents d component_id component_ids now =
     map (public_day_incident db d)
       (filter (\<lambda>i. incident_matches_scope i component_id component_ids \<and> incident_overlaps_day i d now) incidents)"

section \<open>Bars and labels\<close>

definition format_2f :: "rat \<Rightarrow> string" where
  \<comment> \<open>\<open>f\"{v:.2f}\"\<close>, the exact value rounded half to even\<close>
  "format_2f v =
     (let n = round_he (v * 100); m = nat (abs n)
      in (if v < 0 then ''-'' else '''') @ nat_str (m div 100) @ ''.'' @ pad 2 (m mod 100))"

definition build_day_bar :: "day \<Rightarrow> day_status \<Rightarrow> DayCheckStats \<Rightarrow> PublicDayIncident list \<Rightarrow> PublicDayBar" where
  "build_day_bar d st s incidents =
     (let availability = availability_from_stats s;
          summary = int_str (st_total s) @ '' checks: '' @ int_str (st_up s) @ '' ok''
             @ (if st_degraded s \<noteq> 0 then '', '' @ int_str (st_degraded s) @ '' degraded'' else '''')
             @ (if st_failed s \<noteq> 0 then '', '' @ int_str (st_failed s) @ '' failed'' else '''');
          parts = (if st_total s \<noteq> 0
                   then summary # (case availability of None \<Rightarrow> [] | Some v \<Rightarrow> [format_2f v @ ''% availability''])
                   else [''No checks''])
             @ (if incidents \<noteq> []
                then [nat_str (length incidents) @ '' incident'' @ (if length incidents \<noteq> 1 then ''s'' else '''')] else [])
      in \<lparr>db_date = d, db_status = st, db_tooltip = join ('' '' @ middle_dot @ '' '') parts,
          db_check_count = st_total s, db_failed_count = st_failed s, db_degraded_count = st_degraded s,
          db_availability_percent = availability, db_downtime_seconds = st_downtime_seconds s,
          db_day_incidents = incidents\<rparr>)"

definition format_range_label :: "day \<Rightarrow> day \<Rightarrow> string" where
  "format_range_label start_day end_day =
     (if year_of start_day = year_of end_day \<and> month_of start_day = month_of end_day then strftime_b_Y start_day
      else if year_of start_day = year_of end_day then strftime_b start_day @ en_dash @ strftime_b_Y end_day
      else strftime_b_Y start_day @ en_dash @ strftime_b_Y end_day)"

definition cased :: "char \<Rightarrow> bool" where "cased c \<longleftrightarrow> upper_char c \<noteq> lower_char c"

fun title_from :: "bool \<Rightarrow> string \<Rightarrow> string" where
  \<comment> \<open>\<open>str.title\<close>; the flag says that the previous character is a letter\<close>
  "title_from prev [] = []"
| "title_from prev (c # s) = (if prev then lower_char c else upper_char c) # title_from (cased c) s"

definition status_label :: "string \<Rightarrow> string" where
  "status_label outcome =
     (case map_of [(CheckOutcome_value UP, ''Operational''), (CheckOutcome_value DOWN, ''Outage''),
                   (CheckOutcome_value DEGRADED, ''Degraded''), (CheckOutcome_value TIMEOUT, ''Timeout''),
                   (CheckOutcome_value ERROR, ''Error'')] outcome of
        Some l \<Rightarrow> l | None \<Rightarrow> title_from False outcome)"

section \<open>Groups\<close>

definition bucket_by :: "('k \<times> 'v) list \<Rightarrow> ('k \<times> 'v list) list" where
  \<comment> \<open>\<open>defaultdict(list)\<close> filled by \<open>d[key].append(value)\<close>\<close>
  "bucket_by kvs = fold (\<lambda>(k, v) d. AList.update k (default_to [] (map_of d k) @ [v]) d) kvs []"

definition UNGROUPED_LABEL :: string where "UNGROUPED_LABEL = ''Ungrouped''"

type_synonym group_key = "int \<times> string \<times> uuid option"

definition group_key :: "database \<Rightarrow> MonitoredComponent \<Rightarrow> group_key" where
  "group_key db c =
     (case component_group db c of
        Some g \<Rightarrow> if cg_is_active g then (cg_sort_order g, cg_name g, Some (cg_id g)) else (10 ^ 9, UNGROUPED_LABEL, None)
      | None \<Rightarrow> (10 ^ 9, UNGROUPED_LABEL, None))"

definition sorted_keys :: "(group_key \<times> 'v list) list \<Rightarrow> group_key list" where
  "sorted_keys buckets = sort_key (\<lambda>(so, name, _). (so, lower name)) (map fst buckets)"

definition shown_sort_order :: "group_key \<Rightarrow> int" where
  "shown_sort_order k = (case k of (so, _, gid) \<Rightarrow> if gid \<noteq> None then so else 10 ^ 9)"

definition public_service_status :: "database \<Rightarrow> MonitoredComponent \<Rightarrow> latest_row option \<Rightarrow> PublicServiceStatus" where
  "public_service_status db c latest =
     (let active_group = (case component_group db c of Some g \<Rightarrow> if cg_is_active g then Some g else None | None \<Rightarrow> None)
      in \<lparr>ss_id = mc_id c, ss_name = mc_name c, ss_slug = mc_slug c, ss_description = mc_description c,
          ss_environment = mc_environment c, ss_component_kind = component_kind_name db c,
          ss_group_id = map_option cg_id active_group, ss_group_name = map_option cg_name active_group,
          ss_group_sort_order = map_option cg_sort_order active_group,
          ss_status = (case latest of Some (outcome, _) \<Rightarrow> outcome | None \<Rightarrow> ''unknown''),
          ss_latency_ms = (case latest of Some (_, latency, _) \<Rightarrow> latency | None \<Rightarrow> None),
          ss_checked_at = (case latest of Some (_, _, checked_at, _) \<Rightarrow> checked_at | None \<Rightarrow> None),
          ss_network_summary = (case latest of Some (_, _, _, summary) \<Rightarrow> summary | None \<Rightarrow> None)\<rparr>)"

definition nest_services_by_group ::
  "database \<Rightarrow> PublicServiceStatus list \<Rightarrow> MonitoredComponent list \<Rightarrow> PublicServiceGroupStatus list" where
  "nest_services_by_group db services components =
     (let by_id = map_of (rev (map (\<lambda>s. (ss_id s, s)) services));
          buckets = bucket_by (List.map_filter (\<lambda>c. map_option (\<lambda>s. (group_key db c, s)) (by_id (mc_id c))) components)
      in map (\<lambda>k. \<lparr>sg_id = snd (snd k), sg_name = fst (snd k), sg_sort_order = shown_sort_order k,
                   sg_services = default_to [] (map_of buckets k)\<rparr>) (sorted_keys buckets))"

section \<open>Active alerts\<close>

definition component_alerts ::
  "MonitoredComponent list \<Rightarrow> (uuid \<Rightarrow> latest_row option) \<Rightarrow> PublicActiveAlert list \<times> string list
     \<Rightarrow> PublicActiveAlert list \<times> string list" where
  "component_alerts components latest_by_component acc =
     fold (\<lambda>c (alerts, seen). case latest_by_component (mc_id c) of
             None \<Rightarrow> (alerts, seen)
           | Some (outcome, _, checked_at, _) \<Rightarrow>
               let title = mc_name c @ '' '' @ em_dash @ '' '' @ status_label outcome
               in if (outcome \<in> set OUTAGE_OUTCOMES \<or> outcome \<in> set DEGRADED_OUTCOMES) \<and> title \<notin> set seen
                  then (alerts @ [\<lparr>al_title = title, al_message = ''Latest check reported '' @ outcome @ ''.'',
                                   al_status = outcome, al_since = map_option utc_of checked_at\<rparr>], title # seen)
                  else (alerts, seen)) components acc"

definition incident_alerts ::
  "database \<Rightarrow> Incident list \<Rightarrow> PublicActiveAlert list \<times> string list \<Rightarrow> PublicActiveAlert list \<times> string list" where
  "incident_alerts db incidents acc =
     fold (\<lambda>i (alerts, seen). case incident_updates db i of
             [] \<Rightarrow> (alerts, seen)
           | latest_update # _ \<Rightarrow>
               if iu_status latest_update \<notin> set ACTIVE_INCIDENT_STATUSES then (alerts, seen)
               else if in_title i \<in> set seen then (alerts, seen)
               else (alerts @ [\<lparr>al_title = in_title i, al_message = iu_message latest_update,
                                al_status = iu_status latest_update, al_since = Some (iu_posted_at latest_update)\<rparr>],
                     in_title i # seen)) incidents acc"

definition active_alerts ::
  "uuid \<Rightarrow> MonitoredComponent list \<Rightarrow> (uuid \<Rightarrow> latest_row option) \<Rightarrow> database \<Rightarrow> PublicActiveAlert list" where
  "active_alerts project_id components latest_by_component db =
     fst (incident_alerts db (sort_desc in_created_at (filter (\<lambda>i. in_project_id i = project_id) (db_incidents db)))
            (component_alerts components latest_by_component ([], [])))"

section \<open>Requests\<close>

definition list_projects :: "int \<Rightarrow> int \<Rightarrow> instant \<Rightarrow> database \<Rightarrow> PublicProjectSummary list" where
  "list_projects limit days now db =
     (let range_end = date_of now; range_start = range_end - (days - 1); day_keys = date_range range_start range_end
      in map (\<lambda>p. let component_ids = map mc_id (load_components (pr_id p) db);
                      checks = day_stats_by_component_day db component_ids range_start range_end False now
                  in \<lparr>pps_id = pr_id p, pps_name = pr_name p, pps_slug = pr_slug p, pps_description = pr_description p,
                      pps_uptime_percent = availability_from_stats (sum_stats component_ids day_keys checks)\<rparr>)
           (fst (list_active_projects 0 limit db)))"

definition active_project :: "string \<Rightarrow> database \<Rightarrow> Project res" where
  \<comment> \<open>the guard all public requests start with\<close>
  "active_project slug db =
     (case get_project_by_slug slug db of
        Some p \<Rightarrow> if pr_is_active p then Inr p else Inl (HTTPException 404 ''Project not found'')
      | None \<Rightarrow> Inl (HTTPException 404 ''Project not found''))"

definition get_project_status :: "string \<Rightarrow> database \<Rightarrow> PublicProjectStatus res" where
  "get_project_status slug db =
     (case active_project slug db of
        Inl e \<Rightarrow> Inl e
      | Inr p \<Rightarrow>
          let components = load_components (pr_id p) db;
              latest = latest_check_rows (map mc_id components) db;
              services = map (\<lambda>c. public_service_status db c (latest (mc_id c))) components
          in Inr \<lparr>ps_id = pr_id p, ps_name = pr_name p, ps_slug = pr_slug p, ps_description = pr_description p,
                  ps_groups = nest_services_by_group db services components, ps_services = services\<rparr>)"

definition service_timeline ::
  "database \<Rightarrow> (day_key \<times> DayCheckStats) list \<Rightarrow> day list \<Rightarrow> Incident list \<Rightarrow> instant \<Rightarrow> MonitoredComponent
     \<Rightarrow> PublicServiceTimeline" where
  "service_timeline db checks day_keys incidents now c =
     (let service_stats = fold (\<lambda>d s. add_stats s (stats_at checks (mc_id c) d)) day_keys empty_day_stats
      in \<lparr>tl_id = mc_id c, tl_name = mc_name c, tl_slug = mc_slug c, tl_component_kind = component_kind_name db c,
          tl_uptime_percent = availability_from_stats service_stats,
          tl_days = map (\<lambda>d. let s = stats_at checks (mc_id c) d
                             in build_day_bar d (status_from_stats s) s
                                  (day_incidents_for db incidents d (Some (mc_id c)) None now)) day_keys\<rparr>)"

definition group_timeline ::
  "database \<Rightarrow> (day_key \<times> DayCheckStats) list \<Rightarrow> day list \<Rightarrow> Incident list \<Rightarrow> instant
     \<Rightarrow> group_key \<times> MonitoredComponent list \<Rightarrow> PublicComponentGroupTimeline" where
  "group_timeline db checks day_keys incidents now g =
     (let (key, members) = g;
          group_components = sort_key (\<lambda>c. (mc_sort_order c, lower (mc_name c))) members;
          ids = map mc_id group_components;
          group_day_statuses = project_day_statuses ids day_keys checks
      in \<lparr>tg_id = snd (snd key), tg_name = fst (snd key), tg_sort_order = shown_sort_order key,
          tg_component_count = int (length group_components),
          tg_uptime_percent = availability_from_stats (sum_stats ids day_keys checks),
          tg_days = map (\<lambda>d. build_day_bar d (default_to No_data (map_of group_day_statuses d))
                               (with_downtime (sum_stats ids [d] checks) (max_downtime_for_day ids d checks))
                               (day_incidents_for db incidents d None (Some ids) now)) day_keys,
          tg_services = map (service_timeline db checks day_keys incidents now) group_components\<rparr>)"

definition get_system_status :: "string \<Rightarrow> day option \<Rightarrow> int \<Rightarrow> instant \<Rightarrow> database \<Rightarrow> PublicSystemStatus res" where
  "get_system_status slug end_day days now db =
     (case active_project slug db of
        Inl e \<Rightarrow> Inl e
      | Inr p \<Rightarrow>
          let range_end = default_to (date_of now) end_day;
              range_start = range_end - (days - 1);
              day_keys = date_range range_start range_end;
              components = load_components (pr_id p) db;
              component_ids = map mc_id components;
              checks = day_stats_by_component_day db component_ids range_start range_end True now;
              incidents = load_timeline_incidents (pr_id p) range_start range_end db;
              buckets = bucket_by (map (\<lambda>c. (group_key db c, c)) components);
              latest = latest_check_rows component_ids db
          in Inr \<lparr>sys_project_id = pr_id p, sys_project_name = pr_name p, sys_project_slug = pr_slug p,
                  sys_range_start = range_start, sys_range_end = range_end,
                  sys_range_label = format_range_label range_start range_end, sys_days = days,
                  sys_groups = map (\<lambda>k. group_timeline db checks day_keys incidents now (k, default_to [] (map_of buckets k)))
                                 (sorted_keys buckets),
                  sys_active_alerts = active_alerts (pr_id p) components latest db\<rparr>)"

section \<open>Incidents are shown on the days they overlap\<close>

lemma incident_overlaps_day_dates:
  "incident_overlaps_day i d now \<longleftrightarrow> date_of (in_starts_at i) \<le> d \<and> d \<le> date_of (default_to now (in_ends_at i))"
proof -
  have lt: "t < day_start d + usec_per_day \<longleftrightarrow> date_of t \<le> d" for t
    using date_of_eq [of t "date_of t"] by (auto simp: day_start_def)
  have ge: "day_start d \<le> t \<longleftrightarrow> d \<le> date_of t" for t
    using date_of_eq [of t "date_of t"] by (auto simp: day_start_def)
  show ?thesis unfolding incident_overlaps_day_def Let_def lt ge ..
qed

lemma filter_sort_key_subset:
  "(\<And>x. x \<in> set xs \<Longrightarrow> P x \<Longrightarrow> Q x) \<Longrightarrow>
   filter P (sort_key f (filter Q xs)) = sort_key f (filter P xs)"
proof -
  assume sub: "\<And>x. x \<in> set xs \<Longrightarrow> P x \<Longrightarrow> Q x"
  have "filter P (filter Q xs) = filter P xs"
    unfolding filter_filter by (rule filter_cong) (use sub in auto)
  then show ?thesis by (simp only: filter_sort)
qed

text \<open>
  C17. On every day of the visible range the timeline shows exactly the project's incidents in scope whose
  UTC dates, from the start to the end (or to today), include that day, in the order they started: the
  query for the whole range loses none of them.
\<close>

theorem day_shows_overlapping_incidents:
  assumes "a \<le> d" and "d \<le> b"
  shows "day_incidents_for db (load_timeline_incidents pid a b db) d c cs now =
     map (public_day_incident db d) (sort_key in_starts_at
       (filter (\<lambda>i. in_project_id i = pid \<and> incident_matches_scope i c cs
                    \<and> date_of (in_starts_at i) \<le> d \<and> d \<le> date_of (default_to now (in_ends_at i))) (db_incidents db)))"
proof -
  have pre: "in_starts_at i < day_start (b + 1) \<and> (case in_ends_at i of None \<Rightarrow> True | Some e \<Rightarrow> day_start a \<le> e)"
    if "incident_overlaps_day i d now" for i
    using that assms day_start_mono [OF assms(1)] day_start_mono [of "d + 1" "b + 1"]
    by (auto simp: incident_overlaps_day_def Let_def default_to_def day_start_def split: option.splits)
  have "filter (\<lambda>i. incident_matches_scope i c cs \<and> incident_overlaps_day i d now) (load_timeline_incidents pid a b db) =
      filter (\<lambda>i. in_project_id i = pid \<and> incident_matches_scope i c cs \<and> incident_overlaps_day i d now)
        (load_timeline_incidents pid a b db)"
    by (rule filter_cong) (auto simp: load_timeline_incidents_def)
  also have "\<dots> = sort_key in_starts_at
      (filter (\<lambda>i. in_project_id i = pid \<and> incident_matches_scope i c cs \<and> incident_overlaps_day i d now) (db_incidents db))"
    unfolding load_timeline_incidents_def Let_def by (rule filter_sort_key_subset) (use pre in auto)
  finally show ?thesis by (simp only: day_incidents_for_def incident_overlaps_day_dates)
qed

definition sample_incident :: Incident where
  "sample_incident = \<lparr>in_id = ''i1'', in_project_id = ''p1'', in_monitored_component_id = None, in_title = ''Outage'',
     in_starts_at = 1699914200000000, in_ends_at = None, in_created_at = 1699914200000000\<rparr>"

lemma day_shows_overlapping_incidents_witness:
  "map pdi_title (day_incidents_for (empty_database\<lparr>db_incidents := [sample_incident]\<rparr>)
     (load_timeline_incidents ''p1'' 19670 19675 (empty_database\<lparr>db_incidents := [sample_incident]\<rparr>)) 19675 None None 1700006400000000)
   = [''Outage'']"
  unfolding day_shows_overlapping_incidents [of 19670 19675 19675, simplified]
  by (simp add: sample_incident_def incident_matches_scope_def date_of_def default_to_def public_day_incident_def Let_def)

text \<open>The update shown for a day is the last one posted before the day ended; when all came later, the last of all.\<close>

lemma fold_last_matching:
  "fold (\<lambda>u latest. if P u then Some u else latest) us acc =
     (if filter P us = [] then acc else Some (last (filter P us)))"
  by (induction us arbitrary: acc) auto

lemma day_update_eq:
  "day_update us d =
     (let s = sort_key iu_posted_at us; before = filter (\<lambda>u. iu_posted_at u < day_start (d + 1)) s
      in if before \<noteq> [] then Some (last before) else if s \<noteq> [] then Some (last s) else None)"
  by (simp add: day_update_def fold_last_matching Let_def)

text \<open>
  A day never shows news from its future when it has news of its own: if an update was posted before the
  end of the day, the one shown was too, and no other update of that time is newer.
\<close>

theorem day_update_not_from_future:
  assumes "v \<in> set us" and "iu_posted_at v < day_start (d + 1)"
  shows "\<exists>u. day_update us d = Some u \<and> u \<in> set us \<and> iu_posted_at u < day_start (d + 1)
     \<and> (\<forall>w \<in> set us. iu_posted_at w < day_start (d + 1) \<longrightarrow> iu_posted_at w \<le> iu_posted_at u)"
proof -
  define before where "before = filter (\<lambda>u. iu_posted_at u < day_start (d + 1)) (sort_key iu_posted_at us)"
  have v: "v \<in> set before" using assms by (simp add: before_def)
  then have ne: "before \<noteq> []" by auto
  then have "last before \<in> set before" by simp
  moreover have "sorted (map iu_posted_at before)" by (simp add: before_def sorted_filter)
  then have "iu_posted_at w \<le> iu_posted_at (last before)" if "w \<in> set before" for w
    using that by (rule last_of_sorted)
  moreover have "day_update us d = Some (last before)"
    using ne by (simp add: day_update_eq Let_def flip: before_def)
  ultimately show ?thesis by (auto simp: before_def)
qed

definition sample_update :: IncidentUpdate where
  "sample_update = \<lparr>iu_id = ''u1'', iu_incident_id = ''i1'', iu_message = ''We look into it'', iu_status = ''investigating'',
     iu_posted_at = 1699914200000000\<rparr>"

lemma day_update_not_from_future_witness:
  "day_update [sample_update\<lparr>iu_posted_at := 1700006400000000\<rparr>, sample_update] 19674 = Some sample_update"
proof -
  let ?later = "sample_update\<lparr>iu_posted_at := 1700006400000000\<rparr>"
  have "iu_posted_at sample_update < day_start (19674 + 1)" by (simp add: sample_update_def day_start_def)
  moreover have "\<not> iu_posted_at ?later < day_start (19674 + 1)" by (simp add: sample_update_def day_start_def)
  ultimately show ?thesis using day_update_not_from_future [of sample_update "[?later, sample_update]" 19674] by auto
qed

section \<open>Groups partition the services\<close>

lemma bucket_by_keys_distinct: "distinct (map fst d) \<Longrightarrow> distinct (map fst (fold (\<lambda>(k, v) d. AList.update k (default_to [] (map_of d k) @ [v]) d) kvs d))"
  by (induction kvs arbitrary: d) (auto simp: distinct_update)

lemma bucket_fold_lookup:
  "map_of (fold (\<lambda>(k, v) d. AList.update k (default_to [] (map_of d k) @ [v]) d) kvs d) k =
     (if filter (\<lambda>p. fst p = k) kvs = [] then map_of d k
      else Some (default_to [] (map_of d k) @ map snd (filter (\<lambda>p. fst p = k) kvs)))"
proof (induction kvs arbitrary: d)
  case (Cons p kvs)
  obtain k' v where p: "p = (k', v)" by (cases p)
  show ?case
  proof (cases "k' = k")
    case True
    then show ?thesis unfolding p by (simp add: Cons update_conv')
  next
    case False
    then show ?thesis unfolding p by (simp add: Cons update_conv')
  qed
qed simp

lemma bucket_by_lookup: "default_to [] (map_of (bucket_by kvs) k) = map snd (filter (\<lambda>p. fst p = k) kvs)"
  unfolding bucket_by_def bucket_fold_lookup by (simp add: default_to_def)

lemma sorted_keys_bucket_by: "distinct (sorted_keys (bucket_by kvs)) \<and> set (sorted_keys (bucket_by kvs)) = fst ` set kvs"
proof
  show "distinct (sorted_keys (bucket_by kvs))"
    unfolding sorted_keys_def bucket_by_def distinct_sort by (rule bucket_by_keys_distinct) simp
  have "k \<in> fst ` set (bucket_by kvs) \<longleftrightarrow> k \<in> fst ` set kvs" for k
  proof -
    have "k \<in> fst ` set (bucket_by kvs) \<longleftrightarrow> map_of (bucket_by kvs) k \<noteq> None"
      by (simp add: map_of_eq_None_iff)
    also have "\<dots> \<longleftrightarrow> k \<in> fst ` set kvs"
      unfolding bucket_by_def bucket_fold_lookup by (force simp: filter_empty_conv)
    finally show ?thesis .
  qed
  then have "fst ` set (bucket_by kvs) = fst ` set kvs" by (rule set_eqI)
  then show "set (sorted_keys (bucket_by kvs)) = fst ` set kvs" by (simp add: sorted_keys_def)
qed

lemma mset_buckets:
  "mset (concat (map (\<lambda>k. default_to [] (map_of (bucket_by kvs) k)) (sorted_keys (bucket_by kvs)))) = mset (map snd kvs)"
proof -
  note ks = sorted_keys_bucket_by [of kvs]
  have "filter (\<lambda>p. fst p \<in> set (sorted_keys (bucket_by kvs))) kvs = kvs"
    using ks by (simp add: filter_id_conv)
  then show ?thesis
    unfolding bucket_by_lookup mset_by_keys [OF conjunct1 [OF ks]] by simp
qed

text \<open>A group's identifier determines its key, so no group is listed twice.\<close>

lemma group_key_by_id: "snd (snd (group_key db c)) = snd (snd (group_key db c')) \<Longrightarrow> group_key db c = group_key db c'"
proof -
  have "map_option (\<lambda>g. lookup_row cg_id g (db_groups db)) (snd (snd (group_key db c))) =
      (case component_group db c of Some g \<Rightarrow> if cg_is_active g then Some (component_group db c) else None | None \<Rightarrow> None)" for c
    by (auto simp: group_key_def component_group_def split: option.splits dest: lookup_row_key)
  from this [of c] this [of c'] show "snd (snd (group_key db c)) = snd (snd (group_key db c')) \<Longrightarrow> ?thesis"
    by (auto simp: group_key_def split: option.splits if_splits)
qed

lemma group_ids_distinct:
  assumes "fst ` set kvs \<subseteq> range (group_key db)"
  shows "distinct (map (\<lambda>k. snd (snd k)) (sorted_keys (bucket_by kvs)))"
proof -
  have "inj_on (\<lambda>k. snd (snd k)) (range (group_key db))" 
    using group_key_by_id by (intro inj_onI) blast
  with assms sorted_keys_bucket_by [of kvs] show ?thesis by (simp add: distinct_map inj_on_subset)
qed

lemma by_id_lookup:
  assumes "distinct (map g cs)" and "c \<in> set cs" and "\<And>x. ident (F x) = g x"
  shows "map_of (rev (map (\<lambda>s. (ident s, s)) (map F cs))) (g c) = Some (F c)"
proof -
  have "distinct (map fst (rev (map (\<lambda>s. (ident s, s)) (map F cs))))"
    using assms(1,3) by (simp add: comp_def flip: rev_map)
  moreover have "(g c, F c) \<in> set (rev (map (\<lambda>s. (ident s, s)) (map F cs)))"
    using assms(2,3) by force
  ultimately show ?thesis by simp
qed

lemma nest_services_pairs:
  assumes "distinct (map mc_id cs)"
  shows "List.map_filter (\<lambda>c. map_option (\<lambda>s. (group_key db c, s))
       (map_of (rev (map (\<lambda>s. (ss_id s, s)) (map (\<lambda>c. public_service_status db c (l (mc_id c))) cs))) (mc_id c))) cs =
     map (\<lambda>c. (group_key db c, public_service_status db c (l (mc_id c)))) cs"
proof -
  have "map_of (rev (map (\<lambda>s. (ss_id s, s)) (map (\<lambda>c. public_service_status db c (l (mc_id c))) cs))) (mc_id c) =
      Some (public_service_status db c (l (mc_id c)))" if "c \<in> set cs" for c
    using assms that by (rule by_id_lookup) (simp add: public_service_status_def Let_def)
  then show ?thesis by (simp add: List.map_filter_def filter_id_conv [THEN iffD2] cong: map_cong filter_cong)
qed

lemma load_components_distinct: "distinct (map mc_id (db_components db)) \<Longrightarrow> distinct (map mc_id (load_components pid db))"
proof -
  assume "distinct (map mc_id (db_components db))"
  then have "distinct (map mc_id (filter (\<lambda>c. mc_project_id c = pid \<and> mc_is_active c) (db_components db)))"
    by (rule Prelude.distinct_map_filter)
  moreover have "mset (map mc_id (load_components pid db)) =
      mset (map mc_id (filter (\<lambda>c. mc_project_id c = pid \<and> mc_is_active c) (db_components db)))"
    by (simp add: load_components_def)
  ultimately show ?thesis using mset_eq_imp_distinct_iff by blast
qed

text \<open>
  The status page of a project lists every active component once, and its groups hold exactly these
  services, each in one group, no group twice.
\<close>

theorem project_status_groups_partition:
  assumes "distinct (map mc_id (db_components db))" and "get_project_status slug db = Inr st"
  shows "mset (map ss_id (ps_services st)) = mset (map mc_id (filter (\<lambda>c. mc_project_id c = ps_id st \<and> mc_is_active c) (db_components db)))
    \<and> mset (concat (map sg_services (ps_groups st))) = mset (ps_services st)
    \<and> distinct (map sg_id (ps_groups st))"
proof -
  obtain p where p: "active_project slug db = Inr p" using assms(2) by (auto simp: get_project_status_def split: sum.splits)
  let ?cs = "load_components (pr_id p) db"
  let ?l = "latest_check_rows (map mc_id ?cs) db"
  let ?sv = "map (\<lambda>c. public_service_status db c (?l (mc_id c))) ?cs"
  let ?kvs = "map (\<lambda>c. (group_key db c, public_service_status db c (?l (mc_id c)))) ?cs"
  have st: "ps_services st = ?sv" "ps_id st = pr_id p" "ps_groups st = nest_services_by_group db ?sv ?cs"
    using assms(2) p by (auto simp: get_project_status_def Let_def)
  have groups: "ps_groups st = map (\<lambda>k. \<lparr>sg_id = snd (snd k), sg_name = fst (snd k), sg_sort_order = shown_sort_order k,
       sg_services = default_to [] (map_of (bucket_by ?kvs) k)\<rparr>) (sorted_keys (bucket_by ?kvs))"
    unfolding st(3) nest_services_by_group_def Let_def nest_services_pairs [OF load_components_distinct [OF assms(1)]] ..
  have "map ss_id ?sv = map mc_id ?cs" by (simp add: public_service_status_def Let_def)
  moreover have "mset (map mc_id ?cs) = mset (map mc_id (filter (\<lambda>c. mc_project_id c = pr_id p \<and> mc_is_active c) (db_components db)))"
    by (simp add: load_components_def)
  ultimately have ids: "mset (map ss_id ?sv) = mset (map mc_id (filter (\<lambda>c. mc_project_id c = pr_id p \<and> mc_is_active c) (db_components db)))" by (simp only:)
  have parts: "mset (concat (map sg_services (ps_groups st))) = mset ?sv"
    using mset_buckets [of ?kvs] unfolding groups by (simp add: comp_def)
  have "distinct (map (\<lambda>k. snd (snd k)) (sorted_keys (bucket_by ?kvs)))"
    by (rule group_ids_distinct [of _ db]) auto
  then have "distinct (map sg_id (ps_groups st))" unfolding groups by (simp add: comp_def)
  with ids parts st(1,2) show ?thesis by simp
qed

lemma project_status_groups_partition_witness:
  "\<exists>st. get_project_status ''p'' sample_database = Inr st
     \<and> mset (map ss_id (concat (map sg_services (ps_groups st)))) = {#''c1'', ''c2'', ''c3''#}"
proof -
  obtain st where st: "get_project_status ''p'' sample_database = Inr st" and id: "ps_id st = ''p1''"
    by (auto simp: get_project_status_def active_project_def get_project_by_slug_def lookup_row_def sample_database_def
        sample_project_def Let_def)
  have "distinct (map mc_id (db_components sample_database))" by (simp add: sample_database_def sample_component_def)
  from project_status_groups_partition [OF this st]
  have "mset (map ss_id (ps_services st)) = mset (map mc_id (filter (\<lambda>c. mc_project_id c = ''p1'' \<and> mc_is_active c) (db_components sample_database)))"
    and "image_mset ss_id (mset (concat (map sg_services (ps_groups st)))) = image_mset ss_id (mset (ps_services st))"
    by (simp_all add: id)
  then show ?thesis using st by (simp add: sample_database_def sample_component_def add.commute)
qed

section \<open>The timeline\<close>

lemma mset_concat_sorted:
  "mset (concat (map (\<lambda>k. map f (sort_key h (F k))) ks)) = mset (map f (concat (map F ks)))"
  by (induction ks) simp_all

lemma group_timeline_simps:
  "map tl_id (tg_services (group_timeline db checks ds incs now (k, cs))) =
     map mc_id (sort_key (\<lambda>c. (mc_sort_order c, lower (mc_name c))) cs)"
  "tg_component_count (group_timeline db checks ds incs now (k, cs)) =
     int (length (tg_services (group_timeline db checks ds incs now (k, cs))))"
  "map db_date (tg_days (group_timeline db checks ds incs now (k, cs))) = ds"
  "s \<in> set (tg_services (group_timeline db checks ds incs now (k, cs))) \<Longrightarrow> map db_date (tl_days s) = ds"
  "tg_id (group_timeline db checks ds incs now (k, cs)) = snd (snd k)"
  by (auto simp: group_timeline_def service_timeline_def build_day_bar_def Let_def comp_def)

text \<open>
  C27. The timeline page is complete: every active component of the project has exactly one service timeline,
  in one group, no group appears twice, and every service and every group has one bar for each of the
  requested number of days, in order, the last being the requested end (today by default).
\<close>

theorem timeline_complete:
  assumes "distinct (map mc_id (db_components db))" and "get_system_status slug end_day days now db = Inr st"
  shows "mset (concat (map (\<lambda>g. map tl_id (tg_services g)) (sys_groups st))) =
      mset (map mc_id (filter (\<lambda>c. mc_project_id c = sys_project_id st \<and> mc_is_active c) (db_components db)))
    \<and> distinct (map tg_id (sys_groups st))
    \<and> sys_range_end st = default_to (date_of now) end_day
    \<and> length (date_range (sys_range_start st) (sys_range_end st)) = nat days
    \<and> (\<forall>g \<in> set (sys_groups st). tg_component_count g = int (length (tg_services g))
         \<and> map db_date (tg_days g) = date_range (sys_range_start st) (sys_range_end st)
         \<and> (\<forall>s \<in> set (tg_services g). map db_date (tl_days s) = date_range (sys_range_start st) (sys_range_end st)))"
proof -
  obtain p where p: "active_project slug db = Inr p" using assms(2) by (auto simp: get_system_status_def split: sum.splits)
  let ?cs = "load_components (pr_id p) db" and ?e = "default_to (date_of now) end_day"
  let ?kvs = "map (\<lambda>c. (group_key db c, c)) ?cs"
  let ?ds = "date_range (?e - (days - 1)) ?e"
  let ?checks = "day_stats_by_component_day db (map mc_id ?cs) (?e - (days - 1)) ?e True now"
  let ?incs = "load_timeline_incidents (pr_id p) (?e - (days - 1)) ?e db"
  have groups: "sys_groups st = map (\<lambda>k. group_timeline db ?checks ?ds ?incs now (k, default_to [] (map_of (bucket_by ?kvs) k)))
      (sorted_keys (bucket_by ?kvs))"
    and st: "sys_project_id st = pr_id p" "sys_range_end st = ?e" "sys_range_start st = ?e - (days - 1)"
    using assms(2) p by (auto simp: get_system_status_def Let_def)
  have "mset (concat (map (\<lambda>g. map tl_id (tg_services g)) (sys_groups st))) =
      image_mset mc_id (mset (concat (map (\<lambda>k. default_to [] (map_of (bucket_by ?kvs) k)) (sorted_keys (bucket_by ?kvs)))))"
    unfolding groups map_map comp_def group_timeline_simps(1) mset_concat_sorted by (rule mset_map)
  also have "\<dots> = mset (map mc_id (filter (\<lambda>c. mc_project_id c = pr_id p \<and> mc_is_active c) (db_components db)))"
    unfolding mset_buckets by (simp add: comp_def load_components_def)
  finally have ids: "mset (concat (map (\<lambda>g. map tl_id (tg_services g)) (sys_groups st))) =
      mset (map mc_id (filter (\<lambda>c. mc_project_id c = pr_id p \<and> mc_is_active c) (db_components db)))" .
  have "distinct (map (\<lambda>k. snd (snd k)) (sorted_keys (bucket_by ?kvs)))"
    by (rule group_ids_distinct [of _ db]) auto
  then have dist: "distinct (map tg_id (sys_groups st))"
    unfolding groups by (simp add: comp_def group_timeline_simps(5))
  have len: "length ?ds = nat days" by (simp add: date_range_def date_range_loop)
  have bars: "\<forall>g \<in> set (sys_groups st). tg_component_count g = int (length (tg_services g))
      \<and> map db_date (tg_days g) = ?ds \<and> (\<forall>s \<in> set (tg_services g). map db_date (tl_days s) = ?ds)"
    unfolding groups by (auto simp: group_timeline_simps(2,3) dest: group_timeline_simps(4))
  show ?thesis unfolding st using ids dist len bars by blast
qed

lemma timeline_complete_witness:
  "\<exists>st. get_system_status ''p'' None 90 1700006400000000 sample_database = Inr st
     \<and> mset (concat (map (\<lambda>g. map tl_id (tg_services g)) (sys_groups st))) = {#''c1'', ''c2'', ''c3''#}
     \<and> (\<forall>g \<in> set (sys_groups st). length (tg_days g) = 90)"
proof -
  obtain st where st: "get_system_status ''p'' None 90 1700006400000000 sample_database = Inr st" and id: "sys_project_id st = ''p1''"
    by (auto simp: get_system_status_def active_project_def get_project_by_slug_def lookup_row_def sample_database_def
        sample_project_def Let_def)
  have "distinct (map mc_id (db_components sample_database))" by (simp add: sample_database_def sample_component_def)
  note tc = timeline_complete [OF this st]
  have "mset (concat (map (\<lambda>g. map tl_id (tg_services g)) (sys_groups st))) = {#''c1'', ''c2'', ''c3''#}"
    using conjunct1 [OF tc] by (simp add: id sample_database_def sample_component_def add.commute)
  moreover have "length (tg_days g) = 90" if "g \<in> set (sys_groups st)" for g
  proof -
    have "length (map db_date (tg_days g)) = nat 90" using tc that by metis
    then show ?thesis by simp
  qed
  ultimately show ?thesis using st by blast
qed

section \<open>Alerts\<close>

definition alerts_wf :: "PublicActiveAlert list \<times> string list \<Rightarrow> bool" where
  "alerts_wf acc \<longleftrightarrow> distinct (map al_title (fst acc)) \<and> set (map al_title (fst acc)) = set (snd acc)"

lemma alerts_wf_add: "alerts_wf (alerts, seen) \<Longrightarrow> al_title a \<notin> set seen \<Longrightarrow> alerts_wf (alerts @ [a], al_title a # seen)"
  by (auto simp: alerts_wf_def)

lemmas alerts_wf_adds = alerts_wf_add [where a = "\<lparr>al_title = t, al_message = m, al_status = s, al_since = w\<rparr>", simplified] for t m s w

lemma component_alerts_wf: "alerts_wf acc \<Longrightarrow> alerts_wf (component_alerts cs latest acc)"
  unfolding component_alerts_def
  by (rule fold_invariant [where Q = "\<lambda>_. True"]) (auto simp: Let_def intro: alerts_wf_adds split: option.splits prod.splits)

lemma incident_alerts_wf: "alerts_wf acc \<Longrightarrow> alerts_wf (incident_alerts db is acc)"
  unfolding incident_alerts_def
  by (rule fold_invariant [where Q = "\<lambda>_. True"]) (auto simp: Let_def intro: alerts_wf_adds split: list.splits)

lemma component_alerts_seen:
  "set (snd acc) \<subseteq> set (snd (component_alerts cs latest acc))"
  "c \<in> set cs \<Longrightarrow> latest (mc_id c) = Some (outcome, rest) \<Longrightarrow> outcome \<in> set OUTAGE_OUTCOMES \<or> outcome \<in> set DEGRADED_OUTCOMES
   \<Longrightarrow> mc_name c @ '' '' @ em_dash @ '' '' @ status_label outcome \<in> set (snd (component_alerts cs latest acc))"
proof -
  let ?step = "\<lambda>c (alerts, seen). case latest (mc_id c) of
             None \<Rightarrow> (alerts, seen)
           | Some (outcome, _, checked_at, _) \<Rightarrow>
               let title = mc_name c @ '' '' @ em_dash @ '' '' @ status_label outcome
               in if (outcome \<in> set OUTAGE_OUTCOMES \<or> outcome \<in> set DEGRADED_OUTCOMES) \<and> title \<notin> set seen
                  then (alerts @ [\<lparr>al_title = title, al_message = ''Latest check reported '' @ outcome @ ''.'',
                                   al_status = outcome, al_since = map_option utc_of checked_at\<rparr>], title # seen)
                  else (alerts, seen)"
  have mono: "set (snd acc) \<subseteq> set (snd (fold ?step cs acc))" for cs acc
    by (rule fold_invariant [where Q = "\<lambda>_. True" and P = "\<lambda>s. set (snd acc) \<subseteq> set (snd s)"])
      (auto simp: Let_def split: option.splits prod.splits)
  then show "set (snd acc) \<subseteq> set (snd (component_alerts cs latest acc))" by (simp only: component_alerts_def)
  assume c: "c \<in> set cs" "latest (mc_id c) = Some (outcome, rest)" "outcome \<in> set OUTAGE_OUTCOMES \<or> outcome \<in> set DEGRADED_OUTCOMES"
  obtain xs ys where cs: "cs = xs @ c # ys" using split_list [OF c(1)] by blast
  let ?t = "mc_name c @ '' '' @ em_dash @ '' '' @ status_label outcome"
  have "?t \<in> set (snd (?step c s))" for s
    using c(2,3) by (cases s; cases rest) (auto simp: Let_def)
  with mono [of "?step c (fold ?step xs acc)" ys] show "?t \<in> set (snd (component_alerts cs latest acc))"
    unfolding component_alerts_def cs fold_append fold_simps comp_def by blast
qed

lemma incident_alerts_seen:
  "set (snd acc) \<subseteq> set (snd (incident_alerts db is acc))"
  "i \<in> set is \<Longrightarrow> incident_updates db i = u # us \<Longrightarrow> iu_status u \<in> set ACTIVE_INCIDENT_STATUSES
   \<Longrightarrow> in_title i \<in> set (snd (incident_alerts db is acc))"
proof -
  let ?step = "\<lambda>i (alerts, seen). case incident_updates db i of
             [] \<Rightarrow> (alerts, seen)
           | latest_update # _ \<Rightarrow>
               if iu_status latest_update \<notin> set ACTIVE_INCIDENT_STATUSES then (alerts, seen)
               else if in_title i \<in> set seen then (alerts, seen)
               else (alerts @ [\<lparr>al_title = in_title i, al_message = iu_message latest_update,
                                al_status = iu_status latest_update, al_since = Some (iu_posted_at latest_update)\<rparr>],
                     in_title i # seen)"
  have mono: "set (snd acc) \<subseteq> set (snd (fold ?step is acc))" for "is" acc
    by (rule fold_invariant [where Q = "\<lambda>_. True" and P = "\<lambda>s. set (snd acc) \<subseteq> set (snd s)"])
      (auto simp: Let_def split: list.splits)
  then show "set (snd acc) \<subseteq> set (snd (incident_alerts db is acc))" by (simp only: incident_alerts_def)
  assume i: "i \<in> set is" "incident_updates db i = u # us" "iu_status u \<in> set ACTIVE_INCIDENT_STATUSES"
  obtain xs ys where split: "is = xs @ i # ys" using split_list [OF i(1)] by blast
  have "in_title i \<in> set (snd (?step i s))" for s using i(2,3) by (cases s) auto
  with mono [of "?step i (fold ?step xs acc)" ys] show "in_title i \<in> set (snd (incident_alerts db is acc))"
    unfolding incident_alerts_def split fold_append fold_simps comp_def by blast
qed

text \<open>
  The alerts name every active problem once: titles are distinct, every component whose latest check is an
  outage or degraded has its alert, and so has every incident of the project whose latest update is active.
\<close>

theorem active_alerts_complete:
  "distinct (map al_title (active_alerts pid cs latest db))
   \<and> (\<forall>c \<in> set cs. \<forall>outcome rest. latest (mc_id c) = Some (outcome, rest)
        \<and> (outcome \<in> set OUTAGE_OUTCOMES \<or> outcome \<in> set DEGRADED_OUTCOMES)
        \<longrightarrow> mc_name c @ '' '' @ em_dash @ '' '' @ status_label outcome \<in> al_title ` set (active_alerts pid cs latest db))
   \<and> (\<forall>i \<in> set (db_incidents db). in_project_id i = pid
        \<and> (\<exists>u us. incident_updates db i = u # us \<and> iu_status u \<in> set ACTIVE_INCIDENT_STATUSES)
        \<longrightarrow> in_title i \<in> al_title ` set (active_alerts pid cs latest db))"
proof -
  let ?is = "sort_desc in_created_at (filter (\<lambda>i. in_project_id i = pid) (db_incidents db))"
  define acc where "acc = incident_alerts db ?is (component_alerts cs latest ([], []))"
  have "alerts_wf acc"
    unfolding acc_def by (intro incident_alerts_wf component_alerts_wf) (simp add: alerts_wf_def)
  then have wf: "distinct (map al_title (fst acc))" "al_title ` set (fst acc) = set (snd acc)"
    by (simp_all add: alerts_wf_def)
  have comp: "mc_name c @ '' '' @ em_dash @ '' '' @ status_label outcome \<in> set (snd acc)"
    if "c \<in> set cs" "latest (mc_id c) = Some (outcome, rest)" "outcome \<in> set OUTAGE_OUTCOMES \<or> outcome \<in> set DEGRADED_OUTCOMES"
    for c outcome rest
    unfolding acc_def using component_alerts_seen(2) [where latest = latest, OF that] incident_alerts_seen(1) by blast
  have inc: "in_title i \<in> set (snd acc)"
    if "i \<in> set (db_incidents db)" "in_project_id i = pid" "incident_updates db i = u # us" "iu_status u \<in> set ACTIVE_INCIDENT_STATUSES"
    for i u us
    unfolding acc_def using that by (intro incident_alerts_seen(2)) auto
  have alerts: "active_alerts pid cs latest db = fst acc" by (simp add: active_alerts_def acc_def)
  show ?thesis unfolding alerts wf(2) using wf(1) comp inc by blast
qed

lemma active_alerts_complete_witness:
  "''n '' @ em_dash @ '' Outage'' \<in> al_title ` set (active_alerts ''p1'' [sample_component] (\<lambda>_. Some (''down'', None, None, None)) empty_database)"
  using active_alerts_complete [of "''p1''" "[sample_component]" "\<lambda>_. Some (''down'', None, None, None)" empty_database]
  by (simp add: OUTAGE_OUTCOMES_def status_label_def sample_component_def)

end
