(* ===== verification/TunnelMetrics.thy ===== *)
theory TunnelMetrics
  imports Timeline
begin

text \<open>
  The tunnel page of \<open>src/app/services/public_status_service.py\<close>: one metric point per stored check (with the
  speed shown, live or from the last success), the diagnostics of the newest check, ping samples and connection
  events of a window of 2 to 24 hours.
\<close>

section \<open>DTOs\<close>

record PublicTunnelMetricPoint =
  mp_checked_at :: py_datetime
  mp_outcome :: string
  mp_latency_ms :: "int option"
  mp_connect_time_ms :: "int option"
  mp_exit_ip :: "string option"
  mp_probe_latency_ms :: "rat option"
  mp_google_probe_ok :: "bool option"
  mp_google_probe_latency_ms :: "rat option"
  mp_gateway_ping_avg_ms :: "rat option"
  mp_gateway_ping_jitter_ms :: "rat option"
  mp_gateway_ping_loss_percent :: "rat option"
  mp_download_mbps :: "rat option"
  mp_download_bytes :: "int option"
  mp_download_duration_ms :: "int option"
  mp_download_cached :: "bool option"
  mp_upload_mbps :: "rat option"
  mp_upload_bytes :: "int option"
  mp_upload_duration_ms :: "int option"
  mp_upload_cached :: "bool option"
  mp_direct_download_mbps :: "rat option"
  mp_direct_download_cached :: "bool option"
  mp_direct_upload_mbps :: "rat option"
  mp_direct_upload_cached :: "bool option"
  mp_speed_test_ok :: "bool option"
  mp_speed_test_measured_at :: "string option"
  mp_upload_speed_test_ok :: "bool option"
  mp_upload_speed_test_measured_at :: "string option"
  mp_direct_speed_test_measured_at :: "string option"

record PublicTunnelLatestDiagnostics =
  ld_checked_at :: py_datetime
  ld_outcome :: string
  ld_summary :: dict \<comment> \<open>the fields copied from the network summary\<close>
  ld_fresh_speed_tests_in_window :: int
  ld_uptime_percent :: "rat option"

record PublicTunnelPingSample =
  ps_bucket_start :: instant
  ps_target :: string
  ps_target_host :: "string option"
  ps_samples_sent :: int
  ps_samples_received :: int
  ps_loss_percent :: "rat option"
  ps_min_ms :: "rat option"
  ps_avg_ms :: "rat option"
  ps_max_ms :: "rat option"
  ps_jitter_ms :: "rat option"

record PublicTunnelConnectionEvent =
  te_id :: uuid
  te_occurred_at :: instant
  te_event_type :: string
  te_outcome :: "string option"
  te_message :: "string option"

record PublicTunnelMetrics =
  tm_project_slug :: string
  tm_service_id :: uuid
  tm_service_name :: string
  tm_service_slug :: string
  tm_component_kind :: string
  tm_range_start :: instant
  tm_range_end :: instant
  tm_hours :: int
  tm_latest :: "PublicTunnelLatestDiagnostics option"
  tm_points :: "PublicTunnelMetricPoint list"
  tm_ping_samples :: "PublicTunnelPingSample list"
  tm_events :: "PublicTunnelConnectionEvent list"

section \<open>Reading a value\<close>

definition as_float :: "json \<Rightarrow> rat option" where
  "as_float value = (if value = JNull then None else py_float value)"

definition as_int :: "json \<Rightarrow> int option" where
  "as_int value = (if value = JNull then None else py_int value)"

definition as_bool :: "json \<Rightarrow> bool option" where
  \<comment> \<open>\<open>v if isinstance(v, bool) else None\<close>\<close>
  "as_bool value = (case value of JBool b \<Rightarrow> Some b | _ \<Rightarrow> None)"

section \<open>The speed of a point\<close>

record extracted =
  ex_mbps :: "rat option"
  ex_bytes :: "int option"
  ex_duration_ms :: "int option"
  ex_cached :: "bool option"
  ex_ok :: "bool option"
  ex_measured_at :: "string option"

definition from_success :: "dict \<Rightarrow> bool \<Rightarrow> extracted \<Rightarrow> extracted option" where
  \<comment> \<open>\<open>_from_success\<close>: \<open>None\<close> when it returns \<open>False\<close>, which leaves the variables unchanged\<close>
  "from_success source as_cached e =
     (case as_float (jget source ''mbps'') of
        None \<Rightarrow> None
      | Some value \<Rightarrow>
          if value \<le> 0 then None
          else Some \<lparr>ex_mbps = Some value, ex_bytes = as_int (jget source ''bytes''),
                     ex_duration_ms = as_int (jget source ''duration_ms''),
                     ex_cached = Some (as_cached \<or> truthy (jor (jor (jget source ''cached'') (jget source ''deferred'')) (jget source ''stale''))),
                     ex_ok = Some True,
                     ex_measured_at = (if ex_measured_at e = None then as_str (jget source ''measured_at'') else ex_measured_at e)\<rparr>)"

definition extract_speed :: "dict \<Rightarrow> dict option \<Rightarrow> extracted" where
  "extract_speed payload last_success =
     (let e = \<lparr>ex_mbps = None, ex_bytes = None, ex_duration_ms = None, ex_cached = None, ex_ok = None,
               ex_measured_at = as_str (jget payload ''measured_at'')\<rparr>;
          live = (if payload \<noteq> [] \<and> jget payload ''ok'' = JBool True then from_success payload False e else None)
      in case live of
           Some r \<Rightarrow> r
         | None \<Rightarrow>
             let e = (if payload \<noteq> [] \<and> (jget payload ''ok'' = JBool True \<or> jget payload ''ok'' = JBool False)
                      then e\<lparr>ex_ok := Some False\<rparr> else e)
             in (case last_success of
                   Some (kv # d) \<Rightarrow> default_to e (from_success (kv # d) True e)
                 | _ \<Rightarrow> e))"

definition build_tunnel_metric_point ::
  "py_datetime \<Rightarrow> string \<Rightarrow> int option \<Rightarrow> json \<Rightarrow> PublicTunnelMetricPoint" where
  "build_tunnel_metric_point checked_at outcome latency_ms details =
     (let network = default_to [] (network_of details);
          ping = dict_at network ''gateway_ping''; probe = dict_at network ''probe'';
          google_probe = dict_at network ''google_probe'';
          direct_download = dict_at network ''direct_speed_test'';
          dl = extract_speed (dict_at network ''speed_test'') (as_dict (jget network ''speed_test_last_success''));
          ul = extract_speed (dict_at network ''speed_test_upload'') (as_dict (jget network ''speed_test_upload_last_success''));
          ddl = extract_speed direct_download None;
          dul = extract_speed (dict_at network ''direct_speed_test_upload'') None;
          direct_measured_at = py_or (as_str (jget network ''direct_speed_test_measured_at''))
                                     (as_str (jget direct_download ''measured_at''));
          exit_ip = jget probe ''exit_ip''
      in \<lparr>mp_checked_at = checked_at, mp_outcome = outcome, mp_latency_ms = latency_ms,
          mp_connect_time_ms = as_int (jget network ''connect_time_ms''),
          mp_exit_ip = (if exit_ip = JNull then None else Some (py_str exit_ip)),
          mp_probe_latency_ms = as_float (jget probe ''latency_ms''),
          mp_google_probe_ok = as_bool (jget google_probe ''ok''),
          mp_google_probe_latency_ms = as_float (jget google_probe ''latency_ms''),
          mp_gateway_ping_avg_ms = as_float (jget ping ''avg_ms''),
          mp_gateway_ping_jitter_ms = as_float (jget ping ''jitter_ms''),
          mp_gateway_ping_loss_percent = as_float (jget ping ''loss_percent''),
          mp_download_mbps = ex_mbps dl, mp_download_bytes = ex_bytes dl, mp_download_duration_ms = ex_duration_ms dl,
          mp_download_cached = ex_cached dl,
          mp_upload_mbps = ex_mbps ul, mp_upload_bytes = ex_bytes ul, mp_upload_duration_ms = ex_duration_ms ul,
          mp_upload_cached = ex_cached ul,
          mp_direct_download_mbps = ex_mbps ddl, mp_direct_download_cached = ex_cached ddl,
          mp_direct_upload_mbps = ex_mbps dul, mp_direct_upload_cached = ex_cached dul,
          mp_speed_test_ok = ex_ok dl, mp_speed_test_measured_at = ex_measured_at dl,
          mp_upload_speed_test_ok = ex_ok ul, mp_upload_speed_test_measured_at = ex_measured_at ul,
          mp_direct_speed_test_measured_at = direct_measured_at\<rparr>)"

section \<open>The newest check\<close>

definition fresh_point :: "PublicTunnelMetricPoint \<Rightarrow> bool" where
  "fresh_point p \<longleftrightarrow> (case mp_download_mbps p of None \<Rightarrow> False | Some v \<Rightarrow> 0 < v) \<and> mp_download_cached p \<noteq> Some True"

definition window_uptime :: "PublicTunnelMetricPoint list \<Rightarrow> rat option" where
  \<comment> \<open>\<open>round(100.0 * healthy / len(points), 2)\<close>\<close>
  "window_uptime points =
     (let healthy = length (filter (\<lambda>p. mp_outcome p \<in> {''up'', ''degraded''}) points)
      in if points = [] then None
         else Some (py_round2 (fl (fl (100 * of_nat healthy) / of_nat (length points)))))"

definition diagnostic_fields :: "string list" where
  "diagnostic_fields =
     [''exit_ip'', ''connect_time_ms'', ''google_probe_ok'', ''gateway_ping_avg_ms'', ''gateway_ping_jitter_ms'',
      ''gateway_ping_loss_percent'', ''download_mbps'', ''download_bytes'', ''download_duration_ms'', ''speed_test_ok'',
      ''speed_test_error'', ''speed_test_measured_at'', ''speed_test_last_success_at'', ''speed_test_showing_last_success'',
      ''speed_test_min_mbps'', ''speed_test_max_mbps'', ''speed_test_avg_mbps'', ''speed_test_sample_count'',
      ''upload_mbps'', ''upload_bytes'', ''upload_duration_ms'', ''upload_speed_test_ok'', ''upload_speed_test_error'',
      ''upload_speed_test_measured_at'', ''upload_speed_test_last_success_at'', ''upload_speed_test_showing_last_success'',
      ''upload_speed_test_min_mbps'', ''upload_speed_test_max_mbps'', ''upload_speed_test_avg_mbps'',
      ''upload_speed_test_sample_count'', ''direct_download_mbps'', ''direct_download_bytes'', ''direct_download_duration_ms'',
      ''direct_download_measured_at'', ''direct_upload_mbps'', ''direct_upload_bytes'', ''direct_upload_duration_ms'',
      ''direct_upload_measured_at'', ''direct_speed_test_skip_reason'']"

definition build_tunnel_latest_diagnostics ::
  "CheckResult list \<Rightarrow> PublicTunnelMetricPoint list \<Rightarrow> PublicTunnelLatestDiagnostics option" where
  "build_tunnel_latest_diagnostics check_rows points =
     (if check_rows = [] then None
      else let latest_row = last check_rows
           in Some \<lparr>ld_checked_at = cr_checked_at latest_row, ld_outcome = cr_outcome latest_row,
                    ld_summary = (case public_network_summary (details_of latest_row) of
                        None \<Rightarrow> []
                      | Some summary \<Rightarrow>
                          map (\<lambda>k. (k, opt_json JFloat (as_float (jget summary k)))) [''probe_latency_ms'', ''google_probe_latency_ms'']
                          @ map (\<lambda>k. (k, jget summary k)) diagnostic_fields),
                    ld_fresh_speed_tests_in_window = int (length (filter fresh_point points)),
                    ld_uptime_percent = window_uptime points\<rparr>)"

section \<open>The request\<close>

definition usec_per_hour :: int where "usec_per_hour = 3600000000"

definition metric_point_of :: "CheckResult \<Rightarrow> PublicTunnelMetricPoint" where
  "metric_point_of r = build_tunnel_metric_point (cr_checked_at r) (cr_outcome r) (cr_latency_ms r) (details_of r)"

definition get_tunnel_metrics ::
  "string \<Rightarrow> string \<Rightarrow> int \<Rightarrow> instant \<Rightarrow> database \<Rightarrow> PublicTunnelMetrics res" where
  "get_tunnel_metrics project_slug service_slug hours now db =
     (let hours = max 2 (min hours 24)
      in case active_project project_slug db of
           Inl e \<Rightarrow> Inl e
         | Inr p \<Rightarrow>
             (case find (\<lambda>c. mc_project_id c = pr_id p \<and> mc_slug c = service_slug \<and> mc_is_active c) (db_components db) of
                None \<Rightarrow> Inl (HTTPException 404 ''Service not found'')
              | Some c \<Rightarrow>
                  let range_end = now; range_start = range_end - hours * usec_per_hour;
                      check_rows = sort_key (\<lambda>r. utc_of (cr_checked_at r))
                        (filter (\<lambda>r. range_start \<le> utc_of (cr_checked_at r) \<and> utc_of (cr_checked_at r) \<le> range_end)
                           (results_of (mc_id c) db));
                      points = map metric_point_of check_rows;
                      sample_rows = sort_key (\<lambda>s. (tp_bucket_start s, tp_target s))
                        (filter (\<lambda>s. tp_monitored_component_id s = mc_id c \<and> range_start \<le> tp_bucket_start s
                                     \<and> tp_bucket_start s \<le> range_end) (db_samples db));
                      event_rows = sort_key (\<lambda>e. (ce_occurred_at e, ce_id e))
                        (filter (\<lambda>e. ce_monitored_component_id e = mc_id c \<and> range_start \<le> ce_occurred_at e
                                     \<and> ce_occurred_at e \<le> range_end) (db_events db))
                  in Inr \<lparr>tm_project_slug = pr_slug p, tm_service_id = mc_id c, tm_service_name = mc_name c,
                          tm_service_slug = mc_slug c, tm_component_kind = component_kind_name db c,
                          tm_range_start = range_start, tm_range_end = range_end, tm_hours = hours,
                          tm_latest = build_tunnel_latest_diagnostics check_rows points, tm_points = points,
                          tm_ping_samples = map (\<lambda>s. \<lparr>ps_bucket_start = tp_bucket_start s, ps_target = tp_target s,
                            ps_target_host = tp_target_host s, ps_samples_sent = tp_samples_sent s,
                            ps_samples_received = tp_samples_received s, ps_loss_percent = tp_loss_percent s,
                            ps_min_ms = tp_min_ms s, ps_avg_ms = tp_avg_ms s, ps_max_ms = tp_max_ms s,
                            ps_jitter_ms = tp_jitter_ms s\<rparr>) sample_rows,
                          tm_events = map (\<lambda>e. \<lparr>te_id = ce_id e, te_occurred_at = ce_occurred_at e,
                            te_event_type = ce_event_type e, te_outcome = ce_outcome e, te_message = ce_message e\<rparr>) event_rows\<rparr>))"

section \<open>Speeds shown\<close>

lemma from_success_Some:
  assumes "from_success source as_cached e = Some r"
  shows "as_float (jget source ''mbps'') = ex_mbps r \<and> (\<exists>v. ex_mbps r = Some v \<and> 0 < v) \<and> ex_ok r = Some True
    \<and> (as_cached \<longrightarrow> ex_cached r = Some True)"
  using assms by (auto simp: from_success_def split: option.splits if_splits)

text \<open>
  A speed on the tunnel chart is positive and is either the one of the check's own successful measurement
  or the last successful one, and a number taken from the last success is always marked as cached, so a
  point that counts as a fresh speed test carries its own measurement.
\<close>

theorem extracted_speed_honest:
  assumes "ex_mbps (extract_speed payload last_success) = Some v"
  shows "0 < v \<and> ex_ok (extract_speed payload last_success) = Some True
    \<and> ((jget payload ''ok'' = JBool True \<and> as_float (jget payload ''mbps'') = Some v)
       \<or> (\<exists>d. last_success = Some d \<and> as_float (jget d ''mbps'') = Some v
              \<and> ex_cached (extract_speed payload last_success) = Some True))"
proof (cases "payload \<noteq> [] \<and> jget payload ''ok'' = JBool True \<and> (\<exists>r. from_success payload False
    \<lparr>ex_mbps = None, ex_bytes = None, ex_duration_ms = None, ex_cached = None, ex_ok = None,
     ex_measured_at = as_str (jget payload ''measured_at'')\<rparr> = Some r)")
  case True
  then obtain r where r: "extract_speed payload last_success = r" and "from_success payload False
    \<lparr>ex_mbps = None, ex_bytes = None, ex_duration_ms = None, ex_cached = None, ex_ok = None,
     ex_measured_at = as_str (jget payload ''measured_at'')\<rparr> = Some r"
    by (auto simp: extract_speed_def)
  with from_success_Some [OF this(2)] True assms show ?thesis by simp
next
  case False
  define e0 where "e0 = \<lparr>ex_mbps = None, ex_bytes = None, ex_duration_ms = None, ex_cached = None, ex_ok = None,
     ex_measured_at = as_str (jget payload ''measured_at'')\<rparr>"
  define e where "e = (if payload \<noteq> [] \<and> (jget payload ''ok'' = JBool True \<or> jget payload ''ok'' = JBool False)
     then e0\<lparr>ex_ok := Some False\<rparr> else e0)"
  have live: "(if payload \<noteq> [] \<and> jget payload ''ok'' = JBool True then from_success payload False e0 else None) = None"
    using False by (auto simp: e0_def)
  have e: "ex_mbps e = None" "extract_speed payload last_success = (case last_success of
      Some (kv # d) \<Rightarrow> default_to e (from_success (kv # d) True e) | _ \<Rightarrow> e)"
    unfolding extract_speed_def Let_def e0_def [symmetric] live e_def [symmetric]
    by (simp_all add: e_def e0_def)
  with assms obtain kv d where l: "last_success = Some (kv # d)"
    by (auto split: option.splits list.splits)
  with e assms obtain r where r: "from_success (kv # d) True e = Some r" "extract_speed payload last_success = r"
    by (auto simp: default_to_def split: option.splits)
  with from_success_Some [OF r(1)] assms l show ?thesis by simp
qed

lemma extracted_speed_honest_witness:
  "ex_mbps (extract_speed [(''ok'', JBool False)] (Some [(''mbps'', JInt 80)])) = Some 80
   \<and> ex_cached (extract_speed [(''ok'', JBool False)] (Some [(''mbps'', JInt 80)])) = Some True"
proof -
  have "ex_mbps (extract_speed [(''ok'', JBool False)] (Some [(''mbps'', JInt 80)])) = Some 80"
    by (simp add: extract_speed_def from_success_def Let_def as_float_def default_to_def)
  with extracted_speed_honest [OF this] show ?thesis by simp
qed

lemma sorted_map_sort_key: "(\<And>x. g (h x) = f x) \<Longrightarrow> sorted (map g (map h (sort_key f xs)))"
  by (simp add: comp_def)

text \<open>
  Whatever number of hours is asked for, the tunnel page covers 2 to 24 hours up to now; it exists only for
  an active component of an active project, and its points are exactly the checks of that component in the
  window, one point each, oldest first; there are diagnostics exactly when there is a point.
\<close>

theorem tunnel_window_complete:
  assumes "get_tunnel_metrics project_slug service_slug hours now db = Inr m"
  shows "2 \<le> tm_hours m \<and> tm_hours m \<le> 24
    \<and> tm_range_start m = now - tm_hours m * usec_per_hour \<and> tm_range_end m = now
    \<and> (\<exists>p c. get_project_by_slug project_slug db = Some p \<and> pr_is_active p \<and> c \<in> set (db_components db)
         \<and> mc_project_id c = pr_id p \<and> mc_slug c = service_slug \<and> mc_is_active c \<and> tm_service_id m = mc_id c)
    \<and> mset (tm_points m) = mset (map metric_point_of (filter (\<lambda>r. tm_range_start m \<le> utc_of (cr_checked_at r)
         \<and> utc_of (cr_checked_at r) \<le> now) (results_of (tm_service_id m) db)))
    \<and> sorted (map (\<lambda>q. utc_of (mp_checked_at q)) (tm_points m))
    \<and> (tm_latest m = None \<longleftrightarrow> tm_points m = [])"
proof -
  let ?h = "max 2 (min hours 24)"
  obtain p where p: "active_project project_slug db = Inr p" using assms
    by (cases "active_project project_slug db") (simp_all add: get_tunnel_metrics_def Let_def)
  let ?P = "\<lambda>c. mc_project_id c = pr_id p \<and> mc_slug c = service_slug \<and> mc_is_active c"
  obtain c where c: "find ?P (db_components db) = Some c"
    using assms p
    by (cases "find ?P (db_components db)") (simp_all add: get_tunnel_metrics_def Let_def)
  define rows where "rows = sort_key (\<lambda>r. utc_of (cr_checked_at r))
      (filter (\<lambda>r. now - ?h * usec_per_hour \<le> utc_of (cr_checked_at r) \<and> utc_of (cr_checked_at r) \<le> now) (results_of (mc_id c) db))"
  have m: "tm_hours m = ?h" "tm_range_start m = now - ?h * usec_per_hour" "tm_range_end m = now" "tm_service_id m = mc_id c"
    "tm_points m = map metric_point_of rows"
    "tm_latest m = build_tunnel_latest_diagnostics rows (map metric_point_of rows)"
    using assms p c unfolding get_tunnel_metrics_def Let_def by (auto simp: rows_def)
  have proj: "get_project_by_slug project_slug db = Some p \<and> pr_is_active p"
    using p by (auto simp: active_project_def split: option.splits if_splits)
  have comp: "c \<in> set (db_components db) \<and> ?P c" using c unfolding find_Some_iff by auto
  have sorted: "sorted (map (\<lambda>q. utc_of (mp_checked_at q)) (tm_points m))"
    unfolding m rows_def
    by (rule sorted_map_sort_key) (simp add: metric_point_of_def build_tunnel_metric_point_def Let_def)
  have points: "mset (tm_points m) = mset (map metric_point_of (filter (\<lambda>r. tm_range_start m \<le> utc_of (cr_checked_at r)
      \<and> utc_of (cr_checked_at r) \<le> now) (results_of (tm_service_id m) db)))"
    unfolding m rows_def by simp
  have latest: "tm_latest m = None \<longleftrightarrow> tm_points m = []"
    unfolding m by (simp add: build_tunnel_latest_diagnostics_def Let_def)
  have ex: "\<exists>p c. get_project_by_slug project_slug db = Some p \<and> pr_is_active p \<and> c \<in> set (db_components db)
         \<and> mc_project_id c = pr_id p \<and> mc_slug c = service_slug \<and> mc_is_active c \<and> tm_service_id m = mc_id c"
    using proj comp m(4) by blast
  have "2 \<le> ?h" "?h \<le> 24" by simp_all
  then show ?thesis using m(1,2,3) sorted points latest ex by metis
qed

lemma tunnel_window_complete_witness:
  "\<exists>m. get_tunnel_metrics ''p'' ''n'' 1000 0 sample_database = Inr m \<and> tm_hours m \<le> 24 \<and> tm_points m = []"
proof -
  obtain m where m: "get_tunnel_metrics ''p'' ''n'' 1000 0 sample_database = Inr m"
    by (auto simp: get_tunnel_metrics_def active_project_def get_project_by_slug_def lookup_row_def sample_database_def
        sample_project_def sample_component_def Let_def)
  have "results_of k sample_database = []" for k by (simp add: results_of_def sample_database_def empty_database_def)
  with tunnel_window_complete [OF m] m show ?thesis by auto
qed

text \<open>
  Every public request answers 404 for a project that does not exist or is switched off, and only then.
\<close>

theorem public_requests_hide_inactive_projects:
  "(get_project_status slug db = Inl e \<longleftrightarrow>
      e = HTTPException 404 ''Project not found'' \<and> \<not> (\<exists>p. get_project_by_slug slug db = Some p \<and> pr_is_active p))
   \<and> (get_system_status slug end_day days now db = Inl e \<longleftrightarrow>
      e = HTTPException 404 ''Project not found'' \<and> \<not> (\<exists>p. get_project_by_slug slug db = Some p \<and> pr_is_active p))"
  by (auto simp: get_project_status_def get_system_status_def active_project_def Let_def split: option.splits if_splits)

end
