(* ===== verification/VpnSupervisor.thy ===== *)
theory VpnSupervisor
  imports Monitoring
begin

text \<open>
  Persistent OpenVPN sessions: \<open>src/app/services/vpn_session_supervisor.py\<close> and
  \<open>connection_event_service.py\<close>. A worker thread is a state (its session, its ping sampler, the counters and
  the database) and one iteration of its loop is a function of what the outside does during it: which stop
  requests arrive while it waits, whether the session is up, what starting a session and probing it return or
  raise. The supervisor's three dictionaries are association lists. Database calls are taken to succeed.
\<close>

section \<open>Connection events\<close>

definition record_connection_event ::
  "(database \<Rightarrow> uuid) \<Rightarrow> uuid \<Rightarrow> string \<Rightarrow> instant \<Rightarrow> string option \<Rightarrow> string option \<Rightarrow> json \<Rightarrow> database \<Rightarrow> unit res \<times> database" where
  "record_connection_event fresh_id component_id event_type occurred_at outcome message details db =
     (if event_type \<notin> set CONNECTION_EVENT_TYPES
      then (Inl (ValueError (''Unsupported connection event type: '' @ event_type)), db)
      else (Inr (), db\<lparr>db_events := db_events db @
        [\<lparr>ce_id = fresh_id db, ce_monitored_component_id = component_id, ce_occurred_at = occurred_at,
          ce_event_type = event_type, ce_outcome = outcome, ce_message = message, ce_details = details\<rparr>]\<rparr>))"

section \<open>A worker\<close>

type_synonym handle = nat

datatype worker_exn = NetnsPermissionError | OtherError

datatype session_action = Started handle | Stopped handle

record worker =
  wk_handle :: "handle option"
  wk_sampler :: bool
  wk_connect_failures :: nat
  wk_last_probe_ok :: "bool option"
  wk_log :: "session_action list" \<comment> \<open>sessions started and stopped, newest first\<close>
  wk_waits :: "int list" \<comment> \<open>seconds waited, newest first\<close>
  wk_db :: database

record start_result =
  sr_handle :: "handle option"
  sr_error_message :: "string option"
  sr_log_tail :: "string option"

type_synonym probe = "MonitoredComponent \<Rightarrow> handle \<Rightarrow> SpeedTestRunContext \<Rightarrow> string \<Rightarrow> worker_exn + CheckResult"

text \<open>What the outside does during one iteration.\<close>

record surroundings =
  ev_others :: "database \<Rightarrow> database" \<comment> \<open>what other threads and requests wrote since the last iteration\<close>
  ev_stopped :: bool
  ev_session_up :: bool
  ev_start :: "worker_exn + start_result"
  ev_probe :: probe
  ev_sampler_starts :: bool
  ev_stop_in_reconnect :: bool
  ev_stop_in_wait :: bool
  ev_now :: instant

definition RECONNECT_DELAY_SECONDS :: int where "RECONNECT_DELAY_SECONDS = 5"
definition NETNS_PERMISSION_BACKOFF_SECONDS :: int where "NETNS_PERMISSION_BACKOFF_SECONDS = 60"
definition CONNECT_FAILURE_BACKOFF_CAP_SECONDS :: int where "CONNECT_FAILURE_BACKOFF_CAP_SECONDS = 60"

definition connect_backoff :: "nat \<Rightarrow> int" where
  "connect_backoff connect_failures =
     min (RECONNECT_DELAY_SECONDS * 2 ^ min (connect_failures - 1) 4) CONNECT_FAILURE_BACKOFF_CAP_SECONDS"

definition should_run_worker :: "MonitoredComponent \<Rightarrow> bool" where
  "should_run_worker c \<longleftrightarrow> mc_is_active c \<and> mc_check_type c \<in> set PERSISTENT_VPN_CHECK_TYPES
     \<and> mc_connection_mode c = ConnectionMode_value PERSISTENT"

section \<open>What a worker stores\<close>

definition persist_result :: "MonitoredComponent \<Rightarrow> CheckResult \<Rightarrow> database \<Rightarrow> database" where
  "persist_result c result db =
     (case get_component (mc_id c) db of
        None \<Rightarrow> db
      | Some row \<Rightarrow> add_result result (save_component (row\<lparr>mc_last_checked_at := Some (cr_checked_at result)\<rparr>) db))"

definition worker_speed_test_context ::
  "settings \<Rightarrow> (string \<Rightarrow> string) \<Rightarrow> MonitoredComponent \<Rightarrow> instant \<Rightarrow> database \<Rightarrow> SpeedTestRunContext" where
  \<comment> \<open>\<open>_build_speed_test_context\<close>\<close>
  "worker_speed_test_context cfg sha256_hex c now db =
     (let ms = fst (get_monitoring_settings cfg db);
          active = set (map pr_id (filter pr_is_active (db_projects db)));
          vpn_components = filter (\<lambda>c. mc_is_active c \<and> mc_project_id c \<in> active \<and> mc_check_type c \<in> set VPN_CHECK_TYPES
                                       \<and> mc_speed_test_enabled c) (db_components db);
          latest_map = latest_by_component_ids db
            (if vpn_components = [] then [mc_id c] else map mc_id vpn_components);
          latest = latest_map (mc_id c);
          latest_details = (case latest of None \<Rightarrow> JNull | Some r \<Rightarrow> details_of r);
          checked_at = map_option cr_checked_at latest;
          history = (if extract_last_successful_speed_test latest_details checked_at = None
                     then latest_with_meaningful_speed_test db (mc_id c) 50 else None);
          history_details = (case history of None \<Rightarrow> JNull | Some r \<Rightarrow> details_of r);
          history_at = map_option cr_checked_at history;
          (previous, success, stats) = resolve_speed_test_memory latest_details checked_at history_details history_at;
          (previous_up, success_up, stats_up) =
            resolve_speed_test_upload_memory latest_details checked_at history_details history_at;
          allowed_ids = pick_staggered_speed_test_component_ids sha256_hex vpn_components ms latest_map now 1;
          due = should_run_speed_test c ms latest now
      in \<lparr>rc_url_template = effective_speed_test_url_template cfg c ms,
          rc_run_speed_test = (due \<and> mc_id c \<in> set allowed_ids),
          rc_previous_speed_test = previous, rc_last_successful_speed_test = success,
          rc_previous_speed_test_stats = stats,
          rc_last_live_speed_test = extract_last_live_speed_test_from_details latest_details checked_at,
          rc_previous_speed_test_upload = previous_up, rc_last_successful_speed_test_upload = success_up,
          rc_previous_speed_test_upload_stats = stats_up,
          rc_last_live_speed_test_upload =
            extract_last_live_speed_test_upload_from_details latest_details checked_at\<rparr>)"

definition session_event_context :: "SpeedTestRunContext \<Rightarrow> SpeedTestRunContext" where
  \<comment> \<open>the fields not passed keep their default \<open>None\<close>\<close>
  "session_event_context built =
     \<lparr>rc_url_template = rc_url_template built, rc_run_speed_test = False,
      rc_previous_speed_test = rc_previous_speed_test built,
      rc_last_successful_speed_test = rc_last_successful_speed_test built,
      rc_previous_speed_test_stats = rc_previous_speed_test_stats built,
      rc_last_live_speed_test = rc_last_live_speed_test built,
      rc_previous_speed_test_upload = None, rc_last_successful_speed_test_upload = None,
      rc_previous_speed_test_upload_stats = None, rc_last_live_speed_test_upload = None\<rparr>"

definition probe_details :: "json \<Rightarrow> json" where
  \<comment> \<open>\<open>_connection_event_details\<close>\<close>
  "probe_details details =
     (case network_of details of
        None \<Rightarrow> JNull
      | Some network \<Rightarrow> (case as_dict (jget network ''probe'') of
                           None \<Rightarrow> JNull | Some p \<Rightarrow> JObj [(''probe'', JObj p)]))"

definition vpn_result :: "uuid \<Rightarrow> MonitoredComponent \<Rightarrow> instant \<Rightarrow> string \<Rightarrow> string \<Rightarrow> json \<Rightarrow> CheckResult" where
  "vpn_result rid c checked_at outcome message details =
     \<lparr>cr_id = rid, cr_monitored_component_id = mc_id c, cr_checked_at = Aware checked_at, cr_outcome = outcome,
      cr_latency_ms = None, cr_http_status_code = None, cr_error_message = Some message, cr_details = details\<rparr>"

definition session_details :: "MonitoredComponent \<Rightarrow> string \<Rightarrow> dict" where
  "session_details c event =
     [(''check_type'', JStr (mc_check_type c)), (''connection_mode'', JStr (ConnectionMode_value PERSISTENT)),
      (''session_event'', JStr event)]"

text \<open>The process: its settings, its hash and its source of identifiers.\<close>

record process =
  pc_cfg :: settings
  pc_sha256_hex :: "string \<Rightarrow> string"
  pc_fresh_id :: "database \<Rightarrow> uuid"

definition add_event ::
  "process \<Rightarrow> MonitoredComponent \<Rightarrow> string \<Rightarrow> instant \<Rightarrow> string option \<Rightarrow> string option \<Rightarrow> json \<Rightarrow> worker \<Rightarrow> worker" where
  \<comment> \<open>\<open>_record_connection_event\<close>; the event types used are all supported\<close>
  "add_event pc c event occurred_at outcome message details w =
     w\<lparr>wk_db := snd (record_connection_event (pc_fresh_id pc) (mc_id c) event occurred_at outcome message details (wk_db w))\<rparr>"

definition save_connect_failure :: "process \<Rightarrow> instant \<Rightarrow> MonitoredComponent \<Rightarrow> start_result \<Rightarrow> worker \<Rightarrow> worker" where
  "save_connect_failure pc now c sr w =
     (let event = ConnectionEventType_value CONNECT_FAILED;
          message = (case nonempty_str (sr_error_message sr) of
                       Some m \<Rightarrow> m | None \<Rightarrow> ''OpenVPN tunnel did not come up in time'');
          details = JObj (session_details c event
            @ (case nonempty_str (sr_log_tail sr) of Some t \<Rightarrow> [(''log_tail'', JStr t)] | None \<Rightarrow> []));
          w = w\<lparr>wk_db := persist_result c
                 (vpn_result (pc_fresh_id pc (wk_db w)) c now (CheckOutcome_value TIMEOUT) message details) (wk_db w)\<rparr>
      in add_event pc c event now (Some (CheckOutcome_value TIMEOUT)) (Some message) details w)"

definition save_session_event ::
  "process \<Rightarrow> surroundings \<Rightarrow> MonitoredComponent \<Rightarrow> handle option \<Rightarrow> string \<Rightarrow> worker \<Rightarrow> (worker_exn + unit) \<times> worker" where
  "save_session_event pc env c h event w =
     (case h of
        None \<Rightarrow>
          let message = ''VPN session event: '' @ event;
              w = w\<lparr>wk_db := persist_result c (vpn_result (pc_fresh_id pc (wk_db w)) c (ev_now env)
                     (CheckOutcome_value DOWN) message (JObj (session_details c event))) (wk_db w)\<rparr>
          in (Inr (), add_event pc c event (ev_now env) (Some (CheckOutcome_value DOWN)) (Some message) JNull w)
      | Some handle \<Rightarrow>
          let built = worker_speed_test_context (pc_cfg pc) (pc_sha256_hex pc) c (ev_now env) (wk_db w)
          in (case ev_probe env c handle (session_event_context built) event of
                Inl e \<Rightarrow> (Inl e, w)
              | Inr result \<Rightarrow>
                  let w = w\<lparr>wk_db := persist_result c result (wk_db w)\<rparr>
                  in (Inr (), add_event pc c event (utc_of (cr_checked_at result)) (Some (cr_outcome result))
                        (cr_error_message result) (probe_details (details_of result)) w)))"

section \<open>Probe transitions\<close>

definition probe_transition :: "bool option \<Rightarrow> string \<Rightarrow> ConnectionEventType option \<times> bool option" where
  "probe_transition last_probe_ok outcome =
     (if outcome \<notin> {CheckOutcome_value UP, CheckOutcome_value DEGRADED} then (None, last_probe_ok)
      else let probe_ok = (outcome = CheckOutcome_value UP)
           in (if last_probe_ok = Some False \<and> probe_ok then Some AVAILABLE
               else if last_probe_ok \<noteq> Some False \<and> \<not> probe_ok then Some UNAVAILABLE else None,
               Some probe_ok))"

definition maybe_record_probe_transition :: "process \<Rightarrow> MonitoredComponent \<Rightarrow> CheckResult \<Rightarrow> worker \<Rightarrow> worker" where
  "maybe_record_probe_transition pc c result w =
     (let (event, last_ok) = probe_transition (wk_last_probe_ok w) (cr_outcome result);
          w = (case event of
                 None \<Rightarrow> w
               | Some e \<Rightarrow> add_event pc c (ConnectionEventType_value e) (utc_of (cr_checked_at result)) (Some (cr_outcome result))
                   (Some (if e = AVAILABLE then ''Probe succeeded through VPN tunnel''
                          else case nonempty_str (cr_error_message result) of
                                 Some m \<Rightarrow> m | None \<Rightarrow> ''Probe failed through VPN tunnel''))
                   (probe_details (details_of result)) w)
      in w\<lparr>wk_last_probe_ok := last_ok\<rparr>)"

section \<open>The loop\<close>

text \<open>How the body of the loop ends: falling through to the next iteration, \<open>break\<close>, or an exception.\<close>

datatype flow = Again | Break | Raised worker_exn

definition open_session :: "handle \<Rightarrow> worker \<Rightarrow> worker" where
  "open_session h w = w\<lparr>wk_handle := Some h, wk_log := Started h # wk_log w\<rparr>"

definition close_session :: "worker \<Rightarrow> worker" where
  \<comment> \<open>\<open>stop_openvpn_persistent_session(handle)\<close> and \<open>handle = None\<close>\<close>
  "close_session w = (case wk_handle w of None \<Rightarrow> w
     | Some h \<Rightarrow> w\<lparr>wk_handle := None, wk_log := Stopped h # wk_log w\<rparr>)"

definition stop_sampler :: "worker \<Rightarrow> worker" where "stop_sampler w = w\<lparr>wk_sampler := False\<rparr>"

definition waited :: "int \<Rightarrow> bool \<Rightarrow> worker \<Rightarrow> flow \<times> worker" where
  \<comment> \<open>\<open>if self._stop.wait(seconds): break\<close>\<close>
  "waited seconds stopped w = (if stopped then Break else Again, w\<lparr>wk_waits := seconds # wk_waits w\<rparr>)"

definition probe_phase :: "process \<Rightarrow> surroundings \<Rightarrow> MonitoredComponent \<Rightarrow> handle \<Rightarrow> worker \<Rightarrow> flow \<times> worker" where
  "probe_phase pc env c h w =
     (let ctx = worker_speed_test_context (pc_cfg pc) (pc_sha256_hex pc) c (ev_now env) (wk_db w)
      in case ev_probe env c h ctx ''probe'' of
           Inl e \<Rightarrow> (Raised e, w)
         | Inr result \<Rightarrow>
             let w = w\<lparr>wk_db := persist_result c result (wk_db w)\<rparr>;
                 w = maybe_record_probe_transition pc c result w;
                 interval = effective_poll_interval c (fst (get_monitoring_settings (pc_cfg pc) (wk_db w)))
             in waited interval (ev_stop_in_wait env) w)"

definition start_phase :: "process \<Rightarrow> surroundings \<Rightarrow> MonitoredComponent \<Rightarrow> worker \<Rightarrow> flow \<times> worker" where
  "start_phase pc env c w =
     (case ev_start env of
        Inl e \<Rightarrow> (Raised e, w)
      | Inr sr \<Rightarrow>
          (case sr_handle sr of
             None \<Rightarrow>
               let w = w\<lparr>wk_connect_failures := wk_connect_failures w + 1\<rparr>;
                   w = save_connect_failure pc (ev_now env) c sr w
               in waited (connect_backoff (wk_connect_failures w)) (ev_stop_in_wait env) w
           | Some h \<Rightarrow>
               let w = (open_session h w)\<lparr>wk_connect_failures := 0\<rparr>
               in (case save_session_event pc env c (Some h) (ConnectionEventType_value TUNNEL_UP) w of
                     (Inl e, w) \<Rightarrow> (Raised e, w)
                   | (Inr _, w) \<Rightarrow> probe_phase pc env c h (w\<lparr>wk_sampler := ev_sampler_starts env\<rparr>))))"

definition loop_body :: "process \<Rightarrow> surroundings \<Rightarrow> MonitoredComponent \<Rightarrow> worker \<Rightarrow> flow \<times> worker" where
  "loop_body pc env c w =
     (case wk_handle w of
        Some h \<Rightarrow>
          if ev_session_up env then probe_phase pc env c h w
          else (case save_session_event pc env c (Some h) (ConnectionEventType_value TUNNEL_DOWN) (stop_sampler w) of
                  (Inl e, w) \<Rightarrow> (Raised e, w)
                | (Inr _, w) \<Rightarrow>
                    let w = close_session w
                    in (case waited RECONNECT_DELAY_SECONDS (ev_stop_in_reconnect env) w of
                          (Again, w) \<Rightarrow>
                            start_phase pc env c (snd (save_session_event pc env c None (ConnectionEventType_value RECONNECT) w))
                        | (other, w) \<Rightarrow> (other, w)))
      | None \<Rightarrow> start_phase pc env c (stop_sampler w))"

definition handle_exception :: "process \<Rightarrow> surroundings \<Rightarrow> MonitoredComponent \<Rightarrow> worker_exn \<Rightarrow> worker \<Rightarrow> flow \<times> worker" where
  "handle_exception pc env c e w =
     (case e of
        NetnsPermissionError \<Rightarrow>
          waited NETNS_PERMISSION_BACKOFF_SECONDS (ev_stop_in_wait env) (close_session (stop_sampler w))
      | OtherError \<Rightarrow>
          let w = stop_sampler (w\<lparr>wk_connect_failures := wk_connect_failures w + 1\<rparr>);
              w = (if wk_handle w = None then w
                   else add_event pc c (ConnectionEventType_value TUNNEL_DOWN) (ev_now env) (Some (CheckOutcome_value DOWN))
                          (Some ''VPN session stopped after worker error'') JNull (close_session w))
          in waited (connect_backoff (wk_connect_failures w)) (ev_stop_in_wait env) w)"

definition iteration :: "process \<Rightarrow> surroundings \<Rightarrow> uuid \<Rightarrow> worker \<Rightarrow> flow \<times> worker" where
  \<comment> \<open>one turn of the \<open>while\<close> loop, the exception handlers included\<close>
  "iteration pc env cid w =
     (let w = w\<lparr>wk_db := ev_others env (wk_db w)\<rparr>
      in if ev_stopped env then (Break, w)
         else case get_component cid (wk_db w) of
                None \<Rightarrow> (Break, w)
              | Some c \<Rightarrow>
                  if \<not> should_run_worker c then (Break, w)
                  else (case loop_body pc env c w of
                          (Raised e, w) \<Rightarrow> handle_exception pc env c e w
                        | (other, w) \<Rightarrow> (other, w)))"

definition finish :: "process \<Rightarrow> instant \<Rightarrow> uuid \<Rightarrow> worker \<Rightarrow> worker" where
  \<comment> \<open>the \<open>finally\<close> block\<close>
  "finish pc now cid w =
     (let w = stop_sampler w
      in if wk_handle w = None then w
         else let w = close_session w
              in case get_component cid (wk_db w) of
                   None \<Rightarrow> w
                 | Some c \<Rightarrow> add_event pc c (ConnectionEventType_value TUNNEL_DOWN) now (Some (CheckOutcome_value DOWN))
                              (Some ''VPN session stopped'') JNull w)"

fun run_worker :: "process \<Rightarrow> uuid \<Rightarrow> surroundings list \<Rightarrow> worker \<Rightarrow> bool \<times> worker" where
  \<comment> \<open>\<open>run\<close>: whether the thread has ended, after the given iterations at most\<close>
  "run_worker pc cid [] w = (False, w)"
| "run_worker pc cid (env # envs) w =
     (case iteration pc env cid w of
        (Break, w) \<Rightarrow> (True, finish pc (ev_now env) cid w)
      | (_, w) \<Rightarrow> run_worker pc cid envs w)"

definition new_worker :: "database \<Rightarrow> worker" where
  "new_worker db =
     \<lparr>wk_handle = None, wk_sampler = False, wk_connect_failures = 0, wk_last_probe_ok = None, wk_log = [],
      wk_waits = [], wk_db = db\<rparr>"

section \<open>The supervisor\<close>

record snapshot =
  sn_component_id :: uuid
  sn_config_fingerprint :: string
  sn_poll_interval_seconds :: int
  sn_is_active :: bool

text \<open>A worker in the dictionary is its number: each start creates a new thread.\<close>

record supervisor =
  sv_workers :: "(uuid \<times> nat) list"
  sv_stop_events :: "(uuid \<times> nat) list"
  sv_snapshots :: "(uuid \<times> snapshot) list"
  sv_started :: nat \<comment> \<open>threads started so far\<close>
  sv_stopped :: "nat list" \<comment> \<open>threads told to stop\<close>

definition component_fingerprint :: "(dict \<Rightarrow> string) \<Rightarrow> MonitoredComponent \<Rightarrow> string" where
  \<comment> \<open>\<open>digest\<close> is SHA-256 of \<open>json.dumps(payload, sort_keys=True, default=str)\<close>\<close>
  "component_fingerprint digest c =
     digest [(''check_config'', mc_check_config c), (''check_url'', JStr (mc_check_url c)),
             (''timeout_seconds'', JInt (mc_timeout_seconds c)),
             (''speed_test_bytes'', opt_json JInt (mc_speed_test_bytes c)),
             (''speed_test_url_template'', opt_json JStr (mc_speed_test_url_template c)),
             (''speed_test_interval_seconds'', opt_json JInt (mc_speed_test_interval_seconds c)),
             (''speed_test_enabled'', JBool (mc_speed_test_enabled c)),
             (''connection_mode'', JStr (mc_connection_mode c))]"

definition snapshot_for :: "settings \<Rightarrow> (dict \<Rightarrow> string) \<Rightarrow> database \<Rightarrow> uuid \<Rightarrow> snapshot option" where
  "snapshot_for cfg digest db cid =
     map_option (\<lambda>c. \<lparr>sn_component_id = mc_id c, sn_config_fingerprint = component_fingerprint digest c,
         sn_poll_interval_seconds = effective_poll_interval c (fst (get_monitoring_settings cfg db)),
         sn_is_active = mc_is_active c\<rparr>) (get_component cid db)"

definition load_desired_components :: "database \<Rightarrow> uuid list" where
  "load_desired_components db =
     (let active = set (map pr_id (filter pr_is_active (db_projects db)))
      in map mc_id (filter (\<lambda>c. should_run_worker c \<and> mc_project_id c \<in> active) (db_components db)))"

definition start_worker :: "uuid \<Rightarrow> snapshot \<Rightarrow> supervisor \<Rightarrow> supervisor" where
  "start_worker cid sn sv =
     sv\<lparr>sv_stop_events := AList.update cid (sv_started sv) (sv_stop_events sv),
        sv_workers := AList.update cid (sv_started sv) (sv_workers sv),
        sv_snapshots := AList.update cid sn (sv_snapshots sv), sv_started := sv_started sv + 1\<rparr>"

definition stop_worker :: "uuid \<Rightarrow> supervisor \<Rightarrow> supervisor" where
  "stop_worker cid sv =
     sv\<lparr>sv_stop_events := AList.delete cid (sv_stop_events sv), sv_workers := AList.delete cid (sv_workers sv),
        sv_snapshots := AList.delete cid (sv_snapshots sv),
        sv_stopped := (case map_of (sv_stop_events sv) cid of None \<Rightarrow> sv_stopped sv | Some t \<Rightarrow> t # sv_stopped sv)\<rparr>"

definition sync_one :: "(uuid \<Rightarrow> snapshot option) \<Rightarrow> uuid set \<Rightarrow> uuid \<Rightarrow> supervisor \<Rightarrow> supervisor" where
  "sync_one snap running_ids cid sv =
     (case snap cid of
        None \<Rightarrow> sv
      | Some desired \<Rightarrow>
          if cid \<notin> running_ids \<or> map_of (sv_snapshots sv) cid \<noteq> Some desired
          then start_worker cid desired (if cid \<in> running_ids then stop_worker cid sv else sv)
          else sv)"

definition sync_workers :: "uuid list \<Rightarrow> (uuid \<Rightarrow> snapshot option) \<Rightarrow> supervisor \<Rightarrow> supervisor" where
  "sync_workers desired_ids snap sv =
     (let running = map fst (sv_workers sv);
          sv = fold stop_worker (filter (\<lambda>cid. cid \<notin> set desired_ids) running) sv
      in fold (sync_one snap (set running)) (remdups desired_ids) sv)"

definition sync :: "settings \<Rightarrow> (dict \<Rightarrow> string) \<Rightarrow> database \<Rightarrow> supervisor \<Rightarrow> supervisor" where
  "sync cfg digest db sv = sync_workers (load_desired_components db) (snapshot_for cfg digest db) sv"

definition stop_all :: "supervisor \<Rightarrow> supervisor" where
  "stop_all sv = fold stop_worker (map fst (sv_workers sv)) sv"

definition new_supervisor :: supervisor where
  "new_supervisor = \<lparr>sv_workers = [], sv_stop_events = [], sv_snapshots = [], sv_started = 0, sv_stopped = []\<rparr>"

section \<open>Lemmas: sessions of a worker\<close>

text \<open>The log of sessions, newest first, that leaves the given session open.\<close>

fun sessions_ok :: "session_action list \<Rightarrow> handle option \<Rightarrow> bool" where
  "sessions_ok [] cur \<longleftrightarrow> cur = None"
| "sessions_ok (Started h # l) cur \<longleftrightarrow> cur = Some h \<and> sessions_ok l None"
| "sessions_ok (Stopped h # l) cur \<longleftrightarrow> cur = None \<and> sessions_ok l (Some h)"

definition worker_ok :: "worker \<Rightarrow> bool" where
  "worker_ok w \<longleftrightarrow> sessions_ok (wk_log w) (wk_handle w) \<and> (wk_sampler w \<longrightarrow> wk_handle w \<noteq> None)"

text \<open>What the storing operations leave alone.\<close>

definition session_part :: "worker \<Rightarrow> handle option \<times> bool \<times> session_action list" where
  "session_part w = (wk_handle w, wk_sampler w, wk_log w)"

lemma worker_ok_part: "session_part w' = session_part w \<Longrightarrow> worker_ok w' = worker_ok w"
  by (simp add: worker_ok_def session_part_def)

lemma session_part_simps [simp]:
  "session_part (add_event pc c event t outcome message details w) = session_part w"
  "session_part (save_connect_failure pc now c sr w) = session_part w"
  "session_part (maybe_record_probe_transition pc c result w) = session_part w"
  "session_part (w\<lparr>wk_db := db\<rparr>) = session_part w"
  "session_part (w\<lparr>wk_connect_failures := n\<rparr>) = session_part w"
  "session_part (snd (waited s b w)) = session_part w"
  by (simp_all add: session_part_def add_event_def save_connect_failure_def maybe_record_probe_transition_def waited_def
      Let_def split: prod.splits option.splits)

lemma session_part_save_session_event [simp]: "session_part (snd (save_session_event pc env c h event w)) = session_part w"
  by (auto simp: save_session_event_def Let_def split: option.splits sum.splits)

lemma session_part_probe_phase [simp]: "session_part (snd (probe_phase pc env c h w)) = session_part w"
  by (auto simp: probe_phase_def Let_def split: sum.splits)

lemma worker_ok_close [simp]: "worker_ok w \<Longrightarrow> worker_ok (close_session (stop_sampler w))"
  by (auto simp: worker_ok_def close_session_def stop_sampler_def split: option.splits)

lemma worker_ok_close_quiet: "worker_ok w \<Longrightarrow> \<not> wk_sampler w \<Longrightarrow> worker_ok (close_session w)"
  by (auto simp: worker_ok_def close_session_def split: option.splits)

lemma worker_ok_open [simp]: "worker_ok w \<Longrightarrow> wk_handle w = None \<Longrightarrow> worker_ok (open_session h w)"
  by (simp add: worker_ok_def open_session_def)


lemma worker_ok_db [simp]: "worker_ok (w\<lparr>wk_db := db\<rparr>) = worker_ok w" "worker_ok (w\<lparr>wk_connect_failures := n\<rparr>) = worker_ok w"
  by (rule worker_ok_part, simp)+

lemma worker_ok_stop_sampler [simp]: "worker_ok w \<Longrightarrow> worker_ok (stop_sampler w)"
  by (simp add: worker_ok_def stop_sampler_def)

lemma worker_ok_waited [simp]: "worker_ok (snd (waited s b w)) = worker_ok w"
  by (rule worker_ok_part) simp

lemma worker_ok_probe_phase [simp]: "worker_ok (snd (probe_phase pc env c h w)) = worker_ok w"
  by (rule worker_ok_part) simp

lemma worker_ok_add_event [simp]: "worker_ok (add_event pc c event t outcome message details w) = worker_ok w"
  by (rule worker_ok_part) simp

lemma save_session_event_result:
  assumes "save_session_event pc env c h event w = (r, w')"
  shows "worker_ok w' = worker_ok w" "wk_handle w' = wk_handle w" "session_part w' = session_part w"
proof -
  have "session_part w' = session_part w" using session_part_save_session_event [of pc env c h event w] assms by simp
  then show "worker_ok w' = worker_ok w" "wk_handle w' = wk_handle w" "session_part w' = session_part w"
    by (rule worker_ok_part, simp_all add: session_part_def)
qed

lemma worker_ok_start_phase:
  assumes "worker_ok w" and "wk_handle w = None"
  shows "worker_ok (snd (start_phase pc env c w))"
proof (cases "ev_start env")
  case (Inl e)
  with assms show ?thesis by (simp add: start_phase_def)
next
  case (Inr sr)
  show ?thesis
  proof (cases "sr_handle sr")
    case None
    have "worker_ok (save_connect_failure pc (ev_now env) c sr (w\<lparr>wk_connect_failures := wk_connect_failures w + 1\<rparr>))"
      using assms(1) by (subst worker_ok_part [where w = w]) simp_all
    with Inr None show ?thesis by (simp add: start_phase_def Let_def)
  next
    case (Some h)
    let ?w = "(open_session h w)\<lparr>wk_connect_failures := 0\<rparr>"
    obtain r w' where save: "save_session_event pc env c (Some h) (ConnectionEventType_value TUNNEL_UP) ?w = (r, w')"
      by (cases "save_session_event pc env c (Some h) (ConnectionEventType_value TUNNEL_UP) ?w")
    have ok: "worker_ok w'" "wk_handle w' = Some h"
      using save_session_event_result [OF save] assms by (simp_all add: open_session_def [of h w, THEN arg_cong [of _ _ wk_handle]])
    then have "worker_ok (w'\<lparr>wk_sampler := ev_sampler_starts env\<rparr>)" by (simp add: worker_ok_def)
    with Inr Some save ok show ?thesis by (simp add: start_phase_def Let_def split: sum.splits)
  qed
qed

lemma close_session_handle [simp]: "wk_handle (close_session w) = None"
  by (simp add: close_session_def split: option.splits)

lemma worker_ok_loop_body:
  assumes "worker_ok w"
  shows "worker_ok (snd (loop_body pc env c w))"
proof (cases "wk_handle w")
  case None
  have "wk_handle (stop_sampler w) = None" using None by (simp add: stop_sampler_def)
  with None assms show ?thesis by (simp add: loop_body_def worker_ok_start_phase)
next
  case (Some h)
  show ?thesis
  proof (cases "ev_session_up env")
    case True
    with Some assms show ?thesis by (simp add: loop_body_def)
  next
    case False
    obtain r w1 where save: "save_session_event pc env c (Some h) (ConnectionEventType_value TUNNEL_DOWN) (stop_sampler w) = (r, w1)"
      by (cases "save_session_event pc env c (Some h) (ConnectionEventType_value TUNNEL_DOWN) (stop_sampler w)")
    have part: "session_part w1 = session_part (stop_sampler w)"
      by (rule save_session_event_result(3) [OF save])
    then have ok1: "worker_ok w1" "\<not> wk_sampler w1" 
      using worker_ok_stop_sampler [OF assms] worker_ok_part [OF part] part by (simp_all add: session_part_def) (simp add: stop_sampler_def)
    then have ok2: "worker_ok (close_session w1)" by (rule worker_ok_close_quiet)
    obtain fl2 w3 where wait: "waited RECONNECT_DELAY_SECONDS (ev_stop_in_reconnect env) (close_session w1) = (fl2, w3)"
      by (cases "waited RECONNECT_DELAY_SECONDS (ev_stop_in_reconnect env) (close_session w1)")
    have part3: "session_part w3 = session_part (close_session w1)"
      by (metis session_part_simps(6) snd_conv wait)
    let ?w4 = "snd (save_session_event pc env c None (ConnectionEventType_value RECONNECT) w3)"
    have part4: "session_part ?w4 = session_part (close_session w1)"
      unfolding session_part_save_session_event by (rule part3)
    have ok4: "worker_ok ?w4" using ok2 worker_ok_part [OF part4] by blast
    have none4: "wk_handle ?w4 = None"
      using arg_cong [OF part4, of fst] close_session_handle [of w1] unfolding session_part_def fst_conv by metis
    from ok2 part3 have ok3: "worker_ok w3" using worker_ok_part by blast
    show ?thesis
      using Some False save wait ok1 ok3 worker_ok_start_phase [OF ok4 none4]
      by (simp add: loop_body_def Let_def split: sum.splits flow.splits)
  qed
qed

lemma worker_ok_iteration: "worker_ok w \<Longrightarrow> worker_ok (snd (iteration pc env cid w))"
proof -
  assume "worker_ok w"
  then have w: "worker_ok (w\<lparr>wk_db := ev_others env (wk_db w)\<rparr>)" by simp
  have exn: "worker_ok w' \<Longrightarrow> worker_ok (snd (handle_exception pc env c e w'))" for c e w'
    by (cases e) (simp_all add: handle_exception_def Let_def)
  have body: "worker_ok w'" if "loop_body pc env c (w\<lparr>wk_db := ev_others env (wk_db w)\<rparr>) = (r, w')" for c r w'
    using worker_ok_loop_body [OF w, of pc env c] that by simp
  show ?thesis
    using w by (auto simp: iteration_def Let_def dest!: body intro: exn split: option.splits flow.splits prod.splits)
qed

lemma worker_ok_finish: "worker_ok w \<Longrightarrow> worker_ok (finish pc now cid w) \<and> wk_handle (finish pc now cid w) = None"
  by (auto simp: finish_def Let_def add_event_def stop_sampler_def worker_ok_def close_session_def split: option.splits)

lemma run_worker_ok:
  "worker_ok w \<Longrightarrow> run_worker pc cid envs w = (ended, w') \<Longrightarrow> worker_ok w' \<and> (ended \<longrightarrow> wk_handle w' = None)"
proof (induction envs arbitrary: w)
  case (Cons env envs)
  obtain r w1 where it: "iteration pc env cid w = (r, w1)" by (cases "iteration pc env cid w")
  have ok: "worker_ok w1" using worker_ok_iteration [OF Cons.prems(1), of pc env cid] it by simp
  show ?case
  proof (cases "r = Break")
    case True
    with Cons.prems(2) it worker_ok_finish [OF ok, of pc "ev_now env" cid] show ?thesis by auto
  next
    case False
    with Cons.prems(2) it have "run_worker pc cid envs w1 = (ended, w')" by (auto split: flow.splits)
    with Cons.IH [OF ok] show ?thesis by blast
  qed
qed auto

text \<open>
  C6. Whatever happens around a worker (stop requests, sessions that drop or never start, failing probes, edits
  of the database), it has at most one OpenVPN session open at any time and stops each session it started before
  it starts another, its ping sampler runs only beside a session, and when the thread ends every session it
  started has been stopped.
\<close>

theorem worker_never_leaks_sessions:
  assumes "run_worker pc cid envs (new_worker db) = (ended, w)"
  shows "sessions_ok (wk_log w) (wk_handle w) \<and> (wk_sampler w \<longrightarrow> wk_handle w \<noteq> None)
    \<and> (ended \<longrightarrow> sessions_ok (wk_log w) None \<and> \<not> wk_sampler w)"
proof -
  have "worker_ok (new_worker db)" by (simp add: worker_ok_def new_worker_def)
  from run_worker_ok [OF this assms] show ?thesis by (auto simp: worker_ok_def)
qed

definition sample_process :: process where
  "sample_process = \<lparr>pc_cfg = sample_cfg, pc_sha256_hex = (\<lambda>_. ''0''), pc_fresh_id = (\<lambda>_. ''x'')\<rparr>"

definition vpn_database :: database where
  "vpn_database = empty_database\<lparr>db_settings := Some sample_settings, db_projects := [sample_project],
     db_components := [sample_component\<lparr>mc_connection_mode := ''persistent''\<rparr>]\<rparr>"

definition good_surroundings :: surroundings where
  "good_surroundings = \<lparr>ev_others = (\<lambda>db. db), ev_stopped = False, ev_session_up = True,
     ev_start = Inr \<lparr>sr_handle = Some 7, sr_error_message = None, sr_log_tail = None\<rparr>,
     ev_probe = (\<lambda>_ _ _ _. Inr sample_result), ev_sampler_starts = True, ev_stop_in_reconnect = False,
     ev_stop_in_wait = False, ev_now = 0\<rparr>"

lemma worker_never_leaks_sessions_witness:
  "\<exists>w. run_worker sample_process ''c1'' [good_surroundings, good_surroundings\<lparr>ev_stopped := True\<rparr>] (new_worker vpn_database) = (True, w)
     \<and> sessions_ok (wk_log w) None"
proof -
  obtain ended w where run: "run_worker sample_process ''c1'' [good_surroundings, good_surroundings\<lparr>ev_stopped := True\<rparr>]
      (new_worker vpn_database) = (ended, w)"
    by (metis surj_pair)
  have "iteration sample_process (good_surroundings\<lparr>ev_stopped := True\<rparr>) ''c1'' w' =
      (Break, w'\<lparr>wk_db := wk_db w'\<rparr>)" for w'
    by (simp add: iteration_def good_surroundings_def)
  with run have ended by (auto simp: Let_def split: flow.splits prod.splits)
  with worker_never_leaks_sessions [OF run] run show ?thesis by auto
qed

section \<open>Retrying\<close>

text \<open>
  Inside a turn a worker has waited at most once, for the reconnect, and its count of failures is the one of before, or zero
  after a tunnel came up.
\<close>

definition during :: "surroundings \<Rightarrow> worker \<Rightarrow> worker \<Rightarrow> bool" where
  "during env w w1 \<longleftrightarrow>
     (wk_waits w1 = wk_waits w \<or> wk_waits w1 = 5 # wk_waits w \<and> wk_handle w \<noteq> None \<and> \<not> ev_session_up env)
     \<and> (wk_connect_failures w1 = wk_connect_failures w
        \<or> wk_connect_failures w1 = 0 \<and> (\<exists>sr h. ev_start env = Inr sr \<and> sr_handle sr = Some h))"

definition raised_by :: "surroundings \<Rightarrow> MonitoredComponent \<Rightarrow> worker_exn \<Rightarrow> bool" where
  "raised_by env c e \<longleftrightarrow> ev_start env = Inl e \<or> (\<exists>h ctx event. ev_probe env c h ctx event = Inl e)"

fun turn_ended :: "process \<Rightarrow> surroundings \<Rightarrow> MonitoredComponent \<Rightarrow> worker \<Rightarrow> flow \<Rightarrow> worker \<Rightarrow> bool" where
  "turn_ended pc env c w Break w' \<longleftrightarrow> True"
| "turn_ended pc env c w (Raised e) w' \<longleftrightarrow> during env w w' \<and> raised_by env c e"
| "turn_ended pc env c w Again w' \<longleftrightarrow>
     (\<exists>w1. during env w w1 \<and>
        (wk_handle w' \<noteq> None \<and> wk_connect_failures w' = wk_connect_failures w1
           \<and> wk_waits w' = effective_poll_interval c (fst (get_monitoring_settings (pc_cfg pc) (wk_db w'))) # wk_waits w1
         \<or> wk_handle w' = None \<and> (\<exists>sr. ev_start env = Inr sr \<and> sr_handle sr = None)
           \<and> wk_connect_failures w' = Suc (wk_connect_failures w)
           \<and> wk_waits w' = connect_backoff (wk_connect_failures w') # wk_waits w1))"

lemma stored_simps [simp]:
  "wk_waits (add_event pc c event t outcome message details w) = wk_waits w"
  "wk_waits (save_connect_failure pc now c sr w) = wk_waits w"
  "wk_waits (maybe_record_probe_transition pc c result w) = wk_waits w"
  "wk_waits (open_session h w) = wk_waits w" "wk_waits (close_session w) = wk_waits w" "wk_waits (stop_sampler w) = wk_waits w"
  "wk_connect_failures (add_event pc c event t outcome message details w) = wk_connect_failures w"
  "wk_connect_failures (save_connect_failure pc now c sr w) = wk_connect_failures w"
  "wk_connect_failures (maybe_record_probe_transition pc c result w) = wk_connect_failures w"
  "wk_connect_failures (close_session w) = wk_connect_failures w" "wk_connect_failures (stop_sampler w) = wk_connect_failures w"
  "wk_handle (add_event pc c event t outcome message details w) = wk_handle w"
  "wk_handle (save_connect_failure pc now c sr w) = wk_handle w"
  "wk_handle (maybe_record_probe_transition pc c result w) = wk_handle w"
  "wk_handle (open_session h w) = Some h" "wk_handle (close_session w) = None" "wk_handle (stop_sampler w) = wk_handle w"
  by (simp_all add: add_event_def save_connect_failure_def maybe_record_probe_transition_def open_session_def
      close_session_def stop_sampler_def Let_def split: prod.splits option.splits sum.splits)

lemma saved_event:
  assumes "save_session_event pc env c ho event w1 = (q, w2)"
  shows "wk_waits w2 = wk_waits w1 \<and> wk_connect_failures w2 = wk_connect_failures w1 \<and> wk_handle w2 = wk_handle w1
    \<and> (\<forall>e. q = Inl e \<longrightarrow> raised_by env c e)"
  using assms by (auto simp: save_session_event_def raised_by_def Let_def split: option.splits sum.splits)

lemma during_eq:
  "wk_waits w1 = wk_waits w2 \<Longrightarrow> wk_connect_failures w1 = wk_connect_failures w2 \<Longrightarrow> during env w w1 = during env w w2"
  by (simp add: during_def)

lemma probe_phase_ends:
  assumes "probe_phase pc env c h w1 = (r, w')" and "during env w w1" and "wk_handle w1 \<noteq> None"
  shows "turn_ended pc env c w r w'"
proof (cases "ev_probe env c h (worker_speed_test_context (pc_cfg pc) (pc_sha256_hex pc) c (ev_now env) (wk_db w1)) ''probe''")
  case (Inl e)
  with assms show ?thesis by (auto simp: probe_phase_def raised_by_def Let_def)
next
  case (Inr result)
  with assms show ?thesis
    by (auto simp: probe_phase_def waited_def Let_def intro!: exI [of _ w1])
qed

lemma start_phase_ends:
  assumes "start_phase pc env c w1 = (r, w')" and "during env w w1" and "wk_handle w1 = None"
    and "wk_connect_failures w1 = wk_connect_failures w"
  shows "turn_ended pc env c w r w'"
proof (cases "ev_start env")
  case (Inl e)
  with assms show ?thesis by (auto simp: start_phase_def raised_by_def)
next
  case (Inr sr)
  show ?thesis
  proof (cases "sr_handle sr")
    case None
    with assms Inr show ?thesis by (auto simp: start_phase_def waited_def Let_def intro!: exI [of _ w1])
  next
    case (Some h)
    define w2 where "w2 = (open_session h w1)\<lparr>wk_connect_failures := 0\<rparr>"
    obtain q w3 where save: "save_session_event pc env c (Some h) (ConnectionEventType_value TUNNEL_UP) w2 = (q, w3)"
      by (cases "save_session_event pc env c (Some h) (ConnectionEventType_value TUNNEL_UP) w2")
    note w3 = saved_event [OF save]
    have d3: "during env w w3" "wk_handle w3 \<noteq> None" using w3 assms(2) Inr Some by (auto simp: during_def w2_def)
    then have d4: "during env w (w3\<lparr>wk_sampler := ev_sampler_starts env\<rparr>)" "wk_handle (w3\<lparr>wk_sampler := ev_sampler_starts env\<rparr>) \<noteq> None"
      by (simp_all add: during_def)
    from assms(1) Inr Some have "(case q of Inl e \<Rightarrow> (Raised e, w3)
        | Inr _ \<Rightarrow> probe_phase pc env c h (w3\<lparr>wk_sampler := ev_sampler_starts env\<rparr>)) = (r, w')"
      using save by (cases q) (simp_all add: start_phase_def Let_def w2_def)
    with w3 d3 probe_phase_ends [OF _ d4] show ?thesis by (cases q) auto
  qed
qed

lemma loop_body_ends:
  assumes "loop_body pc env c w1 = (r, w')" and "w1 = w\<lparr>wk_db := db\<rparr>"
  shows "turn_ended pc env c w r w'"
proof (cases "wk_handle w1")
  case None
  have "start_phase pc env c (stop_sampler w1) = (r, w')" using assms(1) None by (simp add: loop_body_def)
  from start_phase_ends [OF this] None assms(2) show ?thesis by (simp add: during_def)
next
  case (Some h)
  show ?thesis
  proof (cases "ev_session_up env")
    case True
    with Some assms(1) have "probe_phase pc env c h w1 = (r, w')" by (simp add: loop_body_def)
    from probe_phase_ends [OF this] Some assms(2) show ?thesis by (simp add: during_def)
  next
    case False
    obtain q w2 where save: "save_session_event pc env c (Some h) (ConnectionEventType_value TUNNEL_DOWN) (stop_sampler w1) = (q, w2)"
      by (cases "save_session_event pc env c (Some h) (ConnectionEventType_value TUNNEL_DOWN) (stop_sampler w1)")
    note w2 = saved_event [OF save]
    define w3 where "w3 = snd (waited RECONNECT_DELAY_SECONDS (ev_stop_in_reconnect env) (close_session w2))"
    obtain q' w4 where again: "save_session_event pc env c None (ConnectionEventType_value RECONNECT) w3 = (q', w4)"
      by (cases "save_session_event pc env c None (ConnectionEventType_value RECONNECT) w3")
    note w4 = saved_event [OF again]
    have d2: "during env w w2" using w2 assms(2) by (simp add: during_def)
    have d4: "during env w w4" "wk_handle w4 = None" "wk_connect_failures w4 = wk_connect_failures w"
      using w2 w4 assms(2) Some False by (simp_all add: during_def w3_def waited_def RECONNECT_DELAY_SECONDS_def)
    have "(case q of Inl e \<Rightarrow> (Raised e, w2) | Inr _ \<Rightarrow> if ev_stop_in_reconnect env then (Break, w3)
        else start_phase pc env c w4) = (r, w')"
      using assms(1) Some False save again by (cases q) (auto simp: loop_body_def waited_def w3_def Let_def)
    with w2 d2 start_phase_ends [OF _ d4] show ?thesis by (cases q) (auto split: if_splits)
  qed
qed

lemma handle_exception_waits:
  assumes "handle_exception pc env c e w1 = (Again, w')"
  shows "wk_handle w' = None \<and> (case e of
      NetnsPermissionError \<Rightarrow> wk_connect_failures w' = wk_connect_failures w1 \<and> wk_waits w' = 60 # wk_waits w1
    | OtherError \<Rightarrow> wk_connect_failures w' = Suc (wk_connect_failures w1)
        \<and> wk_waits w' = connect_backoff (wk_connect_failures w') # wk_waits w1)"
  using assms
  by (cases e) (auto simp: handle_exception_def waited_def Let_def NETNS_PERMISSION_BACKOFF_SECONDS_def split: if_splits)

text \<open>
  C21. A worker never spins, and it backs off. In every turn of its loop that is followed by another turn it found its component
  still to be monitored, waited at most 5 seconds for a reconnect, and then at the end either holds its session and waits for
  the poll interval of the component by the current settings; or it has no session because the network namespace was not
  permitted, and waits 60 seconds without counting a failure; or because the tunnel did not come up or something else raised,
  counts one more failure in a row (from zero if a tunnel came up in between) and waits 5, 10, 20, 40 and then always 60 seconds
  by this count.
\<close>

theorem worker_waits_before_next_turn:
  assumes "iteration pc env cid w = (Again, w')"
  shows "\<exists>c s before n. get_component cid (ev_others env (wk_db w)) = Some c \<and> should_run_worker c
    \<and> wk_waits w' = s # before @ wk_waits w \<and> (before = [] \<or> before = [5] \<and> wk_handle w \<noteq> None \<and> \<not> ev_session_up env)
    \<and> (n = wk_connect_failures w \<or> n = 0 \<and> (\<exists>sr h. ev_start env = Inr sr \<and> sr_handle sr = Some h))
    \<and> (wk_handle w' \<noteq> None \<and> wk_connect_failures w' = n
         \<and> s = effective_poll_interval c (fst (get_monitoring_settings (pc_cfg pc) (wk_db w')))
       \<or> wk_handle w' = None \<and> wk_connect_failures w' = n \<and> s = 60
         \<and> (ev_start env = Inl NetnsPermissionError \<or> (\<exists>h ctx event. ev_probe env c h ctx event = Inl NetnsPermissionError))
       \<or> wk_handle w' = None \<and> wk_connect_failures w' = n + 1 \<and> s = min (5 * 2 ^ min n 4) 60
         \<and> ((\<exists>sr. ev_start env = Inr sr \<and> sr_handle sr = None)
            \<or> ev_start env = Inl OtherError \<or> (\<exists>h ctx event. ev_probe env c h ctx event = Inl OtherError)))"
proof -
  define w1 where "w1 = w\<lparr>wk_db := ev_others env (wk_db w)\<rparr>"
  obtain c r w2 where c: "get_component cid (ev_others env (wk_db w)) = Some c" "should_run_worker c"
    and body: "loop_body pc env c w1 = (r, w2)"
    and rest: "(case r of Raised e \<Rightarrow> handle_exception pc env c e w2 | other \<Rightarrow> (other, w2)) = (Again, w')"
    using assms by (auto simp: iteration_def Let_def w1_def split: if_splits option.splits prod.splits flow.splits intro: that)
  note ended = loop_body_ends [OF body w1_def]
  have backoff: "connect_backoff (Suc n) = min (5 * 2 ^ min n 4) 60" for n
    by (simp add: connect_backoff_def RECONNECT_DELAY_SECONDS_def CONNECT_FAILURE_BACKOFF_CAP_SECONDS_def)
  show ?thesis
  proof (cases r)
    case Again
    with rest ended obtain w3 where "during env w w3"
      "wk_handle w' \<noteq> None \<and> wk_connect_failures w' = wk_connect_failures w3
           \<and> wk_waits w' = effective_poll_interval c (fst (get_monitoring_settings (pc_cfg pc) (wk_db w'))) # wk_waits w3
         \<or> wk_handle w' = None \<and> (\<exists>sr. ev_start env = Inr sr \<and> sr_handle sr = None)
           \<and> wk_connect_failures w' = Suc (wk_connect_failures w)
           \<and> wk_waits w' = connect_backoff (wk_connect_failures w') # wk_waits w3"
      by auto
    with c backoff show ?thesis by (auto simp: during_def)
  next
    case (Raised e)
    with rest have "handle_exception pc env c e w2 = (Again, w')" by simp
    from handle_exception_waits [OF this] ended c backoff Raised show ?thesis
      by (cases e) (auto simp: during_def raised_by_def)
  qed (use rest in simp)
qed

definition failing_surroundings :: surroundings where
  "failing_surroundings = good_surroundings\<lparr>ev_start := Inr \<lparr>sr_handle = None, sr_error_message = None, sr_log_tail = None\<rparr>\<rparr>"

lemma worker_waits_before_next_turn_witness:
  "\<exists>w'. iteration sample_process failing_surroundings ''c1'' (new_worker vpn_database) = (Again, w') \<and> wk_waits w' \<noteq> []"
proof -
  have "should_run_worker (sample_component\<lparr>mc_connection_mode := ''persistent''\<rparr>)"
    by (simp add: should_run_worker_def sample_component_def PERSISTENT_VPN_CHECK_TYPES_def)
  then have "fst (iteration sample_process failing_surroundings ''c1'' (new_worker vpn_database)) = Again"
    by (simp add: iteration_def failing_surroundings_def good_surroundings_def new_worker_def vpn_database_def
        get_component_def lookup_row_def loop_body_def start_phase_def waited_def Let_def sample_component_def)
  then obtain w' where it: "iteration sample_process failing_surroundings ''c1'' (new_worker vpn_database) = (Again, w')"
    by (metis prod.collapse)
  from worker_waits_before_next_turn [OF it] it show ?thesis by auto
qed

section \<open>A connection that fails\<close>

text \<open>
  A turn in which the tunnel does not come up counts one more failure, waits 5 s doubled with every failure
  in a row up to 60 s, and leaves a trace: one more stored result, a timeout of this component, its check time,
  and one \<open>connect_failed\<close> event.
\<close>

theorem failed_connection_recorded:
  assumes "get_component cid (ev_others env (wk_db w)) = Some c" and "should_run_worker c"
    and "\<not> ev_stopped env" and "wk_handle w = None" and "ev_start env = Inr sr" and "sr_handle sr = None"
    and "iteration pc env cid w = (r, w')"
  shows "wk_connect_failures w' = Suc (wk_connect_failures w)
    \<and> wk_waits w' = min (5 * 2 ^ min (wk_connect_failures w) 4) 60 # wk_waits w
    \<and> (\<exists>result. db_results (wk_db w') = db_results (ev_others env (wk_db w)) @ [result]
         \<and> cr_monitored_component_id result = cid \<and> cr_outcome result = ''timeout'' \<and> cr_checked_at result = Aware (ev_now env))
    \<and> (\<exists>c'. get_component cid (wk_db w') = Some c' \<and> mc_last_checked_at c' = Some (Aware (ev_now env)))
    \<and> (\<exists>event. db_events (wk_db w') = db_events (ev_others env (wk_db w)) @ [event]
         \<and> ce_monitored_component_id event = cid \<and> ce_event_type event = ''connect_failed'')"
proof -
  define db where "db = ev_others env (wk_db w)"
  have cid: "mc_id c = cid" and get: "get_component cid db = Some c"
    using assms(1) lookup_row_key by (auto simp: get_component_def db_def)
  define w1 where "w1 = (stop_sampler (w\<lparr>wk_db := db\<rparr>))\<lparr>wk_connect_failures := wk_connect_failures w + 1\<rparr>"
  have w1: "wk_db w1 = db" "wk_waits w1 = wk_waits w" "wk_connect_failures w1 = wk_connect_failures w + 1"
    by (simp_all add: w1_def stop_sampler_def)
  obtain rid message details where result: "wk_db (save_connect_failure pc (ev_now env) c sr w1) =
      snd (record_connection_event (pc_fresh_id pc) cid ''connect_failed'' (ev_now env) (Some ''timeout'') (Some message) details
        (persist_result c (vpn_result rid c (ev_now env) ''timeout'' message details) db))"
    by (auto simp: save_connect_failure_def add_event_def Let_def w1 cid intro: that)
  have keep: "wk_connect_failures (save_connect_failure pc (ev_now env) c sr w1) = wk_connect_failures w + 1"
    by (simp add: save_connect_failure_def add_event_def Let_def w1)
  have "iteration pc env cid w = waited (connect_backoff (wk_connect_failures w + 1)) (ev_stop_in_wait env)
      (save_connect_failure pc (ev_now env) c sr w1)"
    using assms(1-6) keep by (auto simp: iteration_def loop_body_def start_phase_def Let_def w1_def db_def stop_sampler_def
        waited_def split: flow.splits)
  with assms(7) have w': "wk_db w' = wk_db (save_connect_failure pc (ev_now env) c sr w1)"
      "wk_waits w' = connect_backoff (wk_connect_failures w + 1) # wk_waits w" "wk_connect_failures w' = wk_connect_failures w + 1"
    using keep w1(2) by (auto simp: waited_def)
  have persist: "persist_result c x db = add_result x (save_component (c\<lparr>mc_last_checked_at := Some (cr_checked_at x)\<rparr>) db)" for x
    using get cid by (simp add: persist_result_def)
  have saved: "get_component cid (save_component (c\<lparr>mc_last_checked_at := t\<rparr>) db) = Some (c\<lparr>mc_last_checked_at := t\<rparr>)" for t
    using component_table.get_save [of "c\<lparr>mc_last_checked_at := t\<rparr>" db cid] get cid by simp
  have comp: "get_component cid (d\<lparr>db_results := x\<rparr>) = get_component cid d" "get_component cid (d\<lparr>db_events := y\<rparr>) = get_component cid d" for d x y
    by (simp_all add: get_component_def)
  have "db_results (save_component k db) = db_results db" "db_events (save_component k db) = db_events db" for k
    by (simp_all add: save_component_def)
  moreover have "''connect_failed'' \<in> set CONNECTION_EVENT_TYPES" by (simp add: CONNECTION_EVENT_TYPES_def)
  moreover have "connect_backoff (wk_connect_failures w + 1) = min (5 * 2 ^ min (wk_connect_failures w) 4) 60"
    by (simp add: connect_backoff_def RECONNECT_DELAY_SECONDS_def CONNECT_FAILURE_BACKOFF_CAP_SECONDS_def)
  ultimately show ?thesis
    unfolding w'(1) result w'(2,3) db_def [symmetric] persist
    by (simp add: record_connection_event_def add_result_def comp saved vpn_result_def cid)
qed

lemma failed_connection_recorded_witness:
  "\<exists>r w'. iteration sample_process failing_surroundings ''c1'' (new_worker vpn_database) = (r, w')
     \<and> wk_waits w' = [5] \<and> (\<exists>result. db_results (wk_db w') = [result] \<and> cr_outcome result = ''timeout'')"
proof -
  obtain r w' where it: "iteration sample_process failing_surroundings ''c1'' (new_worker vpn_database) = (r, w')"
    by (metis surj_pair)
  let ?c = "sample_component\<lparr>mc_connection_mode := ''persistent''\<rparr>"
  have "get_component ''c1'' (ev_others failing_surroundings (wk_db (new_worker vpn_database))) = Some ?c"
    by (simp add: failing_surroundings_def good_surroundings_def new_worker_def vpn_database_def get_component_def lookup_row_def sample_component_def)
  moreover have "should_run_worker ?c" by (simp add: should_run_worker_def sample_component_def PERSISTENT_VPN_CHECK_TYPES_def)
  moreover have "\<not> ev_stopped failing_surroundings" "wk_handle (new_worker vpn_database) = None"
    by (simp_all add: failing_surroundings_def good_surroundings_def new_worker_def)
  moreover have "ev_start failing_surroundings = Inr \<lparr>sr_handle = None, sr_error_message = None, sr_log_tail = None\<rparr>"
    by (simp add: failing_surroundings_def)
  ultimately have "wk_waits w' = min (5 * 2 ^ min (wk_connect_failures (new_worker vpn_database)) 4) 60 # wk_waits (new_worker vpn_database)
      \<and> (\<exists>result. db_results (wk_db w') = db_results (ev_others failing_surroundings (wk_db (new_worker vpn_database))) @ [result]
           \<and> cr_outcome result = ''timeout'')"
    using failed_connection_recorded [OF _ _ _ _ _ _ it] by fastforce
  with it show ?thesis
    by (auto simp: new_worker_def failing_surroundings_def good_surroundings_def vpn_database_def empty_database_def)
qed

section \<open>Probe transitions alternate\<close>

fun probe_events :: "bool option \<Rightarrow> string list \<Rightarrow> ConnectionEventType list" where
  \<comment> \<open>the transitions recorded for a sequence of probe outcomes\<close>
  "probe_events last_ok [] = []"
| "probe_events last_ok (outcome # os) =
     (case probe_transition last_ok outcome of
        (None, last_ok) \<Rightarrow> probe_events last_ok os
      | (Some e, last_ok) \<Rightarrow> e # probe_events last_ok os)"

fun alternating :: "ConnectionEventType \<Rightarrow> ConnectionEventType \<Rightarrow> ConnectionEventType list \<Rightarrow> bool" where
  "alternating a b [] = True"
| "alternating a b (x # xs) \<longleftrightarrow> x = a \<and> alternating b a xs"

lemma probe_events_alternate:
  "(last_ok \<noteq> Some False \<longrightarrow> alternating UNAVAILABLE AVAILABLE (probe_events last_ok os))
   \<and> (last_ok = Some False \<longrightarrow> alternating AVAILABLE UNAVAILABLE (probe_events last_ok os))"
proof (induction os arbitrary: last_ok)
  case (Cons outcome os)
  show ?case
    using Cons.IH [of last_ok] Cons.IH [of "Some True"] Cons.IH [of "Some False"]
    by (auto simp: probe_transition_def Let_def)
qed simp

text \<open>
  The probe transitions a worker records alternate: "internet unavailable" first, then "restored", then
  "unavailable" again, and so on; repeated failures or successes and checks that are neither (timeouts, errors)
  record nothing.
\<close>

theorem probe_transitions_alternate: "alternating UNAVAILABLE AVAILABLE (probe_events None outcomes)"
  using probe_events_alternate [of None outcomes] by simp

text \<open>The events a worker stores are these.\<close>

lemma probe_transition_stored:
  "db_events (wk_db (maybe_record_probe_transition pc c result w)) = db_events (wk_db w) \<or>
   (\<exists>e x. fst (probe_transition (wk_last_probe_ok w) (cr_outcome result)) = Some e
      \<and> db_events (wk_db (maybe_record_probe_transition pc c result w)) = db_events (wk_db w) @ [x]
      \<and> ce_event_type x = ConnectionEventType_value e)"
  by (auto simp: maybe_record_probe_transition_def add_event_def record_connection_event_def Let_def
      split: option.splits prod.splits)

section \<open>A pool of workers as a map\<close>

text \<open>
  What synchronising relies on: a pool behaves as a map from identifiers to what each worker was started for, and
  starting or stopping one worker leaves the threads of the others alone.
\<close>

locale worker_pool =
  fixes inv :: "'s \<Rightarrow> bool"
    and lookup :: "'s \<Rightarrow> 'k \<Rightarrow> 'v option"
    and thread :: "'s \<Rightarrow> 'k \<Rightarrow> nat option"
    and start :: "'k \<Rightarrow> 'v \<Rightarrow> 's \<Rightarrow> 's"
    and stop :: "'k \<Rightarrow> 's \<Rightarrow> 's"
  assumes inv_start: "inv s \<Longrightarrow> lookup s k = None \<Longrightarrow> inv (start k v s)"
    and inv_stop: "inv s \<Longrightarrow> inv (stop k s)"
    and lookup_start: "inv s \<Longrightarrow> lookup (start k v s) k' = (if k' = k then Some v else lookup s k')"
    and lookup_stop: "inv s \<Longrightarrow> lookup (stop k s) k' = (if k' = k then None else lookup s k')"
    and thread_start: "k' \<noteq> k \<Longrightarrow> thread (start k v s) k' = thread s k'"
    and thread_stop: "k' \<noteq> k \<Longrightarrow> thread (stop k s) k' = thread s k'"
begin

lemma fold_stop:
  "inv s \<Longrightarrow> inv (fold stop ks s) \<and> lookup (fold stop ks s) k = (if k \<in> set ks then None else lookup s k)
     \<and> (k \<notin> set ks \<longrightarrow> thread (fold stop ks s) k = thread s k)"
  by (induction ks arbitrary: s) (auto simp: inv_stop lookup_stop thread_stop)

lemma fold_sync:
  assumes "inv s" and "distinct ks" and "\<forall>k \<in> set ks. k \<in> R \<longleftrightarrow> lookup s k \<noteq> None"
  shows "let s' = fold (\<lambda>k s. case snap k of None \<Rightarrow> s
                 | Some d \<Rightarrow> if k \<notin> R \<or> lookup s k \<noteq> Some d then start k d (if k \<in> R then stop k s else s) else s) ks s
     in inv s' \<and> lookup s' k = (if k \<in> set ks \<and> snap k \<noteq> None then snap k else lookup s k)
        \<and> (k \<notin> set ks \<or> snap k = None \<or> snap k = lookup s k \<longrightarrow> thread s' k = thread s k)"
  using assms
proof (induction ks arbitrary: s)
  case Nil
  then show ?case by simp
next
  case (Cons c ks)
  define s1 where "s1 = (case snap c of None \<Rightarrow> s
      | Some d \<Rightarrow> if c \<notin> R \<or> lookup s c \<noteq> Some d then start c d (if c \<in> R then stop c s else s) else s)"
  have R: "c \<in> R \<longleftrightarrow> lookup s c \<noteq> None" using Cons.prems(3) by simp
  have s1: "inv s1" "\<And>k. lookup s1 k = (if k = c \<and> snap c \<noteq> None then snap c else lookup s k)"
    "\<And>k. k \<noteq> c \<or> snap c = None \<or> snap c = lookup s c \<Longrightarrow> thread s1 k = thread s k"
    using Cons.prems(1) R
    by (auto simp: s1_def inv_start inv_stop lookup_start lookup_stop thread_start thread_stop split: option.splits if_splits)
  have "\<forall>k \<in> set ks. k \<in> R \<longleftrightarrow> lookup s1 k \<noteq> None" using Cons.prems s1(2) by auto
  note IH = Cons.IH [OF s1(1) _ this]
  show ?case unfolding fold_simps s1_def [symmetric]
    using IH Cons.prems(2) s1(2) [of k] s1(3) [of k] by (auto simp: Let_def split: if_splits)
qed

end

text \<open>A pool that numbers its threads as it starts them.\<close>

locale numbered_pool = worker_pool +
  fixes count :: "'a \<Rightarrow> nat"
  assumes thread_started: "thread (start k v s) k = Some (count s)"
    and count_start: "count (start k v s) = Suc (count s)"
    and count_stop: "count (stop k s) = count s"
begin

definition sync_step :: "('b \<Rightarrow> 'c option) \<Rightarrow> 'b set \<Rightarrow> 'b \<Rightarrow> 'a \<Rightarrow> 'a" where
  "sync_step snap R k s = (case snap k of None \<Rightarrow> s
     | Some d \<Rightarrow> if k \<notin> R \<or> lookup s k \<noteq> Some d then start k d (if k \<in> R then stop k s else s) else s)"

lemma sync_step_eq:
  "sync_step snap R = (\<lambda>k s. case snap k of None \<Rightarrow> s
     | Some d \<Rightarrow> if k \<notin> R \<or> lookup s k \<noteq> Some d then start k d (if k \<in> R then stop k s else s) else s)"
  by (rule ext)+ (simp add: sync_step_def)

lemma count_fold_stop: "count (fold stop ks s) = count s"
  by (induction ks arbitrary: s) (simp_all add: count_stop)

lemma sync_step_new:
  "count s \<le> count (sync_step snap R k s)"
  "snap k \<noteq> None \<Longrightarrow> snap k \<noteq> lookup s k \<Longrightarrow> thread (sync_step snap R k s) k = Some (count s)"
  by (auto simp: sync_step_def count_start count_stop thread_started split: option.splits if_splits)

lemma fold_restarts:
  assumes "inv s" and "distinct ks" and "\<forall>k \<in> set ks. k \<in> R \<longleftrightarrow> lookup s k \<noteq> None"
  shows "count s \<le> count (fold (sync_step snap R) ks s)
     \<and> (k \<in> set ks \<and> snap k \<noteq> None \<and> snap k \<noteq> lookup s k \<longrightarrow>
          (\<exists>t \<ge> count s. thread (fold (sync_step snap R) ks s) k = Some t))"
  using assms
proof (induction ks arbitrary: s)
  case Nil
  then show ?case by simp
next
  case (Cons c ks)
  let ?s1 = "sync_step snap R c s"
  have R: "c \<in> R \<longleftrightarrow> lookup s c \<noteq> None" using Cons.prems(3) by simp
  have inv: "inv ?s1" and look: "\<And>k. lookup ?s1 k = (if k = c \<and> snap c \<noteq> None then snap c else lookup s k)"
    using Cons.prems(1) R
    by (auto simp: sync_step_def inv_start inv_stop lookup_start lookup_stop split: option.splits if_splits)
  have present: "\<forall>k \<in> set ks. k \<in> R \<longleftrightarrow> lookup ?s1 k \<noteq> None" using Cons.prems look by auto
  have d: "distinct ks" "c \<notin> set ks" using Cons.prems(2) by simp_all
  note IH = Cons.IH [OF inv d(1) present]
  show ?case
  proof (cases "k = c")
    case True
    have "thread (fold (sync_step snap R) ks ?s1) c = thread ?s1 c"
      using fold_sync [OF inv d(1) present, of snap c, unfolded Let_def, folded sync_step_eq] d(2) by simp
    with True IH d(2) sync_step_new [where s = s and k = c] show ?thesis by (auto intro: le_trans)
  next
    case False
    with IH look [of k] sync_step_new(1) [where s = s and k = c] show ?thesis by (auto intro: le_trans)
  qed
qed

end

text \<open>The three dictionaries agree, and every thread ever started is in the pool or was told to stop.\<close>

definition supervisor_inv :: "supervisor \<Rightarrow> bool" where
  "supervisor_inv sv \<longleftrightarrow> sv_stop_events sv = sv_workers sv \<and> map fst (sv_snapshots sv) = map fst (sv_workers sv)
     \<and> distinct (map fst (sv_workers sv)) \<and> distinct (map snd (sv_workers sv))
     \<and> set (sv_stopped sv) \<union> snd ` set (sv_workers sv) = {..<sv_started sv}
     \<and> set (sv_stopped sv) \<inter> snd ` set (sv_workers sv) = {}"

lemma update_absent_append: "k \<notin> fst ` set m \<Longrightarrow> AList.update k v m = m @ [(k, v)]"
  by (induction m) auto

lemma map_fst_delete: "map fst (AList.delete k m) = filter (\<lambda>x. x \<noteq> k) (map fst m)"
  by (induction m) (auto simp: AList.delete_eq)

lemma map_of_None_keys: "map fst m = map fst m' \<Longrightarrow> map_of m k = None \<longleftrightarrow> map_of m' k = None"
  by (metis list.set_map map_of_eq_None_iff)

lemma supervisor_inv_start:
  assumes "supervisor_inv sv" and "map_of (sv_snapshots sv) cid = None"
  shows "supervisor_inv (start_worker cid sn sv)"
proof -
  have fresh: "cid \<notin> fst ` set (sv_workers sv)" "cid \<notin> fst ` set (sv_snapshots sv)"
    using assms map_of_None_keys [of "sv_snapshots sv" "sv_workers sv" cid]
    by (simp_all add: supervisor_inv_def map_of_eq_None_iff)
  have new: "sv_started sv \<notin> set (sv_stopped sv)" "sv_started sv \<notin> snd ` set (sv_workers sv)"
    using assms(1) by (auto simp: supervisor_inv_def)
  show ?thesis
    using assms(1) fresh new by (auto simp: supervisor_inv_def start_worker_def update_absent_append lessThan_Suc)
qed

lemma set_delete_thread:
  assumes "distinct (map fst m)" and "distinct (map snd m)" and "map_of m k = Some t"
  shows "snd ` set (AList.delete k m) = snd ` set m - {t}"
  using assms
proof (induction m)
  case (Cons p m)
  show ?case
  proof (cases "fst p = k")
    case True
    with Cons.prems have "snd p = t" and k: "k \<notin> fst ` set m" and t: "t \<notin> snd ` set m" by (auto simp: image_iff)
    moreover have "AList.delete k m = m" using k by (rule delete_id)
    ultimately show ?thesis using True t by (cases p) (auto simp: AList.delete_eq)
  next
    case False
    with Cons.prems have m: "map_of m k = Some t" by (cases p) auto
    then have "t \<in> snd ` set m" by (metis imageI map_of_SomeD snd_conv)
    with Cons.prems have "snd p \<noteq> t" by auto
    with False Cons.IH Cons.prems m show ?thesis by (cases p) (auto simp: AList.delete_eq)
  qed
qed simp

lemma supervisor_inv_stop: "supervisor_inv sv \<Longrightarrow> supervisor_inv (stop_worker cid sv)"
proof (cases "map_of (sv_workers sv) cid")
  case None
  assume inv: "supervisor_inv sv"
  with None have "map_of (sv_snapshots sv) cid = None"
    using map_of_None_keys [of "sv_snapshots sv" "sv_workers sv" cid] by (simp add: supervisor_inv_def)
  with None have "AList.delete cid (sv_workers sv) = sv_workers sv" "AList.delete cid (sv_snapshots sv) = sv_snapshots sv"
    by (auto intro: delete_id simp: map_of_eq_None_iff)
  with inv None show ?thesis by (auto simp: supervisor_inv_def stop_worker_def)
next
  case (Some t)
  assume inv: "supervisor_inv sv"
  then have d: "distinct (map fst (sv_workers sv))" "distinct (map snd (sv_workers sv))" by (simp_all add: supervisor_inv_def)
  have "distinct (map snd (AList.delete cid (sv_workers sv)))"
    using d(2) unfolding AList.delete_eq by (rule Prelude.distinct_map_filter)
  moreover have "t \<in> snd ` set (sv_workers sv)" using map_of_SomeD [OF Some] by force
  ultimately show ?thesis
    using inv d Some set_delete_thread [OF d Some]
    by (auto simp: supervisor_inv_def stop_worker_def map_fst_delete)
qed

interpretation supervised: worker_pool supervisor_inv "\<lambda>sv. map_of (sv_snapshots sv)" "\<lambda>sv. map_of (sv_workers sv)"
  start_worker stop_worker
  by unfold_locales
    (simp_all add: supervisor_inv_start supervisor_inv_stop, simp_all add: start_worker_def stop_worker_def update_conv' delete_conv')

lemma sync_one_eq:
  "sync_one snap R = (\<lambda>k s. case snap k of None \<Rightarrow> s
     | Some d \<Rightarrow> if k \<notin> R \<or> map_of (sv_snapshots s) k \<noteq> Some d
                 then start_worker k d (if k \<in> R then stop_worker k s else s) else s)"
  by (rule ext)+ (simp add: sync_one_def)

lemma sync_map:
  assumes "supervisor_inv sv"
  shows "supervisor_inv (sync_workers ids snap sv)
    \<and> map_of (sv_snapshots (sync_workers ids snap sv)) cid =
        (if cid \<notin> set ids then None else if snap cid \<noteq> None then snap cid else map_of (sv_snapshots sv) cid)
    \<and> (cid \<in> set ids \<and> snap cid = map_of (sv_snapshots sv) cid \<longrightarrow>
         map_of (sv_workers (sync_workers ids snap sv)) cid = map_of (sv_workers sv) cid)"
proof -
  let ?R = "map fst (sv_workers sv)"
  let ?gone = "filter (\<lambda>c. c \<notin> set ids) ?R"
  define s1 where "s1 = fold stop_worker ?gone sv"
  have s1: "supervisor_inv s1" "\<And>k. map_of (sv_snapshots s1) k = (if k \<in> set ?gone then None else map_of (sv_snapshots sv) k)"
    "\<And>k. k \<notin> set ?gone \<Longrightarrow> map_of (sv_workers s1) k = map_of (sv_workers sv) k"
    using supervised.fold_stop [OF assms, of ?gone] by (auto simp: s1_def)
  have keys: "k \<in> set ?R \<longleftrightarrow> map_of (sv_snapshots sv) k \<noteq> None" for k
    using assms by (metis list.set_map map_of_eq_None_iff supervisor_inv_def)
  have "\<forall>k \<in> set (remdups ids). k \<in> set ?R \<longleftrightarrow> map_of (sv_snapshots s1) k \<noteq> None"
    using keys s1(2) by auto
  note sync = supervised.fold_sync [OF s1(1) distinct_remdups this, of snap cid, unfolded Let_def]
  have eq: "sync_workers ids snap sv = fold (sync_one snap (set ?R)) (remdups ids) s1"
    by (simp add: sync_workers_def Let_def s1_def)
  have gone: "cid \<notin> set ids \<Longrightarrow> map_of (sv_snapshots s1) cid = None" using s1(2) [of cid] keys [of cid] by auto
  have kept: "cid \<in> set ids \<Longrightarrow> map_of (sv_snapshots s1) cid = map_of (sv_snapshots sv) cid
      \<and> map_of (sv_workers s1) cid = map_of (sv_workers sv) cid" using s1(2,3) [of cid] by auto
  show ?thesis unfolding eq sync_one_eq using sync gone kept by auto
qed

interpretation numbered: numbered_pool supervisor_inv "\<lambda>sv. map_of (sv_snapshots sv)" "\<lambda>sv. map_of (sv_workers sv)"
  start_worker stop_worker sv_started
  by unfold_locales (simp_all add: start_worker_def stop_worker_def update_conv')

lemma supervisor_keys: "supervisor_inv sv \<Longrightarrow> k \<in> set (map fst (sv_workers sv)) \<longleftrightarrow> map_of (sv_snapshots sv) k \<noteq> None"
  by (metis list.set_map map_of_eq_None_iff supervisor_inv_def)

lemma sync_threads:
  assumes "supervisor_inv sv"
  shows "sv_started sv \<le> sv_started (sync_workers ids snap sv)
    \<and> (cid \<in> set ids \<and> (snap cid = None \<or> snap cid = map_of (sv_snapshots sv) cid) \<longrightarrow>
         map_of (sv_workers (sync_workers ids snap sv)) cid = map_of (sv_workers sv) cid)
    \<and> (cid \<in> set ids \<and> snap cid \<noteq> None \<and> snap cid \<noteq> map_of (sv_snapshots sv) cid \<longrightarrow>
         (\<exists>t \<ge> sv_started sv. map_of (sv_workers (sync_workers ids snap sv)) cid = Some t))
    \<and> (cid \<notin> set ids \<longrightarrow> map_of (sv_workers (sync_workers ids snap sv)) cid = None)"
proof -
  let ?R = "map fst (sv_workers sv)"
  let ?gone = "filter (\<lambda>c. c \<notin> set ids) ?R"
  define s1 where "s1 = fold stop_worker ?gone sv"
  have s1: "supervisor_inv s1" "\<And>k. map_of (sv_snapshots s1) k = (if k \<in> set ?gone then None else map_of (sv_snapshots sv) k)"
    "\<And>k. k \<notin> set ?gone \<Longrightarrow> map_of (sv_workers s1) k = map_of (sv_workers sv) k" "sv_started s1 = sv_started sv"
    using supervised.fold_stop [OF assms, of ?gone] numbered.count_fold_stop [of ?gone sv] by (auto simp: s1_def)
  have R: "\<forall>k \<in> set (remdups ids). k \<in> set ?R \<longleftrightarrow> map_of (sv_snapshots s1) k \<noteq> None"
    using supervisor_keys [OF assms] s1(2) by auto
  note sync = supervised.fold_sync [OF s1(1) distinct_remdups R, of snap cid, unfolded Let_def]
    and restarts = numbered.fold_restarts [OF s1(1) distinct_remdups R, of snap cid, unfolded numbered.sync_step_eq]
  have eq: "sync_workers ids snap sv = fold (sync_one snap (set ?R)) (remdups ids) s1"
    by (simp add: sync_workers_def Let_def s1_def)
  have kept: "cid \<in> set ids \<Longrightarrow> map_of (sv_snapshots s1) cid = map_of (sv_snapshots sv) cid
      \<and> map_of (sv_workers s1) cid = map_of (sv_workers sv) cid" using s1(2,3) [of cid] by auto
  have "cid \<notin> set ids \<Longrightarrow> map_of (sv_snapshots (sync_workers ids snap sv)) cid = None"
    using sync_map [OF assms, of ids snap cid] by simp
  then have gone: "cid \<notin> set ids \<Longrightarrow> map_of (sv_workers (sync_workers ids snap sv)) cid = None"
    using sync_map [OF assms, of ids snap cid]
      map_of_None_keys [of "sv_snapshots (sync_workers ids snap sv)" "sv_workers (sync_workers ids snap sv)" cid]
    by (simp add: supervisor_inv_def)
  show ?thesis using sync restarts kept gone s1(4) unfolding eq sync_one_eq by auto
qed

lemma thread_number: "supervisor_inv sv \<Longrightarrow> map_of (sv_workers sv) k = Some t \<Longrightarrow> t < sv_started sv"
  unfolding supervisor_inv_def by (metis UnCI image_eqI lessThan_iff map_of_SomeD snd_conv)

lemma thread_owner:
  assumes "supervisor_inv sv" "map_of (sv_workers sv) k = Some t" "map_of (sv_workers sv) k' = Some t"
  shows "k' = k"
proof -
  have "inj_on snd (set (sv_workers sv))" using assms(1) by (simp add: supervisor_inv_def distinct_map)
  moreover have "(k, t) \<in> set (sv_workers sv)" "(k', t) \<in> set (sv_workers sv)" using assms(2,3) by (simp_all add: map_of_SomeD)
  ultimately show ?thesis by (metis fst_conv inj_on_def snd_conv)
qed

lemma sync_stops:
  assumes inv: "supervisor_inv sv" and old: "map_of (sv_workers sv) cid = Some t"
    and new: "map_of (sv_workers (sync_workers ids snap sv)) cid \<noteq> Some t"
  shows "t \<in> set (sv_stopped (sync_workers ids snap sv))"
proof -
  let ?s = "sync_workers ids snap sv"
  have inv': "supervisor_inv ?s" using sync_map [OF inv] by simp
  have "t < sv_started ?s" using thread_number [OF inv old] sync_threads [OF inv, of ids snap cid] by linarith
  then have "t \<in> set (sv_stopped ?s) \<union> snd ` set (sv_workers ?s)" using inv' by (simp add: supervisor_inv_def)
  moreover have "t \<notin> snd ` set (sv_workers ?s)"
  proof
    assume "t \<in> snd ` set (sv_workers ?s)"
    then obtain k where k: "map_of (sv_workers ?s) k = Some t"
      using inv' by (auto simp: supervisor_inv_def)
    moreover have "t < sv_started sv" using thread_number [OF inv old] .
    ultimately have "map_of (sv_workers sv) k = Some t" using sync_threads [OF inv, of ids snap k] by force
    with thread_owner [OF inv old] k new show False by blast
  qed
  ultimately show ?thesis by blast
qed

lemma sync_workers_contract:
  assumes "supervisor_inv sv"
  shows "supervisor_inv (sync_workers ids snap sv)
    \<and> map_of (sv_snapshots (sync_workers ids snap sv)) cid =
        (if cid \<notin> set ids then None else if snap cid \<noteq> None then snap cid else map_of (sv_snapshots sv) cid)
    \<and> (cid \<notin> set ids \<longrightarrow> map_of (sv_workers (sync_workers ids snap sv)) cid = None)
    \<and> (cid \<in> set ids \<and> (snap cid = None \<or> snap cid = map_of (sv_snapshots sv) cid) \<longrightarrow>
         map_of (sv_workers (sync_workers ids snap sv)) cid = map_of (sv_workers sv) cid)
    \<and> (cid \<in> set ids \<and> snap cid \<noteq> None \<and> snap cid \<noteq> map_of (sv_snapshots sv) cid \<longrightarrow>
         (\<exists>t \<ge> sv_started sv. map_of (sv_workers (sync_workers ids snap sv)) cid = Some t))
    \<and> (\<forall>t. map_of (sv_workers sv) cid = Some t \<and> map_of (sv_workers (sync_workers ids snap sv)) cid \<noteq> Some t \<longrightarrow>
         t \<in> set (sv_stopped (sync_workers ids snap sv)))"
  using sync_map [OF assms, of ids snap cid] sync_threads [OF assms, of ids snap cid] sync_stops [OF assms] by blast

lemma desired_components:
  "cid \<in> set (load_desired_components db) \<longleftrightarrow>
     (\<exists>c \<in> set (db_components db). mc_id c = cid \<and> mc_is_active c \<and> mc_check_type c = ''openvpn'' \<and> mc_connection_mode c = ''persistent''
        \<and> (\<exists>p \<in> set (db_projects db). pr_id p = mc_project_id c \<and> pr_is_active p))"
proof -
  have active: "k \<in> set (map pr_id (filter pr_is_active ps)) \<longleftrightarrow> (\<exists>p \<in> set ps. pr_id p = k \<and> pr_is_active p)" for k ps by auto
  have "cid \<in> set (load_desired_components db) \<longleftrightarrow>
      (\<exists>c \<in> set (db_components db). mc_id c = cid \<and> should_run_worker c \<and> (\<exists>p \<in> set (db_projects db). pr_id p = mc_project_id c \<and> pr_is_active p))"
    unfolding load_desired_components_def Let_def active by force
  then show ?thesis by (simp add: should_run_worker_def PERSISTENT_VPN_CHECK_TYPES_def conj_assoc)
qed

lemma desired_snapshot: "cid \<in> set (load_desired_components db) \<Longrightarrow> snapshot_for cfg digest db cid \<noteq> None"
proof -
  assume "cid \<in> set (load_desired_components db)"
  then have "cid \<in> mc_id ` set (db_components db)" unfolding desired_components by blast
  then have "get_component cid db \<noteq> None" unfolding get_component_def lookup_row_in_keys .
  then show ?thesis by (auto simp: snapshot_for_def)
qed

text \<open>
  C5. Synchronising implements its contract. Afterwards the pool holds exactly the active persistent OpenVPN components of active
  projects, each with the snapshot of its configuration as the database has it now. A component whose snapshot is new or changed
  has a thread that was started during this call, one whose snapshot is the same keeps its thread, one that is no longer wanted
  has none; every thread that lost its place was told to stop, and the dictionaries stay consistent with no thread orphaned
  (every thread ever started is in the pool or was told to stop).
\<close>

theorem sync_refines_desired_map:
  assumes "supervisor_inv sv"
  shows "let sv' = sync cfg digest db sv; desired = snapshot_for cfg digest db cid;
         wanted = (\<exists>c \<in> set (db_components db). mc_id c = cid \<and> mc_is_active c \<and> mc_check_type c = ''openvpn''
            \<and> mc_connection_mode c = ''persistent'' \<and> (\<exists>p \<in> set (db_projects db). pr_id p = mc_project_id c \<and> pr_is_active p))
     in supervisor_inv sv'
      \<and> (if wanted
         then desired \<noteq> None \<and> map_of (sv_snapshots sv') cid = desired
           \<and> (if desired = map_of (sv_snapshots sv) cid then map_of (sv_workers sv') cid = map_of (sv_workers sv) cid
              else \<exists>t. sv_started sv \<le> t \<and> map_of (sv_workers sv') cid = Some t)
         else map_of (sv_snapshots sv') cid = None \<and> map_of (sv_workers sv') cid = None)
      \<and> (\<forall>t. map_of (sv_workers sv) cid = Some t \<and> map_of (sv_workers sv') cid \<noteq> Some t \<longrightarrow> t \<in> set (sv_stopped sv'))"
  using sync_workers_contract [OF assms, of "load_desired_components db" "snapshot_for cfg digest db" cid]
    desired_snapshot [of cid db cfg digest]
  unfolding Let_def sync_def desired_components by (auto split: if_splits)

lemma supervisor_inv_new: "supervisor_inv new_supervisor"
  by (simp add: supervisor_inv_def new_supervisor_def)

lemma sync_refines_desired_map_witness:
  "\<exists>sn t. map_of (sv_snapshots (sync sample_cfg (\<lambda>_. ''f'') vpn_database new_supervisor)) ''c1'' = Some sn
     \<and> map_of (sv_workers (sync sample_cfg (\<lambda>_. ''f'') vpn_database new_supervisor)) ''c1'' = Some t"
proof -
  have "\<exists>c \<in> set (db_components vpn_database). mc_id c = ''c1'' \<and> mc_is_active c \<and> mc_check_type c = ''openvpn''
      \<and> mc_connection_mode c = ''persistent'' \<and> (\<exists>p \<in> set (db_projects vpn_database). pr_id p = mc_project_id c \<and> pr_is_active p)"
    by (simp add: vpn_database_def sample_component_def sample_project_def sample_database_def)
  then show ?thesis
    using sync_refines_desired_map [OF supervisor_inv_new, of sample_cfg "\<lambda>_. ''f''" vpn_database "''c1''"]
    by (auto simp: Let_def new_supervisor_def split: if_splits)
qed

text \<open>
  Synchronising twice starts and stops nothing more: with the database unchanged the second call leaves the
  supervisor as it is, so no session is torn down needlessly.
\<close>

theorem sync_idempotent:
  assumes "supervisor_inv sv"
  shows "sync_workers ids snap (sync_workers ids snap sv) = sync_workers ids snap sv"
proof -
  let ?s = "sync_workers ids snap sv"
  have inv: "supervisor_inv ?s" and look: "map_of (sv_snapshots ?s) k =
        (if k \<notin> set ids then None else if snap k \<noteq> None then snap k else map_of (sv_snapshots sv) k)" for k
    using sync_map [OF assms, of ids snap k] by simp_all
  note keys = supervisor_keys [OF inv]
  have "filter (\<lambda>c. c \<notin> set ids) (map fst (sv_workers ?s)) = []"
    unfolding filter_empty_conv
  proof
    fix k assume "k \<in> set (map fst (sv_workers ?s))"
    then have "map_of (sv_snapshots ?s) k \<noteq> None" by (rule iffD1 [OF keys])
    then show "\<not> k \<notin> set ids" using look [of k] by (auto split: if_splits)
  qed
  moreover have "sync_one snap (set (map fst (sv_workers ?s))) k ?s = ?s" if "k \<in> set ids" for k
    using that keys [of k] look [of k] by (auto simp: sync_one_def split: option.splits)
  then have "fold (sync_one snap (set (map fst (sv_workers ?s)))) ks ?s = ?s" if "set ks \<subseteq> set ids" for ks
    using that by (induction ks) auto
  ultimately show ?thesis by (simp add: sync_workers_def [of ids snap ?s] Let_def)
qed

lemma sync_idempotent_witness:
  "sync_workers [''c1''] (\<lambda>_. None) (sync_workers [''c1''] (\<lambda>_. None) new_supervisor) = sync_workers [''c1''] (\<lambda>_. None) new_supervisor"
  by (rule sync_idempotent [OF supervisor_inv_new])

text \<open>Stopping everything leaves an empty pool and every thread told to stop.\<close>

lemma stop_all_empties:
  assumes "supervisor_inv sv"
  shows "sv_workers (stop_all sv) = [] \<and> set (sv_stopped (stop_all sv)) = {..<sv_started (stop_all sv)}"
proof -
  note stop = supervised.fold_stop [OF assms, of "map fst (sv_workers sv)", folded stop_all_def]
  have inv: "supervisor_inv (stop_all sv)" by (rule conjunct1 [OF stop])
  have look: "map_of (sv_snapshots (stop_all sv)) k = None" for k
    unfolding conjunct1 [OF conjunct2 [OF stop]] using supervisor_keys [OF assms, of k] by (simp split: if_split)
  have "k \<notin> set (map fst (sv_workers (stop_all sv)))" for k
    unfolding supervisor_keys [OF inv] look by simp
  then have "map fst (sv_workers (stop_all sv)) = []" by (meson ex_in_conv set_empty)
  then have none: "sv_workers (stop_all sv) = []" by simp
  have "set (sv_stopped (stop_all sv)) \<union> snd ` set (sv_workers (stop_all sv)) = {..<sv_started (stop_all sv)}"
    using inv by (simp only: supervisor_inv_def)
  with none show ?thesis by simp
qed

section \<open>What session events forget\<close>

text \<open>
  The probe made when a tunnel goes up or down never runs a live speed test; it is given the download memory of
  the component but none of its upload memory.
\<close>

lemma session_event_drops_upload_memory:
  "\<not> rc_run_speed_test (session_event_context built)
   \<and> rc_last_successful_speed_test (session_event_context built) = rc_last_successful_speed_test built
   \<and> rc_last_successful_speed_test_upload (session_event_context built) = None
   \<and> rc_last_live_speed_test_upload (session_event_context built) = None"
  by (simp add: session_event_context_def)

end
