(* ===== verification/RefreshTokens.thy ===== *)
theory RefreshTokens
  imports HostWan Database
begin

text \<open>
  \<open>src/app/services/refresh_token_service.py\<close>: rotating refresh tokens. Only the hash of a token is stored. The
  random generators and SHA-256 are functions of the record \<open>crypto\<close>; what the proofs need of them is named
  \<open>fresh_tokens\<close>: a generated token's hash, and a generated identifier, is not yet stored (both columns are unique).
\<close>

section \<open>Outside functions\<close>

record claims =
  cl_sub :: uuid
  cl_type :: string
  cl_exp :: int \<comment> \<open>a NumericDate: whole seconds\<close>
  cl_access_roles :: "string list"

record crypto =
  cx_hash_token :: "string \<Rightarrow> string"
  cx_fresh_token :: "database \<Rightarrow> string"
  cx_fresh_id :: "database \<Rightarrow> uuid"
  cx_hash_password :: "string \<Rightarrow> string"
  cx_verify_password :: "string \<Rightarrow> string \<Rightarrow> bool"
  cx_totp_secret :: "database \<Rightarrow> string"
  cx_verify_totp :: "string \<Rightarrow> string \<Rightarrow> bool"
  cx_encode :: "claims \<Rightarrow> string"
  cx_decode :: "string \<Rightarrow> claims option" \<comment> \<open>the signature is checked, the expiry by the caller\<close>

section \<open>Repository\<close>

definition create_token :: "crypto \<Rightarrow> uuid \<Rightarrow> instant \<Rightarrow> database \<Rightarrow> (RefreshToken \<times> string) \<times> database" where
  "create_token cx account_id expires_at db =
     (let raw = cx_fresh_token cx db;
          t = \<lparr>rt_id = cx_fresh_id cx db, rt_account_id = account_id, rt_token_hash = cx_hash_token cx raw,
               rt_expires_at = Aware expires_at, rt_revoked_at = None, rt_replaced_by_id = None\<rparr>
      in ((t, raw), db\<lparr>db_tokens := db_tokens db @ [t]\<rparr>))"

definition token_active :: "instant \<Rightarrow> RefreshToken \<Rightarrow> bool" where
  "token_active now t \<longleftrightarrow> rt_revoked_at t = None \<and> now < utc_of (rt_expires_at t)"

definition get_active_by_raw_token :: "crypto \<Rightarrow> string \<Rightarrow> instant \<Rightarrow> database \<Rightarrow> RefreshToken option" where
  "get_active_by_raw_token cx raw now db =
     find (\<lambda>t. rt_token_hash t = cx_hash_token cx raw \<and> token_active now t) (db_tokens db)"

definition revoke_token :: "RefreshToken \<Rightarrow> uuid option \<Rightarrow> instant \<Rightarrow> database \<Rightarrow> database" where
  "revoke_token t replaced_by now db =
     db\<lparr>db_tokens := replace_row rt_id (t\<lparr>rt_revoked_at := Some now, rt_replaced_by_id := replaced_by\<rparr>) (db_tokens db)\<rparr>"

definition revoke_all_for_account :: "uuid \<Rightarrow> instant \<Rightarrow> database \<Rightarrow> database" where
  "revoke_all_for_account account_id now db =
     db\<lparr>db_tokens := map (\<lambda>t. if rt_account_id t = account_id \<and> rt_revoked_at t = None
                              then t\<lparr>rt_revoked_at := Some now\<rparr> else t) (db_tokens db)\<rparr>"

section \<open>Service\<close>

definition token_expiry :: "settings \<Rightarrow> instant \<Rightarrow> instant" where
  "token_expiry cfg now = now + cfg_refresh_token_expire_days cfg * usec_per_day"

definition issue_pair :: "settings \<Rightarrow> crypto \<Rightarrow> uuid \<Rightarrow> instant \<Rightarrow> database \<Rightarrow> string \<times> database" where
  "issue_pair cfg cx account_id now db =
     (let ((_, raw), db) = create_token cx account_id (token_expiry cfg now) db in (raw, db))"

definition rotate_token :: "settings \<Rightarrow> crypto \<Rightarrow> string \<Rightarrow> instant \<Rightarrow> database \<Rightarrow> (uuid \<times> string) res \<times> database" where
  "rotate_token cfg cx raw now db =
     (case get_active_by_raw_token cx raw now db of
        None \<Rightarrow> (Inl (ValueError ''Invalid refresh token''), db)
      | Some current \<Rightarrow>
          let ((replacement, new_raw), db) = create_token cx (rt_account_id current) (token_expiry cfg now) db;
              db = revoke_token current (Some (rt_id replacement)) now db
          in (Inr (rt_account_id current, new_raw), db))"

definition revoke_raw :: "crypto \<Rightarrow> string \<Rightarrow> instant \<Rightarrow> database \<Rightarrow> database" where
  "revoke_raw cx raw now db =
     (case get_active_by_raw_token cx raw now db of None \<Rightarrow> db | Some current \<Rightarrow> revoke_token current None now db)"

definition revoke_all :: "uuid \<Rightarrow> instant \<Rightarrow> database \<Rightarrow> database" where
  "revoke_all account_id now db = revoke_all_for_account account_id now db"

section \<open>Single use\<close>

text \<open>The keys accepted along a sequence of operations.\<close>

fun accepted_keys :: "('op \<Rightarrow> 's \<Rightarrow> 's) \<Rightarrow> ('op \<Rightarrow> 's \<Rightarrow> 'k option) \<Rightarrow> 'op list \<Rightarrow> 's \<Rightarrow> 'k list" where
  "accepted_keys step accepts [] s = []"
| "accepted_keys step accepts (x # xs) s =
     (case accepts x s of None \<Rightarrow> [] | Some k \<Rightarrow> [k]) @ accepted_keys step accepts xs (step x s)"

text \<open>What makes a store of keys single-use: an accepted key was not spent and is spent from then on.\<close>

locale single_use =
  fixes inv :: "'s \<Rightarrow> bool"
    and step :: "'op \<Rightarrow> 's \<Rightarrow> 's"
    and accepts :: "'op \<Rightarrow> 's \<Rightarrow> 'k option"
    and spent :: "'s \<Rightarrow> 'k \<Rightarrow> bool"
  assumes inv_step: "inv s \<Longrightarrow> inv (step x s)"
    and spent_step: "inv s \<Longrightarrow> spent s k \<Longrightarrow> spent (step x s) k"
    and accepted_fresh: "inv s \<Longrightarrow> accepts x s = Some k \<Longrightarrow> \<not> spent s k"
    and accepted_spent: "inv s \<Longrightarrow> accepts x s = Some k \<Longrightarrow> spent (step x s) k"
begin

lemma spent_not_accepted: "inv s \<Longrightarrow> spent s k \<Longrightarrow> k \<notin> set (accepted_keys step accepts xs s)"
  by (induction xs arbitrary: s)
    (auto simp: inv_step spent_step dest: accepted_fresh accepted_fresh [OF _ sym] split: option.splits)

lemma accepted_once: "inv s \<Longrightarrow> distinct (accepted_keys step accepts xs s)"
proof (induction xs arbitrary: s)
  case (Cons x xs)
  show ?case
  proof (cases "accepts x s")
    case (Some k)
    have "k \<notin> set (accepted_keys step accepts xs (step x s))"
      using Cons.prems Some by (intro spent_not_accepted inv_step accepted_spent)
    with Some Cons inv_step show ?thesis by simp
  qed (use Cons inv_step in simp)
qed simp

end

datatype token_request = Issue uuid | Rotate string | Revoke string | RevokeAll uuid

fun token_step :: "settings \<Rightarrow> crypto \<Rightarrow> token_request \<times> instant \<Rightarrow> database \<Rightarrow> database" where
  "token_step cfg cx (Issue a, now) db = snd (issue_pair cfg cx a now db)"
| "token_step cfg cx (Rotate raw, now) db = snd (rotate_token cfg cx raw now db)"
| "token_step cfg cx (Revoke raw, now) db = revoke_raw cx raw now db"
| "token_step cfg cx (RevokeAll a, now) db = revoke_all a now db"

fun token_accepts :: "settings \<Rightarrow> crypto \<Rightarrow> token_request \<times> instant \<Rightarrow> database \<Rightarrow> string option" where
  \<comment> \<open>the hash of a refresh token that was exchanged\<close>
  "token_accepts cfg cx (Rotate raw, now) db =
     (case fst (rotate_token cfg cx raw now db) of Inr _ \<Rightarrow> Some (cx_hash_token cx raw) | Inl _ \<Rightarrow> None)"
| "token_accepts cfg cx _ db = None"

definition tokens_wf :: "database \<Rightarrow> bool" where
  "tokens_wf db \<longleftrightarrow> distinct (map rt_token_hash (db_tokens db)) \<and> distinct (map rt_id (db_tokens db))"

definition token_spent :: "database \<Rightarrow> string \<Rightarrow> bool" where
  "token_spent db h \<longleftrightarrow> (\<exists>t \<in> set (db_tokens db). rt_token_hash t = h \<and> rt_revoked_at t \<noteq> None)"

definition fresh_tokens :: "crypto \<Rightarrow> bool" where
  "fresh_tokens cx \<longleftrightarrow> (\<forall>db. cx_hash_token cx (cx_fresh_token cx db) \<notin> set (map rt_token_hash (db_tokens db))
     \<and> cx_fresh_id cx db \<notin> set (map rt_id (db_tokens db)))"

lemma get_active_Some:
  "get_active_by_raw_token cx raw now db = Some t \<Longrightarrow>
   t \<in> set (db_tokens db) \<and> rt_token_hash t = cx_hash_token cx raw \<and> rt_revoked_at t = None \<and> now < utc_of (rt_expires_at t)"
  by (auto simp: get_active_by_raw_token_def token_active_def find_Some_iff)

lemma token_unique:
  "tokens_wf db \<Longrightarrow> x \<in> set (db_tokens db) \<Longrightarrow> y \<in> set (db_tokens db) \<Longrightarrow> rt_token_hash x = rt_token_hash y \<Longrightarrow> x = y"
  by (auto simp: tokens_wf_def distinct_map dest: inj_onD)

lemma get_active_exists:
  "t \<in> set (db_tokens db) \<Longrightarrow> rt_token_hash t = cx_hash_token cx raw \<Longrightarrow> token_active now t
   \<Longrightarrow> \<exists>u. get_active_by_raw_token cx raw now db = Some u"
  by (cases "get_active_by_raw_token cx raw now db") (auto simp: get_active_by_raw_token_def find_None_iff)

lemma set_revoke_token:
  assumes "t \<in> set (db_tokens db)"
  shows "set (db_tokens (revoke_token t rb now db)) =
     insert (t\<lparr>rt_revoked_at := Some now, rt_replaced_by_id := rb\<rparr>) {x \<in> set (db_tokens db). rt_id x \<noteq> rt_id t}"
  unfolding revoke_token_def using assms by (simp add: set_replace_row)

lemma map_hash_revoke_token:
  assumes "distinct (map rt_id (db_tokens db))" and "t \<in> set (db_tokens db)"
  shows "map rt_token_hash (db_tokens (revoke_token t rb now db)) = map rt_token_hash (db_tokens db)"
    and "map rt_id (db_tokens (revoke_token t rb now db)) = map rt_id (db_tokens db)"
proof -
  have "x = t" if "x \<in> set (db_tokens db)" "rt_id x = rt_id t" for x
    using assms that by (auto simp: distinct_map inj_on_def)
  then show "map rt_token_hash (db_tokens (revoke_token t rb now db)) = map rt_token_hash (db_tokens db)"
    by (auto simp: revoke_token_def replace_row_def)
  show "map rt_id (db_tokens (revoke_token t rb now db)) = map rt_id (db_tokens db)"
    by (auto simp: revoke_token_def replace_row_def)
qed

lemma tokens_wf_create:
  assumes "fresh_tokens cx" and "tokens_wf db"
  shows "tokens_wf (snd (create_token cx a e db))"
  using assms by (auto simp: fresh_tokens_def tokens_wf_def create_token_def Let_def)

lemma rotate_success:
  assumes "rotate_token cfg cx raw now db = (Inr (a, new_raw), db')"
  obtains t where "get_active_by_raw_token cx raw now db = Some t" and "a = rt_account_id t"
    and "new_raw = cx_fresh_token cx db"
    and "db' = revoke_token t (Some (cx_fresh_id cx db)) now (snd (create_token cx a (token_expiry cfg now) db))"
  using assms by (auto simp: rotate_token_def create_token_def Let_def split: option.splits intro: that)

lemma rotate_failure: "rotate_token cfg cx raw now db = (Inl e, db') \<Longrightarrow> db' = db"
  by (auto simp: rotate_token_def Let_def split: option.splits prod.splits)

lemma create_token_db [simp]:
  "db_tokens (snd (create_token cx a e db)) = db_tokens db @ [\<lparr>rt_id = cx_fresh_id cx db, rt_account_id = a,
     rt_token_hash = cx_hash_token cx (cx_fresh_token cx db), rt_expires_at = Aware e, rt_revoked_at = None, rt_replaced_by_id = None\<rparr>]"
  by (simp add: create_token_def Let_def)

lemma tokens_wf_revoke:
  "tokens_wf db \<Longrightarrow> t \<in> set (db_tokens db) \<Longrightarrow> tokens_wf (revoke_token t rb now db)"
  by (simp add: tokens_wf_def map_hash_revoke_token)

lemma tokens_wf_revoke_all: "tokens_wf db \<Longrightarrow> tokens_wf (revoke_all_for_account a now db)"
proof -
  assume "tokens_wf db"
  moreover have "map rt_token_hash (db_tokens (revoke_all_for_account a now db)) = map rt_token_hash (db_tokens db)"
    "map rt_id (db_tokens (revoke_all_for_account a now db)) = map rt_id (db_tokens db)"
    by (auto simp: revoke_all_for_account_def)
  ultimately show ?thesis by (simp add: tokens_wf_def)
qed

lemma tokens_wf_rotate:
  assumes "fresh_tokens cx" and "tokens_wf db"
  shows "tokens_wf (snd (rotate_token cfg cx raw now db))"
proof (cases "rotate_token cfg cx raw now db")
  case (Pair r db')
  show ?thesis
  proof (cases r)
    case (Inl e)
    with Pair assms(2) rotate_failure [of cfg cx raw now db e db'] show ?thesis by simp
  next
    case (Inr x)
    obtain a new_raw where "x = (a, new_raw)" by (cases x)
    with Pair Inr obtain t where t: "get_active_by_raw_token cx raw now db = Some t"
      and db': "db' = revoke_token t (Some (cx_fresh_id cx db)) now (snd (create_token cx a (token_expiry cfg now) db))"
      by (auto elim: rotate_success)
    have "t \<in> set (db_tokens (snd (create_token cx a (token_expiry cfg now) db)))" using get_active_Some [OF t] by simp
    with tokens_wf_create [OF assms] db' Pair show ?thesis by (simp add: tokens_wf_revoke)
  qed
qed

lemma tokens_wf_step: "fresh_tokens cx \<Longrightarrow> tokens_wf db \<Longrightarrow> tokens_wf (token_step cfg cx x db)"
proof (cases "(cfg, cx, x, db)" rule: token_step.cases)
  case (1 cfg' cx' a now db')
  assume "fresh_tokens cx" "tokens_wf db"
  with 1 tokens_wf_create [of cx' db' a "token_expiry cfg' now"] show ?thesis by (auto simp: issue_pair_def split: prod.splits)
next
  case (2 cfg' cx' raw now db')
  assume "fresh_tokens cx" "tokens_wf db"
  with 2 tokens_wf_rotate show ?thesis by auto
next
  case (3 cfg' cx' raw now db')
  assume "tokens_wf db"
  with 3 show ?thesis by (auto simp: revoke_raw_def tokens_wf_revoke dest: get_active_Some split: option.splits)
next
  case (4 cfg' cx' a now db')
  assume "tokens_wf db"
  with 4 show ?thesis by (simp add: revoke_all_def tokens_wf_revoke_all)
qed


lemma token_spent_create: "token_spent db h \<Longrightarrow> token_spent (snd (create_token cx a e db)) h"
  by (auto simp: token_spent_def)

lemma token_spent_revoke:
  assumes "tokens_wf db" and "t \<in> set (db_tokens db)" and "token_spent db h \<or> h = rt_token_hash t"
  shows "token_spent (revoke_token t rb now db) h"
proof (cases "h = rt_token_hash t")
  case True
  then show ?thesis unfolding token_spent_def set_revoke_token [OF assms(2)] by auto
next
  case False
  with assms(3) obtain x where "x \<in> set (db_tokens db)" "rt_token_hash x = h" "rt_revoked_at x \<noteq> None"
    by (auto simp: token_spent_def)
  moreover have "rt_id x \<noteq> rt_id t"
    using calculation False assms(1,2) by (auto simp: tokens_wf_def distinct_map inj_on_def)
  ultimately show ?thesis unfolding token_spent_def set_revoke_token [OF assms(2)] by auto
qed

lemma rotate_spends:
  assumes "fresh_tokens cx" and "tokens_wf db" and "fst (rotate_token cfg cx raw now db) = Inr x"
  shows "token_spent (snd (rotate_token cfg cx raw now db)) (cx_hash_token cx raw)"
    and "token_spent db h \<Longrightarrow> token_spent (snd (rotate_token cfg cx raw now db)) h"
    and "\<not> token_spent db (cx_hash_token cx raw)"
proof -
  obtain a new_raw where x: "x = (a, new_raw)" by (cases x)
  obtain t where t: "get_active_by_raw_token cx raw now db = Some t"
    and db': "snd (rotate_token cfg cx raw now db) = revoke_token t (Some (cx_fresh_id cx db)) now (snd (create_token cx a (token_expiry cfg now) db))"
    by (rule rotate_success [of cfg cx raw now db a new_raw "snd (rotate_token cfg cx raw now db)"]) (use assms(3) x in \<open>auto simp: prod_eq_iff\<close>)
  note act = get_active_Some [OF t]
  have in_new: "t \<in> set (db_tokens (snd (create_token cx a (token_expiry cfg now) db)))" using act by simp
  note wf = tokens_wf_create [OF assms(1,2), of a "token_expiry cfg now"]
  show "token_spent (snd (rotate_token cfg cx raw now db)) (cx_hash_token cx raw)"
    unfolding db' using act by (intro token_spent_revoke [OF wf in_new]) simp
  show "token_spent db h \<Longrightarrow> token_spent (snd (rotate_token cfg cx raw now db)) h"
    unfolding db' by (intro token_spent_revoke [OF wf in_new] disjI1 token_spent_create)
  show "\<not> token_spent db (cx_hash_token cx raw)"
    using act token_unique [OF assms(2), of t] by (auto simp: token_spent_def)
qed

lemma token_spent_step:
  assumes "fresh_tokens cx" and "tokens_wf db" and "token_spent db h"
  shows "token_spent (token_step cfg cx x db) h"
proof (cases "(cfg, cx, x, db)" rule: token_step.cases)
  case (1 cfg' cx' a now db')
  with assms(3) token_spent_create [of db h cx a "token_expiry cfg now"] show ?thesis
    by (auto simp: issue_pair_def split: prod.splits)
next
  case (2 cfg' cx' raw now db')
  show ?thesis
  proof (cases "fst (rotate_token cfg cx raw now db)")
    case (Inl e)
    then have "snd (rotate_token cfg cx raw now db) = db" using rotate_failure by (metis prod.collapse)
    with 2 assms(3) show ?thesis by simp
  next
    case (Inr y)
    with rotate_spends(2) [OF assms(1,2) Inr assms(3)] 2 show ?thesis by simp
  qed
next
  case (3 cfg' cx' raw now db')
  with assms(2,3) show ?thesis
    by (auto simp: revoke_raw_def dest: get_active_Some intro: token_spent_revoke split: option.splits)
next
  case (4 cfg' cx' a now db')
  with assms(3) show ?thesis by (force simp: revoke_all_def revoke_all_for_account_def token_spent_def)
qed

lemma token_accepts_rotate:
  assumes "token_accepts cfg cx x db = Some h"
  obtains raw now y where "x = (Rotate raw, now)" and "h = cx_hash_token cx raw" and "fst (rotate_token cfg cx raw now db) = Inr y"
  using assms by (cases "(cfg, cx, x, db)" rule: token_accepts.cases) (auto split: sum.splits intro: that)

text \<open>Refresh tokens are single-use, for any settings and any generators that produce fresh tokens.\<close>

interpretation refresh_tokens: single_use "\<lambda>db. fresh_tokens cx \<and> tokens_wf db" "token_step cfg cx" "token_accepts cfg cx" token_spent
  for cfg cx
proof
  fix db x assume inv: "fresh_tokens cx \<and> tokens_wf db"
  show "fresh_tokens cx \<and> tokens_wf (token_step cfg cx x db)" using inv tokens_wf_step by blast
  fix h
  show "token_spent db h \<Longrightarrow> token_spent (token_step cfg cx x db) h" using inv token_spent_step by blast
  assume "token_accepts cfg cx x db = Some h"
  then obtain raw now y where x: "x = (Rotate raw, now)" and h: "h = cx_hash_token cx raw"
    and ok: "fst (rotate_token cfg cx raw now db) = Inr y" by (rule token_accepts_rotate)
  show "\<not> token_spent db h" using rotate_spends(3) [OF _ _ ok] inv h by blast
  show "token_spent (token_step cfg cx x db) h" using rotate_spends(1) [OF _ _ ok] inv h x by simp
qed

text \<open>
  C4. A refresh token is exchanged at most once: in any sequence of issues, rotations, revocations and log-outs at
  any times, no token hash is accepted twice, whoever presents it.
\<close>

theorem refresh_token_single_use:
  assumes "fresh_tokens cx" and "tokens_wf db"
  shows "distinct (accepted_keys (token_step cfg cx) (token_accepts cfg cx) requests db)"
  by (rule refresh_tokens.accepted_once) (use assms in simp)

definition sample_crypto :: crypto where
  "sample_crypto = \<lparr>cx_hash_token = (\<lambda>s. s),
     cx_fresh_token = (\<lambda>db. ''t'' @ concat (map rt_token_hash (db_tokens db))),
     cx_fresh_id = (\<lambda>db. ''i'' @ concat (map rt_id (db_tokens db))),
     cx_hash_password = (\<lambda>p. p), cx_verify_password = (\<lambda>p h. p = h),
     cx_totp_secret = (\<lambda>_. ''s''), cx_verify_totp = (\<lambda>s c. c = ''123456''),
     cx_encode = cl_sub, cx_decode = (\<lambda>_. None)\<rparr>"

lemma longer_not_in: "x @ concat (map f ys) \<notin> f ` set ys" if "x \<noteq> []"
proof
  assume "x @ concat (map f ys) \<in> f ` set ys"
  then obtain y where y: "y \<in> set ys" "f y = x @ concat (map f ys)" by auto
  from y(1) have "length (f y) \<le> length (concat (map f ys))"
    by (induction ys) auto
  with y(2) that show False by simp
qed

lemma sample_crypto_fresh: "fresh_tokens sample_crypto"
  using longer_not_in [of "''t''" "rt_token_hash :: RefreshToken \<Rightarrow> string"] longer_not_in [of "''i''" "rt_id :: RefreshToken \<Rightarrow> string"]
  by (simp add: fresh_tokens_def sample_crypto_def)

lemma refresh_token_single_use_witness:
  "distinct (accepted_keys (token_step sample_cfg sample_crypto) (token_accepts sample_cfg sample_crypto)
     [(Issue ''a1'', 0), (Rotate ''t'', 1), (Rotate ''t'', 2)] empty_database)"
  by (rule refresh_token_single_use [OF sample_crypto_fresh]) (simp add: tokens_wf_def empty_database_def)

text \<open>
  A successful rotation answers with a new token of the same account that can be exchanged until it expires
  and leaves the old one unusable; a token that is unknown, revoked or expired changes nothing.
\<close>

theorem rotation_replaces_token:
  assumes "fresh_tokens cx" and "tokens_wf db"
  shows "case rotate_token cfg cx raw now db of
      (Inl e, db') \<Rightarrow> e = ValueError ''Invalid refresh token'' \<and> db' = db \<and> get_active_by_raw_token cx raw now db = None
    | (Inr (account, new_raw), db') \<Rightarrow>
        (\<forall>later. get_active_by_raw_token cx raw later db' = None)
        \<and> (\<forall>later < token_expiry cfg now. \<exists>t. get_active_by_raw_token cx new_raw later db' = Some t \<and> rt_account_id t = account)
        \<and> (\<exists>t. get_active_by_raw_token cx raw now db = Some t \<and> rt_account_id t = account)"
proof (cases "rotate_token cfg cx raw now db")
  case (Pair r db')
  show ?thesis
  proof (cases r)
    case (Inl e)
    from Pair Inl have "get_active_by_raw_token cx raw now db = None \<and> e = ValueError ''Invalid refresh token'' \<and> db' = db"
      by (cases "get_active_by_raw_token cx raw now db") (simp_all add: rotate_token_def Let_def split: prod.splits)
    then show ?thesis unfolding Pair Inl prod.case sum.case by blast
  next
    case (Inr x)
    obtain a new_raw where x: "x = (a, new_raw)" by (cases x)
    from Pair Inr x obtain t where t: "get_active_by_raw_token cx raw now db = Some t" and a: "a = rt_account_id t"
      and new: "new_raw = cx_fresh_token cx db"
      and db': "db' = revoke_token t (Some (cx_fresh_id cx db)) now (snd (create_token cx a (token_expiry cfg now) db))"
      by (auto elim: rotate_success)
    note act = get_active_Some [OF t]
    let ?new = "\<lparr>rt_id = cx_fresh_id cx db, rt_account_id = a, rt_token_hash = cx_hash_token cx new_raw,
       rt_expires_at = Aware (token_expiry cfg now), rt_revoked_at = None, rt_replaced_by_id = None\<rparr>"
    have wf': "tokens_wf db'"
      using tokens_wf_rotate [OF assms, of cfg raw now] Pair by simp
    have set': "set (db_tokens db') = insert (t\<lparr>rt_revoked_at := Some now, rt_replaced_by_id := Some (cx_fresh_id cx db)\<rparr>)
        {x \<in> insert ?new (set (db_tokens db)). rt_id x \<noteq> rt_id t}"
      unfolding db' new using act by (subst set_revoke_token) simp_all
    have fresh: "cx_fresh_id cx db \<noteq> rt_id t" using assms(1) act unfolding fresh_tokens_def by force
    have spent: "token_spent db' (cx_hash_token cx raw)"
      using rotate_spends(1) [OF assms, of cfg raw now x] Pair Inr by simp
    have none: "get_active_by_raw_token cx raw later db' = None" for later
    proof (rule ccontr)
      assume "get_active_by_raw_token cx raw later db' \<noteq> None"
      then obtain u where "get_active_by_raw_token cx raw later db' = Some u" by blast
      note u = get_active_Some [OF this]
      obtain v where "v \<in> set (db_tokens db')" "rt_token_hash v = cx_hash_token cx raw" "rt_revoked_at v \<noteq> None"
        using spent by (auto simp: token_spent_def)
      with u token_unique [OF wf', of u v] show False by auto
    qed
    have some: "\<exists>u. get_active_by_raw_token cx new_raw later db' = Some u \<and> rt_account_id u = a" if l: "later < token_expiry cfg now" for later
    proof -
      have n: "?new \<in> set (db_tokens db')" using fresh by (simp add: set')
      obtain u where u: "get_active_by_raw_token cx new_raw later db' = Some u"
        using get_active_exists [OF n, of cx new_raw later] l by (auto simp: token_active_def)
      have "u = ?new" using get_active_Some [OF u] n by (intro token_unique [OF wf']) simp_all
      with u show ?thesis by simp
    qed
    show ?thesis unfolding Pair Inr x prod.case sum.case using none some t a by blast
  qed
qed

lemma rotation_replaces_token_witness:
  "get_active_by_raw_token sample_crypto ''t'' 5 (snd (rotate_token sample_cfg sample_crypto ''t'' 1
     (snd (issue_pair sample_cfg sample_crypto ''a1'' 0 empty_database)))) = None"
proof -
  let ?db = "snd (issue_pair sample_cfg sample_crypto ''a1'' 0 empty_database)"
  have "tokens_wf ?db" using tokens_wf_step [OF sample_crypto_fresh, of empty_database sample_cfg "(Issue ''a1'', 0)"]
    by (simp add: tokens_wf_def empty_database_def)
  from rotation_replaces_token [OF sample_crypto_fresh this, where cfg = sample_cfg and raw = "''t''" and now = 1]
  show ?thesis
    by (cases "rotate_token sample_cfg sample_crypto ''t'' 1 ?db")
      (auto simp: issue_pair_def create_token_def Let_def sample_crypto_def empty_database_def get_active_by_raw_token_def
        token_active_def token_expiry_def sample_cfg_def split: sum.splits)
qed

end
