(* ===== verification/Auth.thy ===== *)
theory Auth
  imports RefreshTokens
begin

text \<open>
  Accounts and sessions: \<open>src/app/services/auth_service.py\<close>, \<open>account_admin_service.py\<close>, the tokens of
  \<open>src/app/auth/security.py\<close>, the guards of \<open>src/app/api/deps.py\<close>, the request parsing of
  \<open>src/app/auth/cookies.py\<close> and the routes of \<open>src/app/api/routes/auth.py\<close>. Password hashing, one-time codes and
  the signature of a JWT are functions of \<open>crypto\<close>; \<open>decode_token\<close> checks the expiry as PyJWT does.
\<close>

section \<open>Roles\<close>

definition PANEL_ROLE_SLUGS :: "string list" where "PANEL_ROLE_SLUGS = [''admin'', ''operator'', ''viewer'']"
definition DEFAULT_PUBLIC_ROLE_SLUG :: string where "DEFAULT_PUBLIC_ROLE_SLUG = ''user''"
definition DEFAULT_BOOTSTRAP_ROLE_SLUG :: string where "DEFAULT_BOOTSTRAP_ROLE_SLUG = ''admin''"

definition is_panel_role :: "string \<Rightarrow> bool" where "is_panel_role slug \<longleftrightarrow> slug \<in> set PANEL_ROLE_SLUGS"

definition account_has_panel_access :: "string list \<Rightarrow> bool" where
  "account_has_panel_access slugs = list_ex is_panel_role slugs"

section \<open>Tokens\<close>

definition TOKEN_TYPE_ACCESS :: string where "TOKEN_TYPE_ACCESS = ''access''"
definition TOKEN_TYPE_MFA :: string where "TOKEN_TYPE_MFA = ''mfa''"

abbreviation usec_per_minute :: int where "usec_per_minute \<equiv> 60000000"

definition numeric_date :: "instant \<Rightarrow> int" where
  \<comment> \<open>PyJWT stores a time claim in whole seconds\<close>
  "numeric_date t = t div usec_per_second"

definition create_access_token :: "settings \<Rightarrow> crypto \<Rightarrow> uuid \<Rightarrow> string list \<Rightarrow> instant \<Rightarrow> string" where
  "create_access_token cfg cx account_id access_roles now =
     cx_encode cx \<lparr>cl_sub = account_id, cl_type = TOKEN_TYPE_ACCESS,
       cl_exp = numeric_date (now + cfg_jwt_expire_minutes cfg * usec_per_minute), cl_access_roles = access_roles\<rparr>"

definition create_mfa_token :: "settings \<Rightarrow> crypto \<Rightarrow> uuid \<Rightarrow> instant \<Rightarrow> string" where
  "create_mfa_token cfg cx account_id now =
     cx_encode cx \<lparr>cl_sub = account_id, cl_type = TOKEN_TYPE_MFA,
       cl_exp = numeric_date (now + cfg_mfa_token_expire_minutes cfg * usec_per_minute), cl_access_roles = []\<rparr>"

definition decode_token :: "crypto \<Rightarrow> string \<Rightarrow> instant \<Rightarrow> claims option" where
  "decode_token cx token now =
     (case cx_decode cx token of None \<Rightarrow> None | Some c \<Rightarrow> if now < cl_exp c * usec_per_second then Some c else None)"

section \<open>Accounts\<close>

definition get_account :: "uuid \<Rightarrow> database \<Rightarrow> Account option" where
  "get_account aid db = lookup_row ac_id aid (db_accounts db)"

definition get_by_email :: "string \<Rightarrow> database \<Rightarrow> Account option" where
  "get_by_email email db = lookup_row ac_email email (db_accounts db)"

definition get_by_google_sub :: "string \<Rightarrow> database \<Rightarrow> Account option" where
  "get_by_google_sub sub db = lookup_row ac_google_sub (Some sub) (db_accounts db)"

definition role_exists :: "string \<Rightarrow> database \<Rightarrow> bool" where
  "role_exists slug db \<longleftrightarrow> lookup_row ar_slug slug (db_roles db) \<noteq> None"

definition create_account :: "Account \<Rightarrow> database \<Rightarrow> Account res \<times> database" where
  \<comment> \<open>the e-mail and Google columns are unique\<close>
  "create_account a db =
     (if get_by_email (ac_email a) db \<noteq> None
         \<or> (ac_google_sub a \<noteq> None \<and> lookup_row ac_google_sub (ac_google_sub a) (db_accounts db) \<noteq> None)
      then (Inl (IntegrityError ''duplicate key''), db)
      else (Inr a, db\<lparr>db_accounts := db_accounts db @ [a]\<rparr>))"

definition update_account :: "Account \<Rightarrow> database \<Rightarrow> database" where
  "update_account a db = db\<lparr>db_accounts := replace_row ac_id a (db_accounts db)\<rparr>"

definition fresh_account :: "crypto \<Rightarrow> string \<Rightarrow> database \<Rightarrow> Account" where
  \<comment> \<open>\<open>Account(email=...)\<close> with the column defaults\<close>
  "fresh_account cx email db =
     \<lparr>ac_id = cx_fresh_id cx db, ac_email = email, ac_username = None, ac_password_hash = None, ac_google_sub = None,
      ac_full_name = None, ac_avatar_url = None, ac_totp_secret = None, ac_is_totp_enabled = False, ac_is_active = True,
      ac_is_email_verified = True, ac_email_verification_token = None, ac_access_roles = []\<rparr>"

definition default_role :: "database \<Rightarrow> string res" where
  "default_role db =
     (let slug = (if db_accounts db = [] then DEFAULT_BOOTSTRAP_ROLE_SLUG else DEFAULT_PUBLIC_ROLE_SLUG)
      in if role_exists slug db then Inr slug else Inl (HTTPException 500 ''Default access role not found''))"

definition register :: "settings \<Rightarrow> crypto \<Rightarrow> string \<Rightarrow> string \<Rightarrow> string option \<Rightarrow> database \<Rightarrow> Account res \<times> database" where
  "register cfg cx email password full_name db =
     (if \<not> cfg_allow_registration cfg \<and> db_accounts db \<noteq> [] then (Inl (HTTPException 403 ''Registration is disabled''), db)
      else if get_by_email email db \<noteq> None then (Inl (HTTPException 409 ''Email already registered''), db)
      else case default_role db of
             Inl e \<Rightarrow> (Inl e, db)
           | Inr slug \<Rightarrow>
               create_account ((fresh_account cx (lower email) db)
                 \<lparr>ac_password_hash := Some (cx_hash_password cx password), ac_full_name := full_name,
                  ac_is_email_verified := \<not> cfg_require_email_verification cfg,
                  ac_email_verification_token :=
                    (if cfg_require_email_verification cfg then Some (cx_fresh_token cx db) else None),
                  ac_access_roles := [slug]\<rparr>) db)"

section \<open>Sessions\<close>

definition issue_tokens :: "settings \<Rightarrow> crypto \<Rightarrow> Account \<Rightarrow> instant \<Rightarrow> database \<Rightarrow> (string \<times> string) \<times> database" where
  "issue_tokens cfg cx a now db =
     (let (raw, db) = issue_pair cfg cx (ac_id a) now db
      in ((create_access_token cfg cx (ac_id a) (ac_access_roles a) now, raw), db))"

definition has_totp :: "Account \<Rightarrow> bool" where
  "has_totp a \<longleftrightarrow> ac_is_totp_enabled a \<and> nonempty_str (ac_totp_secret a) \<noteq> None"

definition totp_ok :: "crypto \<Rightarrow> Account \<Rightarrow> string \<Rightarrow> bool" where
  "totp_ok cx a code = (case nonempty_str (ac_totp_secret a) of None \<Rightarrow> False | Some s \<Rightarrow> cx_verify_totp cx s code)"

definition password_ok :: "crypto \<Rightarrow> Account \<Rightarrow> string \<Rightarrow> bool" where
  "password_ok cx a password = (case nonempty_str (ac_password_hash a) of None \<Rightarrow> False | Some h \<Rightarrow> cx_verify_password cx password h)"

type_synonym sign_in = "Account \<times> string option \<times> string option"

definition sign_in :: "settings \<Rightarrow> crypto \<Rightarrow> Account \<Rightarrow> instant \<Rightarrow> database \<Rightarrow> sign_in \<times> database" where
  \<comment> \<open>the common end of the two ways to sign in\<close>
  "sign_in cfg cx a now db =
     (if has_totp a then ((a, Some (create_mfa_token cfg cx (ac_id a) now), None), db)
      else let ((access, refresh), db) = issue_tokens cfg cx a now db in ((a, Some access, Some refresh), db))"

definition authenticate_password ::
  "settings \<Rightarrow> crypto \<Rightarrow> string \<Rightarrow> string \<Rightarrow> instant \<Rightarrow> database \<Rightarrow> sign_in res \<times> database" where
  "authenticate_password cfg cx email password now db =
     (case get_by_email (lower email) db of
        None \<Rightarrow> (Inl (HTTPException 401 ''Invalid credentials''), db)
      | Some a \<Rightarrow>
          if \<not> password_ok cx a password then (Inl (HTTPException 401 ''Invalid credentials''), db)
          else if \<not> ac_is_active a then (Inl (HTTPException 403 ''Account is inactive''), db)
          else if cfg_require_email_verification cfg \<and> \<not> ac_is_email_verified a
          then (Inl (HTTPException 403 ''Please verify your email before signing in''), db)
          else let (r, db) = sign_in cfg cx a now db in (Inr r, db))"

definition account_from_token :: "crypto \<Rightarrow> string \<Rightarrow> string \<Rightarrow> instant \<Rightarrow> database \<Rightarrow> Account res" where
  "account_from_token cx token expected_type now db =
     (case decode_token cx token now of
        None \<Rightarrow> Inl (HTTPException 401 ''Invalid token'')
      | Some payload \<Rightarrow>
          if cl_type payload \<noteq> expected_type then Inl (HTTPException 401 ''Invalid token type'')
          else case get_account (cl_sub payload) db of
                 None \<Rightarrow> Inl (HTTPException 401 ''Account not found'') | Some a \<Rightarrow> Inr a)"

definition verify_mfa :: "settings \<Rightarrow> crypto \<Rightarrow> string \<Rightarrow> string \<Rightarrow> instant \<Rightarrow> database \<Rightarrow> (string \<times> string) res \<times> database" where
  "verify_mfa cfg cx mfa_token code now db =
     (case account_from_token cx mfa_token TOKEN_TYPE_MFA now db of
        Inl e \<Rightarrow> (Inl e, db)
      | Inr a \<Rightarrow>
          if \<not> totp_ok cx a code then (Inl (HTTPException 401 ''Invalid 2FA code''), db)
          else let (r, db) = issue_tokens cfg cx a now db in (Inr r, db))"

definition refresh_session :: "settings \<Rightarrow> crypto \<Rightarrow> string \<Rightarrow> instant \<Rightarrow> database \<Rightarrow> (string \<times> string) res \<times> database" where
  "refresh_session cfg cx raw now db =
     (case rotate_token cfg cx raw now db of
        (Inl (ValueError _), db) \<Rightarrow> (Inl (HTTPException 401 ''Invalid refresh token''), db)
      | (Inl e, db) \<Rightarrow> (Inl e, db)
      | (Inr (account_id, new_refresh), db) \<Rightarrow>
          (case get_account account_id db of
             None \<Rightarrow> (Inl (HTTPException 401 ''Account not found''), db)
           | Some a \<Rightarrow>
               if \<not> ac_is_active a then (Inl (HTTPException 401 ''Account not found''), db)
               else (Inr (create_access_token cfg cx (ac_id a) (ac_access_roles a) now, new_refresh), db)))"

definition logout :: "crypto \<Rightarrow> uuid option \<Rightarrow> string option \<Rightarrow> instant \<Rightarrow> database \<Rightarrow> database" where
  "logout cx account_id raw now db =
     (let db = (case nonempty_str raw of None \<Rightarrow> db | Some r \<Rightarrow> revoke_raw cx r now db)
      in case account_id of None \<Rightarrow> db | Some a \<Rightarrow> revoke_all a now db)"

section \<open>Password and second factor\<close>

definition link_password :: "crypto \<Rightarrow> Account \<Rightarrow> string \<Rightarrow> database \<Rightarrow> Account res \<times> database" where
  "link_password cx a password db =
     (if nonempty_str (ac_password_hash a) \<noteq> None then (Inl (HTTPException 409 ''Password is already linked''), db)
      else let a = a\<lparr>ac_password_hash := Some (cx_hash_password cx password)\<rparr> in (Inr a, update_account a db))"

definition setup_totp :: "crypto \<Rightarrow> Account \<Rightarrow> database \<Rightarrow> string \<times> database" where
  "setup_totp cx a db =
     (let secret = cx_totp_secret cx db;
          a = a\<lparr>ac_totp_secret := Some secret, ac_is_totp_enabled := False\<rparr>
      in (secret, update_account a db))"

definition enable_totp :: "crypto \<Rightarrow> Account \<Rightarrow> string \<Rightarrow> database \<Rightarrow> Account res \<times> database" where
  "enable_totp cx a code db =
     (if nonempty_str (ac_totp_secret a) = None then (Inl (HTTPException 400 ''2FA setup not started''), db)
      else if \<not> totp_ok cx a code then (Inl (HTTPException 400 ''Invalid 2FA code''), db)
      else let a = a\<lparr>ac_is_totp_enabled := True\<rparr> in (Inr a, update_account a db))"

definition disable_totp :: "crypto \<Rightarrow> Account \<Rightarrow> string \<Rightarrow> string \<Rightarrow> database \<Rightarrow> Account res \<times> database" where
  "disable_totp cx a password code db =
     (if \<not> password_ok cx a password then (Inl (HTTPException 401 ''Invalid password''), db)
      else if \<not> totp_ok cx a code then (Inl (HTTPException 400 ''Invalid 2FA code''), db)
      else let a = a\<lparr>ac_totp_secret := None, ac_is_totp_enabled := False\<rparr> in (Inr a, update_account a db))"

section \<open>Google\<close>

definition apply_google_profile :: "string option \<Rightarrow> string option \<Rightarrow> Account \<Rightarrow> Account" where
  "apply_google_profile full_name avatar_url a =
     (if nonempty_str full_name \<noteq> None then a\<lparr>ac_full_name := full_name\<rparr> else a)\<lparr>ac_avatar_url := avatar_url\<rparr>"

definition google_account ::
  "settings \<Rightarrow> crypto \<Rightarrow> string \<Rightarrow> string \<Rightarrow> string option \<Rightarrow> string option \<Rightarrow> database \<Rightarrow> Account res \<times> database" where
  \<comment> \<open>the account found by its Google identity, then by e-mail, or created\<close>
  "google_account cfg cx sub email full_name avatar_url db =
     (case py_or (get_by_google_sub sub db) (get_by_email (lower email) db) of
        Some a \<Rightarrow>
          let a = apply_google_profile full_name avatar_url (a\<lparr>ac_google_sub := Some sub\<rparr>)
          in (Inr a, update_account a db)
      | None \<Rightarrow>
          if \<not> cfg_allow_registration cfg \<and> db_accounts db \<noteq> [] then (Inl (HTTPException 403 ''Registration is disabled''), db)
          else case default_role db of
                 Inl e \<Rightarrow> (Inl e, db)
               | Inr slug \<Rightarrow>
                   create_account ((fresh_account cx (lower email) db)
                     \<lparr>ac_google_sub := Some sub, ac_full_name := full_name, ac_avatar_url := avatar_url,
                      ac_access_roles := [slug]\<rparr>) db)"

definition upsert_google_account ::
  "settings \<Rightarrow> crypto \<Rightarrow> string \<Rightarrow> string \<Rightarrow> string option \<Rightarrow> string option \<Rightarrow> instant \<Rightarrow> database \<Rightarrow> sign_in res \<times> database" where
  "upsert_google_account cfg cx sub email full_name avatar_url now db =
     (case google_account cfg cx sub email full_name avatar_url db of
        (Inl e, db) \<Rightarrow> (Inl e, db)
      | (Inr a, db) \<Rightarrow>
          if \<not> ac_is_active a then (Inl (HTTPException 403 ''Account is inactive''), db)
          else let (r, db) = sign_in cfg cx a now db in (Inr r, db))"

section \<open>Requests\<close>

record http_request =
  rq_authorization :: "string option"
  rq_cookies :: "(string \<times> string) list"

definition get_access_token_from_request :: "settings \<Rightarrow> http_request \<Rightarrow> string option" where
  "get_access_token_from_request cfg rq =
     (case nonempty_str (rq_authorization rq) of
        Some auth \<Rightarrow> if starts_with (lower auth) ''bearer '' then Some (strip (drop 7 auth))
                     else map_of (rq_cookies rq) (cfg_access_cookie_name cfg)
      | None \<Rightarrow> map_of (rq_cookies rq) (cfg_access_cookie_name cfg))"

definition get_refresh_token_from_request :: "settings \<Rightarrow> http_request \<Rightarrow> string option" where
  "get_refresh_token_from_request cfg rq = map_of (rq_cookies rq) (cfg_refresh_cookie_name cfg)"

definition get_current_account :: "settings \<Rightarrow> crypto \<Rightarrow> http_request \<Rightarrow> instant \<Rightarrow> database \<Rightarrow> Account res" where
  "get_current_account cfg cx rq now db =
     (case nonempty_str (get_access_token_from_request cfg rq) of
        None \<Rightarrow> Inl (HTTPException 401 ''Not authenticated'')
      | Some token \<Rightarrow> account_from_token cx token TOKEN_TYPE_ACCESS now db)"

definition get_optional_account :: "settings \<Rightarrow> crypto \<Rightarrow> http_request \<Rightarrow> instant \<Rightarrow> database \<Rightarrow> Account option" where
  "get_optional_account cfg cx rq now db =
     (case get_current_account cfg cx rq now db of Inl _ \<Rightarrow> None | Inr a \<Rightarrow> Some a)"

definition require_access_roles :: "settings \<Rightarrow> crypto \<Rightarrow> string list \<Rightarrow> http_request \<Rightarrow> instant \<Rightarrow> database \<Rightarrow> Account res" where
  "require_access_roles cfg cx allowed rq now db =
     (case get_current_account cfg cx rq now db of
        Inl e \<Rightarrow> Inl e
      | Inr a \<Rightarrow> if set (ac_access_roles a) \<inter> set allowed = {} then Inl (HTTPException 403 ''Insufficient permissions'') else Inr a)"

datatype login_response = MfaRequired string | SignedIn Account string string

definition login_response :: "sign_in \<Rightarrow> login_response res" where
  \<comment> \<open>the end of the two login routes; the tokens go into cookies\<close>
  "login_response r =
     (let (a, access_or_mfa, refresh) = r
      in case (nonempty_str access_or_mfa, refresh) of
           (Some t, None) \<Rightarrow> if ac_is_totp_enabled a then Inr (MfaRequired t) else Inl (HTTPException 500 ''Authentication failed'')
         | (Some t, Some (c # s)) \<Rightarrow> Inr (SignedIn a t (c # s))
         | _ \<Rightarrow> Inl (HTTPException 500 ''Authentication failed''))"

definition login_route :: "settings \<Rightarrow> crypto \<Rightarrow> string \<Rightarrow> string \<Rightarrow> instant \<Rightarrow> database \<Rightarrow> login_response res \<times> database" where
  "login_route cfg cx email password now db =
     (case authenticate_password cfg cx email password now db of
        (Inl e, db) \<Rightarrow> (Inl e, db) | (Inr r, db) \<Rightarrow> (login_response r, db))"

definition refresh_route :: "settings \<Rightarrow> crypto \<Rightarrow> http_request \<Rightarrow> instant \<Rightarrow> database \<Rightarrow> login_response res \<times> database" where
  "refresh_route cfg cx rq now db =
     (case nonempty_str (get_refresh_token_from_request cfg rq) of
        None \<Rightarrow> (Inl (HTTPException 401 ''Refresh token missing''), db)
      | Some raw \<Rightarrow>
          (case refresh_session cfg cx raw now db of
             (Inl e, db) \<Rightarrow> (Inl e, db)
           | (Inr (access, refresh), db) \<Rightarrow>
               (case account_from_token cx access TOKEN_TYPE_ACCESS now db of
                  Inl e \<Rightarrow> (Inl e, db) | Inr a \<Rightarrow> (Inr (SignedIn a access refresh), db))))"

definition logout_route :: "settings \<Rightarrow> crypto \<Rightarrow> http_request \<Rightarrow> instant \<Rightarrow> database \<Rightarrow> database" where
  "logout_route cfg cx rq now db =
     logout cx (map_option ac_id (get_optional_account cfg cx rq now db)) (get_refresh_token_from_request cfg rq) now db"

section \<open>Administration of accounts\<close>

definition set_roles :: "uuid \<Rightarrow> string list \<Rightarrow> database \<Rightarrow> Account res \<times> database" where
  "set_roles aid slugs db =
     (case get_account aid db of
        None \<Rightarrow> (Inl (HTTPException 404 ''Account not found''), db)
      | Some a \<Rightarrow>
          (case find (\<lambda>slug. \<not> role_exists slug db) slugs of
             Some slug \<Rightarrow> (Inl (HTTPException 400 (''Unknown access role: '' @ slug)), db)
           | None \<Rightarrow> let a = a\<lparr>ac_access_roles := slugs\<rparr> in (Inr a, update_account a db)))"

definition set_active :: "uuid \<Rightarrow> bool \<Rightarrow> database \<Rightarrow> Account res \<times> database" where
  "set_active aid active db =
     (case get_account aid db of
        None \<Rightarrow> (Inl (HTTPException 404 ''Account not found''), db)
      | Some a \<Rightarrow> let a = a\<lparr>ac_is_active := active\<rparr> in (Inr a, update_account a db))"

section \<open>Lemmas\<close>

lemma account_tokens_frame [simp]:
  "db_tokens (update_account a db) = db_tokens db"
  by (simp add: update_account_def)

lemma accounts_frame [simp]:
  "db_accounts (snd (create_token cx aid e db)) = db_accounts db"
  "db_accounts (revoke_token t rb now db) = db_accounts db"
  "db_accounts (revoke_all_for_account aid now db) = db_accounts db"
  by (simp_all add: create_token_def revoke_token_def revoke_all_for_account_def Let_def)

lemma accounts_issue_pair [simp]: "db_accounts (snd (issue_pair cfg cx aid now db)) = db_accounts db"
  using accounts_frame(1) [of cx aid "token_expiry cfg now" db]
  by (cases "create_token cx aid (token_expiry cfg now) db") (auto simp: issue_pair_def split: prod.splits)

lemma accounts_rotate [simp]: "db_accounts (snd (rotate_token cfg cx raw now db)) = db_accounts db"
proof -
  have "db_accounts db' = db_accounts db" if "create_token cx aid e db = (x, db')" for aid e x db'
    using accounts_frame(1) [of cx aid e db] that by simp
  then show ?thesis by (auto simp: rotate_token_def Let_def split: option.splits prod.splits)
qed

lemma get_account_frame:
  "db_accounts db' = db_accounts db \<Longrightarrow> get_account aid db' = get_account aid db"
  by (simp add: get_account_def)

lemma get_account_key: "get_account aid db = Some a \<Longrightarrow> ac_id a = aid"
  by (auto simp: get_account_def dest: lookup_row_Some)

lemma sign_in_second_factor:
  "has_totp a \<Longrightarrow> sign_in cfg cx a now db = ((a, Some (create_mfa_token cfg cx (ac_id a) now), None), db)"
  by (simp add: sign_in_def)

lemma sign_in_tokens:
  "\<not> has_totp a \<Longrightarrow> sign_in cfg cx a now db =
     ((a, Some (create_access_token cfg cx (ac_id a) (ac_access_roles a) now), Some (fst (issue_pair cfg cx (ac_id a) now db))),
      snd (issue_pair cfg cx (ac_id a) now db))"
  by (simp add: sign_in_def issue_tokens_def Let_def split: prod.splits)

definition may_sign_in :: "settings \<Rightarrow> Account \<Rightarrow> bool" where
  "may_sign_in cfg a \<longleftrightarrow> ac_is_active a \<and> (ac_is_email_verified a \<or> \<not> cfg_require_email_verification cfg)"

lemma authenticate_password_cases:
  "authenticate_password cfg cx email password now db =
     (case get_by_email (lower email) db of
        None \<Rightarrow> (Inl (HTTPException 401 ''Invalid credentials''), db)
      | Some a \<Rightarrow>
          if \<not> password_ok cx a password then (Inl (HTTPException 401 ''Invalid credentials''), db)
          else if may_sign_in cfg a
          then (Inr (fst (sign_in cfg cx a now db)), snd (sign_in cfg cx a now db))
          else (Inl (HTTPException 403 (if ac_is_active a then ''Please verify your email before signing in''
                                        else ''Account is inactive'')), db))"
  by (cases "get_by_email (lower email) db") (auto simp: authenticate_password_def may_sign_in_def Let_def split: prod.splits)

text \<open>What a password has to be: the account has a password hash and bcrypt accepts the password for it.\<close>

lemma password_ok_iff:
  "password_ok cx a password \<longleftrightarrow> (\<exists>h. ac_password_hash a = Some h \<and> h \<noteq> [] \<and> cx_verify_password cx password h)"
  by (auto simp: password_ok_def nonempty_str_def split: option.splits list.splits)

lemma has_totp_iff: "has_totp a \<longleftrightarrow> ac_is_totp_enabled a \<and> (\<exists>s. ac_totp_secret a = Some s \<and> s \<noteq> [])"
  by (auto simp: has_totp_def nonempty_str_def split: option.splits list.splits)

lemma get_by_email_Some: "get_by_email email db = Some a \<Longrightarrow> a \<in> set (db_accounts db) \<and> ac_email a = email"
  by (auto simp: get_by_email_def dest: lookup_row_Some)

text \<open>
  C19. Signing in with a password never skips a check. Tokens are handed out only for a stored account of that e-mail address in
  lower case that has a password hash the password verifies against, is active, and is verified where verification is required.
  With a second factor (switched on and with a secret) the only token is the one that asks for it, of type mfa and for the
  configured minutes, and the database stays as it is; without one the answer is an access token of the account with its roles
  and a refresh token, of which one row with its hash and expiry is added. A refusal changes nothing and is 401 exactly when
  there is no such account or its password does not verify, else 403.
\<close>

theorem password_sign_in_checks_everything:
  "case authenticate_password cfg cx email password now db of
     (Inl e, db') \<Rightarrow> db' = db \<and>
       (e = HTTPException 401 ''Invalid credentials''
          \<and> \<not> (\<exists>a h. get_by_email (lower email) db = Some a \<and> ac_password_hash a = Some h \<and> h \<noteq> [] \<and> cx_verify_password cx password h)
        \<or> (\<exists>a h msg. e = HTTPException 403 msg
          \<and> get_by_email (lower email) db = Some a \<and> ac_password_hash a = Some h \<and> h \<noteq> [] \<and> cx_verify_password cx password h
          \<and> (\<not> ac_is_active a \<or> cfg_require_email_verification cfg \<and> \<not> ac_is_email_verified a)))
   | (Inr (a, token, refresh), db') \<Rightarrow>
       a \<in> set (db_accounts db) \<and> ac_email a = lower email
       \<and> (\<exists>h. ac_password_hash a = Some h \<and> h \<noteq> [] \<and> cx_verify_password cx password h)
       \<and> ac_is_active a \<and> (ac_is_email_verified a \<or> \<not> cfg_require_email_verification cfg)
       \<and> (if ac_is_totp_enabled a \<and> (\<exists>s. ac_totp_secret a = Some s \<and> s \<noteq> [])
          then token = Some (cx_encode cx \<lparr>cl_sub = ac_id a, cl_type = ''mfa'',
                   cl_exp = (now + cfg_mfa_token_expire_minutes cfg * 60000000) div 1000000, cl_access_roles = []\<rparr>)
               \<and> refresh = None \<and> db' = db
          else token = Some (cx_encode cx \<lparr>cl_sub = ac_id a, cl_type = ''access'',
                   cl_exp = (now + cfg_jwt_expire_minutes cfg * 60000000) div 1000000, cl_access_roles = ac_access_roles a\<rparr>)
               \<and> (\<exists>raw. refresh = Some raw \<and> db' = db\<lparr>db_tokens := db_tokens db @
                   [\<lparr>rt_id = cx_fresh_id cx db, rt_account_id = ac_id a, rt_token_hash = cx_hash_token cx raw,
                     rt_expires_at = Aware (now + cfg_refresh_token_expire_days cfg * 86400000000), rt_revoked_at = None,
                     rt_replaced_by_id = None\<rparr>]\<rparr>))"
proof (cases "get_by_email (lower email) db")
  case None
  then show ?thesis by (simp add: authenticate_password_cases)
next
  case (Some a)
  note found = get_by_email_Some [OF Some]
  show ?thesis
  proof (cases "password_ok cx a password \<and> may_sign_in cfg a")
    case False
    then show ?thesis
      by (auto simp: authenticate_password_cases Some password_ok_iff may_sign_in_def)
  next
    case True
    then have ok: "authenticate_password cfg cx email password now db = (Inr (fst (sign_in cfg cx a now db)), snd (sign_in cfg cx a now db))"
      by (simp add: authenticate_password_cases Some)
    have checks: "\<exists>h. ac_password_hash a = Some h \<and> h \<noteq> [] \<and> cx_verify_password cx password h" "ac_is_active a"
      "ac_is_email_verified a \<or> \<not> cfg_require_email_verification cfg"
      using True by (auto simp: password_ok_iff may_sign_in_def)
    show ?thesis
    proof (cases "has_totp a")
      case True
      then show ?thesis using found checks unfolding ok sign_in_second_factor [OF True] has_totp_iff
        by (simp add: create_mfa_token_def numeric_date_def TOKEN_TYPE_MFA_def)
    next
      case False
      then show ?thesis using found checks unfolding ok sign_in_tokens [OF False] has_totp_iff
        by (simp add: create_access_token_def numeric_date_def TOKEN_TYPE_ACCESS_def issue_pair_def create_token_def token_expiry_def Let_def)
    qed
  qed
qed

section \<open>Tokens of a request\<close>

definition cookie_request :: "settings \<Rightarrow> string \<Rightarrow> http_request" where
  "cookie_request cfg token = \<lparr>rq_authorization = None, rq_cookies = [(cfg_access_cookie_name cfg, token)]\<rparr>"

lemma nonempty_str_simps [simp]: "nonempty_str None = None" "s \<noteq> [] \<Longrightarrow> nonempty_str (Some s) = Some s"
  by (simp_all add: nonempty_str_def split: list.splits)

lemma token_of_cookie_request [simp]: "get_access_token_from_request cfg (cookie_request cfg token) = Some token"
  by (simp add: get_access_token_from_request_def cookie_request_def)

lemma account_from_access_token:
  assumes "\<forall>c. cx_decode cx (cx_encode cx c) = Some c"
  shows "account_from_token cx (create_access_token cfg cx aid roles t) TOKEN_TYPE_ACCESS now db =
    (if now < numeric_date (t + cfg_jwt_expire_minutes cfg * usec_per_minute) * usec_per_second
     then case get_account aid db of None \<Rightarrow> Inl (HTTPException 401 ''Account not found'') | Some a \<Rightarrow> Inr a
     else Inl (HTTPException 401 ''Invalid token''))"
  using assms by (simp add: account_from_token_def decode_token_def create_access_token_def)

text \<open>
  The access token of an account authenticates exactly that account, read afresh from the database, until it
  expires and not a moment longer; the token that asks for the second factor is never accepted in its place.
\<close>

theorem access_token_roundtrip:
  assumes "\<forall>c. cx_decode cx (cx_encode cx c) = Some c" and "\<forall>c. cx_encode cx c \<noteq> []"
  shows "get_current_account cfg cx (cookie_request cfg (create_access_token cfg cx aid roles t)) now db =
      (if now < numeric_date (t + cfg_jwt_expire_minutes cfg * usec_per_minute) * usec_per_second
       then case get_account aid db of None \<Rightarrow> Inl (HTTPException 401 ''Account not found'') | Some a \<Rightarrow> Inr a
       else Inl (HTTPException 401 ''Invalid token''))
    \<and> (\<exists>msg. get_current_account cfg cx (cookie_request cfg (create_mfa_token cfg cx aid t)) now db = Inl (HTTPException 401 msg))"
proof -
  have ne: "nonempty_str (Some (cx_encode cx c)) = Some (cx_encode cx c)" for c
    using assms(2) by simp
  have "get_current_account cfg cx (cookie_request cfg (create_access_token cfg cx aid roles t)) now db =
      account_from_token cx (create_access_token cfg cx aid roles t) TOKEN_TYPE_ACCESS now db"
    by (simp add: get_current_account_def create_access_token_def ne)
  moreover have "\<exists>msg. get_current_account cfg cx (cookie_request cfg (create_mfa_token cfg cx aid t)) now db = Inl (HTTPException 401 msg)"
    using assms(1)
    by (auto simp: get_current_account_def create_mfa_token_def ne account_from_token_def decode_token_def
        TOKEN_TYPE_MFA_def TOKEN_TYPE_ACCESS_def)
  ultimately show ?thesis using account_from_access_token [OF assms(1)] by simp
qed


text \<open>A signature scheme for the witnesses: the claims written out.\<close>

definition enc_str :: "string \<Rightarrow> string" where
  "enc_str s = concat (map (\<lambda>c. [CHR ''.'', c]) s) @ '',''"

fun dec_str :: "string \<Rightarrow> string \<times> string" where
  "dec_str (d # c # r) = (if d = CHR ''.'' then let (s, rest) = dec_str r in (c # s, rest) else ([], c # r))"
| "dec_str _ = ([], [])"

lemma dec_enc_str [simp]: "dec_str (enc_str s @ r) = (s, r)"
  by (induction s) (cases r; simp add: enc_str_def)+

definition enc_int :: "int \<Rightarrow> string" where
  "enc_int i = (if i < 0 then CHR ''-'' else CHR ''+'') # replicate (nat \<bar>i\<bar>) CHR ''1''"

definition dec_int :: "string \<Rightarrow> int" where
  "dec_int s = (if hd s = CHR ''-'' then - int (length (tl s)) else int (length (tl s)))"

lemma dec_enc_int [simp]: "dec_int (enc_int i) = i"
  by (simp add: dec_int_def enc_int_def)

fun dec_strs :: "nat \<Rightarrow> string \<Rightarrow> string list" where
  "dec_strs 0 _ = []"
| "dec_strs (Suc n) s = (let (x, r) = dec_str s in x # dec_strs n r)"

lemma dec_enc_strs [simp]: "dec_strs (length xs) (concat (map enc_str xs)) = xs"
  by (induction xs) simp_all

definition plain_encode :: "claims \<Rightarrow> string" where
  "plain_encode c = concat (map enc_str ([cl_sub c, cl_type c, enc_int (cl_exp c), enc_int (int (length (cl_access_roles c)))]
     @ cl_access_roles c))"

definition plain_decode :: "string \<Rightarrow> claims option" where
  "plain_decode s =
     (let (sub, s) = dec_str s; (type, s) = dec_str s; (exp, s) = dec_str s; (n, s) = dec_str s
      in Some \<lparr>cl_sub = sub, cl_type = type, cl_exp = dec_int exp, cl_access_roles = dec_strs (nat (dec_int n)) s\<rparr>)"

lemma plain_decode_encode [simp]: "plain_decode (plain_encode c) = Some c"
  by (simp add: plain_decode_def plain_encode_def)

lemma plain_encode_not_Nil [simp]: "plain_encode c \<noteq> []"
  by (simp add: plain_encode_def enc_str_def)

definition session_crypto :: crypto where
  "session_crypto = sample_crypto\<lparr>cx_encode := plain_encode, cx_decode := plain_decode\<rparr>"

lemma session_crypto_simps [simp]:
  "cx_encode session_crypto = plain_encode" "cx_decode session_crypto = plain_decode"
  "cx_hash_token session_crypto = (\<lambda>s. s)" "cx_fresh_token session_crypto = cx_fresh_token sample_crypto"
  "cx_verify_password session_crypto = (\<lambda>p h. p = h)" "cx_verify_totp session_crypto = (\<lambda>s c. c = ''123456'')"
  by (simp_all add: session_crypto_def sample_crypto_def)

lemma session_crypto_fresh: "fresh_tokens session_crypto"
  using sample_crypto_fresh by (simp add: fresh_tokens_def session_crypto_def)

definition sample_account :: Account where
  "sample_account =
     \<lparr>ac_id = ''a1'', ac_email = ''a@x'', ac_username = None, ac_password_hash = Some ''pw'', ac_google_sub = None,
      ac_full_name = None, ac_avatar_url = None, ac_totp_secret = None, ac_is_totp_enabled = False, ac_is_active = True,
      ac_is_email_verified = True, ac_email_verification_token = None, ac_access_roles = [''admin'']\<rparr>"

definition one_account :: database where "one_account = empty_database\<lparr>db_accounts := [sample_account]\<rparr>"

lemma password_sign_in_checks_everything_witness:
  "fst (authenticate_password sample_cfg session_crypto ''a@x'' ''other'' 0 one_account) = Inl (HTTPException 401 ''Invalid credentials'')"
proof -
  have "get_by_email (lower ''a@x'') one_account = Some sample_account"
    by (simp add: get_by_email_def one_account_def lookup_row_def sample_account_def) code_simp
  then show ?thesis
    using password_sign_in_checks_everything [where cfg = sample_cfg and cx = session_crypto and email = "''a@x''"
        and password = "''other''" and now = 0 and db = one_account]
    by (auto simp: one_account_def sample_account_def session_crypto_def sample_crypto_def split: prod.splits sum.splits)
qed

lemma access_token_roundtrip_witness:
  "get_current_account sample_cfg session_crypto
     (cookie_request sample_cfg (create_access_token sample_cfg session_crypto ''a1'' [''admin''] 0)) 0
     (empty_database\<lparr>db_accounts := [sample_account]\<rparr>) = Inr sample_account"
  using access_token_roundtrip [of session_crypto sample_cfg "''a1''" "[''admin'']" 0 0 "empty_database\<lparr>db_accounts := [sample_account]\<rparr>"]
  by (simp add: get_account_def lookup_row_def sample_account_def sample_cfg_def numeric_date_def)

section \<open>Logging out\<close>

definition live_tokens :: "uuid \<Rightarrow> database \<Rightarrow> RefreshToken list" where
  "live_tokens aid db = filter (\<lambda>t. rt_account_id t = aid \<and> rt_revoked_at t = None) (db_tokens db)"

lemma db_tokens_revoke_all:
  "db_tokens (revoke_all aid now db) =
     map (\<lambda>t. if rt_account_id t = aid \<and> rt_revoked_at t = None then t\<lparr>rt_revoked_at := Some now\<rparr> else t) (db_tokens db)"
  by (simp add: revoke_all_def revoke_all_for_account_def)

lemma set_revoke_all:
  assumes "t \<in> set (db_tokens (revoke_all aid now db))"
  obtains (revoked) u where "u \<in> set (db_tokens db)" "rt_account_id u = aid" "rt_revoked_at u = None" "t = u\<lparr>rt_revoked_at := Some now\<rparr>"
    | (kept) "t \<in> set (db_tokens db)" "\<not> (rt_account_id t = aid \<and> rt_revoked_at t = None)"
proof -
  obtain u where "u \<in> set (db_tokens db)"
    "t = (if rt_account_id u = aid \<and> rt_revoked_at u = None then u\<lparr>rt_revoked_at := Some now\<rparr> else u)"
    using assms unfolding db_tokens_revoke_all set_map by (rule imageE) blast
  then show thesis using revoked kept by (cases "rt_account_id u = aid \<and> rt_revoked_at u = None") simp_all
qed

lemma live_tokens_revoke_all [simp]: "live_tokens aid (revoke_all aid now db) = []"
proof -
  have "\<not> (rt_account_id t = aid \<and> rt_revoked_at t = None)" if "t \<in> set (db_tokens (revoke_all aid now db))" for t
    using that by (cases rule: set_revoke_all) simp_all
  then show ?thesis unfolding live_tokens_def filter_empty_conv by blast
qed

lemma revoke_raw_unusable:
  assumes "tokens_wf db"
  shows "get_active_by_raw_token cx raw now (revoke_raw cx raw now db) = None"
proof (cases "get_active_by_raw_token cx raw now db")
  case (Some t)
  note act = get_active_Some [OF Some]
  have wf: "tokens_wf (revoke_token t None now db)" using tokens_wf_revoke assms act by blast
  have "token_spent (revoke_token t None now db) (cx_hash_token cx raw)"
    using act by (intro token_spent_revoke [OF assms]) simp_all
  then obtain v where "v \<in> set (db_tokens (revoke_token t None now db))" "rt_token_hash v = cx_hash_token cx raw"
    "rt_revoked_at v \<noteq> None" by (auto simp: token_spent_def)
  then have "get_active_by_raw_token cx raw now (revoke_token t None now db) \<noteq> Some u" for u
    using token_unique [OF wf, of u v] get_active_Some [of cx raw now "revoke_token t None now db" u] by metis
  then have "get_active_by_raw_token cx raw now (revoke_token t None now db) = None" by blast
  with Some show ?thesis by (simp add: revoke_raw_def)
qed (simp add: revoke_raw_def)


lemma get_active_after_revoke_all:
  assumes "get_active_by_raw_token cx raw later (revoke_all aid now db) = Some t"
  shows "rt_account_id t \<noteq> aid \<and> get_active_by_raw_token cx raw later db \<noteq> None"
proof -
  note act = get_active_Some [OF assms]
  from act have "t \<in> set (db_tokens (revoke_all aid now db))" by blast
  then show ?thesis
  proof (cases rule: set_revoke_all)
    case kept
    with act get_active_exists [of t db cx raw later] show ?thesis by (auto simp: token_active_def)
  qed (use act in simp)
qed

text \<open>
  C20. Logging out ends every session of the account: none of its refresh tokens can be exchanged any more, the
  token of the request cannot be either, and no token of another account than these changes.
\<close>

theorem logout_ends_every_session:
  assumes "tokens_wf db" and "get_optional_account cfg cx rq now db = Some a"
  shows "(\<forall>raw later t. get_active_by_raw_token cx raw later (logout_route cfg cx rq now db) = Some t \<longrightarrow> rt_account_id t \<noteq> ac_id a)
    \<and> (\<forall>raw. nonempty_str (get_refresh_token_from_request cfg rq) = Some raw \<longrightarrow>
          get_active_by_raw_token cx raw now (logout_route cfg cx rq now db) = None)
    \<and> (\<forall>t \<in> set (db_tokens db). rt_account_id t \<noteq> ac_id a \<longrightarrow>
          (\<forall>raw. get_refresh_token_from_request cfg rq = Some raw \<longrightarrow> rt_token_hash t \<noteq> cx_hash_token cx raw) \<longrightarrow>
          t \<in> set (db_tokens (logout_route cfg cx rq now db)))"
proof (intro conjI)
  define raw where "raw = nonempty_str (get_refresh_token_from_request cfg rq)"
  define db1 where "db1 = (case raw of None \<Rightarrow> db | Some r \<Rightarrow> revoke_raw cx r now db)"
  have out: "logout_route cfg cx rq now db = revoke_all (ac_id a) now db1"
    by (simp add: logout_route_def logout_def assms(2) db1_def raw_def Let_def)
  show "\<forall>raw later t. get_active_by_raw_token cx raw later (logout_route cfg cx rq now db) = Some t \<longrightarrow> rt_account_id t \<noteq> ac_id a"
    unfolding out using get_active_after_revoke_all by blast
  have "get_active_by_raw_token cx r now db1 = None" if "raw = Some r" for r
    using revoke_raw_unusable [OF assms(1)] that by (simp add: db1_def)
  then show "\<forall>r. nonempty_str (get_refresh_token_from_request cfg rq) = Some r \<longrightarrow>
      get_active_by_raw_token cx r now (logout_route cfg cx rq now db) = None"
    unfolding out raw_def using get_active_after_revoke_all [of cx _ now "ac_id a" now db1] by (metis option.exhaust)
  have keep: "t \<in> set (db_tokens (revoke_all (ac_id a) now db1))" if "t \<in> set (db_tokens db1)" "rt_account_id t \<noteq> ac_id a" for t
    using that unfolding db_tokens_revoke_all by (auto intro!: rev_image_eqI)
  have "t \<in> set (db_tokens db1)" if t: "t \<in> set (db_tokens db)"
    and other: "\<forall>raw. get_refresh_token_from_request cfg rq = Some raw \<longrightarrow> rt_token_hash t \<noteq> cx_hash_token cx raw" for t
  proof (cases raw)
    case (Some r)
    then have r: "get_refresh_token_from_request cfg rq = Some r"
      by (auto simp: raw_def nonempty_str_def split: option.splits list.splits)
    show ?thesis
    proof (cases "get_active_by_raw_token cx r now db")
      case (Some u)
      note act = get_active_Some [OF Some]
      have "rt_id t \<noteq> rt_id u"
        using assms(1) t act other r by (auto simp: tokens_wf_def distinct_map dest: inj_onD)
      with t Some \<open>raw = Some r\<close> act show ?thesis by (simp add: db1_def revoke_raw_def set_revoke_token)
    qed (use t Some in \<open>simp add: db1_def revoke_raw_def\<close>)
  qed (use t in \<open>simp add: db1_def\<close>)
  with keep show "\<forall>t \<in> set (db_tokens db). rt_account_id t \<noteq> ac_id a \<longrightarrow>
      (\<forall>raw. get_refresh_token_from_request cfg rq = Some raw \<longrightarrow> rt_token_hash t \<noteq> cx_hash_token cx raw) \<longrightarrow>
      t \<in> set (db_tokens (logout_route cfg cx rq now db))"
    unfolding out by blast
qed

text \<open>
  A session is renewed only for an account that still exists and is active, from a token that was never
  exchanged or revoked, and the new access token carries the roles the account has now.
\<close>

theorem renewed_session_is_current:
  assumes "refresh_session cfg cx raw now db = (Inr (access, refresh), db')"
  shows "\<exists>t a. get_active_by_raw_token cx raw now db = Some t \<and> get_account (rt_account_id t) db = Some a \<and> ac_is_active a
     \<and> access = create_access_token cfg cx (ac_id a) (ac_access_roles a) now \<and> db_accounts db' = db_accounts db"
proof (cases "rotate_token cfg cx raw now db")
  case (Pair r db1)
  then obtain aid where r: "r = Inr (aid, refresh)" and db1: "db1 = db'"
    using assms by (auto simp: refresh_session_def split: sum.splits py_exn.splits option.splits prod.splits if_splits)
  obtain t where t: "get_active_by_raw_token cx raw now db = Some t" "aid = rt_account_id t"
    using Pair r by (auto elim: rotate_success)
  have acc: "db_accounts db1 = db_accounts db" using accounts_rotate [of cfg cx raw now db] Pair by simp
  from assms Pair r t acc show ?thesis
    by (auto simp: refresh_session_def get_account_frame [OF acc] split: option.splits if_splits)
qed


definition signed_in_db :: database where
  "signed_in_db = snd (issue_pair sample_cfg session_crypto ''a1'' 0 (empty_database\<lparr>db_accounts := [sample_account]\<rparr>))"

lemma signed_in_db_wf: "tokens_wf signed_in_db"
  using tokens_wf_step [OF session_crypto_fresh, of "empty_database\<lparr>db_accounts := [sample_account]\<rparr>" sample_cfg "(Issue ''a1'', 0)"]
  by (simp add: signed_in_db_def) (simp add: tokens_wf_def empty_database_def)

lemma signed_in_account: "get_account ''a1'' signed_in_db = Some sample_account"
  by (simp add: signed_in_db_def get_account_def) (simp add: lookup_row_def sample_account_def)

lemma signed_in_token: "get_active_by_raw_token session_crypto ''t'' 1 signed_in_db \<noteq> None"
  by (simp add: signed_in_db_def issue_pair_def create_token_def Let_def get_active_by_raw_token_def empty_database_def
      token_active_def token_expiry_def sample_cfg_def session_crypto_def sample_crypto_def)

lemma logout_ends_every_session_witness:
  "case get_active_by_raw_token session_crypto ''t'' 1
     (logout_route sample_cfg session_crypto (cookie_request sample_cfg (create_access_token sample_cfg session_crypto ''a1'' [] 0)) 1 signed_in_db)
   of None \<Rightarrow> True | Some t \<Rightarrow> rt_account_id t \<noteq> ''a1''"
proof -
  have ne: "nonempty_str (Some (plain_encode c)) = Some (plain_encode c)" for c by simp
  have opt: "get_optional_account sample_cfg session_crypto
      (cookie_request sample_cfg (create_access_token sample_cfg session_crypto ''a1'' [] 0)) 1 signed_in_db = Some sample_account"
    by (simp add: get_optional_account_def get_current_account_def create_access_token_def ne account_from_token_def
        decode_token_def signed_in_account sample_cfg_def numeric_date_def)
  show ?thesis using logout_ends_every_session [OF signed_in_db_wf opt] by (auto simp: sample_account_def split: option.split)
qed

lemma renewed_session_is_current_witness:
  "\<exists>access refresh db'. refresh_session sample_cfg session_crypto ''t'' 1 signed_in_db = (Inr (access, refresh), db')
     \<and> access = create_access_token sample_cfg session_crypto ''a1'' [''admin''] 1"
proof -
  obtain t where t: "get_active_by_raw_token session_crypto ''t'' 1 signed_in_db = Some t" using signed_in_token by blast
  have id: "rt_account_id t = ''a1''"
    using get_active_Some [OF t] by (auto simp: signed_in_db_def issue_pair_def create_token_def Let_def empty_database_def)
  obtain r db1 where r: "rotate_token sample_cfg session_crypto ''t'' 1 signed_in_db = (r, db1)" by fastforce
  then obtain raw where rr: "r = Inr (''a1'', raw)" by (auto simp: rotate_token_def t id Let_def split: prod.splits)
  have acc: "get_account ''a1'' db1 = Some sample_account"
    using accounts_rotate [of sample_cfg session_crypto "''t''" 1 signed_in_db] r signed_in_account by (simp add: get_account_def)
  obtain access refresh db' where run: "refresh_session sample_cfg session_crypto ''t'' 1 signed_in_db = (Inr (access, refresh), db')"
    using r rr acc by (simp add: refresh_session_def sample_account_def)
  from renewed_session_is_current [OF run] obtain a where
    "get_account ''a1'' signed_in_db = Some a" "access = create_access_token sample_cfg session_crypto (ac_id a) (ac_access_roles a) 1"
    using t id by auto
  with run signed_in_account show ?thesis by (simp add: sample_account_def)
qed

section \<open>Signing up\<close>

definition panel_accounts :: "database \<Rightarrow> uuid list" where
  "panel_accounts db = map ac_id (filter (\<lambda>a. account_has_panel_access (ac_access_roles a)) (db_accounts db))"

lemma create_account_accounts:
  "db_accounts (snd (create_account a db)) = db_accounts db \<or> db_accounts (snd (create_account a db)) = db_accounts db @ [a]"
  by (simp add: create_account_def)

lemma default_role_user: "default_role db = Inr slug \<Longrightarrow> db_accounts db \<noteq> [] \<Longrightarrow> \<not> account_has_panel_access [slug]"
  by (auto simp: default_role_def Let_def account_has_panel_access_def is_panel_role_def PANEL_ROLE_SLUGS_def
      DEFAULT_PUBLIC_ROLE_SLUG_def split: if_splits)

lemma panel_after_create:
  "\<not> account_has_panel_access (ac_access_roles a) \<Longrightarrow> panel_accounts (snd (create_account a db)) = panel_accounts db"
  using create_account_accounts [of a db] by (auto simp: panel_accounts_def)

lemma panel_after_update:
  assumes "distinct (map ac_id (db_accounts db))" and "b \<in> set (db_accounts db)"
    and "ac_id a = ac_id b" and "ac_access_roles a = ac_access_roles b"
  shows "panel_accounts (update_account a db) = panel_accounts db"
proof -
  define f where "f = (\<lambda>x. if ac_id x = ac_id a then a else x)"
  have f: "ac_id (f x) = ac_id x \<and> ac_access_roles (f x) = ac_access_roles x" if "x \<in> set (db_accounts db)" for x
  proof (cases "ac_id x = ac_id a")
    case True
    then have "x = b" using assms that by (auto simp: distinct_map dest: inj_onD)
    with True assms(3,4) show ?thesis by (simp add: f_def)
  qed (simp add: f_def)
  have "map ac_id (filter (\<lambda>a. account_has_panel_access (ac_access_roles a)) (map f (db_accounts db)))
      = map ac_id (filter (\<lambda>a. account_has_panel_access (ac_access_roles a)) (db_accounts db))"
    using f by (simp add: filter_map comp_def cong: filter_cong map_cong)
  then show ?thesis by (simp add: panel_accounts_def update_account_def replace_row_def f_def)
qed

lemma panel_after_google_account:
  assumes "distinct (map ac_id (db_accounts db))" and "db_accounts db \<noteq> []"
  shows "panel_accounts (snd (google_account cfg cx sub email full_name avatar db)) = panel_accounts db"
proof (cases "py_or (get_by_google_sub sub db) (get_by_email (lower email) db)")
  case None
  show ?thesis
    using assms(2) by (simp add: google_account_def None panel_after_create default_role_user split: sum.splits)
next
  case (Some b)
  then have b: "b \<in> set (db_accounts db)"
    by (cases "get_by_google_sub sub db") (auto simp: get_by_google_sub_def get_by_email_def dest: lookup_row_Some)
  have "ac_id (apply_google_profile f v (b\<lparr>ac_google_sub := s\<rparr>)) = ac_id b"
    "ac_access_roles (apply_google_profile f v (b\<lparr>ac_google_sub := s\<rparr>)) = ac_access_roles b" for f v s
    by (simp_all add: apply_google_profile_def)
  with panel_after_update [OF assms(1) b] Some show ?thesis by (simp add: google_account_def Let_def)
qed

lemma accounts_sign_in [simp]: "db_accounts (snd (sign_in cfg cx a now db)) = db_accounts db"
  by (cases "has_totp a") (simp_all add: sign_in_second_factor sign_in_tokens)

text \<open>
  Only the very first account becomes an administrator by signing up: once an account exists, neither
  registering, nor a sign-in with Google, nor one with a password changes which accounts may use the panel.
\<close>

theorem sign_up_grants_no_panel_access:
  assumes "distinct (map ac_id (db_accounts db))" and "db_accounts db \<noteq> []"
  shows "panel_accounts (snd (register cfg cx email password full_name db)) = panel_accounts db
    \<and> panel_accounts (snd (upsert_google_account cfg cx sub email full_name avatar now db)) = panel_accounts db
    \<and> panel_accounts (snd (login_route cfg cx email password now db)) = panel_accounts db"
proof (intro conjI)
  show "panel_accounts (snd (register cfg cx email password full_name db)) = panel_accounts db"
    using assms(2) by (simp add: register_def panel_after_create default_role_user split: sum.splits)
  obtain r db1 where g: "google_account cfg cx sub email full_name avatar db = (r, db1)" by fastforce
  then have "panel_accounts db1 = panel_accounts db" using panel_after_google_account [OF assms, of cfg cx sub email full_name avatar] by simp
  moreover have "db_accounts (snd (upsert_google_account cfg cx sub email full_name avatar now db)) = db_accounts db1"
  proof (cases r)
    case (Inr a)
    then show ?thesis using accounts_sign_in [of cfg cx a now db1] g
      by (cases "sign_in cfg cx a now db1") (auto simp: upsert_google_account_def Let_def)
  qed (simp add: upsert_google_account_def g)
  ultimately show "panel_accounts (snd (upsert_google_account cfg cx sub email full_name avatar now db)) = panel_accounts db"
    by (simp add: panel_accounts_def)
  have "db_accounts (snd (authenticate_password cfg cx email password now db)) = db_accounts db"
    by (simp add: authenticate_password_cases split: option.splits)
  then show "panel_accounts (snd (login_route cfg cx email password now db)) = panel_accounts db"
    by (auto simp: login_route_def panel_accounts_def split: prod.splits sum.splits)
qed

lemma sign_up_grants_no_panel_access_witness:
  "panel_accounts (snd (register sample_cfg session_crypto ''b@x'' ''pw'' None
     (empty_database\<lparr>db_accounts := [sample_account]\<rparr>))) = [''a1'']"
  using sign_up_grants_no_panel_access [of "empty_database\<lparr>db_accounts := [sample_account]\<rparr>" sample_cfg session_crypto "''b@x''" "''pw''" None]
  by (simp add: panel_accounts_def sample_account_def account_has_panel_access_def is_panel_role_def PANEL_ROLE_SLUGS_def)

text \<open>The first account does become an administrator, also where registration is switched off.\<close>

lemma first_account_is_admin:
  assumes "db_accounts db = []" and "role_exists ''admin'' db"
  shows "\<exists>a. register cfg cx email password full_name db = (Inr a, db\<lparr>db_accounts := [a]\<rparr>) \<and> ac_access_roles a = [''admin'']
    \<and> ac_email a = lower email"
  using assms by (simp add: register_def default_role_def create_account_def get_by_email_def lookup_row_def
      DEFAULT_BOOTSTRAP_ROLE_SLUG_def fresh_account_def)

section \<open>Where the code falls short\<close>

text \<open>
  Setting up the second factor of an account that already has one switches it off, although switching it off asks
  for the password and a code: whoever holds an access token gets past the second factor.
\<close>

lemma setup_totp_disables_second_factor:
  assumes "get_account (ac_id a) db = Some a"
  shows "get_account (ac_id a) (snd (setup_totp cx a db)) =
    Some (a\<lparr>ac_totp_secret := Some (cx_totp_secret cx db), ac_is_totp_enabled := False\<rparr>)"
  using assms by (simp add: setup_totp_def Let_def get_account_def update_account_def lookup_saved_row)

text \<open>The second factor of a deactivated account is still answered with a session.\<close>

lemma verify_mfa_ignores_deactivation:
  assumes "account_from_token cx token TOKEN_TYPE_MFA now db = Inr a" and "totp_ok cx a code" and "\<not> ac_is_active a"
  shows "\<exists>tokens. fst (verify_mfa cfg cx token code now db) = Inr tokens"
  using assms by (simp add: verify_mfa_def split: prod.splits)

text \<open>
  A registered address in other letters is not found by the check of \<open>register\<close>, which looks for the address as it
  was typed; only the unique index of the table refuses the row.
\<close>

lemma lower_sample: "lower ''A@x'' = ''a@x''"
  by code_simp

lemma register_other_case_refused_by_index:
  "\<exists>msg. fst (register sample_cfg session_crypto ''A@x'' ''pw'' None
     (empty_database\<lparr>db_accounts := [sample_account], db_roles := [\<lparr>ar_id = ''r'', ar_name = ''User'', ar_slug = ''user''\<rparr>]\<rparr>))
   = Inl (IntegrityError msg)"
  by (simp add: register_def sample_cfg_def get_by_email_def lookup_row_def sample_account_def default_role_def role_exists_def
      DEFAULT_PUBLIC_ROLE_SLUG_def create_account_def fresh_account_def lower_sample)

end
