(* ===== verification/Middleware.thy ===== *)
theory Middleware
  imports PyJson "HOL-Library.Countable"
begin

text \<open>
  The middleware every answer of the API passes: \<open>src/app/middleware/global_exception.py\<close>, \<open>https.py\<close>,
  \<open>trace_id.py\<close> and the envelope of \<open>src/app/schemas/api_response.py\<close>. The JSON library is a record of functions;
  a response keeps its status, content type, cookies, trace header and body. The handlers for exceptions that
  FastAPI itself catches build the same error envelope.
\<close>

section \<open>Requests and responses\<close>

record json_codec =
  jc_loads :: "string \<Rightarrow> json option" \<comment> \<open>\<open>json.loads\<close>, \<open>None\<close> for \<open>JSONDecodeError\<close>\<close>
  jc_dumps :: "json \<Rightarrow> string" \<comment> \<open>\<open>json.dumps\<close>\<close>
  jc_render :: "json \<Rightarrow> string" \<comment> \<open>the body a \<open>JSONResponse\<close> writes\<close>

record http_answer =
  ha_status :: int
  ha_content_type :: string
  ha_cookies :: "string list"
  ha_trace :: "string option" \<comment> \<open>\<open>X-Trace-Id\<close>\<close>
  ha_redirect :: bool
  ha_body :: string

text \<open>An exception with its explicit cause and its context.\<close>

datatype exn_kind = Cancelled | Http int json | Value | Permission | Integrity | Other

datatype exn = Exn exn_kind string (exn_cause: "exn option") (exn_context: "exn option")

fun exn_text :: "exn \<Rightarrow> string" where "exn_text (Exn _ s _ _) = s"
fun kind_of :: "exn \<Rightarrow> exn_kind" where "kind_of (Exn k _ _ _) = k"

section \<open>The envelope\<close>

definition success_payload :: "json \<Rightarrow> json" where
  "success_payload data = JObj [(''success'', JBool True), (''message'', JStr ''Success''), (''data'', data)]"

definition error_payload :: "string \<Rightarrow> int \<Rightarrow> string option \<Rightarrow> string option \<Rightarrow> json" where
  "error_payload message status_code detail trace_id =
     JObj [(''success'', JBool False), (''message'', JStr message),
           (''data'', JObj [(''status_code'', JInt status_code), (''detail'', opt_json JStr detail),
                            (''trace_id'', opt_json JStr trace_id)])]"

definition is_api_response_payload :: "json \<Rightarrow> bool" where
  "is_api_response_payload payload \<longleftrightarrow>
     (case as_dict payload of None \<Rightarrow> False
      | Some d \<Rightarrow> ''success'' \<in> set (map fst d) \<and> ''message'' \<in> set (map fst d))"

definition payload_trace :: "json \<Rightarrow> string option" where
  "payload_trace payload =
     (case as_dict payload of None \<Rightarrow> None
      | Some d \<Rightarrow> (case as_dict (jget d ''data'') of None \<Rightarrow> None
                   | Some e \<Rightarrow> (case as_str (jget e ''trace_id'') of Some (c # s) \<Rightarrow> Some (c # s) | _ \<Rightarrow> None)))"

definition json_response :: "json_codec \<Rightarrow> json \<Rightarrow> int \<Rightarrow> http_answer" where
  "json_response jc payload status =
     \<lparr>ha_status = status, ha_content_type = ''application/json'', ha_cookies = [], ha_trace = payload_trace payload,
      ha_redirect = False, ha_body = jc_render jc payload\<rparr>"

definition error_json :: "json_codec \<Rightarrow> string option \<Rightarrow> int \<Rightarrow> string \<Rightarrow> string option \<Rightarrow> http_answer" where
  "error_json jc trace_id status message detail = json_response jc (error_payload message status detail trace_id) status"

definition copy_set_cookie_headers :: "http_answer \<Rightarrow> http_answer \<Rightarrow> http_answer" where
  "copy_set_cookie_headers source target = target\<lparr>ha_cookies := ha_cookies target @ ha_cookies source\<rparr>"

section \<open>Exceptions\<close>

definition http_exception_message :: "json \<Rightarrow> string" where
  "http_exception_message detail =
     (case detail of
        JStr s \<Rightarrow> s
      | JObj d \<Rightarrow> if jget d ''message'' \<noteq> JNull then py_str (jget d ''message'') else ''Request failed.''
      | _ \<Rightarrow> ''Request failed.'')"

definition http_exception_detail :: "json_codec \<Rightarrow> json \<Rightarrow> string" where
  "http_exception_detail jc detail =
     (case detail of JStr s \<Rightarrow> s | JObj d \<Rightarrow> jc_dumps jc detail | JArr xs \<Rightarrow> jc_dumps jc detail | _ \<Rightarrow> py_str detail)"

fun last_cause :: "exn \<Rightarrow> exn" where
  "last_cause (Exn k s None x) = Exn k s None x"
| "last_cause (Exn k s (Some c) x) = last_cause c"

fun last_context :: "exn \<Rightarrow> exn" where
  \<comment> \<open>stops where the context is the cause\<close>
  "last_context (Exn k s c None) = Exn k s c None"
| "last_context (Exn k s c (Some x)) = (if c = Some x then Exn k s c (Some x) else last_context x)"

definition exception_detail :: "exn \<Rightarrow> string" where
  "exception_detail e = exn_text (last_context (last_cause e))"

definition integrity_error_message :: "exn \<Rightarrow> string" where
  "integrity_error_message e =
     (let detail = lower (exception_detail e)
      in if contains detail ''not-null'' \<or> contains detail ''not null'' \<or> contains detail ''null value''
         then ''A required field was missing or null.''
         else if contains detail ''check constraint'' \<or> contains detail ''violates check''
         then ''A value failed a database check constraint.''
         else if contains detail ''foreign key'' then ''A referenced resource does not exist.''
         else ''A resource already exists with the same key.'')"

definition map_exception_to_response :: "json_codec \<Rightarrow> string option \<Rightarrow> exn \<Rightarrow> http_answer" where
  "map_exception_to_response jc trace_id e =
     (case kind_of e of
        Http status detail \<Rightarrow> error_json jc trace_id status (http_exception_message detail) (Some (http_exception_detail jc detail))
      | Value \<Rightarrow> error_json jc trace_id 400 (exn_text e) (Some (exn_text e))
      | Permission \<Rightarrow> error_json jc trace_id 403 (if exn_text e = [] then ''Forbidden.'' else exn_text e) (Some (exn_text e))
      | Integrity \<Rightarrow> error_json jc trace_id 409 (integrity_error_message e) (Some (exception_detail e))
      | _ \<Rightarrow> error_json jc trace_id 500 ''An unexpected error occurred. Please try again later.'' (Some (exception_detail e)))"

definition handle_cancelled :: "json_codec \<Rightarrow> string option \<Rightarrow> exn \<Rightarrow> http_answer" where
  "handle_cancelled jc trace_id e =
     error_json jc trace_id 499 ''Request was cancelled.'' (if exn_text e = [] then None else Some (exn_text e))"

section \<open>Answers\<close>

definition extract_error_message :: "json \<Rightarrow> string" where
  "extract_error_message parsed =
     (case as_dict parsed of
        None \<Rightarrow> ''Request failed.''
      | Some d \<Rightarrow>
          (case jget d ''detail'' of
             JStr s \<Rightarrow> s
           | JArr (x # xs) \<Rightarrow> ''Validation failed.''
           | _ \<Rightarrow> if ''message'' \<in> set (map fst d) then py_str (jget d ''message'') else ''Request failed.''))"

definition error_detail :: "json_codec \<Rightarrow> json \<Rightarrow> string" where
  "error_detail jc parsed =
     (case as_dict parsed of
        None \<Rightarrow> jc_dumps jc parsed
      | Some d \<Rightarrow> (case jget d ''detail'' of JStr s \<Rightarrow> s | detail \<Rightarrow> jc_dumps jc detail))"

definition normalize_success_response :: "json_codec \<Rightarrow> string option \<Rightarrow> http_answer \<Rightarrow> http_answer" where
  "normalize_success_response jc trace_id response =
     (if ha_status response = 204 then json_response jc (success_payload JNull) 200
      else if \<not> contains (ha_content_type response) ''application/json'' then response
      else if ha_body response = [] then json_response jc (success_payload JNull) (ha_status response)
      else case jc_loads jc (ha_body response) of
             None \<Rightarrow> response\<lparr>ha_cookies := take 1 (ha_cookies response)\<rparr> \<comment> \<open>\<open>dict(response.headers)\<close> keeps one\<close>
           | Some parsed \<Rightarrow>
               if is_api_response_payload parsed
               then copy_set_cookie_headers response (json_response jc parsed (ha_status response))
               else if 400 \<le> ha_status response
               then error_json jc trace_id (ha_status response) (extract_error_message parsed) (Some (error_detail jc parsed))
               else copy_set_cookie_headers response (json_response jc (success_payload parsed) (ha_status response)))"

definition should_skip_request :: "string \<Rightarrow> bool" where
  "should_skip_request path \<longleftrightarrow>
     path = ''/health'' \<or> starts_with path ''/docs'' \<or> starts_with path ''/redoc'' \<or> starts_with path ''/openapi.json''"

text \<open>A route answers or raises; an exception of a skipped request is not caught here.\<close>

definition dispatch :: "json_codec \<Rightarrow> string \<Rightarrow> string option \<Rightarrow> exn + http_answer \<Rightarrow> exn + http_answer" where
  "dispatch jc path trace_id outcome =
     (if should_skip_request path then outcome
      else case outcome of
             Inl e \<Rightarrow>
               Inr (case kind_of e of
                      Cancelled \<Rightarrow> handle_cancelled jc trace_id e
                    | Http status detail \<Rightarrow>
                        error_json jc trace_id status (http_exception_message detail) (Some (http_exception_detail jc detail))
                    | _ \<Rightarrow> map_exception_to_response jc trace_id e)
           | Inr response \<Rightarrow>
               Inr (if ha_redirect response then response else normalize_success_response jc trace_id response))"

section \<open>Trace identifier and HTTPS\<close>

definition trace_id_of :: "(string \<times> string) list \<Rightarrow> string \<Rightarrow> string" where
  \<comment> \<open>headers by lower-case name, and the generated identifier\<close>
  "trace_id_of headers fresh =
     (case map_of headers ''x-trace-id'' of
        Some (c # s) \<Rightarrow> c # s
      | _ \<Rightarrow> (case map_of headers ''x-request-id'' of Some (c # s) \<Rightarrow> c # s | _ \<Rightarrow> fresh))"

definition set_trace_header :: "string \<Rightarrow> http_answer \<Rightarrow> http_answer" where
  "set_trace_header trace_id response =
     (if ha_trace response = None then response\<lparr>ha_trace := Some trace_id\<rparr> else response)"

definition https_refusal :: "json_codec \<Rightarrow> http_answer" where
  \<comment> \<open>this middleware is outermost: no trace identifier is set yet\<close>
  "https_refusal jc = (json_response jc (error_payload ''HTTPS is required'' 403 (Some ''HTTPS is required'') None) 403)\<lparr>ha_trace := None\<rparr>"

definition require_https_ok :: "bool \<Rightarrow> string \<Rightarrow> (string \<times> string) list \<Rightarrow> string \<Rightarrow> bool" where
  "require_https_ok require_https path headers scheme \<longleftrightarrow>
     \<not> require_https \<or> path = ''/health'' \<or> (case map_of headers ''x-forwarded-proto'' of None \<Rightarrow> scheme | Some p \<Rightarrow> p) = ''https''"

definition serve ::
  "json_codec \<Rightarrow> bool \<Rightarrow> string \<Rightarrow> (string \<times> string) list \<Rightarrow> string \<Rightarrow> string \<Rightarrow> (string \<Rightarrow> exn + http_answer) \<Rightarrow> exn + http_answer" where
  \<comment> \<open>HTTPS, then the trace identifier, then the routes inside the exception handler\<close>
  "serve jc require_https path headers scheme fresh route =
     (if \<not> require_https_ok require_https path headers scheme then Inr (https_refusal jc)
      else let trace_id = trace_id_of headers fresh
           in case dispatch jc path (Some trace_id) (route trace_id) of
                Inl e \<Rightarrow> Inl e | Inr response \<Rightarrow> Inr (set_trace_header trace_id response))"

section \<open>Every answer is wrapped\<close>

definition codec_ok :: "json_codec \<Rightarrow> bool" where
  \<comment> \<open>what is rendered is read back, and is not empty\<close>
  "codec_ok jc \<longleftrightarrow> (\<forall>j. jc_loads jc (jc_render jc j) = Some j \<and> jc_render jc j \<noteq> [])"

definition payload_of :: "json_codec \<Rightarrow> http_answer \<Rightarrow> json option" where
  "payload_of jc a = (if contains (ha_content_type a) ''application/json'' then jc_loads jc (ha_body a) else None)"

definition success_flag :: "json \<Rightarrow> json" where
  "success_flag j = (case as_dict j of None \<Rightarrow> JNull | Some d \<Rightarrow> jget d ''success'')"

lemma payload_json_response [simp]: "codec_ok jc \<Longrightarrow> payload_of jc (json_response jc p s) = Some p"
  by (simp add: payload_of_def json_response_def codec_ok_def)

lemma payload_error_json [simp]:
  "codec_ok jc \<Longrightarrow> payload_of jc (error_json jc tr s m d) = Some (error_payload m s d tr)"
  by (simp add: error_json_def)

lemma payload_copy [simp]: "payload_of jc (copy_set_cookie_headers a b) = payload_of jc b"
  by (simp add: payload_of_def copy_set_cookie_headers_def)

lemma status_simps [simp]:
  "ha_status (json_response jc p s) = s" "ha_status (error_json jc tr s m d) = s"
  "ha_status (copy_set_cookie_headers a b) = ha_status b"
  by (simp_all add: json_response_def error_json_def copy_set_cookie_headers_def)

lemma flag_simps [simp]:
  "success_flag (success_payload j) = JBool True" "success_flag (error_payload m s d tr) = JBool False"
  "is_api_response_payload (success_payload j)" "is_api_response_payload (error_payload m s d tr)"
  by (simp_all add: success_flag_def success_payload_def error_payload_def is_api_response_payload_def)

text \<open>The status an exception is answered with.\<close>

definition exn_status :: "exn \<Rightarrow> int" where
  "exn_status e = (case kind_of e of Cancelled \<Rightarrow> 499 | Http s _ \<Rightarrow> s | Value \<Rightarrow> 400 | Permission \<Rightarrow> 403 | Integrity \<Rightarrow> 409 | Other \<Rightarrow> 500)"

lemma dispatch_exception:
  assumes "codec_ok jc" and "\<not> should_skip_request path"
  shows "\<exists>a m d. dispatch jc path tr (Inl e) = Inr a \<and> ha_status a = exn_status e
     \<and> payload_of jc a = Some (error_payload m (exn_status e) d tr)"
  using assms
  by (cases "kind_of e") (auto simp: dispatch_def exn_status_def handle_cancelled_def map_exception_to_response_def)

text \<open>
  Whatever a route does, outside the documentation pages the client gets an answer, and a JSON answer is an
  envelope: an exception becomes an error envelope with the status of its kind and the trace identifier of the
  request; a plain JSON result is wrapped, with \<open>success\<close> exactly for a status below 400; an envelope is passed
  on; and \<open>204\<close> becomes an empty success with status \<open>200\<close>.
\<close>

theorem every_answer_wrapped:
  assumes "codec_ok jc" and "\<not> should_skip_request path"
  shows "(\<exists>a m d. dispatch jc path tr (Inl e) = Inr a \<and> ha_status a = exn_status e
       \<and> payload_of jc a = Some (error_payload m (exn_status e) d tr))
    \<and> (ha_redirect r \<or> (\<exists>a. dispatch jc path tr (Inr r) = Inr a
       \<and> ha_status a = (if ha_status r = 204 then 200 else ha_status r)
       \<and> (ha_status r = 204 \<longrightarrow> payload_of jc a = Some (success_payload JNull))
       \<and> (\<forall>j. ha_status r \<noteq> 204 \<longrightarrow> payload_of jc r = Some j \<longrightarrow> ha_body r \<noteq> [] \<longrightarrow>
            (if is_api_response_payload j then payload_of jc a = Some j
             else \<exists>p. payload_of jc a = Some p \<and> is_api_response_payload p \<and> success_flag p = JBool (ha_status r < 400)))))"
proof (intro conjI)
  show "\<exists>a m d. dispatch jc path tr (Inl e) = Inr a \<and> ha_status a = exn_status e
       \<and> payload_of jc a = Some (error_payload m (exn_status e) d tr)"
    by (rule dispatch_exception [OF assms])
  show "ha_redirect r \<or> (\<exists>a. dispatch jc path tr (Inr r) = Inr a
       \<and> ha_status a = (if ha_status r = 204 then 200 else ha_status r)
       \<and> (ha_status r = 204 \<longrightarrow> payload_of jc a = Some (success_payload JNull))
       \<and> (\<forall>j. ha_status r \<noteq> 204 \<longrightarrow> payload_of jc r = Some j \<longrightarrow> ha_body r \<noteq> [] \<longrightarrow>
            (if is_api_response_payload j then payload_of jc a = Some j
             else \<exists>p. payload_of jc a = Some p \<and> is_api_response_payload p \<and> success_flag p = JBool (ha_status r < 400))))"
    using assms
    by (auto simp: dispatch_def normalize_success_response_def payload_of_def [of jc r] split: option.split if_splits)
qed

text \<open>A codec for the witnesses: a value is written as its number in unary.\<close>

instance json :: countable
  by countable_datatype

definition sample_codec :: json_codec where
  "sample_codec =
     \<lparr>jc_loads = (\<lambda>s. Some (from_nat (length s - 1))), jc_dumps = (\<lambda>_. ''json''),
      jc_render = (\<lambda>j. CHR ''#'' # replicate (to_nat j) CHR ''1'')\<rparr>"

lemma sample_codec_ok: "codec_ok sample_codec"
  by (simp add: codec_ok_def sample_codec_def)

lemma every_answer_wrapped_witness:
  "\<exists>a. dispatch sample_codec ''/api/status'' (Some ''t1'') (Inl (Exn Integrity ''duplicate key'' None None)) = Inr a
     \<and> ha_status a = 409"
  using every_answer_wrapped [OF sample_codec_ok, of "''/api/status''" "Some ''t1''" "Exn Integrity ''duplicate key'' None None"]
  by (auto simp: should_skip_request_def exn_status_def)

text \<open>
  Cookies survive the wrapping of a JSON success and of an envelope, so a sign-in keeps its session; the answer
  to a \<open>204\<close> carries none, whatever the route set.
\<close>

theorem cookies_of_wrapped_answer:
  assumes "\<not> should_skip_request path" and "\<not> ha_redirect r" and "dispatch jc path tr (Inr r) = Inr a"
  shows "(if ha_status r = 204 then ha_cookies a = []
      else \<forall>j. payload_of jc r = Some j \<longrightarrow> ha_body r \<noteq> [] \<longrightarrow> ha_status r < 400 \<or> is_api_response_payload j \<longrightarrow>
        ha_cookies a = ha_cookies r)"
  using assms
  by (auto simp: dispatch_def normalize_success_response_def payload_of_def json_response_def copy_set_cookie_headers_def
      split: option.splits if_splits)


lemma cookies_of_wrapped_answer_witness:
  "\<exists>a. dispatch sample_codec ''/api/auth/logout'' None
      (Inr \<lparr>ha_status = 204, ha_content_type = [], ha_cookies = [''sg_access_token=deleted''], ha_trace = None,
            ha_redirect = False, ha_body = []\<rparr>) = Inr a \<and> ha_cookies a = []"
proof -
  define r where "r = \<lparr>ha_status = 204, ha_content_type = [], ha_cookies = [''sg_access_token=deleted''], ha_trace = None,
    ha_redirect = False, ha_body = []\<rparr>"
  obtain a where a: "dispatch sample_codec ''/api/auth/logout'' None (Inr r) = Inr a"
    by (simp add: dispatch_def should_skip_request_def)
  have "\<not> should_skip_request ''/api/auth/logout''" "\<not> ha_redirect r" "ha_status r = 204"
    by (simp_all add: should_skip_request_def r_def)
  from cookies_of_wrapped_answer [OF this(1,2) a] this(3) a show ?thesis unfolding r_def by auto
qed

text \<open>Wrapping twice is wrapping once.\<close>

lemma normalize_again:
  assumes "codec_ok jc" and "normalize_success_response jc tr r = a" and "contains (ha_content_type r) ''application/json''"
    and "jc_loads jc (ha_body r) \<noteq> None"
  shows "payload_of jc (normalize_success_response jc tr a) = payload_of jc a \<and> ha_status (normalize_success_response jc tr a) = ha_status a"
proof -
  have wrapped: "payload_of jc (normalize_success_response jc tr (json_response jc p s)) = Some p
      \<and> ha_status (normalize_success_response jc tr (json_response jc p s)) = s"
    if "is_api_response_payload p" "s \<noteq> 204" for p s
    using that assms(1) by (simp add: normalize_success_response_def json_response_def codec_ok_def
        copy_set_cookie_headers_def payload_of_def)
  have copied: "payload_of jc (normalize_success_response jc tr (copy_set_cookie_headers r (json_response jc p s))) = Some p
      \<and> ha_status (normalize_success_response jc tr (copy_set_cookie_headers r (json_response jc p s))) = s"
    if "is_api_response_payload p" "s \<noteq> 204" for p s
    using that assms(1) by (simp add: normalize_success_response_def json_response_def codec_ok_def
        copy_set_cookie_headers_def payload_of_def)
  from assms(2) [symmetric] assms(1,3,4) show ?thesis
    by (auto simp: normalize_success_response_def [of jc tr r] error_json_def wrapped copied split: option.splits)
qed

end
