(* ===== verification/PyText.thy ===== *)
theory PyText
  imports PyJson
begin

text \<open>
  The text functions of Python's standard library the DataGate code uses: \<open>str.split\<close>, the substitutions of
  \<open>re\<close> it writes, and \<open>urllib.parse.urlparse\<close> (whose check that a bracketed host is an IP address is left out).
  A byte outside ASCII counts as part of a word, as the letters of other alphabets do.
\<close>

section \<open>Pieces of a text\<close>

function pieces :: "(char \<Rightarrow> bool) \<Rightarrow> string \<Rightarrow> string list" where
  \<comment> \<open>the maximal runs without a separator; \<open>s.split()\<close> for white space\<close>
  "pieces sep [] = []"
| "pieces sep (c # s) =
     (if sep c then pieces sep s
      else (c # takeWhile (\<lambda>d. \<not> sep d) s) # pieces sep (dropWhile (\<lambda>d. \<not> sep d) s))"
  by pat_completeness auto
termination by (relation "measure (length \<circ> snd)") (auto simp: length_dropWhile_le less_Suc_eq_le)

definition words_of :: "string \<Rightarrow> string list" where "words_of = pieces is_space"

definition text_lines :: "string \<Rightarrow> string list" where
  \<comment> \<open>\<open>s.splitlines()\<close> without its empty lines\<close>
  "text_lines = pieces (\<lambda>c. of_char c \<in> {10, 11, 12, 13, 28, 29, 30 :: nat})"

function squeeze :: "(char \<Rightarrow> bool) \<Rightarrow> string \<Rightarrow> string \<Rightarrow> string" where
  \<comment> \<open>\<open>re.sub("[...]+", rep, s)\<close> for the class of characters\<close>
  "squeeze p rep [] = []"
| "squeeze p rep (c # s) = (if p c then rep @ squeeze p rep (dropWhile p s) else c # squeeze p rep s)"
  by pat_completeness auto
termination by (relation "measure (length \<circ> snd \<circ> snd)") (auto simp: length_dropWhile_le less_Suc_eq_le)

section \<open>Characters\<close>

definition is_lower_alnum :: "char \<Rightarrow> bool" where
  "is_lower_alnum c \<longleftrightarrow> (let n = of_char c :: nat in 48 \<le> n \<and> n \<le> 57 \<or> 97 \<le> n \<and> n \<le> 122)"

definition is_alnum :: "char \<Rightarrow> bool" where
  "is_alnum c \<longleftrightarrow> is_lower_alnum c \<or> (let n = of_char c :: nat in 65 \<le> n \<and> n \<le> 90)"

definition is_word_char :: "char \<Rightarrow> bool" where
  "is_word_char c \<longleftrightarrow> is_alnum c \<or> c = CHR ''_'' \<or> 128 \<le> (of_char c :: nat)"

definition word_ends :: "string \<Rightarrow> bool" where
  "word_ends s = (case s of [] \<Rightarrow> True | c # _ \<Rightarrow> \<not> is_word_char c)"

function sub_word :: "string \<Rightarrow> bool \<Rightarrow> string \<Rightarrow> string" where
  \<comment> \<open>\<open>re.sub(rf"\b{token}\b", " ", s)\<close>; the flag tells whether the character before is part of a word\<close>
  "sub_word token w [] = []"
| "sub_word token w (c # s) =
     (if token \<noteq> [] \<and> \<not> w \<and> starts_with (c # s) token \<and> word_ends (drop (length token) (c # s))
      then CHR '' '' # sub_word token True (drop (length token - 1) s)
      else c # sub_word token (is_word_char c) s)"
  by pat_completeness auto
termination by (relation "measure (length \<circ> snd \<circ> snd)") auto

fun proto_from_name_at :: "bool \<Rightarrow> string \<Rightarrow> string option" where
  \<comment> \<open>the first match of \<open>\b(tcp|udp)\b\<close>, in lower case\<close>
  "proto_from_name_at w [] = None"
| "proto_from_name_at w (c # s) =
     (if \<not> w \<and> lower (take 3 (c # s)) \<in> {''tcp'', ''udp''} \<and> word_ends (drop 3 (c # s))
      then Some (lower (take 3 (c # s))) else proto_from_name_at (is_word_char c) s)"

section \<open>URLs\<close>

record parsed_url =
  pu_scheme :: string
  pu_netloc :: string
  pu_path :: string
  pu_hostname :: "string option"
  pu_port :: "int option res"
  pu_credentials :: bool \<comment> \<open>\<open>parsed.username or parsed.password\<close>\<close>

definition partition_at :: "char \<Rightarrow> string \<Rightarrow> string \<times> string" where
  \<comment> \<open>the parts before and after the first occurrence\<close>
  "partition_at c s = (takeWhile (\<lambda>d. d \<noteq> c) s, drop 1 (dropWhile (\<lambda>d. d \<noteq> c) s))"

definition split_scheme :: "string \<Rightarrow> string \<times> string" where
  "split_scheme url =
     (let (before, after) = partition_at (CHR '':'') url
      in if CHR '':'' \<in> set url \<and> before \<noteq> [] \<and> is_alnum (hd before) \<and> \<not> json_digit (hd before)
            \<and> list_all (\<lambda>c. is_alnum c \<or> c \<in> {CHR ''+'', CHR ''-'', CHR ''.''}) before
         then (lower before, after) else ([], url))"

definition after_last_at :: "string \<Rightarrow> string" where
  \<comment> \<open>\<open>netloc.rpartition("@")[2]\<close>\<close>
  "after_last_at s = rev (takeWhile (\<lambda>d. d \<noteq> CHR ''@'') (rev s))"

definition host_and_port :: "string \<Rightarrow> string option \<times> int option res" where
  "host_and_port netloc =
     (let hostinfo = after_last_at netloc;
          (host, port) =
            (if CHR ''['' \<in> set hostinfo
             then let bracketed = snd (partition_at (CHR ''['') hostinfo);
                      (h, rest) = partition_at (CHR '']'') bracketed
                  in (h, snd (partition_at (CHR '':'') rest))
             else partition_at (CHR '':'') hostinfo);
          name = (if host = [] then None
                  else let (h, zone) = (takeWhile (\<lambda>d. d \<noteq> CHR ''%'') host, dropWhile (\<lambda>d. d \<noteq> CHR ''%'') host)
                       in Some (lower h @ zone))
      in (name,
          if port = [] then Inr None
          else if \<not> list_all json_digit port then Inl (ValueError ''Port could not be cast to integer value'')
          else if 65535 < dec_value port then Inl (ValueError ''Port out of range 0-65535'')
          else Inr (Some (int (dec_value port)))))"

definition url_chars :: "string \<Rightarrow> string" where
  \<comment> \<open>leading control characters and blanks are stripped, tabs and line ends removed\<close>
  "url_chars s = filter (\<lambda>c. of_char c \<notin> {9, 10, 13 :: nat}) (dropWhile (\<lambda>c. of_char c \<le> (32 :: nat)) s)"

definition uses_params :: "string list" where
  "uses_params = [[], ''ftp'', ''hdl'', ''prospero'', ''http'', ''https'', ''shttp'', ''rtsp'', ''rtsps'', ''rtspu'', ''sip'', ''sips'',
     ''mms'', ''sftp'', ''tel'']"

definition url_path :: "string \<Rightarrow> string \<Rightarrow> string" where
  \<comment> \<open>without query and fragment, and without the parameters of the last segment\<close>
  "url_path scheme rest =
     (let path = takeWhile (\<lambda>c. c \<notin> {CHR ''?'', CHR ''#''}) rest;
          segment = rev (takeWhile (\<lambda>c. c \<noteq> CHR ''/'') (rev path))
      in if scheme \<in> set uses_params
         then take (length path - length segment) path @ takeWhile (\<lambda>c. c \<noteq> CHR '';'') segment else path)"

definition urlparse :: "string \<Rightarrow> parsed_url res" where
  "urlparse text =
     (let (scheme, rest) = split_scheme (url_chars text);
          stop = (\<lambda>c. c \<in> {CHR ''/'', CHR ''?'', CHR ''#''});
          (netloc, rest) = (if starts_with rest ''//''
                            then (takeWhile (\<lambda>c. \<not> stop c) (drop 2 rest), dropWhile (\<lambda>c. \<not> stop c) (drop 2 rest))
                            else ([], rest));
          (hostname, port) = host_and_port netloc;
          userinfo = take (length netloc - length (after_last_at netloc)) netloc
      in if (CHR ''['' \<in> set netloc) \<noteq> (CHR '']'' \<in> set netloc) then Inl (ValueError ''Invalid IPv6 URL'')
         else Inr \<lparr>pu_scheme = scheme, pu_netloc = netloc,
                   pu_path = url_path scheme rest,
                   pu_hostname = hostname, pu_port = port,
                   pu_credentials = (userinfo \<notin> {[], ''@'', '':@''})\<rparr>)"

end
