(* ===== verification/HttpCheck.thy ===== *)
theory HttpCheck
  imports Monitoring PyText
begin

text \<open>
  Checks over HTTP: \<open>src/app/services/health_check_service.py\<close>, with the clients of \<open>http_client.py\<close>, the probes of
  \<open>http_probe.py\<close> and the cached public address of \<open>host_egress_ip.py\<close>. What a request sent through \<open>httpx\<close> or \<open>curl\<close>
  comes back with is an argument, a function of the request; \<open>json.loads\<close> is an argument too.
\<close>

section \<open>Requests and what they come back with\<close>

record outgoing_request =
  rq_method :: string
  rq_url :: string
  rq_timeout :: int
  rq_proxy :: "string option"
  rq_local_address :: "string option"

datatype http_result =
    Responded int "string option" string \<comment> \<open>status code, content type, text\<close>
  | TimedOut string \<comment> \<open>\<open>httpx.TimeoutException\<close>, by its text\<close>
  | Failed bool string \<comment> \<open>any other \<open>httpx.HTTPError\<close>; the flag tells a \<open>RemoteProtocolError\<close>\<close>
  | Broken py_exn \<comment> \<open>an exception that is no \<open>HTTPError\<close>, such as \<open>httpx.InvalidURL\<close>\<close>

record http_exchange =
  hx_result :: http_result
  hx_seconds :: rat \<comment> \<open>the difference of the two \<open>perf_counter()\<close>\<close>

type_synonym transport = "outgoing_request \<Rightarrow> http_exchange"

definition elapsed_ms :: "rat \<Rightarrow> int" where "elapsed_ms seconds = trunc (fl (seconds * 1000))"

definition normalize_ip_family :: "string option \<Rightarrow> string" where
  "normalize_ip_family value =
     (if value \<in> {Some (IpFamily_value IPV4), Some (IpFamily_value IPV6), Some (IpFamily_value AUTO)}
      then the value else IpFamily_value AUTO)"

definition local_address :: "string \<Rightarrow> string option" where
  "local_address ip_family =
     (let family = normalize_ip_family (Some ip_family)
      in if family = IpFamily_value IPV4 then Some ''0.0.0.0'' else if family = IpFamily_value IPV6 then Some ''::'' else None)"

definition http_request_of :: "string \<Rightarrow> string \<Rightarrow> int \<Rightarrow> string option \<Rightarrow> string \<Rightarrow> outgoing_request" where
  \<comment> \<open>\<open>httpx_client(...)\<close> and the request sent with it\<close>
  "http_request_of request_method url timeout proxy ip_family =
     \<lparr>rq_method = request_method, rq_url = url, rq_timeout = timeout, rq_proxy = nonempty_str proxy,
      rq_local_address = local_address ip_family\<rparr>"

section \<open>Probes\<close>

definition opt_str :: "string option \<Rightarrow> json" where "opt_str v = (case v of None \<Rightarrow> JNull | Some s \<Rightarrow> JStr s)"

definition first_line :: "string \<Rightarrow> string option" where
  \<comment> \<open>\<open>body.splitlines()[0][:64] if body else None\<close> of a stripped body\<close>
  "first_line body = (if body = [] then None else Some (take 64 (hd (text_lines body))))"

definition probe_endpoint :: "transport \<Rightarrow> string \<Rightarrow> int \<Rightarrow> string option \<Rightarrow> string \<Rightarrow> dict res" where
  "probe_endpoint send url timeout proxy ip_family =
     (let x = send (http_request_of ''GET'' url timeout proxy ip_family);
          latency = JInt (elapsed_ms (hx_seconds x));
          refused = (\<lambda>e. Inr [(''ok'', JBool False), (''url'', JStr url), (''error'', JStr e), (''latency_ms'', latency),
                            (''ip_family'', JStr ip_family)])
      in case hx_result x of
           Responded status_code _ answer \<Rightarrow>
             let body = strip answer
             in Inr [(''ok'', JBool (200 \<le> status_code \<and> status_code < 400)), (''url'', JStr url), (''status_code'', JInt status_code),
                     (''latency_ms'', latency), (''exit_ip'', opt_str (first_line body)),
                     (''body_preview'', opt_str (if body = [] then None else Some (take 200 body))), (''ip_family'', JStr ip_family)]
         | TimedOut e \<Rightarrow> refused e
         | Failed _ e \<Rightarrow> refused e
         | Broken e \<Rightarrow> Inl e)"

text \<open>The probe inside a network namespace runs \<open>curl\<close>.\<close>

datatype process_result =
    Finished int string string \<comment> \<open>return code, \<open>stdout\<close>, \<open>stderr\<close>\<close>
  | Raised string \<comment> \<open>a \<open>SubprocessError\<close>, such as a timeout\<close>
  | NotFound string \<comment> \<open>\<open>FileNotFoundError\<close>: there is no such program\<close>
  | Unstarted py_exn \<comment> \<open>any other exception\<close>

record process_run =
  px_result :: process_result
  px_seconds :: rat

type_synonym shell = "string list \<Rightarrow> process_run"

definition curl_probe_command :: "string \<Rightarrow> string \<Rightarrow> int \<Rightarrow> string \<Rightarrow> string list" where
  "curl_probe_command netns url timeout ip_family =
     [''ip'', ''netns'', ''exec'', netns, ''curl'', ''-sS'', ''-L'']
     @ (if ip_family = IpFamily_value IPV4 then [''-4''] else if ip_family = IpFamily_value IPV6 then [''-6''] else [])
     @ [''--max-time'', int_str (max 1 timeout), ''-w'', CHR 0x0A # ''__HTTP_CODE__:%{http_code}'', url]"

definition HTTP_CODE_MARK :: string where "HTTP_CODE_MARK = CHR 0x0A # ''__HTTP_CODE__:''"

fun last_match :: "string \<Rightarrow> string \<Rightarrow> nat option" where
  \<comment> \<open>the position of the last occurrence\<close>
  "last_match mark [] = (if mark = [] then Some 0 else None)"
| "last_match mark (c # s) =
     (case last_match mark s of Some i \<Rightarrow> Some (Suc i) | None \<Rightarrow> if starts_with (c # s) mark then Some 0 else None)"

definition rpartition :: "string \<Rightarrow> string \<Rightarrow> string \<times> string" where
  \<comment> \<open>the parts before and after the last occurrence; without one, the whole text comes after\<close>
  "rpartition mark s = (case last_match mark s of None \<Rightarrow> ([], s) | Some i \<Rightarrow> (take i s, drop (i + length mark) s))"

definition quoted :: "string \<Rightarrow> string" where "quoted s = [CHR 0x27] @ s @ [CHR 0x27]"

definition curl_status :: "string \<Rightarrow> string + int option" where
  \<comment> \<open>\<open>int(status_part.split(":", 1)[-1]) if status_part else None\<close>\<close>
  "curl_status status_part =
     (if status_part = [] then Inr None
      else let s = (if CHR '':'' \<in> set status_part then snd (partition_at (CHR '':'') status_part) else status_part)
           in case int_of_str s of
                Some n \<Rightarrow> Inr (Some n)
              | None \<Rightarrow> Inl (''invalid literal for int() with base 10: '' @ quoted s))"

definition probe_endpoint_via_curl :: "shell \<Rightarrow> string \<Rightarrow> int \<Rightarrow> string \<Rightarrow> string \<Rightarrow> dict res" where
  "probe_endpoint_via_curl run url timeout netns ip_family =
     (let x = run (curl_probe_command netns url timeout ip_family);
          latency = JInt (elapsed_ms (px_seconds x));
          refused = (\<lambda>e. [(''ok'', JBool False), (''url'', JStr url), (''error'', JStr e), (''latency_ms'', latency)])
      in case px_result x of
           Finished code out err \<Rightarrow>
             if code \<noteq> 0 then Inr (refused (strip (if err \<noteq> [] then err else if out \<noteq> [] then out else ''curl probe failed'')))
             else let (body, status_part) = rpartition HTTP_CODE_MARK out; body = strip body
                  in (case curl_status status_part of
                        Inl e \<Rightarrow> Inr (refused e)
                      | Inr status_code \<Rightarrow>
                          Inr [(''ok'', JBool (case status_code of None \<Rightarrow> False | Some n \<Rightarrow> 200 \<le> n \<and> n < 400)), (''url'', JStr url),
                               (''status_code'', opt_json JInt status_code), (''latency_ms'', latency),
                               (''exit_ip'', opt_str (first_line body)),
                               (''body_preview'', opt_str (if body = [] then None else Some (take 200 body)))])
         | Raised e \<Rightarrow> Inr (refused e)
         | NotFound e \<Rightarrow> Inl (OtherError e)
         | Unstarted e \<Rightarrow> Inl e)"

section \<open>The public address of the checker\<close>

text \<open>The cache keeps, per address family, the address and the monotonic time it was found at.\<close>

type_synonym egress_cache = "(string \<times> (string \<times> rat)) list"

definition get_checker_egress_ip ::
  "settings \<Rightarrow> transport \<Rightarrow> string \<Rightarrow> bool \<Rightarrow> rat \<Rightarrow> rat \<Rightarrow> egress_cache \<Rightarrow> string option res \<times> egress_cache" where
  \<comment> \<open>\<open>now\<close> and \<open>later\<close> are the clock before and after the probe\<close>
  "get_checker_egress_ip cfg send ip_family force_refresh now later cache =
     (let family = normalize_ip_family (Some ip_family);
          fresh = (case map_of cache family of Some (ip, stored_at) \<Rightarrow> if fl (now - stored_at) < 300 then Some ip else None | None \<Rightarrow> None)
      in if \<not> force_refresh \<and> fresh \<noteq> None then (Inr fresh, cache)
         else case probe_endpoint send (default_probe_url cfg) 5 None family of
                Inl e \<Rightarrow> (Inl e, cache)
              | Inr probe \<Rightarrow>
                  (case as_str (jget probe ''exit_ip'') of
                     Some ip \<Rightarrow> if truthy (jget probe ''ok'') \<and> strip ip \<noteq> []
                                then (Inr (Some (strip ip)), AList.update family (strip ip, later) cache) else (Inr None, cache)
                   | None \<Rightarrow> (Inr None, cache)))"

section \<open>The body of an answer\<close>

definition xml_prefix :: "string \<Rightarrow> bool" where
  \<comment> \<open>\<open>^\s*(<\?xml|<[!?])\<close>, ignoring case\<close>
  "xml_prefix body =
     (let s = lstrip body in starts_with (lower s) ''<?xml'' \<or> starts_with s ''<!'' \<or> starts_with s ''<?'')"

definition tag_here :: "string \<Rightarrow> bool" where
  \<comment> \<open>\<open><\s*\w+[\s>]\<close> at the front\<close>
  "tag_here s =
     (case s of
        [] \<Rightarrow> False
      | c # r \<Rightarrow>
          let w = lstrip r; after = dropWhile is_word_char w
          in c = CHR ''<'' \<and> w \<noteq> [] \<and> is_word_char (hd w) \<and> after \<noteq> [] \<and> (is_space (hd after) \<or> hd after = CHR ''>''))"

fun has_tag :: "string \<Rightarrow> bool" where
  "has_tag [] = False"
| "has_tag (c # s) = (tag_here (c # s) \<or> has_tag s)"

definition is_xml_body :: "string \<Rightarrow> string \<Rightarrow> bool" where
  "is_xml_body body content_type =
     (if contains (lower content_type) ''xml'' \<or> contains (lower content_type) ''application/soap'' then True
      else if strip body = [] then False
      else xml_prefix body \<or> has_tag (take 500 body))"

definition status_mismatch :: "MonitoredComponent \<Rightarrow> int \<Rightarrow> string" where
  "status_mismatch c status_code =
     ''Expected HTTP '' @ int_str (mc_expected_status_code c) @ '', got '' @ int_str status_code"

definition body_details :: "MonitoredComponent \<Rightarrow> string \<Rightarrow> string \<Rightarrow> dict" where
  "body_details c content_type body =
     [(''check_type'', JStr (mc_check_type c)), (''content_type'', opt_str (nonempty_str (Some content_type))),
      (''body_preview'', opt_str (nonempty_str (Some (take 500 body))))]"

definition evaluate_body ::
  "(string \<Rightarrow> string + json) \<Rightarrow> MonitoredComponent \<Rightarrow> int \<Rightarrow> string \<Rightarrow> string \<Rightarrow> string \<times> string option \<times> dict" where
  \<comment> \<open>\<open>json_loads\<close> answers with \<open>exc.msg\<close> for a \<open>JSONDecodeError\<close>\<close>
  "evaluate_body json_loads c status_code content_type body =
     (let details = body_details c content_type body;
          up = CheckOutcome_value UP; down = CheckOutcome_value DOWN
      in if status_code \<noteq> mc_expected_status_code c then (down, Some (status_mismatch c status_code), details)
         else if mc_check_type c = CheckType_value HTTP_STATUS then (up, None, details)
         else if mc_check_type c = CheckType_value JSON then
           (case (if strip body = [] then Inr JNull else json_loads body) of
              Inl msg \<Rightarrow> (down, Some (''Response is not valid JSON: '' @ msg), details)
            | Inr parsed \<Rightarrow>
                let details = jset ''json_keys'' (case as_dict parsed of
                                                   Some d \<Rightarrow> JArr (map (JStr \<circ> fst) (take 20 d)) | None \<Rightarrow> JNull) details
                in if is_xml_body body content_type then (down, Some ''Expected JSON body but response looks like XML'', details)
                   else (up, None, details))
         else if mc_check_type c = CheckType_value XML then
           (if is_xml_body body content_type then (up, None, jset ''xml_detected'' (JBool True) details)
            else (down, Some ''Response is not valid XML'', details))
         else (CheckOutcome_value ERROR, Some (''Unknown check type: '' @ mc_check_type c), details))"

section \<open>A check over HTTP\<close>

definition NO_HTTP_RESPONSE_HINTS :: "string list" where
  "NO_HTTP_RESPONSE_HINTS =
     [''disconnected without sending a response'', ''server disconnected'', ''connection reset'', ''connection closed'',
      ''remote end closed connection'', ''incomplete message'', ''peer closed connection'']"

definition is_no_http_response :: "bool \<Rightarrow> string \<Rightarrow> bool" where
  "is_no_http_response remote_protocol_error text =
     (remote_protocol_error \<or> list_ex (contains (lower text)) NO_HTTP_RESPONSE_HINTS)"

definition no_http_response_details :: "string \<Rightarrow> string \<Rightarrow> string \<Rightarrow> string option \<Rightarrow> dict" where
  "no_http_response_details check_type text ip_family egress_ip =
     [(''check_type'', JStr check_type), (''failure_mode'', JStr ''no_http_response''), (''transport_error'', JStr text),
      (''ip_family'', JStr ip_family)]
     @ (case egress_ip of
          None \<Rightarrow> []
        | Some ip \<Rightarrow> [(''egress_ip'', JStr ip), (''network'', JObj [(''probe'', JObj [(''exit_ip'', JStr ip)])])])"

definition no_http_response_message :: "string \<Rightarrow> string option \<Rightarrow> string \<Rightarrow> string" where
  "no_http_response_message text egress_ip ip_family =
     ''No HTTP response '' @ em_dash @ '' peer closed the connection without a status code (often an edge IP allowlist / nginx deny, not the origin app being down). IP family: ''
     @ ip_family @ ''. Transport: '' @ text
     @ (case egress_ip of None \<Rightarrow> [] | Some ip \<Rightarrow> '' Checker egress IP: '' @ ip @ ''.'')"

definition result_of ::
  "uuid \<Rightarrow> MonitoredComponent \<Rightarrow> instant \<Rightarrow> CheckOutcome \<Rightarrow> int \<Rightarrow> int option \<Rightarrow> string option \<Rightarrow> dict \<Rightarrow> CheckResult" where
  "result_of rid c checked_at outcome latency status_code message details =
     \<lparr>cr_id = rid, cr_monitored_component_id = mc_id c, cr_checked_at = Aware checked_at, cr_outcome = CheckOutcome_value outcome,
      cr_latency_ms = Some latency, cr_http_status_code = status_code, cr_error_message = message, cr_details = JObj details\<rparr>"

definition run_http_health_check ::
  "settings \<Rightarrow> transport \<Rightarrow> (string \<Rightarrow> string + json) \<Rightarrow> uuid \<Rightarrow> instant \<Rightarrow> rat \<Rightarrow> rat \<Rightarrow> MonitoredComponent \<Rightarrow> egress_cache
     \<Rightarrow> CheckResult res \<times> egress_cache" where
  "run_http_health_check cfg send json_loads rid checked_at now later c cache =
     (let ip_family = normalize_ip_family (Some (mc_ip_family c));
          x = send (http_request_of (upper (mc_check_method c)) (mc_check_url c) (mc_timeout_seconds c) None ip_family);
          latency = elapsed_ms (hx_seconds x);
          base = [(''check_type'', JStr (mc_check_type c)), (''ip_family'', JStr ip_family)]
      in case hx_result x of
           Responded status_code content_type body \<Rightarrow>
             (case evaluate_body json_loads c status_code (default_to [] content_type) body of
                (outcome, message, details) \<Rightarrow>
                  (Inr ((result_of rid c checked_at UP latency (Some status_code) message (jset ''ip_family'' (JStr ip_family) details))
                          \<lparr>cr_outcome := outcome\<rparr>), cache))
         | TimedOut _ \<Rightarrow>
             (Inr (result_of rid c checked_at TIMEOUT latency None
                     (Some (''Request timed out after '' @ int_str (mc_timeout_seconds c) @ ''s'')) base), cache)
         | Failed remote_protocol_error text \<Rightarrow>
             if is_no_http_response remote_protocol_error text then
               (case get_checker_egress_ip cfg send ip_family False now later cache of
                  (Inl e, cache) \<Rightarrow> (Inl e, cache)
                | (Inr ip, cache) \<Rightarrow>
                    (Inr (result_of rid c checked_at ERROR latency None (Some (no_http_response_message text ip ip_family))
                            (no_http_response_details (mc_check_type c) text ip_family ip)), cache))
             else (Inr (result_of rid c checked_at ERROR latency None (Some text) base), cache)
         | Broken e \<Rightarrow> (Inl e, cache))"

section \<open>The verdict of a check\<close>

definition body_accepted :: "(string \<Rightarrow> string + json) \<Rightarrow> string \<Rightarrow> string \<Rightarrow> string \<Rightarrow> bool" where
  \<comment> \<open>what each type of check asks of an answer with the expected status\<close>
  "body_accepted json_loads check_type content_type body \<longleftrightarrow>
     (check_type = CheckType_value HTTP_STATUS)
     \<or> (check_type = CheckType_value JSON \<and> (strip body \<noteq> [] \<longrightarrow> \<not> isl (json_loads body)) \<and> \<not> is_xml_body body content_type)
     \<or> (check_type = CheckType_value XML \<and> is_xml_body body content_type)"

definition health_request :: "MonitoredComponent \<Rightarrow> outgoing_request" where
  "health_request c =
     http_request_of (upper (mc_check_method c)) (mc_check_url c) (mc_timeout_seconds c) None
       (normalize_ip_family (Some (mc_ip_family c)))"

definition verdict :: "(string \<Rightarrow> string + json) \<Rightarrow> MonitoredComponent \<Rightarrow> http_result \<Rightarrow> CheckOutcome" where
  "verdict json_loads c answer =
     (case answer of
        Responded code content_type body \<Rightarrow>
          if code = mc_expected_status_code c \<and> body_accepted json_loads (mc_check_type c) (default_to [] content_type) body
          then UP else DOWN
      | TimedOut _ \<Rightarrow> TIMEOUT
      | _ \<Rightarrow> ERROR)"

definition answered_status :: "http_result \<Rightarrow> int option" where
  "answered_status answer = (case answer of Responded code _ _ \<Rightarrow> Some code | _ \<Rightarrow> None)"

lemma evaluate_body_outcome:
  assumes "mc_check_type c \<in> set HTTP_CHECK_TYPES"
  shows "fst (evaluate_body json_loads c code ct body)
           = CheckOutcome_value (if code = mc_expected_status_code c \<and> body_accepted json_loads (mc_check_type c) ct body
                                 then UP else DOWN)"
    and "fst (snd (evaluate_body json_loads c code ct body)) = None
           \<longleftrightarrow> code = mc_expected_status_code c \<and> body_accepted json_loads (mc_check_type c) ct body"
  using assms
  by (auto simp: evaluate_body_def body_accepted_def HTTP_CHECK_TYPES_def Let_def split: sum.splits)

lemma CheckOutcome_value_inject [simp]: "CheckOutcome_value a = CheckOutcome_value b \<longleftrightarrow> a = b"
  by (cases a; cases b) simp_all

lemma run_http_cases:
  "run_http_health_check cfg send json_loads rid checked_at now later c cache =
     (let x = send (health_request c); latency = elapsed_ms (hx_seconds x); ip_family = normalize_ip_family (Some (mc_ip_family c));
          base = [(''check_type'', JStr (mc_check_type c)), (''ip_family'', JStr ip_family)]
      in case hx_result x of
           Responded code content_type body \<Rightarrow>
             (let v = evaluate_body json_loads c code (default_to [] content_type) body
              in (Inr ((result_of rid c checked_at UP latency (Some code) (fst (snd v)) (jset ''ip_family'' (JStr ip_family) (snd (snd v))))
                          \<lparr>cr_outcome := fst v\<rparr>), cache))
         | TimedOut _ \<Rightarrow>
             (Inr (result_of rid c checked_at TIMEOUT latency None
                     (Some (''Request timed out after '' @ int_str (mc_timeout_seconds c) @ ''s'')) base), cache)
         | Failed remote_protocol_error text \<Rightarrow>
             if is_no_http_response remote_protocol_error text then
               (let q = get_checker_egress_ip cfg send ip_family False now later cache
                in (map_sum id (\<lambda>ip. result_of rid c checked_at ERROR latency None (Some (no_http_response_message text ip ip_family))
                            (no_http_response_details (mc_check_type c) text ip_family ip)) (fst q), snd q))
             else (Inr (result_of rid c checked_at ERROR latency None (Some text) base), cache)
         | Broken e \<Rightarrow> (Inl e, cache))"
  unfolding run_http_health_check_def health_request_def Let_def
  by (auto split: http_result.split prod.split sum.split)

text \<open>
  The verdict of a check over HTTP: up exactly when the answer has the expected status and, for a JSON check, its
  body parses and does not look like XML, for an XML check its body looks like XML; otherwise down; a timeout is reported
  as one and any other transport error as an error. A message is stored exactly when the component is not up, and the
  status code is that of the answer.
\<close>
theorem http_check_verdict:
  assumes "fst (run_http_health_check cfg send json_loads rid checked_at now later c cache) = Inr r"
    and "mc_check_type c \<in> set HTTP_CHECK_TYPES"
  shows "cr_outcome r = CheckOutcome_value (verdict json_loads c (hx_result (send (health_request c))))
    \<and> (cr_error_message r = None \<longleftrightarrow> cr_outcome r = CheckOutcome_value UP)
    \<and> cr_http_status_code r = answered_status (hx_result (send (health_request c)))
    \<and> cr_monitored_component_id r = mc_id c \<and> cr_checked_at r = Aware checked_at"
proof (cases "hx_result (send (health_request c))")
  case (Responded code ct body)
  then show ?thesis
    using assms by (auto simp: run_http_cases Let_def result_of_def verdict_def answered_status_def evaluate_body_outcome)
qed (use assms in \<open>auto simp: run_http_cases Let_def result_of_def verdict_def answered_status_def map_sum_is_Inr split: if_splits\<close>)


definition sample_http_component :: MonitoredComponent where
  "sample_http_component = sample_component
     \<lparr>mc_check_type := ''json'', mc_check_method := ''get'', mc_check_url := ''https://a.test/health'', mc_expected_status_code := 200,
      mc_timeout_seconds := 10, mc_ip_family := ''auto''\<rparr>"

definition sample_send :: transport where
  "sample_send rq = \<lparr>hx_result = Responded 200 (Some ''application/json'') ''{}'', hx_seconds = 1 / 4\<rparr>"

lemma http_check_verdict_witness:
  "\<exists>r. fst (run_http_health_check sample_cfg sample_send (\<lambda>_. Inr (JObj [])) ''r1'' 0 0 0 sample_http_component []) = Inr r
     \<and> cr_outcome r = CheckOutcome_value UP"
proof -
  obtain r where r: "fst (run_http_health_check sample_cfg sample_send (\<lambda>_. Inr (JObj [])) ''r1'' 0 0 0 sample_http_component []) = Inr r"
    by (simp add: run_http_cases sample_send_def Let_def)
  have "cr_outcome r = CheckOutcome_value (verdict (\<lambda>_. Inr (JObj [])) sample_http_component
          (hx_result (sample_send (health_request sample_http_component))))"
    using http_check_verdict [OF r] by (simp add: sample_http_component_def HTTP_CHECK_TYPES_def)
  also have "\<dots> = CheckOutcome_value UP"
    by code_simp
  finally show ?thesis using r by blast
qed

section \<open>The cached address\<close>

lemma egress_cache_cases:
  "get_checker_egress_ip cfg send ip_family force_refresh now later cache
     = (q, cache') \<Longrightarrow> cache' = cache
       \<or> (\<exists>ip. strip ip \<noteq> [] \<and> q = Inr (Some (strip ip))
             \<and> cache' = AList.update (normalize_ip_family (Some ip_family)) (strip ip, later) cache)"
  unfolding get_checker_egress_ip_def Let_def
  by (auto split: if_splits option.splits sum.splits)

lemma egress_other_families:
  assumes "g \<noteq> normalize_ip_family (Some ip_family)"
  shows "map_of (snd (get_checker_egress_ip cfg send ip_family force_refresh now later cache)) g = map_of cache g"
  using egress_cache_cases [of cfg send ip_family force_refresh now later cache] assms
  by (cases "get_checker_egress_ip cfg send ip_family force_refresh now later cache") (auto simp: update_conv)


lemma egress_probe_is_reused:
  assumes "get_checker_egress_ip cfg send ip_family True now later cache = (Inr (Some ip), cache')"
    and "fl (now' - later) < 300"
  shows "get_checker_egress_ip cfg send' ip_family False now' later' cache' = (Inr (Some ip), cache')"
  using assms by (auto simp: get_checker_egress_ip_def Let_def update_conv split: if_splits option.splits sum.splits)

lemma http_check_raises_only_when_broken:
  assumes "\<And>rq e. hx_result (send rq) \<noteq> Broken e"
  shows "\<not> isl (fst (run_http_health_check cfg send json_loads rid checked_at now later c cache))"
proof -
  have probe: "\<not> isl (probe_endpoint send url t p f)" for url t p f
    using assms by (auto simp: probe_endpoint_def Let_def split: http_result.splits)
  have "\<not> isl (fst (get_checker_egress_ip cfg send f False now later cache))" for f
    using probe [of "default_probe_url cfg" 5 None "normalize_ip_family (Some f)"]
    by (auto simp: get_checker_egress_ip_def Let_def split: sum.splits option.splits)
  then show ?thesis
    using assms by (auto simp: run_http_cases Let_def isl_map_sum split: http_result.splits)
qed

section \<open>Bodies the checks misread\<close>

definition markup_body :: string where
  \<comment> \<open>the JSON text \<open>{"note": "<b>hi</b>"}\<close>\<close>
  "markup_body = ''{\"note\": \"<b>hi</b>\"}''"

lemma json_with_markup_is_down:
  "evaluate_body (\<lambda>_. Inr (JObj [(''note'', JStr ''<b>hi</b>'')])) sample_http_component 200 ''application/json'' markup_body
     = (CheckOutcome_value DOWN, Some ''Expected JSON body but response looks like XML'',
        [(''check_type'', JStr ''json''), (''content_type'', JStr ''application/json''), (''body_preview'', JStr markup_body),
         (''json_keys'', JArr [JStr ''note''])])"
  by code_simp

lemma empty_body_passes_json_check:
  "fst (evaluate_body json_loads (c\<lparr>mc_check_type := ''json'', mc_expected_status_code := code\<rparr>) code ''text/plain'' [])
     = CheckOutcome_value UP"
proof -
  have "\<not> is_xml_body [] ''text/plain'' \<and> strip [] = []"
    by code_simp
  then show ?thesis
    by (simp add: evaluate_body_outcome HTTP_CHECK_TYPES_def body_accepted_def)
qed

lemma html_passes_xml_check:
  "fst (evaluate_body json_loads (c\<lparr>mc_check_type := ''xml'', mc_expected_status_code := code\<rparr>) code ''text/html'' ''<html><br>'')
     = CheckOutcome_value UP"
proof -
  have "is_xml_body ''<html><br>'' ''text/html''"
    by code_simp
  then show ?thesis
    by (simp add: evaluate_body_outcome HTTP_CHECK_TYPES_def body_accepted_def)
qed

end
