(* ===== verification/SpeedMeasure.thy ===== *)
theory SpeedMeasure
  imports HttpCheck NetworkSummary
begin

text \<open>
  \<open>src/app/services/speed_measure.py\<close>: how fast the host, a proxy or a VPN namespace moves data. A transfer through
  \<open>httpx\<close> is an argument, a function of the request that tells how it ended, the bytes read and the time it took; a
  command run by \<open>subprocess.run\<close> is the \<open>shell\<close> of \<open>HttpCheck\<close>. Timeouts are \<open>float\<close> seconds.
\<close>

section \<open>Transfers\<close>

datatype transfer_end =
    Completed
  | Refused speed_error \<comment> \<open>an \<open>httpx.HTTPError\<close>\<close>
  | Escaped py_exn \<comment> \<open>any other exception\<close>

record transfer =
  tr_end :: transfer_end
  tr_bytes :: int \<comment> \<open>bytes read before the end\<close>
  tr_seconds :: rat

type_synonym downloader = "string \<Rightarrow> string option \<Rightarrow> rat \<Rightarrow> transfer" \<comment> \<open>URL, proxy, timeout\<close>
type_synonym uploader = "string \<Rightarrow> int \<Rightarrow> string option \<Rightarrow> rat \<Rightarrow> transfer"

definition mbps_of :: "int \<Rightarrow> int \<Rightarrow> rat" where
  \<comment> \<open>\<open>round(megabits / seconds, 2)\<close>\<close>
  "mbps_of bytes_read duration_ms =
     (let megabits = fl (of_int (bytes_read * 8) / 1000000); seconds = fl (of_int duration_ms / 1000)
      in py_round2 (fl (megabits / seconds)))"

definition moved_row :: "string \<Rightarrow> int \<Rightarrow> int \<Rightarrow> string \<Rightarrow> dict" where
  "moved_row url bytes_read duration_ms empty_error =
     (if bytes_read \<le> 0
      then [(''ok'', JBool False), (''url'', JStr url), (''bytes'', JInt 0), (''duration_ms'', JInt duration_ms),
            (''mbps'', JFloat 0), (''error'', JStr empty_error)]
      else [(''ok'', JBool True), (''url'', JStr url), (''bytes'', JInt bytes_read), (''duration_ms'', JInt duration_ms),
            (''mbps'', JFloat (mbps_of bytes_read duration_ms))])"

definition failed_row :: "string \<Rightarrow> int \<Rightarrow> int \<Rightarrow> speed_error \<Rightarrow> dict" where
  "failed_row url bytes_read duration_ms error =
     [(''ok'', JBool False), (''url'', JStr url), (''bytes'', JInt bytes_read), (''duration_ms'', JInt duration_ms),
      (''error'', JStr (format_speed_test_error error))]"

section \<open>Inside a network namespace\<close>

definition max_time :: "rat \<Rightarrow> string" where "max_time timeout = int_str (max 1 (trunc timeout))"

definition float_or_zero :: "string \<Rightarrow> rat option" where
  \<comment> \<open>\<open>float(out.strip() or 0)\<close>\<close>
  "float_or_zero out = (if strip out = [] then Some 0 else float_of_str (strip out))"

definition not_a_float :: "string \<Rightarrow> speed_error" where
  "not_a_float out = Message (''could not convert string to float: '' @ quoted (strip out))"

definition curl_row :: "process_run \<Rightarrow> string \<Rightarrow> string \<Rightarrow> (int \<Rightarrow> int \<Rightarrow> dict) \<Rightarrow> dict res" where
  "curl_row x url no_text moved =
     (let elapsed = elapsed_ms (px_seconds x); duration_ms = max elapsed 1
      in case px_result x of
           Finished code out err \<Rightarrow>
             if code \<noteq> 0 then Inr (failed_row url 0 duration_ms (Message (strip (if err \<noteq> [] then err else if out \<noteq> [] then out else no_text))))
             else (case float_or_zero out of
                     None \<Rightarrow> Inr (failed_row url 0 elapsed (not_a_float out))
                   | Some n \<Rightarrow> Inr (moved (trunc n) duration_ms))
         | Raised e \<Rightarrow> Inr (failed_row url 0 elapsed (Message e))
         | NotFound e \<Rightarrow> Inl (OtherError e)
         | Unstarted e \<Rightarrow> Inl e)"

definition curl_download_command :: "string \<Rightarrow> string \<Rightarrow> rat \<Rightarrow> string list" where
  "curl_download_command netns url timeout =
     [''ip'', ''netns'', ''exec'', netns, ''curl'', ''-sS'', ''-L'', ''--max-time'', max_time timeout,
      ''-o'', ''/dev/null'', ''-w'', ''%{size_download}'', url]"

definition measure_download_speed_curl :: "shell \<Rightarrow> string \<Rightarrow> rat \<Rightarrow> string \<Rightarrow> dict res" where
  "measure_download_speed_curl run url timeout netns =
     curl_row (run (curl_download_command netns url timeout)) url ''curl speed test failed''
       (\<lambda>n duration_ms. moved_row url n duration_ms ''Speed test downloaded no data'')"

fun cmdline_chars :: "nat \<Rightarrow> string \<Rightarrow> string \<times> nat" where
  \<comment> \<open>the loop of \<open>subprocess.list2cmdline\<close> over the characters of an argument; the counter holds pending backslashes\<close>
  "cmdline_chars b [] = (replicate b (CHR 0x5C), b)"
| "cmdline_chars b (c # s) =
     (if c = CHR 0x5C then cmdline_chars (Suc b) s
      else if c = CHR 0x22 then (case cmdline_chars 0 s of (out, n) \<Rightarrow> (replicate (2 * b) (CHR 0x5C) @ [CHR 0x5C, CHR 0x22] @ out, n))
      else (case cmdline_chars 0 s of (out, n) \<Rightarrow> (replicate b (CHR 0x5C) @ c # out, n)))"

definition list2cmdline1 :: "string \<Rightarrow> string" where
  \<comment> \<open>\<open>subprocess.list2cmdline([arg])\<close>\<close>
  "list2cmdline1 arg =
     (let (out, pending) = cmdline_chars 0 arg
      in if CHR '' '' \<in> set arg \<or> CHR 0x09 \<in> set arg \<or> arg = []
         then [CHR 0x22] @ out @ replicate pending (CHR 0x5C) @ [CHR 0x22] else out)"

definition upload_script :: "string \<Rightarrow> string \<Rightarrow> int \<Rightarrow> rat \<Rightarrow> string" where
  "upload_script netns url payload_size timeout =
     ''head -c '' @ int_str payload_size @ '' /dev/zero | ip netns exec '' @ netns @ '' curl -sS -L --max-time '' @ max_time timeout
     @ '' -X POST --data-binary @- -o /dev/null -w '' @ quoted ''%{size_upload}'' @ '' '' @ list2cmdline1 url"

definition measure_upload_speed_curl :: "shell \<Rightarrow> string \<Rightarrow> int \<Rightarrow> rat \<Rightarrow> string \<Rightarrow> dict res" where
  "measure_upload_speed_curl run url bytes_count timeout netns =
     (let payload_size = max 0 bytes_count
      in curl_row (run [''bash'', ''-lc'', upload_script netns url payload_size timeout]) url ''curl upload speed test failed''
           (\<lambda>n duration_ms. moved_row url (if 0 < n then n else payload_size) duration_ms ''Speed test uploaded no data''))"

section \<open>Over the host or a proxy\<close>

definition transfer_row :: "transfer \<Rightarrow> string \<Rightarrow> int \<Rightarrow> int \<Rightarrow> string \<Rightarrow> dict res" where
  "transfer_row x url moved moved_so_far empty_error =
     (let elapsed = elapsed_ms (tr_seconds x)
      in case tr_end x of
           Completed \<Rightarrow> Inr (moved_row url moved (max elapsed 1) empty_error)
         | Refused e \<Rightarrow> Inr (failed_row url moved_so_far elapsed e)
         | Escaped e \<Rightarrow> Inl e)"

definition measure_download_speed :: "downloader \<Rightarrow> shell \<Rightarrow> string \<Rightarrow> string option \<Rightarrow> rat \<Rightarrow> string option \<Rightarrow> dict res" where
  "measure_download_speed get run url proxy_url timeout netns =
     (case nonempty_str netns of
        Some ns \<Rightarrow> measure_download_speed_curl run url timeout ns
      | None \<Rightarrow>
          let x = get url (nonempty_str proxy_url) timeout
          in transfer_row x url (tr_bytes x) (tr_bytes x) ''Speed test downloaded no data'')"

definition measure_upload_speed ::
  "uploader \<Rightarrow> shell \<Rightarrow> string \<Rightarrow> int \<Rightarrow> string option \<Rightarrow> rat \<Rightarrow> string option \<Rightarrow> dict res" where
  "measure_upload_speed post run url bytes_count proxy_url timeout netns =
     (case nonempty_str netns of
        Some ns \<Rightarrow> measure_upload_speed_curl run url bytes_count timeout ns
      | None \<Rightarrow>
          let payload_size = max 0 bytes_count
          in transfer_row (post url payload_size (nonempty_str proxy_url) timeout) url payload_size 0 ''Speed test uploaded no data'')"

section \<open>What a measurement reports\<close>

lemma http_error_text_starts: "starts_with (http_error_text code) ''Speed test ''"
  by (simp add: http_error_text_def)

lemma format_speed_test_error_starts: "starts_with (format_speed_test_error e) ''Speed test ''"
  by (simp add: format_speed_test_error_def Let_def http_error_text_starts split: speed_error.split option.split)

text \<open>What a measurement found: how many bytes were moved, when the transfer or the command came to its end, and in what time.\<close>

definition curl_count :: "process_run \<Rightarrow> int option" where
  \<comment> \<open>the number of bytes \<open>curl\<close> printed\<close>
  "curl_count x = (case px_result x of Finished code out err \<Rightarrow> if code = 0 then map_option trunc (float_or_zero out) else None | _ \<Rightarrow> None)"

definition transfer_count :: "transfer \<Rightarrow> int \<Rightarrow> int option" where
  "transfer_count x moved = (case tr_end x of Completed \<Rightarrow> Some moved | _ \<Rightarrow> None)"

definition honest_row :: "string \<Rightarrow> int option \<Rightarrow> rat \<Rightarrow> dict \<Rightarrow> bool" where
  \<comment> \<open>a success exactly when data was moved, with these bytes, the time and the rate; else a failure with a normalised message\<close>
  "honest_row url moved seconds d \<longleftrightarrow> jget d ''url'' = JStr url \<and>
     (case moved of
        Some n \<Rightarrow>
          if 0 < n
          then jget d ''ok'' = JBool True \<and> jget d ''bytes'' = JInt n \<and> jget d ''duration_ms'' = JInt (max 1 (elapsed_ms seconds))
            \<and> jget d ''mbps'' = JFloat (mbps_of n (max 1 (elapsed_ms seconds)))
          else jget d ''ok'' = JBool False \<and> jget d ''bytes'' = JInt 0 \<and> (\<exists>e. jget d ''error'' = JStr e \<and> starts_with e ''Speed test '')
      | None \<Rightarrow> jget d ''ok'' = JBool False \<and> (\<exists>e. jget d ''error'' = JStr e \<and> starts_with e ''Speed test ''))"

lemma honest_failed_row: "honest_row url None seconds (failed_row url n ms e)"
  by (simp add: honest_row_def failed_row_def jget_def format_speed_test_error_starts)

lemma honest_moved_row:
  "starts_with none_text ''Speed test '' \<Longrightarrow> honest_row url (Some n) seconds (moved_row url n (max (elapsed_ms seconds) 1) none_text)"
  by (simp add: honest_row_def moved_row_def jget_def max.commute)

lemma honest_curl_row:
  assumes "curl_row x url no_text (\<lambda>n ms. moved_row url (f n) ms none_text) = Inr d" "starts_with none_text ''Speed test ''"
  shows "honest_row url (map_option f (curl_count x)) (px_seconds x) d"
  using assms(1) honest_moved_row [OF assms(2)]
  by (auto simp: curl_row_def curl_count_def Let_def honest_failed_row split: process_result.splits if_splits option.splits)

lemma honest_transfer_row:
  assumes "transfer_row x url n m none_text = Inr d" "starts_with none_text ''Speed test ''"
  shows "honest_row url (transfer_count x n) (tr_seconds x) d"
  using assms(1) honest_moved_row [OF assms(2)]
  by (auto simp: transfer_row_def transfer_count_def Let_def honest_failed_row split: transfer_end.splits)

text \<open>
  C31. A speed measurement reports what was transferred. Over the host or a proxy that is the bytes a completed download read, or
  the payload of a completed upload; in the namespace of a VPN it is the number \<open>curl\<close> prints when it ends well, except that an
  upload for which it prints 0 counts with its payload. The row is a success exactly when this number is positive, and then carries
  the number, the time of at least one millisecond and the rate that follows from the two; in every other case it is a failure
  whose message is one of the normalised speed-test messages.
\<close>
theorem measurements_are_honest:
  "(measure_download_speed get run url proxy_url timeout netns = Inr d \<longrightarrow>
      (case nonempty_str netns of
         None \<Rightarrow> let x = get url (nonempty_str proxy_url) timeout in honest_row url (transfer_count x (tr_bytes x)) (tr_seconds x) d
       | Some ns \<Rightarrow> let x = run (curl_download_command ns url timeout) in honest_row url (curl_count x) (px_seconds x) d))
   \<and> (measure_upload_speed post run url bytes_count proxy_url timeout netns = Inr d \<longrightarrow>
      (let payload = max 0 bytes_count
       in case nonempty_str netns of
            None \<Rightarrow> let x = post url payload (nonempty_str proxy_url) timeout in honest_row url (transfer_count x payload) (tr_seconds x) d
          | Some ns \<Rightarrow>
              let x = run [''bash'', ''-lc'', upload_script ns url payload timeout]
              in honest_row url (map_option (\<lambda>n. if 0 < n then n else payload) (curl_count x)) (px_seconds x) d))"
proof (intro conjI impI)
  assume d: "measure_download_speed get run url proxy_url timeout netns = Inr d"
  show "case nonempty_str netns of
         None \<Rightarrow> let x = get url (nonempty_str proxy_url) timeout in honest_row url (transfer_count x (tr_bytes x)) (tr_seconds x) d
       | Some ns \<Rightarrow> let x = run (curl_download_command ns url timeout) in honest_row url (curl_count x) (px_seconds x) d"
  proof (cases "nonempty_str netns")
    case None
    with d show ?thesis by (auto simp: measure_download_speed_def Let_def intro: honest_transfer_row)
  next
    case (Some ns)
    with d have "curl_row (run (curl_download_command ns url timeout)) url ''curl speed test failed''
        (\<lambda>n ms. moved_row url n ms ''Speed test downloaded no data'') = Inr d"
      by (simp add: measure_download_speed_def measure_download_speed_curl_def)
    from honest_curl_row [OF this] Some show ?thesis by (simp add: Let_def option.map_ident)
  qed
next
  assume u: "measure_upload_speed post run url bytes_count proxy_url timeout netns = Inr d"
  show "let payload = max 0 bytes_count
       in case nonempty_str netns of
            None \<Rightarrow> let x = post url payload (nonempty_str proxy_url) timeout in honest_row url (transfer_count x payload) (tr_seconds x) d
          | Some ns \<Rightarrow>
              let x = run [''bash'', ''-lc'', upload_script ns url payload timeout]
              in honest_row url (map_option (\<lambda>n. if 0 < n then n else payload) (curl_count x)) (px_seconds x) d"
  proof (cases "nonempty_str netns")
    case None
    with u show ?thesis by (auto simp: measure_upload_speed_def Let_def intro: honest_transfer_row)
  next
    case (Some ns)
    with u have "curl_row (run [''bash'', ''-lc'', upload_script ns url (max 0 bytes_count) timeout]) url ''curl upload speed test failed''
        (\<lambda>n ms. moved_row url (if 0 < n then n else max 0 bytes_count) ms ''Speed test uploaded no data'') = Inr d"
      by (simp add: measure_upload_speed_def measure_upload_speed_curl_def Let_def)
    from honest_curl_row [OF this] Some show ?thesis by (simp add: Let_def)
  qed
qed

definition sample_get :: downloader where
  "sample_get url proxy timeout = \<lparr>tr_end = Completed, tr_bytes = 1000000, tr_seconds = 2\<rparr>"

definition no_shell :: shell where "no_shell = (\<lambda>_. \<lparr>px_result = NotFound ''curl'', px_seconds = 0\<rparr>)"

lemma measurements_are_honest_witness:
  "measure_download_speed sample_get no_shell ''https://s'' None 30 None
     = Inr [(''ok'', JBool True), (''url'', JStr ''https://s''), (''bytes'', JInt 1000000), (''duration_ms'', JInt 2000),
            (''mbps'', JFloat (mbps_of 1000000 2000))]
   \<and> honest_row ''https://s'' (Some 1000000) 2
       [(''ok'', JBool True), (''url'', JStr ''https://s''), (''bytes'', JInt 1000000), (''duration_ms'', JInt 2000),
        (''mbps'', JFloat (mbps_of 1000000 2000))]"
proof -
  have d: "measure_download_speed sample_get no_shell ''https://s'' None 30 None
     = Inr [(''ok'', JBool True), (''url'', JStr ''https://s''), (''bytes'', JInt 1000000), (''duration_ms'', JInt 2000),
            (''mbps'', JFloat (mbps_of 1000000 2000))]"
    by (simp add: measure_download_speed_def nonempty_str_def sample_get_def transfer_row_def moved_row_def elapsed_ms_def trunc_def)
  then show ?thesis
    using measurements_are_honest [of sample_get no_shell "''https://s''" None 30 None]
    by (simp add: sample_get_def transfer_count_def nonempty_str_def Let_def)
qed

section \<open>The rate\<close>

lemma fl_rel: "0 \<le> x \<Longrightarrow> x * (1 - 1 / 2 ^ 53) \<le> fl x \<and> fl x \<le> x * (1 + 1 / 2 ^ 53)"
  using fl_err [of x] unfolding abs_le_iff by (simp add: right_diff_distrib distrib_left)

definition raw_rate :: "int \<Rightarrow> int \<Rightarrow> rat" where
  "raw_rate n ms = fl (fl (of_int (n * 8) / 1000000) / fl (of_int ms / 1000))"

definition exact_rate :: "int \<Rightarrow> int \<Rightarrow> rat" where
  "exact_rate n ms = of_int (8 * n) / of_int (1000 * ms)"

lemma mbps_of_raw: "mbps_of n ms = py_round2 (raw_rate n ms)"
  by (simp add: mbps_of_def raw_rate_def)

lemma raw_rate_bounds:
  assumes "0 \<le> n" "1 \<le> ms"
  shows "0 \<le> raw_rate n ms" and "raw_rate n ms \<le> exact_rate n ms * (1 + 1 / 2 ^ 50)"
    and "exact_rate n ms * (1 - 1 / 2 ^ 50) \<le> raw_rate n ms"
proof -
  define A where "A = (of_int (n * 8) / 1000000 :: rat)"
  define S where "S = (of_int ms / 1000 :: rat)"
  define q where "q = fl A / fl S"
  let ?e = "1 / 2 ^ 53 :: rat"
  have T: "A / S = exact_rate n ms" and A: "0 \<le> A" and S: "0 < S" and T0: "0 \<le> exact_rate n ms"
    using assms by (simp_all add: A_def S_def exact_rate_def field_simps)
  have a: "A * (1 - ?e) \<le> fl A" "fl A \<le> A * (1 + ?e)" and s: "S * (1 - ?e) \<le> fl S" "fl S \<le> S * (1 + ?e)" "0 < fl S"
    using fl_rel [OF A] fl_rel [of S] S by auto
  have "q \<le> A * (1 + ?e) / (S * (1 - ?e))"
    unfolding q_def using a s S A by (intro frac_le) auto
  then have q1: "q \<le> exact_rate n ms * ((1 + ?e) / (1 - ?e))"
    using T by (metis times_divide_times_eq)
  have "A * (1 - ?e) / (S * (1 + ?e)) \<le> q"
    unfolding q_def using a s S A by (intro frac_le) auto
  then have q2: "exact_rate n ms * ((1 - ?e) / (1 + ?e)) \<le> q"
    using T by (metis times_divide_times_eq)
  have q0: "0 \<le> q" using A s by (simp add: q_def fl_nonneg)
  have r: "raw_rate n ms = fl q" by (simp add: raw_rate_def q_def A_def S_def)
  show "0 \<le> raw_rate n ms" using q0 by (simp add: r fl_nonneg)
  show "raw_rate n ms \<le> exact_rate n ms * (1 + 1 / 2 ^ 50)"
    using fl_rel [OF q0] q1 T0 by (simp add: r)
  show "exact_rate n ms * (1 - 1 / 2 ^ 50) \<le> raw_rate n ms"
    using fl_rel [OF q0] q2 T0 by (simp add: r)
qed

text \<open>
  C32. The stored rate of a transfer of \<open>n\<close> bytes in \<open>ms\<close> milliseconds is the exact rate \<open>8 n / (1000 ms)\<close> megabits per
  second, rounded to two decimals: it is off by half of the last decimal and the relative error of a few floating-point
  operations.
\<close>
theorem measured_rate_accurate:
  assumes "0 \<le> n" "1 \<le> ms"
  shows "\<bar>mbps_of n ms - exact_rate n ms\<bar> \<le> 501 / 100000 + exact_rate n ms / 2 ^ 49"
proof -
  define f where "f = raw_rate n ms"
  define z where "z = of_int (round_he (f * 100)) / (100 :: rat)"
  have T0: "0 \<le> exact_rate n ms" using assms by (simp add: exact_rate_def)
  have f: "0 \<le> f" "f \<le> exact_rate n ms * (1 + 1 / 2 ^ 50)" "exact_rate n ms * (1 - 1 / 2 ^ 50) \<le> f"
    using raw_rate_bounds [OF assms] by (simp_all add: f_def)
  have z1: "z \<le> f + 1 / 200" "f - 1 / 200 \<le> z"
    using round_he_err [of "f * 100"] unfolding z_def abs_le_iff by simp_all
  have z0: "0 \<le> z"
    using round_he_mono [of 0 "f * 100"] f round_he_of_int [of 0] by (simp add: z_def)
  have m: "mbps_of n ms = fl z"
    by (simp add: mbps_of_raw py_round2_def z_def f_def)
  have up: "fl z \<le> exact_rate n ms + (501 / 100000 + exact_rate n ms / 2 ^ 49)"
    using fl_rel [OF z0] z1 f T0 by simp
  have down: "exact_rate n ms - (501 / 100000 + exact_rate n ms / 2 ^ 49) \<le> fl z"
    using fl_rel [OF z0] z1 f T0 by simp
  show ?thesis
    unfolding m abs_le_iff using up down by linarith
qed

lemma measured_rate_accurate_witness: "\<bar>mbps_of 5242880 2000 - 20971520 / 1000000\<bar> \<le> 502 / 100000"
  using measured_rate_accurate [of 5242880 2000] by (simp add: exact_rate_def)

lemma slow_rate_is_zero:
  assumes "0 \<le> n" "1 \<le> ms" "2 * n \<le> ms"
  shows "mbps_of n ms = 0"
proof -
  have "exact_rate n ms \<le> 4 / 1000"
    using assms by (simp add: exact_rate_def divide_le_eq)
  with raw_rate_bounds [OF assms(1,2)] have "0 \<le> raw_rate n ms * 100" "raw_rate n ms * 100 < 1 / 2"
    by simp_all
  then have "\<lfloor>raw_rate n ms * 100\<rfloor> = 0" and "raw_rate n ms * 100 < 1 / 2"
    by (simp_all add: floor_eq_iff)
  then have "round_he (raw_rate n ms * 100) = 0"
    by (simp add: round_he_def Let_def)
  then show ?thesis by (simp add: mbps_of_raw py_round2_def)
qed

lemma slow_transfer_is_no_data:
  assumes "0 < n" "1 \<le> ms" "2 * n \<le> ms"
  shows "settle_measurement now none_text (Some (moved_row url n ms none_text))
     = Some [(''ok'', JBool False), (''url'', JStr url), (''bytes'', JInt n), (''duration_ms'', JInt ms),
            (''mbps'', JFloat 0), (''measured_at'', JStr (isoformat now)), (''error'', JStr none_text)]"
  using assms slow_rate_is_zero [of n ms]
  by (simp add: settle_measurement_def moved_row_def stamp_speed_test_measured_at_def jset_def jget_def
      is_meaningful_speed_test_success_def default_to_def jor_def Let_def)

section \<open>The command of an upload\<close>

lemma cmdline_chars_plain:
  "CHR 0x5C \<notin> set s \<Longrightarrow> CHR 0x22 \<notin> set s \<Longrightarrow> cmdline_chars 0 s = (s, 0)"
  by (induction s) (auto split: prod.splits)

lemma plain_url_reaches_the_shell:
  assumes "set url \<inter> {CHR '' '', CHR 0x09, CHR 0x5C, CHR 0x22} = {}" "url \<noteq> []"
  shows "list2cmdline1 url = url"
  using assms cmdline_chars_plain [of url] by (simp add: list2cmdline1_def)

definition ampersand_template :: string where "ampersand_template = ''https://h/__down?bytes={bytes}&k=1''"
definition command_template :: string where "command_template = ''https://h/__down?bytes={bytes};reboot''"

lemma upload_url_of_templates:
  "build_speed_test_upload_url ampersand_template = Inr (Some ''https://h/__up&k=1'')"
  "build_speed_test_upload_url command_template = Inr (Some ''https://h/__up;reboot'')"
  by code_simp+

lemma upload_scripts_of_templates:
  "\<exists>command. upload_script netns ''https://h/__up&k=1'' n t = command @ '' https://h/__up&k=1''"
  "\<exists>command. upload_script netns ''https://h/__up;reboot'' n t = command @ '' https://h/__up;reboot''"
  by (simp_all add: upload_script_def plain_url_reaches_the_shell)

end
