(* ===== verification/TunIface.thy ===== *)
theory TunIface
  imports NetworkEnrich HttpCheck
begin

text \<open>
  What the VPN checks ask of the system and of a log: \<open>src/app/services/tun_iface.py\<close>, the names and commands of
  \<open>vpn_netns.py\<close> and the text helpers of \<open>vpn_process_utils.py\<close>. The \<open>ip -json\<close> tool is an argument, from a command to
  the parsed JSON it prints (\<open>None\<close>: it fails or prints no JSON); its rows are objects, as the tool documents.
\<close>

section \<open>Namespaces\<close>

definition uuid_prefix :: "uuid \<Rightarrow> string" where
  \<comment> \<open>\<open>str(component_id).split("-")[0]\<close>\<close>
  "uuid_prefix component_id = takeWhile (\<lambda>c. c \<noteq> CHR ''-'') component_id"

definition netns_name_for_component :: "uuid \<Rightarrow> string" where
  "netns_name_for_component component_id = ''sg-'' @ uuid_prefix component_id"

definition tun_name_for_component :: "uuid \<Rightarrow> string" where
  "tun_name_for_component component_id = ''tun-'' @ uuid_prefix component_id"

type_synonym ip_tool = "string list \<Rightarrow> json option"

definition ip_command :: "string option \<Rightarrow> string list \<Rightarrow> string list" where
  "ip_command netns args =
     (case nonempty_str netns of None \<Rightarrow> ''ip'' # args | Some ns \<Rightarrow> [''ip'', ''netns'', ''exec'', ns, ''ip''] @ args)"

definition dict_rows :: "json \<Rightarrow> dict list" where
  "dict_rows j = List.map_filter as_dict (default_to [] (as_list j))"

definition ip_rows :: "ip_tool \<Rightarrow> string option \<Rightarrow> string list \<Rightarrow> dict list option" where
  "ip_rows ip netns args = map_option dict_rows (ip (ip_command netns args))"

definition move_commands :: "string \<Rightarrow> string \<Rightarrow> (string \<times> int) list \<Rightarrow> string option \<Rightarrow> string list list" where
  \<comment> \<open>the commands \<open>move_iface_to_netns\<close> runs, in order\<close>
  "move_commands iface netns addresses gateway =
     [[''ip'', ''link'', ''set'', ''dev'', iface, ''netns'', netns],
      [''ip'', ''netns'', ''exec'', netns, ''ip'', ''link'', ''set'', iface, ''up'']]
     @ map (\<lambda>(address, prefixlen). [''ip'', ''netns'', ''exec'', netns, ''ip'', ''addr'', ''replace'',
                                   address @ ''/'' @ int_str prefixlen, ''dev'', iface]) addresses
     @ (case nonempty_str gateway of
          None \<Rightarrow> []
        | Some g \<Rightarrow> [[''ip'', ''netns'', ''exec'', netns, ''ip'', ''route'', ''replace'', ''default'', ''via'', g, ''dev'', iface]])"

fun check_calls :: "(string list \<Rightarrow> 'e option) \<Rightarrow> string list list \<Rightarrow> 'e option" where
  \<comment> \<open>a sequence of \<open>subprocess.check_call\<close>: the first that fails stops it\<close>
  "check_calls call [] = None"
| "check_calls call (cmd # cmds) = (case call cmd of Some e \<Rightarrow> Some e | None \<Rightarrow> check_calls call cmds)"

definition move_iface_to_netns ::
  "(string list \<Rightarrow> 'e option) \<Rightarrow> string \<Rightarrow> string \<Rightarrow> (string \<times> int) list \<Rightarrow> string option \<Rightarrow> 'e option" where
  "move_iface_to_netns call iface netns addresses gateway = check_calls call (move_commands iface netns addresses gateway)"

section \<open>TUN interfaces\<close>

definition list_tun_interfaces :: "ip_tool \<Rightarrow> string option \<Rightarrow> string list" where
  "list_tun_interfaces ip netns =
     (case ip_rows ip netns [''-json'', ''link''] of
        None \<Rightarrow> []
      | Some links \<Rightarrow> filter (\<lambda>name. starts_with name ''tun'') (List.map_filter (\<lambda>link. as_str (jget link ''ifname'')) links))"

definition show_addr :: "string \<Rightarrow> string list" where "show_addr iface = [''-json'', ''addr'', ''show'', ''dev'', iface]"

definition addr_infos :: "dict \<Rightarrow> dict list" where "addr_infos row = dict_rows (jget row ''addr_info'')"

definition interface_is_up :: "ip_tool \<Rightarrow> string option \<Rightarrow> string \<Rightarrow> bool" where
  "interface_is_up ip netns iface =
     (case default_to [] (ip_rows ip netns (show_addr iface)) of
        [] \<Rightarrow> False
      | row # _ \<Rightarrow>
          JStr ''UP'' \<in> set (default_to [] (as_list (jget row ''flags'')))
          \<and> list_ex (\<lambda>info. jget info ''family'' = JStr ''inet'' \<and> truthy (jget info ''local'')) (addr_infos row))"

fun wait_for_tun_interface :: "string option \<Rightarrow> string option \<Rightarrow> ip_tool list \<Rightarrow> string option" where
  \<comment> \<open>the list holds what \<open>ip\<close> answers in each turn of the loop before the deadline\<close>
  "wait_for_tun_interface netns device [] = None"
| "wait_for_tun_interface netns device (ip # turns) =
     (case find (\<lambda>iface. (nonempty_str device = None \<or> device = Some iface) \<and> interface_is_up ip netns iface)
             (list_tun_interfaces ip netns) of
        Some iface \<Rightarrow> Some iface
      | None \<Rightarrow> wait_for_tun_interface netns device turns)"

definition json_int :: "json \<Rightarrow> int option" where
  \<comment> \<open>\<open>isinstance(v, int)\<close>\<close>
  "json_int j = (case j of JInt n \<Rightarrow> Some n | JBool b \<Rightarrow> Some (if b then 1 else 0) | _ \<Rightarrow> None)"

definition tun_ipv4_addresses :: "ip_tool \<Rightarrow> string option \<Rightarrow> string \<Rightarrow> (string \<times> int) list" where
  "tun_ipv4_addresses ip netns iface =
     [(the (as_str (jget info ''local'')), the (json_int (jget info ''prefixlen''))).
        row \<leftarrow> default_to [] (ip_rows ip netns (show_addr iface)), info \<leftarrow> addr_infos row,
        jget info ''family'' = JStr ''inet'' \<and> as_str (jget info ''local'') \<noteq> None \<and> json_int (jget info ''prefixlen'') \<noteq> None]"

definition nonempty_json_str :: "json \<Rightarrow> string option" where "nonempty_json_str j = nonempty_str (as_str j)"

fun first_some :: "('a \<Rightarrow> 'b option) \<Rightarrow> 'a list \<Rightarrow> 'b option" where
  "first_some f [] = None"
| "first_some f (x # xs) = (case f x of Some y \<Rightarrow> Some y | None \<Rightarrow> first_some f xs)"

definition tun_peer_gateway :: "ip_tool \<Rightarrow> string option \<Rightarrow> string \<Rightarrow> string option" where
  "tun_peer_gateway ip netns iface =
     (case ip_rows ip netns (show_addr iface) of
        None \<Rightarrow> None
      | Some rows \<Rightarrow>
          (case first_some (\<lambda>info. if jget info ''family'' = JStr ''inet'' then nonempty_json_str (jget info ''peer'') else None)
                  (concat (map addr_infos rows)) of
             Some peer \<Rightarrow> Some (takeWhile (\<lambda>c. c \<noteq> CHR ''/'') peer)
           | None \<Rightarrow>
               first_some (\<lambda>route. nonempty_json_str (jget route ''gateway''))
                 (default_to [] (ip_rows ip netns [''-json'', ''route'', ''show'', ''dev'', iface]))))"

section \<open>The gateway in a log\<close>

definition digits_of :: "string \<Rightarrow> (string \<times> string) option" where
  \<comment> \<open>\<open>\d+\<close> at the front and the rest\<close>
  "digits_of s = (let ds = takeWhile json_digit s in if ds = [] then None else Some (ds, dropWhile json_digit s))"

definition dot_digits :: "string \<Rightarrow> (string \<times> string) option" where
  "dot_digits s = (case s of [] \<Rightarrow> None | c # r \<Rightarrow> if c = CHR ''.'' then digits_of r else None)"

definition dotted_quad :: "string \<Rightarrow> (string list \<times> string) option" where
  "dotted_quad s =
     (case digits_of s of None \<Rightarrow> None
      | Some (a, s) \<Rightarrow> (case dot_digits s of None \<Rightarrow> None
      | Some (b, s) \<Rightarrow> (case dot_digits s of None \<Rightarrow> None
      | Some (c, s) \<Rightarrow> (case dot_digits s of None \<Rightarrow> None
      | Some (d, s) \<Rightarrow> Some ([a, b, c, d], s)))))"

definition after_label :: "string \<Rightarrow> string \<Rightarrow> string option" where
  \<comment> \<open>the label, then \<open>\s+\<close>\<close>
  "after_label label s =
     (let r = drop (length label) s
      in if starts_with s label \<and> r \<noteq> [] \<and> is_space (hd r) then Some (lstrip r) else None)"

definition route_gateway_here :: "string \<Rightarrow> string option" where
  "route_gateway_here s =
     (case after_label ''route-gateway'' s of None \<Rightarrow> None
      | Some r \<Rightarrow> map_option (\<lambda>(parts, _). join ''.'' parts) (dotted_quad r))"

definition local_address_here :: "string \<Rightarrow> (string list \<times> nat) option" where
  \<comment> \<open>\<open>net_addr_v4_add:\s+(\d+\.\d+\.\d+\.\d+)/(\d+)\s+dev\<close>\<close>
  "local_address_here s =
     (case after_label ''net_addr_v4_add:'' s of None \<Rightarrow> None
      | Some r \<Rightarrow> (case dotted_quad r of None \<Rightarrow> None
      | Some (parts, s) \<Rightarrow>
          (case s of [] \<Rightarrow> None
           | c # r \<Rightarrow>
               if c \<noteq> CHR ''/'' then None
               else case digits_of r of None \<Rightarrow> None
                    | Some (prefix, s) \<Rightarrow>
                        if s \<noteq> [] \<and> is_space (hd s) \<and> starts_with (lstrip s) ''dev'' then Some (parts, dec_value prefix) else None)))"

fun search_at :: "(string \<Rightarrow> 'a option) \<Rightarrow> string \<Rightarrow> 'a option" where
  \<comment> \<open>\<open>re.search\<close>: the leftmost place where the pattern matches\<close>
  "search_at here [] = here []"
| "search_at here (c # s) = (case here (c # s) of Some m \<Rightarrow> Some m | None \<Rightarrow> search_at here s)"

definition gateway_from_openvpn_log :: "string option \<Rightarrow> string option" where
  "gateway_from_openvpn_log log_tail =
     (case nonempty_str log_tail of
        None \<Rightarrow> None
      | Some content \<Rightarrow>
          (case search_at route_gateway_here content of
             Some gateway \<Rightarrow> Some gateway
           | None \<Rightarrow>
               (case search_at local_address_here content of
                  None \<Rightarrow> None
                | Some (parts, prefix) \<Rightarrow>
                    let candidate = join ''.'' (parts[3 := ''1''])
                    in if 24 \<le> prefix \<and> candidate \<noteq> join ''.'' parts then Some candidate else None)))"

definition resolve_tun_gateway :: "ip_tool \<Rightarrow> string option \<Rightarrow> string option \<Rightarrow> string \<Rightarrow> string option" where
  "resolve_tun_gateway ip netns log_tail iface =
     (case nonempty_str (tun_peer_gateway ip netns iface) of
        Some gateway \<Rightarrow> Some gateway | None \<Rightarrow> gateway_from_openvpn_log log_tail)"

section \<open>Logs and proxies\<close>

definition LOG_TAIL_CHARS :: nat where "LOG_TAIL_CHARS = 4000"

definition read_tail :: "string option \<Rightarrow> string option" where
  \<comment> \<open>of the content of the file, \<open>None\<close> when there is none\<close>
  "read_tail content = map_option (last_n LOG_TAIL_CHARS) (nonempty_str content)"

definition line_hint :: "string \<Rightarrow> string option" where
  "line_hint line =
     (let stripped = strip line; text = upper stripped
      in if stripped = [] then None
         else if contains text ''AUTH_FAILED'' then Some ''Authentication failed (AUTH_FAILED)''
         else if list_ex (contains text)
                   [''TLS ERROR'', ''CANNOT RESOLVE'', ''CONNECTION REFUSED'', ''INACTIVITY TIMEOUT'', ''VERIFY ERROR'',
                    ''CERTIFICATE VERIFY FAILED'', '' ERROR'', '' FATAL'', '' EXITING'']
         then Some stripped else None)"

definition vpn_log_hint :: "string option \<Rightarrow> string option" where
  "vpn_log_hint log_tail =
     (case nonempty_str log_tail of None \<Rightarrow> None | Some content \<Rightarrow> first_some line_hint (rev (text_lines content)))"

definition with_hint :: "string \<Rightarrow> string option \<Rightarrow> string" where
  \<comment> \<open>\<open>f"{message}: {hint}"\<close> when there is a hint\<close>
  "with_hint message hint = (case nonempty_str hint of None \<Rightarrow> message | Some h \<Rightarrow> message @ '': '' @ h)"

definition credentials_here :: "string \<Rightarrow> string option" where
  \<comment> \<open>\<open>://([^:@/]+):([^@/]+)@\<close> at the front; the rest after the match\<close>
  "credentials_here s =
     (if \<not> starts_with s ''://'' then None
      else let r = drop 3 s; user = takeWhile (\<lambda>c. c \<notin> {CHR '':'', CHR ''@'', CHR ''/''}) r; r1 = drop (length user) r;
               password = takeWhile (\<lambda>c. c \<notin> {CHR ''@'', CHR ''/''}) (drop 1 r1); r2 = drop (length password) (drop 1 r1)
           in if user \<noteq> [] \<and> r1 \<noteq> [] \<and> hd r1 = CHR '':'' \<and> password \<noteq> [] \<and> r2 \<noteq> [] \<and> hd r2 = CHR ''@'' then Some (drop 1 r2) else None)"

lemma credentials_here_shorter: "credentials_here s = Some r \<Longrightarrow> length r < length s"
  by (auto simp: credentials_here_def Let_def split: if_splits)

function mask_proxy :: "string \<Rightarrow> string" where
  "mask_proxy [] = []"
| "mask_proxy (c # s) =
     (if credentials_here (c # s) \<noteq> None then ''://***:***@'' @ mask_proxy (the (credentials_here (c # s)))
      else c # mask_proxy s)"
  by pat_completeness auto
termination
proof (relation "measure length")
  fix c s
  assume "credentials_here (c # s) \<noteq> None"
  then obtain r where "credentials_here (c # s) = Some r" by blast
  with credentials_here_shorter [OF this] show "(the (credentials_here (c # s)), c # s) \<in> measure length" by simp
qed simp_all

end
