(* ===== verification/XrayConfig.thy ===== *)
theory XrayConfig
  imports PyText
begin

text \<open>
  \<open>src/app/services/xray_config.py\<close>: a configuration for Xray is JSON or a \<open>vless://\<close> share link, which becomes a
  configuration with a local SOCKS inbound; with the readers of \<open>vpn_check_service.py\<close> that find the local proxy in it.
  \<open>json_loads\<close> is an argument (\<open>Inl\<close>: the message of a \<open>JSONDecodeError\<close>). A share link is percent-decoded byte by byte.
\<close>

section \<open>Share links\<close>

definition DEFAULT_SOCKS_PORT :: int where "DEFAULT_SOCKS_PORT = 1080"
definition DEFAULT_SOCKS_LISTEN :: string where "DEFAULT_SOCKS_LISTEN = ''127.0.0.1''"

definition hex_value :: "char \<Rightarrow> nat option" where
  "hex_value c =
     (let n = of_char c :: nat
      in if json_digit c then Some (n - 48) else if 97 \<le> n \<and> n \<le> 102 then Some (n - 87)
         else if 65 \<le> n \<and> n \<le> 70 then Some (n - 55) else None)"

fun escaped_byte :: "char \<Rightarrow> char \<Rightarrow> char \<Rightarrow> char option" where
  \<comment> \<open>a percent sign and two hexadecimal digits\<close>
  "escaped_byte a b c =
     (if a \<noteq> CHR ''%'' then None
      else case (hex_value b, hex_value c) of (Some x, Some y) \<Rightarrow> Some (char_of (16 * x + y)) | _ \<Rightarrow> None)"

fun unquote :: "string \<Rightarrow> string" where
  "unquote (a # b # c # s) =
     (case escaped_byte a b c of Some byte \<Rightarrow> byte # unquote s | None \<Rightarrow> a # unquote (b # c # s))"
| "unquote s = s"

definition pieces_at :: "char \<Rightarrow> string \<Rightarrow> string list" where
  \<comment> \<open>\<open>s.split(c)\<close> without the empty pieces\<close>
  "pieces_at c = pieces (\<lambda>d. d = c)"

definition form_text :: "string \<Rightarrow> string" where
  "form_text s = unquote (map (\<lambda>c. if c = CHR ''+'' then CHR '' '' else c) s)"

definition parse_qsl :: "string \<Rightarrow> (string \<times> string) list" where
  \<comment> \<open>with \<open>keep_blank_values=True\<close>\<close>
  "parse_qsl query = map (\<lambda>field. map_prod form_text form_text (partition_at (CHR ''='') field)) (pieces_at (CHR ''&'') query)"

type_synonym params = "(string \<times> string) list"

definition param :: "params \<Rightarrow> string \<Rightarrow> string option" where
  \<comment> \<open>the last value of a key\<close>
  "param ps k = map_of (rev ps) k"

definition param_or :: "params \<Rightarrow> string \<Rightarrow> string \<Rightarrow> string" where
  "param_or ps k d = default_to d (param ps k)"

definition given :: "params \<Rightarrow> string \<Rightarrow> string \<Rightarrow> dict" where
  \<comment> \<open>\<open>if v := params.get(k): d[name] = v\<close>\<close>
  "given ps k name = (case param ps k of Some (c # cs) \<Rightarrow> [(name, JStr (c # cs))] | _ \<Rightarrow> [])"

definition after_netloc :: "string \<Rightarrow> string" where
  "after_netloc text =
     (let rest = snd (split_scheme (url_chars text))
      in if starts_with rest ''//'' then dropWhile (\<lambda>c. c \<notin> {CHR ''/'', CHR ''?'', CHR ''#''}) (drop 2 rest) else rest)"

definition url_query :: "string \<Rightarrow> string" where
  \<comment> \<open>\<open>urlparse(text).query\<close>\<close>
  "url_query text = snd (partition_at (CHR ''?'') (fst (partition_at (CHR ''#'') (after_netloc text))))"

definition url_username :: "parsed_url \<Rightarrow> string" where
  \<comment> \<open>\<open>parsed.username or ""\<close>\<close>
  "url_username u =
     (let netloc = pu_netloc u; before = take (length netloc - length (after_last_at netloc)) netloc
      in fst (partition_at (CHR '':'') (butlast before)))"

section \<open>Transport settings\<close>

definition tls_settings :: "string \<Rightarrow> params \<Rightarrow> dict" where
  "tls_settings host ps =
     (if given ps ''sni'' ''serverName'' \<noteq> [] then given ps ''sni'' ''serverName''
      else if host \<noteq> [] then [(''serverName'', JStr host)] else [])
     @ given ps ''fp'' ''fingerprint''
     @ (if given ps ''alpn'' ''alpn'' \<noteq> []
        then [(''alpn'', JArr (map JStr (filter (\<lambda>p. p \<noteq> []) (map strip (pieces_at (CHR '','') (param_or ps ''alpn'' []))))))] else [])
     @ (if lower (param_or ps ''allowInsecure'' []) \<in> {''1'', ''true'', ''yes''} then [(''allowInsecure'', JBool True)] else [])"

definition reality_settings :: "params \<Rightarrow> dict" where
  "reality_settings ps =
     given ps ''sni'' ''serverName'' @ given ps ''pbk'' ''publicKey'' @ given ps ''sid'' ''shortId'' @ given ps ''fp'' ''fingerprint''
     @ given ps ''spx'' ''spiderX''"

definition object_if :: "string \<Rightarrow> dict \<Rightarrow> dict" where
  "object_if name d = (if d = [] then [] else [(name, JObj d)])"

definition build_stream_settings :: "string \<Rightarrow> string \<Rightarrow> string \<Rightarrow> params \<Rightarrow> dict" where
  "build_stream_settings network security host ps =
     [(''network'', JStr network)]
     @ (if security \<noteq> [] \<and> security \<noteq> ''none'' then [(''security'', JStr security)] else [])
     @ (if security = ''tls'' then object_if ''tlsSettings'' (tls_settings host ps) else [])
     @ (if security = ''reality'' then object_if ''realitySettings'' (reality_settings ps) else [])
     @ (if network = ''tcp'' \<and> param_or ps ''headerType'' ''none'' \<noteq> ''none''
        then [(''tcpSettings'', JObj [(''header'', JObj [(''type'', JStr (param_or ps ''headerType'' ''none''))])])] else [])
     @ (if network = ''ws''
        then [(''wsSettings'', JObj ([(''path'', JStr (param_or ps ''path'' ''/''))]
                                  @ (case given ps ''host'' ''Host'' of [] \<Rightarrow> [] | h \<Rightarrow> [(''headers'', JObj h)])))] else [])
     @ (if network = ''grpc''
        then [(''grpcSettings'', JObj [(''serviceName'', JStr (param_or ps ''serviceName'' (param_or ps ''path'' []))),
                                     (''multiMode'', JBool (param ps ''mode'' = Some ''multi''))])] else [])
     @ (if network \<in> {''httpupgrade'', ''xhttp''}
        then [(network @ ''Settings'', JObj [(''path'', JStr (param_or ps ''path'' ''/'')), (''host'', JStr (param_or ps ''host'' host))])]
        else [])"

definition vless_user :: "string \<Rightarrow> params \<Rightarrow> dict" where
  "vless_user user_id ps =
     [(''id'', JStr user_id), (''encryption'', JStr (param_or ps ''encryption'' ''none''))] @ given ps ''flow'' ''flow''"

definition vless_config :: "string \<Rightarrow> string \<Rightarrow> int \<Rightarrow> params \<Rightarrow> dict" where
  "vless_config user_id host port ps =
     [(''log'', JObj [(''loglevel'', JStr ''warning'')]),
      (''inbounds'', JArr [JObj [(''tag'', JStr ''socks-in''), (''listen'', JStr DEFAULT_SOCKS_LISTEN), (''port'', JInt DEFAULT_SOCKS_PORT),
                              (''protocol'', JStr ''socks''), (''settings'', JObj [(''udp'', JBool True)])]]),
      (''outbounds'', JArr
         [JObj [(''tag'', JStr ''proxy''), (''protocol'', JStr ''vless''),
                (''settings'', JObj [(''vnext'', JArr [JObj [(''address'', JStr host), (''port'', JInt port),
                                                         (''users'', JArr [JObj (vless_user user_id ps)])]])]),
                (''streamSettings'', JObj (build_stream_settings (param_or ps ''type'' ''tcp'') (param_or ps ''security'' ''none'') host ps))],
          JObj [(''tag'', JStr ''direct''), (''protocol'', JStr ''freedom'')]]),
      (''routing'', JObj [(''rules'', JArr [JObj [(''type'', JStr ''field''), (''inboundTag'', JArr [JStr ''socks-in'']),
                                            (''outboundTag'', JStr ''proxy'')]])])]"

definition vless_uri_to_config :: "string \<Rightarrow> dict res" where
  "vless_uri_to_config uri =
     (case urlparse uri of
        Inl e \<Rightarrow> Inl e
      | Inr parsed \<Rightarrow>
          if lower (pu_scheme parsed) \<noteq> ''vless'' then Inl (ValueError ''Expected vless:// URI'')
          else let user_id = unquote (url_username parsed)
               in if user_id = [] then Inl (ValueError ''Invalid vless URI: missing UUID'')
                  else case pu_port parsed of
                         Inl e \<Rightarrow> Inl e
                       | Inr port \<Rightarrow>
                           (case (pu_hostname parsed, port) of
                              (Some (h # hs), Some p) \<Rightarrow> Inr (vless_config user_id (h # hs) p (parse_qsl (url_query uri)))
                            | _ \<Rightarrow> Inl (ValueError ''Invalid vless URI: missing host or port'')))"

section \<open>Configuration texts\<close>

fun first_config_line :: "string list \<Rightarrow> string option" where
  "first_config_line [] = None"
| "first_config_line (line # ls) =
     (if strip line = [] \<or> starts_with (strip line) ''#'' then first_config_line ls else Some (strip line))"

definition extract_config_input :: "string \<Rightarrow> string" where
  "extract_config_input config_text = default_to (strip config_text) (first_config_line (text_lines config_text))"

datatype xray_refusal = BadJson string | BadConfig py_exn

definition parse_xray_config_text :: "(string \<Rightarrow> string + json) \<Rightarrow> string \<Rightarrow> xray_refusal + json" where
  "parse_xray_config_text json_loads config_text =
     (let t = extract_config_input config_text
      in if starts_with t ''{'' then (case json_loads t of Inl msg \<Rightarrow> Inl (BadJson msg) | Inr j \<Rightarrow> Inr j)
         else if starts_with (lower t) ''vless://'' then map_sum BadConfig JObj (vless_uri_to_config t)
         else Inl (BadConfig (ValueError ''Xray config must be JSON or a vless:// share link'')))"

section \<open>The local proxy\<close>

fun iterated :: "json \<Rightarrow> json list res" where
  \<comment> \<open>\<open>for item in v or []\<close>: a string yields its characters, an object its keys\<close>
  "iterated JNull = Inr []"
| "iterated (JArr js) = Inr js"
| "iterated (JObj d) = Inr (map (JStr \<circ> fst) d)"
| "iterated (JStr s) = Inr (map (\<lambda>c. JStr [c]) s)"
| "iterated (JBool b) = (if b then Inl (TypeError ''object is not iterable'') else Inr [])"
| "iterated (JInt n) = (if n \<noteq> 0 then Inl (TypeError ''object is not iterable'') else Inr [])"
| "iterated (JFloat x) = (if x \<noteq> 0 then Inl (TypeError ''object is not iterable'') else Inr [])"

definition listen_address :: "json \<Rightarrow> string res" where
  \<comment> \<open>the set membership hashes its operand\<close>
  "listen_address listen =
     (case jor listen (JStr ''127.0.0.1'') of
        JArr _ \<Rightarrow> Inl (TypeError ''unhashable type'')
      | JObj _ \<Rightarrow> Inl (TypeError ''unhashable type'')
      | v \<Rightarrow> Inr (if v \<in> {JStr ''0.0.0.0'', JStr ''::''} then ''127.0.0.1'' else py_str v))"

fun integral :: "json \<Rightarrow> bool" where
  \<comment> \<open>\<open>isinstance(v, int)\<close>\<close>
  "integral (JInt n) = True"
| "integral (JBool b) = True"
| "integral _ = False"

fun inbound_proxy :: "json list \<Rightarrow> string option res" where
  "inbound_proxy [] = Inr None"
| "inbound_proxy (j # js) =
     (case as_dict j of
        None \<Rightarrow> inbound_proxy js
      | Some inbound \<Rightarrow>
          if \<not> integral (jget inbound ''port'') then inbound_proxy js
          else case listen_address (jget inbound ''listen'') of
                 Inl e \<Rightarrow> Inl e
               | Inr listen \<Rightarrow>
                   if jget inbound ''protocol'' = JStr ''socks''
                   then Inr (Some (''socks5://'' @ listen @ '':'' @ py_str (jget inbound ''port'')))
                   else if jget inbound ''protocol'' = JStr ''http''
                   then Inr (Some (''http://'' @ listen @ '':'' @ py_str (jget inbound ''port'')))
                   else inbound_proxy js)"

definition inbounds_of :: "json \<Rightarrow> json list res" where
  "inbounds_of config =
     (case as_dict config of
        None \<Rightarrow> Inl (OtherError ''object has no attribute get'')
      | Some d \<Rightarrow> iterated (jget d ''inbounds''))"

definition xray_proxy_url :: "json \<Rightarrow> string option res" where
  "xray_proxy_url config = (case inbounds_of config of Inl e \<Rightarrow> Inl e | Inr js \<Rightarrow> inbound_proxy js)"

definition xray_inbound_protocol :: "json \<Rightarrow> string option res" where
  "xray_inbound_protocol config =
     (case inbounds_of config of
        Inl e \<Rightarrow> Inl e
      | Inr js \<Rightarrow> Inr (map_option (\<lambda>d. py_str (jget d ''protocol''))
                          (find (\<lambda>d. truthy (jget d ''protocol'')) (List.map_filter as_dict js))))"


section \<open>A share link gives a usable proxy\<close>

lemma socks_port_text: "int_str 1080 = ''1080''"
  by code_simp

lemma vless_config_proxy:
  "xray_proxy_url (JObj (vless_config user_id host port ps)) = Inr (Some ''socks5://127.0.0.1:1080'')"
  by (simp add: xray_proxy_url_def inbounds_of_def vless_config_def jget_def listen_address_def jor_def DEFAULT_SOCKS_LISTEN_def
      DEFAULT_SOCKS_PORT_def socks_port_text)

lemma vless_config_protocol:
  "xray_inbound_protocol (JObj (vless_config user_id host port ps)) = Inr (Some ''socks'')"
  by (simp add: xray_inbound_protocol_def inbounds_of_def vless_config_def jget_def map_filter_simps)

lemma parsed_link_is_vless_config:
  "vless_uri_to_config uri = Inr d \<Longrightarrow> \<exists>u h p. d = vless_config u h p (parse_qsl (url_query uri)) \<and> u \<noteq> [] \<and> h \<noteq> []"
  by (auto simp: vless_uri_to_config_def Let_def split: sum.splits if_splits option.splits list.splits)

text \<open>
  A configuration given as a share link is refused with a message or becomes a configuration whose local SOCKS
  proxy the check finds, whatever the link's parameters are.
\<close>
theorem share_link_has_local_proxy:
  assumes "parse_xray_config_text json_loads config_text = Inr config"
    and "\<not> starts_with (extract_config_input config_text) ''{''"
  shows "xray_proxy_url config = Inr (Some ''socks5://127.0.0.1:1080'') \<and> xray_inbound_protocol config = Inr (Some ''socks'')"
proof -
  obtain d where "config = JObj d" "vless_uri_to_config (extract_config_input config_text) = Inr d"
    using assms by (auto simp: parse_xray_config_text_def Let_def split: if_splits)
      (metis map_sum_is_Inr)
  then show ?thesis
    using parsed_link_is_vless_config vless_config_proxy vless_config_protocol by metis
qed


section \<open>Links and their configuration\<close>

definition share_link :: "string \<Rightarrow> string \<Rightarrow> nat \<Rightarrow> string \<Rightarrow> string" where
  "share_link user host port query = ''vless://'' @ user @ ''@'' @ host @ '':'' @ nat_str port @ ''?'' @ query"

definition plain_url_char :: "char \<Rightarrow> bool" where
  \<comment> \<open>a character without a meaning of its own in the authority of a URL\<close>
  "plain_url_char c \<longleftrightarrow> c \<notin> set '':@/?#[]%'' \<and> of_char c \<notin> {9, 10, 13 :: nat}"

definition query_char :: "char \<Rightarrow> bool" where
  "query_char c \<longleftrightarrow> c \<noteq> CHR ''#'' \<and> of_char c \<notin> {9, 10, 13 :: nat}"

lemma unquote_plain: "CHR ''%'' \<notin> set s \<Longrightarrow> unquote s = s"
  by (induction s rule: unquote.induct) auto

lemma takeWhile_upto: "\<forall>x\<in>set xs. P x \<Longrightarrow> \<not> P y \<Longrightarrow> takeWhile P (xs @ y # ys) = xs"
  by (induction xs) auto

lemma dropWhile_upto: "\<forall>x\<in>set xs. P x \<Longrightarrow> \<not> P y \<Longrightarrow> dropWhile P (xs @ y # ys) = y # ys"
  by (induction xs) auto

lemma after_last_at_split: "CHR ''@'' \<notin> set h \<Longrightarrow> after_last_at (u @ CHR ''@'' # h) = h"
proof -
  assume "CHR ''@'' \<notin> set h"
  then have "takeWhile (\<lambda>d. d \<noteq> CHR ''@'') (rev h @ CHR ''@'' # rev u) = rev h"
    by (intro takeWhile_upto) auto
  then show ?thesis by (simp add: after_last_at_def)
qed

lemma json_digit_plain: "json_digit c \<Longrightarrow> plain_url_char c"
  by (auto simp: json_digit_def plain_url_char_def Let_def)

lemma plain_nat_str: "\<forall>c\<in>set (nat_str n). plain_url_char c"
  using digits_nat_str [of n] by (auto simp: list_all_iff json_digit_plain)

lemma plain_free:
  assumes "\<forall>c\<in>set s. plain_url_char c"
  shows "CHR '':'' \<notin> set s" "CHR ''@'' \<notin> set s" "CHR ''/'' \<notin> set s" "CHR ''?'' \<notin> set s" "CHR ''#'' \<notin> set s"
    "CHR ''['' \<notin> set s" "CHR '']'' \<notin> set s" "CHR ''%'' \<notin> set s"
  using assms by (auto simp: plain_url_char_def)

lemma host_and_port_split:
  assumes "\<forall>c\<in>set user. plain_url_char c" "\<forall>c\<in>set host. plain_url_char c" "host \<noteq> []" "lower host = host" "port \<le> 65535"
  shows "host_and_port (user @ CHR ''@'' # host @ CHR '':'' # nat_str port) = (Some host, Inr (Some (int port)))"
proof -
  let ?hp = "host @ CHR '':'' # nat_str port"
  have no: "CHR ''@'' \<notin> set ?hp" "CHR ''['' \<notin> set ?hp" "CHR '':'' \<notin> set host" "CHR ''%'' \<notin> set host"
    using plain_free [OF assms(2)] plain_free [OF plain_nat_str, of port] by auto
  have a: "after_last_at (user @ CHR ''@'' # ?hp) = ?hp"
    by (rule after_last_at_split [OF no(1)])
  have p: "partition_at (CHR '':'') ?hp = (host, nat_str port)"
    using no(3) by (auto simp: partition_at_def intro!: takeWhile_upto) (subst dropWhile_upto; auto)
  have "takeWhile (\<lambda>d. d \<noteq> CHR ''%'') host = host" "dropWhile (\<lambda>d. d \<noteq> CHR ''%'') host = []"
    using no(4) by (auto simp: takeWhile_eq_all_conv dropWhile_eq_Nil_conv)
  then have z: "lower (takeWhile (\<lambda>d. d \<noteq> CHR ''%'') host) @ dropWhile (\<lambda>d. d \<noteq> CHR ''%'') host = host"
    by (simp only: assms(4) append_Nil2)
  show ?thesis
    unfolding host_and_port_def Let_def a
    using no(2) p z assms digits_nat_str [of port] by (simp add: dec_value_nat_str)
qed


lemma not_line_end: "plain_url_char c \<or> query_char c \<Longrightarrow> of_char c \<notin> {9, 10, 13 :: nat}"
  by (auto simp: plain_url_char_def query_char_def)

lemma urlparse_share_link:
  assumes "\<forall>c\<in>set user. plain_url_char c" "\<forall>c\<in>set host. plain_url_char c" "host \<noteq> []" "lower host = host" "port \<le> 65535"
    and "\<forall>c\<in>set query. query_char c"
  shows "\<exists>u. urlparse (share_link user host port query) = Inr u \<and> pu_scheme u = ''vless'' \<and> pu_hostname u = Some host
           \<and> pu_port u = Inr (Some (int port)) \<and> url_username u = user"
    and "url_query (share_link user host port query) = query"
proof -
  let ?hp = "host @ CHR '':'' # nat_str port"
  define net where "net = user @ CHR ''@'' # ?hp"
  let ?uri = "share_link user host port query"
  note free = plain_free [OF assms(1)] plain_free [OF assms(2)] plain_free [OF plain_nat_str, of port]
  have ws: "of_char c \<notin> {9, 10, 13 :: nat}" if "c \<in> set user \<union> set host \<union> set (nat_str port) \<union> set query" for c
    using that assms(1,2,6) plain_nat_str [of port] not_line_end by blast
  have uri: "?uri = ''vless:'' @ ''//'' @ net @ CHR ''?'' # query"
    by (simp add: share_link_def net_def)
  have chars: "url_chars ?uri = ?uri"
  proof -
    have "\<forall>c\<in>set ?uri. of_char c \<notin> {9, 10, 13 :: nat}"
      unfolding uri net_def using ws by auto
    then have "filter (\<lambda>c. of_char c \<notin> {9, 10, 13 :: nat}) ?uri = ?uri" by (simp add: filter_id_conv)
    moreover have "dropWhile (\<lambda>c. of_char c \<le> (32 :: nat)) ?uri = ?uri" by (simp add: uri)
    ultimately show ?thesis by (simp only: url_chars_def)
  qed
  have scheme: "split_scheme ?uri = (''vless'', ''//'' @ net @ CHR ''?'' # query)"
    by (simp add: uri split_scheme_def partition_at_def is_alnum_def is_lower_alnum_def json_digit_def lower_def lower_char_def)
  have stop: "\<forall>c\<in>set net. c \<notin> {CHR ''/'', CHR ''?'', CHR ''#''}"
    using free by (auto simp: net_def)
  have netloc: "takeWhile (\<lambda>c. c \<notin> {CHR ''/'', CHR ''?'', CHR ''#''}) (net @ CHR ''?'' # query) = net"
    and rest: "dropWhile (\<lambda>c. c \<notin> {CHR ''/'', CHR ''?'', CHR ''#''}) (net @ CHR ''?'' # query) = CHR ''?'' # query"
    using stop by (intro takeWhile_upto dropWhile_upto; simp)+
  have brackets: "CHR ''['' \<notin> set net" "CHR '']'' \<notin> set net"
    using free by (auto simp: net_def)
  have last: "after_last_at net = ?hp"
    unfolding net_def using free by (intro after_last_at_split) auto
  have name: "fst (partition_at (CHR '':'') (butlast (take (length net - length ?hp) net))) = user"
    using free(1) by (simp add: net_def butlast_append partition_at_def takeWhile_eq_all_conv) auto
  have hp: "host_and_port net = (Some host, Inr (Some (int port)))"
    unfolding net_def by (rule host_and_port_split [OF assms(1-5)])
  show "\<exists>u. urlparse ?uri = Inr u \<and> pu_scheme u = ''vless'' \<and> pu_hostname u = Some host
           \<and> pu_port u = Inr (Some (int port)) \<and> url_username u = user"
    using name brackets unfolding urlparse_def chars scheme Let_def prod.case
    using netloc hp last by (simp add: url_username_def)
  have "after_netloc ?uri = CHR ''?'' # query"
    unfolding after_netloc_def chars scheme Let_def snd_conv using rest by simp
  moreover have "CHR ''#'' \<notin> set query"
    using assms(6) by (auto simp: query_char_def)
  ultimately show "url_query ?uri = query"
    by (simp add: url_query_def partition_at_def takeWhile_eq_all_conv) auto
qed

text \<open>
  C30. A share link written from a user id, a host, a port and a query, the parts free of characters with a meaning of
  their own in a URL, is read back as the configuration with exactly that user, that server and the parameters of that
  query.
\<close>
theorem share_link_roundtrip:
  assumes "\<forall>c\<in>set user. plain_url_char c" "user \<noteq> []" "\<forall>c\<in>set host. plain_url_char c" "host \<noteq> []" "lower host = host"
    and "port \<le> 65535" "\<forall>c\<in>set query. query_char c"
  shows "vless_uri_to_config (share_link user host port query) = Inr (vless_config user host (int port) (parse_qsl query))"
proof -
  obtain u where u: "urlparse (share_link user host port query) = Inr u" "pu_scheme u = ''vless''" "pu_hostname u = Some host"
      "pu_port u = Inr (Some (int port))" "url_username u = user"
    using urlparse_share_link(1) [OF assms(1,3-7)] by blast
  have "unquote user = user" using plain_free [OF assms(1)] by (simp add: unquote_plain)
  moreover have "lower ''vless'' = ''vless''" by code_simp
  ultimately show ?thesis
    using u assms(2,4) urlparse_share_link(2) [OF assms(1,3-7)]
    by (cases host) (simp_all add: vless_uri_to_config_def Let_def)
qed

lemma share_link_roundtrip_witness:
  "vless_uri_to_config (share_link ''id-1'' ''h.test'' 443 ''type=ws&path=%2Fa'')
     = Inr (vless_config ''id-1'' ''h.test'' 443 [(''type'', ''ws''), (''path'', ''/a'')])"
proof -
  have "parse_qsl ''type=ws&path=%2Fa'' = [(''type'', ''ws''), (''path'', ''/a'')]"
    by code_simp
  then show ?thesis
    using share_link_roundtrip [of "''id-1''" "''h.test''" 443 "''type=ws&path=%2Fa''"]
    by (simp add: plain_url_char_def query_char_def lower_def lower_char_def)
qed


section \<open>One line of the text\<close>

lemma pieces_first:
  assumes "\<forall>c\<in>set a. \<not> sep c" "a \<noteq> []" "sep b"
  shows "pieces sep (a @ b # s) = a # pieces sep s"
proof (cases a)
  case (Cons c cs)
  have "takeWhile (\<lambda>d. \<not> sep d) (cs @ b # s) = cs" "dropWhile (\<lambda>d. \<not> sep d) (cs @ b # s) = b # s"
    using assms Cons by (auto intro!: takeWhile_upto dropWhile_upto)
  then show ?thesis using assms Cons by simp
qed (use assms in simp)

lemma pieces_single:
  assumes "\<forall>c\<in>set s. \<not> sep c" "s \<noteq> []"
  shows "pieces sep s = [s]"
proof (cases s)
  case (Cons c cs)
  then have "takeWhile (\<lambda>d. \<not> sep d) cs = cs" "dropWhile (\<lambda>d. \<not> sep d) cs = []"
    using assms by (auto simp: takeWhile_eq_all_conv dropWhile_eq_Nil_conv)
  then show ?thesis using assms Cons by (simp del: takeWhile_eq_all_conv dropWhile_eq_Nil_conv)
qed (use assms in simp)

text \<open>A JSON configuration spread over several lines is cut after its first line.\<close>

lemma pretty_json_is_cut:
  "parse_xray_config_text json_loads (''{'' @ CHR 0x0A # rest)
     = (case json_loads ''{'' of Inl msg \<Rightarrow> Inl (BadJson msg) | Inr j \<Rightarrow> Inr j)"
proof -
  have "text_lines (''{'' @ CHR 0x0A # rest) = ''{'' # text_lines rest"
    unfolding text_lines_def by (rule pieces_first) simp_all
  moreover have "strip ''{'' = ''{''" by code_simp
  ultimately have "extract_config_input (''{'' @ CHR 0x0A # rest) = ''{''"
    by (simp only: extract_config_input_def first_config_line.simps) (simp add: default_to_def)
  then show ?thesis by (simp only: parse_xray_config_text_def Let_def) simp
qed

lemma odd_inbounds_raise:
  "xray_proxy_url (JObj [(''inbounds'', JInt 1)]) = Inl (TypeError ''object is not iterable'')"
  "xray_proxy_url (JObj [(''inbounds'', JArr [JObj [(''port'', JInt 1080), (''listen'', JArr [])]])])
     = Inr None"
  "xray_proxy_url (JObj [(''inbounds'', JArr [JObj [(''port'', JInt 1080), (''listen'', JArr [JNull])]])])
     = Inl (TypeError ''unhashable type'')"
  by code_simp+

lemma share_link_has_local_proxy_witness:
  "xray_proxy_url (JObj (vless_config ''id'' ''h.test'' 443 [(''type'', ''ws'')])) = Inr (Some ''socks5://127.0.0.1:1080'')
   \<and> parse_xray_config_text (\<lambda>_. Inl ''x'') ''vless://id@h.test:443?type=ws''
       = Inr (JObj (vless_config ''id'' ''h.test'' 443 [(''type'', ''ws'')]))"
proof -
  let ?link = "''vless://id@h.test:443?type=ws''"
  have l: "share_link ''id'' ''h.test'' 443 ''type=ws'' = ?link"
    by code_simp
  have "unquote ''id'' = ''id''" "parse_qsl ''type=ws'' = [(''type'', ''ws'')]" "lower ''vless'' = ''vless''"
    by code_simp+
  moreover have "\<forall>c\<in>set ''id''. plain_url_char c" "\<forall>c\<in>set ''h.test''. plain_url_char c" "\<forall>c\<in>set ''type=ws''. query_char c"
      "lower ''h.test'' = ''h.test''"
    by (simp_all add: plain_url_char_def query_char_def lower_def lower_char_def)
  ultimately have v: "vless_uri_to_config ?link = Inr (vless_config ''id'' ''h.test'' 443 [(''type'', ''ws'')])"
    using urlparse_share_link [of "''id''" "''h.test''" 443 "''type=ws''"]
    unfolding l by (auto simp: vless_uri_to_config_def)
  have "strip ?link = ?link" "starts_with (lower ?link) ''vless://''"
    by code_simp+
  moreover have x: "extract_config_input ?link = ?link"
  proof -
    have "text_lines ?link = [?link]"
      unfolding text_lines_def by (rule pieces_single) simp_all
    moreover have "strip ?link = ?link" by code_simp
    ultimately show ?thesis
      by (simp only: extract_config_input_def first_config_line.simps) (simp add: default_to_def)
  qed
  ultimately have p: "parse_xray_config_text (\<lambda>_. Inl ''x'') ?link = Inr (JObj (vless_config ''id'' ''h.test'' 443 [(''type'', ''ws'')]))"
    by (simp only: parse_xray_config_text_def Let_def x v) simp
  have "\<not> starts_with (extract_config_input ?link) ''{''"
    by (simp only: x) simp
  from share_link_has_local_proxy [OF p this] p show ?thesis by simp
qed

end
