(* ===== verification/VpnCheck.thy ===== *)
theory VpnCheck
  imports SpeedMeasure TunIface XrayConfig
begin

text \<open>
  One check of a VPN: \<open>src/app/services/vpn_check_service.py\<close>, the probe of a persistent session from
  \<open>openvpn_session.py\<close> and the metrics both collect (\<open>network_enrich.py\<close>). What the outside does during a check is a
  record: whether the client starts, what \<open>ip\<close> answers in each turn of the wait, the log it writes, what requests,
  transfers and commands come back with, and the clock. The state is the host WAN state of the process with its counter of
  ephemeral sessions. The log is read once; the termination of the client is taken to succeed.
\<close>

section \<open>What happens during a check\<close>

record vpn_run =
  vr_started_at :: instant
  vr_failed_at :: instant \<comment> \<open>\<open>datetime.now\<close> of an error result\<close>
  vr_spawn :: "py_exn option" \<comment> \<open>why the directory, the files or the client could not be set up\<close>
  vr_turns :: "ip_tool list" \<comment> \<open>turns of the wait for the TUN interface\<close>
  vr_proxy_turns :: "http_result list" \<comment> \<open>turns of the wait for the local proxy\<close>
  vr_connect_ms :: int
  vr_total_ms :: int
  vr_log :: "string option"
  vr_ip :: ip_tool
  vr_resolv :: "string option"
  vr_send :: transport
  vr_get :: downloader
  vr_post :: uploader
  vr_shell :: shell
  vr_now :: instant
  vr_clock :: rat

fun exn_str :: "py_exn \<Rightarrow> string" where
  \<comment> \<open>\<open>str(exc)\<close>\<close>
  "exn_str (HTTPException code detail) = int_str code @ '': '' @ detail"
| "exn_str (ValueError t) = t"
| "exn_str (IntegrityError t) = t"
| "exn_str (TypeError t) = t"
| "exn_str (OtherError t) = t"
| "exn_str ValidationError = []"

section \<open>Metrics of a tunnel\<close>

definition ping_command :: "string option \<Rightarrow> string \<Rightarrow> string list" where
  "ping_command netns host =
     (case nonempty_str netns of None \<Rightarrow> [] | Some ns \<Rightarrow> [''ip'', ''netns'', ''exec'', ns]) @ [''ping'', ''-c'', ''4'', ''-W'', ''1'', host]"

definition ping_host :: "shell \<Rightarrow> string option \<Rightarrow> string \<Rightarrow> dict option res" where
  "ping_host run netns host =
     (case px_result (run (ping_command netns host)) of
        Finished code out _ \<Rightarrow> if code \<noteq> 0 then Inr None else parse_ping_output out
      | Raised _ \<Rightarrow> Inr None
      | NotFound _ \<Rightarrow> Inr None
      | Unstarted e \<Rightarrow> Inl e)"

definition network_details :: "vpn_run \<Rightarrow> string option \<Rightarrow> string \<Rightarrow> dict" where
  "network_details run netns iface =
     (let ask = (\<lambda>thing. ip_rows (vr_ip run) netns [''-json'', thing, ''show'', ''dev'', iface])
      in collect_network_details (vr_resolv run) (ask ''addr'') (ask ''route'') (ask ''link''))"

definition link_mtu :: "vpn_run \<Rightarrow> string option \<Rightarrow> string option \<Rightarrow> json option" where
  "link_mtu run netns iface =
     (case iface of None \<Rightarrow> None
      | Some i \<Rightarrow> (case ip_rows (vr_ip run) netns [''-json'', ''link'', ''show'', ''dev'', i] of
                   Some (l # _) \<Rightarrow> Some (jget l ''mtu'') | _ \<Rightarrow> None))"

definition live_failure ::
  "(string \<Rightarrow> dict res) \<Rightarrow> (string \<Rightarrow> dict res) \<Rightarrow> int \<Rightarrow> SpeedTestRunContext \<Rightarrow> rat \<Rightarrow> host_wan \<Rightarrow> py_exn option" where
  \<comment> \<open>the exception a live measurement lets through, when one is made\<close>
  "live_failure download upload speed_test_bytes ctx clock hw =
     (case (build_speed_test_url (rc_url_template ctx) speed_test_bytes, build_speed_test_upload_url (rc_url_template ctx)) of
        (Inr url, Inr u) \<Rightarrow>
          if \<not> rc_run_speed_test ctx \<or> \<not> fst (try_acquire_speed_test_slot clock (hw_slot_last_at hw)) then None
          else (case download url of
                  Inl e \<Rightarrow> Some e
                | Inr _ \<Rightarrow>
                    (case nonempty_str u of None \<Rightarrow> None
                     | Some up \<Rightarrow> (case upload up of Inl e \<Rightarrow> Some e | Inr _ \<Rightarrow> None)))
      | _ \<Rightarrow> None)"

definition measured :: "(string \<Rightarrow> dict res) \<Rightarrow> string \<Rightarrow> dict option" where
  "measured f url = (case f url of Inl _ \<Rightarrow> None | Inr d \<Rightarrow> Some d)"

definition tunnel_metrics ::
  "vpn_run \<Rightarrow> string option \<Rightarrow> string option \<Rightarrow> string option \<Rightarrow> string option \<Rightarrow> rat \<Rightarrow> int \<Rightarrow> SpeedTestRunContext \<Rightarrow> dict \<Rightarrow> host_wan
     \<Rightarrow> dict res \<times> host_wan" where
  \<comment> \<open>\<open>_enrich_network_metrics\<close> with its measurements\<close>
  "tunnel_metrics run netns gateway proxy_url iface timeout speed_test_bytes ctx network hw =
     (let download = (\<lambda>url. measure_download_speed (vr_get run) (vr_shell run) url proxy_url (max 5 timeout) netns);
          upload = (\<lambda>url. measure_upload_speed (vr_post run) (vr_shell run) url speed_test_bytes proxy_url (max 5 timeout) netns)
      in case (case nonempty_str gateway of None \<Rightarrow> Inr None | Some g \<Rightarrow> ping_host (vr_shell run) netns g) of
           Inl e \<Rightarrow> (Inl e, hw)
         | Inr ping \<Rightarrow>
             (case live_failure download upload speed_test_bytes ctx (vr_clock run) hw of
                Some e \<Rightarrow> (Inl e, hw\<lparr>hw_slot_last_at := vr_clock run\<rparr>)
              | None \<Rightarrow> enrich_network_metrics (measured download) (measured upload) ping (link_mtu run netns iface) (vr_now run)
                          (vr_clock run) network gateway iface speed_test_bytes ctx hw))"

definition speed_test_bytes_for :: "MonitoredComponent \<Rightarrow> int" where
  "speed_test_bytes_for c = (case mc_speed_test_bytes c of Some b \<Rightarrow> if b = 0 then DEFAULT_SPEED_TEST_BYTES else b | None \<Rightarrow> DEFAULT_SPEED_TEST_BYTES)"

definition metrics_timeout :: "int \<Rightarrow> int \<Rightarrow> int \<Rightarrow> rat" where
  \<comment> \<open>\<open>min(30, max(15, timeout - connect_time_ms / 1000 - latency_ms / 1000))\<close>\<close>
  "metrics_timeout timeout connect_ms latency =
     min 30 (max 15 (fl (fl (of_int timeout - fl (of_int connect_ms / 1000)) - fl (of_int latency / 1000))))"

definition carried_speed_tests :: "SpeedTestRunContext \<Rightarrow> bool \<Rightarrow> dict \<Rightarrow> host_wan \<Rightarrow> dict \<times> host_wan" where
  \<comment> \<open>the branch of a failed probe\<close>
  "carried_speed_tests ctx with_upload network hw =
     (let network = apply_cached_speed_test ctx False network;
          network = (if with_upload then apply_cached_speed_test_upload ctx False network else network)
      in attach_host_wan_baseline_to_network network None hw)"

definition probe_ok :: "dict \<Rightarrow> bool" where "probe_ok p = truthy (jget p ''ok'')"

definition probe_latency :: "dict \<Rightarrow> int" where "probe_latency p = default_to 0 (py_int (jor (jget p ''latency_ms'') (JInt 0)))"

section \<open>Results\<close>

definition check_result ::
  "uuid \<Rightarrow> MonitoredComponent \<Rightarrow> instant \<Rightarrow> CheckOutcome \<Rightarrow> int option \<Rightarrow> int option \<Rightarrow> string option \<Rightarrow> dict \<Rightarrow> CheckResult" where
  "check_result rid c checked_at outcome latency status_code message details =
     \<lparr>cr_id = rid, cr_monitored_component_id = mc_id c, cr_checked_at = Aware checked_at, cr_outcome = CheckOutcome_value outcome,
      cr_latency_ms = latency, cr_http_status_code = status_code, cr_error_message = message, cr_details = JObj details\<rparr>"

definition log_details :: "string option \<Rightarrow> dict" where
  "log_details log_tail = (case nonempty_str log_tail of None \<Rightarrow> [] | Some l \<Rightarrow> [(''log_tail'', JStr l)])"

definition error_result ::
  "uuid \<Rightarrow> MonitoredComponent \<Rightarrow> instant \<Rightarrow> string \<Rightarrow> int option \<Rightarrow> string option \<Rightarrow> CheckResult" where
  "error_result rid c checked_at message latency log_tail =
     check_result rid c checked_at ERROR latency None (Some message)
       ([(''check_type'', JStr (mc_check_type c))] @ log_details log_tail)"

definition failure_result :: "uuid \<Rightarrow> MonitoredComponent \<Rightarrow> vpn_run \<Rightarrow> py_exn \<Rightarrow> CheckResult" where
  \<comment> \<open>the handler \<open>except Exception\<close>\<close>
  "failure_result rid c run e =
     (let log_tail = read_tail (vr_log run)
      in error_result rid c (vr_failed_at run) (with_hint (exn_str e) (vpn_log_hint log_tail)) (Some (vr_total_ms run)) log_tail)"

definition not_ready_result :: "uuid \<Rightarrow> MonitoredComponent \<Rightarrow> vpn_run \<Rightarrow> string \<Rightarrow> dict \<Rightarrow> CheckResult" where
  "not_ready_result rid c run message network =
     (let log_tail = read_tail (vr_log run)
      in check_result rid c (vr_started_at run) TIMEOUT (Some (vr_total_ms run)) None
           (Some (with_hint message (vpn_log_hint log_tail)))
           [(''check_type'', JStr (mc_check_type c)), (''network'', JObj network), (''log_tail'', opt_str log_tail)])"

definition probed_result ::
  "uuid \<Rightarrow> MonitoredComponent \<Rightarrow> vpn_run \<Rightarrow> CheckOutcome \<Rightarrow> string \<Rightarrow> dict \<Rightarrow> dict \<Rightarrow> dict \<Rightarrow> CheckResult" where
  \<comment> \<open>\<open>CheckOutcome\<close>: of a failed probe; \<open>extra\<close>: details between the check type and the network\<close>
  "probed_result rid c run outcome message p extra network =
     check_result rid c (vr_started_at run) (if probe_ok p then UP else outcome) (Some (vr_total_ms run))
       (json_int (jget p ''status_code'')) (if probe_ok p then None else as_str (jor (jget p ''error'') (JStr message)))
       ([(''check_type'', JStr (mc_check_type c))] @ extra @ [(''network'', JObj network)] @ log_details (read_tail (vr_log run)))"

definition probe_url_of :: "settings \<Rightarrow> MonitoredComponent \<Rightarrow> string" where
  "probe_url_of cfg c = (if mc_check_url c = [] then default_probe_url cfg else mc_check_url c)"

section \<open>Ephemeral OpenVPN\<close>

definition vpn_config_text :: "MonitoredComponent \<Rightarrow> string res" where
  \<comment> \<open>\<open>_config_text\<close>\<close>
  "vpn_config_text c =
     (if \<not> truthy (mc_check_config c) then Inl (ValueError ''Missing VPN config'')
      else case as_dict (mc_check_config c) of
             None \<Rightarrow> Inl (OtherError ''object has no attribute get'')
           | Some d \<Rightarrow>
               (case as_str (jget d ''config_text'') of
                  Some t \<Rightarrow> if strip t = [] then Inl (ValueError ''VPN config_text is required'') else Inr (strip t)
                | None \<Rightarrow> Inl (ValueError ''VPN config_text is required'')))"

definition probe_both ::
  "(string \<Rightarrow> int \<Rightarrow> dict res) \<Rightarrow> settings \<Rightarrow> MonitoredComponent \<Rightarrow> (dict \<times> dict) res" where
  \<comment> \<open>the probe of the component and the one of Google\<close>
  "probe_both probe cfg c =
     (case probe (probe_url_of cfg c) (min 15 (mc_timeout_seconds c)) of
        Inl e \<Rightarrow> Inl e
      | Inr p \<Rightarrow> (case probe (google_probe_url cfg) (min 10 (mc_timeout_seconds c)) of Inl e \<Rightarrow> Inl e | Inr g \<Rightarrow> Inr (p, g)))"

definition with_probes :: "dict \<times> dict \<Rightarrow> dict \<Rightarrow> dict" where
  "with_probes pg network = jset ''google_probe'' (JObj (snd pg)) (jset ''probe'' (JObj (fst pg)) network)"

definition openvpn_tunnel_check ::
  "settings \<Rightarrow> vpn_run \<Rightarrow> uuid \<Rightarrow> SpeedTestRunContext \<Rightarrow> MonitoredComponent \<Rightarrow> host_wan \<Rightarrow> CheckResult res \<times> host_wan" where
  \<comment> \<open>the body of the \<open>try\<close>\<close>
  "openvpn_tunnel_check cfg run rid ctx c hw =
     (case wait_for_tun_interface None None (vr_turns run) of
        None \<Rightarrow> (Inr (not_ready_result rid c run ''OpenVPN tunnel did not come up in time''
                   [(''connect_time_ms'', JInt (vr_connect_ms run))]), hw)
      | Some iface \<Rightarrow>
          let network = jset ''interface'' (JStr iface) (jset ''connect_time_ms'' (JInt (vr_connect_ms run)) (network_details run None iface))
          in (case probe_both (\<lambda>url t. probe_endpoint (vr_send run) url t None (IpFamily_value AUTO)) cfg c of
                Inl e \<Rightarrow> (Inl e, hw)
              | Inr pg \<Rightarrow>
                  let network = with_probes pg network; p = fst pg;
                      (outcome, hw) =
                        (if probe_ok p
                         then tunnel_metrics run None (as_str (jget network ''gateway'')) None (Some iface)
                                (metrics_timeout (mc_timeout_seconds c) (vr_connect_ms run) (probe_latency p)) (speed_test_bytes_for c)
                                ctx network hw
                         else map_prod Inr id (carried_speed_tests ctx (has_upload_memory ctx) network hw))
                  in (case outcome of
                        Inl e \<Rightarrow> (Inl e, hw)
                      | Inr network \<Rightarrow> (Inr (probed_result rid c run DOWN ''Probe through VPN failed'' p [] network), hw))))"

definition caught :: "uuid \<Rightarrow> MonitoredComponent \<Rightarrow> vpn_run \<Rightarrow> CheckResult res \<times> host_wan \<Rightarrow> CheckResult \<times> host_wan" where
  "caught rid c run outcome = (case outcome of (Inl e, hw) \<Rightarrow> (failure_result rid c run e, hw) | (Inr r, hw) \<Rightarrow> (r, hw))"

definition run_openvpn_check ::
  "settings \<Rightarrow> vpn_run \<Rightarrow> uuid \<Rightarrow> SpeedTestRunContext \<Rightarrow> MonitoredComponent \<Rightarrow> host_wan \<Rightarrow> CheckResult res \<times> host_wan" where
  "run_openvpn_check cfg run rid ctx c hw =
     (case vpn_config_text c of
        Inl e \<Rightarrow> (Inl e, hw)
      | Inr _ \<Rightarrow>
          let hw = enter_ephemeral hw
          in (case vr_spawn run of
                Some e \<Rightarrow> (Inl e, leave_ephemeral hw)
              | None \<Rightarrow> map_prod Inr leave_ephemeral (caught rid c run (openvpn_tunnel_check cfg run rid ctx c hw))))"

section \<open>Xray\<close>

fun wait_for_proxy :: "http_result list \<Rightarrow> bool res" where
  \<comment> \<open>the list holds what each attempt before the deadline comes back with\<close>
  "wait_for_proxy [] = Inr False"
| "wait_for_proxy (x # turns) =
     (case x of Responded _ _ _ \<Rightarrow> Inr True | Broken e \<Rightarrow> Inl e | _ \<Rightarrow> wait_for_proxy turns)"

definition xray_tunnel_check ::
  "settings \<Rightarrow> vpn_run \<Rightarrow> uuid \<Rightarrow> SpeedTestRunContext \<Rightarrow> MonitoredComponent \<Rightarrow> json \<Rightarrow> string \<Rightarrow> host_wan \<Rightarrow> CheckResult res \<times> host_wan" where
  "xray_tunnel_check cfg run rid ctx c config proxy_url hw =
     (let connect = (''connect_time_ms'', JInt (vr_connect_ms run)); masked = (''proxy_url'', JStr (mask_proxy proxy_url))
      in case wait_for_proxy (vr_proxy_turns run) of
           Inl e \<Rightarrow> (Inl e, hw)
         | Inr ready \<Rightarrow>
             if \<not> ready then (Inr (not_ready_result rid c run ''Xray proxy did not become ready in time'' [connect, masked]), hw)
             else (case xray_inbound_protocol config of
               Inl e \<Rightarrow> (Inl e, hw)
             | Inr protocol \<Rightarrow>
               (case probe_both (\<lambda>url t. probe_endpoint (vr_send run) url t (Some proxy_url) (IpFamily_value AUTO)) cfg c of
                  Inl e \<Rightarrow> (Inl e, hw)
                | Inr pg \<Rightarrow>
                    let network = with_probes pg [connect, masked, (''inbound_protocol'', opt_str protocol)]; p = fst pg;
                        (outcome, hw) =
                          (if probe_ok p
                           then tunnel_metrics run None None (Some proxy_url) None
                                  (metrics_timeout (mc_timeout_seconds c) (vr_connect_ms run) (probe_latency p)) (speed_test_bytes_for c)
                                  ctx network hw
                           else map_prod Inr id (carried_speed_tests ctx True network hw))
                    in (case outcome of
                          Inl e \<Rightarrow> (Inl e, hw)
                        | Inr network \<Rightarrow> (Inr (probed_result rid c run DOWN ''Probe through Xray proxy failed'' p [] network), hw)))))"

definition run_xray_check ::
  "settings \<Rightarrow> (string \<Rightarrow> string + json) \<Rightarrow> vpn_run \<Rightarrow> uuid \<Rightarrow> SpeedTestRunContext \<Rightarrow> MonitoredComponent \<Rightarrow> host_wan
     \<Rightarrow> CheckResult res \<times> host_wan" where
  "run_xray_check cfg json_loads run rid ctx c hw =
     (let refused = (\<lambda>message. (Inr (error_result rid c (vr_failed_at run) message None None), hw))
      in case vpn_config_text c of
           Inl e \<Rightarrow> (Inl e, hw)
         | Inr config_text \<Rightarrow>
             (case parse_xray_config_text json_loads config_text of
                Inl (BadJson msg) \<Rightarrow> refused (''Invalid Xray config: '' @ msg)
              | Inl (BadConfig e) \<Rightarrow> refused (''Invalid Xray config: '' @ exn_str e)
              | Inr config \<Rightarrow>
                  (case xray_proxy_url config of
                     Inl e \<Rightarrow> (Inl e, hw)
                   | Inr None \<Rightarrow> refused ''Xray config must define a socks or http inbound with port''
                   | Inr (Some proxy_url) \<Rightarrow>
                       (case vr_spawn run of
                          Some e \<Rightarrow> (Inl e, hw)
                        | None \<Rightarrow> map_prod Inr id (caught rid c run (xray_tunnel_check cfg run rid ctx c config proxy_url hw))))))"

section \<open>Any check\<close>

definition run_vpn_health_check ::
  "settings \<Rightarrow> (string \<Rightarrow> string + json) \<Rightarrow> vpn_run \<Rightarrow> uuid \<Rightarrow> MonitoredComponent \<Rightarrow> SpeedTestRunContext option \<Rightarrow> host_wan
     \<Rightarrow> CheckResult res \<times> host_wan" where
  "run_vpn_health_check cfg json_loads run rid c context hw =
     (let ctx = default_to (default_context cfg) context
      in if mc_check_type c = CheckType_value OPENVPN then run_openvpn_check cfg run rid ctx c hw
         else if mc_check_type c = CheckType_value XRAY then run_xray_check cfg json_loads run rid ctx c hw
         else (Inr (error_result rid c (vr_failed_at run) (''Unsupported VPN check type: '' @ mc_check_type c) None None), hw))"

section \<open>The counter of sessions\<close>

lemma attach_keeps_sessions [simp]:
  "hw_ephemeral_sessions (snd (attach_host_wan_baseline_to_network n w s)) = hw_ephemeral_sessions s"
  by (auto simp: attach_host_wan_baseline_to_network_def Let_def split: option.splits)

lemma finish_enrich_sessions [simp]: "hw_ephemeral_sessions (snd (finish_enrich n s)) = hw_ephemeral_sessions s"
  using attach_keeps_sessions [of n None s]
  by (cases "attach_host_wan_baseline_to_network n None s") (simp add: finish_enrich_def)

lemma enrich_keeps_sessions:
  "hw_ephemeral_sessions (snd (enrich_network_metrics md mu ping mtu now clock n g i b ctx s)) = hw_ephemeral_sessions s"
  by (auto simp: enrich_network_metrics_def Let_def simp del: attach_keeps_sessions split: sum.splits prod.splits bool.splits)

lemma tunnel_metrics_sessions [simp]:
  "hw_ephemeral_sessions (snd (tunnel_metrics run ns g px i t b ctx n hw)) = hw_ephemeral_sessions hw"
  by (simp add: tunnel_metrics_def Let_def enrich_keeps_sessions split: sum.splits option.splits)

lemma carried_sessions [simp]: "hw_ephemeral_sessions (snd (carried_speed_tests ctx u n hw)) = hw_ephemeral_sessions hw"
  by (simp add: carried_speed_tests_def Let_def)

lemma caught_state [simp]: "snd (caught rid c run q) = snd q"
  by (cases q) (auto simp: caught_def split: sum.splits)

lemma openvpn_tunnel_sessions [simp]:
  "hw_ephemeral_sessions (snd (openvpn_tunnel_check cfg run rid ctx c hw)) = hw_ephemeral_sessions hw"
proof -
  have split: "hw_ephemeral_sessions (snd (case q of (o1, s) \<Rightarrow> (case o1 of Inl e \<Rightarrow> (Inl e, s) | Inr n \<Rightarrow> (Inr (f n), s)))) = hw_ephemeral_sessions (snd q)"
    for q :: "dict res \<times> host_wan" and f :: "dict \<Rightarrow> CheckResult"
    by (cases q) (auto split: sum.splits)
  show ?thesis
    by (simp add: openvpn_tunnel_check_def Let_def split split: option.split sum.split)
qed

lemma xray_tunnel_sessions [simp]:
  "hw_ephemeral_sessions (snd (xray_tunnel_check cfg run rid ctx c config proxy_url hw)) = hw_ephemeral_sessions hw"
proof -
  have split: "hw_ephemeral_sessions (snd (case q of (o1, s) \<Rightarrow> (case o1 of Inl e \<Rightarrow> (Inl e, s) | Inr n \<Rightarrow> (Inr (f n), s)))) = hw_ephemeral_sessions (snd q)"
    for q :: "dict res \<times> host_wan" and f :: "dict \<Rightarrow> CheckResult"
    by (cases q) (auto split: sum.splits)
  show ?thesis
    by (simp add: xray_tunnel_check_def Let_def split split: option.split sum.split)
qed

text \<open>
  C39. A VPN check leaves the counter of ephemeral OpenVPN sessions as it found it, however the check ends: refused before
  the session is entered, the client not starting, the tunnel not coming up, a probe or a measurement raising, or a result.
\<close>
theorem vpn_check_balances_sessions:
  assumes "0 \<le> hw_ephemeral_sessions hw"
  shows "hw_ephemeral_sessions (snd (run_vpn_health_check cfg json_loads run rid c context hw)) = hw_ephemeral_sessions hw"
proof -
  have "hw_ephemeral_sessions (snd (run_openvpn_check cfg run rid ctx c hw)) = hw_ephemeral_sessions hw" for ctx
    using assms by (simp add: run_openvpn_check_def Let_def enter_ephemeral_def leave_ephemeral_def split: sum.split option.split)
  moreover have "hw_ephemeral_sessions (snd (run_xray_check cfg json_loads run rid ctx c hw)) = hw_ephemeral_sessions hw" for ctx
    by (simp add: run_xray_check_def Let_def split: sum.split option.split xray_refusal.split)
  ultimately show ?thesis
    by (simp add: run_vpn_health_check_def Let_def)
qed

text \<open>While the tunnel is checked the counter is positive, so no measurement of the host's own path runs.\<close>

lemma session_entered: "0 \<le> hw_ephemeral_sessions hw \<Longrightarrow> ephemeral_openvpn_active (enter_ephemeral hw)"
  by (simp add: ephemeral_openvpn_active_def enter_ephemeral_def)

section \<open>The verdict\<close>

text \<open>
  The measurements a check makes after its probe are given between 15 and 30 seconds, whatever the timeout of the
  component and however long the connection and the probe took.
\<close>
theorem metrics_timeout_bounds: "15 \<le> metrics_timeout timeout connect_ms latency \<and> metrics_timeout timeout connect_ms latency \<le> 30"
  by (simp add: metrics_timeout_def)

lemma probe_error_text:
  "probe_endpoint send url t p f = Inr d \<Longrightarrow> m \<noteq> [] \<Longrightarrow> as_str (jor (jget d ''error'') (JStr m)) \<noteq> None"
  by (auto simp: probe_endpoint_def Let_def jget_def jor_def split: http_result.splits)

lemma probe_both_Inr: "probe_both probe cfg c = Inr (p, g) \<Longrightarrow> probe (probe_url_of cfg c) (min 15 (mc_timeout_seconds c)) = Inr p"
  by (auto simp: probe_both_def split: sum.splits)

definition vpn_proxy :: "(string \<Rightarrow> string + json) \<Rightarrow> MonitoredComponent \<Rightarrow> string option" where
  \<comment> \<open>the local proxy an Xray check goes through\<close>
  "vpn_proxy json_loads c =
     (if mc_check_type c = CheckType_value OPENVPN then None
      else case vpn_config_text c of Inl _ \<Rightarrow> None
           | Inr t \<Rightarrow> (case parse_xray_config_text json_loads t of Inl _ \<Rightarrow> None
                      | Inr config \<Rightarrow> (case xray_proxy_url config of Inl _ \<Rightarrow> None | Inr u \<Rightarrow> u)))"

definition tunnel_came_up :: "MonitoredComponent \<Rightarrow> vpn_run \<Rightarrow> bool" where
  "tunnel_came_up c run =
     (if mc_check_type c = CheckType_value OPENVPN then wait_for_tun_interface None None (vr_turns run) \<noteq> None
      else wait_for_proxy (vr_proxy_turns run) = Inr True)"

definition component_probe :: "settings \<Rightarrow> (string \<Rightarrow> string + json) \<Rightarrow> vpn_run \<Rightarrow> MonitoredComponent \<Rightarrow> dict res" where
  "component_probe cfg json_loads run c =
     probe_endpoint (vr_send run) (probe_url_of cfg c) (min 15 (mc_timeout_seconds c)) (vpn_proxy json_loads c) (IpFamily_value AUTO)"

definition faithful_verdict :: "settings \<Rightarrow> (string \<Rightarrow> string + json) \<Rightarrow> vpn_run \<Rightarrow> MonitoredComponent \<Rightarrow> CheckResult \<Rightarrow> bool" where
  "faithful_verdict cfg json_loads run c r \<longleftrightarrow>
     cr_monitored_component_id r = mc_id c
     \<and> (cr_error_message r = None \<longleftrightarrow> cr_outcome r = CheckOutcome_value UP)
     \<and> (cr_outcome r = CheckOutcome_value UP \<longrightarrow> tunnel_came_up c run \<and> (\<exists>p. component_probe cfg json_loads run c = Inr p \<and> probe_ok p))
     \<and> (cr_outcome r = CheckOutcome_value DOWN \<longrightarrow> tunnel_came_up c run \<and> (\<exists>p. component_probe cfg json_loads run c = Inr p \<and> \<not> probe_ok p))
     \<and> (cr_outcome r = CheckOutcome_value TIMEOUT \<longrightarrow> \<not> tunnel_came_up c run)
     \<and> cr_outcome r \<in> CheckOutcome_value ` {UP, DOWN, TIMEOUT, ERROR}"

lemmas result_defs = check_result_def error_result_def failure_result_def not_ready_result_def probed_result_def Let_def

lemma faithful_error: "faithful_verdict cfg jl run c (error_result rid c w m l t)"
  by (simp add: faithful_verdict_def result_defs)

lemma faithful_caught:
  "(\<And>r. fst q = Inr r \<Longrightarrow> faithful_verdict cfg jl run c r) \<Longrightarrow> faithful_verdict cfg jl run c (fst (caught rid c run q))"
  by (cases q) (auto simp: caught_def failure_result_def Let_def faithful_error split: sum.splits)

lemma faithful_probed:
  assumes "tunnel_came_up c run" "component_probe cfg jl run c = Inr p" "m \<noteq> []"
  shows "faithful_verdict cfg jl run c (probed_result rid c run DOWN m p extra network)"
  using assms probe_error_text [OF assms(2) [unfolded component_probe_def] assms(3)]
  by (auto simp: faithful_verdict_def result_defs)

lemma openvpn_tunnel_faithful:
  assumes "mc_check_type c = CheckType_value OPENVPN" "fst (openvpn_tunnel_check cfg run rid ctx c hw) = Inr r"
  shows "faithful_verdict cfg jl run c r"
proof (cases "wait_for_tun_interface None None (vr_turns run)")
  case None
  then show ?thesis
    using assms by (auto simp: openvpn_tunnel_check_def faithful_verdict_def result_defs tunnel_came_up_def)
next
  case (Some iface)
  then have up: "tunnel_came_up c run" using assms(1) by (simp add: tunnel_came_up_def)
  obtain p g where pg: "probe_both (\<lambda>url t. probe_endpoint (vr_send run) url t None (IpFamily_value AUTO)) cfg c = Inr (p, g)"
    using assms(2) Some by (auto simp: openvpn_tunnel_check_def Let_def split: sum.splits)
  then have p: "component_probe cfg jl run c = Inr p"
    using assms(1) by (auto dest: probe_both_Inr simp: component_probe_def vpn_proxy_def)
  show ?thesis
    using assms(2) Some pg faithful_probed [OF up p]
    by (auto simp: openvpn_tunnel_check_def Let_def split: prod.splits sum.splits)
qed


lemma xray_tunnel_faithful:
  assumes "mc_check_type c \<noteq> CheckType_value OPENVPN" "vpn_proxy json_loads c = Some u"
    and "fst (xray_tunnel_check cfg run rid ctx c config u hw) = Inr r"
  shows "faithful_verdict cfg json_loads run c r"
proof (cases "wait_for_proxy (vr_proxy_turns run)")
  case (Inl e)
  then show ?thesis using assms(3) by (simp add: xray_tunnel_check_def)
next
  case (Inr ready)
  show ?thesis
  proof (cases ready)
    case False
    then show ?thesis
      using assms Inr by (auto simp: xray_tunnel_check_def faithful_verdict_def result_defs tunnel_came_up_def)
  next
    case True
    then have up: "tunnel_came_up c run" using assms(1) Inr by (simp add: tunnel_came_up_def)
    obtain p g where pg: "probe_both (\<lambda>url t. probe_endpoint (vr_send run) url t (Some u) (IpFamily_value AUTO)) cfg c = Inr (p, g)"
      using assms(3) Inr True by (auto simp: xray_tunnel_check_def Let_def split: sum.splits)
    then have p: "component_probe cfg json_loads run c = Inr p"
      using assms(2) by (auto dest: probe_both_Inr simp: component_probe_def)
    show ?thesis
      using assms(3) Inr True pg faithful_probed [OF up p]
      by (auto simp: xray_tunnel_check_def Let_def split: prod.splits sum.splits)
  qed
qed

text \<open>
  C18. The stored verdict of a VPN check is faithful to what happened: it belongs to the component and has a message unless
  the component is up; up and down mean that the tunnel (or the local proxy) came up and that the probe through it
  succeeded or failed, a timeout that the tunnel did not come up in time; everything else is reported as an error.
\<close>
theorem vpn_verdict_faithful:
  assumes "fst (run_vpn_health_check cfg json_loads run rid c context hw) = Inr r"
  shows "faithful_verdict cfg json_loads run c r"
proof -
  let ?ctx = "default_to (default_context cfg) context"
  consider (o) "mc_check_type c = CheckType_value OPENVPN" | (x) "mc_check_type c = CheckType_value XRAY"
    | (n) "mc_check_type c \<noteq> CheckType_value OPENVPN" "mc_check_type c \<noteq> CheckType_value XRAY" by blast
  then show ?thesis
  proof cases
    case o
    have "r = fst (caught rid c run (openvpn_tunnel_check cfg run rid ?ctx c (enter_ephemeral hw)))"
      using assms o by (auto simp: run_vpn_health_check_def run_openvpn_check_def Let_def split: sum.splits option.splits)
    then show ?thesis
      using faithful_caught openvpn_tunnel_faithful [OF o] by metis
  next
    case x
    have nx: "mc_check_type c \<noteq> CheckType_value OPENVPN" using x by simp
    have "(\<exists>w m. r = error_result rid c w m None None)
          \<or> (\<exists>u config. vpn_proxy json_loads c = Some u \<and> r = fst (caught rid c run (xray_tunnel_check cfg run rid ?ctx c config u hw)))"
      using assms x by (auto simp: run_vpn_health_check_def run_xray_check_def vpn_proxy_def Let_def
          split: sum.splits option.splits xray_refusal.splits)
    then show ?thesis
      using faithful_caught xray_tunnel_faithful [OF nx] faithful_error by metis
  qed (use assms in \<open>auto simp: run_vpn_health_check_def Let_def faithful_error\<close>)
qed

section \<open>Checks of every type\<close>

record check_run =
  ck_rid :: uuid
  ck_vpn :: vpn_run
  ck_at :: instant
  ck_before :: rat
  ck_after :: rat
  ck_cache :: egress_cache

definition run_health_check ::
  "settings \<Rightarrow> (string \<Rightarrow> string + json) \<Rightarrow> (MonitoredComponent \<Rightarrow> check_run) \<Rightarrow> health_check" where
  \<comment> \<open>\<open>health_check_service.run_health_check\<close>; the argument tells what happens during the check of each component\<close>
  "run_health_check cfg json_loads happens c context hw =
     (let k = happens c
      in if mc_check_type c \<in> set VPN_CHECK_TYPES then run_vpn_health_check cfg json_loads (ck_vpn k) (ck_rid k) c context hw
         else (fst (run_http_health_check cfg (vr_send (ck_vpn k)) json_loads (ck_rid k) (ck_at k) (ck_before k) (ck_after k) c (ck_cache k)),
               hw))"

lemma run_checks_raise:
  assumes "c \<in> set cs" "\<And>ctx hw. isl (fst (health_check c ctx hw))"
  shows "isl (fst (run_checks cfg health_check cs allowed clock st))"
  using assms
proof (induction cs arbitrary: st)
  case (Cons x xs)
  have raise: "isl (fst (run_check cfg health_check c al now s))" for al now s
    using assms(2) by (auto simp: run_check_def Let_def split: prod.splits sum.splits) (metis fst_conv sum.disc(2))
  obtain q st' where q: "run_check cfg health_check x (Some allowed) (clock (mc_id x)) st = (q, st')" by (metis surj_pair)
  show ?case
  proof (cases q)
    case (Inr r)
    then have "x \<noteq> c" using raise [of "Some allowed" "clock (mc_id x)" st] q by auto
    then have "isl (fst (run_checks cfg health_check xs allowed clock st'))"
      using Cons by simp
    then show ?thesis using q Inr by (auto split: prod.splits sum.splits)
  qed (use q in simp)
qed simp

text \<open>
  C40. A check that raises ends the whole cycle: when one of the due components has a check that always raises, the cycle
  raises too and the database is as it was before, no result of any component is stored and no component is marked as
  checked, so that the same components are due again and the next cycle fails in the same way.
\<close>
theorem raising_check_stops_cycle:
  assumes "c \<in> set (fst (list_due_components cfg now_due db))" "\<And>ctx hw. isl (fst (health_check c ctx hw))"
  shows "isl (fst (run_due_checks cfg sha256_hex health_check host_wan_cycle now_due now_pick clock (db, hw)))
         \<and> fst (snd (run_due_checks cfg sha256_hex health_check host_wan_cycle now_due now_pick clock (db, hw))) = db"
proof -
  obtain due db1 where due: "list_due_components cfg now_due db = (due, db1)" by fastforce
  obtain ms db2 where ms: "get_monitoring_settings cfg db1 = (ms, db2)" by fastforce
  obtain w hw1 where w: "host_wan_cycle ms hw = (w, hw1)" by fastforce
  have "c \<in> set (due_order due)" using assms(1) due by (simp add: due_order_def)
  from run_checks_raise [where health_check = health_check, OF this assms(2)]
  have "isl (fst (run_checks cfg health_check (due_order due) (cycle_allowed sha256_hex (due_order due) ms now_pick db2) clock (db2, hw1)))" .
  then show ?thesis
    by (auto simp: run_due_checks_def due ms w Let_def split: sum.splits prod.splits)
qed

section \<open>Configurations that make a check raise\<close>

lemma missing_config_raises:
  assumes "mc_check_type c \<in> set VPN_CHECK_TYPES" "mc_check_config c = JNull"
  shows "run_health_check cfg json_loads happens c context hw = (Inl (ValueError ''Missing VPN config''), hw)"
  using assms by (auto simp: run_health_check_def run_vpn_health_check_def run_openvpn_check_def run_xray_check_def vpn_config_text_def
      VPN_CHECK_TYPES_def Let_def)


definition sample_ip :: ip_tool where
  "sample_ip cmd =
     (if last cmd = ''link'' then Some (JArr [JObj [(''ifname'', JStr ''lo'')], JObj [(''ifname'', JStr ''tun0'')]])
      else if ''addr'' \<in> set cmd
      then Some (JArr [JObj [(''flags'', JArr [JStr ''UP'']),
                            (''addr_info'', JArr [JObj [(''family'', JStr ''inet''), (''local'', JStr ''10.8.0.2''), (''prefixlen'', JInt 24)]])]])
      else None)"

definition sample_run :: vpn_run where
  "sample_run =
     \<lparr>vr_started_at = 0, vr_failed_at = 1, vr_spawn = None, vr_turns = [\<lambda>_. None, sample_ip], vr_proxy_turns = [],
      vr_connect_ms = 700, vr_total_ms = 900, vr_log = None, vr_ip = sample_ip, vr_resolv = None,
      vr_send = (\<lambda>_. \<lparr>hx_result = Responded 200 None ''203.0.113.9'', hx_seconds = 0\<rparr>),
      vr_get = sample_get, vr_post = (\<lambda>url n proxy timeout. \<lparr>tr_end = Completed, tr_bytes = 0, tr_seconds = 1\<rparr>),
      vr_shell = (\<lambda>_. \<lparr>px_result = NotFound ''ping'', px_seconds = 0\<rparr>), vr_now = 0, vr_clock = 0\<rparr>"

definition sample_check_run :: "MonitoredComponent \<Rightarrow> check_run" where
  "sample_check_run c = \<lparr>ck_rid = ''r1'', ck_vpn = sample_run, ck_at = 0, ck_before = 0, ck_after = 0, ck_cache = []\<rparr>"

definition sample_vpn_component :: MonitoredComponent where
  "sample_vpn_component = sample_component\<lparr>mc_check_config := JObj [(''config_text'', JStr ''client dev tun'')]\<rparr>"

lemma raising_check_stops_cycle_witness:
  "isl (fst (run_due_checks sample_cfg (\<lambda>_. ''0'') (run_health_check sample_cfg (\<lambda>_. Inl ''x'') sample_check_run) no_wan
               1000000000 1000000000 (\<lambda>_. 1000000000) (sample_database, fresh_process None)))"
proof -
  have "sample_component \<in> set (due_order (fst (list_due_components sample_cfg 1000000000 sample_database)))"
    by (simp add: sample_due)
  then have "sample_component \<in> set (fst (list_due_components sample_cfg 1000000000 sample_database))"
    by (simp add: due_order_def)
  moreover have "isl (fst (run_health_check sample_cfg (\<lambda>_. Inl ''x'') sample_check_run sample_component ctx hw))" for ctx hw
    by (subst missing_config_raises) (simp_all add: sample_component_def VPN_CHECK_TYPES_def)
  ultimately show ?thesis
    by (blast dest: raising_check_stops_cycle)
qed

lemma vpn_check_balances_sessions_witness:
  "hw_ephemeral_sessions (snd (run_vpn_health_check sample_cfg (\<lambda>_. Inl ''x'') sample_run ''r1'' sample_vpn_component None (fresh_process None))) = 0"
  using vpn_check_balances_sessions [of "fresh_process None" sample_cfg "\<lambda>_. Inl ''x''" sample_run "''r1''" sample_vpn_component None]
  by (simp add: fresh_process_def)

definition sample_answer :: "string \<Rightarrow> string \<Rightarrow> dict" where
  "sample_answer url f =
     [(''ok'', JBool True), (''url'', JStr url), (''status_code'', JInt 200), (''latency_ms'', JInt 0),
      (''exit_ip'', JStr ''203.0.113.9''), (''body_preview'', JStr ''203.0.113.9''), (''ip_family'', JStr f)]"

lemma sample_probe: "probe_endpoint (vr_send sample_run) url t p f = Inr (sample_answer url f)"
proof -
  have "strip ''203.0.113.9'' = ''203.0.113.9''" "first_line ''203.0.113.9'' = Some ''203.0.113.9''" by code_simp+
  then show ?thesis
    by (simp add: probe_endpoint_def sample_run_def elapsed_ms_def trunc_def opt_str_def Let_def sample_answer_def)
qed

lemma sample_probe_ok [simp]: "probe_ok (sample_answer url f)"
  by (simp add: probe_ok_def sample_answer_def jget_def)

lemma deferred_metrics:
  assumes "\<not> rc_run_speed_test ctx" "has_upload_memory ctx" "nonempty_str gateway = None"
  shows "\<exists>n s. tunnel_metrics run ns gateway px i t b ctx network hw = (Inr n, s)"
  using assms
  by (simp add: tunnel_metrics_def live_failure_def enrich_network_metrics_def enrich_deferred_def finish_enrich_def Let_def
      split: sum.split prod.split)

lemma sample_vpn_up:
  "\<exists>r. fst (run_vpn_health_check sample_cfg (\<lambda>_. Inl ''x'') sample_run ''r1'' sample_vpn_component (Some sample_context) (fresh_process None)) = Inr r
     \<and> cr_outcome r = CheckOutcome_value UP"
proof -
  have iface: "wait_for_tun_interface None None (vr_turns sample_run) = Some ''tun0''"
    by code_simp
  have cfg: "vpn_config_text sample_vpn_component = Inr ''client dev tun''"
    by code_simp
  have ctx: "\<not> rc_run_speed_test sample_context" "has_upload_memory sample_context"
    by (simp_all add: sample_context_def has_upload_memory_def sample_row_def)
  have gw: "nonempty_str (as_str (jget (with_probes pg (jset ''interface'' (JStr ''tun0'') (jset ''connect_time_ms'' (JInt (vr_connect_ms sample_run))
             (network_details sample_run None ''tun0'')))) ''gateway'')) = None" for pg
    by (simp add: network_details_def collect_network_details_def sample_run_def ip_rows_def ip_command_def sample_ip_def with_probes_def
        nonempty_str_def Let_def jget_def jset_def)
  let ?pg = "(sample_answer (probe_url_of sample_cfg sample_vpn_component) (IpFamily_value AUTO), sample_answer (google_probe_url sample_cfg) (IpFamily_value AUTO))"
  have pg: "probe_both (\<lambda>url t. probe_endpoint (vr_send sample_run) url t None (IpFamily_value AUTO)) sample_cfg sample_vpn_component = Inr ?pg"
    by (simp add: probe_both_def sample_probe)
  have tunnel: "\<exists>r hw'. openvpn_tunnel_check sample_cfg sample_run ''r1'' sample_context sample_vpn_component hw = (Inr r, hw')
          \<and> cr_outcome r = CheckOutcome_value UP" for hw
  proof -
    let ?n = "with_probes ?pg (jset ''interface'' (JStr ''tun0'') (jset ''connect_time_ms'' (JInt (vr_connect_ms sample_run))
             (network_details sample_run None ''tun0'')))"
    obtain n s where "tunnel_metrics sample_run None (as_str (jget ?n ''gateway'')) None (Some ''tun0'')
          (metrics_timeout (mc_timeout_seconds sample_vpn_component) (vr_connect_ms sample_run) (probe_latency (fst ?pg)))
          (speed_test_bytes_for sample_vpn_component) sample_context ?n hw = (Inr n, s)"
      using deferred_metrics [OF ctx gw] by blast
    then have "openvpn_tunnel_check sample_cfg sample_run ''r1'' sample_context sample_vpn_component hw
        = (Inr (probed_result ''r1'' sample_vpn_component sample_run DOWN ''Probe through VPN failed'' (fst ?pg) [] n), s)"
      by (simp only: openvpn_tunnel_check_def iface pg Let_def option.case sum.case prod.case fst_conv sample_probe_ok if_True)
    then show ?thesis by (simp add: probed_result_def check_result_def)
  qed
  show ?thesis
  proof -
    obtain r hw' where r: "openvpn_tunnel_check sample_cfg sample_run ''r1'' sample_context sample_vpn_component
        (enter_ephemeral (fresh_process None)) = (Inr r, hw')" "cr_outcome r = CheckOutcome_value UP"
      using tunnel by blast
    have "vr_spawn sample_run = None" "mc_check_type sample_vpn_component = CheckType_value OPENVPN"
      by (simp_all add: sample_run_def sample_vpn_component_def sample_component_def)
    with r show ?thesis
      by (simp add: run_vpn_health_check_def run_openvpn_check_def cfg Let_def caught_def default_to_def)
  qed
qed

lemma vpn_verdict_faithful_witness:
  "\<exists>r. fst (run_vpn_health_check sample_cfg (\<lambda>_. Inl ''x'') sample_run ''r1'' sample_vpn_component (Some sample_context) (fresh_process None)) = Inr r
     \<and> cr_outcome r = CheckOutcome_value UP \<and> tunnel_came_up sample_vpn_component sample_run"
proof -
  obtain r where r: "fst (run_vpn_health_check sample_cfg (\<lambda>_. Inl ''x'') sample_run ''r1'' sample_vpn_component (Some sample_context) (fresh_process None)) = Inr r"
      "cr_outcome r = CheckOutcome_value UP"
    using sample_vpn_up by blast
  then show ?thesis using vpn_verdict_faithful [OF r(1)] by (auto simp: faithful_verdict_def)
qed

end
