(* ===== verification/OpenVpnSession.thy ===== *)
theory OpenVpnSession
  imports VpnCheck
begin

text \<open>
  The life of a persistent OpenVPN session: \<open>src/app/services/openvpn_session.py\<close> with the namespaces of
  \<open>vpn_netns.py\<close>. What a session occupies on the machine is a state: the network namespaces, the running clients (by their
  TUN device) and the temporary directories. The commands run with \<open>subprocess.check_call\<close> are an argument that tells
  which of them fail; deleting a namespace and ending a client are taken to succeed, as the code ignores their failures.
\<close>

section \<open>What a session occupies\<close>

record occupied =
  oc_netns :: "string list"
  oc_clients :: "string list"
  oc_dirs :: "string list"

datatype call_error =
    CalledProcessError int string \<comment> \<open>the exit code and the text\<close>
  | CallFailed py_exn \<comment> \<open>any other exception\<close>

datatype session_exn = NetnsRefused string | SessionFailed string

record start_run =
  sn_listed :: "string list" \<comment> \<open>the namespaces \<open>ip netns list\<close> names\<close>
  sn_call :: "string list \<Rightarrow> call_error option"
  sn_dir :: string
  sn_spawn :: "string option" \<comment> \<open>the text of the exception when the client cannot be started\<close>
  sn_turns :: "ip_tool list"
  sn_ip :: ip_tool
  sn_log :: "string option"
  sn_settle :: "ip_tool list" \<comment> \<open>turns of the wait after the move\<close>
  sn_connect_ms :: int

record session_handle =
  sh_component_id :: uuid
  sh_netns :: string
  sh_iface :: string
  sh_tmpdir :: string
  sh_connect_ms :: int

record session_start =
  ss_handle :: "session_handle option"
  ss_log_tail :: "string option"
  ss_error_message :: "string option"

definition call_text :: "call_error \<Rightarrow> string" where
  "call_text e = (case e of CalledProcessError _ t \<Rightarrow> t | CallFailed e \<Rightarrow> exn_str e)"

section \<open>Namespaces\<close>

definition netns_refused_text :: "string \<Rightarrow> int \<Rightarrow> string" where
  "netns_refused_text name code =
     ''Failed to create network namespace '' @ quoted name @ '' (exit '' @ int_str code @ '').''
     @ '' Persistent OpenVPN needs SYS_ADMIN plus security_opt apparmor:unconfined (Docker's default AppArmor denies mount used by `ip netns add`).''
     @ '' Ephemeral OpenVPN checks only need NET_ADMIN + /dev/net/tun.''"

definition ensure_netns :: "start_run \<Rightarrow> string \<Rightarrow> occupied \<Rightarrow> session_exn option \<times> occupied" where
  "ensure_netns run name oc =
     (if name \<in> set (sn_listed run) then (None, oc)
      else case sn_call run [''ip'', ''netns'', ''add'', name] of
             Some (CalledProcessError code _) \<Rightarrow> (Some (NetnsRefused (netns_refused_text name code)), oc)
           | Some (CallFailed e) \<Rightarrow> (Some (SessionFailed (exn_str e)), oc)
           | None \<Rightarrow>
               let oc = oc\<lparr>oc_netns := oc_netns oc @ [name]\<rparr>
               in (case sn_call run [''ip'', ''netns'', ''exec'', name, ''ip'', ''link'', ''set'', ''lo'', ''up''] of
                     Some e \<Rightarrow> (Some (SessionFailed (call_text e)), oc)
                   | None \<Rightarrow> (None, oc)))"

definition delete_netns :: "string \<Rightarrow> occupied \<Rightarrow> occupied" where
  "delete_netns name oc = oc\<lparr>oc_netns := removeAll name (oc_netns oc)\<rparr>"

definition vpn_netns_nameserver_lines :: "settings \<Rightarrow> string" where
  \<comment> \<open>\<open>probe_defaults.py\<close>\<close>
  "vpn_netns_nameserver_lines cfg =
     (let servers = filter (\<lambda>p. p \<noteq> []) (map strip (pieces_at (CHR '','') (cfg_vpn_netns_dns_servers cfg)));
          servers = (if servers = [] then [''1.1.1.1'', ''8.8.8.8''] else servers)
      in concat (map (\<lambda>server. ''nameserver '' @ server @ [CHR 0x0A]) servers))"

section \<open>Start and stop\<close>

definition release :: "string \<Rightarrow> string \<Rightarrow> string \<Rightarrow> occupied \<Rightarrow> occupied" where
  \<comment> \<open>\<open>_terminate_process\<close>, \<open>_cleanup_persistent_tmpdir\<close>, \<open>delete_netns\<close>\<close>
  "release device dir netns oc =
     delete_netns netns (oc\<lparr>oc_clients := removeAll device (oc_clients oc), oc_dirs := removeAll dir (oc_dirs oc)\<rparr>)"

fun settled :: "string \<Rightarrow> string \<Rightarrow> ip_tool list \<Rightarrow> bool" where
  \<comment> \<open>the wait for the moved interface\<close>
  "settled netns iface [] = False"
| "settled netns iface (ip # turns) = (interface_is_up ip (Some netns) iface \<or> settled netns iface turns)"

definition not_started :: "string option \<Rightarrow> string \<Rightarrow> session_start" where
  "not_started log_tail message = \<lparr>ss_handle = None, ss_log_tail = log_tail, ss_error_message = Some message\<rparr>"

definition not_up_text :: "string \<Rightarrow> string \<Rightarrow> (string \<times> int) list \<Rightarrow> string option \<Rightarrow> string" where
  "not_up_text iface netns addresses gateway =
     ''TUN '' @ iface @ '' was not up after moving into netns '' @ netns @ '' (addresses=[''
     @ join '', '' (map (\<lambda>(a, prefixlen). ''('' @ quoted a @ '', '' @ int_str prefixlen @ '')'') addresses)
     @ ''], gateway='' @ (case gateway of None \<Rightarrow> ''None'' | Some g \<Rightarrow> quoted g) @ '')''"

definition start_openvpn_persistent_session ::
  "start_run \<Rightarrow> MonitoredComponent \<Rightarrow> occupied \<Rightarrow> (session_exn + session_start) \<times> occupied" where
  "start_openvpn_persistent_session run c oc =
     (let netns = netns_name_for_component (mc_id c); tun_dev = tun_name_for_component (mc_id c); log_tail = read_tail (sn_log run)
      in case vpn_config_text c of
           Inl e \<Rightarrow> (Inl (SessionFailed (exn_str e)), oc)
         | Inr _ \<Rightarrow>
             (case ensure_netns run netns oc of
                (Some e, oc) \<Rightarrow> (Inl e, oc)
              | (None, oc) \<Rightarrow>
                  let oc = oc\<lparr>oc_dirs := oc_dirs oc @ [sn_dir run]\<rparr>
                  in (case sn_spawn run of
                        Some e \<Rightarrow> (Inl (SessionFailed e), oc)
                      | None \<Rightarrow>
                          let oc = oc\<lparr>oc_clients := oc_clients oc @ [tun_dev]\<rparr>;
                              free = release tun_dev (sn_dir run) netns
                          in (case wait_for_tun_interface None (Some tun_dev) (sn_turns run) of
                                None \<Rightarrow>
                                  (Inr (not_started log_tail (with_hint ''OpenVPN tunnel did not come up in time'' (vpn_log_hint log_tail))), free oc)
                              | Some iface \<Rightarrow>
                                  let addresses = tun_ipv4_addresses (sn_ip run) None iface;
                                      gateway = resolve_tun_gateway (sn_ip run) None log_tail iface
                                  in (case move_iface_to_netns (sn_call run) iface netns addresses gateway of
                                     Some (CalledProcessError _ t) \<Rightarrow>
                                       (Inr (not_started log_tail (''Failed to move TUN into netns '' @ quoted netns @ '': '' @ t)), free oc)
                                   | Some (CallFailed e) \<Rightarrow> (Inl (SessionFailed (exn_str e)), oc)
                                   | None \<Rightarrow>
                                       if settled netns iface (sn_settle run)
                                       then (Inr \<lparr>ss_handle = Some \<lparr>sh_component_id = mc_id c, sh_netns = netns, sh_iface = iface,
                                                    sh_tmpdir = sn_dir run, sh_connect_ms = sn_connect_ms run\<rparr>,
                                                  ss_log_tail = None, ss_error_message = None\<rparr>, oc)
                                       else (Inr (not_started log_tail (not_up_text iface netns addresses gateway)), free oc))))))"

definition stop_openvpn_persistent_session :: "session_handle \<Rightarrow> occupied \<Rightarrow> occupied" where
  \<comment> \<open>the client of the handle is the one of its component's device\<close>
  "stop_openvpn_persistent_session h = release (tun_name_for_component (sh_component_id h)) (sh_tmpdir h) (sh_netns h)"

section \<open>Probing a session\<close>

definition is_openvpn_persistent_session_up :: "bool \<Rightarrow> ip_tool \<Rightarrow> session_handle \<Rightarrow> bool" where
  "is_openvpn_persistent_session_up running ip h = (running \<and> interface_is_up ip (Some (sh_netns h)) (sh_iface h))"

definition resolve_persistent_gateway :: "ip_tool \<Rightarrow> string option \<Rightarrow> session_handle \<Rightarrow> string option" where
  "resolve_persistent_gateway ip content h = resolve_tun_gateway ip (Some (sh_netns h)) (read_tail content) (sh_iface h)"

definition session_fields :: "string \<Rightarrow> dict" where
  "session_fields session_event =
     [(''connection_mode'', JStr (ConnectionMode_value PERSISTENT)), (''session_event'', JStr session_event)]"

definition tunnel_down_result :: "uuid \<Rightarrow> MonitoredComponent \<Rightarrow> session_handle \<Rightarrow> vpn_run \<Rightarrow> string \<Rightarrow> CheckResult" where
  "tunnel_down_result rid c h run session_event =
     check_result rid c (vr_started_at run) DOWN (Some (vr_total_ms run)) None (Some ''OpenVPN tunnel is down'')
       ([(''check_type'', JStr (mc_check_type c))] @ session_fields session_event
        @ [(''network'', JObj [(''connect_time_ms'', JInt (sh_connect_ms h))]), (''log_tail'', opt_str (read_tail (vr_log run)))])"

definition run_openvpn_persistent_probe ::
  "settings \<Rightarrow> vpn_run \<Rightarrow> bool \<Rightarrow> uuid \<Rightarrow> SpeedTestRunContext \<Rightarrow> string \<Rightarrow> MonitoredComponent \<Rightarrow> session_handle \<Rightarrow> host_wan
     \<Rightarrow> CheckResult res \<times> host_wan" where
  "run_openvpn_persistent_probe cfg run running rid ctx session_event c h hw =
     (let netns = Some (sh_netns h)
      in if \<not> is_openvpn_persistent_session_up running (vr_ip run) h then (Inr (tunnel_down_result rid c h run session_event), hw)
         else case probe_both (\<lambda>url t. probe_endpoint_via_curl (vr_shell run) url t (sh_netns h) (IpFamily_value AUTO)) cfg c of
                Inl e \<Rightarrow> (Inl e, hw)
              | Inr pg \<Rightarrow>
                  let network = with_probes pg (jset ''interface'' (JStr (sh_iface h)) (jset ''connect_time_ms'' (JInt (sh_connect_ms h))
                                  (network_details run netns (sh_iface h)))); p = fst pg;
                      (outcome, hw) =
                        (if probe_ok p
                         then tunnel_metrics run netns (as_str (jget network ''gateway'')) None (Some (sh_iface h))
                                (metrics_timeout (mc_timeout_seconds c) (sh_connect_ms h) (probe_latency p)) (speed_test_bytes_for c)
                                ctx network hw
                         else map_prod Inr id (carried_speed_tests ctx (has_upload_memory ctx) network hw))
                  in (case outcome of
                        Inl e \<Rightarrow> (Inl e, hw)
                      | Inr network \<Rightarrow>
                          (Inr (probed_result rid c run DEGRADED ''Probe through VPN failed while tunnel is up'' p
                                  (session_fields session_event) network), hw)))"

section \<open>What a start leaves behind\<close>

definition unoccupied :: "start_run \<Rightarrow> MonitoredComponent \<Rightarrow> occupied \<Rightarrow> bool" where
  \<comment> \<open>nothing of a session of this component is on the machine, and \<open>ip netns list\<close> agrees\<close>
  "unoccupied run c oc \<longleftrightarrow>
     netns_name_for_component (mc_id c) \<notin> set (oc_netns oc) \<and> netns_name_for_component (mc_id c) \<notin> set (sn_listed run)
     \<and> tun_name_for_component (mc_id c) \<notin> set (oc_clients oc) \<and> sn_dir run \<notin> set (oc_dirs oc)"

lemma ensure_netns_created:
  "ensure_netns run name oc = (None, oc') \<Longrightarrow> name \<notin> set (sn_listed run) \<Longrightarrow> oc' = oc\<lparr>oc_netns := oc_netns oc @ [name]\<rparr>"
  by (auto simp: ensure_netns_def Let_def split: option.splits call_error.splits if_splits)

lemma release_started:
  assumes "unoccupied run c oc"
  shows "release (tun_name_for_component (mc_id c)) (sn_dir run) (netns_name_for_component (mc_id c))
           (oc\<lparr>oc_netns := oc_netns oc @ [netns_name_for_component (mc_id c)], oc_dirs := oc_dirs oc @ [sn_dir run],
               oc_clients := oc_clients oc @ [tun_name_for_component (mc_id c)]\<rparr>) = oc"
  using assms by (cases oc) (simp add: release_def delete_netns_def unoccupied_def removeAll_id)

lemma start_session_cases:
  assumes "start_openvpn_persistent_session run c oc = (Inr s, oc')" "unoccupied run c oc"
  shows "(ss_handle s = None \<and> ss_error_message s \<noteq> None \<and> oc' = oc)
    \<or> (\<exists>h. ss_handle s = Some h \<and> ss_error_message s = None \<and> sh_component_id h = mc_id c \<and> sh_tmpdir h = sn_dir run
          \<and> sh_netns h = netns_name_for_component (mc_id c) \<and> settled (sh_netns h) (sh_iface h) (sn_settle run)
          \<and> oc' = oc\<lparr>oc_netns := oc_netns oc @ [netns_name_for_component (mc_id c)], oc_dirs := oc_dirs oc @ [sn_dir run],
                     oc_clients := oc_clients oc @ [tun_name_for_component (mc_id c)]\<rparr>)"
  using assms(1) release_started [OF assms(2)] assms(2)
  by (auto simp: start_openvpn_persistent_session_def Let_def not_started_def unoccupied_def
      split: sum.splits prod.splits option.splits call_error.splits if_splits dest!: ensure_netns_created)

text \<open>
  C24. Starting a persistent session that is answered, rather than interrupted by an exception, either yields a session
  whose interface was seen up in its namespace, or an error message and a machine with no trace of the attempt; and
  stopping the session that was started removes its client, its directory and its namespace and nothing else.
\<close>
theorem session_start_and_stop:
  assumes "start_openvpn_persistent_session run c oc = (Inr s, oc')" "unoccupied run c oc"
  shows "case ss_handle s of
           None \<Rightarrow> ss_error_message s \<noteq> None \<and> oc' = oc
         | Some h \<Rightarrow> settled (sh_netns h) (sh_iface h) (sn_settle run) \<and> tun_name_for_component (mc_id c) \<in> set (oc_clients oc')
                     \<and> stop_openvpn_persistent_session h oc' = oc"
  using start_session_cases [OF assms] release_started [OF assms(2)]
  by (auto simp: stop_openvpn_persistent_session_def)

definition sample_start :: start_run where
  "sample_start =
     \<lparr>sn_listed = [], sn_call = (\<lambda>_. None), sn_dir = ''/tmp/sg-openvpn-persist-1'', sn_spawn = None, sn_turns = [],
      sn_ip = (\<lambda>_. None), sn_log = Some ''TLS Error: handshake failed'', sn_settle = [], sn_connect_ms = 60000\<rparr>"

definition nothing_occupied :: occupied where "nothing_occupied = \<lparr>oc_netns = [], oc_clients = [], oc_dirs = []\<rparr>"

lemma session_start_and_stop_witness:
  "\<exists>s. start_openvpn_persistent_session sample_start sample_vpn_component nothing_occupied = (Inr s, nothing_occupied)
     \<and> ss_error_message s \<noteq> None"
proof -
  have cfg: "vpn_config_text sample_vpn_component = Inr ''client dev tun''"
    by code_simp
  obtain s oc' where s: "start_openvpn_persistent_session sample_start sample_vpn_component nothing_occupied = (Inr s, oc')" "ss_handle s = None"
    by (simp add: start_openvpn_persistent_session_def cfg ensure_netns_def sample_start_def not_started_def Let_def)
  have "unoccupied sample_start sample_vpn_component nothing_occupied"
    by (simp add: unoccupied_def sample_start_def nothing_occupied_def)
  from session_start_and_stop [OF s(1) this] s show ?thesis by auto
qed

text \<open>An exception leaves what was set up before it.\<close>

lemma failed_client_leaves_directory:
  assumes "vpn_config_text c = Inr t" "netns_name_for_component (mc_id c) \<in> set (sn_listed run)" "sn_spawn run = Some e"
  shows "start_openvpn_persistent_session run c oc = (Inl (SessionFailed e), oc\<lparr>oc_dirs := oc_dirs oc @ [sn_dir run]\<rparr>)"
  using assms by (simp add: start_openvpn_persistent_session_def ensure_netns_def Let_def)

lemma names_of_equal_prefixes:
  assumes "uuid_prefix a = uuid_prefix b"
  shows "netns_name_for_component a = netns_name_for_component b \<and> tun_name_for_component a = tun_name_for_component b"
  using assms by (simp add: netns_name_for_component_def tun_name_for_component_def)

section \<open>The verdict of a probe\<close>

lemma curl_probe_error_text:
  "probe_endpoint_via_curl run url t ns f = Inr d \<Longrightarrow> m \<noteq> [] \<Longrightarrow> as_str (jor (jget d ''error'') (JStr m)) \<noteq> None"
  by (auto simp: probe_endpoint_via_curl_def Let_def jget_def jor_def split: process_result.splits sum.splits if_splits prod.splits option.splits)

text \<open>
  The probe of a persistent session stores down exactly when the session is down (its client ended or its interface is
  not up), up exactly when the session is up and the probe inside its namespace succeeded, and degraded when the tunnel is
  up and the probe failed; only an up result has no message, and no state but the host WAN copy and slot changes.
\<close>
theorem persistent_probe_verdict:
  assumes "run_openvpn_persistent_probe cfg run running rid ctx session_event c h hw = (Inr r, hw')"
  shows "cr_monitored_component_id r = mc_id c \<and> (cr_error_message r = None \<longleftrightarrow> cr_outcome r = CheckOutcome_value UP)
    \<and> hw_ephemeral_sessions hw' = hw_ephemeral_sessions hw
    \<and> (if \<not> is_openvpn_persistent_session_up running (vr_ip run) h then cr_outcome r = CheckOutcome_value DOWN
       else \<exists>p. probe_endpoint_via_curl (vr_shell run) (probe_url_of cfg c) (min 15 (mc_timeout_seconds c)) (sh_netns h) (IpFamily_value AUTO) = Inr p
              \<and> cr_outcome r = CheckOutcome_value (if probe_ok p then UP else DEGRADED))"
proof (cases "is_openvpn_persistent_session_up running (vr_ip run) h")
  case False
  then show ?thesis
    using assms by (auto simp: run_openvpn_persistent_probe_def tunnel_down_result_def check_result_def)
next
  case True
  let ?probe = "\<lambda>url t. probe_endpoint_via_curl (vr_shell run) url t (sh_netns h) (IpFamily_value AUTO)"
  obtain p g where pg: "probe_both ?probe cfg c = Inr (p, g)"
    using assms True by (auto simp: run_openvpn_persistent_probe_def Let_def split: sum.splits)
  then have p: "?probe (probe_url_of cfg c) (min 15 (mc_timeout_seconds c)) = Inr p"
    by (auto dest: probe_both_Inr)
  let ?n = "with_probes (p, g) (jset ''interface'' (JStr (sh_iface h)) (jset ''connect_time_ms'' (JInt (sh_connect_ms h))
                                  (network_details run (Some (sh_netns h)) (sh_iface h))))"
  let ?q = "if probe_ok p
            then tunnel_metrics run (Some (sh_netns h)) (as_str (jget ?n ''gateway'')) None (Some (sh_iface h))
                   (metrics_timeout (mc_timeout_seconds c) (sh_connect_ms h) (probe_latency p)) (speed_test_bytes_for c) ctx ?n hw
            else map_prod Inr id (carried_speed_tests ctx (has_upload_memory ctx) ?n hw)"
  have e: "(case ?q of (Inl e, s) \<Rightarrow> (Inl e, s)
             | (Inr n, s) \<Rightarrow> (Inr (probed_result rid c run DEGRADED ''Probe through VPN failed while tunnel is up'' p (session_fields session_event) n), s))
           = (Inr r, hw')"
    using assms True pg by (simp add: run_openvpn_persistent_probe_def Let_def)
  obtain network where q: "?q = (Inr network, hw')"
      and r: "r = probed_result rid c run DEGRADED ''Probe through VPN failed while tunnel is up'' p (session_fields session_event) network"
    using e by (auto split: prod.splits sum.splits)
  have "hw_ephemeral_sessions (snd ?q) = hw_ephemeral_sessions hw" by simp
  with q have sessions: "hw_ephemeral_sessions hw' = hw_ephemeral_sessions hw" by simp
  show ?thesis
    using True p r sessions curl_probe_error_text [OF p, of "''Probe through VPN failed while tunnel is up''"]
    by (auto simp: probed_result_def check_result_def Let_def)
qed


definition sample_session :: session_handle where
  "sample_session =
     \<lparr>sh_component_id = ''c1'', sh_netns = ''sg-c1'', sh_iface = ''tun-c1'', sh_tmpdir = ''/tmp/sg-openvpn-persist-1'', sh_connect_ms = 700\<rparr>"

lemma persistent_probe_verdict_witness:
  "\<exists>r. run_openvpn_persistent_probe sample_cfg sample_run False ''r1'' sample_context ''probe'' sample_vpn_component sample_session (fresh_process None)
         = (Inr r, fresh_process None) \<and> cr_outcome r = CheckOutcome_value DOWN"
proof -
  obtain r where r: "run_openvpn_persistent_probe sample_cfg sample_run False ''r1'' sample_context ''probe'' sample_vpn_component sample_session (fresh_process None)
         = (Inr r, fresh_process None)"
    by (simp add: run_openvpn_persistent_probe_def is_openvpn_persistent_session_up_def)
  from persistent_probe_verdict [OF r] show ?thesis
    by (intro exI conjI) (rule r, simp add: is_openvpn_persistent_session_up_def)
qed

end
