(* ===== verification/PingSampler.thy ===== *)
theory PingSampler
  imports TunIface Database
begin

text \<open>
  The continuous ping of a persistent tunnel: \<open>src/app/services/tunnel_ping_sampler.py\<close>. One window pings the targets of a
  tunnel, reads the statistics \<open>ping\<close> prints and stores a row per target; rows older than the retention are deleted. What
  each command prints (\<open>None\<close>: it cannot be started), how long it runs and when the thread is told to stop are arguments.
\<close>

section \<open>The statistics of ping\<close>

definition after_text :: "string \<Rightarrow> string \<Rightarrow> string option" where
  "after_text p s = (if starts_with s p then Some (drop (length p) s) else None)"

definition counts_here :: "string \<Rightarrow> (int \<times> int) option" where
  \<comment> \<open>\<open>(\d+) packets transmitted, (\d+) (?:packets )?received\<close>\<close>
  "counts_here s =
     (case digits_of s of None \<Rightarrow> None
      | Some (sent, s) \<Rightarrow> (case after_text '' packets transmitted, '' s of None \<Rightarrow> None
      | Some s \<Rightarrow> (case digits_of s of None \<Rightarrow> None
      | Some (received, s) \<Rightarrow>
          if starts_with s '' received'' \<or> starts_with s '' packets received''
          then Some (int (dec_value sent), int (dec_value received)) else None)))"

record ping_aggregate =
  pa_sent :: int
  pa_received :: int
  pa_loss_percent :: rat
  pa_rtt :: "(rat \<times> rat \<times> rat \<times> rat) option" \<comment> \<open>min, avg, max, jitter\<close>

definition loss_percent :: "int \<Rightarrow> int \<Rightarrow> rat" where
  "loss_percent sent received = py_round2 (fl (fl (100 * of_int (sent - received)) / of_int sent))"

definition parse_ping_aggregate :: "string \<Rightarrow> ping_aggregate option res" where
  \<comment> \<open>\<open>float()\<close> of a captured group such as \<open>1.2.3\<close> raises\<close>
  "parse_ping_aggregate output =
     (case search_at counts_here output of
        None \<Rightarrow> Inr None
      | Some (sent, received) \<Rightarrow>
          if sent \<le> 0 then Inr None
          else let result = \<lparr>pa_sent = sent, pa_received = received, pa_loss_percent = loss_percent sent received, pa_rtt = None\<rparr>
               in (case search_rtt output of
                     None \<Rightarrow> Inr (Some result)
                   | Some (a, b, c, d) \<Rightarrow>
                       (case (float_of_str a, float_of_str b, float_of_str c, float_of_str d) of
                          (Some a, Some b, Some c, Some d) \<Rightarrow> Inr (Some (result\<lparr>pa_rtt := Some (a, b, c, d)\<rparr>))
                        | _ \<Rightarrow> Inl (ValueError ''could not convert string to float''))))"

section \<open>A window\<close>

definition PINGS_PER_WINDOW :: int where "PINGS_PER_WINDOW = 55"
definition RETENTION :: int where "RETENTION = 48 * 3600 * usec_per_second"

definition ping_targets :: "settings \<Rightarrow> string option \<Rightarrow> (string \<times> string) list" where
  "ping_targets cfg gateway =
     (case nonempty_str gateway of None \<Rightarrow> [] | Some g \<Rightarrow> [(''gateway'', g)]) @ [(''internet'', internet_ping_host cfg)]"

definition window_command :: "string \<Rightarrow> string \<Rightarrow> string list" where
  "window_command netns host =
     [''ip'', ''netns'', ''exec'', netns, ''ping'', ''-i'', ''1'', ''-c'', int_str PINGS_PER_WINDOW, ''-W'', ''1'', host]"

definition whole_seconds :: "instant \<Rightarrow> instant" where "whole_seconds t = t - t mod usec_per_second"

definition sample_row_of :: "uuid \<Rightarrow> uuid \<Rightarrow> instant \<Rightarrow> string \<Rightarrow> string \<Rightarrow> ping_aggregate \<Rightarrow> TunnelPingSample" where
  "sample_row_of sid component_id bucket_start target host a =
     \<lparr>tp_id = sid, tp_monitored_component_id = component_id, tp_bucket_start = whole_seconds bucket_start, tp_target = target,
      tp_target_host = Some host, tp_samples_sent = pa_sent a, tp_samples_received = pa_received a,
      tp_loss_percent = Some (pa_loss_percent a), tp_min_ms = map_option fst (pa_rtt a),
      tp_avg_ms = map_option (\<lambda>(_, v, _, _). v) (pa_rtt a), tp_max_ms = map_option (\<lambda>(_, _, v, _). v) (pa_rtt a),
      tp_jitter_ms = map_option (\<lambda>(_, _, _, v). v) (pa_rtt a)\<rparr>"

fun window_rows ::
  "(string \<Rightarrow> uuid) \<Rightarrow> (string list \<Rightarrow> string option) \<Rightarrow> string \<Rightarrow> uuid \<Rightarrow> instant \<Rightarrow> (string \<times> string) list \<Rightarrow> TunnelPingSample list res" where
  "window_rows fresh_id printed netns component_id bucket_start [] = Inr []"
| "window_rows fresh_id printed netns component_id bucket_start ((target, host) # targets) =
     (case printed (window_command netns host) of
        None \<Rightarrow> window_rows fresh_id printed netns component_id bucket_start targets
      | Some output \<Rightarrow>
          (case parse_ping_aggregate output of
             Inl e \<Rightarrow> Inl e
           | Inr a \<Rightarrow>
               (case window_rows fresh_id printed netns component_id bucket_start targets of
                  Inl e \<Rightarrow> Inl e
                | Inr rows \<Rightarrow>
                    Inr ((case a of None \<Rightarrow> [] | Some a \<Rightarrow> [sample_row_of (fresh_id target) component_id bucket_start target host a]) @ rows))))"

definition persist_samples :: "uuid \<Rightarrow> instant \<Rightarrow> TunnelPingSample list \<Rightarrow> database \<Rightarrow> database" where
  \<comment> \<open>sessions do not flush by themselves: the new rows are written at the commit, after the deletion\<close>
  "persist_samples component_id now rows db =
     (let expired = (\<lambda>s. tp_monitored_component_id s = component_id \<and> tp_bucket_start s < now - RETENTION)
      in db\<lparr>db_samples := filter (\<lambda>s. \<not> expired s) (db_samples db) @ rows\<rparr>)"

definition sample_window ::
  "settings \<Rightarrow> (string \<Rightarrow> uuid) \<Rightarrow> (string list \<Rightarrow> string option) \<Rightarrow> string \<Rightarrow> string option \<Rightarrow> uuid \<Rightarrow> instant \<Rightarrow> instant \<Rightarrow> database \<Rightarrow> database" where
  \<comment> \<open>one turn of \<open>run\<close>: an exception ends the window, nothing of it is stored\<close>
  "sample_window cfg fresh_id printed netns gateway component_id window_started now db =
     (case window_rows fresh_id printed netns component_id window_started (ping_targets cfg gateway) of
        Inl _ \<Rightarrow> db
      | Inr rows \<Rightarrow> if rows = [] then db else persist_samples component_id now rows db)"

section \<open>The thread\<close>

record window_poll =
  \<comment> \<open>what a look at the clients of a window finds\<close>
  wp_running :: "string list list" \<comment> \<open>the commands that have not ended\<close>
  wp_stopped :: bool
  wp_now :: instant

fun interrupted :: "instant \<Rightarrow> window_poll list \<Rightarrow> string list list" where
  \<comment> \<open>the commands that get \<open>SIGINT\<close>: those that run when the thread is told to stop, or at the deadline\<close>
  "interrupted deadline [] = []"
| "interrupted deadline (p # polls) =
     (if wp_running p = [] then []
      else if wp_stopped p \<or> deadline \<le> wp_now p then wp_running p
      else interrupted deadline polls)"

record sampler_turn =
  st_stopped :: bool \<comment> \<open>the stop event, when the turn begins\<close>
  st_started :: instant
  st_polls :: "window_poll list"
  st_printed :: "string list \<Rightarrow> bool \<Rightarrow> string option" \<comment> \<open>what a command prints, interrupted or not; \<open>None\<close>: it cannot be started\<close>
  st_fresh_id :: "string \<Rightarrow> uuid"
  st_stored :: instant \<comment> \<open>the clock of \<open>_persist\<close>\<close>
  st_ended :: instant
  st_woken :: bool \<comment> \<open>the stop event, during the wait\<close>

definition SAMPLE_WINDOW :: int where "SAMPLE_WINDOW = 60 * usec_per_second"

definition remaining_wait :: "sampler_turn \<Rightarrow> int" where
  "remaining_wait t = SAMPLE_WINDOW - (st_ended t - st_started t)"

definition sampler_window :: "settings \<Rightarrow> string \<Rightarrow> string option \<Rightarrow> uuid \<Rightarrow> sampler_turn \<Rightarrow> database \<Rightarrow> database" where
  "sampler_window cfg netns gateway component_id t db =
     (let deadline = st_started t + (PINGS_PER_WINDOW + 5) * usec_per_second;
          cut = interrupted deadline (st_polls t)
      in sample_window cfg (st_fresh_id t) (\<lambda>cmd. st_printed t cmd (cmd \<in> set cut)) netns gateway component_id (st_started t)
           (st_stored t) db)"

fun run_sampler ::
  "settings \<Rightarrow> string \<Rightarrow> string option \<Rightarrow> uuid \<Rightarrow> sampler_turn list \<Rightarrow> database \<Rightarrow> sampler_turn list \<times> database" where
  \<comment> \<open>the windows it runs, and what they leave\<close>
  "run_sampler cfg netns gateway component_id [] db = ([], db)"
| "run_sampler cfg netns gateway component_id (t # turns) db =
     (if st_stopped t then ([], db)
      else let db = sampler_window cfg netns gateway component_id t db
           in if 0 < remaining_wait t \<and> st_woken t then ([t], db)
              else (case run_sampler cfg netns gateway component_id turns db of (did, db) \<Rightarrow> (t # did, db)))"

section \<open>Losses are percentages\<close>

lemma loss_percent_bounds:
  assumes "0 < sent" "0 \<le> received" "received \<le> sent" "sent \<le> 10 ^ 13"
  shows "0 \<le> loss_percent sent received \<and> loss_percent sent received \<le> 100"
proof -
  have "fl (of_int (100 * (sent - received)) :: rat) = of_int (100 * (sent - received))"
    using assms by (intro fl_of_int) simp
  then have x: "fl (100 * of_int (sent - received)) = (100 * of_int (sent - received) :: rat)"
    by simp
  have "0 \<le> (100 * of_int (sent - received) / of_int sent :: rat)" "(100 * of_int (sent - received) / of_int sent :: rat) \<le> 100"
    using assms by (simp_all add: divide_le_eq)
  from fl64.r_percent [OF this] show ?thesis
    unfolding loss_percent_def x by (intro round2.r_percent) blast+
qed

lemma nothing_lost: "0 < sent \<Longrightarrow> loss_percent sent sent = 0"
  by (simp add: loss_percent_def)

lemma parsed_aggregate:
  "parse_ping_aggregate output = Inr (Some a) \<Longrightarrow> 0 < pa_sent a \<and> pa_loss_percent a = loss_percent (pa_sent a) (pa_received a)"
  by (auto simp: parse_ping_aggregate_def Let_def split: option.splits if_splits prod.splits)

lemma window_rows_honest:
  "window_rows fresh_id printed netns cid t targets = Inr rows \<Longrightarrow> r \<in> set rows \<Longrightarrow>
     tp_monitored_component_id r = cid \<and> tp_bucket_start r = whole_seconds t \<and> (tp_target r, the (tp_target_host r)) \<in> set targets
     \<and> 0 < tp_samples_sent r \<and> tp_loss_percent r = Some (loss_percent (tp_samples_sent r) (tp_samples_received r))"
proof (induction fresh_id printed netns cid t targets arbitrary: rows rule: window_rows.induct)
  case (2 fresh_id printed netns cid t target host targets)
  show ?case
  proof (cases "printed (window_command netns host)")
    case None
    then show ?thesis using 2 by simp
  next
    case (Some answer)
    then obtain a rest where a: "parse_ping_aggregate answer = Inr a" and rest: "window_rows fresh_id printed netns cid t targets = Inr rest"
        and rows: "rows = (case a of None \<Rightarrow> [] | Some a \<Rightarrow> [sample_row_of (fresh_id target) cid t target host a]) @ rest"
      using 2(3) by (auto split: sum.splits)
    show ?thesis
      using 2(2) [OF Some a rest] 2(4) rows parsed_aggregate a
      by (auto simp: sample_row_of_def split: option.splits)
  qed
qed simp

section \<open>Retention\<close>

definition window_effect ::
  "settings \<Rightarrow> string option \<Rightarrow> uuid \<Rightarrow> instant \<Rightarrow> instant \<Rightarrow> database \<Rightarrow> database \<Rightarrow> bool" where
  "window_effect cfg gateway cid started now db db' \<longleftrightarrow>
     db' = db \<or>
     (\<exists>rows. db' = db\<lparr>db_samples := filter (\<lambda>s. \<not> (tp_monitored_component_id s = cid \<and> tp_bucket_start s < now - 48 * 3600 * 1000000))
                                      (db_samples db) @ rows\<rparr>
       \<and> rows \<noteq> [] \<and> (\<forall>r\<in>set rows. tp_monitored_component_id r = cid \<and> tp_bucket_start r = whole_seconds started
           \<and> (tp_target r, the (tp_target_host r)) \<in> set (ping_targets cfg gateway)
           \<and> 0 < tp_samples_sent r \<and> tp_loss_percent r = Some (loss_percent (tp_samples_sent r) (tp_samples_received r))))"

text \<open>
  A window of the sampler touches only the samples of its own tunnel: it deletes exactly those older than 48 hours and
  adds rows for its targets at its start, each with a positive number of packets and the loss that follows from the counts;
  a window that yields no row, or ends with an exception, leaves the database as it is.
\<close>
theorem ping_window_retention:
  "window_effect cfg gateway cid started now db (sample_window cfg fresh_id printed netns gateway cid started now db)"
proof (cases "window_rows fresh_id printed netns cid started (ping_targets cfg gateway)")
  case (Inr rows)
  show ?thesis
  proof (cases "rows = []")
    case False
    then have "sample_window cfg fresh_id printed netns gateway cid started now db = persist_samples cid now rows db"
      using Inr by (simp add: sample_window_def)
    then show ?thesis
      using False window_rows_honest [OF Inr]
      by (auto simp: window_effect_def persist_samples_def RETENTION_def intro!: exI [of _ rows])
  qed (simp add: sample_window_def window_effect_def Inr)
qed (simp add: sample_window_def window_effect_def)

section \<open>Windows follow one another\<close>

fun waits_kept :: "sampler_turn list \<Rightarrow> bool" where
  \<comment> \<open>a wait that is not woken lasts as long as it was asked to\<close>
  "waits_kept (t # u # turns) \<longleftrightarrow> st_ended t + max 0 (remaining_wait t) \<le> st_started u \<and> waits_kept (u # turns)"
| "waits_kept _ \<longleftrightarrow> True"

abbreviation apart :: "sampler_turn \<Rightarrow> sampler_turn \<Rightarrow> bool" where
  "apart t u \<equiv> st_started t + SAMPLE_WINDOW \<le> st_started u"

lemma waits_kept_apart: "waits_kept turns \<Longrightarrow> sorted_wrt apart turns"
proof (induction turns rule: waits_kept.induct)
  case (1 t u turns)
  then have tail: "sorted_wrt apart (u # turns)" and "apart t u" by (auto simp: remaining_wait_def)
  moreover have "0 \<le> SAMPLE_WINDOW" by (simp add: SAMPLE_WINDOW_def)
  ultimately have "\<forall>x\<in>set (u # turns). apart t x" by force
  with tail show ?case by simp
qed simp_all

lemma window_effect_rows:
  assumes "window_effect cfg gateway cid started now db db'"
  shows "filter (\<lambda>s. tp_monitored_component_id s \<noteq> cid) (db_samples db') = filter (\<lambda>s. tp_monitored_component_id s \<noteq> cid) (db_samples db)
    \<and> (\<forall>s \<in> set (db_samples db'). s \<in> set (db_samples db)
         \<or> tp_monitored_component_id s = cid \<and> tp_bucket_start s = whole_seconds started)"
proof (cases "db' = db")
  case False
  with assms obtain rows where "db_samples db' = filter (\<lambda>s. \<not> (tp_monitored_component_id s = cid
        \<and> tp_bucket_start s < now - 48 * 3600 * 1000000)) (db_samples db) @ rows"
    and "\<forall>r\<in>set rows. tp_monitored_component_id r = cid \<and> tp_bucket_start r = whole_seconds started"
    by (auto simp: window_effect_def)
  then show ?thesis by (auto simp: filter_empty_conv intro: filter_cong)
qed simp

lemma run_sampler_rows:
  assumes "run_sampler cfg netns gateway cid turns db = (did, db')"
  shows "filter (\<lambda>s. tp_monitored_component_id s \<noteq> cid) (db_samples db') = filter (\<lambda>s. tp_monitored_component_id s \<noteq> cid) (db_samples db)
    \<and> (\<forall>s \<in> set (db_samples db'). s \<in> set (db_samples db)
         \<or> tp_monitored_component_id s = cid \<and> (\<exists>t \<in> set did. tp_bucket_start s = whole_seconds (st_started t)))"
  using assms
proof (induction turns arbitrary: db did)
  case (Cons t turns)
  let ?db = "sampler_window cfg netns gateway cid t db"
  have step: "filter (\<lambda>s. tp_monitored_component_id s \<noteq> cid) (db_samples ?db) = filter (\<lambda>s. tp_monitored_component_id s \<noteq> cid) (db_samples db)
    \<and> (\<forall>s \<in> set (db_samples ?db). s \<in> set (db_samples db)
         \<or> tp_monitored_component_id s = cid \<and> tp_bucket_start s = whole_seconds (st_started t))"
    unfolding sampler_window_def Let_def by (rule window_effect_rows [OF ping_window_retention])
  show ?case
  proof (cases "st_stopped t \<or> 0 < remaining_wait t \<and> st_woken t")
    case True
    with Cons.prems step show ?thesis by (auto split: if_splits)
  next
    case False
    then obtain rest where rest: "run_sampler cfg netns gateway cid turns ?db = (rest, db')" "did = t # rest"
      using Cons.prems by (auto simp: Let_def split: prod.splits)
    from Cons.IH [OF rest(1)] step rest(2) show ?thesis by auto
  qed
qed simp

text \<open>Two windows of a thread never share a bucket: they start at least a minute apart.\<close>

lemma windows_have_their_buckets:
  assumes "run_sampler cfg netns gateway cid turns db = (did, db')" "waits_kept did"
  shows "distinct (map (\<lambda>t. whole_seconds (st_started t)) did)"
proof -
  have "sorted_wrt (\<lambda>t u. whole_seconds (st_started t) < whole_seconds (st_started u)) did"
  proof (rule sorted_wrt_mono_rel [OF _ waits_kept_apart [OF assms(2)]])
    fix t u assume "apart t u"
    then have "st_started t + usec_per_second \<le> st_started u" by (simp add: SAMPLE_WINDOW_def)
    then show "whole_seconds (st_started t) < whole_seconds (st_started u)"
      using pos_mod_sign [of usec_per_second "st_started t"] pos_mod_bound [of usec_per_second "st_started u"]
      unfolding whole_seconds_def by linarith
  qed
  then show ?thesis by (induction did) auto
qed

end
