(* ===== verification/Incidents.thy ===== *)
theory Incidents
  imports Timeline
begin

text \<open>
  Incidents and their updates: \<open>src/app/services/incident_service.py\<close> with the request bodies of
  \<open>src/app/schemas/incident.py\<close>. A field of a partial update is \<open>None\<close> when it is not sent, \<open>Some None\<close> when it is
  sent as \<open>null\<close>. Times of a request may lack a time zone; the stored ones have one. Nothing is committed when an
  operation raises, so the database is returned unchanged.
\<close>

section \<open>Request bodies\<close>

record IncidentCreate =
  ic_title :: string
  ic_message :: string
  ic_status :: string
  ic_posted_at :: "py_datetime option"
  ic_component :: "uuid option"
  ic_starts_at :: "py_datetime option"
  ic_ends_at :: "py_datetime option"

record IncidentUpdatePayload =
  ip_title :: "string option"
  ip_component :: "uuid option"
  ip_clear_component :: bool
  ip_starts_at :: "py_datetime option"
  ip_ends_at :: "py_datetime option"
  ip_clear_ends_at :: bool

record IncidentUpdateCreate =
  uc_message :: string
  uc_status :: string
  uc_posted_at :: "py_datetime option"

record IncidentUpdateUpdate =
  uu_message :: "string option option"
  uu_status :: "string option option"
  uu_posted_at :: "py_datetime option option"

definition update_status_ok :: "string \<Rightarrow> bool" where
  "update_status_ok s \<longleftrightarrow> s \<in> set (map IncidentUpdateStatus_value [INVESTIGATING, IDENTIFIED, MONITORING, RESOLVED, UPDATE])"

definition title_ok :: "string \<Rightarrow> bool" where "title_ok t \<longleftrightarrow> 1 \<le> length t \<and> length t \<le> 500"

definition validate_range :: "py_datetime option \<Rightarrow> py_datetime option \<Rightarrow> unit res" where
  "validate_range starts_at ends_at =
     (case (starts_at, ends_at) of
        (Some s, Some e) \<Rightarrow> (case dt_less e s of Inl x \<Rightarrow> Inl x | Inr b \<Rightarrow> if b then Inl ValidationError else Inr ())
      | _ \<Rightarrow> Inr ())"

definition validate_create :: "IncidentCreate \<Rightarrow> unit res" where
  "validate_create p =
     (if \<not> title_ok (ic_title p) \<or> ic_message p = [] \<or> \<not> update_status_ok (ic_status p) then Inl ValidationError
      else validate_range (ic_starts_at p) (ic_ends_at p))"

definition validate_payload :: "IncidentUpdatePayload \<Rightarrow> unit res" where
  "validate_payload p =
     (if (case ip_title p of None \<Rightarrow> False | Some t \<Rightarrow> \<not> title_ok t) then Inl ValidationError
      else validate_range (ip_starts_at p) (ip_ends_at p))"

definition validate_update_create :: "IncidentUpdateCreate \<Rightarrow> unit res" where
  "validate_update_create p =
     (if uc_message p = [] \<or> \<not> update_status_ok (uc_status p) then Inl ValidationError else Inr ())"

definition validate_update_update :: "IncidentUpdateUpdate \<Rightarrow> unit res" where
  "validate_update_update p =
     (if uu_message p = Some (Some []) \<or> (case uu_status p of Some (Some s) \<Rightarrow> \<not> update_status_ok s | _ \<Rightarrow> False)
      then Inl ValidationError else Inr ())"

section \<open>Answers\<close>

record IncidentResponse =
  ir_incident :: Incident
  ir_service_name :: "string option"
  ir_service_slug :: "string option"
  ir_updates :: "IncidentUpdate list"

definition to_incident_response :: "database \<Rightarrow> Incident \<Rightarrow> IncidentResponse" where
  "to_incident_response db i =
     \<lparr>ir_incident = i, ir_service_name = map_option mc_name (incident_component db i),
      ir_service_slug = map_option mc_slug (incident_component db i), ir_updates = incident_updates db i\<rparr>"

section \<open>Operations\<close>

definition resolve_component :: "uuid \<Rightarrow> uuid option \<Rightarrow> database \<Rightarrow> unit res" where
  "resolve_component project_id component_id db =
     (case component_id of
        None \<Rightarrow> Inr ()
      | Some cid \<Rightarrow>
          (case get_component cid db of
             None \<Rightarrow> Inl (HTTPException 400 ''Service not found in this project'')
           | Some c \<Rightarrow> if mc_project_id c \<noteq> project_id then Inl (HTTPException 400 ''Service not found in this project'')
                       else Inr ()))"

definition check_end :: "py_datetime \<Rightarrow> py_datetime option \<Rightarrow> unit res" where
  "check_end starts_at ends_at =
     (case ends_at of
        None \<Rightarrow> Inr ()
      | Some e \<Rightarrow> (case dt_less e starts_at of
                      Inl x \<Rightarrow> Inl x
                    | Inr b \<Rightarrow> if b then Inl (HTTPException 400 ''ends_at must be greater than or equal to starts_at'')
                               else Inr ()))"

definition list_for_project :: "uuid \<Rightarrow> database \<Rightarrow> IncidentResponse list res" where
  "list_for_project project_id db =
     (if get_project project_id db = None then Inl (HTTPException 404 ''Project not found'')
      else Inr (map (to_incident_response db)
             (sort_desc in_created_at (filter (\<lambda>i. in_project_id i = project_id) (db_incidents db)))))"

definition create_incident ::
  "(database \<Rightarrow> uuid) \<Rightarrow> uuid \<Rightarrow> IncidentCreate \<Rightarrow> instant \<Rightarrow> database \<Rightarrow> IncidentResponse res \<times> database" where
  "create_incident fresh_id project_id p now db =
     (if get_project project_id db = None then (Inl (HTTPException 404 ''Project not found''), db)
      else case resolve_component project_id (ic_component p) db of
             Inl e \<Rightarrow> (Inl e, db)
           | Inr _ \<Rightarrow>
               let posted_at = default_to (Aware now) (ic_posted_at p);
                   starts_at = default_to posted_at (ic_starts_at p)
               in (case check_end starts_at (ic_ends_at p) of
                     Inl e \<Rightarrow> (Inl e, db)
                   | Inr _ \<Rightarrow>
                       let i = \<lparr>in_id = fresh_id db, in_project_id = project_id, in_monitored_component_id = ic_component p,
                                in_title = ic_title p, in_starts_at = utc_of starts_at,
                                in_ends_at = map_option utc_of (ic_ends_at p), in_created_at = now\<rparr>;
                           u = \<lparr>iu_id = fresh_id db, iu_incident_id = in_id i, iu_message = ic_message p,
                                iu_status = ic_status p, iu_posted_at = utc_of posted_at\<rparr>;
                           db = (insert_incident i db)\<lparr>db_updates := db_updates db @ [u]\<rparr>
                       in (Inr (to_incident_response db i), db)))"

definition update_incident :: "uuid \<Rightarrow> IncidentUpdatePayload \<Rightarrow> database \<Rightarrow> IncidentResponse res \<times> database" where
  "update_incident incident_id p db =
     (case get_incident incident_id db of
        None \<Rightarrow> (Inl (HTTPException 404 ''Incident not found''), db)
      | Some i \<Rightarrow>
          let i = i\<lparr>in_title := default_to (in_title i) (ip_title p)\<rparr>;
              resolved = (if ip_clear_component p then Inr () else resolve_component (in_project_id i) (ip_component p) db);
              i = (if ip_clear_component p then i\<lparr>in_monitored_component_id := None\<rparr>
                   else if ip_component p \<noteq> None then i\<lparr>in_monitored_component_id := ip_component p\<rparr> else i);
              starts_at = default_to (Aware (in_starts_at i)) (ip_starts_at p);
              ends_at = (if ip_clear_ends_at p then None
                         else py_or (ip_ends_at p) (map_option Aware (in_ends_at i)))
          in (case resolved of
                Inl e \<Rightarrow> (Inl e, db)
              | Inr _ \<Rightarrow>
                  (case check_end starts_at ends_at of
                     Inl e \<Rightarrow> (Inl e, db)
                   | Inr _ \<Rightarrow>
                       let i = i\<lparr>in_starts_at := utc_of starts_at, in_ends_at := map_option utc_of ends_at\<rparr>;
                           db = save_incident i db
                       in (Inr (to_incident_response db i), db))))"

definition delete_incident :: "uuid \<Rightarrow> database \<Rightarrow> unit res \<times> database" where
  "delete_incident incident_id db =
     (if get_incident incident_id db = None then (Inl (HTTPException 404 ''Incident not found''), db)
      else (Inr (), delete_incident_row incident_id db))"

definition add_update ::
  "(database \<Rightarrow> uuid) \<Rightarrow> uuid \<Rightarrow> IncidentUpdateCreate \<Rightarrow> instant \<Rightarrow> database \<Rightarrow> IncidentUpdate res \<times> database" where
  "add_update fresh_id incident_id p now db =
     (if get_incident incident_id db = None then (Inl (HTTPException 404 ''Incident not found''), db)
      else let u = \<lparr>iu_id = fresh_id db, iu_incident_id = incident_id, iu_message = uc_message p, iu_status = uc_status p,
                    iu_posted_at = utc_of (default_to (Aware now) (uc_posted_at p))\<rparr>
           in (Inr u, db\<lparr>db_updates := db_updates db @ [u]\<rparr>))"

definition update_entry :: "uuid \<Rightarrow> IncidentUpdateUpdate \<Rightarrow> database \<Rightarrow> IncidentUpdate res \<times> database" where
  \<comment> \<open>the three columns are not nullable\<close>
  "update_entry update_id p db =
     (case lookup_row iu_id update_id (db_updates db) of
        None \<Rightarrow> (Inl (HTTPException 404 ''Incident update not found''), db)
      | Some u \<Rightarrow>
          if uu_message p = Some None \<or> uu_status p = Some None \<or> uu_posted_at p = Some None
          then (Inl (IntegrityError ''null value violates not-null constraint''), db)
          else let u = u\<lparr>iu_message := (case uu_message p of Some (Some m) \<Rightarrow> m | _ \<Rightarrow> iu_message u),
                         iu_status := (case uu_status p of Some (Some s) \<Rightarrow> s | _ \<Rightarrow> iu_status u),
                         iu_posted_at := (case uu_posted_at p of Some (Some t) \<Rightarrow> utc_of t | _ \<Rightarrow> iu_posted_at u)\<rparr>
               in (Inr u, db\<lparr>db_updates := replace_row iu_id u (db_updates db)\<rparr>))"

definition delete_update :: "uuid \<Rightarrow> database \<Rightarrow> unit res \<times> database" where
  "delete_update update_id db =
     (if lookup_row iu_id update_id (db_updates db) = None then (Inl (HTTPException 404 ''Incident update not found''), db)
      else (Inr (), db\<lparr>db_updates := delete_row iu_id update_id (db_updates db)\<rparr>))"

section \<open>The public history\<close>

record PublicHistoryEntry =
  he_incident_id :: uuid
  he_update_id :: uuid
  he_title :: string
  he_message :: string
  he_status :: string
  he_posted_at :: instant
  he_starts_at :: instant
  he_ends_at :: "instant option"
  he_service_name :: "string option"
  he_service_slug :: "string option"

record PublicHistoryDay =
  hd_date :: day
  hd_month_label :: string
  hd_day :: int
  hd_weekday_label :: string
  hd_entries :: "PublicHistoryEntry list"

record PublicProjectHistory =
  ph_project_id :: uuid
  ph_project_name :: string
  ph_project_slug :: string
  ph_days :: "PublicHistoryDay list"

definition as_local :: "(instant \<Rightarrow> int) \<Rightarrow> instant \<Rightarrow> instant" where
  \<comment> \<open>\<open>utcoffset\<close> of the display time zone, in microseconds; the clock it shows\<close>
  "as_local utcoffset t = t + utcoffset t"

definition history_entry :: "database \<Rightarrow> Incident \<Rightarrow> IncidentUpdate \<Rightarrow> PublicHistoryEntry" where
  "history_entry db i u =
     \<lparr>he_incident_id = in_id i, he_update_id = iu_id u, he_title = in_title i, he_message = iu_message u,
      he_status = iu_status u, he_posted_at = iu_posted_at u, he_starts_at = in_starts_at i, he_ends_at = in_ends_at i,
      he_service_name = map_option mc_name (incident_component db i),
      he_service_slug = map_option mc_slug (incident_component db i)\<rparr>"

definition project_updates :: "uuid \<Rightarrow> nat \<Rightarrow> database \<Rightarrow> (Incident \<times> IncidentUpdate) list" where
  \<comment> \<open>the join, newest first\<close>
  "project_updates project_id limit db =
     take limit (sort_desc (\<lambda>(i, u). iu_posted_at u)
       (List.map_filter (\<lambda>u. case get_incident (iu_incident_id u) db of
                               Some i \<Rightarrow> if in_project_id i = project_id then Some (i, u) else None
                             | None \<Rightarrow> None) (db_updates db)))"

fun add_to_day :: "day \<Rightarrow> PublicHistoryEntry \<Rightarrow> (day \<times> PublicHistoryEntry list) list \<Rightarrow> (day \<times> PublicHistoryEntry list) list" where
  \<comment> \<open>\<open>days_map\<close> in the order \<open>day_order\<close>\<close>
  "add_to_day d e [] = [(d, [e])]"
| "add_to_day d e ((d', es) # days) = (if d = d' then (d', es @ [e]) # days else (d', es) # add_to_day d e days)"

definition history_day :: "day \<times> PublicHistoryEntry list \<Rightarrow> PublicHistoryDay" where
  "history_day = (\<lambda>(d, es). \<lparr>hd_date = d, hd_month_label = strftime_B d, hd_day = day_of_month d,
     hd_weekday_label = strftime_a d, hd_entries = es\<rparr>)"

definition get_public_history :: "(instant \<Rightarrow> int) \<Rightarrow> string \<Rightarrow> nat \<Rightarrow> database \<Rightarrow> PublicProjectHistory res" where
  "get_public_history utcoffset slug limit db =
     (case active_project slug db of
        Inl e \<Rightarrow> Inl e
      | Inr p \<Rightarrow>
          let updates = project_updates (pr_id p) limit db;
              days = fold (\<lambda>(i, u). add_to_day (date_of (as_local utcoffset (iu_posted_at u))) (history_entry db i u)) updates []
          in Inr \<lparr>ph_project_id = pr_id p, ph_project_name = pr_name p, ph_project_slug = pr_slug p,
                  ph_days = map history_day days\<rparr>)"

section \<open>Well-formed incidents\<close>

definition component_in :: "database \<Rightarrow> uuid \<Rightarrow> uuid option \<Rightarrow> bool" where
  "component_in db pid cid \<longleftrightarrow> (\<forall>k. cid = Some k \<longrightarrow> (\<exists>c. get_component k db = Some c \<and> mc_project_id c = pid))"

definition incident_ok :: "database \<Rightarrow> Incident \<Rightarrow> bool" where
  "incident_ok db i \<longleftrightarrow> get_project (in_project_id i) db \<noteq> None
     \<and> (case in_ends_at i of None \<Rightarrow> True | Some e \<Rightarrow> in_starts_at i \<le> e)
     \<and> component_in db (in_project_id i) (in_monitored_component_id i) \<and> title_ok (in_title i)"

definition update_ok :: "database \<Rightarrow> IncidentUpdate \<Rightarrow> bool" where
  "update_ok db u \<longleftrightarrow> get_incident (iu_incident_id u) db \<noteq> None \<and> iu_message u \<noteq> [] \<and> update_status_ok (iu_status u)"

definition incidents_wf :: "database \<Rightarrow> bool" where
  "incidents_wf db \<longleftrightarrow> distinct (map in_id (db_incidents db)) \<and> distinct (map iu_id (db_updates db))
     \<and> (\<forall>i \<in> set (db_incidents db). incident_ok db i) \<and> (\<forall>u \<in> set (db_updates db). update_ok db u)"

definition fresh_rows :: "(database \<Rightarrow> uuid) \<Rightarrow> bool" where
  "fresh_rows fresh_id \<longleftrightarrow> (\<forall>db. fresh_id db \<notin> set (map in_id (db_incidents db)) \<and> fresh_id db \<notin> set (map iu_id (db_updates db)))"

text \<open>A request: its body is checked, then the service is called.\<close>

datatype incident_request =
    CreateIncident uuid IncidentCreate
  | ChangeIncident uuid IncidentUpdatePayload
  | DeleteIncident uuid
  | AddUpdate uuid IncidentUpdateCreate
  | ChangeUpdate uuid IncidentUpdateUpdate
  | DeleteUpdate uuid

definition checked :: "unit res \<Rightarrow> ('a res \<times> database) \<Rightarrow> database \<Rightarrow> database" where
  "checked v result db = (case v of Inl _ \<Rightarrow> db | Inr _ \<Rightarrow> snd result)"

fun incident_step :: "(database \<Rightarrow> uuid) \<Rightarrow> incident_request \<times> instant \<Rightarrow> database \<Rightarrow> database" where
  "incident_step fresh_id (CreateIncident pid p, now) db = checked (validate_create p) (create_incident fresh_id pid p now db) db"
| "incident_step fresh_id (ChangeIncident iid p, now) db = checked (validate_payload p) (update_incident iid p db) db"
| "incident_step fresh_id (DeleteIncident iid, now) db = snd (delete_incident iid db)"
| "incident_step fresh_id (AddUpdate iid p, now) db = checked (validate_update_create p) (add_update fresh_id iid p now db) db"
| "incident_step fresh_id (ChangeUpdate uid p, now) db = checked (validate_update_update p) (update_entry uid p db) db"
| "incident_step fresh_id (DeleteUpdate uid, now) db = snd (delete_update uid db)"

lemma incident_ok_frame:
  "db_projects db' = db_projects db \<Longrightarrow> db_components db' = db_components db \<Longrightarrow> incident_ok db' i = incident_ok db i"
  by (simp add: incident_ok_def component_in_def get_project_def get_component_def)

lemma get_incident_mem: "get_incident iid db \<noteq> None \<longleftrightarrow> iid \<in> in_id ` set (db_incidents db)"
  by (simp add: get_incident_def lookup_row_None)

lemma update_ok_mono:
  "update_ok db u \<Longrightarrow> in_id ` set (db_incidents db) \<subseteq> in_id ` set (db_incidents db') \<Longrightarrow> update_ok db' u"
  unfolding update_ok_def get_incident_mem by blast

text \<open>The invariant for a changed database, table by table.\<close>

lemma incidents_wfI:
  assumes "db_projects db' = db_projects db" and "db_components db' = db_components db"
    and "distinct (map in_id (db_incidents db'))" and "distinct (map iu_id (db_updates db'))"
    and "\<And>i. i \<in> set (db_incidents db') \<Longrightarrow> incident_ok db i"
    and "\<And>u. u \<in> set (db_updates db') \<Longrightarrow> update_ok db' u"
  shows "incidents_wf db'"
  unfolding incidents_wf_def using assms(3-6) incident_ok_frame [OF assms(1,2)] by blast

lemma check_end_ok:
  "check_end s e = Inr () \<Longrightarrow> (case map_option utc_of e of None \<Rightarrow> True | Some x \<Rightarrow> utc_of s \<le> x)"
  by (cases e; cases s; cases "the e") (auto simp: check_end_def split: if_splits sum.splits)

lemma resolve_component_ok: "resolve_component pid cid db = Inr () \<Longrightarrow> component_in db pid cid"
  by (auto simp: resolve_component_def component_in_def split: option.splits if_splits)

lemma create_incident_success:
  assumes "create_incident fresh_id pid p now db = (Inr r, db')"
  obtains i u where "db' = db\<lparr>db_incidents := db_incidents db @ [i], db_updates := db_updates db @ [u]\<rparr>"
    and "in_id i = fresh_id db" and "iu_id u = fresh_id db" and "iu_incident_id u = fresh_id db"
    and "iu_message u = ic_message p" and "iu_status u = ic_status p" and "in_title i = ic_title p" and "in_project_id i = pid"
    and "iu_posted_at u = utc_of (default_to (Aware now) (ic_posted_at p))"
    and "r = to_incident_response db' i"
    and "title_ok (ic_title p) \<Longrightarrow> incident_ok db i"
proof -
  let ?posted = "default_to (Aware now) (ic_posted_at p)"
  let ?starts = "default_to ?posted (ic_starts_at p)"
  from assms have pr: "get_project pid db \<noteq> None" and res: "resolve_component pid (ic_component p) db = Inr ()"
    and chk: "check_end ?starts (ic_ends_at p) = Inr ()"
    by (auto simp: create_incident_def Let_def split: if_splits sum.splits)
  let ?i = "\<lparr>in_id = fresh_id db, in_project_id = pid, in_monitored_component_id = ic_component p, in_title = ic_title p,
    in_starts_at = utc_of ?starts, in_ends_at = map_option utc_of (ic_ends_at p), in_created_at = now\<rparr>"
  have "title_ok (ic_title p) \<Longrightarrow> incident_ok db ?i"
    using pr check_end_ok [OF chk] resolve_component_ok [OF res]
    by (cases "ic_ends_at p") (simp_all add: incident_ok_def)
  moreover let ?u = "\<lparr>iu_id = fresh_id db, iu_incident_id = fresh_id db, iu_message = ic_message p, iu_status = ic_status p, iu_posted_at = utc_of ?posted\<rparr>"
  have "db' = db\<lparr>db_incidents := db_incidents db @ [?i], db_updates := db_updates db @ [?u]\<rparr>"
    and "r = to_incident_response db' ?i"
    using assms pr res chk by (auto simp: create_incident_def Let_def insert_incident_def)
  ultimately show thesis by (intro that [where i = ?i and u = ?u]) simp_all
qed

lemma create_incident_failure: "create_incident fresh_id pid p now db = (Inl e, db') \<Longrightarrow> db' = db"
  by (auto simp: create_incident_def Let_def split: if_splits sum.splits)

lemma wf_create:
  assumes "fresh_rows fresh_id" and "incidents_wf db" and "validate_create p = Inr ()"
  shows "incidents_wf (snd (create_incident fresh_id pid p now db))"
proof (cases "create_incident fresh_id pid p now db")
  case (Pair r db')
  show ?thesis
  proof (cases r)
    case (Inl e)
    with Pair assms create_incident_failure [of fresh_id pid p now db e db'] show ?thesis by simp
  next
    case (Inr x)
    have v: "title_ok (ic_title p)" "ic_message p \<noteq> []" "update_status_ok (ic_status p)"
      using assms(3) by (auto simp: validate_create_def split: if_splits)
    from Pair Inr have "create_incident fresh_id pid p now db = (Inr x, db')" by simp
    then show ?thesis
    proof (cases rule: create_incident_success)
      case (1 i u)
      have new: "fresh_id db \<notin> set (map in_id (db_incidents db))" "fresh_id db \<notin> set (map iu_id (db_updates db))"
        using assms(1) unfolding fresh_rows_def by blast+
      have "incidents_wf db'"
      proof (rule incidents_wfI [of db' db])
        show "distinct (map in_id (db_incidents db'))" using 1 new assms(2) by (simp add: incidents_wf_def)
        show "distinct (map iu_id (db_updates db'))" using 1 new assms(2) by (simp add: incidents_wf_def)
        show "incident_ok db j" if "j \<in> set (db_incidents db')" for j
          using that 1 v(1) assms(2) by (auto simp: incidents_wf_def)
        show "update_ok db' w" if w: "w \<in> set (db_updates db')" for w
        proof (cases "w = u")
          case True
          with 1 v show ?thesis unfolding update_ok_def get_incident_mem by simp
        next
          case False
          with w 1 have "w \<in> set (db_updates db)" by auto
          with assms(2) have "update_ok db w" by (simp add: incidents_wf_def)
          then show ?thesis using 1 by (auto intro: update_ok_mono)
        qed
      qed (simp_all add: 1)
      with Pair show ?thesis by simp
    qed
  qed
qed


text \<open>Changing a row in place.\<close>

lemma update_incident_success:
  assumes "update_incident iid p db = (Inr r, db')"
  obtains i j where "get_incident iid db = Some i" and "db' = save_incident j db" and "in_id j = in_id i"
    and "in_project_id j = in_project_id i" and "r = to_incident_response db' j"
    and "incident_ok db i \<Longrightarrow> validate_payload p = Inr () \<Longrightarrow> incident_ok db j"
proof -
  from assms obtain i where get: "get_incident iid db = Some i" by (auto simp: update_incident_def split: option.splits)
  define i1 where "i1 = i\<lparr>in_title := default_to (in_title i) (ip_title p)\<rparr>"
  define i2 where "i2 = (if ip_clear_component p then i1\<lparr>in_monitored_component_id := None\<rparr>
    else if ip_component p \<noteq> None then i1\<lparr>in_monitored_component_id := ip_component p\<rparr> else i1)"
  define s where "s = default_to (Aware (in_starts_at i2)) (ip_starts_at p)"
  define e where "e = (if ip_clear_ends_at p then None else py_or (ip_ends_at p) (map_option Aware (in_ends_at i2)))"
  define v where "v = (if ip_clear_component p then Inr () else resolve_component (in_project_id i1) (ip_component p) db)"
  define j where "j = i2\<lparr>in_starts_at := utc_of s, in_ends_at := map_option utc_of e\<rparr>"
  have run: "update_incident iid p db = (case v of Inl x \<Rightarrow> (Inl x, db) | Inr _ \<Rightarrow>
      (case check_end s e of Inl x \<Rightarrow> (Inl x, db)
       | Inr _ \<Rightarrow> (Inr (to_incident_response (save_incident j db) j), save_incident j db)))"
    unfolding update_incident_def get option.case Let_def i1_def [symmetric] unfolding i2_def [symmetric]
    unfolding s_def [symmetric] e_def [symmetric] v_def [symmetric] unfolding j_def [symmetric] by (rule refl)
  with assms have v: "v = Inr ()" and chk: "check_end s e = Inr ()" and out: "db' = save_incident j db" "r = to_incident_response db' j"
    by (auto split: sum.splits)
  have j: "in_id j = in_id i" "in_project_id j = in_project_id i" "in_title j = default_to (in_title i) (ip_title p)"
    by (simp_all add: j_def i2_def i1_def)
  have "incident_ok db j" if ok: "incident_ok db i" and val: "validate_payload p = Inr ()"
  proof -
    have "title_ok (in_title j)"
      using ok val j(3) by (cases "ip_title p") (auto simp: incident_ok_def validate_payload_def split: if_splits)
    moreover have "component_in db (in_project_id i) (in_monitored_component_id j)"
      using ok resolve_component_ok [of "in_project_id i" "ip_component p" db] v
      by (auto simp: j_def i2_def i1_def v_def incident_ok_def component_in_def split: if_splits)
    moreover have "case in_ends_at j of None \<Rightarrow> True | Some x \<Rightarrow> in_starts_at j \<le> x"
      using check_end_ok [OF chk] by (cases e) (simp_all add: j_def)
    ultimately show ?thesis using ok j(2) by (simp add: incident_ok_def)
  qed
  with get out j show thesis by (intro that)
qed

lemma update_incident_failure: "update_incident iid p db = (Inl e, db') \<Longrightarrow> db' = db"
  by (auto simp: update_incident_def Let_def split: if_splits sum.splits option.splits)

lemma wf_update_incident:
  assumes "incidents_wf db" and "validate_payload p = Inr ()"
  shows "incidents_wf (snd (update_incident iid p db))"
proof (cases "update_incident iid p db")
  case (Pair r db')
  show ?thesis
  proof (cases r)
    case (Inl e)
    with Pair assms update_incident_failure [of iid p db e db'] show ?thesis by simp
  next
    case (Inr x)
    from Pair Inr have "update_incident iid p db = (Inr x, db')" by simp
    then show ?thesis
    proof (cases rule: update_incident_success)
      case (1 i j)
      have i: "i \<in> set (db_incidents db)" using 1(1) lookup_row_Some by (fastforce simp: get_incident_def)
      have ok: "incident_ok db j" using 1(6) assms i by (simp add: incidents_wf_def)
      have ids: "in_id ` set (db_incidents db') = in_id ` set (db_incidents db)"
        using arg_cong [OF map_key_replace_row [of in_id j "db_incidents db"], of set] unfolding set_map
        by (simp add: 1(2) save_incident_def)
      have "incidents_wf db'"
      proof (rule incidents_wfI [of db' db])
        show "distinct (map in_id (db_incidents db'))" using 1 assms(1) by (simp add: incidents_wf_def save_incident_def)
        show "distinct (map iu_id (db_updates db'))" using 1 assms(1) by (simp add: incidents_wf_def save_incident_def)
        show "incident_ok db k" if "k \<in> set (db_incidents db')" for k
          using that 1 ok assms(1) by (auto simp: save_incident_def replace_row_def incidents_wf_def)
        show "update_ok db' w" if "w \<in> set (db_updates db')" for w
        proof (rule update_ok_mono [of db])
          have "w \<in> set (db_updates db)" using that 1(2) by (simp add: save_incident_def)
          with assms(1) show "update_ok db w" by (simp add: incidents_wf_def)
        qed (simp add: ids)
      qed (simp_all add: 1 save_incident_def)
      with Pair show ?thesis by simp
    qed
  qed
qed


lemma wf_delete_incident:
  assumes "incidents_wf db"
  shows "incidents_wf (snd (delete_incident iid db))"
proof (cases "get_incident iid db = None")
  case False
  let ?db = "delete_incident_row iid db"
  have "incidents_wf ?db"
  proof (rule incidents_wfI [of ?db db])
    show "distinct (map in_id (db_incidents ?db))" "distinct (map iu_id (db_updates ?db))"
      using assms by (simp_all add: delete_incident_row_def incidents_wf_def distinct_delete_row distinct_map_filter)
    show "incident_ok db i" if "i \<in> set (db_incidents ?db)" for i
      using that assms by (auto simp: delete_incident_row_def delete_row_def incidents_wf_def)
    show "update_ok ?db u" if "u \<in> set (db_updates ?db)" for u
    proof -
      from that have u: "u \<in> set (db_updates db)" "iu_incident_id u \<noteq> iid" by (auto simp: delete_incident_row_def)
      with assms have "update_ok db u" by (simp add: incidents_wf_def)
      with u(2) show ?thesis by (simp add: update_ok_def incident_table.get_remove)
    qed
  qed (simp_all add: delete_incident_row_def)
  with False show ?thesis by (auto simp: delete_incident_def)
qed (use assms in \<open>simp add: delete_incident_def\<close>)

text \<open>Operations on the updates leave the incidents alone.\<close>

lemma wf_updates:
  assumes "incidents_wf db" and "distinct (map iu_id us)" and "\<And>u. u \<in> set us \<Longrightarrow> update_ok db u"
  shows "incidents_wf (db\<lparr>db_updates := us\<rparr>)"
  using assms
  by (intro incidents_wfI [of _ db]) (auto simp: incidents_wf_def update_ok_def get_incident_def)

lemma wf_add_update:
  assumes "fresh_rows fresh_id" and "incidents_wf db" and "validate_update_create p = Inr ()"
  shows "incidents_wf (snd (add_update fresh_id iid p now db))"
proof (cases "get_incident iid db = None")
  case False
  have "fresh_id db \<notin> set (map iu_id (db_updates db))" using assms(1) unfolding fresh_rows_def by blast
  with False assms show ?thesis
    by (auto simp: add_update_def Let_def validate_update_create_def incidents_wf_def [of db] update_ok_def
        intro!: wf_updates split: if_splits)
qed (use assms in \<open>simp add: add_update_def\<close>)

lemma mem_replace_row: "x \<in> set (replace_row key r xs) \<Longrightarrow> x = r \<or> x \<in> set xs"
  by (auto simp: replace_row_def split: if_splits)

lemma wf_update_entry:
  assumes "incidents_wf db" and "validate_update_update p = Inr ()"
  shows "incidents_wf (snd (update_entry uid p db))"
proof (cases "lookup_row iu_id uid (db_updates db)")
  case (Some u)
  then have u: "u \<in> set (db_updates db)" by (auto dest: lookup_row_Some)
  then have ok: "update_ok db u" using assms(1) by (simp add: incidents_wf_def)
  define v where "v = u\<lparr>iu_message := (case uu_message p of Some (Some m) \<Rightarrow> m | _ \<Rightarrow> iu_message u),
    iu_status := (case uu_status p of Some (Some s) \<Rightarrow> s | _ \<Rightarrow> iu_status u),
    iu_posted_at := (case uu_posted_at p of Some (Some t) \<Rightarrow> utc_of t | _ \<Rightarrow> iu_posted_at u)\<rparr>"
  have "update_ok db v"
    using ok assms(2) by (auto simp: v_def update_ok_def validate_update_update_def split: option.splits if_splits)
  then have "incidents_wf (db\<lparr>db_updates := replace_row iu_id v (db_updates db)\<rparr>)"
    using assms(1) by (intro wf_updates) (auto simp: incidents_wf_def dest: mem_replace_row)
  moreover have "snd (update_entry uid p db) = db \<or>
      snd (update_entry uid p db) = db\<lparr>db_updates := replace_row iu_id v (db_updates db)\<rparr>"
    by (simp add: update_entry_def Some v_def Let_def)
  ultimately show ?thesis using assms(1) by auto
qed (use assms in \<open>simp add: update_entry_def\<close>)

lemma wf_delete_update:
  assumes "incidents_wf db"
  shows "incidents_wf (snd (delete_update uid db))"
  using assms by (auto simp: delete_update_def delete_row_def incidents_wf_def [of db] distinct_map_filter intro!: wf_updates)

text \<open>
  C16. Whatever requests arrive, the stored incidents stay well formed: identifiers are unique, every incident belongs
  to an existing project, ends no earlier than it starts and is about a service of its own project or none, and every
  update belongs to an existing incident, says something and has one of the five statuses.
\<close>

theorem incident_requests_keep_wf:
  assumes "fresh_rows fresh_id" and "incidents_wf db"
  shows "incidents_wf (fold (incident_step fresh_id) requests db)"
  using assms(2)
proof (induction requests arbitrary: db)
  case (Cons x xs)
  have "incidents_wf (incident_step fresh_id x db)"
    using Cons.prems assms(1)
    by (cases "(fresh_id, x, db)" rule: incident_step.cases)
      (auto simp: checked_def intro: wf_create wf_update_incident wf_delete_incident wf_add_update wf_update_entry wf_delete_update
        split: sum.split)
  with Cons.IH show ?case by simp
qed simp


definition row_ids :: "database \<Rightarrow> uuid" where
  "row_ids db = ''i'' @ concat (map in_id (db_incidents db)) @ concat (map iu_id (db_updates db))"

lemma length_concat_ge: "x \<in> set xs \<Longrightarrow> length (f x) \<le> length (concat (map f xs))"
  by (induction xs) auto

lemma row_ids_fresh: "fresh_rows row_ids"
  unfolding fresh_rows_def row_ids_def
  by (auto dest!: length_concat_ge [of _ _ in_id] length_concat_ge [of _ _ iu_id] dest: arg_cong [of _ _ length])

definition incident_db :: database where
  "incident_db = empty_database\<lparr>db_projects :=
     [\<lparr>pr_id = ''p1'', pr_name = ''P'', pr_slug = ''p'', pr_description = None, pr_is_active = True, pr_created_at = 0\<rparr>]\<rparr>"

lemma incident_requests_keep_wf_witness:
  "incidents_wf (fold (incident_step row_ids)
     [(CreateIncident ''p1'' \<lparr>ic_title = ''T'', ic_message = ''M'', ic_status = ''investigating'', ic_posted_at = None,
         ic_component = None, ic_starts_at = None, ic_ends_at = None\<rparr>, 5)] incident_db)"
  by (rule incident_requests_keep_wf [OF row_ids_fresh]) (simp add: incidents_wf_def incident_db_def empty_database_def)

section \<open>The public history\<close>

fun day_entries :: "(day \<times> PublicHistoryEntry list) list \<Rightarrow> (day \<times> PublicHistoryEntry) list" where
  "day_entries [] = []"
| "day_entries ((d, es) # days) = map (Pair d) es @ day_entries days"

lemma add_to_day_keys: "fst ` set (add_to_day d e days) = insert d (fst ` set days)"
  by (induction d e days rule: add_to_day.induct) auto

lemma add_to_day_distinct: "distinct (map fst days) \<Longrightarrow> distinct (map fst (add_to_day d e days))"
  by (induction d e days rule: add_to_day.induct) (simp_all add: add_to_day_keys)

lemma add_to_day_lookup:
  "default_to [] (map_of (add_to_day d e days) d') = default_to [] (map_of days d') @ (if d' = d then [e] else [])"
  by (induction d e days rule: add_to_day.induct) auto

lemma add_to_day_nonempty: "\<forall>p \<in> set days. snd p \<noteq> [] \<Longrightarrow> \<forall>p \<in> set (add_to_day d e days). snd p \<noteq> []"
  by (induction d e days rule: add_to_day.induct) auto

definition days_wf :: "(day \<times> PublicHistoryEntry list) list \<Rightarrow> bool" where
  "days_wf days \<longleftrightarrow> distinct (map fst days) \<and> (\<forall>p \<in> set days. snd p \<noteq> [])"

lemma days_wf_add: "days_wf days \<Longrightarrow> days_wf (add_to_day d e days)"
  unfolding days_wf_def using add_to_day_distinct add_to_day_nonempty by blast

lemma days_wf_fold: "days_wf days \<Longrightarrow> days_wf (fold (\<lambda>x. add_to_day (f x) (g x)) xs days)"
  by (induction xs arbitrary: days) (simp_all add: days_wf_add)

lemma fold_add_to_day_lookup:
  "default_to [] (map_of (fold (\<lambda>x. add_to_day (f x) (g x)) xs days) d) =
   default_to [] (map_of days d) @ map g (filter (\<lambda>x. f x = d) xs)"
  by (induction xs arbitrary: days) (simp_all add: add_to_day_lookup)

lemma fold_add_to_day_keys:
  "fst ` set (fold (\<lambda>x. add_to_day (f x) (g x)) xs days) = fst ` set days \<union> f ` set xs"
  by (induction xs arbitrary: days) (simp_all add: add_to_day_keys)

text \<open>Where later updates are on no earlier day, the days come newest first.\<close>

lemma add_to_day_sorted:
  assumes "sorted_wrt (>) (map fst days)" and "\<forall>p \<in> set days. d \<le> fst p"
  shows "sorted_wrt (>) (map fst (add_to_day d e days))"
  using assms
proof (induction d e days rule: add_to_day.induct)
  case (2 d e d' es days)
  show ?case
  proof (cases "d = d'")
    case False
    have "\<forall>x \<in> fst ` set (add_to_day d e days). x < d'"
      unfolding add_to_day_keys using 2(2,3) False by auto
    with 2 False show ?thesis by auto
  qed (use 2 in simp)
qed simp

lemma fold_add_to_day_sorted:
  assumes "sorted_wrt (\<lambda>x y. f y \<le> f x) xs" and "sorted_wrt (>) (map fst days)" and "\<forall>x \<in> set xs. \<forall>p \<in> set days. f x \<le> fst p"
  shows "sorted_wrt (>) (map fst (fold (\<lambda>x. add_to_day (f x) (g x)) xs days))"
  using assms
proof (induction xs arbitrary: days)
  case (Cons x xs)
  have "sorted_wrt (>) (map fst (add_to_day (f x) (g x) days))"
    using Cons.prems by (intro add_to_day_sorted) auto
  moreover have "\<forall>y \<in> set xs. \<forall>p \<in> set (add_to_day (f x) (g x) days). f y \<le> fst p"
  proof (intro ballI)
    fix y p assume y: "y \<in> set xs" and "p \<in> set (add_to_day (f x) (g x) days)"
    then have "fst p \<in> insert (f x) (fst ` set days)" using add_to_day_keys by blast
    then consider "fst p = f x" | q where "q \<in> set days" "fst p = fst q" by auto
    then show "f y \<le> fst p" using y Cons.prems(1,3) by cases auto
  qed
  ultimately show ?case using Cons.IH Cons.prems(1) by simp
qed simp

definition history_date :: "(instant \<Rightarrow> int) \<Rightarrow> IncidentUpdate \<Rightarrow> day" where
  "history_date utcoffset u = date_of (as_local utcoffset (iu_posted_at u))"

text \<open>
  The public history of an active project shows the newest updates of its incidents, at most \<open>limit\<close> of them
  and all of them when there are no more: no day twice and none empty, and under each day exactly the updates posted on it
  by the clock of the display time zone, newest first. In UTC the days come newest first, too.
\<close>

theorem public_history_complete:
  assumes "get_public_history utcoffset slug limit db = Inr h"
  shows "\<exists>p. active_project slug db = Inr p
    \<and> (let shown = project_updates (pr_id p) limit db in
        distinct (map hd_date (ph_days h)) \<and> [] \<notin> set (map hd_entries (ph_days h))
        \<and> hd_date ` set (ph_days h) = (\<lambda>(i, u). history_date utcoffset u) ` set shown
        \<and> (\<forall>d \<in> set (ph_days h). hd_entries d =
              map (\<lambda>(i, u). history_entry db i u) (filter (\<lambda>(i, u). history_date utcoffset u = hd_date d) shown))
        \<and> ((\<forall>t. utcoffset t = 0) \<longrightarrow> sorted_wrt (>) (map hd_date (ph_days h))))"
proof -
  obtain p where p: "active_project slug db = Inr p" using assms by (auto simp: get_public_history_def split: sum.splits)
  define shown where "shown = project_updates (pr_id p) limit db"
  define f where "f = (\<lambda>iu :: Incident \<times> IncidentUpdate. history_date utcoffset (snd iu))"
  define g where "g = (\<lambda>iu. history_entry db (fst iu) (snd iu))"
  define days where "days = fold (\<lambda>x. add_to_day (f x) (g x)) shown []"
  have days: "ph_days h = map history_day days"
    using assms p by (auto simp: get_public_history_def days_def f_def g_def shown_def history_date_def case_prod_beta')
  have wf: "days_wf days" unfolding days_def by (rule days_wf_fold) (simp add: days_wf_def)
  have date: "hd_date (history_day x) = fst x" "hd_entries (history_day x) = snd x" for x
    by (simp_all add: history_day_def case_prod_beta')
  have dates: "map hd_date (ph_days h) = map fst days" by (simp add: days date comp_def)
  have "hd_entries d = map g (filter (\<lambda>x. f x = hd_date d) shown)" if d: "d \<in> set (ph_days h)" for d
  proof -
    obtain x where x: "x \<in> set days" "d = history_day x" using d days by auto
    then have "map_of days (fst x) = Some (snd x)" using wf by (simp add: days_wf_def)
    with fold_add_to_day_lookup [of f g shown "[]" "fst x"] x show ?thesis by (simp add: days_def date)
  qed
  moreover have "hd_date ` set (ph_days h) = f ` set shown"
    using fold_add_to_day_keys [of f g shown "[]"] dates by (metis days_def image_empty image_set list.set(1) sup_bot_left)
  moreover have "sorted_wrt (>) (map fst days)" if utc: "\<forall>t. utcoffset t = 0"
  proof -
    have "sorted_wrt (\<lambda>x y. f y \<le> f x) shown"
      unfolding shown_def project_updates_def
      by (rule sorted_wrt_take, rule sorted_wrt_mono_rel [OF _ sort_desc_sorted])
        (use utc in \<open>auto simp: f_def history_date_def as_local_def date_of_def zdiv_mono1\<close>)
    then show ?thesis unfolding days_def by (rule fold_add_to_day_sorted) simp_all
  qed
  moreover have "[] \<notin> set (map hd_entries (ph_days h))"
    using wf by (auto simp: days date days_wf_def)
  moreover have "distinct (map fst days)" using wf by (simp add: days_wf_def)
  ultimately show ?thesis
    unfolding Let_def dates f_def g_def case_prod_beta' using p shown_def by blast
qed


lemma public_history_complete_witness:
  "\<exists>h. get_public_history (\<lambda>_. 0) ''p'' 200 (incident_db\<lparr>db_incidents := [\<lparr>in_id = ''i'', in_project_id = ''p1'',
       in_monitored_component_id = None, in_title = ''T'', in_starts_at = 0, in_ends_at = None, in_created_at = 0\<rparr>],
     db_updates := [\<lparr>iu_id = ''u'', iu_incident_id = ''i'', iu_message = ''M'', iu_status = ''update'', iu_posted_at = 0\<rparr>]\<rparr>) = Inr h
     \<and> distinct (map hd_date (ph_days h))"
proof -
  let ?db = "incident_db\<lparr>db_incidents := [\<lparr>in_id = ''i'', in_project_id = ''p1'',
       in_monitored_component_id = None, in_title = ''T'', in_starts_at = 0, in_ends_at = None, in_created_at = 0\<rparr>],
     db_updates := [\<lparr>iu_id = ''u'', iu_incident_id = ''i'', iu_message = ''M'', iu_status = ''update'', iu_posted_at = 0\<rparr>]\<rparr>"
  obtain p where "active_project ''p'' ?db = Inr p"
    by (simp add: active_project_def get_project_by_slug_def incident_db_def empty_database_def lookup_row_def)
  then obtain h where h: "get_public_history (\<lambda>_. 0) ''p'' 200 ?db = Inr h" by (simp add: get_public_history_def Let_def)
  from public_history_complete [OF h] h show ?thesis by (auto simp: Let_def)
qed

section \<open>Where the code falls short\<close>

text \<open>
  An end without a time zone cannot be compared with a start that has one: the request ends in a \<open>TypeError\<close>, a
  server error, although its times are accepted one by one.
\<close>

lemma naive_end_is_a_server_error:
  assumes "get_project pid db \<noteq> None" and "ic_component p = None" and "ic_posted_at p = None" and "ic_starts_at p = None"
    and "ic_ends_at p = Some (Naive e)"
  shows "\<exists>msg. create_incident fresh_id pid p now db = (Inl (TypeError msg), db)"
  using assms by (auto simp: create_incident_def resolve_component_def check_end_def)

end
