(* ===== verification/Matcher.thy ===== *)
theory Matcher
  imports PyText PyFloat Database
begin

text \<open>
  Matching the VPN servers of DataGate with the components of a project:
  \<open>src/app/services/datagate/matcher.py\<close> and the endpoint parser of \<open>datagate/client.py\<close>. \<open>nf\<close> stands for Unicode
  normalisation and the removal of emoji (\<open>unicodedata\<close> and a character class outside ASCII). The sets of used
  identifiers are those of the matches made so far.
\<close>

section \<open>Servers and components\<close>

definition SERVER_TYPE_XRAY :: int where "SERVER_TYPE_XRAY = 1"

record DataGateServer =
  ds_id :: int
  ds_server_type :: int
  ds_server_name :: string
  ds_api_url :: "string option"
  ds_is_online :: bool
  ds_is_disabled :: bool
  ds_tags :: "string list"
  ds_host :: "string option"
  ds_port :: "int option"
  ds_proto :: "string option"

definition ds_check_type :: "DataGateServer \<Rightarrow> string" where
  "ds_check_type s = (if ds_server_type s = SERVER_TYPE_XRAY then ''xray'' else ''openvpn'')"

record LocalVpnComponent =
  lc_id :: uuid
  lc_name :: string
  lc_slug :: string
  lc_check_type :: string
  lc_config_text :: "string option"
  lc_server_id :: "int option"
  lc_common_name :: "string option"

section \<open>Endpoints\<close>

record endpoint =
  ep_host :: "string option"
  ep_port :: "int option"
  ep_proto :: "string option"

definition endpoint_line :: "string \<Rightarrow> endpoint \<Rightarrow> endpoint" where
  "endpoint_line raw_line ep =
     (let line = strip raw_line
      in if line = [] \<or> starts_with line ''#'' \<or> starts_with line '';'' then ep
         else case words_of line of
                k # v # vs \<Rightarrow>
                  let key = lower k
                  in if key = ''proto'' then ep\<lparr>ep_proto := Some (lower v)\<rparr>
                     else if key = ''remote''
                     then ep\<lparr>ep_host := Some v,
                             ep_port := (case vs of [] \<Rightarrow> ep_port ep
                                         | p # _ \<Rightarrow> py_or (int_of_str p) (ep_port ep))\<rparr>
                     else if key \<in> {''address'', ''server''} \<and> ep_host ep = None
                     then ep\<lparr>ep_host := Some (takeWhile (\<lambda>c. c \<noteq> CHR '':'') v)\<rparr>
                     else ep
              | _ \<Rightarrow> ep)"

definition parse_ovpn_endpoint :: "string \<Rightarrow> endpoint" where
  "parse_ovpn_endpoint config_text =
     (let ep = fold endpoint_line (text_lines config_text) \<lparr>ep_host = None, ep_port = None, ep_proto = None\<rparr>
      in if ep_host ep = None \<and> contains config_text ''://''
         then case urlparse (hd (words_of (strip config_text))) of
                Inl _ \<Rightarrow> ep
              | Inr u \<Rightarrow>
                  let ep = ep\<lparr>ep_host := py_or (pu_hostname u) (ep_host ep)\<rparr>
                  in (case pu_port u of
                        Inr (Some p) \<Rightarrow> if p = 0 then ep else ep\<lparr>ep_port := Some p\<rparr>
                      | _ \<Rightarrow> ep)
         else ep)"

definition local_endpoint :: "LocalVpnComponent \<Rightarrow> endpoint" where
  "local_endpoint c = parse_ovpn_endpoint (default_to [] (lc_config_text c))"

section \<open>Names and protocols\<close>

definition normalize_name :: "(string \<Rightarrow> string) \<Rightarrow> string \<Rightarrow> string" where
  "normalize_name nf value =
     (let text = fold (\<lambda>token. sub_word token False) [''openvpn'', ''xray'', ''vpn'', ''tcp'', ''udp'', ''api''] (lower (nf value))
      in join '' '' (pieces (\<lambda>c. \<not> is_lower_alnum c) text))"

definition safe_part :: "string \<Rightarrow> string \<Rightarrow> string" where
  "safe_part fallback s =
     (let t = squeeze (\<lambda>c. \<not> (is_alnum c \<or> c = CHR ''_'' \<or> c = CHR ''-'')) ''-'' (strip s)
      in if t = [] then fallback else t)"

definition monitor_common_name :: "string \<Rightarrow> string \<Rightarrow> int \<Rightarrow> string" where
  "monitor_common_name prefix project_slug server_id =
     safe_part ''statusgate'' prefix @ ''-'' @ safe_part ''project'' project_slug @ ''-'' @ int_str server_id"

definition proto_from_name :: "string \<Rightarrow> string option" where "proto_from_name value = proto_from_name_at False value"

definition known_proto :: "string option \<Rightarrow> string option" where
  "known_proto p = (case p of None \<Rightarrow> None | Some s \<Rightarrow> if lower s \<in> {''tcp'', ''udp''} then Some (lower s) else None)"

definition server_proto :: "DataGateServer \<Rightarrow> string option" where
  "server_proto s =
     py_or (known_proto (ds_proto s))
       (py_or (case List.map_filter (\<lambda>tag. known_proto (Some tag)) (ds_tags s) of [] \<Rightarrow> None | p # _ \<Rightarrow> Some p)
              (proto_from_name (ds_server_name s)))"

definition local_proto :: "LocalVpnComponent \<Rightarrow> string option" where
  "local_proto c =
     py_or (known_proto (ep_proto (local_endpoint c))) (py_or (proto_from_name (lc_name c)) (proto_from_name (lc_slug c)))"

definition protos_differ :: "DataGateServer \<Rightarrow> LocalVpnComponent \<Rightarrow> bool" where
  "protos_differ s c =
     (case (server_proto s, local_proto c) of (Some sp, Some lp) \<Rightarrow> sp \<noteq> lp | _ \<Rightarrow> False)"

section \<open>Scores\<close>

definition name_score :: "string \<Rightarrow> string \<Rightarrow> string \<Rightarrow> rat" where
  "name_score sn cn slug_n =
     (if sn = [] \<or> cn = [] then 0
      else if sn = cn \<or> sn = slug_n then 50
      else if contains cn sn \<or> contains sn cn \<or> contains slug_n sn \<or> contains sn slug_n then 35
      else let s_tokens = remdups (words_of sn); c_tokens = remdups (words_of cn @ words_of slug_n);
               common = length (filter (\<lambda>t. t \<in> set c_tokens) s_tokens);
               all = length (remdups (s_tokens @ c_tokens))
           in if s_tokens = [] \<or> c_tokens = [] then 0
              else fl (25 * fl (of_nat common / of_nat (max all 1))))"

definition nonempty_text :: "string option \<Rightarrow> string option" where
  "nonempty_text s = (case s of Some (c # r) \<Rightarrow> Some (c # r) | _ \<Rightarrow> None)"

definition add_endpoint_score :: "DataGateServer \<Rightarrow> endpoint \<Rightarrow> rat \<Rightarrow> rat \<times> bool" where
  "add_endpoint_score s ep score =
     (case (nonempty_text (ds_host s), nonempty_text (ep_host ep)) of
        (Some sh, Some lh) \<Rightarrow>
          if lower sh = lower lh
          then (case (ds_port s, ep_port ep) of
                  (Some p, Some q) \<Rightarrow> (if p = q then fl (fl (score + 40) + 15) else fl (score + 40), True)
                | _ \<Rightarrow> (fl (score + 40), True))
          else if contains (lower lh) (lower sh) \<or> contains (lower sh) (lower lh) then (fl (score + 15), True)
          else (score, False)
      | _ \<Rightarrow> (score, False))"

definition proto_score :: "DataGateServer \<Rightarrow> LocalVpnComponent \<Rightarrow> rat" where
  "proto_score s c =
     (if ds_check_type s = ''openvpn'' \<and> server_proto s \<noteq> None \<and> server_proto s = local_proto c then 20 else 0)"

definition score_pair :: "(string \<Rightarrow> string) \<Rightarrow> DataGateServer \<Rightarrow> LocalVpnComponent \<Rightarrow> rat \<times> bool" where
  "score_pair nf s c =
     (if ds_check_type s \<noteq> lc_check_type c then (0, False)
      else if ds_check_type s = ''openvpn'' \<and> protos_differ s c then (0, False)
      else let names = name_score (normalize_name nf (ds_server_name s)) (normalize_name nf (lc_name c))
                         (normalize_name nf (replace_all ''-'' '' '' (lc_slug c)));
               (score, endpoint_match) = add_endpoint_score s (local_endpoint c) names
           in (fl (score + proto_score s c), endpoint_match))"

definition MATCH_THRESHOLD :: rat where "MATCH_THRESHOLD = 40"

section \<open>Matching\<close>

record MatchResult =
  mr_server :: DataGateServer
  mr_component :: LocalVpnComponent
  mr_score :: rat
  mr_name_differs :: bool
  mr_endpoint_match :: bool
  mr_already_linked :: bool

record PreviewBuckets =
  pb_matched :: "MatchResult list"
  pb_new_servers :: "DataGateServer list"
  pb_unmatched_local :: "LocalVpnComponent list"

definition name_differs :: "DataGateServer \<Rightarrow> LocalVpnComponent \<Rightarrow> bool" where
  "name_differs s c \<longleftrightarrow> strip (ds_server_name s) \<noteq> strip (lc_name c)"

definition used_components :: "MatchResult list \<Rightarrow> uuid list" where
  "used_components m = map (\<lambda>r. lc_id (mr_component r)) m"

definition used_servers :: "MatchResult list \<Rightarrow> int list" where
  "used_servers m = map (\<lambda>r. ds_id (mr_server r)) m"

definition by_dg_id :: "LocalVpnComponent list \<Rightarrow> int \<Rightarrow> LocalVpnComponent option" where
  \<comment> \<open>the last component with the link wins\<close>
  "by_dg_id components k = find (\<lambda>c. lc_server_id c = Some k) (rev components)"

definition keep_link ::
  "(string \<Rightarrow> string) \<Rightarrow> (int \<Rightarrow> LocalVpnComponent option) \<Rightarrow> DataGateServer \<Rightarrow> MatchResult list \<Rightarrow> MatchResult list" where
  "keep_link nf linked s m =
     (case linked (ds_id s) of
        None \<Rightarrow> m
      | Some c \<Rightarrow>
          let (score, endpoint_match) = score_pair nf s c
          in if score < MATCH_THRESHOLD then m
             else m @ [\<lparr>mr_server = s, mr_component = c, mr_score = max score 100, mr_name_differs = name_differs s c,
                        mr_endpoint_match = endpoint_match, mr_already_linked = True\<rparr>])"

definition component_available :: "int list \<Rightarrow> MatchResult list \<Rightarrow> LocalVpnComponent \<Rightarrow> bool" where
  "component_available batch m c \<longleftrightarrow>
     lc_id c \<notin> set (used_components m)
     \<and> (case lc_server_id c of None \<Rightarrow> True | Some linked \<Rightarrow> linked \<in> set batch \<and> linked \<notin> set (used_servers m))"

type_synonym candidate = "rat \<times> bool \<times> DataGateServer \<times> LocalVpnComponent"

definition candidates ::
  "(string \<Rightarrow> string) \<Rightarrow> DataGateServer list \<Rightarrow> LocalVpnComponent list \<Rightarrow> MatchResult list \<Rightarrow> candidate list" where
  "candidates nf servers components m =
     [(fst (score_pair nf s c), snd (score_pair nf s c), s, c).
        s \<leftarrow> servers, ds_id s \<notin> set (used_servers m),
        c \<leftarrow> components, component_available (map ds_id servers) m c \<and> MATCH_THRESHOLD \<le> fst (score_pair nf s c)]"

definition is_endpoint_candidate :: "candidate \<Rightarrow> bool" where
  "is_endpoint_candidate = (\<lambda>(score, endpoint_match, _, _). endpoint_match \<and> 70 \<le> score)"

definition consume_one :: "int list \<Rightarrow> candidate \<Rightarrow> MatchResult list \<Rightarrow> MatchResult list" where
  "consume_one batch = (\<lambda>(score, endpoint_match, s, c) m.
     if ds_id s \<in> set (used_servers m) \<or> lc_id c \<in> set (used_components m) then m
     else if \<not> component_available batch m c then m
     else m @ [\<lparr>mr_server = s, mr_component = c, mr_score = score, mr_name_differs = name_differs s c,
                mr_endpoint_match = endpoint_match, mr_already_linked = False\<rparr>])"

definition consume :: "int list \<Rightarrow> candidate list \<Rightarrow> MatchResult list \<Rightarrow> MatchResult list" where
  "consume batch rows m = fold (consume_one batch) (sort_desc fst rows) m"

definition match_servers :: "(string \<Rightarrow> string) \<Rightarrow> DataGateServer list \<Rightarrow> LocalVpnComponent list \<Rightarrow> PreviewBuckets" where
  "match_servers nf servers components =
     (let batch = map ds_id servers;
          m = fold (keep_link nf (by_dg_id components)) servers [];
          rows = candidates nf servers components m;
          m = consume batch (filter is_endpoint_candidate rows) m;
          m = consume batch (filter (\<lambda>r. \<not> is_endpoint_candidate r) rows) m
      in \<lparr>pb_matched = m, pb_new_servers = filter (\<lambda>s. ds_id s \<notin> set (used_servers m)) servers,
          pb_unmatched_local = filter (\<lambda>c. lc_id c \<notin> set (used_components m)) components\<rparr>)"

section \<open>Lemmas\<close>

definition compatible :: "DataGateServer \<Rightarrow> LocalVpnComponent \<Rightarrow> bool" where
  "compatible s c \<longleftrightarrow> ds_check_type s = lc_check_type c \<and> \<not> (ds_check_type s = ''openvpn'' \<and> protos_differ s c)"

lemma score_incompatible: "\<not> compatible s c \<Longrightarrow> score_pair nf s c = (0, False)"
  by (auto simp: score_pair_def compatible_def)

lemma score_threshold_compatible: "MATCH_THRESHOLD \<le> fst (score_pair nf s c) \<Longrightarrow> compatible s c"
  using score_incompatible [of s c nf] by (cases "compatible s c") (auto simp: MATCH_THRESHOLD_def)

text \<open>A row is a possible match: its scores are those of the pair and reach the threshold.\<close>

definition row_ok :: "(string \<Rightarrow> string) \<Rightarrow> candidate \<Rightarrow> bool" where
  "row_ok nf = (\<lambda>(score, ep, s, c). score = fst (score_pair nf s c) \<and> ep = snd (score_pair nf s c) \<and> MATCH_THRESHOLD \<le> score)"

definition result_ok :: "(string \<Rightarrow> string) \<Rightarrow> DataGateServer list \<Rightarrow> LocalVpnComponent list \<Rightarrow> MatchResult \<Rightarrow> bool" where
  "result_ok nf servers components r \<longleftrightarrow>
     mr_server r \<in> set servers \<and> mr_component r \<in> set components
     \<and> MATCH_THRESHOLD \<le> fst (score_pair nf (mr_server r) (mr_component r))
     \<and> mr_endpoint_match r = snd (score_pair nf (mr_server r) (mr_component r))
     \<and> (if mr_already_linked r then lc_server_id (mr_component r) = Some (ds_id (mr_server r))
        else case lc_server_id (mr_component r) of None \<Rightarrow> True | Some l \<Rightarrow> l \<in> ds_id ` set servers)"

definition matching_ok :: "(string \<Rightarrow> string) \<Rightarrow> DataGateServer list \<Rightarrow> LocalVpnComponent list \<Rightarrow> MatchResult list \<Rightarrow> bool" where
  "matching_ok nf servers components m \<longleftrightarrow>
     distinct (used_servers m) \<and> distinct (used_components m) \<and> list_all (result_ok nf servers components) m"

lemma used_append [simp]:
  "used_servers (m @ n) = used_servers m @ used_servers n" "used_components (m @ n) = used_components m @ used_components n"
  "used_servers [r] = [ds_id (mr_server r)]" "used_components [r] = [lc_id (mr_component r)]"
  "used_servers [] = []" "used_components [] = []"
  "used_servers (r # n) = ds_id (mr_server r) # used_servers n" "used_components (r # n) = lc_id (mr_component r) # used_components n"
  by (simp_all add: used_servers_def used_components_def)

lemma by_dg_id_Some: "by_dg_id cs k = Some c \<Longrightarrow> c \<in> set cs \<and> lc_server_id c = Some k"
  by (auto simp: by_dg_id_def dest: find_Some_in_set)

lemma by_dg_id_None: "by_dg_id cs k = None \<longleftrightarrow> (\<forall>c \<in> set cs. lc_server_id c \<noteq> Some k)"
  by (simp add: by_dg_id_def find_None_all)

text \<open>Keeping the links: server by server, each linked component is that of a different server.\<close>

lemma keep_link_cases:
  obtains (keep) c where "by_dg_id cs (ds_id s) = Some c" and "MATCH_THRESHOLD \<le> fst (score_pair nf s c)"
    and "keep_link nf (by_dg_id cs) s m = m @ [\<lparr>mr_server = s, mr_component = c, mr_score = max (fst (score_pair nf s c)) 100,
      mr_name_differs = name_differs s c, mr_endpoint_match = snd (score_pair nf s c), mr_already_linked = True\<rparr>]"
  | (skip) "keep_link nf (by_dg_id cs) s m = m"
    and "\<And>c. by_dg_id cs (ds_id s) = Some c \<Longrightarrow> fst (score_pair nf s c) < MATCH_THRESHOLD"
proof (cases "by_dg_id cs (ds_id s)")
  case None
  then show ?thesis by (intro skip) (simp_all add: keep_link_def)
next
  case (Some c)
  show ?thesis
  proof (cases "fst (score_pair nf s c) < MATCH_THRESHOLD")
    case True
    then show ?thesis using Some by (intro skip) (simp_all add: keep_link_def case_prod_beta' Let_def)
  next
    case False
    then show ?thesis using Some by (intro keep) (simp_all add: keep_link_def case_prod_beta' Let_def)
  qed
qed

lemma matching_ok_append:
  "matching_ok nf servers cs m \<Longrightarrow> result_ok nf servers cs r \<Longrightarrow> ds_id (mr_server r) \<notin> set (used_servers m)
   \<Longrightarrow> lc_id (mr_component r) \<notin> set (used_components m) \<Longrightarrow> matching_ok nf servers cs (m @ [r])"
  by (simp add: matching_ok_def)

definition links_only :: "MatchResult list \<Rightarrow> bool" where
  "links_only m \<longleftrightarrow> list_all (\<lambda>r. mr_already_linked r) m"

lemma keep_links_ok:
  assumes "distinct (map lc_id cs)" and "distinct (map ds_id todo)" and "set todo \<subseteq> set servers"
    and "matching_ok nf servers cs m" and "links_only m" and "set (used_servers m) \<inter> ds_id ` set todo = {}"
  shows "matching_ok nf servers cs (fold (keep_link nf (by_dg_id cs)) todo m)
    \<and> links_only (fold (keep_link nf (by_dg_id cs)) todo m)
    \<and> set (used_servers (fold (keep_link nf (by_dg_id cs)) todo m)) =
        set (used_servers m) \<union> ds_id ` {s \<in> set todo. \<exists>c. by_dg_id cs (ds_id s) = Some c \<and> MATCH_THRESHOLD \<le> fst (score_pair nf s c)}"
  using assms(2-)
proof (induction todo arbitrary: m)
  case (Cons s todo)
  show ?case
  proof (cases rule: keep_link_cases [of cs s nf m])
    case (keep c)
    note link = by_dg_id_Some [OF keep(1)]
    have fresh_c: "lc_id c \<notin> set (used_components m)"
    proof
      assume "lc_id c \<in> set (used_components m)"
      then obtain r where r: "r \<in> set m" "lc_id (mr_component r) = lc_id c" by (auto simp: used_components_def)
      then have "mr_component r \<in> set cs" "lc_server_id (mr_component r) = Some (ds_id (mr_server r))"
        using Cons.prems(3,4) by (auto simp: matching_ok_def links_only_def list_all_iff result_ok_def)
      moreover from this(1) have "mr_component r = c"
        using r(2) link assms(1) by (metis distinct_map inj_onD)
      ultimately have "ds_id (mr_server r) = ds_id s" using link by simp
      then have "ds_id s \<in> set (used_servers m)" using r(1) by (force simp: used_servers_def)
      with Cons.prems(5) show False by simp
    qed
    let ?m = "keep_link nf (by_dg_id cs) s m"
    have "s \<in> set servers" "ds_id s \<notin> set (used_servers m)" using Cons.prems(2,5) by auto
    then have ok: "matching_ok nf servers cs ?m"
      unfolding keep(3) using Cons.prems(3) fresh_c keep(2) link by (intro matching_ok_append) (simp_all add: result_ok_def)
    have "links_only ?m" using Cons.prems(4) keep by (simp add: links_only_def)
    moreover have "set (used_servers ?m) \<inter> ds_id ` set todo = {}" using Cons.prems(1,5) keep by auto
    ultimately have IH: "matching_ok nf servers cs (fold (keep_link nf (by_dg_id cs)) todo ?m)
      \<and> links_only (fold (keep_link nf (by_dg_id cs)) todo ?m)
      \<and> set (used_servers (fold (keep_link nf (by_dg_id cs)) todo ?m)) =
        set (used_servers ?m) \<union> ds_id ` {s \<in> set todo. \<exists>c. by_dg_id cs (ds_id s) = Some c \<and> MATCH_THRESHOLD \<le> fst (score_pair nf s c)}"
      using Cons.prems(1,2) ok by (intro Cons.IH) auto
    have "{s' \<in> set (s # todo). \<exists>c. by_dg_id cs (ds_id s') = Some c \<and> MATCH_THRESHOLD \<le> fst (score_pair nf s' c)} =
      insert s {s \<in> set todo. \<exists>c. by_dg_id cs (ds_id s) = Some c \<and> MATCH_THRESHOLD \<le> fst (score_pair nf s c)}"
      using keep by auto
    with IH keep(3) show ?thesis by auto
  next
    case skip
    have "matching_ok nf servers cs (fold (keep_link nf (by_dg_id cs)) todo m)
      \<and> links_only (fold (keep_link nf (by_dg_id cs)) todo m)
      \<and> set (used_servers (fold (keep_link nf (by_dg_id cs)) todo m)) =
        set (used_servers m) \<union> ds_id ` {s \<in> set todo. \<exists>c. by_dg_id cs (ds_id s) = Some c \<and> MATCH_THRESHOLD \<le> fst (score_pair nf s c)}"
      using Cons.prems by (intro Cons.IH) auto
    moreover have "{s' \<in> set (s # todo). \<exists>c. by_dg_id cs (ds_id s') = Some c \<and> MATCH_THRESHOLD \<le> fst (score_pair nf s' c)} =
      {s \<in> set todo. \<exists>c. by_dg_id cs (ds_id s) = Some c \<and> MATCH_THRESHOLD \<le> fst (score_pair nf s c)}"
      using skip(2) by fastforce
    ultimately show ?thesis using skip(1) by simp
  qed
qed simp


section \<open>Consuming candidates\<close>

lemma component_available_antimono:
  "component_available batch (m @ n) c \<Longrightarrow> component_available batch m c"
  by (auto simp: component_available_def split: option.splits)

lemma consume_one_cases:
  obtains (take) score ep s c where "x = (score, ep, s, c)" and "ds_id s \<notin> set (used_servers m)"
      and "component_available batch m c"
      and "consume_one batch x m = m @ [\<lparr>mr_server = s, mr_component = c, mr_score = score, mr_name_differs = name_differs s c,
        mr_endpoint_match = ep, mr_already_linked = False\<rparr>]"
  | (leave) "consume_one batch x m = m"
      and "\<And>score ep s c. x = (score, ep, s, c) \<Longrightarrow> ds_id s \<in> set (used_servers m) \<or> \<not> component_available batch m c"
proof -
  obtain score ep s c where x: "x = (score, ep, s, c)" by (cases x)
  show thesis
  proof (cases "ds_id s \<in> set (used_servers m) \<or> \<not> component_available batch m c")
    case True
    then show ?thesis using x by (intro leave) (auto simp: consume_one_def)
  next
    case False
    then have "lc_id c \<notin> set (used_components m)" by (simp add: component_available_def)
    with False x show ?thesis by (intro take) (auto simp: consume_one_def)
  qed
qed

lemma fold_consume_extends: "\<exists>n. fold (consume_one batch) rows m = m @ n"
proof (induction rows arbitrary: m)
  case (Cons x rows)
  show ?case by (cases rule: consume_one_cases [of x m batch]) (use Cons.IH in \<open>auto, metis append_assoc\<close>)
qed simp

text \<open>Rows taken from the candidates.\<close>

definition row_of :: "(string \<Rightarrow> string) \<Rightarrow> DataGateServer list \<Rightarrow> LocalVpnComponent list \<Rightarrow> candidate \<Rightarrow> bool" where
  "row_of nf servers cs = (\<lambda>(score, ep, s, c). s \<in> set servers \<and> c \<in> set cs \<and> score = fst (score_pair nf s c)
     \<and> ep = snd (score_pair nf s c) \<and> MATCH_THRESHOLD \<le> score)"

lemma fold_consume_ok:
  assumes "\<forall>x \<in> set rows. row_of nf servers cs x" and "matching_ok nf servers cs m"
  shows "matching_ok nf servers cs (fold (consume_one (map ds_id servers)) rows m)"
  using assms
proof (induction rows arbitrary: m)
  case (Cons x rows)
  show ?case
  proof (cases rule: consume_one_cases [of x m "map ds_id servers"])
    case (take score ep s c)
    have row: "s \<in> set servers" "c \<in> set cs" "score = fst (score_pair nf s c)" "ep = snd (score_pair nf s c)" "MATCH_THRESHOLD \<le> score"
      using Cons.prems(1) take(1) by (auto simp: row_of_def)
    have "matching_ok nf servers cs (consume_one (map ds_id servers) x m)"
      unfolding take(4) using Cons.prems(2) row take(2,3)
      by (intro matching_ok_append) (auto simp: result_ok_def component_available_def split: option.splits)
    with Cons show ?thesis by simp
  next
    case leave
    with Cons show ?thesis by simp
  qed
qed simp

text \<open>After consuming, no row is left whose server and component are both still free.\<close>

lemma fold_consume_maximal:
  assumes "(score, ep, s, c) \<in> set rows" and "ds_id s \<notin> set (used_servers (fold (consume_one batch) rows m))"
  shows "\<not> component_available batch (fold (consume_one batch) rows m) c"
  using assms
proof (induction rows arbitrary: m)
  case (Cons x rows)
  let ?m = "consume_one batch x m"
  obtain n where n: "fold (consume_one batch) rows ?m = ?m @ n" using fold_consume_extends by blast
  show ?case
  proof (cases "(score, ep, s, c) \<in> set rows")
    case True
    with Cons.IH [of ?m] Cons.prems(2) show ?thesis by simp
  next
    case False
    with Cons.prems(1) have x: "x = (score, ep, s, c)" by simp
    show ?thesis
    proof (cases rule: consume_one_cases [of x m batch])
      case (take score' ep' s' c')
      with x Cons.prems(2) n show ?thesis by simp
    next
      case leave
      from leave(2) [OF x] show ?thesis
      proof
        assume "ds_id s \<in> set (used_servers m)"
        with Cons.prems(2) n leave(1) show ?thesis by simp
      next
        assume "\<not> component_available batch m c"
        with n leave(1) component_available_antimono [of batch m n c] show ?thesis by auto
      qed
    qed
  qed
qed simp


lemma candidates_rows: "\<forall>x \<in> set (candidates nf servers cs m). row_of nf servers cs x"
  by (auto simp: candidates_def row_of_def)

lemma candidates_complete:
  "s \<in> set servers \<Longrightarrow> ds_id s \<notin> set (used_servers m) \<Longrightarrow> c \<in> set cs \<Longrightarrow> component_available (map ds_id servers) m c
   \<Longrightarrow> MATCH_THRESHOLD \<le> fst (score_pair nf s c)
   \<Longrightarrow> (fst (score_pair nf s c), snd (score_pair nf s c), s, c) \<in> set (candidates nf servers cs m)"
  by (auto simp: candidates_def)

text \<open>The three phases.\<close>

definition kept :: "(string \<Rightarrow> string) \<Rightarrow> DataGateServer list \<Rightarrow> LocalVpnComponent list \<Rightarrow> MatchResult list" where
  "kept nf servers cs = fold (keep_link nf (by_dg_id cs)) servers []"
definition by_endpoint :: "(string \<Rightarrow> string) \<Rightarrow> DataGateServer list \<Rightarrow> LocalVpnComponent list \<Rightarrow> MatchResult list" where
  "by_endpoint nf servers cs = consume (map ds_id servers)
     (filter is_endpoint_candidate (candidates nf servers cs (kept nf servers cs))) (kept nf servers cs)"
definition by_name :: "(string \<Rightarrow> string) \<Rightarrow> DataGateServer list \<Rightarrow> LocalVpnComponent list \<Rightarrow> MatchResult list" where
  "by_name nf servers cs = consume (map ds_id servers)
     (filter (\<lambda>r. \<not> is_endpoint_candidate r) (candidates nf servers cs (kept nf servers cs))) (by_endpoint nf servers cs)"

lemma match_servers_phases:
  "match_servers nf servers cs = \<lparr>pb_matched = by_name nf servers cs,
     pb_new_servers = filter (\<lambda>s. ds_id s \<notin> set (used_servers (by_name nf servers cs))) servers,
     pb_unmatched_local = filter (\<lambda>c. lc_id c \<notin> set (used_components (by_name nf servers cs))) cs\<rparr>"
  by (simp add: match_servers_def Let_def by_name_def by_endpoint_def kept_def)

lemma kept_ok:
  assumes "distinct (map lc_id cs)" and "distinct (map ds_id servers)"
  shows "matching_ok nf servers cs (kept nf servers cs)" and "links_only (kept nf servers cs)"
    and "set (used_servers (kept nf servers cs)) =
      ds_id ` {s \<in> set servers. \<exists>c. by_dg_id cs (ds_id s) = Some c \<and> MATCH_THRESHOLD \<le> fst (score_pair nf s c)}"
  using keep_links_ok [OF assms, of servers nf "[]"]
  by (simp_all add: kept_def matching_ok_def links_only_def)

lemma by_name_ok:
  assumes "distinct (map lc_id cs)" and "distinct (map ds_id servers)"
  shows "matching_ok nf servers cs (by_name nf servers cs)"
proof -
  have "matching_ok nf servers cs (by_endpoint nf servers cs)"
    unfolding by_endpoint_def consume_def using kept_ok(1) [OF assms] candidates_rows [of nf servers cs "kept nf servers cs"]
    by (intro fold_consume_ok) auto
  then show ?thesis
    unfolding by_name_def consume_def using candidates_rows [of nf servers cs "kept nf servers cs"]
    by (intro fold_consume_ok) auto
qed

lemma phases_extend: "\<exists>n. by_endpoint nf servers cs = kept nf servers cs @ n" "\<exists>n. by_name nf servers cs = by_endpoint nf servers cs @ n"
  unfolding by_endpoint_def by_name_def consume_def by (rule fold_consume_extends)+

lemma no_pair_left:
  assumes "s \<in> set servers" and "c \<in> set cs" and "ds_id s \<notin> set (used_servers (by_name nf servers cs))"
    and "component_available (map ds_id servers) (by_name nf servers cs) c"
  shows "fst (score_pair nf s c) < MATCH_THRESHOLD"
proof (rule ccontr)
  assume "\<not> ?thesis"
  then have score: "MATCH_THRESHOLD \<le> fst (score_pair nf s c)" by simp
  let ?k = "kept nf servers cs" and ?e = "by_endpoint nf servers cs" and ?rows = "candidates nf servers cs (kept nf servers cs)"
  obtain n1 n2 where ext: "?e = ?k @ n1" "by_name nf servers cs = ?e @ n2" using phases_extend by blast
  have free: "ds_id s \<notin> set (used_servers ?k)" "ds_id s \<notin> set (used_servers ?e)" using assms(3) ext by auto
  have avail: "component_available (map ds_id servers) ?e c" "component_available (map ds_id servers) ?k c"
    using assms(4) ext component_available_antimono by metis+
  let ?row = "(fst (score_pair nf s c), snd (score_pair nf s c), s, c)"
  have row: "?row \<in> set ?rows" using assms(1,2) free avail score by (intro candidates_complete)
  show False
  proof (cases "is_endpoint_candidate ?row")
    case True
    with row have "?row \<in> set (sort_desc fst (filter is_endpoint_candidate ?rows))" by simp
    from fold_consume_maximal [OF this] free(2) avail(1) show False unfolding by_endpoint_def consume_def by blast
  next
    case False
    with row have "?row \<in> set (sort_desc fst (filter (\<lambda>r. \<not> is_endpoint_candidate r) ?rows))" by simp
    from fold_consume_maximal [OF this] assms(3,4) show False unfolding by_name_def consume_def by blast
  qed
qed

lemma kept_are_links:
  "list_all (\<lambda>r. by_dg_id cs (ds_id (mr_server r)) = Some (mr_component r)) m \<Longrightarrow>
   list_all (\<lambda>r. by_dg_id cs (ds_id (mr_server r)) = Some (mr_component r)) (fold (keep_link nf (by_dg_id cs)) ss m)"
proof (induction ss arbitrary: m)
  case (Cons x ss)
  show ?case by (cases rule: keep_link_cases [of cs x nf m]) (use Cons in simp_all)
qed simp

lemma link_kept:
  assumes "distinct (map lc_id cs)" and "distinct (map ds_id servers)"
    and "s \<in> set servers" and "by_dg_id cs (ds_id s) = Some c" and "MATCH_THRESHOLD \<le> fst (score_pair nf s c)"
  shows "\<exists>r \<in> set (by_name nf servers cs). mr_server r = s \<and> mr_component r = c \<and> mr_already_linked r"
proof -
  have "ds_id s \<in> set (used_servers (kept nf servers cs))" unfolding kept_ok(3) [OF assms(1,2)] using assms by blast
  then obtain r where r: "r \<in> set (kept nf servers cs)" "ds_id (mr_server r) = ds_id s" by (auto simp: used_servers_def)
  then have ok: "result_ok nf servers cs r" "mr_already_linked r"
    using kept_ok(1,2) [OF assms(1,2)] by (auto simp: matching_ok_def links_only_def list_all_iff)
  have s: "mr_server r = s" using ok(1) r(2) assms(2,3) by (auto simp: result_ok_def distinct_map dest: inj_onD)
  moreover have "r \<in> set (by_name nf servers cs)" using r(1) phases_extend [of nf servers cs] by auto
  moreover have "mr_component r = c"
    using kept_are_links [of cs "[]" nf servers] r(1) s assms(4) by (auto simp: kept_def list_all_iff)
  ultimately show ?thesis using ok(2) by blast
qed

lemma mset_matched_rest:
  assumes "distinct (map g xs)" and "distinct (map (\<lambda>r. g (f r)) m)" and "\<forall>r \<in> set m. f r \<in> set xs"
  shows "mset xs = mset (map f m) + mset (filter (\<lambda>x. g x \<notin> set (map (\<lambda>r. g (f r)) m)) xs)"
proof -
  have "distinct xs" using assms(1) by (simp add: distinct_map)
  have "distinct (map f m)" using assms(2) by (auto simp: distinct_map inj_on_def)
  have "set (filter (\<lambda>x. g x \<in> set (map (\<lambda>r. g (f r)) m)) xs) = set (map f m)"
    using assms(1,3) by (auto simp: distinct_map dest: inj_onD)
  with \<open>distinct xs\<close> \<open>distinct (map f m)\<close>
  have "mset (filter (\<lambda>x. g x \<in> set (map (\<lambda>r. g (f r)) m)) xs) = mset (map f m)"
    by (intro set_eq_iff_mset_eq_distinct [THEN iffD1]) auto
  then show ?thesis using multiset_partition [of "mset xs" "\<lambda>x. g x \<in> set (map (\<lambda>r. g (f r)) m)"] by (simp flip: mset_filter)
qed

lemma matched_partition:
  assumes "distinct (map ds_id servers)" and "distinct (map lc_id cs)"
  shows "mset servers = mset (map mr_server (pb_matched (match_servers nf servers cs))) + mset (pb_new_servers (match_servers nf servers cs))"
    and "mset cs = mset (map mr_component (pb_matched (match_servers nf servers cs))) + mset (pb_unmatched_local (match_servers nf servers cs))"
    and "r \<in> set (pb_matched (match_servers nf servers cs)) \<Longrightarrow> result_ok nf servers cs r"
proof -
  let ?m = "by_name nf servers cs"
  note ok = by_name_ok [OF assms(2,1), of nf]
  have res: "result_ok nf servers cs r" if "r \<in> set ?m" for r
    using ok that by (simp add: matching_ok_def list_all_iff)
  show "mset servers = mset (map mr_server (pb_matched (match_servers nf servers cs))) + mset (pb_new_servers (match_servers nf servers cs))"
    unfolding match_servers_phases PreviewBuckets.simps
    using mset_matched_rest [of ds_id servers mr_server ?m] assms(1) ok res by (simp add: matching_ok_def used_servers_def result_ok_def)
  show "mset cs = mset (map mr_component (pb_matched (match_servers nf servers cs))) + mset (pb_unmatched_local (match_servers nf servers cs))"
    unfolding match_servers_phases PreviewBuckets.simps
    using mset_matched_rest [of lc_id cs mr_component ?m] assms(2) ok res by (simp add: matching_ok_def used_components_def result_ok_def)
  show "r \<in> set (pb_matched (match_servers nf servers cs)) \<Longrightarrow> result_ok nf servers cs r"
    using res by (simp add: match_servers_phases)
qed

text \<open>
  C13. Matching never mixes things up. No server and no service is matched twice; a match joins a server of the import
  with a service of the project of the same check type, never OpenVPN over TCP with OpenVPN over UDP, and with a score of at least
  40; a service linked to a server outside the import is not taken; and every server is either matched or
  new, every service matched or left over.
\<close>

theorem matching_sound:
  assumes "distinct (map ds_id servers)" and "distinct (map lc_id cs)"
  shows "let b = match_servers nf servers cs in
      distinct (used_servers (pb_matched b)) \<and> distinct (used_components (pb_matched b))
    \<and> (\<forall>r \<in> set (pb_matched b). mr_server r \<in> set servers \<and> mr_component r \<in> set cs
         \<and> compatible (mr_server r) (mr_component r) \<and> 40 \<le> fst (score_pair nf (mr_server r) (mr_component r))
         \<and> (\<forall>l. lc_server_id (mr_component r) = Some l \<longrightarrow> l \<in> ds_id ` set servers))
    \<and> mset servers = mset (map mr_server (pb_matched b)) + mset (pb_new_servers b)
    \<and> mset cs = mset (map mr_component (pb_matched b)) + mset (pb_unmatched_local b)"
proof -
  note part = matched_partition [OF assms, where nf = nf]
  have "compatible (mr_server r) (mr_component r) \<and> 40 \<le> fst (score_pair nf (mr_server r) (mr_component r))
      \<and> mr_server r \<in> set servers \<and> mr_component r \<in> set cs
      \<and> (\<forall>l. lc_server_id (mr_component r) = Some l \<longrightarrow> l \<in> ds_id ` set servers)"
    if "r \<in> set (pb_matched (match_servers nf servers cs))" for r
    using part(3) [OF that] score_threshold_compatible [of nf "mr_server r" "mr_component r"]
    by (auto simp: result_ok_def MATCH_THRESHOLD_def split: if_splits)
  moreover have "distinct (used_servers (pb_matched (match_servers nf servers cs)))" "distinct (used_components (pb_matched (match_servers nf servers cs)))"
    using by_name_ok [OF assms(2,1), of nf] by (simp_all add: matching_ok_def match_servers_phases)
  ultimately show ?thesis using part(1,2) by (simp add: Let_def)
qed

text \<open>
  Matching leaves nothing on the table: an existing link to a server of the import is kept as long as the pair
  is still compatible, and of the servers and the unlinked services left over no pair reaches the threshold.
\<close>

theorem matching_complete:
  assumes "distinct (map ds_id servers)" and "distinct (map lc_id cs)"
  shows "let b = match_servers nf servers cs in
      (\<forall>s \<in> set servers. \<forall>c. by_dg_id cs (ds_id s) = Some c \<longrightarrow> 40 \<le> fst (score_pair nf s c) \<longrightarrow>
         (\<exists>r \<in> set (pb_matched b). mr_server r = s \<and> mr_component r = c \<and> mr_already_linked r))
    \<and> (\<forall>s \<in> set (pb_new_servers b). \<forall>c \<in> set (pb_unmatched_local b). lc_server_id c = None \<longrightarrow> fst (score_pair nf s c) < 40)"
proof -
  have "fst (score_pair nf s c) < MATCH_THRESHOLD" if "s \<in> set servers" "ds_id s \<notin> set (used_servers (by_name nf servers cs))"
    "c \<in> set cs" "lc_id c \<notin> set (used_components (by_name nf servers cs))" "lc_server_id c = None" for s c
    using that by (intro no_pair_left) (simp_all add: component_available_def)
  with link_kept [OF assms(2,1)] show ?thesis by (auto simp: Let_def match_servers_phases MATCH_THRESHOLD_def)
qed


definition sample_server :: DataGateServer where
  "sample_server = \<lparr>ds_id = 5, ds_server_type = 0, ds_server_name = ''Berlin'', ds_api_url = None, ds_is_online = True,
     ds_is_disabled = False, ds_tags = [''tcp''], ds_host = None, ds_port = None, ds_proto = None\<rparr>"

definition sample_local :: LocalVpnComponent where
  "sample_local = \<lparr>lc_id = ''c1'', lc_name = ''Berlin'', lc_slug = ''berlin'', lc_check_type = ''openvpn'', lc_config_text = None,
     lc_server_id = Some 5, lc_common_name = None\<rparr>"

lemma normalize_berlin: "normalize_name (\<lambda>s. s) ''Berlin'' = ''berlin''"
  by code_simp

lemma sample_pair_score: "40 \<le> fst (score_pair (\<lambda>s. s) sample_server sample_local)"
proof -
  have "ds_check_type sample_server = ''openvpn''" by (simp add: ds_check_type_def sample_server_def SERVER_TYPE_XRAY_def)
  moreover have "local_proto sample_local = None" by code_simp
  ultimately show ?thesis
    by (simp add: score_pair_def protos_differ_def sample_server_def sample_local_def normalize_berlin name_score_def Let_def
        add_endpoint_score_def nonempty_text_def proto_score_def split: option.splits)
qed

lemma matching_sound_witness:
  "distinct (used_servers (pb_matched (match_servers (\<lambda>s. s) [sample_server] [sample_local])))"
  using matching_sound [of "[sample_server]" "[sample_local]" "\<lambda>s. s"] by (simp add: Let_def)

lemma matching_complete_witness:
  "\<exists>r \<in> set (pb_matched (match_servers (\<lambda>s. s) [sample_server] [sample_local])). mr_already_linked r"
  using matching_complete [of "[sample_server]" "[sample_local]" "\<lambda>s. s"] sample_pair_score
  by (auto simp: Let_def by_dg_id_def sample_server_def sample_local_def)

text \<open>
  The threshold also cuts links the import made itself: when nothing of the server's name is left after removing
  the noise words and its host is unknown, a pair scores at most 20, so the next import drops the link and takes the server for new.
\<close>

lemma unnamed_server_never_matches:
  assumes "normalize_name nf (ds_server_name s) = []" and "nonempty_text (ds_host s) = None"
  shows "fst (score_pair nf s c) < MATCH_THRESHOLD"
  using assms by (simp add: score_pair_def name_score_def add_endpoint_score_def proto_score_def MATCH_THRESHOLD_def)

lemma unnamed_server_is_new:
  assumes "distinct (map ds_id servers)" and "distinct (map lc_id cs)" and "s \<in> set servers"
    and "normalize_name nf (ds_server_name s) = []" and "nonempty_text (ds_host s) = None"
  shows "s \<in> set (pb_new_servers (match_servers nf servers cs))"
proof -
  have "ds_id s \<notin> set (used_servers (by_name nf servers cs))"
  proof
    assume "ds_id s \<in> set (used_servers (by_name nf servers cs))"
    then obtain r where r: "r \<in> set (by_name nf servers cs)" "ds_id (mr_server r) = ds_id s" by (auto simp: used_servers_def)
    then have ok: "result_ok nf servers cs r" using by_name_ok [OF assms(2,1), of nf] by (simp add: matching_ok_def list_all_iff)
    then have "mr_server r = s" using r(2) assms(1,3) by (auto simp: result_ok_def distinct_map dest: inj_onD)
    with ok unnamed_server_never_matches [OF assms(4,5), of "mr_component r"] show False by (simp add: result_ok_def)
  qed
  with assms(3) show ?thesis by (simp add: match_servers_phases)
qed

end
