(* ===== verification/DatagateImport.thy ===== *)
theory DatagateImport
  imports Matcher Monitoring
begin

text \<open>
  The import of DataGate servers into a project: \<open>src/app/services/datagate/import_service.py\<close>. What the DataGate
  service answers is the record \<open>dg_client\<close>: its servers, already enriched, and the configuration of each, or an error.
  The search for a free slug is a loop without a bound; it is a partial function, \<open>None\<close> when it does not end.
\<close>

section \<open>Slugs\<close>

definition slugify :: "string \<Rightarrow> string" where
  \<comment> \<open>with the fallback \<open>service\<close>\<close>
  "slugify value =
     (let s = squeeze (\<lambda>c. \<not> is_lower_alnum c) ''-'' (lower value);
          slug = take 100 (rstrip_by (\<lambda>c. c = CHR ''-'') (dropWhile (\<lambda>c. c = CHR ''-'') s))
      in if slug = [] then ''service'' else slug)"

definition preferred_new_slug :: "DataGateServer \<Rightarrow> string" where
  "preferred_new_slug s =
     (let base = slugify (ds_server_name s);
          proto = lower (default_to [] (ds_proto s));
          base = (if proto \<in> {''tcp'', ''udp''} \<and> \<not> contains base proto then slugify (base @ ''-'' @ proto) else base)
      in slugify (base @ ''-dg'' @ int_str (ds_id s)))"

partial_function (option) unique_slug_loop :: "(string \<Rightarrow> bool) \<Rightarrow> string \<Rightarrow> nat \<Rightarrow> string \<Rightarrow> string option" where
  "unique_slug_loop free slug n candidate =
     (if free candidate then Some candidate
      else unique_slug_loop free slug (n + 1) (take 100 (slug @ ''-'' @ nat_str n)))"

definition slug_free :: "uuid \<Rightarrow> string list \<Rightarrow> uuid option \<Rightarrow> database \<Rightarrow> string \<Rightarrow> bool" where
  "slug_free project_id reserved exclude_id db candidate \<longleftrightarrow>
     candidate \<notin> set reserved
     \<and> (case find (\<lambda>c. mc_project_id c = project_id \<and> mc_slug c = candidate) (db_components db) of
          None \<Rightarrow> True | Some existing \<Rightarrow> exclude_id = Some (mc_id existing))"

definition unique_slug :: "uuid \<Rightarrow> string \<Rightarrow> string list \<Rightarrow> uuid option \<Rightarrow> database \<Rightarrow> (string \<times> string list) option" where
  "unique_slug project_id base reserved exclude_id db =
     (let slug = slugify base
      in map_option (\<lambda>c. (c, c # reserved)) (unique_slug_loop (slug_free project_id reserved exclude_id db) slug 2 slug))"

section \<open>Requests, answers and the service\<close>

record import_request =
  dr_sync_names :: bool
  dr_refresh_configs :: bool
  dr_import_new :: bool
  dr_server_ids :: "int list option"

record import_item =
  it_server_id :: int
  it_server_name :: string
  it_action :: string
  it_component_id :: "uuid option"
  it_message :: "string option"

record import_response =
  im_items :: "import_item list"
  im_created :: nat
  im_updated :: nat
  im_skipped :: nat
  im_errors :: nat

record dg_client =
  dc_servers :: "string + DataGateServer list" \<comment> \<open>\<open>list_servers\<close>, each passed through \<open>enrich_server\<close>\<close>
  dc_config :: "DataGateServer \<Rightarrow> string \<Rightarrow> string + string" \<comment> \<open>\<open>ensure_config_text\<close> for a common name\<close>
  dc_conflict :: string \<comment> \<open>the driver's text for a violated constraint\<close>

record import_state =
  st_db :: database
  st_items :: "import_item list"
  st_created :: nat
  st_updated :: nat
  st_skipped :: nat
  st_errors :: nat
  st_reserved :: "string list"
  st_max_sort :: int

definition add_item :: "DataGateServer \<Rightarrow> string \<Rightarrow> uuid option \<Rightarrow> string option \<Rightarrow> import_state \<Rightarrow> import_state" where
  "add_item s action cid message st =
     st\<lparr>st_items := st_items st @ [\<lparr>it_server_id = ds_id s, it_server_name = ds_server_name s, it_action = action,
                                    it_component_id = cid, it_message = message\<rparr>]\<rparr>"

section \<open>Components of the project\<close>

definition vpn_components :: "uuid \<Rightarrow> database \<Rightarrow> MonitoredComponent list" where
  "vpn_components project_id db =
     sort_key (\<lambda>c. (mc_sort_order c, mc_name c))
       (filter (\<lambda>c. mc_project_id c = project_id \<and> mc_check_type c \<in> {''openvpn'', ''xray''}) (db_components db))"

definition to_local :: "MonitoredComponent \<Rightarrow> LocalVpnComponent" where
  "to_local c =
     \<lparr>lc_id = mc_id c, lc_name = mc_name c, lc_slug = mc_slug c, lc_check_type = mc_check_type c,
      lc_config_text = (case as_dict (mc_check_config c) of None \<Rightarrow> None | Some d \<Rightarrow> as_str (jget d ''config_text'')),
      lc_server_id = mc_datagate_server_id c, lc_common_name = mc_datagate_common_name c\<rparr>"

definition require_integration :: "uuid \<Rightarrow> database \<Rightarrow> DatagateIntegration res" where
  "require_integration project_id db =
     (if get_project project_id db = None then Inl (HTTPException 404 ''Project not found'')
      else case lookup_row dg_project_id project_id (db_integrations db) of
             None \<Rightarrow> Inl (HTTPException 404 ''DataGate integration is not configured for this project'')
           | Some i \<Rightarrow> if dg_is_enabled i then Inr i
                       else Inl (HTTPException 404 ''DataGate integration is not configured for this project''))"

section \<open>One match\<close>

definition config_json :: "string \<Rightarrow> json" where "config_json text = JObj [(''config_text'', JStr text)]"

definition update_matched ::
  "import_request \<Rightarrow> string \<Rightarrow> MatchResult \<Rightarrow> string option \<Rightarrow> MonitoredComponent \<Rightarrow> MonitoredComponent \<times> string list" where
  \<comment> \<open>the changed row and the parts of the action\<close>
  "update_matched rq cn m config_text c =
     (let s = mr_server m;
          renamed = dr_sync_names rq \<and> mr_name_differs m;
          c = (if renamed then c\<lparr>mc_name := ds_server_name s\<rparr> else c)\<lparr>mc_datagate_server_id := Some (ds_id s)\<rparr>;
          c = (case config_text of
                 Some text \<Rightarrow>
                   c\<lparr>mc_check_config := config_json text, mc_datagate_common_name := Some cn,
                     mc_connection_mode := (if ds_check_type s = ''openvpn'' then ConnectionMode_value PERSISTENT
                                            else mc_connection_mode c),
                     mc_check_url := default_to (mc_check_url c) (nonempty_text (ds_api_url s))\<rparr>
               | None \<Rightarrow> if nonempty_text (mc_datagate_common_name c) = None then c\<lparr>mc_datagate_common_name := Some cn\<rparr> else c);
          parts = (if renamed then [''synced_name''] else []) @ (if config_text = None then [] else [''refreshed_config''])
      in (c, if parts = [] then [''linked''] else parts))"

definition import_match ::
  "dg_client \<Rightarrow> DatagateIntegration \<Rightarrow> Project \<Rightarrow> import_request \<Rightarrow> MatchResult \<Rightarrow> import_state \<Rightarrow> import_state" where
  "import_match dc integ project rq m st =
     (case get_component (lc_id (mr_component m)) (st_db st) of
        None \<Rightarrow> st
      | Some c \<Rightarrow>
          let s = mr_server m;
              cn = monitor_common_name (dg_monitor_cn_prefix integ) (pr_slug project) (ds_id s)
          in (case (if dr_refresh_configs rq then map_sum id Some (dc_config dc s cn) else Inr None) of
                Inl message \<Rightarrow> add_item s ''error'' (Some (mc_id c)) (Some message) (st\<lparr>st_errors := st_errors st + 1\<rparr>)
              | Inr config_text \<Rightarrow>
                  let (c', parts) = update_matched rq cn m config_text c
                  in add_item s (join ''+'' parts) (Some (mc_id c)) None
                       (st\<lparr>st_db := save_component c' (st_db st), st_updated := st_updated st + 1\<rparr>)))"

section \<open>One new server\<close>

definition OPENVPN_COMPONENT_KIND_ID :: uuid where "OPENVPN_COMPONENT_KIND_ID = ''00000000-0000-4000-8000-000000000021''"
definition XRAY_COMPONENT_KIND_ID :: uuid where "XRAY_COMPONENT_KIND_ID = ''00000000-0000-4000-8000-000000000022''"

definition new_component ::
  "settings \<Rightarrow> uuid \<Rightarrow> uuid \<Rightarrow> DataGateServer \<Rightarrow> string \<Rightarrow> string \<Rightarrow> string \<Rightarrow> int \<Rightarrow> MonitoredComponent" where
  "new_component cfg cid project_id s slug config_text cn sort_order =
     (let openvpn = (ds_check_type s = ''openvpn'') in
     \<lparr>mc_id = cid, mc_project_id = project_id,
      mc_component_kind_id = (if ds_check_type s = ''xray'' then XRAY_COMPONENT_KIND_ID else OPENVPN_COMPONENT_KIND_ID),
      mc_group_id = None, mc_name = ds_server_name s, mc_slug = slug, mc_description = None, mc_environment = None,
      mc_check_url = (let u = strip (default_to [] (ds_api_url s)) in if u = [] then default_probe_url cfg else u),
      mc_check_method = ''GET'', mc_expected_status_code = 200, mc_timeout_seconds = 60,
      mc_ip_family = IpFamily_value AUTO, mc_check_type = ds_check_type s, mc_check_config = config_json config_text,
      mc_speed_test_bytes = None, mc_speed_test_url_template = None, mc_speed_test_interval_seconds = None,
      mc_speed_test_enabled = True, mc_poll_interval_seconds = None, mc_sort_order = sort_order,
      mc_connection_mode = (if openvpn then ConnectionMode_value PERSISTENT else ConnectionMode_value EPHEMERAL),
      mc_datagate_server_id = Some (ds_id s), mc_datagate_common_name = Some cn, mc_last_checked_at = None, mc_is_active = True\<rparr>)"

definition insert_violates :: "MonitoredComponent \<Rightarrow> database \<Rightarrow> bool" where
  \<comment> \<open>the primary key, the unique pair and the foreign key of the kind\<close>
  "insert_violates c db \<longleftrightarrow>
     get_component (mc_id c) db \<noteq> None
     \<or> (mc_project_id c, mc_slug c) \<in> set (map (\<lambda>d. (mc_project_id d, mc_slug d)) (db_components db))
     \<or> mc_component_kind_id c \<notin> set (map ck_id (db_kinds db))"

definition import_new ::
  "settings \<Rightarrow> (database \<Rightarrow> uuid) \<Rightarrow> dg_client \<Rightarrow> DatagateIntegration \<Rightarrow> Project \<Rightarrow> DataGateServer \<Rightarrow> import_state
     \<Rightarrow> import_state option" where
  "import_new cfg fresh_id dc integ project s st =
     (let cn = monitor_common_name (dg_monitor_cn_prefix integ) (pr_slug project) (ds_id s)
      in case dc_config dc s cn of
           Inl message \<Rightarrow> Some (add_item s ''error'' None (Some message) (st\<lparr>st_errors := st_errors st + 1\<rparr>))
         | Inr config_text \<Rightarrow>
             let st = st\<lparr>st_max_sort := st_max_sort st + 10\<rparr>
             in (case unique_slug (pr_id project) (preferred_new_slug s) (st_reserved st) None (st_db st) of
                   None \<Rightarrow> None
                 | Some (slug, reserved) \<Rightarrow>
                     let c = new_component cfg (fresh_id (st_db st)) (pr_id project) s slug config_text cn (st_max_sort st)
                     in Some (if insert_violates c (st_db st)
                              then add_item s ''error'' None (Some (''Database conflict: '' @ dc_conflict dc))
                                     (st\<lparr>st_errors := st_errors st + 1, st_reserved := removeAll slug reserved\<rparr>)
                              else add_item s ''created'' (Some (mc_id c)) (Some (''slug='' @ slug))
                                     (st\<lparr>st_db := insert_component c (st_db st), st_created := st_created st + 1,
                                         st_reserved := reserved\<rparr>))))"

fun import_new_all ::
  "settings \<Rightarrow> (database \<Rightarrow> uuid) \<Rightarrow> dg_client \<Rightarrow> DatagateIntegration \<Rightarrow> Project \<Rightarrow> DataGateServer list \<Rightarrow> import_state
     \<Rightarrow> import_state option" where
  "import_new_all cfg fresh_id dc integ project [] st = Some st"
| "import_new_all cfg fresh_id dc integ project (s # ss) st =
     (case import_new cfg fresh_id dc integ project s st of
        None \<Rightarrow> None | Some st \<Rightarrow> import_new_all cfg fresh_id dc integ project ss st)"

definition skip_new :: "DataGateServer list \<Rightarrow> import_state \<Rightarrow> import_state" where
  "skip_new ss st = fold (\<lambda>s. add_item s ''skipped_new'' None None) ss (st\<lparr>st_skipped := st_skipped st + length ss\<rparr>)"

section \<open>The import\<close>

definition selected_servers :: "import_request \<Rightarrow> DataGateServer list \<Rightarrow> DataGateServer list" where
  "selected_servers rq servers =
     (let all_servers = filter (\<lambda>s. \<not> ds_is_disabled s) servers
      in case dr_server_ids rq of None \<Rightarrow> all_servers | Some ids \<Rightarrow> filter (\<lambda>s. ds_id s \<in> set ids) all_servers)"

definition import_servers ::
  "settings \<Rightarrow> (string \<Rightarrow> string) \<Rightarrow> (database \<Rightarrow> uuid) \<Rightarrow> dg_client \<Rightarrow> uuid \<Rightarrow> import_request \<Rightarrow> database
     \<Rightarrow> (import_response res \<times> database) option" where
  \<comment> \<open>with the client that was made for the integration; the secret that cannot be decrypted is the caller's branch\<close>
  "import_servers cfg nf fresh_id dc project_id rq db =
     (case (get_project project_id db, require_integration project_id db) of
        (None, _) \<Rightarrow> Some (Inl (HTTPException 404 ''Project not found''), db)
      | (_, Inl e) \<Rightarrow> Some (Inl e, db)
      | (Some project, Inr integ) \<Rightarrow>
          (case dc_servers dc of
             Inl message \<Rightarrow> Some (Inl (HTTPException 502 message), db)
           | Inr all \<Rightarrow>
               let servers = selected_servers rq all;
                   components = vpn_components project_id db;
                   buckets = match_servers nf servers (map to_local components);
                   st = \<lparr>st_db = db, st_items = [], st_created = 0, st_updated = 0, st_skipped = 0, st_errors = 0,
                         st_reserved = map mc_slug components,
                         st_max_sort = Max (set (if components = [] then [0] else map mc_sort_order components))\<rparr>;
                   st = fold (import_match dc integ project rq) (pb_matched buckets) st
               in (case (if dr_import_new rq then import_new_all cfg fresh_id dc integ project (pb_new_servers buckets) st
                         else Some (skip_new (pb_new_servers buckets) st)) of
                     None \<Rightarrow> None
                   | Some st \<Rightarrow>
                       Some (Inr \<lparr>im_items = st_items st, im_created = st_created st, im_updated = st_updated st,
                                  im_skipped = st_skipped st, im_errors = st_errors st\<rparr>, st_db st))))"

section \<open>The search for a free slug\<close>

lemma length_nat_str_mono: "m \<le> n \<Longrightarrow> length (nat_str m) \<le> length (nat_str n)"
proof (induction n arbitrary: m rule: nat_str.induct)
  case (1 n)
  show ?case
  proof (cases "m < 10")
    case True
    then show ?thesis by (subst (2) nat_str.simps, subst nat_str.simps) simp
  next
    case False
    with "1.prems" have "\<not> n < 10" by simp
    with 1 False have "length (nat_str (m div 10)) \<le> length (nat_str (n div 10))" by (simp add: div_le_mono)
    with False \<open>\<not> n < 10\<close> show ?thesis by (simp add: nat_str.simps [of m] nat_str.simps [of n])
  qed
qed

abbreviation numbered_slug :: "string \<Rightarrow> nat \<Rightarrow> string" where
  "numbered_slug slug n \<equiv> take 100 (slug @ ''-'' @ nat_str n)"

lemma slug_loop_finds:
  "free (numbered_slug slug (n + k)) \<Longrightarrow> \<exists>c. unique_slug_loop free slug n candidate = Some c"
proof (induction k arbitrary: n candidate)
  case 0
  then show ?case
    by (subst unique_slug_loop.simps, subst unique_slug_loop.simps) simp
next
  case (Suc k)
  then show ?case by (subst unique_slug_loop.simps) simp
qed

lemma slug_loop_free: "unique_slug_loop free slug n candidate = Some c \<Longrightarrow> free c"
  by (rule unique_slug_loop.raw_induct [where P = "\<lambda>free slug n candidate c. free c"]) (auto split: if_splits)

lemma slug_loop_returns:
  assumes "finite taken" and "\<And>c. \<not> free c \<Longrightarrow> c \<in> taken"
    and "length slug + 1 + length (nat_str (n + card taken)) \<le> 100"
  shows "\<exists>c. unique_slug_loop free slug n candidate = Some c \<and> free c"
proof -
  have "\<exists>k \<le> card taken. free (numbered_slug slug (n + k))"
  proof (rule ccontr)
    assume no: "\<not> ?thesis"
    have "numbered_slug slug (n + k) = slug @ ''-'' @ nat_str (n + k)" if "k \<le> card taken" for k
      using assms(3) length_nat_str_mono [of "n + k" "n + card taken"] that by simp
    then have "inj_on (\<lambda>k. numbered_slug slug (n + k)) {..card taken}"
      by (intro inj_onI) (simp add: nat_str_inj)
    moreover have "(\<lambda>k. numbered_slug slug (n + k)) ` {..card taken} \<subseteq> taken" using no assms(2) by blast
    ultimately have "card {..card taken} \<le> card taken" using assms(1) by (metis card_inj_on_le)
    then show False by simp
  qed
  then obtain c where "unique_slug_loop free slug n candidate = Some c" using slug_loop_finds by blast
  with slug_loop_free show ?thesis by blast
qed

definition taken_slugs :: "uuid \<Rightarrow> string list \<Rightarrow> database \<Rightarrow> string set" where
  "taken_slugs project_id reserved db =
     set reserved \<union> mc_slug ` {c \<in> set (db_components db). mc_project_id c = project_id}"

lemma slug_free_iff: "slug_free project_id reserved None db c \<longleftrightarrow> c \<notin> taken_slugs project_id reserved db"
  by (auto simp: slug_free_def taken_slugs_def find_None_all split: option.splits dest: find_Some_in_set)

lemma card_taken: "finite (taken_slugs project_id reserved db)"
  "card (taken_slugs project_id reserved db) \<le> length reserved + length (db_components db)"
proof -
  show "finite (taken_slugs project_id reserved db)" by (simp add: taken_slugs_def)
  have "card (taken_slugs project_id reserved db) \<le> card (set reserved) + card (mc_slug ` {c \<in> set (db_components db). mc_project_id c = project_id})"
    unfolding taken_slugs_def by (rule card_Un_le)
  also have "\<dots> \<le> length reserved + card (set (db_components db))"
    by (intro add_mono card_length order_trans [OF card_image_le card_mono]) auto
  finally show "card (taken_slugs project_id reserved db) \<le> length reserved + length (db_components db)"
    using card_length [of "db_components db"] by linarith
qed

text \<open>
  C34. The search for a free slug ends, as long as the number can be appended within the 100 characters of a slug:
  it answers with a slug no component of the project has and that this import has not given away.
\<close>

theorem unique_slug_ends:
  assumes "length (slugify base) + 1 + length (nat_str (2 + length reserved + length (db_components db))) \<le> 100"
  shows "\<exists>slug. unique_slug project_id base reserved None db = Some (slug, slug # reserved)
     \<and> slug \<notin> set reserved \<and> (\<forall>c \<in> set (db_components db). mc_project_id c = project_id \<longrightarrow> mc_slug c \<noteq> slug)"
proof -
  have "length (nat_str (2 + card (taken_slugs project_id reserved db))) \<le> length (nat_str (2 + length reserved + length (db_components db)))"
    using card_taken(2) [of project_id reserved db] by (intro length_nat_str_mono) simp
  then obtain c where "unique_slug_loop (slug_free project_id reserved None db) (slugify base) 2 (slugify base) = Some c"
    and "slug_free project_id reserved None db c"
    using slug_loop_returns [OF card_taken(1), of "slug_free project_id reserved None db" project_id reserved db "slugify base" 2 "slugify base"] assms
    by (auto simp: slug_free_iff)
  then show ?thesis by (auto simp: unique_slug_def Let_def slug_free_iff taken_slugs_def)
qed

lemma slugify_berlin: "slugify ''Berlin'' = ''berlin''"
  by code_simp

lemma unique_slug_ends_witness:
  "\<exists>slug. unique_slug ''p1'' ''Berlin'' [''berlin''] None empty_database = Some (slug, [slug, ''berlin'']) \<and> slug \<noteq> ''berlin''"
proof -
  have "length (nat_str 3) = 1" by (subst nat_str.simps) simp
  then show ?thesis
    using unique_slug_ends [of "''Berlin''" "[''berlin'']" empty_database "''p1''"] by (auto simp: slugify_berlin empty_database_def)
qed

text \<open>
  Where the number falls off the end the search never ends: with a taken slug of 100 characters every candidate is
  that slug again, and the request hangs.
\<close>

lemma long_slug_search_never_ends:
  assumes "length slug = 100" and "\<not> free slug"
  shows "unique_slug_loop free slug n slug = None"
proof -
  have "length s = 100 \<longrightarrow> \<not> free s \<longrightarrow> c \<noteq> s" if "unique_slug_loop free s n c = Some r" for free s n c r
    by (rule unique_slug_loop.raw_induct [where P = "\<lambda>free s n c r. length s = 100 \<longrightarrow> \<not> free s \<longrightarrow> c \<noteq> s", OF _ that])
      (clarsimp split: if_splits, metis)
  with assms show ?thesis by (cases "unique_slug_loop free slug n slug") blast+
qed


section \<open>What an import changes\<close>

definition comp_key :: "MonitoredComponent \<Rightarrow> uuid \<times> uuid \<times> string" where
  "comp_key c = (mc_id c, mc_project_id c, mc_slug c)"

definition components_wf :: "database \<Rightarrow> bool" where
  \<comment> \<open>the primary key and the unique pair of project and slug\<close>
  "components_wf db \<longleftrightarrow> distinct (map mc_id (db_components db))
     \<and> distinct (map (\<lambda>c. (mc_project_id c, mc_slug c)) (db_components db))"

lemma components_wf_keys: "components_wf db \<longleftrightarrow> distinct (map fst (map comp_key (db_components db))) \<and> distinct (map snd (map comp_key (db_components db)))"
  by (simp add: components_wf_def comp_key_def comp_def)

definition tally :: "import_state \<Rightarrow> nat" where
  "tally st = st_created st + st_updated st + st_skipped st + st_errors st"

text \<open>How far a state is from the database \<open>db\<close> before the import into project \<open>pid\<close>.\<close>

definition import_inv :: "uuid \<Rightarrow> database \<Rightarrow> import_state \<Rightarrow> bool" where
  "import_inv pid db st \<longleftrightarrow> components_wf (st_db st)
     \<and> (st_db st)\<lparr>db_components := []\<rparr> = db\<lparr>db_components := []\<rparr>
     \<and> (\<exists>new. map comp_key (db_components (st_db st)) = map comp_key (db_components db) @ new \<and> (\<forall>k \<in> set new. fst (snd k) = pid))
     \<and> filter (\<lambda>c. mc_project_id c \<noteq> pid) (db_components (st_db st)) = filter (\<lambda>c. mc_project_id c \<noteq> pid) (db_components db)
     \<and> tally st = length (st_items st)"

lemma add_item_simps [simp]:
  "st_db (add_item s a c m st) = st_db st" "tally (add_item s a c m st) = tally st"
  "length (st_items (add_item s a c m st)) = Suc (length (st_items st))"
  "map it_server_id (st_items (add_item s a c m st)) = map it_server_id (st_items st) @ [ds_id s]"
  by (simp_all add: add_item_def tally_def)

lemma update_matched_key [simp]: "comp_key (fst (update_matched rq cn m t c)) = comp_key c"
  by (simp add: update_matched_def Let_def comp_key_def split: option.split)

text \<open>Saving a changed row with the same key.\<close>

lemma replace_same_key:
  assumes "distinct (map mc_id xs)" and "c \<in> set xs" and "comp_key c' = comp_key c"
  shows "map comp_key (replace_row mc_id c' xs) = map comp_key xs"
proof -
  have "comp_key x = comp_key c'" if "x \<in> set xs" "mc_id x = mc_id c'" for x
  proof -
    have "mc_id x = mc_id c" using that(2) assms(3) by (simp add: comp_key_def)
    with assms(1,2) that(1) have "x = c" by (metis distinct_map inj_onD)
    with assms(3) show ?thesis by simp
  qed
  then show ?thesis by (simp add: replace_row_def)
qed

lemma replace_other_projects:
  assumes "distinct (map mc_id xs)" and "c \<in> set xs" and "comp_key c' = comp_key c" and "mc_project_id c = pid"
  shows "filter (\<lambda>c. mc_project_id c \<noteq> pid) (replace_row mc_id c' xs) = filter (\<lambda>c. mc_project_id c \<noteq> pid) xs"
proof -
  have same: "x = c" if "x \<in> set xs" "mc_id x = mc_id c'" for x
    using that assms(1-3) by (metis comp_key_def distinct_map fst_conv inj_onD)
  have pid: "mc_project_id c' = pid" using assms(3,4) by (simp add: comp_key_def)
  define f where "f = (\<lambda>x. if mc_id x = mc_id c' then c' else x)"
  have f: "mc_project_id (f x) = mc_project_id x \<and> (mc_project_id x = pid \<or> f x = x)" if "x \<in> set xs" for x
  proof (cases "mc_id x = mc_id c'")
    case True
    with same [OF that] have "x = c" by blast
    with True pid assms(4) show ?thesis by (simp add: f_def)
  qed (simp add: f_def)
  have "filter (\<lambda>c. mc_project_id c \<noteq> pid) (map f xs) = map f (filter (\<lambda>c. mc_project_id (f c) \<noteq> pid) xs)"
    by (simp add: filter_map comp_def)
  also have "filter (\<lambda>c. mc_project_id (f c) \<noteq> pid) xs = filter (\<lambda>c. mc_project_id c \<noteq> pid) xs"
    using f by (intro filter_cong) simp_all
  also have "map f (filter (\<lambda>c. mc_project_id c \<noteq> pid) xs) = filter (\<lambda>c. mc_project_id c \<noteq> pid) xs"
    using f by (intro map_idI) auto
  finally show ?thesis by (simp add: replace_row_def f_def)
qed

lemma inv_save:
  assumes "import_inv pid db st" and "get_component cid (st_db st) = Some c" and "mc_project_id c = pid"
    and "comp_key c' = comp_key c" and "tally st' = length (st_items st')" and "st_db st' = save_component c' (st_db st)"
  shows "import_inv pid db st'" and "map comp_key (db_components (st_db st')) = map comp_key (db_components (st_db st))"
proof -
  have c: "c \<in> set (db_components (st_db st))" using assms(2) by (auto simp: get_component_def dest: lookup_row_Some)
  have d: "distinct (map mc_id (db_components (st_db st)))" using assms(1) by (simp add: import_inv_def components_wf_def)
  have comps: "db_components (st_db st') = replace_row mc_id c' (db_components (st_db st))"
    using assms(6) by (simp add: save_component_def)
  show keys: "map comp_key (db_components (st_db st')) = map comp_key (db_components (st_db st))"
    unfolding comps by (rule replace_same_key [OF d c assms(4)])
  have "(st_db st')\<lparr>db_components := []\<rparr> = db\<lparr>db_components := []\<rparr>"
    using assms(1,6) unfolding import_inv_def save_component_def by simp
  then show "import_inv pid db st'"
    using assms(1,5) keys comps replace_other_projects [OF d c assms(4,3)]
    unfolding import_inv_def components_wf_keys by simp
qed

text \<open>The matched servers.\<close>

definition processed :: "DataGateServer list \<Rightarrow> import_state \<Rightarrow> import_state \<Rightarrow> bool" where
  "processed ss st st' \<longleftrightarrow> map it_server_id (st_items st') = map it_server_id (st_items st) @ map ds_id ss"

lemma processed_trans: "processed ss st st' \<Longrightarrow> processed ts st' st'' \<Longrightarrow> processed (ss @ ts) st st''"
  by (simp add: processed_def)

lemma component_of_key:
  assumes "map comp_key (db_components db') = map comp_key (db_components db)" and "get_component cid db = Some c"
  shows "\<exists>c'. get_component cid db' = Some c' \<and> comp_key c' = comp_key c"
proof -
  have "find (\<lambda>x. mc_id x = cid) ys \<noteq> None \<and> comp_key (the (find (\<lambda>x. mc_id x = cid) ys)) = comp_key c"
    if "map comp_key ys = map comp_key xs" "find (\<lambda>x. mc_id x = cid) xs = Some c" for xs ys
    using that
  proof (induction xs arbitrary: ys)
    case (Cons x xs)
    then obtain y zs where "ys = y # zs" "comp_key y = comp_key x" "map comp_key zs = map comp_key xs" by auto
    with Cons show ?case by (auto simp: comp_key_def split: if_splits)
  qed simp
  from this [OF assms(1)] assms(2) show ?thesis by (auto simp: get_component_def lookup_row_def)
qed

lemma import_match_inv:
  assumes "import_inv pid db st" and "get_component (lc_id (mr_component m)) (st_db st) = Some c" and "mc_project_id c = pid"
  shows "import_inv pid db (import_match dc integ project rq m st)"
    and "processed [mr_server m] st (import_match dc integ project rq m st)"
    and "map comp_key (db_components (st_db (import_match dc integ project rq m st))) = map comp_key (db_components (st_db st))"
    and "st_created (import_match dc integ project rq m st) = st_created st"
proof -
  let ?s = "mr_server m"
  let ?cn = "monitor_common_name (dg_monitor_cn_prefix integ) (pr_slug project) (ds_id ?s)"
  let ?st' = "import_match dc integ project rq m st"
  have "import_inv pid db ?st' \<and> processed [?s] st ?st' \<and> map comp_key (db_components (st_db ?st')) = map comp_key (db_components (st_db st))
    \<and> st_created ?st' = st_created st"
  proof (cases "if dr_refresh_configs rq then map_sum id Some (dc_config dc ?s ?cn) else Inr None")
    case (Inl message)
    then have run: "?st' = add_item ?s ''error'' (Some (mc_id c)) (Some message) (st\<lparr>st_errors := st_errors st + 1\<rparr>)"
      unfolding import_match_def assms(2) option.case Let_def by simp
    show ?thesis using assms(1) unfolding run import_inv_def processed_def by (simp add: tally_def) (simp add: add_item_def)
  next
    case (Inr config_text)
    let ?c' = "fst (update_matched rq ?cn m config_text c)"
    let ?st1 = "st\<lparr>st_db := save_component ?c' (st_db st), st_updated := st_updated st + 1\<rparr>"
    have run: "?st' = add_item ?s (join ''+'' (snd (update_matched rq ?cn m config_text c))) (Some (mc_id c)) None ?st1"
      unfolding import_match_def assms(2) option.case Let_def using Inr by (simp add: case_prod_beta')
    have t: "tally ?st' = length (st_items ?st')"
    proof -
      have "tally st = length (st_items st)" using assms(1) by (simp add: import_inv_def)
      moreover have "tally ?st1 = Suc (tally st)" by (simp add: tally_def)
      ultimately show ?thesis unfolding run by simp
    qed
    from inv_save [OF assms update_matched_key t] have "import_inv pid db ?st' \<and> map comp_key (db_components (st_db ?st')) = map comp_key (db_components (st_db st))"
      unfolding run by simp
    then show ?thesis unfolding run processed_def by (simp add: add_item_def)
  qed
  then show "import_inv pid db ?st'" "processed [?s] st ?st'" "map comp_key (db_components (st_db ?st')) = map comp_key (db_components (st_db st))"
    "st_created ?st' = st_created st" by simp_all
qed

lemma import_matches_inv:
  assumes "import_inv pid db st"
    and "\<forall>m \<in> set ms. \<exists>c. get_component (lc_id (mr_component m)) (st_db st) = Some c \<and> mc_project_id c = pid"
  shows "import_inv pid db (fold (import_match dc integ project rq) ms st)
    \<and> processed (map mr_server ms) st (fold (import_match dc integ project rq) ms st)
    \<and> st_created (fold (import_match dc integ project rq) ms st) = st_created st"
  using assms
proof (induction ms arbitrary: st)
  case Nil
  then show ?case by (simp add: processed_def)
next
  case (Cons m ms)
  obtain c where c: "get_component (lc_id (mr_component m)) (st_db st) = Some c" "mc_project_id c = pid"
    using Cons.prems(2) by auto
  let ?st = "import_match dc integ project rq m st"
  note step = import_match_inv [OF Cons.prems(1) c, of dc integ project rq]
  have "\<forall>m \<in> set ms. \<exists>c. get_component (lc_id (mr_component m)) (st_db ?st) = Some c \<and> mc_project_id c = pid"
    using Cons.prems(2) component_of_key [OF step(3)] by (fastforce simp: comp_key_def)
  with Cons.IH [OF step(1)] step(2,4) processed_trans [of "[mr_server m]" st ?st "map mr_server ms"] show ?case by simp
qed


text \<open>The new servers.\<close>

lemma import_new_inv:
  assumes "import_inv (pr_id project) db st" and "import_new cfg fresh_id dc integ project s st = Some st'"
  shows "import_inv (pr_id project) db st' \<and> processed [s] st st'"
proof -
  let ?cn = "monitor_common_name (dg_monitor_cn_prefix integ) (pr_slug project) (ds_id s)"
  have tal: "tally st = length (st_items st)" using assms(1) by (simp add: import_inv_def)
  have keep: "import_inv (pr_id project) db (add_item s a cid msg st1)"
    if "st_db st1 = st_db st" "tally st1 = Suc (tally st)" "st_items st1 = st_items st" for st1 a cid msg
    using that assms(1) tal unfolding import_inv_def by simp
  have pr: "processed [s] st (add_item s a cid msg st1)" if "st_items st1 = st_items st" for st1 a cid msg
    using that by (simp add: processed_def)
  show ?thesis
  proof (cases "dc_config dc s ?cn")
    case (Inl message)
    with assms(2) have "st' = add_item s ''error'' None (Some message) (st\<lparr>st_errors := st_errors st + 1\<rparr>)"
      by (simp add: import_new_def Let_def)
    then show ?thesis using keep [of "st\<lparr>st_errors := st_errors st + 1\<rparr>"] pr [of "st\<lparr>st_errors := st_errors st + 1\<rparr>"] by (simp add: tally_def)
  next
    case (Inr body)
    obtain slug reserved where u: "unique_slug (pr_id project) (preferred_new_slug s) (st_reserved st) None (st_db st) = Some (slug, reserved)"
      using assms(2) Inr by (auto simp: import_new_def Let_def split: option.splits)
    define c where "c = new_component cfg (fresh_id (st_db st)) (pr_id project) s slug body ?cn (st_max_sort st + 10)"
    have c: "mc_project_id c = pr_id project" by (simp add: c_def new_component_def Let_def)
    show ?thesis
    proof (cases "insert_violates c (st_db st)")
      case True
      with assms(2) Inr u have st': "st' = add_item s ''error'' None (Some (''Database conflict: '' @ dc_conflict dc))
          (st\<lparr>st_max_sort := st_max_sort st + 10, st_errors := st_errors st + 1, st_reserved := removeAll slug reserved\<rparr>)"
        by (simp add: import_new_def Let_def c_def)
      show ?thesis unfolding st' by (intro conjI keep pr) (simp_all add: tally_def)
    next
      case False
      define st1 where "st1 = st\<lparr>st_max_sort := st_max_sort st + 10, st_db := insert_component c (st_db st),
        st_created := st_created st + 1, st_reserved := reserved\<rparr>"
      have st': "st' = add_item s ''created'' (Some (mc_id c)) (Some (''slug='' @ slug)) st1"
        using assms(2) Inr u False by (simp add: import_new_def Let_def c_def st1_def)
      have comps: "db_components (st_db st1) = db_components (st_db st) @ [c]" by (simp add: st1_def insert_component_def)
      have new: "mc_id c \<notin> set (map mc_id (db_components (st_db st)))"
        "(mc_project_id c, mc_slug c) \<notin> set (map (\<lambda>c. (mc_project_id c, mc_slug c)) (db_components (st_db st)))"
        using False by (auto simp: insert_violates_def get_component_def lookup_row_None)
      have "components_wf (st_db st1)"
        using assms(1) new unfolding import_inv_def components_wf_def comps by auto
      moreover have "(st_db st1)\<lparr>db_components := []\<rparr> = db\<lparr>db_components := []\<rparr>"
        using assms(1) unfolding import_inv_def st1_def by (simp add: insert_component_def)
      moreover have "\<exists>new. map comp_key (db_components (st_db st1)) = map comp_key (db_components db) @ new \<and> (\<forall>k \<in> set new. fst (snd k) = pr_id project)"
      proof -
        obtain new where "map comp_key (db_components (st_db st)) = map comp_key (db_components db) @ new" "\<forall>k \<in> set new. fst (snd k) = pr_id project"
          using assms(1) unfolding import_inv_def by blast
        then show ?thesis using c by (intro exI [of _ "new @ [comp_key c]"]) (auto simp: comps comp_key_def)
      qed
      moreover have "filter (\<lambda>c. mc_project_id c \<noteq> pr_id project) (db_components (st_db st1)) = filter (\<lambda>c. mc_project_id c \<noteq> pr_id project) (db_components db)"
        using assms(1) c unfolding import_inv_def comps by simp
      moreover have "tally st1 = Suc (length (st_items st1))" using tal by (simp add: st1_def tally_def)
      ultimately have "import_inv (pr_id project) db st'" unfolding st' import_inv_def by simp
      then show ?thesis unfolding st' by (simp add: processed_def st1_def)
    qed
  qed
qed

lemma import_new_all_inv:
  assumes "import_inv (pr_id project) db st" and "import_new_all cfg fresh_id dc integ project ss st = Some st'"
  shows "import_inv (pr_id project) db st' \<and> processed ss st st'"
  using assms
proof (induction ss arbitrary: st)
  case Nil
  then show ?case by (simp add: processed_def)
next
  case (Cons s ss)
  then obtain st1 where st1: "import_new cfg fresh_id dc integ project s st = Some st1"
    "import_new_all cfg fresh_id dc integ project ss st1 = Some st'" by (auto split: option.splits)
  from import_new_inv [OF Cons.prems(1) st1(1)] Cons.IH [OF _ st1(2)] processed_trans [of "[s]" st st1 ss st'] show ?case by simp
qed

lemma skip_new_inv:
  assumes "import_inv pid db st"
  shows "import_inv pid db (skip_new ss st) \<and> processed ss st (skip_new ss st)"
proof -
  have fold: "st_db (fold (\<lambda>s. add_item s ''skipped_new'' None None) ss st) = st_db st
    \<and> tally (fold (\<lambda>s. add_item s ''skipped_new'' None None) ss st) = tally st
    \<and> length (st_items (fold (\<lambda>s. add_item s ''skipped_new'' None None) ss st)) = length (st_items st) + length ss
    \<and> processed ss st (fold (\<lambda>s. add_item s ''skipped_new'' None None) ss st)" for st
    by (induction ss arbitrary: st) (simp_all add: processed_def)
  let ?st = "st\<lparr>st_skipped := st_skipped st + length ss\<rparr>"
  have "tally ?st = tally st + length ss" by (simp add: tally_def)
  with fold [of ?st] assms show ?thesis by (simp add: skip_new_def import_inv_def processed_def)
qed

section \<open>The whole import\<close>

lemma vpn_component_found:
  assumes "components_wf db" and "l \<in> set (map to_local (vpn_components pid db))"
  shows "\<exists>c. get_component (lc_id l) db = Some c \<and> mc_project_id c = pid"
proof -
  obtain c where c: "c \<in> set (db_components db)" "mc_project_id c = pid" "lc_id l = mc_id c"
    using assms(2) by (auto simp: vpn_components_def to_local_def)
  moreover have "lookup_row mc_id (mc_id c) (db_components db) = Some c"
    using assms(1) c(1) by (intro lookup_row_mem) (simp_all add: components_wf_def)
  ultimately show ?thesis by (auto simp: get_component_def)
qed

lemma vpn_components_distinct:
  assumes "components_wf db"
  shows "distinct (map lc_id (map to_local (vpn_components pid db)))"
proof -
  have "distinct (map mc_id (filter (\<lambda>c. mc_project_id c = pid \<and> mc_check_type c \<in> {''openvpn'', ''xray''}) (db_components db)))" (is "distinct (map _ ?f)")
    using assms by (simp add: components_wf_def distinct_map_filter)
  moreover have "mset (map mc_id (vpn_components pid db)) = mset (map mc_id ?f)" by (simp add: vpn_components_def)
  ultimately have "distinct (map mc_id (vpn_components pid db))" using mset_eq_imp_distinct_iff by blast
  moreover have "lc_id \<circ> to_local = mc_id" by (simp add: to_local_def fun_eq_iff)
  ultimately show ?thesis by simp
qed

lemma import_run:
  assumes wf: "components_wf db" and all: "dc_servers dc = Inr servers" and "distinct (map ds_id servers)"
    and run: "import_servers cfg nf fresh_id dc pid rq db = Some (Inr resp, db')"
  obtains st where "import_inv pid db st" "st_db st = db'"
    "resp = \<lparr>im_items = st_items st, im_created = st_created st, im_updated = st_updated st,
             im_skipped = st_skipped st, im_errors = st_errors st\<rparr>"
    "mset (map it_server_id (st_items st)) = mset (map ds_id (selected_servers rq servers))"
proof -
  obtain project integ where p: "get_project pid db = Some project" "require_integration pid db = Inr integ"
    using run by (auto simp: import_servers_def split: option.splits sum.splits)
  have pid: "pr_id project = pid" using p(1) lookup_row_Some by (fastforce simp: get_project_def)
  let ?sel = "selected_servers rq servers"
  let ?b = "match_servers nf ?sel (map to_local (vpn_components pid db))"
  define st0 where "st0 = \<lparr>st_db = db, st_items = [], st_created = 0, st_updated = 0, st_skipped = 0, st_errors = 0,
     st_reserved = map mc_slug (vpn_components pid db),
     st_max_sort = Max (set (if vpn_components pid db = [] then [0] else map mc_sort_order (vpn_components pid db)))\<rparr>"
  define st1 where "st1 = fold (import_match dc integ project rq) (pb_matched ?b) st0"
  obtain st where st: "(if dr_import_new rq then import_new_all cfg fresh_id dc integ project (pb_new_servers ?b) st1
      else Some (skip_new (pb_new_servers ?b) st1)) = Some st"
    and out: "st_db st = db'" "resp = \<lparr>im_items = st_items st, im_created = st_created st, im_updated = st_updated st,
             im_skipped = st_skipped st, im_errors = st_errors st\<rparr>"
    using run unfolding import_servers_def p all st1_def st0_def by (auto simp: Let_def split: option.splits)
  have sel: "distinct (map ds_id ?sel)"
    using assms(3) by (simp add: selected_servers_def Let_def distinct_map_filter split: option.split)
  note part = matched_partition [OF sel vpn_components_distinct [OF wf], where nf = nf]
  have "import_inv pid db st0" using wf unfolding import_inv_def st0_def by (simp add: tally_def)
  moreover have "\<exists>c. get_component (lc_id (mr_component m)) (st_db st0) = Some c \<and> mc_project_id c = pid" if "m \<in> set (pb_matched ?b)" for m
    using part(3) [OF that] vpn_component_found [OF wf] by (simp add: st0_def result_ok_def)
  ultimately have one: "import_inv pid db st1" "processed (map mr_server (pb_matched ?b)) st0 st1"
    using import_matches_inv [of pid db st0 "pb_matched ?b" dc integ project rq] by (simp_all add: st1_def)
  have "import_inv pid db st \<and> processed (pb_new_servers ?b) st1 st"
    using st one(1) import_new_all_inv [of project db st1] skip_new_inv [OF one(1)] pid by (auto split: if_splits)
  with processed_trans [OF one(2)] have two: "import_inv pid db st" "processed (map mr_server (pb_matched ?b) @ pb_new_servers ?b) st0 st"
    by blast+
  have "mset (map it_server_id (st_items st)) = image_mset ds_id (mset (map mr_server (pb_matched ?b)) + mset (pb_new_servers ?b))"
    using two(2) by (simp add: processed_def st0_def image_mset.compositionality)
  then have "mset (map it_server_id (st_items st)) = mset (map ds_id ?sel)" unfolding part(1) [symmetric] by simp
  with that two(1) out show thesis by blast
qed

text \<open>
  An import accounts for every server: the answer has exactly one item for each server that is enabled and
  asked for, and the four counters add up to the number of items.
\<close>

theorem import_accounts_for_every_server:
  assumes "components_wf db" and "dc_servers dc = Inr servers" and "distinct (map ds_id servers)"
    and "import_servers cfg nf fresh_id dc pid rq db = Some (Inr resp, db')"
  shows "mset (map it_server_id (im_items resp)) = mset (map ds_id (selected_servers rq servers))
    \<and> im_created resp + im_updated resp + im_skipped resp + im_errors resp = length (im_items resp)"
proof -
  obtain st where st: "import_inv pid db st"
    "resp = \<lparr>im_items = st_items st, im_created = st_created st, im_updated = st_updated st, im_skipped = st_skipped st, im_errors = st_errors st\<rparr>"
    "mset (map it_server_id (st_items st)) = mset (map ds_id (selected_servers rq servers))"
    using import_run [OF assms] by metis
  from st(1) have "tally st = length (st_items st)" by (simp add: import_inv_def)
  with st(2,3) show ?thesis by (simp add: tally_def)
qed

text \<open>
  C15. An import stays in its project. Every other table and every component of the other projects are left as they were; no
  component is lost, and those that were there keep their identifier, project and slug; what is added belongs to
  the project; and identifiers and slugs stay unique.
\<close>

theorem import_stays_in_project:
  assumes "components_wf db" and "dc_servers dc = Inr servers" and "distinct (map ds_id servers)"
    and "import_servers cfg nf fresh_id dc pid rq db = Some (Inr resp, db')"
  shows "components_wf db' \<and> db'\<lparr>db_components := []\<rparr> = db\<lparr>db_components := []\<rparr>
    \<and> filter (\<lambda>c. mc_project_id c \<noteq> pid) (db_components db') = filter (\<lambda>c. mc_project_id c \<noteq> pid) (db_components db)
    \<and> (\<exists>new. map comp_key (db_components db') = map comp_key (db_components db) @ new \<and> (\<forall>k \<in> set new. fst (snd k) = pid))"
proof -
  obtain st where "import_inv pid db st" "st_db st = db'" using import_run [OF assms] by metis
  then show ?thesis unfolding import_inv_def by blast
qed

definition import_db :: database where
  "import_db = empty_database\<lparr>db_projects := [sample_project],
     db_kinds := [\<lparr>ck_id = OPENVPN_COMPONENT_KIND_ID, ck_name = ''OpenVPN'', ck_slug = ''openvpn'', ck_description = None\<rparr>],
     db_integrations := [\<lparr>dg_project_id = ''p1'', dg_base_url = ''https://dg'', dg_client_id = ''i'', dg_client_secret = ''s'',
       dg_monitor_cn_prefix = ''sg'', dg_is_enabled = True\<rparr>]\<rparr>"

definition import_client :: dg_client where
  "import_client = \<lparr>dc_servers = Inr [sample_server], dc_config = (\<lambda>s cn. Inr ''dev tun''), dc_conflict = ''''\<rparr>"

definition import_all_request :: import_request where
  "import_all_request = \<lparr>dr_sync_names = True, dr_refresh_configs = True, dr_import_new = True, dr_server_ids = None\<rparr>"

declare unique_slug_loop.simps [code]

lemma import_creates:
  "map_option fst (import_servers sample_cfg (\<lambda>s. s) (\<lambda>db. ''c9'') import_client ''p1'' import_all_request import_db)
    = Some (Inr \<lparr>im_items = [\<lparr>it_server_id = 5, it_server_name = ''Berlin'', it_action = ''created'', it_component_id = Some ''c9'',
         it_message = Some ''slug=berlin-dg5''\<rparr>], im_created = 1, im_updated = 0, im_skipped = 0, im_errors = 0\<rparr>)"
  by code_simp

lemma import_db_wf: "components_wf import_db"
  by (simp add: import_db_def components_wf_def empty_database_def)

lemma import_accounts_for_every_server_witness:
  "\<exists>resp db'. import_servers sample_cfg (\<lambda>s. s) (\<lambda>db. ''c9'') import_client ''p1'' import_all_request import_db = Some (Inr resp, db')
     \<and> mset (map it_server_id (im_items resp)) = {#5#} \<and> im_created resp = 1"
proof -
  obtain resp db' where run: "import_servers sample_cfg (\<lambda>s. s) (\<lambda>db. ''c9'') import_client ''p1'' import_all_request import_db = Some (Inr resp, db')"
    and "im_created resp = 1" using import_creates by auto
  moreover have "selected_servers import_all_request [sample_server] = [sample_server]"
    by (simp add: selected_servers_def import_all_request_def sample_server_def)
  ultimately show ?thesis
    using import_accounts_for_every_server [OF import_db_wf _ _ run, of "[sample_server]"] by (auto simp: import_client_def sample_server_def)
qed

lemma import_stays_in_project_witness:
  "\<exists>resp db'. import_servers sample_cfg (\<lambda>s. s) (\<lambda>db. ''c9'') import_client ''p1'' import_all_request import_db = Some (Inr resp, db')
     \<and> components_wf db' \<and> filter (\<lambda>c. mc_project_id c \<noteq> ''p1'') (db_components db') = []"
proof -
  obtain resp db' where run: "import_servers sample_cfg (\<lambda>s. s) (\<lambda>db. ''c9'') import_client ''p1'' import_all_request import_db = Some (Inr resp, db')"
    using import_creates by auto
  have "components_wf db' \<and> filter (\<lambda>c. mc_project_id c \<noteq> ''p1'') (db_components db') = filter (\<lambda>c. mc_project_id c \<noteq> ''p1'') (db_components import_db)"
    using import_stays_in_project [OF import_db_wf _ _ run, of "[sample_server]"] by (simp add: import_client_def)
  then show ?thesis using run by (auto simp: import_db_def empty_database_def)
qed

end
