(* ===== verification/Catalog.thy ===== *)
theory Catalog
  imports Incidents DatagateImport
begin

text \<open>
  The catalogue of projects, kinds, groups and monitored components: \<open>src/app/services/catalog_service.py\<close> with the
  request bodies of \<open>src/app/schemas/{project,component_kind,component_group,monitored_component}.py\<close>. A field of a
  partial update is \<open>None\<close> when it is not sent, \<open>Some None\<close> when it is sent as \<open>null\<close>. A constraint of the database
  that a request violates raises \<open>IntegrityError\<close> and nothing is changed.
\<close>

section \<open>Fields of a request\<close>

type_synonym 'a patch = "'a option option"

definition patched :: "'a patch \<Rightarrow> 'a \<Rightarrow> 'a" where
  \<comment> \<open>\<open>setattr\<close> on a column that is not nullable; \<open>null\<close> never gets this far\<close>
  "patched p old = (case p of Some (Some v) \<Rightarrow> v | _ \<Rightarrow> old)"

definition sends_null :: "'a patch \<Rightarrow> bool" where "sends_null p \<longleftrightarrow> p = Some None"

definition sent_ok :: "('a \<Rightarrow> bool) \<Rightarrow> 'a patch \<Rightarrow> bool" where
  \<comment> \<open>the constraints of an optional field hold for a value, not for \<open>null\<close>\<close>
  "sent_ok ok p = (case p of Some (Some v) \<Rightarrow> ok v | _ \<Rightarrow> True)"

lemma patched_simps [simp]: "patched None x = x" "patched (Some None) x = x" "patched (Some (Some v)) x = v"
  by (simp_all add: patched_def)

lemma sent_ok_patched: "sent_ok ok p \<Longrightarrow> ok old \<Longrightarrow> ok (patched p old)"
  by (simp add: sent_ok_def patched_def split: option.splits)

definition name_ok :: "string \<Rightarrow> bool" where "name_ok s \<longleftrightarrow> 1 \<le> length s \<and> length s \<le> 255"

definition slug_ok :: "string \<Rightarrow> bool" where
  "slug_ok s \<longleftrightarrow> 1 \<le> length s \<and> length s \<le> 100 \<and> list_all (\<lambda>c. is_lower_alnum c \<or> c = CHR ''-'') s"

definition not_null :: "bool list \<Rightarrow> 'a \<Rightarrow> database \<Rightarrow> database \<Rightarrow> 'a res \<times> database" where
  \<comment> \<open>the flush: the row is written unless a \<open>NOT NULL\<close> column would become \<open>null\<close>\<close>
  "not_null nulls row db' db =
     (if list_ex id nulls then (Inl (IntegrityError ''null value violates not-null constraint''), db) else (Inr row, db'))"

section \<open>Projects\<close>

record ProjectCreate =
  pjc_name :: string
  pjc_slug :: string
  pjc_description :: "string option"
  pjc_is_active :: bool

record ProjectUpdate =
  pju_name :: "string patch"
  pju_slug :: "string patch"
  pju_description :: "string patch"
  pju_is_active :: "bool patch"

definition validate_project_create :: "ProjectCreate \<Rightarrow> unit res" where
  "validate_project_create p = (if name_ok (pjc_name p) \<and> slug_ok (pjc_slug p) then Inr () else Inl ValidationError)"

definition validate_project_update :: "ProjectUpdate \<Rightarrow> unit res" where
  "validate_project_update p =
     (if sent_ok name_ok (pju_name p) \<and> sent_ok slug_ok (pju_slug p) then Inr () else Inl ValidationError)"

definition find_project :: "uuid \<Rightarrow> database \<Rightarrow> Project res" where
  "find_project pid db =
     (case get_project pid db of None \<Rightarrow> Inl (HTTPException 404 ''Project not found'') | Some p \<Rightarrow> Inr p)"

definition create_project :: "(database \<Rightarrow> uuid) \<Rightarrow> ProjectCreate \<Rightarrow> instant \<Rightarrow> database \<Rightarrow> Project res \<times> database" where
  "create_project fresh_id p now db =
     (if get_project_by_slug (pjc_slug p) db \<noteq> None then (Inl (HTTPException 409 ''Project slug already exists''), db)
      else let row = \<lparr>pr_id = fresh_id db, pr_name = pjc_name p, pr_slug = pjc_slug p, pr_description = pjc_description p,
                      pr_is_active = pjc_is_active p, pr_created_at = now\<rparr>
           in (Inr row, insert_project row db))"

definition taken_by_other :: "('r \<Rightarrow> uuid) \<Rightarrow> 'r option \<Rightarrow> uuid \<Rightarrow> bool" where
  \<comment> \<open>\<open>existing and existing.id != id\<close>\<close>
  "taken_by_other key existing rid = (case existing of None \<Rightarrow> False | Some r \<Rightarrow> key r \<noteq> rid)"

definition slug_conflict :: "('r \<Rightarrow> uuid) \<Rightarrow> (string \<Rightarrow> 'r option) \<Rightarrow> string patch \<Rightarrow> string \<Rightarrow> uuid \<Rightarrow> bool" where
  \<comment> \<open>a changed slug another row has; no row has the slug \<open>null\<close>\<close>
  "slug_conflict key by_slug sent old rid =
     (case sent of Some (Some s) \<Rightarrow> s \<noteq> old \<and> taken_by_other key (by_slug s) rid | _ \<Rightarrow> False)"

definition update_project :: "uuid \<Rightarrow> ProjectUpdate \<Rightarrow> database \<Rightarrow> Project res \<times> database" where
  "update_project pid p db =
     (case find_project pid db of
        Inl e \<Rightarrow> (Inl e, db)
      | Inr project \<Rightarrow>
          if slug_conflict pr_id (\<lambda>s. get_project_by_slug s db) (pju_slug p) (pr_slug project) (pr_id project)
          then (Inl (HTTPException 409 ''Project slug already exists''), db)
          else let row = project\<lparr>pr_name := patched (pju_name p) (pr_name project),
                                 pr_slug := patched (pju_slug p) (pr_slug project),
                                 pr_description := default_to (pr_description project) (pju_description p),
                                 pr_is_active := patched (pju_is_active p) (pr_is_active project)\<rparr>
               in not_null [sends_null (pju_name p), sends_null (pju_slug p), sends_null (pju_is_active p)]
                    row (save_project row db) db)"

definition delete_project :: "uuid \<Rightarrow> database \<Rightarrow> unit res \<times> database" where
  "delete_project pid db =
     (case find_project pid db of Inl e \<Rightarrow> (Inl e, db) | Inr project \<Rightarrow> (Inr (), delete_project_row (pr_id project) db))"

section \<open>Kinds of components\<close>

record ComponentKindCreate =
  kc_name :: string
  kc_slug :: string
  kc_description :: "string option"

record ComponentKindUpdate =
  ku_name :: "string patch"
  ku_slug :: "string patch"
  ku_description :: "string patch"

definition validate_kind_create :: "ComponentKindCreate \<Rightarrow> unit res" where
  "validate_kind_create p = (if name_ok (kc_name p) \<and> slug_ok (kc_slug p) then Inr () else Inl ValidationError)"

definition validate_kind_update :: "ComponentKindUpdate \<Rightarrow> unit res" where
  "validate_kind_update p =
     (if sent_ok name_ok (ku_name p) \<and> sent_ok slug_ok (ku_slug p) then Inr () else Inl ValidationError)"

definition get_kind_by_slug :: "string \<Rightarrow> database \<Rightarrow> ComponentKind option" where
  "get_kind_by_slug slug db = lookup_row ck_slug slug (db_kinds db)"

definition find_kind :: "uuid \<Rightarrow> database \<Rightarrow> ComponentKind res" where
  "find_kind kid db =
     (case get_kind kid db of None \<Rightarrow> Inl (HTTPException 404 ''Component kind not found'') | Some k \<Rightarrow> Inr k)"

definition create_kind :: "(database \<Rightarrow> uuid) \<Rightarrow> ComponentKindCreate \<Rightarrow> database \<Rightarrow> ComponentKind res \<times> database" where
  "create_kind fresh_id p db =
     (if get_kind_by_slug (kc_slug p) db \<noteq> None then (Inl (HTTPException 409 ''Component kind slug already exists''), db)
      else let row = \<lparr>ck_id = fresh_id db, ck_name = kc_name p, ck_slug = kc_slug p, ck_description = kc_description p\<rparr>
           in (Inr row, insert_kind row db))"

definition update_kind :: "uuid \<Rightarrow> ComponentKindUpdate \<Rightarrow> database \<Rightarrow> ComponentKind res \<times> database" where
  "update_kind kid p db =
     (case find_kind kid db of
        Inl e \<Rightarrow> (Inl e, db)
      | Inr kind \<Rightarrow>
          if slug_conflict ck_id (\<lambda>s. get_kind_by_slug s db) (ku_slug p) (ck_slug kind) (ck_id kind)
          then (Inl (HTTPException 409 ''Component kind slug already exists''), db)
          else let row = kind\<lparr>ck_name := patched (ku_name p) (ck_name kind), ck_slug := patched (ku_slug p) (ck_slug kind),
                              ck_description := default_to (ck_description kind) (ku_description p)\<rparr>
               in not_null [sends_null (ku_name p), sends_null (ku_slug p)] row (save_kind row db) db)"

definition delete_kind :: "uuid \<Rightarrow> database \<Rightarrow> unit res \<times> database" where
  \<comment> \<open>the foreign key of the components is \<open>ON DELETE RESTRICT\<close>\<close>
  "delete_kind kid db =
     (case find_kind kid db of
        Inl e \<Rightarrow> (Inl e, db)
      | Inr kind \<Rightarrow>
          if list_ex (\<lambda>c. mc_component_kind_id c = ck_id kind) (db_components db)
          then (Inl (IntegrityError ''violates foreign key constraint''), db)
          else (Inr (), delete_kind_row (ck_id kind) db))"

section \<open>Groups of a project\<close>

record ComponentGroupCreate =
  gc_project_id :: uuid
  gc_name :: string
  gc_slug :: string
  gc_description :: "string option"
  gc_sort_order :: int
  gc_is_active :: bool

record ComponentGroupUpdate =
  gu_name :: "string patch"
  gu_slug :: "string patch"
  gu_description :: "string patch"
  gu_sort_order :: "int patch"
  gu_is_active :: "bool patch"

definition sort_order_ok :: "int \<Rightarrow> bool" where "sort_order_ok n \<longleftrightarrow> 0 \<le> n \<and> n \<le> 1000000"

definition validate_group_create :: "ComponentGroupCreate \<Rightarrow> unit res" where
  "validate_group_create p =
     (if name_ok (gc_name p) \<and> slug_ok (gc_slug p) \<and> sort_order_ok (gc_sort_order p) then Inr () else Inl ValidationError)"

definition validate_group_update :: "ComponentGroupUpdate \<Rightarrow> unit res" where
  "validate_group_update p =
     (if sent_ok name_ok (gu_name p) \<and> sent_ok slug_ok (gu_slug p) \<and> sent_ok sort_order_ok (gu_sort_order p) then Inr ()
      else Inl ValidationError)"

definition group_by_slug :: "uuid \<Rightarrow> string \<Rightarrow> database \<Rightarrow> ComponentGroup option" where
  "group_by_slug pid slug db = find (\<lambda>g. cg_project_id g = pid \<and> cg_slug g = slug) (db_groups db)"

definition find_group :: "uuid \<Rightarrow> database \<Rightarrow> ComponentGroup res" where
  "find_group gid db =
     (case get_group gid db of None \<Rightarrow> Inl (HTTPException 404 ''Component group not found'') | Some g \<Rightarrow> Inr g)"

definition list_groups :: "uuid \<Rightarrow> int \<Rightarrow> int \<Rightarrow> database \<Rightarrow> (ComponentGroup list \<times> nat) res" where
  \<comment> \<open>the page and the total\<close>
  "list_groups pid offset limit db =
     (case get_project pid db of
        None \<Rightarrow> Inl (HTTPException 404 ''Project not found'')
      | Some _ \<Rightarrow>
          let rows = filter (\<lambda>g. cg_project_id g = pid) (db_groups db)
          in Inr (page offset limit (sort_key (\<lambda>g. (cg_sort_order g, cg_name g)) rows), length rows))"

definition create_group :: "(database \<Rightarrow> uuid) \<Rightarrow> ComponentGroupCreate \<Rightarrow> database \<Rightarrow> ComponentGroup res \<times> database" where
  "create_group fresh_id p db =
     (if get_project (gc_project_id p) db = None then (Inl (HTTPException 404 ''Project not found''), db)
      else if group_by_slug (gc_project_id p) (gc_slug p) db \<noteq> None
      then (Inl (HTTPException 409 ''Group slug already exists in project''), db)
      else let row = \<lparr>cg_id = fresh_id db, cg_project_id = gc_project_id p, cg_name = gc_name p, cg_slug = gc_slug p,
                      cg_description = gc_description p, cg_sort_order = gc_sort_order p, cg_is_active = gc_is_active p\<rparr>
           in (Inr row, insert_group row db))"

definition update_group :: "uuid \<Rightarrow> ComponentGroupUpdate \<Rightarrow> database \<Rightarrow> ComponentGroup res \<times> database" where
  "update_group gid p db =
     (case find_group gid db of
        Inl e \<Rightarrow> (Inl e, db)
      | Inr g \<Rightarrow>
          if slug_conflict cg_id (\<lambda>s. group_by_slug (cg_project_id g) s db) (gu_slug p) (cg_slug g) (cg_id g)
          then (Inl (HTTPException 409 ''Group slug already exists in project''), db)
          else let row = g\<lparr>cg_name := patched (gu_name p) (cg_name g), cg_slug := patched (gu_slug p) (cg_slug g),
                               cg_description := default_to (cg_description g) (gu_description p),
                               cg_sort_order := patched (gu_sort_order p) (cg_sort_order g),
                               cg_is_active := patched (gu_is_active p) (cg_is_active g)\<rparr>
               in not_null [sends_null (gu_name p), sends_null (gu_slug p), sends_null (gu_sort_order p), sends_null (gu_is_active p)]
                    row (save_group row db) db)"

definition delete_group :: "uuid \<Rightarrow> database \<Rightarrow> unit res \<times> database" where
  "delete_group gid db =
     (case find_group gid db of Inl e \<Rightarrow> (Inl e, db) | Inr g \<Rightarrow> (Inr (), delete_group_row (cg_id g) db))"

section \<open>Monitored components\<close>

record MonitoredComponentCreate =
  cc_project_id :: uuid
  cc_component_kind_id :: uuid
  cc_name :: string
  cc_slug :: string
  cc_description :: "string option"
  cc_environment :: "string option"
  cc_check_url :: string
  cc_check_method :: string
  cc_check_type :: string
  cc_check_config :: "string option" \<comment> \<open>the \<open>config_text\<close> of a \<open>VpnCheckConfig\<close>\<close>
  cc_speed_test_bytes :: "int option"
  cc_speed_test_url_template :: "string option"
  cc_speed_test_interval_seconds :: "int option"
  cc_speed_test_enabled :: "bool option"
  cc_expected_status_code :: int
  cc_timeout_seconds :: int
  cc_ip_family :: string
  cc_poll_interval_seconds :: "int option"
  cc_connection_mode :: string
  cc_group_id :: "uuid option"
  cc_sort_order :: int
  cc_is_active :: bool

record MonitoredComponentUpdate =
  cu_project_id :: "uuid patch"
  cu_component_kind_id :: "uuid patch"
  cu_name :: "string patch"
  cu_slug :: "string patch"
  cu_description :: "string patch"
  cu_environment :: "string patch"
  cu_check_url :: "string patch"
  cu_check_method :: "string patch"
  cu_check_type :: "string patch"
  cu_check_config :: "string patch"
  cu_speed_test_bytes :: "int patch"
  cu_speed_test_url_template :: "string patch"
  cu_speed_test_interval_seconds :: "int patch"
  cu_speed_test_enabled :: "bool patch"
  cu_expected_status_code :: "int patch"
  cu_timeout_seconds :: "int patch"
  cu_ip_family :: "string patch"
  cu_poll_interval_seconds :: "int patch"
  cu_connection_mode :: "string patch"
  cu_group_id :: "uuid patch"
  cu_sort_order :: "int patch"
  cu_is_active :: "bool patch"

definition between :: "int \<Rightarrow> int \<Rightarrow> int \<Rightarrow> bool" where "between lo hi n \<longleftrightarrow> lo \<le> n \<and> n \<le> hi"
definition at_most :: "nat \<Rightarrow> string \<Rightarrow> bool" where "at_most n s \<longleftrightarrow> length s \<le> n"
definition opt_ok :: "('a \<Rightarrow> bool) \<Rightarrow> 'a option \<Rightarrow> bool" where "opt_ok ok v = (case v of None \<Rightarrow> True | Some x \<Rightarrow> ok x)"

definition config_ok :: "string \<Rightarrow> bool" where "config_ok text \<longleftrightarrow> 10 \<le> length text \<and> length text \<le> 200000"
definition check_type_ok :: "string \<Rightarrow> bool" where "check_type_ok s \<longleftrightarrow> s \<in> {''http_status'', ''json'', ''xml'', ''openvpn'', ''xray''}"
definition connection_mode_ok :: "string \<Rightarrow> bool" where "connection_mode_ok s \<longleftrightarrow> s \<in> {''ephemeral'', ''persistent''}"
definition ip_family_ok :: "string \<Rightarrow> bool" where "ip_family_ok s \<longleftrightarrow> s \<in> {''auto'', ''ipv4'', ''ipv6''}"
definition speed_bytes_ok :: "int \<Rightarrow> bool" where "speed_bytes_ok = between 1024 52428800"
definition speed_interval_ok :: "int \<Rightarrow> bool" where "speed_interval_ok = between 0 86400"

definition create_fields_ok :: "MonitoredComponentCreate \<Rightarrow> bool" where
  "create_fields_ok p \<longleftrightarrow>
     name_ok (cc_name p) \<and> slug_ok (cc_slug p) \<and> opt_ok (at_most 50) (cc_environment p) \<and> at_most 2048 (cc_check_url p)
     \<and> at_most 10 (cc_check_method p) \<and> check_type_ok (cc_check_type p) \<and> opt_ok config_ok (cc_check_config p)
     \<and> opt_ok speed_bytes_ok (cc_speed_test_bytes p) \<and> opt_ok (at_most 2048) (cc_speed_test_url_template p)
     \<and> opt_ok speed_interval_ok (cc_speed_test_interval_seconds p) \<and> between 100 599 (cc_expected_status_code p)
     \<and> between 1 300 (cc_timeout_seconds p) \<and> ip_family_ok (cc_ip_family p) \<and> opt_ok (between 10 86400) (cc_poll_interval_seconds p)
     \<and> connection_mode_ok (cc_connection_mode p) \<and> sort_order_ok (cc_sort_order p)"

definition fill_vpn_defaults :: "settings \<Rightarrow> MonitoredComponentCreate \<Rightarrow> MonitoredComponentCreate" where
  "fill_vpn_defaults cfg p =
     p\<lparr>cc_check_url := (if strip (cc_check_url p) = [] then default_probe_url cfg else cc_check_url p),
       cc_timeout_seconds := (if cc_timeout_seconds p < 30 then 30 else cc_timeout_seconds p)\<rparr>"

definition checked_template :: "string option \<Rightarrow> string option res" where
  \<comment> \<open>pydantic turns every \<open>ValueError\<close> of a validator into a rejected body\<close>
  "checked_template v =
     (case v of
        None \<Rightarrow> Inr None
      | Some url \<Rightarrow> (case validate_speed_test_url_template url of Inl _ \<Rightarrow> Inl ValidationError | Inr url \<Rightarrow> Inr (Some url)))"

definition validate_component_create :: "settings \<Rightarrow> MonitoredComponentCreate \<Rightarrow> MonitoredComponentCreate res" where
  \<comment> \<open>the body the route sees\<close>
  "validate_component_create cfg p =
     (if \<not> create_fields_ok p then Inl ValidationError
      else if cc_check_type p \<in> set VPN_CHECK_TYPES then
        if cc_check_config p = None then Inl ValidationError
        else (case checked_template (cc_speed_test_url_template p) of
                Inl e \<Rightarrow> Inl e
              | Inr url \<Rightarrow> if cc_connection_mode p = ''persistent'' \<and> cc_check_type p \<noteq> ''openvpn'' then Inl ValidationError
                           else Inr ((fill_vpn_defaults cfg p)\<lparr>cc_speed_test_url_template := url\<rparr>))
      else if cc_connection_mode p \<noteq> ''ephemeral'' \<or> strip (cc_check_url p) = [] \<or> cc_check_config p \<noteq> None
        \<or> cc_speed_test_bytes p \<noteq> None \<or> cc_speed_test_url_template p \<noteq> None \<or> cc_speed_test_interval_seconds p \<noteq> None
        \<or> cc_speed_test_enabled p \<noteq> None then Inl ValidationError
      else Inr p)"

definition update_fields_ok :: "MonitoredComponentUpdate \<Rightarrow> bool" where
  "update_fields_ok p \<longleftrightarrow>
     sent_ok name_ok (cu_name p) \<and> sent_ok slug_ok (cu_slug p) \<and> sent_ok (at_most 50) (cu_environment p)
     \<and> sent_ok (at_most 2048) (cu_check_url p) \<and> sent_ok (at_most 10) (cu_check_method p)
     \<and> sent_ok check_type_ok (cu_check_type p) \<and> sent_ok config_ok (cu_check_config p)
     \<and> sent_ok speed_bytes_ok (cu_speed_test_bytes p) \<and> sent_ok (at_most 2048) (cu_speed_test_url_template p)
     \<and> sent_ok speed_interval_ok (cu_speed_test_interval_seconds p) \<and> sent_ok (between 100 599) (cu_expected_status_code p)
     \<and> sent_ok (between 1 300) (cu_timeout_seconds p) \<and> sent_ok ip_family_ok (cu_ip_family p)
     \<and> sent_ok (between 10 86400) (cu_poll_interval_seconds p) \<and> sent_ok connection_mode_ok (cu_connection_mode p)
     \<and> sent_ok sort_order_ok (cu_sort_order p)"

definition validate_component_update :: "MonitoredComponentUpdate \<Rightarrow> MonitoredComponentUpdate res" where
  "validate_component_update p =
     (if \<not> update_fields_ok p then Inl ValidationError
      else if cu_connection_mode p = Some (Some ''persistent'')
        \<and> (case cu_check_type p of Some (Some t) \<Rightarrow> t \<noteq> ''openvpn'' | _ \<Rightarrow> False) then Inl ValidationError
      else (case cu_speed_test_url_template p of
              Some v \<Rightarrow> map_sum id (\<lambda>v. p\<lparr>cu_speed_test_url_template := Some v\<rparr>) (checked_template v)
            | None \<Rightarrow> Inr p))"

definition component_by_slug :: "uuid \<Rightarrow> string \<Rightarrow> database \<Rightarrow> MonitoredComponent option" where
  "component_by_slug pid slug db = find (\<lambda>c. mc_project_id c = pid \<and> mc_slug c = slug) (db_components db)"

definition find_component :: "uuid \<Rightarrow> database \<Rightarrow> MonitoredComponent res" where
  "find_component cid db =
     (case get_component cid db of None \<Rightarrow> Inl (HTTPException 404 ''Monitored component not found'') | Some c \<Rightarrow> Inr c)"

definition resolve_group :: "uuid \<Rightarrow> uuid option \<Rightarrow> database \<Rightarrow> unit res" where
  "resolve_group project_id group_id db =
     (case group_id of
        None \<Rightarrow> Inr ()
      | Some gid \<Rightarrow>
          (case get_group gid db of
             None \<Rightarrow> Inl (HTTPException 404 ''Component group not found'')
           | Some g \<Rightarrow> if cg_project_id g \<noteq> project_id
                       then Inl (HTTPException 422 ''Component group must belong to the same project'') else Inr ()))"

definition stored_config :: "string option \<Rightarrow> json" where
  "stored_config v = (case v of None \<Rightarrow> JNull | Some text \<Rightarrow> config_json text)"

definition component_of_payload :: "uuid \<Rightarrow> MonitoredComponentCreate \<Rightarrow> MonitoredComponent" where
  "component_of_payload cid p =
     \<lparr>mc_id = cid, mc_project_id = cc_project_id p, mc_component_kind_id = cc_component_kind_id p, mc_group_id = cc_group_id p,
      mc_name = cc_name p, mc_slug = cc_slug p, mc_description = cc_description p, mc_environment = cc_environment p,
      mc_check_url = cc_check_url p, mc_check_method = cc_check_method p, mc_expected_status_code = cc_expected_status_code p,
      mc_timeout_seconds = cc_timeout_seconds p, mc_ip_family = cc_ip_family p, mc_check_type = cc_check_type p,
      mc_check_config = stored_config (cc_check_config p), mc_speed_test_bytes = cc_speed_test_bytes p,
      mc_speed_test_url_template = cc_speed_test_url_template p,
      mc_speed_test_interval_seconds = cc_speed_test_interval_seconds p,
      mc_speed_test_enabled = default_to True (cc_speed_test_enabled p),
      mc_poll_interval_seconds = cc_poll_interval_seconds p, mc_sort_order = cc_sort_order p,
      mc_connection_mode = cc_connection_mode p, mc_datagate_server_id = None, mc_datagate_common_name = None,
      mc_last_checked_at = None, mc_is_active = cc_is_active p\<rparr>"

definition create_component ::
  "(database \<Rightarrow> uuid) \<Rightarrow> MonitoredComponentCreate \<Rightarrow> database \<Rightarrow> MonitoredComponent res \<times> database" where
  "create_component fresh_id p db =
     (if get_project (cc_project_id p) db = None then (Inl (HTTPException 404 ''Project not found''), db)
      else if get_kind (cc_component_kind_id p) db = None then (Inl (HTTPException 404 ''Component kind not found''), db)
      else if component_by_slug (cc_project_id p) (cc_slug p) db \<noteq> None
      then (Inl (HTTPException 409 ''Component slug already exists in project''), db)
      else case resolve_group (cc_project_id p) (cc_group_id p) db of
             Inl e \<Rightarrow> (Inl e, db)
           | Inr _ \<Rightarrow> let row = component_of_payload (fresh_id db) p in (Inr row, insert_component row db))"

definition is_sent :: "'a patch \<Rightarrow> bool" where "is_sent p \<longleftrightarrow> (\<exists>v. p = Some (Some v))"

lemma is_sent_code [code]: "is_sent p = (case p of Some (Some _) \<Rightarrow> True | _ \<Rightarrow> False)"
  by (simp add: is_sent_def split: option.split)

definition speed_fields_check :: "MonitoredComponentUpdate \<Rightarrow> string option \<Rightarrow> unit res" where
  "speed_fields_check p check_type =
     (let vpn = (case check_type of None \<Rightarrow> False | Some t \<Rightarrow> t \<in> set VPN_CHECK_TYPES);
          refused = (\<lambda>field. Inl (HTTPException 422 (field @ '' is only supported for VPN check types'')))
      in if vpn then Inr ()
         else if is_sent (cu_speed_test_bytes p) then refused ''speed_test_bytes''
         else if is_sent (cu_speed_test_url_template p) then refused ''speed_test_url_template''
         else if is_sent (cu_speed_test_interval_seconds p) then refused ''speed_test_interval_seconds''
         else if is_sent (cu_speed_test_enabled p) then refused ''speed_test_enabled''
         else Inr ())"

definition resolve_targets :: "MonitoredComponentUpdate \<Rightarrow> uuid \<Rightarrow> database \<Rightarrow> unit res" where
  \<comment> \<open>the project, the kind and the group of an update; no row has the identifier \<open>null\<close>\<close>
  "resolve_targets p project_id db =
     (if (case cu_project_id p of None \<Rightarrow> False | Some None \<Rightarrow> True | Some (Some k) \<Rightarrow> get_project k db = None)
      then Inl (HTTPException 404 ''Project not found'')
      else if (case cu_component_kind_id p of None \<Rightarrow> False | Some None \<Rightarrow> True | Some (Some k) \<Rightarrow> get_kind k db = None)
      then Inl (HTTPException 404 ''Component kind not found'')
      else case cu_group_id p of None \<Rightarrow> Inr () | Some g \<Rightarrow> resolve_group project_id g db)"

definition apply_update :: "MonitoredComponentUpdate \<Rightarrow> MonitoredComponent \<Rightarrow> MonitoredComponent" where
  "apply_update p c =
     c\<lparr>mc_project_id := patched (cu_project_id p) (mc_project_id c),
       mc_component_kind_id := patched (cu_component_kind_id p) (mc_component_kind_id c),
       mc_group_id := default_to (mc_group_id c) (cu_group_id p),
       mc_name := patched (cu_name p) (mc_name c), mc_slug := patched (cu_slug p) (mc_slug c),
       mc_description := default_to (mc_description c) (cu_description p),
       mc_environment := default_to (mc_environment c) (cu_environment p),
       mc_check_url := patched (cu_check_url p) (mc_check_url c),
       mc_check_method := patched (cu_check_method p) (mc_check_method c),
       mc_expected_status_code := patched (cu_expected_status_code p) (mc_expected_status_code c),
       mc_timeout_seconds := patched (cu_timeout_seconds p) (mc_timeout_seconds c),
       mc_ip_family := patched (cu_ip_family p) (mc_ip_family c),
       mc_check_type := patched (cu_check_type p) (mc_check_type c),
       mc_check_config := (case cu_check_config p of None \<Rightarrow> mc_check_config c | Some v \<Rightarrow> stored_config v),
       mc_speed_test_bytes := default_to (mc_speed_test_bytes c) (cu_speed_test_bytes p),
       mc_speed_test_url_template := default_to (mc_speed_test_url_template c) (cu_speed_test_url_template p),
       mc_speed_test_interval_seconds := default_to (mc_speed_test_interval_seconds c) (cu_speed_test_interval_seconds p),
       mc_speed_test_enabled := patched (cu_speed_test_enabled p) (mc_speed_test_enabled c),
       mc_poll_interval_seconds := default_to (mc_poll_interval_seconds c) (cu_poll_interval_seconds p),
       mc_sort_order := patched (cu_sort_order p) (mc_sort_order c),
       mc_connection_mode := patched (cu_connection_mode p) (mc_connection_mode c),
       mc_is_active := patched (cu_is_active p) (mc_is_active c)\<rparr>"

definition update_nulls :: "MonitoredComponentUpdate \<Rightarrow> bool list" where
  "update_nulls p =
     [sends_null (cu_name p), sends_null (cu_slug p), sends_null (cu_check_url p), sends_null (cu_check_method p),
      sends_null (cu_expected_status_code p), sends_null (cu_timeout_seconds p), sends_null (cu_ip_family p),
      sends_null (cu_check_type p), sends_null (cu_sort_order p), sends_null (cu_connection_mode p), sends_null (cu_is_active p)]"

definition update_component :: "uuid \<Rightarrow> MonitoredComponentUpdate \<Rightarrow> database \<Rightarrow> MonitoredComponent res \<times> database" where
  "update_component cid p db =
     (case find_component cid db of
        Inl e \<Rightarrow> (Inl e, db)
      | Inr c \<Rightarrow>
          let check_type = default_to (Some (mc_check_type c)) (cu_check_type p);
              project_id = patched (cu_project_id p) (mc_project_id c);
              taken = (if sends_null (cu_slug p) then False
                       else taken_by_other mc_id (component_by_slug project_id (patched (cu_slug p) (mc_slug c)) db) (mc_id c))
          in (case speed_fields_check p check_type of
                Inl e \<Rightarrow> (Inl e, db)
              | Inr _ \<Rightarrow>
                  (case resolve_targets p project_id db of
                     Inl e \<Rightarrow> (Inl e, db)
                   | Inr _ \<Rightarrow>
                       if taken then (Inl (HTTPException 409 ''Component slug already exists in project''), db)
                       else let row = apply_update p c in not_null (update_nulls p) row (save_component row db) db)))"

definition delete_component :: "uuid \<Rightarrow> database \<Rightarrow> unit res \<times> database" where
  "delete_component cid db =
     (case find_component cid db of Inl e \<Rightarrow> (Inl e, db) | Inr c \<Rightarrow> (Inr (), delete_component_row (mc_id c) db))"

section \<open>Well-formed tables\<close>

definition table_ok :: "('r \<Rightarrow> uuid) \<Rightarrow> ('r \<Rightarrow> 'k) \<Rightarrow> 'r list \<Rightarrow> bool" where
  \<comment> \<open>the primary key and a unique constraint\<close>
  "table_ok key f xs \<longleftrightarrow> distinct (map key xs) \<and> distinct (map f xs)"

lemma table_ok_append:
  "table_ok key f xs \<Longrightarrow> key r \<notin> key ` set xs \<Longrightarrow> lookup_row f (f r) xs = None \<Longrightarrow> table_ok key f (xs @ [r])"
  by (simp add: table_ok_def lookup_row_None)

lemma distinct_replace_row:
  assumes "distinct (map key xs)" and "distinct (map f xs)" and "\<And>x. x \<in> set xs \<Longrightarrow> key x \<noteq> key r \<Longrightarrow> f x \<noteq> f r"
  shows "distinct (map f (replace_row key r xs))"
  using assms
proof (induction xs)
  case (Cons x xs)
  have rest: "f y \<noteq> f r" if "y \<in> set xs" "key y \<noteq> key r" for y using Cons.prems(3) that by simp
  have IH: "distinct (map f (replace_row key r xs))" using Cons.IH Cons.prems(1,2) rest by simp
  have keys: "\<forall>y \<in> set xs. key y \<noteq> key x" using Cons.prems(1) by (auto simp: image_iff)
  have "f (if key x = key r then r else x) \<notin> f ` set (replace_row key r xs)"
  proof (cases "key x = key r")
    case True
    with keys rest have "f r \<notin> f ` set xs" by (metis imageE)
    moreover have "replace_row key r xs = xs" using keys True by (simp add: replace_row_def map_idI)
    ultimately show ?thesis using True by simp
  next
    case False
    with Cons.prems(2) Cons.prems(3) [of x] show ?thesis by (auto simp: replace_row_def)
  qed
  moreover have "replace_row key r (x # xs) = (if key x = key r then r else x) # replace_row key r xs" by (simp add: replace_row_def)
  ultimately show ?case using IH by simp
qed (simp add: replace_row_def)

lemma not_taken:
  assumes "distinct (map f xs)" and "\<not> taken_by_other key (lookup_row f k xs) rid" and "x \<in> set xs" and "key x \<noteq> rid"
  shows "f x \<noteq> k"
  using lookup_row_mem [OF assms(1,3)] assms(2,4) by (auto simp: taken_by_other_def)

lemma table_ok_replace:
  "table_ok key f xs \<Longrightarrow> \<not> taken_by_other key (lookup_row f (f r) xs) (key r) \<Longrightarrow> table_ok key f (replace_row key r xs)"
  using not_taken [of f xs key "f r" "key r"] by (auto simp: table_ok_def intro: distinct_replace_row)

lemma table_ok_filter: "table_ok key f xs \<Longrightarrow> table_ok key f (filter P xs)"
  by (simp add: table_ok_def Prelude.distinct_map_filter)

lemma table_ok_delete: "table_ok key f xs \<Longrightarrow> table_ok key f (delete_row key k xs)"
  by (simp add: delete_row_def table_ok_filter)

lemma table_ok_map: "(\<And>x. key (h x) = key x) \<Longrightarrow> (\<And>x. f (h x) = f x) \<Longrightarrow> table_ok key f (map h xs) = table_ok key f xs"
  by (simp add: table_ok_def comp_def)

lemma slug_free_for_update:
  assumes "table_ok key f xs" and "r \<in> set xs" and "f r = g old"
    and "\<not> slug_conflict key (\<lambda>s. lookup_row f (g s) xs) sent old (key r)"
  shows "\<not> taken_by_other key (lookup_row f (g (patched sent old)) xs) (key r)"
proof -
  have "lookup_row f (g old) xs = Some r" using assms(1-3) lookup_row_mem [of f xs r] by (simp add: table_ok_def)
  then have "\<not> taken_by_other key (lookup_row f (g old) xs) (key r)" by (simp add: taken_by_other_def)
  with assms(4) show ?thesis by (auto simp: slug_conflict_def patched_def split: option.splits)
qed

abbreviation group_slug :: "ComponentGroup \<Rightarrow> uuid \<times> string" where "group_slug g \<equiv> (cg_project_id g, cg_slug g)"
abbreviation component_slug :: "MonitoredComponent \<Rightarrow> uuid \<times> string" where "component_slug c \<equiv> (mc_project_id c, mc_slug c)"

lemma group_by_slug_lookup: "group_by_slug pid s db = lookup_row group_slug (pid, s) (db_groups db)"
  by (simp add: group_by_slug_def lookup_row_def)

lemma component_by_slug_lookup: "component_by_slug pid s db = lookup_row component_slug (pid, s) (db_components db)"
  by (simp add: component_by_slug_def lookup_row_def)

definition group_ok :: "database \<Rightarrow> ComponentGroup \<Rightarrow> bool" where
  "group_ok db g \<longleftrightarrow> cg_project_id g \<in> pr_id ` set (db_projects db) \<and> slug_ok (cg_slug g)"

definition component_ok :: "database \<Rightarrow> MonitoredComponent \<Rightarrow> bool" where
  \<comment> \<open>the foreign keys\<close>
  "component_ok db c \<longleftrightarrow> mc_project_id c \<in> pr_id ` set (db_projects db) \<and> mc_component_kind_id c \<in> ck_id ` set (db_kinds db)
     \<and> (\<forall>g. mc_group_id c = Some g \<longrightarrow> g \<in> cg_id ` set (db_groups db)) \<and> slug_ok (mc_slug c)"

definition catalog_wf :: "database \<Rightarrow> bool" where
  "catalog_wf db \<longleftrightarrow> table_ok pr_id pr_slug (db_projects db) \<and> table_ok ck_id ck_slug (db_kinds db)
     \<and> table_ok cg_id group_slug (db_groups db) \<and> table_ok mc_id component_slug (db_components db)
     \<and> (\<forall>p \<in> set (db_projects db). slug_ok (pr_slug p)) \<and> (\<forall>k \<in> set (db_kinds db). slug_ok (ck_slug k))
     \<and> (\<forall>g \<in> set (db_groups db). group_ok db g) \<and> (\<forall>c \<in> set (db_components db). component_ok db c)"

lemma key_image_replace [simp]: "key ` set (replace_row key r xs) = key ` set xs"
  by (metis list.set_map map_key_replace_row)

lemma replace_row_mem: "x \<in> set (replace_row key r xs) \<Longrightarrow> x = r \<or> x \<in> set xs"
  by (auto simp: replace_row_def split: if_splits)

lemma not_null_keeps: "P db' \<Longrightarrow> P db \<Longrightarrow> P (snd (not_null ns row db' db))"
  by (simp add: not_null_def)

text \<open>The requests of a table each keep the invariant.\<close>

definition fresh_catalog :: "(database \<Rightarrow> uuid) \<Rightarrow> bool" where
  "fresh_catalog fresh_id \<longleftrightarrow> (\<forall>db. fresh_id db \<notin> pr_id ` set (db_projects db) \<union> ck_id ` set (db_kinds db)
     \<union> cg_id ` set (db_groups db) \<union> mc_id ` set (db_components db))"

lemma fresh_ids:
  assumes "fresh_catalog fresh_id"
  shows "fresh_id db \<notin> pr_id ` set (db_projects db)" "fresh_id db \<notin> ck_id ` set (db_kinds db)"
    "fresh_id db \<notin> cg_id ` set (db_groups db)" "fresh_id db \<notin> mc_id ` set (db_components db)"
  using assms unfolding fresh_catalog_def by blast+

lemma wf_create_project:
  assumes "fresh_catalog fresh_id" and "catalog_wf db" and "validate_project_create p = Inr ()"
  shows "catalog_wf (snd (create_project fresh_id p now db))"
proof (cases "get_project_by_slug (pjc_slug p) db")
  case None
  then show ?thesis using assms fresh_ids(1) [OF assms(1), of db]
    by (auto simp: create_project_def Let_def insert_project_def catalog_wf_def get_project_by_slug_def validate_project_create_def
        group_ok_def component_ok_def intro!: table_ok_append split: if_splits)
qed (simp add: create_project_def assms(2))

lemma wf_update_project:
  assumes "catalog_wf db" and "validate_project_update p = Inr ()"
  shows "catalog_wf (snd (update_project pid p db))"
proof (cases "get_project pid db")
  case None
  then show ?thesis using assms by (simp add: update_project_def find_project_def)
next
  case (Some r)
  have r: "r \<in> set (db_projects db)" using Some lookup_row_Some by (fastforce simp: get_project_def)
  have t: "table_ok pr_id pr_slug (db_projects db)" using assms(1) by (simp add: catalog_wf_def)
  show ?thesis
  proof (cases "slug_conflict pr_id (\<lambda>s. get_project_by_slug s db) (pju_slug p) (pr_slug r) (pr_id r)")
    case True
    then show ?thesis using Some assms(1) by (simp add: update_project_def find_project_def)
  next
    case False
    define r' where "r' = r\<lparr>pr_name := patched (pju_name p) (pr_name r), pr_slug := patched (pju_slug p) (pr_slug r),
      pr_description := default_to (pr_description r) (pju_description p), pr_is_active := patched (pju_is_active p) (pr_is_active r)\<rparr>"
    have "table_ok pr_id pr_slug (replace_row pr_id r' (db_projects db))"
      using slug_free_for_update [OF t r, of "\<lambda>s. s" "pr_slug r" "pju_slug p"] False
      by (intro table_ok_replace [OF t]) (simp add: r'_def get_project_by_slug_def)
    moreover have "slug_ok (pr_slug r')"
      using assms r sent_ok_patched [of slug_ok "pju_slug p" "pr_slug r"]
      by (auto simp: r'_def validate_project_update_def catalog_wf_def split: if_splits)
    ultimately have "catalog_wf (save_project r' db)"
      using assms(1) by (auto simp: catalog_wf_def save_project_def group_ok_def component_ok_def dest!: replace_row_mem)
    then show ?thesis
      using Some False assms(1) by (simp add: update_project_def find_project_def Let_def not_null_keeps flip: r'_def)
  qed
qed

lemma wf_delete_project:
  assumes "catalog_wf db"
  shows "catalog_wf (snd (delete_project pid db))"
proof (cases "get_project pid db")
  case None
  then show ?thesis using assms by (simp add: delete_project_def find_project_def)
next
  case (Some r)
  define h where "h = (\<lambda>c :: MonitoredComponent. if mc_group_id c \<in> Some ` set (map cg_id (filter (\<lambda>g. cg_project_id g = pr_id r) (db_groups db)))
    then c\<lparr>mc_group_id := None\<rparr> else c)"
  have h: "mc_id (h c) = mc_id c" "component_slug (h c) = component_slug c" "mc_component_kind_id (h c) = mc_component_kind_id c"
    "mc_group_id (h c) = Some g \<Longrightarrow> mc_group_id c = Some g \<and> (\<forall>x \<in> set (db_groups db). cg_project_id x = pr_id r \<longrightarrow> cg_id x \<noteq> g)" for c g
    by (auto simp: h_def split: if_splits)
  let ?cs = "filter (\<lambda>c. mc_project_id c \<noteq> pr_id r) (db_components db)"
  let ?db = "delete_project_row (pr_id r) db"
  have rows: "db_projects ?db = delete_row pr_id (pr_id r) (db_projects db)" "db_kinds ?db = db_kinds db"
    "db_groups ?db = filter (\<lambda>g. cg_project_id g \<noteq> pr_id r) (db_groups db)" "db_components ?db = map h ?cs"
    by (simp_all add: delete_project_row_def Let_def h_def)
  have "table_ok mc_id component_slug (map h ?cs)"
    using assms table_ok_map [of mc_id h component_slug ?cs, OF h(1,2)] by (simp add: catalog_wf_def table_ok_filter)
  moreover have "component_ok ?db (h c)" if c: "c \<in> set ?cs" for c
  proof -
    have "component_ok db c" using assms c by (simp add: catalog_wf_def)
    then show ?thesis using c h(2-4) [of c] unfolding component_ok_def rows by (fastforce simp: delete_row_def)
  qed
  moreover have "group_ok ?db g" if "g \<in> set (db_groups db)" "cg_project_id g \<noteq> pr_id r" for g
    using assms that by (fastforce simp: catalog_wf_def group_ok_def rows delete_row_def)
  ultimately have "catalog_wf ?db"
    using assms unfolding catalog_wf_def rows
    by (auto simp: table_ok_filter table_ok_delete delete_row_def)
  then show ?thesis using Some by (simp add: delete_project_def find_project_def)
qed

lemma wf_create_kind:
  assumes "fresh_catalog fresh_id" and "catalog_wf db" and "validate_kind_create p = Inr ()"
  shows "catalog_wf (snd (create_kind fresh_id p db))"
proof (cases "get_kind_by_slug (kc_slug p) db")
  case None
  then show ?thesis using assms fresh_ids(2) [OF assms(1), of db]
    by (auto simp: create_kind_def Let_def insert_kind_def catalog_wf_def get_kind_by_slug_def validate_kind_create_def
        group_ok_def component_ok_def intro!: table_ok_append split: if_splits)
qed (simp add: create_kind_def assms(2))

lemma wf_update_kind:
  assumes "catalog_wf db" and "validate_kind_update p = Inr ()"
  shows "catalog_wf (snd (update_kind kid p db))"
proof (cases "get_kind kid db")
  case None
  then show ?thesis using assms by (simp add: update_kind_def find_kind_def)
next
  case (Some r)
  have r: "r \<in> set (db_kinds db)" using Some lookup_row_Some by (fastforce simp: get_kind_def)
  have t: "table_ok ck_id ck_slug (db_kinds db)" using assms(1) by (simp add: catalog_wf_def)
  show ?thesis
  proof (cases "slug_conflict ck_id (\<lambda>s. get_kind_by_slug s db) (ku_slug p) (ck_slug r) (ck_id r)")
    case True
    then show ?thesis using Some assms(1) by (simp add: update_kind_def find_kind_def)
  next
    case False
    define r' where "r' = r\<lparr>ck_name := patched (ku_name p) (ck_name r), ck_slug := patched (ku_slug p) (ck_slug r),
      ck_description := default_to (ck_description r) (ku_description p)\<rparr>"
    have "table_ok ck_id ck_slug (replace_row ck_id r' (db_kinds db))"
      using slug_free_for_update [OF t r, of "\<lambda>s. s" "ck_slug r" "ku_slug p"] False
      by (intro table_ok_replace [OF t]) (simp add: r'_def get_kind_by_slug_def)
    moreover have "slug_ok (ck_slug r')"
      using assms r sent_ok_patched [of slug_ok "ku_slug p" "ck_slug r"]
      by (auto simp: r'_def validate_kind_update_def catalog_wf_def split: if_splits)
    ultimately have "catalog_wf (save_kind r' db)"
      using assms(1) by (auto simp: catalog_wf_def save_kind_def group_ok_def component_ok_def dest!: replace_row_mem)
    then show ?thesis
      using Some False assms(1) by (simp add: update_kind_def find_kind_def Let_def not_null_keeps flip: r'_def)
  qed
qed

lemma wf_delete_kind:
  assumes "catalog_wf db"
  shows "catalog_wf (snd (delete_kind kid db))"
proof (cases "get_kind kid db")
  case None
  then show ?thesis using assms by (simp add: delete_kind_def find_kind_def)
next
  case (Some r)
  show ?thesis
  proof (cases "list_ex (\<lambda>c. mc_component_kind_id c = ck_id r) (db_components db)")
    case True
    then show ?thesis using assms Some by (simp add: delete_kind_def find_kind_def)
  next
    case False
    then have "\<forall>c \<in> set (db_components db). mc_component_kind_id c \<noteq> ck_id r" by (simp add: list_ex_iff)
    then have "component_ok (delete_kind_row (ck_id r) db) c" if "c \<in> set (db_components db)" for c
      using assms that by (fastforce simp: catalog_wf_def component_ok_def delete_kind_row_def delete_row_def)
    then have "catalog_wf (delete_kind_row (ck_id r) db)"
      using assms by (auto simp: catalog_wf_def group_ok_def delete_kind_row_def table_ok_filter delete_row_def)
    with False Some show ?thesis by (simp add: delete_kind_def find_kind_def)
  qed
qed

lemma get_project_mem: "get_project pid db \<noteq> None \<longleftrightarrow> pid \<in> pr_id ` set (db_projects db)"
  by (simp add: get_project_def lookup_row_None)

lemma get_kind_mem: "get_kind kid db \<noteq> None \<longleftrightarrow> kid \<in> ck_id ` set (db_kinds db)"
  by (simp add: get_kind_def lookup_row_None)

lemma wf_create_group:
  assumes "fresh_catalog fresh_id" and "catalog_wf db" and "validate_group_create p = Inr ()"
  shows "catalog_wf (snd (create_group fresh_id p db))"
proof (cases "get_project (gc_project_id p) db = None \<or> group_by_slug (gc_project_id p) (gc_slug p) db \<noteq> None")
  case True
  then show ?thesis using assms(2) by (auto simp: create_group_def)
next
  case False
  then have "gc_project_id p \<in> pr_id ` set (db_projects db)" using get_project_mem by blast
  with False show ?thesis using assms fresh_ids(3) [OF assms(1), of db]
    by (auto simp: create_group_def Let_def insert_group_def catalog_wf_def group_by_slug_lookup validate_group_create_def
        group_ok_def component_ok_def intro!: table_ok_append split: if_splits)
qed

lemma wf_update_group:
  assumes "catalog_wf db" and "validate_group_update p = Inr ()"
  shows "catalog_wf (snd (update_group gid p db))"
proof (cases "get_group gid db")
  case None
  then show ?thesis using assms by (simp add: update_group_def find_group_def)
next
  case (Some r)
  have r: "r \<in> set (db_groups db)" using Some lookup_row_Some by (fastforce simp: get_group_def)
  have t: "table_ok cg_id group_slug (db_groups db)" using assms(1) by (simp add: catalog_wf_def)
  show ?thesis
  proof (cases "slug_conflict cg_id (\<lambda>s. group_by_slug (cg_project_id r) s db) (gu_slug p) (cg_slug r) (cg_id r)")
    case True
    then show ?thesis using Some assms(1) by (simp add: update_group_def find_group_def)
  next
    case False
    define r' where "r' = r\<lparr>cg_name := patched (gu_name p) (cg_name r), cg_slug := patched (gu_slug p) (cg_slug r),
      cg_description := default_to (cg_description r) (gu_description p), cg_sort_order := patched (gu_sort_order p) (cg_sort_order r),
      cg_is_active := patched (gu_is_active p) (cg_is_active r)\<rparr>"
    have "table_ok cg_id group_slug (replace_row cg_id r' (db_groups db))"
      using slug_free_for_update [OF t r, of "\<lambda>s. (cg_project_id r, s)" "cg_slug r" "gu_slug p"] False
      by (intro table_ok_replace [OF t]) (simp add: r'_def group_by_slug_lookup)
    moreover have "group_ok db r'"
      using assms r sent_ok_patched [of slug_ok "gu_slug p" "cg_slug r"]
      by (auto simp: r'_def validate_group_update_def catalog_wf_def group_ok_def split: if_splits)
    ultimately have "catalog_wf (save_group r' db)"
      using assms(1) by (auto simp: catalog_wf_def save_group_def group_ok_def component_ok_def dest!: replace_row_mem)
    then show ?thesis
      using Some False assms(1) by (simp add: update_group_def find_group_def Let_def not_null_keeps flip: r'_def)
  qed
qed

lemma wf_delete_group:
  assumes "catalog_wf db"
  shows "catalog_wf (snd (delete_group gid db))"
proof (cases "get_group gid db")
  case None
  then show ?thesis using assms by (simp add: delete_group_def find_group_def)
next
  case (Some r)
  define h where "h = (\<lambda>c :: MonitoredComponent. if mc_group_id c = Some (cg_id r) then c\<lparr>mc_group_id := None\<rparr> else c)"
  have h: "mc_id (h c) = mc_id c" "component_slug (h c) = component_slug c" "mc_component_kind_id (h c) = mc_component_kind_id c"
    "mc_group_id (h c) = Some g \<Longrightarrow> mc_group_id c = Some g \<and> g \<noteq> cg_id r" for c g
    by (auto simp: h_def split: if_splits)
  let ?db = "delete_group_row (cg_id r) db"
  have rows: "db_projects ?db = db_projects db" "db_kinds ?db = db_kinds db"
    "db_groups ?db = delete_row cg_id (cg_id r) (db_groups db)" "db_components ?db = map h (db_components db)"
    by (simp_all add: delete_group_row_def h_def)
  have "component_ok ?db (h c)" if "component_ok db c" for c
    using that h(2-4) [of c] unfolding component_ok_def rows by (fastforce simp: delete_row_def)
  moreover have "table_ok mc_id component_slug (map h (db_components db))"
    using assms table_ok_map [of mc_id h component_slug "db_components db", OF h(1,2)] by (simp add: catalog_wf_def)
  ultimately have "catalog_wf ?db"
    using assms unfolding catalog_wf_def rows group_ok_def by (auto simp: table_ok_filter delete_row_def)
  then show ?thesis using Some by (simp add: delete_group_def find_group_def)
qed


lemma validate_component_create_slug: "validate_component_create cfg p = Inr p' \<Longrightarrow> slug_ok (cc_slug p')"
  by (auto simp: validate_component_create_def create_fields_ok_def fill_vpn_defaults_def split: if_splits sum.splits)

lemma validate_component_update_slug: "validate_component_update p = Inr p' \<Longrightarrow> sent_ok slug_ok (cu_slug p')"
  by (cases "cu_speed_test_url_template p"; cases "checked_template (the (cu_speed_test_url_template p))")
    (auto simp: validate_component_update_def update_fields_ok_def split: if_splits)

lemma get_group_mem: "get_group gid db \<noteq> None \<longleftrightarrow> gid \<in> cg_id ` set (db_groups db)"
  by (simp add: get_group_def lookup_row_None)

lemma resolve_group_ok:
  "resolve_group pid gid db = Inr () \<Longrightarrow> gid = Some g \<Longrightarrow> \<exists>r. get_group g db = Some r \<and> cg_project_id r = pid \<and> g \<in> cg_id ` set (db_groups db)"
  using get_group_mem [of g db] by (auto simp: resolve_group_def split: option.splits if_splits)

lemma wf_create_component:
  assumes "fresh_catalog fresh_id" and "catalog_wf db" and "validate_component_create cfg p0 = Inr p"
  shows "catalog_wf (snd (create_component fresh_id p db))"
proof (cases "get_project (cc_project_id p) db = None \<or> get_kind (cc_component_kind_id p) db = None
    \<or> component_by_slug (cc_project_id p) (cc_slug p) db \<noteq> None \<or> resolve_group (cc_project_id p) (cc_group_id p) db \<noteq> Inr ()")
  case True
  then show ?thesis using assms(2) by (auto simp: create_component_def Let_def split: sum.split)
next
  case False
  let ?c = "component_of_payload (fresh_id db) p"
  from False have "cc_project_id p \<in> pr_id ` set (db_projects db)" "cc_component_kind_id p \<in> ck_id ` set (db_kinds db)"
    using get_project_mem get_kind_mem by blast+
  moreover have "slug_ok (cc_slug p)" using assms(3) by (rule validate_component_create_slug)
  moreover have "g \<in> cg_id ` set (db_groups db)" if "cc_group_id p = Some g" for g using False resolve_group_ok that by blast
  ultimately have "component_ok db ?c" by (simp add: component_ok_def component_of_payload_def)
  moreover have "table_ok mc_id component_slug (db_components db @ [?c])"
    using assms(2) False fresh_ids(4) [OF assms(1), of db]
    by (intro table_ok_append) (simp_all add: catalog_wf_def component_by_slug_lookup component_of_payload_def)
  ultimately have "catalog_wf (insert_component ?c db)"
    using assms(2) by (simp add: catalog_wf_def insert_component_def group_ok_def component_ok_def)
  with False show ?thesis by (auto simp: create_component_def Let_def)
qed

lemma resolve_targets_ok:
  assumes "resolve_targets p (patched (cu_project_id p) (mc_project_id c)) db = Inr ()" and "component_ok db c"
    and "sent_ok slug_ok (cu_slug p)"
  shows "component_ok db (apply_update p c)"
proof -
  have pr: "k \<in> pr_id ` set (db_projects db)" if "cu_project_id p = Some (Some k)" for k
    using assms(1) that get_project_mem [of k db] by (auto simp: resolve_targets_def split: if_splits)
  have kd: "k \<in> ck_id ` set (db_kinds db)" if "cu_component_kind_id p = Some (Some k)" for k
    using assms(1) that get_kind_mem [of k db] by (auto simp: resolve_targets_def split: if_splits)
  have gr: "k \<in> cg_id ` set (db_groups db)" if "cu_group_id p = Some (Some k)" for k
    using assms(1) that resolve_group_ok [of _ "Some k" db k] by (auto simp: resolve_targets_def split: if_splits)
  have "patched (cu_project_id p) (mc_project_id c) \<in> pr_id ` set (db_projects db)"
    using pr assms(2) by (simp add: patched_def component_ok_def split: option.split)
  moreover have "patched (cu_component_kind_id p) (mc_component_kind_id c) \<in> ck_id ` set (db_kinds db)"
    using kd assms(2) by (simp add: patched_def component_ok_def split: option.split)
  moreover have "g \<in> cg_id ` set (db_groups db)" if "default_to (mc_group_id c) (cu_group_id p) = Some g" for g
    using gr assms(2) that by (cases "cu_group_id p") (auto simp: component_ok_def)
  moreover have "slug_ok (patched (cu_slug p) (mc_slug c))"
    using assms(2,3) by (simp add: component_ok_def sent_ok_patched)
  ultimately show ?thesis by (simp add: component_ok_def apply_update_def)
qed

lemma update_component_success:
  assumes "update_component cid p db = (Inr row, db')"
  obtains c where "get_component cid db = Some c" and "row = apply_update p c" and "db' = save_component row db"
    and "resolve_targets p (patched (cu_project_id p) (mc_project_id c)) db = Inr ()"
    and "\<not> taken_by_other mc_id (component_by_slug (mc_project_id row) (mc_slug row) db) (mc_id row)"
proof -
  from assms obtain c where c: "get_component cid db = Some c" by (auto simp: update_component_def find_component_def split: option.splits)
  show thesis
    by (rule that [of c])
      (use assms c in \<open>auto simp: update_component_def find_component_def not_null_def Let_def apply_update_def update_nulls_def split: if_splits sum.splits\<close>)
qed

lemma update_component_failure: "update_component cid p db = (Inl e, db') \<Longrightarrow> db' = db"
  by (auto simp: update_component_def not_null_def Let_def split: if_splits sum.splits)

lemma wf_update_component:
  assumes "catalog_wf db" and "validate_component_update p0 = Inr p"
  shows "catalog_wf (snd (update_component cid p db))"
proof (cases "fst (update_component cid p db)")
  case (Inl e)
  then show ?thesis using assms(1) update_component_failure [of cid p db e] by (cases "update_component cid p db") auto
next
  case (Inr row)
  then obtain db' where run: "update_component cid p db = (Inr row, db')" by (cases "update_component cid p db") auto
  then obtain c where c: "get_component cid db = Some c" "row = apply_update p c" "db' = save_component row db"
    "resolve_targets p (patched (cu_project_id p) (mc_project_id c)) db = Inr ()"
    "\<not> taken_by_other mc_id (component_by_slug (mc_project_id row) (mc_slug row) db) (mc_id row)"
    by (rule update_component_success)
  have mem: "c \<in> set (db_components db)" using c(1) lookup_row_Some by (fastforce simp: get_component_def)
  have "component_ok db row"
    unfolding c(2) using assms mem c(4) validate_component_update_slug [OF assms(2)]
    by (intro resolve_targets_ok) (simp_all add: catalog_wf_def)
  moreover have "table_ok mc_id component_slug (replace_row mc_id row (db_components db))"
    using assms(1) c(5) by (intro table_ok_replace) (simp_all add: catalog_wf_def component_by_slug_lookup)
  ultimately have "catalog_wf db'"
    unfolding c(3) using assms(1) by (auto simp: catalog_wf_def save_component_def group_ok_def component_ok_def dest!: replace_row_mem)
  with run show ?thesis by simp
qed

lemma wf_delete_component: "catalog_wf db \<Longrightarrow> catalog_wf (snd (delete_component cid db))"
  by (auto simp: delete_component_def find_component_def delete_component_row_def catalog_wf_def table_ok_delete group_ok_def
      component_ok_def delete_row_def table_ok_filter split: option.split)

text \<open>A request: its body is checked, then the service is called.\<close>

datatype catalog_request =
    CreateProject ProjectCreate
  | ChangeProject uuid ProjectUpdate
  | DeleteProject uuid
  | CreateKind ComponentKindCreate
  | ChangeKind uuid ComponentKindUpdate
  | DeleteKind uuid
  | CreateGroup ComponentGroupCreate
  | ChangeGroup uuid ComponentGroupUpdate
  | DeleteGroup uuid
  | CreateComponent MonitoredComponentCreate
  | ChangeComponent uuid MonitoredComponentUpdate
  | DeleteComponent uuid

fun catalog_step :: "settings \<Rightarrow> (database \<Rightarrow> uuid) \<Rightarrow> catalog_request \<times> instant \<Rightarrow> database \<Rightarrow> database" where
  "catalog_step cfg fresh_id (CreateProject p, now) db = checked (validate_project_create p) (create_project fresh_id p now db) db"
| "catalog_step cfg fresh_id (ChangeProject pid p, now) db = checked (validate_project_update p) (update_project pid p db) db"
| "catalog_step cfg fresh_id (DeleteProject pid, now) db = snd (delete_project pid db)"
| "catalog_step cfg fresh_id (CreateKind p, now) db = checked (validate_kind_create p) (create_kind fresh_id p db) db"
| "catalog_step cfg fresh_id (ChangeKind kid p, now) db = checked (validate_kind_update p) (update_kind kid p db) db"
| "catalog_step cfg fresh_id (DeleteKind kid, now) db = snd (delete_kind kid db)"
| "catalog_step cfg fresh_id (CreateGroup p, now) db = checked (validate_group_create p) (create_group fresh_id p db) db"
| "catalog_step cfg fresh_id (ChangeGroup gid p, now) db = checked (validate_group_update p) (update_group gid p db) db"
| "catalog_step cfg fresh_id (DeleteGroup gid, now) db = snd (delete_group gid db)"
| "catalog_step cfg fresh_id (CreateComponent p, now) db =
     (case validate_component_create cfg p of Inl _ \<Rightarrow> db | Inr p \<Rightarrow> snd (create_component fresh_id p db))"
| "catalog_step cfg fresh_id (ChangeComponent cid p, now) db =
     (case validate_component_update p of Inl _ \<Rightarrow> db | Inr p \<Rightarrow> snd (update_component cid p db))"
| "catalog_step cfg fresh_id (DeleteComponent cid, now) db = snd (delete_component cid db)"

section \<open>Rows that refer to projects, components and incidents\<close>

definition children_ok :: "database \<Rightarrow> bool" where
  "children_ok db \<longleftrightarrow>
     (\<forall>r \<in> set (db_results db). cr_monitored_component_id r \<in> mc_id ` set (db_components db))
     \<and> (\<forall>e \<in> set (db_events db). ce_monitored_component_id e \<in> mc_id ` set (db_components db))
     \<and> (\<forall>s \<in> set (db_samples db). tp_monitored_component_id s \<in> mc_id ` set (db_components db))
     \<and> (\<forall>i \<in> set (db_incidents db). in_project_id i \<in> pr_id ` set (db_projects db))
     \<and> (\<forall>i \<in> set (db_incidents db). \<forall>k. in_monitored_component_id i = Some k \<longrightarrow> k \<in> mc_id ` set (db_components db))
     \<and> (\<forall>u \<in> set (db_updates db). iu_incident_id u \<in> in_id ` set (db_incidents db))
     \<and> (\<forall>d \<in> set (db_integrations db). dg_project_id d \<in> pr_id ` set (db_projects db))"

lemma children_mono:
  assumes "children_ok db" and "pr_id ` set (db_projects db) \<subseteq> pr_id ` set (db_projects db')"
    and "mc_id ` set (db_components db) \<subseteq> mc_id ` set (db_components db')"
    and "db_results db' = db_results db" "db_events db' = db_events db" "db_samples db' = db_samples db"
    "db_incidents db' = db_incidents db" "db_updates db' = db_updates db" "db_integrations db' = db_integrations db"
  shows "children_ok db'"
proof -
  have "k \<in> pr_id ` set (db_projects db')" if "k \<in> pr_id ` set (db_projects db)" for k using assms(2) that by (rule subsetD)
  moreover have "k \<in> mc_id ` set (db_components db')" if "k \<in> mc_id ` set (db_components db)" for k using assms(3) that by (rule subsetD)
  ultimately show ?thesis using assms(1) unfolding children_ok_def assms(4-9) by simp
qed

lemma children_insert:
  assumes "children_ok db"
  shows "children_ok (insert_project p db)" "children_ok (insert_kind k db)" "children_ok (insert_group g db)" "children_ok (insert_component c db)"
    "children_ok (save_project p db)" "children_ok (save_kind k db)" "children_ok (save_group g db)" "children_ok (save_component c db)"
  by (rule children_mono [OF assms]; force simp: insert_project_def insert_kind_def insert_group_def insert_component_def
      save_project_def save_kind_def save_group_def save_component_def)+

lemma children_updates:
  assumes "children_ok db"
  shows "children_ok (snd (create_project fresh_id pc now db))" "children_ok (snd (update_project pid pu db))"
    "children_ok (snd (create_kind fresh_id kc db))" "children_ok (snd (update_kind kid ku db))"
    "children_ok (snd (create_group fresh_id gc db))" "children_ok (snd (update_group gid gu db))"
    "children_ok (snd (create_component fresh_id cc db))" "children_ok (snd (update_component cid cu db))"
  using assms
  by (auto simp: create_project_def update_project_def create_kind_def update_kind_def create_group_def update_group_def
      create_component_def update_component_def Let_def children_insert not_null_keeps split: sum.split)

lemma key_set_map_if:
  assumes "\<And>x. key (g x) = key x"
  shows "key ` set (map (\<lambda>x. if P x then g x else x) xs) = key ` set xs"
proof -
  have "key (if P x then g x else x) = key x" for x using assms by simp
  then show ?thesis by (simp only: set_map image_image)
qed

lemma deleted_keys:
  "mc_id ` set (db_components (delete_component_row cid db)) = mc_id ` set (db_components db) - {cid}"
  "in_id ` set (db_incidents (delete_component_row cid db)) = in_id ` set (db_incidents db)"
  "mc_id ` set (db_components (delete_group_row gid db)) = mc_id ` set (db_components db)"
  "mc_id ` set (db_components (delete_project_row pid db)) = mc_id ` {c \<in> set (db_components db). mc_project_id c \<noteq> pid}"
  "in_id ` set (db_incidents (delete_project_row pid db)) = in_id ` {i \<in> set (db_incidents db). in_project_id i \<noteq> pid}"
proof -
  show "mc_id ` set (db_components (delete_component_row cid db)) = mc_id ` set (db_components db) - {cid}"
    by (auto simp: delete_component_row_def delete_row_def)
  have m: "mc_id ` set (map (\<lambda>x. if P x then x\<lparr>mc_group_id := None\<rparr> else x) xs) = mc_id ` set xs" for P and xs :: "MonitoredComponent list"
    by (rule key_set_map_if) simp
  have i: "in_id ` set (map (\<lambda>x. if P x then x\<lparr>in_monitored_component_id := None\<rparr> else x) xs) = in_id ` set xs" for P and xs :: "Incident list"
    by (rule key_set_map_if) simp
  show "in_id ` set (db_incidents (delete_component_row cid db)) = in_id ` set (db_incidents db)"
    unfolding delete_component_row_def by (simp add: i del: set_map)
  show "mc_id ` set (db_components (delete_group_row gid db)) = mc_id ` set (db_components db)"
    unfolding delete_group_row_def by (simp add: m del: set_map)
  show "mc_id ` set (db_components (delete_project_row pid db)) = mc_id ` {c \<in> set (db_components db). mc_project_id c \<noteq> pid}"
    unfolding delete_project_row_def Let_def by (simp add: m del: set_map)
  show "in_id ` set (db_incidents (delete_project_row pid db)) = in_id ` {i \<in> set (db_incidents db). in_project_id i \<noteq> pid}"
    unfolding delete_project_row_def Let_def by (simp add: i del: set_map)
qed

lemma children_delete_component:
  assumes "children_ok db"
  shows "children_ok (delete_component_row cid db)"
proof -
  have rows: "db_projects (delete_component_row cid db) = db_projects db" "db_updates (delete_component_row cid db) = db_updates db"
    "db_integrations (delete_component_row cid db) = db_integrations db"
    by (simp_all add: delete_component_row_def)
  show ?thesis using assms unfolding children_ok_def rows deleted_keys by (auto simp: delete_component_row_def)
qed

lemma children_delete_project:
  assumes "children_ok db"
  shows "children_ok (delete_project_row pid db)"
proof -
  let ?gone = "mc_id ` {c \<in> set (db_components db). mc_project_id c = pid}"
  let ?inc = "in_id ` {i \<in> set (db_incidents db). in_project_id i = pid}"
  let ?db = "delete_project_row pid db"
  have ids: "k \<in> mc_id ` set (db_components ?db)" if "k \<in> mc_id ` set (db_components db)" "k \<notin> ?gone" for k
    using that by (auto simp: deleted_keys)
  have inc: "k \<in> in_id ` set (db_incidents ?db)" if "k \<in> in_id ` set (db_incidents db)" "k \<notin> ?inc" for k
    using that by (auto simp: deleted_keys)
  have pr: "k \<in> pr_id ` set (db_projects ?db)" if "k \<in> pr_id ` set (db_projects db)" "k \<noteq> pid" for k
    using that by (auto simp: delete_project_row_def Let_def delete_row_def)
  have 1: "\<forall>r \<in> set (db_results ?db). r \<in> set (db_results db) \<and> cr_monitored_component_id r \<notin> ?gone"
    "\<forall>e \<in> set (db_events ?db). e \<in> set (db_events db) \<and> ce_monitored_component_id e \<notin> ?gone"
    "\<forall>s \<in> set (db_samples ?db). s \<in> set (db_samples db) \<and> tp_monitored_component_id s \<notin> ?gone"
    by (auto simp: delete_project_row_def Let_def)
  have 2: "\<forall>u \<in> set (db_updates ?db). u \<in> set (db_updates db) \<and> iu_incident_id u \<notin> ?inc"
    "\<forall>d \<in> set (db_integrations ?db). d \<in> set (db_integrations db) \<and> dg_project_id d \<noteq> pid"
    by (auto simp: delete_project_row_def Let_def)
  have 3: "\<exists>j \<in> set (db_incidents db). in_project_id i = in_project_id j \<and> in_project_id j \<noteq> pid
      \<and> (\<forall>k. in_monitored_component_id i = Some k \<longrightarrow> in_monitored_component_id j = Some k \<and> k \<notin> ?gone)"
    if "i \<in> set (db_incidents ?db)" for i
    using that by (auto simp: delete_project_row_def Let_def)
  show ?thesis unfolding children_ok_def
  proof (intro conjI ballI allI impI)
    fix i k assume i: "i \<in> set (db_incidents ?db)"
    from 3 [OF this] obtain j where j: "j \<in> set (db_incidents db)" "in_project_id i = in_project_id j" "in_project_id j \<noteq> pid"
      "\<forall>k. in_monitored_component_id i = Some k \<longrightarrow> in_monitored_component_id j = Some k \<and> k \<notin> ?gone" by blast
    show "in_project_id i \<in> pr_id ` set (db_projects ?db)" using assms j(1-3) pr by (simp add: children_ok_def)
    show "k \<in> mc_id ` set (db_components ?db)" if "in_monitored_component_id i = Some k"
      using assms j(1) j(4) that ids [of k] unfolding children_ok_def by blast
  qed (use assms 1 2 ids inc pr in \<open>simp_all add: children_ok_def\<close>)
qed

lemma children_deletes:
  assumes "children_ok db"
  shows "children_ok (snd (delete_project pid db))" "children_ok (snd (delete_kind kid db))"
    "children_ok (snd (delete_group gid db))" "children_ok (snd (delete_component cid db))"
proof -
  have "children_ok (delete_kind_row k db)" "children_ok (delete_group_row g db)" for k g
    using deleted_keys(3) [of g db]
    by (rule_tac [!] children_mono [OF assms]) (simp_all add: delete_kind_row_def delete_group_row_def del: set_map)
  then show "children_ok (snd (delete_project pid db))" "children_ok (snd (delete_kind kid db))"
    "children_ok (snd (delete_group gid db))" "children_ok (snd (delete_component cid db))"
    using assms by (auto simp: delete_project_def delete_kind_def delete_group_def delete_component_def children_delete_project
        children_delete_component split: sum.split)
qed

text \<open>
  C14. Whatever sequence of requests the catalogue receives, the database stays consistent. Identifiers are unique, and so are the
  slugs of projects and kinds, and those of groups and components within their project; every slug is made of
  lower-case letters, digits and hyphens; every group has its project, every component its project, its kind
  and, if it names one, its group; and every result, event, sample, incident, update and integration belongs to a
  row that is still there.
\<close>

theorem catalog_requests_keep_wf:
  assumes "fresh_catalog fresh_id" and "catalog_wf db" and "children_ok db"
  shows "catalog_wf (fold (catalog_step cfg fresh_id) requests db) \<and> children_ok (fold (catalog_step cfg fresh_id) requests db)"
  using assms(2,3)
proof (induction requests arbitrary: db)
  case (Cons x xs)
  have "catalog_wf (catalog_step cfg fresh_id x db)"
    using Cons.prems assms(1)
    by (cases "(cfg, fresh_id, x, db)" rule: catalog_step.cases)
      (auto simp: checked_def intro: wf_create_project wf_update_project wf_delete_project wf_create_kind wf_update_kind wf_delete_kind
        wf_create_group wf_update_group wf_delete_group wf_create_component wf_update_component wf_delete_component split: sum.split)
  moreover have "children_ok (catalog_step cfg fresh_id x db)"
    using Cons.prems(2)
    by (cases "(cfg, fresh_id, x, db)" rule: catalog_step.cases)
      (auto simp: checked_def children_updates children_deletes split: sum.split)
  ultimately show ?case using Cons.IH by simp
qed simp

section \<open>What a creation guarantees\<close>

definition component_valid :: "database \<Rightarrow> MonitoredComponent \<Rightarrow> bool" where
  "component_valid db c \<longleftrightarrow>
     name_ok (mc_name c) \<and> check_type_ok (mc_check_type c) \<and> connection_mode_ok (mc_connection_mode c) \<and> ip_family_ok (mc_ip_family c)
     \<and> strip (mc_check_url c) \<noteq> [] \<and> between 100 599 (mc_expected_status_code c)
     \<and> between (if mc_check_type c \<in> set VPN_CHECK_TYPES then 30 else 1) 300 (mc_timeout_seconds c)
     \<and> (mc_connection_mode c = ''persistent'' \<longrightarrow> mc_check_type c = ''openvpn'')
     \<and> (\<forall>t. mc_speed_test_url_template c = Some t \<longrightarrow> contains t ''{bytes}'' \<and> starts_with t ''https://'')
     \<and> (if mc_check_type c \<in> set VPN_CHECK_TYPES then \<exists>text. mc_check_config c = config_json text \<and> config_ok text
        else mc_check_config c = JNull \<and> mc_speed_test_bytes c = None \<and> mc_speed_test_url_template c = None
          \<and> mc_speed_test_interval_seconds c = None \<and> mc_speed_test_enabled c)
     \<and> (\<forall>g. mc_group_id c = Some g \<longrightarrow> (\<exists>r. get_group g db = Some r \<and> cg_project_id r = mc_project_id c))"

lemma rstrip_by_idem: "rstrip_by p (rstrip_by p s) = rstrip_by p s"
  by (simp add: rstrip_by_def)

lemma lstrip_rstrip: "lstrip s = s \<Longrightarrow> lstrip (rstrip_by is_space s) = rstrip_by is_space s"
proof (cases "rstrip_by is_space s")
  case (Cons c cs)
  assume s: "lstrip s = s"
  have "s = rstrip_by is_space s @ rev (takeWhile is_space (rev s))"
    unfolding rstrip_by_def by (metis rev_append rev_rev_ident takeWhile_dropWhile_id)
  with Cons have "s = c # (cs @ rev (takeWhile is_space (rev s)))" by simp
  with s have "\<not> is_space c" unfolding lstrip_def by (metis dropWhile_eq_Cons_conv)
  with Cons show ?thesis by (simp add: lstrip_def)
qed (simp add: lstrip_def)

lemma strip_idem: "strip (strip s) = strip s"
proof -
  have "lstrip (lstrip s) = lstrip s" by (simp add: lstrip_def)
  then show ?thesis by (simp add: strip_def lstrip_rstrip rstrip_by_idem)
qed

lemma default_probe_url_not_blank: "strip (default_probe_url cfg) \<noteq> []"
proof -
  have "strip ''https://ifconfig.me/ip'' \<noteq> []" by code_simp
  then show ?thesis by (simp add: default_probe_url_def Let_def strip_idem)
qed

lemma checked_template_ok:
  "checked_template v = Inr (Some t) \<Longrightarrow> contains t ''{bytes}'' \<and> starts_with t ''https://''"
  by (auto simp: checked_template_def validate_speed_test_url_template_def Let_def split: option.splits if_splits sum.splits)

lemma validated_fields:
  assumes "validate_component_create cfg p0 = Inr p"
  shows "name_ok (cc_name p)" "check_type_ok (cc_check_type p)" "connection_mode_ok (cc_connection_mode p)" "ip_family_ok (cc_ip_family p)"
    "between 100 599 (cc_expected_status_code p)" "between 1 300 (cc_timeout_seconds p)" "opt_ok config_ok (cc_check_config p)"
proof -
  have "create_fields_ok p0" and p: "p = p0 \<or> (\<exists>url. p = (fill_vpn_defaults cfg p0)\<lparr>cc_speed_test_url_template := url\<rparr>)"
    using assms by (auto simp: validate_component_create_def split: if_splits sum.splits)
  then show "name_ok (cc_name p)" "check_type_ok (cc_check_type p)" "connection_mode_ok (cc_connection_mode p)" "ip_family_ok (cc_ip_family p)"
    "between 100 599 (cc_expected_status_code p)" "between 1 300 (cc_timeout_seconds p)" "opt_ok config_ok (cc_check_config p)"
    by (auto simp: create_fields_ok_def fill_vpn_defaults_def between_def)
qed

lemma validated_vpn:
  assumes "validate_component_create cfg p0 = Inr p" and "cc_check_type p \<in> set VPN_CHECK_TYPES"
  shows "cc_check_config p \<noteq> None" "strip (cc_check_url p) \<noteq> []" "30 \<le> cc_timeout_seconds p"
    "cc_connection_mode p = ''persistent'' \<Longrightarrow> cc_check_type p = ''openvpn''"
    "cc_speed_test_url_template p = Some t \<Longrightarrow> contains t ''{bytes}'' \<and> starts_with t ''https://''"
proof -
  have "cc_check_type p = cc_check_type p0"
    using assms(1) by (auto simp: validate_component_create_def fill_vpn_defaults_def split: if_splits sum.splits)
  with assms obtain url where "cc_check_config p0 \<noteq> None" "checked_template (cc_speed_test_url_template p0) = Inr url"
    "\<not> (cc_connection_mode p0 = ''persistent'' \<and> cc_check_type p0 \<noteq> ''openvpn'')"
    "p = (fill_vpn_defaults cfg p0)\<lparr>cc_speed_test_url_template := url\<rparr>"
    by (auto simp: validate_component_create_def split: if_splits sum.splits)
  then show "cc_check_config p \<noteq> None" "strip (cc_check_url p) \<noteq> []" "30 \<le> cc_timeout_seconds p"
    "cc_connection_mode p = ''persistent'' \<Longrightarrow> cc_check_type p = ''openvpn''"
    "cc_speed_test_url_template p = Some t \<Longrightarrow> contains t ''{bytes}'' \<and> starts_with t ''https://''"
    using checked_template_ok by (auto simp: fill_vpn_defaults_def default_probe_url_not_blank)
qed

lemma validated_http:
  assumes "validate_component_create cfg p0 = Inr p" and "cc_check_type p \<notin> set VPN_CHECK_TYPES"
  shows "cc_check_config p = None" "strip (cc_check_url p) \<noteq> []" "cc_connection_mode p = ''ephemeral''" "cc_speed_test_bytes p = None"
    "cc_speed_test_url_template p = None" "cc_speed_test_interval_seconds p = None" "cc_speed_test_enabled p = None"
  using assms by (auto simp: validate_component_create_def fill_vpn_defaults_def split: if_splits sum.splits)

text \<open>
  C36. A component the catalogue creates is valid: its check type, connection mode and address family are known ones, it has an address
  to check, only OpenVPN is persistent, a VPN check has a configuration and at least 30 seconds, an HTTP check has
  no VPN settings, and its group is one of its own project.
\<close>

theorem created_component_valid:
  assumes "validate_component_create cfg p0 = Inr p" and "create_component fresh_id p db = (Inr c, db')"
  shows "component_valid db' c \<and> db_components db' = db_components db @ [c]"
proof -
  have ok: "resolve_group (cc_project_id p) (cc_group_id p) db = Inr ()" and c: "c = component_of_payload (fresh_id db) p"
    and db': "db' = insert_component c db"
    using assms(2) by (auto simp: create_component_def Let_def split: if_splits sum.splits)
  have grp: "\<exists>r. get_group g db' = Some r \<and> cg_project_id r = cc_project_id p" if "cc_group_id p = Some g" for g
    using resolve_group_ok [OF ok that] by (auto simp: db' insert_component_def get_group_def)
  have "component_valid db' c"
  proof (cases "cc_check_type p \<in> set VPN_CHECK_TYPES")
    case True
    then obtain body where "cc_check_config p = Some body" using validated_vpn(1) [OF assms(1)] by blast
    with True show ?thesis
      using validated_vpn [OF assms(1) True] validated_fields [OF assms(1)] grp
      by (auto simp: component_valid_def c component_of_payload_def stored_config_def between_def opt_ok_def)
  next
    case False
    then show ?thesis
      using validated_http [OF assms(1) False] validated_fields [OF assms(1)] grp
      by (auto simp: component_valid_def c component_of_payload_def stored_config_def between_def)
  qed
  then show ?thesis by (simp add: db' insert_component_def)
qed


definition catalog_ids :: "database \<Rightarrow> uuid" where
  "catalog_ids db = ''i'' @ concat (map pr_id (db_projects db)) @ concat (map ck_id (db_kinds db)) @ concat (map cg_id (db_groups db))
     @ concat (map mc_id (db_components db))"

lemma catalog_ids_fresh: "fresh_catalog catalog_ids"
  unfolding fresh_catalog_def catalog_ids_def
  by (auto dest!: length_concat_ge [of _ _ pr_id] length_concat_ge [of _ _ ck_id] length_concat_ge [of _ _ cg_id] length_concat_ge [of _ _ mc_id]
      dest: arg_cong [of _ _ length])

definition site_create :: MonitoredComponentCreate where
  "site_create = \<lparr>cc_project_id = ''i'', cc_component_kind_id = ''k1'', cc_name = ''Site'', cc_slug = ''site'', cc_description = None,
     cc_environment = None, cc_check_url = ''https://x'', cc_check_method = ''GET'', cc_check_type = ''http_status'',
     cc_check_config = None, cc_speed_test_bytes = None, cc_speed_test_url_template = None, cc_speed_test_interval_seconds = None,
     cc_speed_test_enabled = None, cc_expected_status_code = 200, cc_timeout_seconds = 10, cc_ip_family = ''auto'',
     cc_poll_interval_seconds = None, cc_connection_mode = ''ephemeral'', cc_group_id = None, cc_sort_order = 0, cc_is_active = True\<rparr>"

definition kinds_only :: database where
  "kinds_only = empty_database\<lparr>db_kinds := [\<lparr>ck_id = ''k1'', ck_name = ''Web'', ck_slug = ''web'', ck_description = None\<rparr>]\<rparr>"

definition site_requests :: "(catalog_request \<times> instant) list" where
  "site_requests = [(CreateProject \<lparr>pjc_name = ''P'', pjc_slug = ''p'', pjc_description = None, pjc_is_active = True\<rparr>, 0),
     (CreateComponent (site_create\<lparr>cc_project_id := ''ik1''\<rparr>), 1)]"

lemma site_requests_create: "map mc_slug (db_components (fold (catalog_step sample_cfg catalog_ids) site_requests kinds_only)) = [''site'']"
  by code_simp

lemma kinds_only_wf: "catalog_wf kinds_only"
  by (simp add: catalog_wf_def kinds_only_def empty_database_def table_ok_def slug_ok_def is_lower_alnum_def)

lemma catalog_requests_keep_wf_witness:
  "catalog_wf (fold (catalog_step sample_cfg catalog_ids) site_requests kinds_only)"
  using catalog_requests_keep_wf [OF catalog_ids_fresh kinds_only_wf, of sample_cfg site_requests]
  by (simp add: children_ok_def kinds_only_def empty_database_def)

definition one_project :: database where
  "one_project = kinds_only\<lparr>db_projects := [\<lparr>pr_id = ''i'', pr_name = ''P'', pr_slug = ''p'', pr_description = None, pr_is_active = True, pr_created_at = 0\<rparr>]\<rparr>"

lemma site_valid: "validate_component_create sample_cfg site_create = Inr site_create"
  by code_simp

lemma created_component_valid_witness:
  "\<exists>c db'. create_component catalog_ids site_create one_project = (Inr c, db') \<and> component_valid db' c"
proof -
  have "create_component catalog_ids site_create one_project
      = (Inr (component_of_payload (catalog_ids one_project) site_create), insert_component (component_of_payload (catalog_ids one_project) site_create) one_project)"
    by (simp add: create_component_def one_project_def kinds_only_def empty_database_def site_create_def get_project_def get_kind_def lookup_row_def
        component_by_slug_def resolve_group_def Let_def)
  with created_component_valid [OF site_valid this] show ?thesis by blast
qed

text \<open>
  A partial update checks only the fields it sends, so it can leave a component that could not have been created: moved to another
  project, a component keeps its group of the old one; an HTTP check turned into a VPN check needs no configuration; an Xray check
  keeps the persistent mode it had as an OpenVPN check.
\<close>

definition no_change :: MonitoredComponentUpdate where
  "no_change = \<lparr>cu_project_id = None, cu_component_kind_id = None, cu_name = None, cu_slug = None, cu_description = None, cu_environment = None,
     cu_check_url = None, cu_check_method = None, cu_check_type = None, cu_check_config = None, cu_speed_test_bytes = None,
     cu_speed_test_url_template = None, cu_speed_test_interval_seconds = None, cu_speed_test_enabled = None, cu_expected_status_code = None,
     cu_timeout_seconds = None, cu_ip_family = None, cu_poll_interval_seconds = None, cu_connection_mode = None, cu_group_id = None,
     cu_sort_order = None, cu_is_active = None\<rparr>"

definition two_projects :: database where
  "two_projects = one_project\<lparr>db_projects := db_projects one_project @
       [\<lparr>pr_id = ''p2'', pr_name = ''Q'', pr_slug = ''q'', pr_description = None, pr_is_active = True, pr_created_at = 0\<rparr>],
     db_groups := [\<lparr>cg_id = ''g1'', cg_project_id = ''i'', cg_name = ''G'', cg_slug = ''g'', cg_description = None, cg_sort_order = 0, cg_is_active = True\<rparr>],
     db_components := [(component_of_payload ''c1'' site_create)\<lparr>mc_group_id := Some ''g1''\<rparr>,
       (component_of_payload ''c2'' site_create)\<lparr>mc_slug := ''vpn'', mc_check_type := ''openvpn'', mc_connection_mode := ''persistent'',
          mc_check_config := config_json ''client dev tun'', mc_timeout_seconds := 30\<rparr>]\<rparr>"

definition changed_row :: "uuid \<Rightarrow> MonitoredComponentUpdate \<Rightarrow> database \<Rightarrow> MonitoredComponent option" where
  "changed_row cid p db =
     (case validate_component_update p of Inl _ \<Rightarrow> None
      | Inr p \<Rightarrow> (case update_component cid p db of (Inr c, _) \<Rightarrow> Some c | _ \<Rightarrow> None))"

lemma moved_component_keeps_foreign_group:
  "map_option (\<lambda>c. (mc_project_id c, mc_group_id c)) (changed_row ''c1'' (no_change\<lparr>cu_project_id := Some (Some ''p2'')\<rparr>) two_projects)
    = Some (''p2'', Some ''g1'')
   \<and> map_option cg_project_id (get_group ''g1'' two_projects) = Some ''i''"
  by code_simp

lemma vpn_check_without_config:
  "map_option (\<lambda>c. (mc_check_type c, mc_check_config c, mc_timeout_seconds c))
     (changed_row ''c1'' (no_change\<lparr>cu_check_type := Some (Some ''openvpn'')\<rparr>) two_projects) = Some (''openvpn'', JNull, 10)"
  by code_simp

lemma persistent_xray_check:
  "map_option (\<lambda>c. (mc_check_type c, mc_connection_mode c)) (changed_row ''c2'' (no_change\<lparr>cu_check_type := Some (Some ''xray'')\<rparr>) two_projects)
    = Some (''xray'', ''persistent'')"
  by code_simp

end
