(* ===== verification/MonitoringAdmin.thy ===== *)
theory MonitoringAdmin
  imports Auth Catalog NetworkSummary
begin

text \<open>
  The administration of monitoring: \<open>src/app/services/monitoring_admin_service.py\<close> with the request bodies of
  \<open>src/app/schemas/monitoring.py\<close>, the pages of \<open>src/app/cqrs/common.py\<close> and the routes of
  \<open>src/app/api/routes/monitoring.py\<close>, each behind the roles it requires. The request bodies and query parameters are
  validated before the handler runs; a request that violates a bound is answered with 422.
\<close>

section \<open>Pages\<close>

record pagination =
  pg_offset :: int
  pg_limit :: int

definition pagination_ok :: "pagination \<Rightarrow> unit res" where
  \<comment> \<open>\<open>PaginationParams.__post_init__\<close>\<close>
  "pagination_ok p =
     (if pg_offset p < 0 then Inl (ValueError ''offset must be >= 0'')
      else if pg_limit p < 1 \<or> 1000 < pg_limit p then Inl (ValueError ''limit must be between 1 and 1000'')
      else Inr ())"

record 'a paginated =
  pr_items :: "'a list"
  pr_total :: int
  pr_offset :: int
  pr_limit :: int

definition has_next :: "'a paginated \<Rightarrow> bool" where "has_next r \<longleftrightarrow> pr_offset r + pr_limit r < pr_total r"
definition has_previous :: "'a paginated \<Rightarrow> bool" where "has_previous r \<longleftrightarrow> 0 < pr_offset r"

section \<open>Settings\<close>

record MonitoringSettingsUpdate =
  mu_default_poll_interval_seconds :: "int patch"
  mu_scheduler_interval_seconds :: "int patch"
  mu_default_speed_test_url_template :: "string patch"
  mu_default_speed_test_interval_seconds :: "int patch"

definition validate_settings_update :: "MonitoringSettingsUpdate \<Rightarrow> MonitoringSettingsUpdate res" where
  "validate_settings_update p =
     (if \<not> sent_ok (between 10 86400) (mu_default_poll_interval_seconds p) \<or> \<not> sent_ok (between 5 3600) (mu_scheduler_interval_seconds p)
         \<or> \<not> sent_ok (between 0 86400) (mu_default_speed_test_interval_seconds p)
         \<or> \<not> sent_ok (at_most 2048) (mu_default_speed_test_url_template p) then Inl ValidationError
      else case mu_default_speed_test_url_template p of
             Some (Some t) \<Rightarrow>
               (case validate_speed_test_url_template t of
                  Inl _ \<Rightarrow> Inl ValidationError
                | Inr t \<Rightarrow> Inr (p\<lparr>mu_default_speed_test_url_template := Some (Some t)\<rparr>))
           | _ \<Rightarrow> Inr p)"

definition get_settings :: "settings \<Rightarrow> database \<Rightarrow> MonitoringSettings res \<times> database" where
  \<comment> \<open>\<open>get_settings_response\<close>; the row is committed when it was missing\<close>
  "get_settings cfg db = map_prod Inr id (get_monitoring_settings cfg db)"

definition update_settings :: "settings \<Rightarrow> MonitoringSettingsUpdate \<Rightarrow> database \<Rightarrow> MonitoringSettings res \<times> database" where
  "update_settings cfg p db =
     (let (ms, db1) = get_monitoring_settings cfg db;
          row = ms\<lparr>ms_default_poll_interval_seconds := patched (mu_default_poll_interval_seconds p) (ms_default_poll_interval_seconds ms),
                   ms_scheduler_interval_seconds := patched (mu_scheduler_interval_seconds p) (ms_scheduler_interval_seconds ms),
                   ms_default_speed_test_url_template :=
                     patched (mu_default_speed_test_url_template p) (ms_default_speed_test_url_template ms),
                   ms_default_speed_test_interval_seconds :=
                     patched (mu_default_speed_test_interval_seconds p) (ms_default_speed_test_interval_seconds ms)\<rparr>
      in not_null [sends_null (mu_default_poll_interval_seconds p), sends_null (mu_scheduler_interval_seconds p),
                   sends_null (mu_default_speed_test_url_template p), sends_null (mu_default_speed_test_interval_seconds p)]
           row (db1\<lparr>db_settings := Some row\<rparr>) db)"

section \<open>Advice on speed tests\<close>

record advisory =
  ad_active_vpn_service_count :: int
  ad_estimated_speed_tests_per_minute :: rat
  ad_uses_default_cloudflare_template :: bool
  ad_guidance_requests_per_minute :: int
  ad_warning :: "string option"

definition components_of_project :: "uuid option \<Rightarrow> database \<Rightarrow> MonitoredComponent list" where
  \<comment> \<open>the first page of 1000; the newest of equal places and names first\<close>
  "components_of_project project_id db =
     page 0 1000 (case project_id of
                    None \<Rightarrow> db_components db
                  | Some p \<Rightarrow> sort_key (\<lambda>c. (mc_sort_order c, mc_name c)) (rev (filter (\<lambda>c. mc_project_id c = p) (db_components db))))"

definition get_speed_test_advisory :: "settings \<Rightarrow> uuid option \<Rightarrow> database \<Rightarrow> advisory res \<times> database" where
  "get_speed_test_advisory cfg project_id db =
     (let (ms, db1) = get_monitoring_settings cfg db;
          active_vpn = filter (\<lambda>c. mc_is_active c \<and> mc_check_type c \<in> set VPN_CHECK_TYPES \<and> mc_speed_test_enabled c)
                         (components_of_project project_id db1);
          per_minute = estimate_speed_tests_per_minute active_vpn ms
      in case speed_test_rate_warning cfg active_vpn ms of
           Inl e \<Rightarrow> (Inl e, db)
         | Inr warning \<Rightarrow>
             (Inr \<lparr>ad_active_vpn_service_count = int (length active_vpn), ad_estimated_speed_tests_per_minute = py_round2 per_minute,
                   ad_uses_default_cloudflare_template = list_ex (\<lambda>c. uses_default_cloudflare_template cfg c ms) active_vpn,
                   ad_guidance_requests_per_minute = GUIDANCE_REQUESTS_PER_MINUTE, ad_warning = warning\<rparr>, db1))"

section \<open>Checks and history\<close>

definition persistent_vpn :: "MonitoredComponent \<Rightarrow> bool" where
  "persistent_vpn c \<longleftrightarrow> mc_check_type c \<in> set PERSISTENT_VPN_CHECK_TYPES \<and> mc_connection_mode c = ConnectionMode_value PERSISTENT"

definition run_manual_check ::
  "settings \<Rightarrow> health_check \<Rightarrow> uuid \<Rightarrow> instant \<Rightarrow> database \<times> host_wan \<Rightarrow> CheckResult res \<times> database \<times> host_wan" where
  \<comment> \<open>a check that raises ends the request, nothing is committed\<close>
  "run_manual_check cfg health_check cid now st =
     (case find_component cid (fst st) of
        Inl e \<Rightarrow> (Inl e, st)
      | Inr c \<Rightarrow>
          if persistent_vpn c
          then (Inl (HTTPException 409 ''Manual checks are not supported for persistent OpenVPN services; use the connection log instead.''), st)
          else (case run_check cfg health_check c None now st of
                  (Inl e, _, hw) \<Rightarrow> (Inl e, fst st, hw)
                | (Inr r, st) \<Rightarrow> (Inr r, st)))"

definition list_check_results :: "uuid \<Rightarrow> pagination \<Rightarrow> database \<Rightarrow> CheckResult paginated res" where
  "list_check_results cid p db =
     (case find_component cid db of
        Inl e \<Rightarrow> Inl e
      | Inr _ \<Rightarrow>
          (case list_results_paginated db cid (pg_offset p) (pg_limit p) of
             (items, n) \<Rightarrow> Inr \<lparr>pr_items = items, pr_total = n, pr_offset = pg_offset p, pr_limit = pg_limit p\<rparr>))"

definition list_connection_events :: "uuid \<Rightarrow> pagination \<Rightarrow> database \<Rightarrow> ConnectionEvent paginated res" where
  "list_connection_events cid p db =
     (case find_component cid db of
        Inl e \<Rightarrow> Inl e
      | Inr _ \<Rightarrow>
          (case list_events_paginated db cid (pg_offset p) (pg_limit p) of
             (items, n) \<Rightarrow> Inr \<lparr>pr_items = items, pr_total = n, pr_offset = pg_offset p, pr_limit = pg_limit p\<rparr>))"

definition purge_check_history :: "uuid \<Rightarrow> int \<Rightarrow> database \<Rightarrow> (int \<times> int) res \<times> database" where
  \<comment> \<open>the numbers deleted and remaining\<close>
  "purge_check_history cid keep db =
     (case find_component cid db of
        Inl e \<Rightarrow> (Inl e, db)
      | Inr _ \<Rightarrow>
          (case purge_results cid keep db of
             (Inl e, _) \<Rightarrow> (Inl e, db)
           | (Inr counts, db) \<Rightarrow> (Inr counts, if keep = 0 then snd (purge_events cid db) else db)))"

section \<open>Components with their latest check\<close>

record component_response =
  rp_component :: MonitoredComponent
  rp_group_name :: "string option"
  rp_latest_outcome :: "string option"
  rp_latest_latency_ms :: "int option"
  rp_latest_checked_at :: "py_datetime option"
  rp_latest_error_message :: "string option"
  rp_latest_log_tail :: "string option"
  rp_latest_network_summary :: "dict option"

definition latest_diagnostics :: "CheckResult \<Rightarrow> string option \<times> string option" where
  "latest_diagnostics latest =
     (cr_error_message latest,
      case Option.bind (as_dict (cr_details latest)) (\<lambda>d. as_str (jget d ''log_tail'')) of
        None \<Rightarrow> None | Some raw \<Rightarrow> if strip raw = [] then None else Some raw)"

definition enrich_component :: "database \<Rightarrow> MonitoredComponent \<Rightarrow> CheckResult option \<Rightarrow> component_response" where
  "enrich_component db c latest =
     (let group_name = Option.bind (mc_group_id c) (\<lambda>g. map_option cg_name (get_group g db));
          bare = \<lparr>rp_component = c, rp_group_name = group_name, rp_latest_outcome = None, rp_latest_latency_ms = None,
                  rp_latest_checked_at = None, rp_latest_error_message = None, rp_latest_log_tail = None,
                  rp_latest_network_summary = None\<rparr>
      in case latest of
           None \<Rightarrow> bare
         | Some r \<Rightarrow>
             bare\<lparr>rp_latest_outcome := Some (cr_outcome r), rp_latest_latency_ms := cr_latency_ms r,
                  rp_latest_checked_at := Some (cr_checked_at r), rp_latest_error_message := fst (latest_diagnostics r),
                  rp_latest_log_tail := snd (latest_diagnostics r), rp_latest_network_summary := public_network_summary (cr_details r)\<rparr>)"

definition enrich_components :: "database \<Rightarrow> MonitoredComponent list \<Rightarrow> component_response list" where
  "enrich_components db cs =
     (let latest_map = latest_by_component_ids db (map mc_id cs) in map (\<lambda>c. enrich_component db c (latest_map (mc_id c))) cs)"

definition enrich_component_by_id :: "uuid \<Rightarrow> database \<Rightarrow> component_response res" where
  "enrich_component_by_id cid db =
     (case find_component cid db of
        Inl e \<Rightarrow> Inl e
      | Inr c \<Rightarrow> Inr (enrich_component db c (latest_by_component_ids db [mc_id c] (mc_id c))))"

section \<open>Routes\<close>

definition readers :: "string list" where "readers = [''admin'', ''operator'', ''viewer'']"
definition writers :: "string list" where "writers = [''admin'', ''operator'']"

datatype monitoring_request =
    GetSettings
  | PatchSettings MonitoringSettingsUpdate
  | GetAdvisory "uuid option"
  | PostCheck uuid
  | GetResults uuid int int
  | GetEvents uuid int int
  | DeleteResults uuid int

datatype monitoring_answer =
    SettingsAnswer MonitoringSettings
  | AdvisoryAnswer advisory
  | ResultAnswer CheckResult
  | ResultsAnswer "CheckResult paginated"
  | EventsAnswer "ConnectionEvent paginated"
  | PurgeAnswer "int \<times> int"

fun query_ok :: "monitoring_request \<Rightarrow> bool" where
  \<comment> \<open>the bounds of the query parameters\<close>
  "query_ok (GetResults _ offset limit) = (0 \<le> offset \<and> between 1 100 limit)"
| "query_ok (GetEvents _ offset limit) = (0 \<le> offset \<and> between 1 200 limit)"
| "query_ok (DeleteResults _ keep) = between 0 10000 keep"
| "query_ok (PatchSettings p) = (\<not> isl (validate_settings_update p))"
| "query_ok _ = True"

fun roles_of :: "monitoring_request \<Rightarrow> string list" where
  "roles_of (PatchSettings _) = writers"
| "roles_of (PostCheck _) = writers"
| "roles_of (DeleteResults _ _) = writers"
| "roles_of _ = readers"

fun monitoring_handler ::
  "settings \<Rightarrow> health_check \<Rightarrow> instant \<Rightarrow> monitoring_request \<Rightarrow> database \<times> host_wan \<Rightarrow> monitoring_answer res \<times> database \<times> host_wan" where
  "monitoring_handler cfg check now GetSettings (db, hw) = (case get_settings cfg db of (q, db) \<Rightarrow> (map_sum id SettingsAnswer q, db, hw))"
| "monitoring_handler cfg check now (PatchSettings p) (db, hw) =
     (case validate_settings_update p of
        Inl e \<Rightarrow> (Inl e, db, hw)
      | Inr p \<Rightarrow> (case update_settings cfg p db of (q, db) \<Rightarrow> (map_sum id SettingsAnswer q, db, hw)))"
| "monitoring_handler cfg check now (GetAdvisory pid) (db, hw) =
     (case get_speed_test_advisory cfg pid db of (q, db) \<Rightarrow> (map_sum id AdvisoryAnswer q, db, hw))"
| "monitoring_handler cfg check now (PostCheck cid) st =
     (case run_manual_check cfg check cid now st of (q, st) \<Rightarrow> (map_sum id ResultAnswer q, st))"
| "monitoring_handler cfg check now (GetResults cid offset limit) (db, hw) =
     (map_sum id ResultsAnswer (list_check_results cid \<lparr>pg_offset = offset, pg_limit = limit\<rparr> db), db, hw)"
| "monitoring_handler cfg check now (GetEvents cid offset limit) (db, hw) =
     (map_sum id EventsAnswer (list_connection_events cid \<lparr>pg_offset = offset, pg_limit = limit\<rparr> db), db, hw)"
| "monitoring_handler cfg check now (DeleteResults cid keep) (db, hw) =
     (case purge_check_history cid keep db of (q, db) \<Rightarrow> (map_sum id PurgeAnswer q, db, hw))"

definition monitoring_route ::
  "settings \<Rightarrow> crypto \<Rightarrow> health_check \<Rightarrow> http_request \<Rightarrow> instant \<Rightarrow> monitoring_request \<Rightarrow> database \<times> host_wan
     \<Rightarrow> monitoring_answer res \<times> database \<times> host_wan" where
  \<comment> \<open>the dependency on the roles, the validation of the parameters, then the handler\<close>
  "monitoring_route cfg cx check http now rq st =
     (case require_access_roles cfg cx (roles_of rq) http now (fst st) of
        Inl e \<Rightarrow> (Inl e, st)
      | Inr _ \<Rightarrow> if query_ok rq then monitoring_handler cfg check now rq st else (Inl ValidationError, st))"

fun catalog_roles :: "catalog_request \<Rightarrow> string list" where
  \<comment> \<open>\<open>src/app/api/routes/catalog.py\<close>\<close>
  "catalog_roles (DeleteProject _) = [''admin'']"
| "catalog_roles (DeleteKind _) = [''admin'']"
| "catalog_roles (DeleteGroup _) = [''admin'']"
| "catalog_roles (DeleteComponent _) = [''admin'']"
| "catalog_roles _ = writers"

definition catalog_route ::
  "settings \<Rightarrow> crypto \<Rightarrow> (database \<Rightarrow> uuid) \<Rightarrow> http_request \<Rightarrow> instant \<Rightarrow> catalog_request \<Rightarrow> database \<Rightarrow> unit res \<times> database" where
  \<comment> \<open>the answer of a permitted request is left out\<close>
  "catalog_route cfg cx fresh_id http now rq db =
     (case require_access_roles cfg cx (catalog_roles rq) http now db of
        Inl e \<Rightarrow> (Inl e, db)
      | Inr _ \<Rightarrow> (Inr (), catalog_step cfg fresh_id (rq, now) db))"

section \<open>Who may change what\<close>

lemma roles_refused:
  assumes "get_current_account cfg cx http now db = Inr a" "set (ac_access_roles a) \<inter> set allowed = {}"
  shows "require_access_roles cfg cx allowed http now db = Inl (HTTPException 403 ''Insufficient permissions'')"
  using assms by (simp add: require_access_roles_def)

lemma settings_present: "db_settings db = Some ms \<Longrightarrow> get_monitoring_settings cfg db = (ms, db)"
  by (simp add: get_monitoring_settings_def)

lemma readers_change_nothing:
  assumes "db_settings db = Some ms" "roles_of rq = readers"
  shows "snd (monitoring_handler cfg check now rq (db, hw)) = (db, hw)"
  using assms
  by (cases rq) (auto simp: readers_def writers_def get_settings_def get_speed_test_advisory_def settings_present Let_def split: prod.splits sum.splits)

text \<open>
  An account whose only role is viewer changes nothing through the administration of monitoring and of the catalogue:
  whatever request it sends, the database and the host WAN state stay as they are; a request that would change something
  is refused with 403, and deleting anything of the catalogue is refused to an operator as well.
\<close>
theorem viewers_change_nothing:
  assumes "get_current_account cfg cx http now db = Inr a" "set (ac_access_roles a) \<subseteq> {''viewer''}" "db_settings db \<noteq> None"
  shows "snd (monitoring_route cfg cx check http now rq (db, hw)) = (db, hw)
    \<and> catalog_route cfg cx fresh_id http now crq db = (Inl (HTTPException 403 ''Insufficient permissions''), db)"
proof
  show "snd (monitoring_route cfg cx check http now rq (db, hw)) = (db, hw)"
  proof (cases "roles_of rq = readers")
    case True
    then show ?thesis
      using assms(3) readers_change_nothing by (auto simp: monitoring_route_def split: sum.split)
  next
    case False
    then have "roles_of rq = writers" by (cases rq) simp_all
    then have "require_access_roles cfg cx (roles_of rq) http now db = Inl (HTTPException 403 ''Insufficient permissions'')"
      using assms(1,2) by (intro roles_refused) (auto simp: writers_def)
    then show ?thesis by (simp add: monitoring_route_def)
  qed
  have "set (catalog_roles crq) \<subseteq> {''admin'', ''operator''}"
    by (cases crq) (auto simp: writers_def)
  then have "set (ac_access_roles a) \<inter> set (catalog_roles crq) = {}"
    using assms(2) by auto
  from roles_refused [OF assms(1) this] show "catalog_route cfg cx fresh_id http now crq db = (Inl (HTTPException 403 ''Insufficient permissions''), db)"
    by (simp add: catalog_route_def)
qed

section \<open>Settings stay within their bounds\<close>

definition settings_valid :: "MonitoringSettings \<Rightarrow> bool" where
  "settings_valid ms \<longleftrightarrow>
     between 10 86400 (ms_default_poll_interval_seconds ms) \<and> between 5 3600 (ms_scheduler_interval_seconds ms)
     \<and> between 0 86400 (ms_default_speed_test_interval_seconds ms)
     \<and> \<not> isl (validate_speed_test_url_template (ms_default_speed_test_url_template ms))"

definition stored_settings_valid :: "database \<Rightarrow> bool" where
  "stored_settings_valid db \<longleftrightarrow> (\<forall>ms. db_settings db = Some ms \<longrightarrow> settings_valid ms)"

lemma get_settings_valid:
  assumes "stored_settings_valid db" "\<not> isl (validate_speed_test_url_template (default_speed_test_url_template cfg))"
    and "get_monitoring_settings cfg db = (ms, db')"
  shows "settings_valid ms \<and> stored_settings_valid db' \<and> db_settings db' = Some ms"
  using assms
  by (auto simp: get_monitoring_settings_def Let_def stored_settings_valid_def settings_valid_def between_def DEFAULT_SPEED_TEST_INTERVAL_SECONDS_def
      split: option.splits)


lemma validated_template_valid: "validate_speed_test_url_template t = Inr u \<Longrightarrow> \<not> isl (validate_speed_test_url_template u)"
  by (auto simp: validate_speed_test_url_template_def Let_def strip_idem split: if_splits)

lemma sent_between_patched: "sent_ok (between lo hi) p \<Longrightarrow> between lo hi old \<Longrightarrow> between lo hi (patched p old)"
  by (rule sent_ok_patched)

lemma update_settings_valid:
  assumes "stored_settings_valid db" "\<not> isl (validate_speed_test_url_template (default_speed_test_url_template cfg))"
    and "validate_settings_update p0 = Inr p"
  shows "stored_settings_valid (snd (update_settings cfg p db))"
proof -
  obtain ms db1 where g: "get_monitoring_settings cfg db = (ms, db1)" by fastforce
  note v = get_settings_valid [OF assms(1,2) g]
  have t: "\<not> isl (validate_speed_test_url_template (patched (mu_default_speed_test_url_template p) (ms_default_speed_test_url_template ms)))"
    using v assms(3)
    by (auto simp: validate_settings_update_def settings_valid_def patched_def validated_template_valid split: if_splits option.splits sum.splits)
  have b: "sent_ok (between 10 86400) (mu_default_poll_interval_seconds p)" "sent_ok (between 5 3600) (mu_scheduler_interval_seconds p)"
      "sent_ok (between 0 86400) (mu_default_speed_test_interval_seconds p)"
    using assms(3) by (auto simp: validate_settings_update_def split: if_splits option.splits sum.splits)
  show ?thesis
    using v t b assms(1)
    by (auto simp: update_settings_def g Let_def not_null_def stored_settings_valid_def settings_valid_def intro: sent_between_patched)
qed


lemma db_settings_rows [simp]:
  "db_settings (save_component c db) = db_settings db" "db_settings (add_result r db) = db_settings db"
  "db_settings (snd (purge_results cid keep db)) = db_settings db" "db_settings (snd (purge_events cid db)) = db_settings db"
  by (simp_all add: save_component_def add_result_def purge_results_def purge_events_def Let_def)

lemma run_check_settings:
  assumes "run_check cfg check c al now (db, hw) = (q, db', hw')"
  shows "db_settings db' = db_settings (snd (get_monitoring_settings cfg db))"
  using assms by (auto simp: run_check_def Let_def split: prod.splits sum.splits)

lemma monitoring_handler_settings:
  assumes "stored_settings_valid db" "\<not> isl (validate_speed_test_url_template (default_speed_test_url_template cfg))"
  shows "stored_settings_valid (fst (snd (monitoring_handler cfg check now rq (db, hw))))"
proof -
  have defaults: "stored_settings_valid (snd (get_monitoring_settings cfg db))"
    using get_settings_valid [OF assms] by (cases "get_monitoring_settings cfg db") auto
  show ?thesis
  proof (cases rq)
    case GetSettings
    then show ?thesis
      using defaults by (cases "get_monitoring_settings cfg db") (simp add: get_settings_def)
  next
    case (PatchSettings p)
    show ?thesis
    proof (cases "validate_settings_update p")
      case (Inr v)
      then show ?thesis
        using PatchSettings update_settings_valid [OF assms Inr] by (cases "update_settings cfg v db") simp
    qed (use PatchSettings assms(1) in simp)
  next
    case (GetAdvisory x)
    then show ?thesis
      using defaults assms(1) by (auto simp: get_speed_test_advisory_def Let_def split: prod.splits sum.splits)
  next
    case (PostCheck cid)
    have "stored_settings_valid db'" if "run_check cfg check c None now (db, hw) = (q, db', hw')" for c q db' hw'
      using run_check_settings [OF that] defaults by (simp add: stored_settings_valid_def)
    then show ?thesis
      using PostCheck assms(1) by (auto simp: run_manual_check_def split: sum.splits prod.splits)
  next
    case (DeleteResults cid keep)
    have "db_settings (snd (purge_check_history cid keep db)) = db_settings db"
      using db_settings_rows(3) [of cid keep db]
      by (auto simp: purge_check_history_def simp del: db_settings_rows(3) split: sum.splits prod.splits)
    then show ?thesis
      using DeleteResults assms(1) by (cases "purge_check_history cid keep db") (simp add: stored_settings_valid_def)
  qed (use assms(1) in simp_all)
qed

text \<open>
  C35. The stored monitoring settings stay within their bounds whatever requests the administration receives: the polling
  interval between 10 seconds and a day, the scheduler's between 5 seconds and an hour, the speed-test interval at most a
  day, and a URL template that can be used.
\<close>
theorem monitoring_settings_stay_valid:
  assumes "stored_settings_valid db" "\<not> isl (validate_speed_test_url_template (default_speed_test_url_template cfg))"
  shows "stored_settings_valid (fst (snd (monitoring_route cfg cx check http now rq (db, hw))))"
  using monitoring_handler_settings [OF assms] assms(1) by (simp add: monitoring_route_def split: sum.split)

section \<open>Witnesses\<close>

lemma account_of_cookie:
  assumes "now < numeric_date (t + cfg_jwt_expire_minutes cfg * usec_per_minute) * usec_per_second" "get_account aid db = Some a"
  shows "get_current_account cfg session_crypto (cookie_request cfg (create_access_token cfg session_crypto aid roles t)) now db = Inr a"
  using assms account_from_access_token [of session_crypto cfg aid roles t now db]
  by (simp add: get_current_account_def create_access_token_def)

definition viewer_database :: database where
  "viewer_database = sample_database\<lparr>db_accounts := [sample_account\<lparr>ac_access_roles := [''viewer'']\<rparr>]\<rparr>"

definition viewer_request :: http_request where
  "viewer_request = cookie_request sample_cfg (create_access_token sample_cfg session_crypto ''a1'' [''viewer''] 0)"

lemma viewer_signed_in: "get_current_account sample_cfg session_crypto viewer_request 0 viewer_database = Inr (sample_account\<lparr>ac_access_roles := [''viewer'']\<rparr>)"
  unfolding viewer_request_def
  by (rule account_of_cookie) (simp_all add: numeric_date_def sample_cfg_def get_account_def lookup_row_def viewer_database_def sample_account_def)

lemma viewers_change_nothing_witness:
  "snd (monitoring_route sample_cfg session_crypto sample_check viewer_request 0 (DeleteResults ''c1'' 0) (viewer_database, fresh_process None))
     = (viewer_database, fresh_process None)
   \<and> catalog_route sample_cfg session_crypto catalog_ids viewer_request 0 (DeleteComponent ''c1'') viewer_database
       = (Inl (HTTPException 403 ''Insufficient permissions''), viewer_database)"
proof -
  have "db_settings viewer_database \<noteq> None"
    by (simp add: viewer_database_def sample_database_def)
  then show ?thesis
    using viewers_change_nothing [OF viewer_signed_in] by simp
qed

lemma monitoring_settings_stay_valid_witness:
  "stored_settings_valid (fst (snd (monitoring_route sample_cfg session_crypto sample_check viewer_request 0
     (PatchSettings \<lparr>mu_default_poll_interval_seconds = Some (Some 10), mu_scheduler_interval_seconds = None,
                     mu_default_speed_test_url_template = None, mu_default_speed_test_interval_seconds = None\<rparr>)
     (empty_database, fresh_process None))))"
proof (rule monitoring_settings_stay_valid)
  show "stored_settings_valid empty_database"
    by (simp add: stored_settings_valid_def empty_database_def)
  show "\<not> isl (validate_speed_test_url_template (default_speed_test_url_template sample_cfg))"
    by code_simp
qed

end
