(* ===== verification/DatagateClient.thy ===== *)
theory DatagateClient
  imports Matcher XrayConfig PyTime
begin

text \<open>
  The client of the DataGate service: \<open>src/app/services/datagate/client.py\<close>. The service is an argument: what it answers
  to a request, in a world of its own that a request may change, and the clock. The state of a client is the cached token
  and that world; an operation takes it and returns a result or an exception with the state after it. An \<open>apiUrl\<close> that
  is neither text nor null raises, as its membership test does for a number. Texts are UTF-8.
\<close>

section \<open>Requests\<close>

datatype dg_exn =
    ApiError string "int option" \<comment> \<open>\<open>DataGateApiError\<close> with its status code\<close>
  | ClientRaised py_exn \<comment> \<open>any other exception, such as one of \<open>httpx\<close>\<close>

record dg_request =
  dq_method :: string
  dq_url :: string
  dq_json :: json
  dq_token :: "string option" \<comment> \<open>the bearer of the \<open>Authorization\<close> header\<close>

datatype dg_reply =
    Answered int "json option" \<comment> \<open>the status and the body, when it is JSON\<close>
  | Unanswered py_exn

record 'w dg_service =
  dv_send :: "dg_request \<Rightarrow> 'w \<Rightarrow> dg_reply \<times> 'w"
  dv_now :: "'w \<Rightarrow> instant"

record dg_login =
  dl_base_url :: string
  dl_client_id :: string
  dl_client_secret :: string

record token_state =
  ts_token :: string
  ts_expires_at :: instant

type_synonym 'w dg_state = "token_state option \<times> 'w"
type_synonym ('w, 'a) dg_action = "'w dg_state \<Rightarrow> (dg_exn + 'a) \<times> 'w dg_state"

definition and_then :: "('w, 'a) dg_action \<Rightarrow> ('a \<Rightarrow> ('w, 'b) dg_action) \<Rightarrow> ('w, 'b) dg_action" where
  "and_then m f s = (case m s of (Inl e, s) \<Rightarrow> (Inl e, s) | (Inr a, s) \<Rightarrow> f a s)"

definition on_error :: "('w, 'a) dg_action \<Rightarrow> (dg_exn \<Rightarrow> ('w, 'a) dg_action) \<Rightarrow> ('w, 'a) dg_action" where
  "on_error m h s = (case m s of (Inl e, s) \<Rightarrow> h e s | (Inr a, s) \<Rightarrow> (Inr a, s))"

definition give :: "dg_exn + 'a \<Rightarrow> ('w, 'a) dg_action" where "give q s = (q, s)"

definition raised :: "'a res \<Rightarrow> dg_exn + 'a" where "raised q = map_sum ClientRaised id q"

definition unwrap :: "json \<Rightarrow> dg_exn + json" where
  "unwrap payload =
     (case as_dict payload of
        None \<Rightarrow> Inl (ApiError ''Unexpected DataGate response shape'' None)
      | Some d \<Rightarrow>
          if jget d ''success'' = JBool False
          then Inl (ApiError (py_str (jor (jget d ''message'') (JStr ''DataGate request failed''))) None)
          else case map_of d ''data'' of Some v \<Rightarrow> Inr v | None \<Rightarrow> Inr payload)"

definition reply_value :: "dg_reply \<Rightarrow> dg_exn + json" where
  "reply_value reply =
     (case reply of
        Unanswered e \<Rightarrow> Inl (ClientRaised e)
      | Answered code None \<Rightarrow> Inl (ApiError (''DataGate returned non-JSON ('' @ int_str code @ '')'') (Some code))
      | Answered code (Some body) \<Rightarrow>
          if 400 \<le> code
          then let message = (case as_dict body of None \<Rightarrow> JNull | Some d \<Rightarrow> jget d ''message'')
               in Inl (ApiError (py_str (jor message (JStr (''DataGate HTTP '' @ int_str code)))) (Some code))
          else unwrap body)"

definition send_request ::
  "'w dg_service \<Rightarrow> dg_login \<Rightarrow> string \<Rightarrow> string \<Rightarrow> json \<Rightarrow> string option \<Rightarrow> ('w, json) dg_action" where
  "send_request sv lg request_method path body token s =
     (let rq = \<lparr>dq_method = request_method, dq_url = rstrip_by (\<lambda>c. c = CHR ''/'') (dl_base_url lg) @ path, dq_json = body,
                dq_token = token\<rparr>;
          (reply, w) = dv_send sv rq (snd s)
      in (reply_value reply, (fst s, w)))"

section \<open>The token\<close>

definition TOKEN_MARGIN :: int where "TOKEN_MARGIN = 2 * 60 * usec_per_second"

definition stated_expiry :: "instant \<Rightarrow> json \<Rightarrow> instant" where
  \<comment> \<open>a time without an offset counts as UTC; one that cannot be read counts as now\<close>
  "stated_expiry now raw =
     (if \<not> truthy raw then now
      else case fromisoformat (replace_all ''Z'' ''+00:00'' (py_str raw)) of
             None \<Rightarrow> now | Some (Aware t) \<Rightarrow> t | Some (Naive t) \<Rightarrow> t)"

definition token_of_reply :: "instant \<Rightarrow> json \<Rightarrow> dg_exn + token_state" where
  \<comment> \<open>the subtraction of the two minutes may leave the range of \<open>datetime\<close>\<close>
  "token_of_reply now data =
     (case as_dict data of
        None \<Rightarrow> Inl (ApiError ''DataGate token response missing token'' None)
      | Some d \<Rightarrow>
          if \<not> truthy (jget d ''token'') then Inl (ApiError ''DataGate token response missing token'' None)
          else let expires_at = stated_expiry now (jget d ''expiration'') - TOKEN_MARGIN
               in if \<not> date_in_range (date_of expires_at) then Inl (ClientRaised (OtherError ''date value out of range''))
                  else Inr \<lparr>ts_token = py_str (jget d ''token''), ts_expires_at = expires_at\<rparr>)"

definition token_request :: "dg_login \<Rightarrow> json" where
  "token_request lg = JObj [(''clientId'', JStr (dl_client_id lg)), (''clientSecret'', JStr (dl_client_secret lg))]"

definition cached_token :: "instant \<Rightarrow> token_state option \<Rightarrow> string option" where
  "cached_token now t = (case t of Some k \<Rightarrow> if now < ts_expires_at k then Some (ts_token k) else None | None \<Rightarrow> None)"

definition get_token :: "'w dg_service \<Rightarrow> dg_login \<Rightarrow> ('w, string) dg_action" where
  "get_token sv lg s =
     (let now = dv_now sv (snd s)
      in case cached_token now (fst s) of
           Some token \<Rightarrow> (Inr token, s)
         | None \<Rightarrow>
             (case send_request sv lg ''POST'' ''/api/auth/token'' (token_request lg) None s of
                (Inl e, s) \<Rightarrow> (Inl e, s)
              | (Inr data, s) \<Rightarrow>
                  (case token_of_reply now data of
                     Inl e \<Rightarrow> (Inl e, s)
                   | Inr t \<Rightarrow> (Inr (ts_token t), (Some t, snd s)))))"

definition request :: "'w dg_service \<Rightarrow> dg_login \<Rightarrow> string \<Rightarrow> string \<Rightarrow> json \<Rightarrow> ('w, json) dg_action" where
  "request sv lg request_method path body =
     and_then (get_token sv lg) (\<lambda>token. send_request sv lg request_method path body (Some token))"

section \<open>Servers\<close>

definition host_from_api_url :: "string option \<Rightarrow> string option res" where
  "host_from_api_url api_url =
     (case nonempty_text api_url of
        None \<Rightarrow> Inr None
      | Some url \<Rightarrow> map_sum id pu_hostname (urlparse (if contains url ''://'' then url else ''https://'' @ url)))"

fun traverse :: "('a \<Rightarrow> 'e + 'b) \<Rightarrow> 'a list \<Rightarrow> 'e + 'b list" where
  "traverse f [] = Inr []"
| "traverse f (x # xs) =
     (case f x of Inl e \<Rightarrow> Inl e | Inr y \<Rightarrow> (case traverse f xs of Inl e \<Rightarrow> Inl e | Inr ys \<Rightarrow> Inr (y # ys)))"

definition int_or_raise :: "json \<Rightarrow> int res" where
  "int_or_raise j =
     (case py_int j of Some n \<Rightarrow> Inr n | None \<Rightarrow> Inl (ValueError ''invalid literal for int()''))"

definition optional_text :: "json \<Rightarrow> string option res" where
  "optional_text j =
     (case j of JNull \<Rightarrow> Inr None | JStr s \<Rightarrow> Inr (Some s) | _ \<Rightarrow> Inl (TypeError ''argument is not iterable''))"

definition server_of_item :: "dict \<Rightarrow> DataGateServer res" where
  "server_of_item item =
     (case map_of item ''id'' of
        None \<Rightarrow> Inl (OtherError ''id'')
      | Some raw_id \<Rightarrow>
          (case (int_or_raise raw_id, int_or_raise (default_to (JInt 0) (map_of item ''serverType'')),
                 iterated (jor (jget item ''tags'') (JArr [])), optional_text (jget item ''apiUrl'')) of
             (Inl e, _) \<Rightarrow> Inl e
           | (_, Inl e, _) \<Rightarrow> Inl e
           | (_, _, Inl e, _) \<Rightarrow> Inl e
           | (_, _, _, Inl e) \<Rightarrow> Inl e
           | (Inr sid, Inr server_type, Inr tags, Inr api_url) \<Rightarrow>
               (case host_from_api_url api_url of
                  Inl e \<Rightarrow> Inl e
                | Inr host \<Rightarrow>
                    Inr \<lparr>ds_id = sid, ds_server_type = server_type,
                         ds_server_name = py_str (jor (jget item ''serverName'') (JStr (''server-'' @ py_str raw_id))),
                         ds_api_url = api_url, ds_is_online = truthy (jget item ''isOnline''),
                         ds_is_disabled = truthy (jget item ''isDisabled''), ds_tags = map py_str tags,
                         ds_host = host, ds_port = None, ds_proto = None\<rparr>)))"

definition servers_of_data :: "json \<Rightarrow> DataGateServer list res" where
  "servers_of_data data =
     (case (case data of
              JObj d \<Rightarrow> iterated (jor (jor (jget d ''vpnServers'') (jget d ''vpn_servers'')) (JArr []))
            | JArr js \<Rightarrow> Inr js
            | _ \<Rightarrow> Inr []) of
        Inl e \<Rightarrow> Inl e
      | Inr raw_servers \<Rightarrow> traverse server_of_item (List.map_filter as_dict raw_servers))"

definition list_servers :: "'w dg_service \<Rightarrow> dg_login \<Rightarrow> ('w, DataGateServer list) dg_action" where
  "list_servers sv lg =
     and_then (request sv lg ''GET'' ''/api/v3/open-vpn-servers/get-all'' JNull) (\<lambda>data. give (raised (servers_of_data data)))"

definition missing :: "dg_exn \<Rightarrow> bool" where
  \<comment> \<open>\<open>exc.status_code in (404, 400)\<close>\<close>
  "missing e = (case e of ApiError _ (Some code) \<Rightarrow> code = 404 \<or> code = 400 | _ \<Rightarrow> False)"

definition get_export_config :: "'w dg_service \<Rightarrow> dg_login \<Rightarrow> int \<Rightarrow> ('w, dict option) dg_action" where
  "get_export_config sv lg server_id =
     on_error
       (and_then (request sv lg ''GET'' (''/api/open-vpn-configs/get/'' @ int_str server_id) JNull) (\<lambda>data. give (Inr (as_dict data))))
       (\<lambda>e. give (if missing e then Inr None else Inl e))"

definition with_export_config :: "dict \<Rightarrow> DataGateServer \<Rightarrow> DataGateServer" where
  "with_export_config cfg s =
     (let host = jor (jget cfg ''vpnServerIp'') (jget cfg ''vpn_server_ip'');
          port = jor (jget cfg ''vpnServerPort'') (jget cfg ''vpn_server_port'');
          template = jor (jor (jget cfg ''configTemplate'') (jget cfg ''config_template'')) (JStr []);
          s = (if truthy host then s\<lparr>ds_host := Some (py_str host)\<rparr> else s);
          s = s\<lparr>ds_port := py_or (py_int port) (ds_port s)\<rparr>;
          parsed = parse_ovpn_endpoint (py_str template)
      in s\<lparr>ds_host := (if nonempty_text (ds_host s) = None then py_or (nonempty_text (ep_host parsed)) (ds_host s) else ds_host s),
           ds_port := py_or (ds_port s) (ep_port parsed),
           ds_proto := py_or (nonempty_text (ep_proto parsed)) (ds_proto s)\<rparr>)"

definition enriched :: "dict option \<Rightarrow> DataGateServer \<Rightarrow> DataGateServer res" where
  "enriched cfg s =
     (let s = (case cfg of None \<Rightarrow> s | Some d \<Rightarrow> if d = [] then s else with_export_config d s);
          s = (if nonempty_text (ds_proto s) = None
               then s\<lparr>ds_proto := (case List.map_filter (\<lambda>tag. known_proto (Some tag)) (ds_tags s) of
                                     [] \<Rightarrow> ds_proto s | p # _ \<Rightarrow> Some p)\<rparr> else s)
      in if nonempty_text (ds_host s) = None
         then map_sum id (\<lambda>host. s\<lparr>ds_host := host\<rparr>) (host_from_api_url (ds_api_url s)) else Inr s)"

definition enrich_server :: "'w dg_service \<Rightarrow> dg_login \<Rightarrow> DataGateServer \<Rightarrow> ('w, DataGateServer) dg_action" where
  "enrich_server sv lg s = and_then (get_export_config sv lg (ds_id s)) (\<lambda>cfg. give (raised (enriched cfg s)))"

section \<open>The content of a file\<close>

definition b64_value :: "char \<Rightarrow> nat option" where
  "b64_value c =
     (let n = of_char c :: nat
      in if 65 \<le> n \<and> n \<le> 90 then Some (n - 65) else if 97 \<le> n \<and> n \<le> 122 then Some (n - 71)
         else if json_digit c then Some (n + 4) else if c = CHR ''+'' then Some 62 else if c = CHR ''/'' then Some 63 else None)"

fun a2b_loop :: "nat \<Rightarrow> nat \<Rightarrow> nat \<Rightarrow> string \<Rightarrow> string option" where
  \<comment> \<open>\<open>binascii.a2b_base64\<close>, not strict: the place in the group of four, the bits left over, the padding seen; a
     character outside the alphabet is skipped\<close>
  "a2b_loop place left pads [] = (if place = 0 then Some [] else None)"
| "a2b_loop place left pads (c # s) =
     (if c = CHR ''=''
      then (if 2 \<le> place then (if 4 \<le> place + pads + 1 then Some [] else a2b_loop place left (pads + 1) s) else a2b_loop place left pads s)
      else case b64_value c of
             None \<Rightarrow> a2b_loop place left pads s
           | Some v \<Rightarrow>
               (if place = 0 then a2b_loop 1 v 0 s
                else if place = 1 then map_option (Cons (char_of (4 * left + v div 16))) (a2b_loop 2 (v mod 16) 0 s)
                else if place = 2 then map_option (Cons (char_of (16 * left + v div 4))) (a2b_loop 3 (v mod 4) 0 s)
                else map_option (Cons (char_of (64 * left + v))) (a2b_loop 0 0 0 s)))"

definition b64decode :: "string \<Rightarrow> string option" where
  \<comment> \<open>\<open>base64.b64decode(content)\<close>; \<open>None\<close>: it raises\<close>
  "b64decode content = (if list_all (\<lambda>c. (of_char c :: nat) < 128) content then a2b_loop 0 0 0 content else None)"

definition utf8_lead :: "nat \<Rightarrow> (nat \<times> nat \<times> nat) option" where
  \<comment> \<open>the number of bytes that follow a first byte, and the range of the second\<close>
  "utf8_lead b =
     (if 194 \<le> b \<and> b \<le> 223 then Some (1, 128, 191) else if b = 224 then Some (2, 160, 191)
      else if b = 237 then Some (2, 128, 159) else if 225 \<le> b \<and> b \<le> 239 then Some (2, 128, 191)
      else if b = 240 then Some (3, 144, 191) else if 241 \<le> b \<and> b \<le> 243 then Some (3, 128, 191)
      else if b = 244 then Some (3, 128, 143) else None)"

fun utf8_tail :: "nat \<Rightarrow> nat \<Rightarrow> nat \<Rightarrow> string \<Rightarrow> nat" where
  \<comment> \<open>how many of the expected bytes follow\<close>
  "utf8_tail (Suc n) lo hi (c # s) =
     (if lo \<le> (of_char c :: nat) \<and> (of_char c :: nat) \<le> hi then Suc (utf8_tail n 128 191 s) else 0)"
| "utf8_tail _ lo hi _ = 0"

definition REPLACEMENT_CHARACTER :: string where "REPLACEMENT_CHARACTER = [CHR 0xEF, CHR 0xBF, CHR 0xBD]"

function utf8_replace :: "string \<Rightarrow> string" where
  \<comment> \<open>\<open>raw.decode("utf-8", errors="replace")\<close>, written in UTF-8 again\<close>
  "utf8_replace [] = []"
| "utf8_replace (c # s) =
     (if (of_char c :: nat) < 128 then c # utf8_replace s
      else case utf8_lead (of_char c) of
             None \<Rightarrow> REPLACEMENT_CHARACTER @ utf8_replace s
           | Some (n, lo, hi) \<Rightarrow>
               (let k = utf8_tail n lo hi s
                in (if k = n then c # take k s else REPLACEMENT_CHARACTER) @ utf8_replace (drop k s)))"
  by pat_completeness auto
termination by (relation "measure length") auto

definition decode_file_content :: "json \<Rightarrow> dg_exn + string" where
  "decode_file_content data =
     (case as_dict data of
        None \<Rightarrow> Inl (ApiError ''Unexpected download response'' None)
      | Some d \<Rightarrow>
          (case jget d ''content'' of
             JNull \<Rightarrow> Inl (ApiError ''Download response missing content'' None)
           | JStr content \<Rightarrow> Inr (case b64decode content of Some raw \<Rightarrow> utf8_replace raw | None \<Rightarrow> content)
           | JArr content \<Rightarrow>
               map_sum ClientRaised (\<lambda>ns. utf8_replace (map (\<lambda>n. char_of (nat (n mod 256))) ns)) (traverse int_or_raise content)
           | _ \<Rightarrow> Inl (ApiError ''Unsupported download content type'' None)))"

section \<open>Issued files\<close>

definition files_path :: "bool \<Rightarrow> string \<Rightarrow> string" where
  "files_path xray operation = (if xray then ''/api/xray-client-links'' else ''/api/open-vpn-files'') @ operation"

definition files_of_data :: "json \<Rightarrow> dict list res" where
  "files_of_data data =
     (case data of
        JObj d \<Rightarrow>
          map_sum id (List.map_filter as_dict)
            (iterated (jor (jor (jor (jget d ''issuedOvpnFiles'') (jget d ''issued_ovpn_files'')) (jget d ''files'')) (JArr [])))
      | JArr js \<Rightarrow> Inr (List.map_filter as_dict js)
      | _ \<Rightarrow> Inr [])"

definition list_issued_files :: "'w dg_service \<Rightarrow> dg_login \<Rightarrow> int \<Rightarrow> bool \<Rightarrow> ('w, dict list) dg_action" where
  "list_issued_files sv lg server_id xray =
     and_then (request sv lg ''GET'' (files_path xray (''/get-all/'' @ int_str server_id)) JNull) (\<lambda>data. give (raised (files_of_data data)))"

definition issued_of_data :: "json \<Rightarrow> dg_exn + dict" where
  "issued_of_data data =
     (case Option.bind (as_dict data) (\<lambda>d. as_dict (jor (jor (jget d ''issuedOvpnFile'') (jget d ''issued_ovpn_file'')) data)) of
        None \<Rightarrow> Inl (ApiError ''Unexpected issue-file response'' None) | Some issued \<Rightarrow> Inr issued)"

definition issue_request :: "int \<Rightarrow> string \<Rightarrow> string \<Rightarrow> json" where
  "issue_request server_id common_name external_id =
     JObj [(''externalId'', JStr external_id), (''commonName'', JStr common_name), (''vpnServerId'', JInt server_id),
           (''issuedTo'', JStr ''statusgate''), (''ovpnFileExpireDays'', JInt 3650)]"

definition issue_file :: "'w dg_service \<Rightarrow> dg_login \<Rightarrow> int \<Rightarrow> string \<Rightarrow> string \<Rightarrow> bool \<Rightarrow> ('w, dict) dg_action" where
  "issue_file sv lg server_id common_name external_id xray =
     and_then (request sv lg ''POST'' (files_path xray ''/add'') (issue_request server_id common_name external_id))
       (\<lambda>data. give (issued_of_data data))"

definition download_by_cn :: "'w dg_service \<Rightarrow> dg_login \<Rightarrow> int \<Rightarrow> string \<Rightarrow> bool \<Rightarrow> ('w, string) dg_action" where
  "download_by_cn sv lg server_id common_name xray =
     and_then (request sv lg ''POST'' (files_path xray ''/download-file-by-cn'')
                 (JObj [(''vpnServerId'', JInt server_id), (''commonName'', JStr common_name)]))
       (\<lambda>data. give (decode_file_content data))"

definition download_by_id :: "'w dg_service \<Rightarrow> dg_login \<Rightarrow> int \<Rightarrow> int \<Rightarrow> bool \<Rightarrow> ('w, string) dg_action" where
  "download_by_id sv lg server_id file_id xray =
     and_then (request sv lg ''POST'' (files_path xray ''/download-file'')
                 (JObj [(''vpnServerId'', JInt server_id), (''issuedOvpnFileId'', JInt file_id)]))
       (\<lambda>data. give (decode_file_content data))"

definition usable_file :: "string \<Rightarrow> dict \<Rightarrow> bool" where
  "usable_file common_name item \<longleftrightarrow>
     py_str (jor (jor (jget item ''commonName'') (jget item ''common_name'')) (JStr [])) = common_name
     \<and> \<not> truthy (jget item ''isRevoked'') \<and> jget item ''id'' \<noteq> JNull"

definition download_file :: "'w dg_service \<Rightarrow> dg_login \<Rightarrow> int \<Rightarrow> bool \<Rightarrow> dict \<Rightarrow> ('w, string) dg_action" where
  \<comment> \<open>\<open>download_by_id(..., issued_file_id=int(file_id), ...)\<close>\<close>
  "download_file sv lg server_id xray item =
     and_then (give (raised (int_or_raise (jget item ''id'')))) (\<lambda>file_id. download_by_id sv lg server_id file_id xray)"

definition issue_and_download ::
  "'w dg_service \<Rightarrow> dg_login \<Rightarrow> int \<Rightarrow> string \<Rightarrow> string \<Rightarrow> bool \<Rightarrow> ('w, string) dg_action" where
  \<comment> \<open>the end of \<open>ensure_config_text\<close>\<close>
  "issue_and_download sv lg server_id common_name external_id xray =
     and_then (issue_file sv lg server_id common_name external_id xray)
       (\<lambda>issued. if jget issued ''id'' = JNull then download_by_cn sv lg server_id common_name xray
                 else on_error (download_file sv lg server_id xray issued)
                        (\<lambda>e. case e of ApiError _ _ \<Rightarrow> download_by_cn sv lg server_id common_name xray
                                     | ClientRaised _ \<Rightarrow> give (Inl e)))"

definition ensure_config_text ::
  "'w dg_service \<Rightarrow> dg_login \<Rightarrow> int \<Rightarrow> string \<Rightarrow> string \<Rightarrow> bool \<Rightarrow> ('w, string) dg_action" where
  "ensure_config_text sv lg server_id common_name external_id xray =
     on_error (download_by_cn sv lg server_id common_name xray)
       (\<lambda>e. if \<not> missing e then give (Inl e)
            else and_then (list_issued_files sv lg server_id xray)
              (\<lambda>files. case find (usable_file common_name) files of
                 Some item \<Rightarrow> download_file sv lg server_id xray item
               | None \<Rightarrow> issue_and_download sv lg server_id common_name external_id xray))"


section \<open>What a client asks of the service\<close>

text \<open>A service that remembers the requests and its replies answers as the one it records.\<close>

type_synonym dg_entry = "dg_request \<times> dg_reply"

definition recording :: "'w dg_service \<Rightarrow> ('w \<times> dg_entry list) dg_service" where
  "recording sv =
     \<lparr>dv_send = (\<lambda>rq we. case dv_send sv rq (fst we) of (reply, w) \<Rightarrow> (reply, (w, snd we @ [(rq, reply)]))),
      dv_now = dv_now sv \<circ> fst\<rparr>"

definition unrecorded :: "('w \<times> dg_entry list) dg_state \<Rightarrow> 'w dg_state" where "unrecorded s = (fst s, fst (snd s))"

definition same_run :: "('w \<times> dg_entry list, 'a) dg_action \<Rightarrow> ('w, 'a) dg_action \<Rightarrow> bool" where
  "same_run m m' \<longleftrightarrow> (\<forall>s q s'. m s = (q, s') \<longrightarrow> m' (unrecorded s) = (q, unrecorded s'))"

lemma same_runD: "same_run m m' \<Longrightarrow> m s = (q, s') \<Longrightarrow> m' (unrecorded s) = (q, unrecorded s')"
  unfolding same_run_def by blast

lemma now_recorded [simp]: "dv_now (recording sv) we = dv_now sv (fst we)"
  by (simp add: recording_def)

lemma same_send: "same_run (send_request (recording sv) lg m p b tok) (send_request sv lg m p b tok)"
  by (auto simp: same_run_def send_request_def recording_def unrecorded_def Let_def split: prod.splits)

lemma same_token: "same_run (get_token (recording sv) lg) (get_token sv lg)"
  unfolding same_run_def
proof (intro allI impI)
  fix s q s'
  assume r: "get_token (recording sv) lg s = (q, s')"
  obtain q1 s1 where 1: "send_request (recording sv) lg ''POST'' ''/api/auth/token'' (token_request lg) None s = (q1, s1)"
    by (cases "send_request (recording sv) lg ''POST'' ''/api/auth/token'' (token_request lg) None s")
  then have 2: "send_request sv lg ''POST'' ''/api/auth/token'' (token_request lg) None (unrecorded s) = (q1, unrecorded s1)"
    by (rule same_runD [OF same_send])
  have now: "dv_now (recording sv) (snd s) = dv_now sv (snd (unrecorded s))" "fst (unrecorded s) = fst s"
    by (simp_all add: recording_def unrecorded_def)
  show "get_token sv lg (unrecorded s) = (q, unrecorded s')"
    using r unfolding get_token_def Let_def 1 2 now
    by (auto simp: unrecorded_def split: option.splits sum.splits)
qed

lemma same_and_then:
  assumes "same_run m m'" and "\<And>a. same_run (f a) (f' a)"
  shows "same_run (and_then m f) (and_then m' f')"
  unfolding same_run_def
proof (intro allI impI)
  fix s q s'
  assume r: "and_then m f s = (q, s')"
  obtain q1 s1 where 1: "m s = (q1, s1)" by (cases "m s")
  then have "m' (unrecorded s) = (q1, unrecorded s1)"
    by (rule same_runD [OF assms(1)])
  then show "and_then m' f' (unrecorded s) = (q, unrecorded s')"
    using 1 r assms(2) by (cases q1) (auto simp: and_then_def intro: same_runD)
qed

lemma same_on_error:
  assumes "same_run m m'" and "\<And>e. same_run (h e) (h' e)"
  shows "same_run (on_error m h) (on_error m' h')"
  unfolding same_run_def
proof (intro allI impI)
  fix s q s'
  assume r: "on_error m h s = (q, s')"
  obtain q1 s1 where 1: "m s = (q1, s1)" by (cases "m s")
  then have "m' (unrecorded s) = (q1, unrecorded s1)"
    by (rule same_runD [OF assms(1)])
  then show "on_error m' h' (unrecorded s) = (q, unrecorded s')"
    using 1 r assms(2) by (cases q1) (auto simp: on_error_def intro: same_runD)
qed

lemma same_give: "same_run (give q) (give q)"
  by (simp add: same_run_def give_def)

lemma same_request: "same_run (request (recording sv) lg m p b) (request sv lg m p b)"
  unfolding request_def by (intro same_and_then same_token same_send)

lemmas same_intros = same_and_then same_on_error same_give same_request

lemma same_ensure_config_text:
  "same_run (ensure_config_text (recording sv) lg sid cn xid xray) (ensure_config_text sv lg sid cn xid xray)"
proof -
  have cn: "same_run (download_by_cn (recording sv) lg sid cn xray) (download_by_cn sv lg sid cn xray)" for cn
    unfolding download_by_cn_def by (intro same_intros)
  have by_id: "same_run (download_file (recording sv) lg sid xray item) (download_file sv lg sid xray item)" for item
    unfolding download_file_def download_by_id_def by (intro same_intros)
  have others: "same_run (list_issued_files (recording sv) lg sid xray) (list_issued_files sv lg sid xray)"
      "same_run (issue_file (recording sv) lg sid cn xid xray) (issue_file sv lg sid cn xid xray)"
    unfolding list_issued_files_def issue_file_def by (intro same_intros)+
  show ?thesis
    unfolding ensure_config_text_def issue_and_download_def
    by (intro same_intros cn others; (auto intro!: same_intros cn by_id others split: option.split dg_exn.split)?)
qed

definition full_url :: "dg_login \<Rightarrow> string \<Rightarrow> string" where
  "full_url lg path = rstrip_by (\<lambda>c. c = CHR ''/'') (dl_base_url lg) @ path"

definition asked :: "dg_login \<Rightarrow> string \<Rightarrow> string \<Rightarrow> json \<Rightarrow> dg_exn + json \<Rightarrow> dg_entry list \<Rightarrow> bool" where
  \<comment> \<open>the entries of one authenticated request: perhaps one for a token, then the request itself\<close>
  "asked lg m p b q ns \<longleftrightarrow>
     (\<exists>toks. (\<forall>e\<in>set toks. dq_url (fst e) = full_url lg ''/api/auth/token'' \<and> dq_token (fst e) = None)
        \<and> ((ns = toks \<and> (\<exists>x. q = Inl x \<and> (missing x \<longrightarrow> (\<exists>r\<in>set ns. reply_value (snd r) = Inl x))))
           \<or> (\<exists>token reply. ns = toks @ [(\<lparr>dq_method = m, dq_url = full_url lg p, dq_json = b, dq_token = Some token\<rparr>, reply)]
                \<and> q = reply_value reply)))"

lemma not_missing_token_error: "token_of_reply now data = Inl x \<Longrightarrow> \<not> missing x"
  by (auto simp: token_of_reply_def missing_def Let_def split: option.splits if_splits)

lemma asked_answered:
  "\<forall>e\<in>set toks. dq_url (fst e) = full_url lg ''/api/auth/token'' \<and> dq_token (fst e) = None \<Longrightarrow>
   asked lg m p b (reply_value reply)
     (toks @ [(\<lparr>dq_method = m, dq_url = full_url lg p, dq_json = b, dq_token = Some token\<rparr>, reply)])"
  unfolding asked_def by blast

lemma asked_unanswered:
  "\<forall>e\<in>set toks. dq_url (fst e) = full_url lg ''/api/auth/token'' \<and> dq_token (fst e) = None \<Longrightarrow>
   (missing x \<longrightarrow> (\<exists>r\<in>set toks. reply_value (snd r) = Inl x)) \<Longrightarrow> asked lg m p b (Inl x) toks"
  unfolding asked_def by blast

lemma send_recorded:
  "send_request (recording sv) lg m p b tok (t, (w, es))
     = (let rq = \<lparr>dq_method = m, dq_url = full_url lg p, dq_json = b, dq_token = tok\<rparr>; r = dv_send sv rq w
        in (reply_value (fst r), (t, (snd r, es @ [(rq, fst r)]))))"
  by (simp add: send_request_def recording_def full_url_def Let_def split: prod.split)

lemma request_recorded:
  assumes "request (recording sv) lg m p b (t, (w, es)) = (q, (t', (w', es')))"
  shows "\<exists>ns. es' = es @ ns \<and> asked lg m p b q ns"
proof (cases "cached_token (dv_now sv w) t")
  case (Some token)
  then have "get_token (recording sv) lg (t, (w, es)) = (Inr token, (t, (w, es)))"
    by (simp add: get_token_def Let_def)
  with assms show ?thesis
    using asked_answered [of "[]" lg m p b] by (auto simp: request_def and_then_def send_recorded Let_def)
next
  case None
  let ?rq = "\<lparr>dq_method = ''POST'', dq_url = full_url lg ''/api/auth/token'', dq_json = token_request lg, dq_token = None\<rparr>"
  define r where "r = dv_send sv ?rq w"
  let ?es = "es @ [(?rq, fst r)]"
  have token: "get_token (recording sv) lg (t, (w, es))
      = (case reply_value (fst r) of Inl x \<Rightarrow> (Inl x, (t, (snd r, ?es)))
         | Inr data \<Rightarrow> (case token_of_reply (dv_now sv w) data of
             Inl x \<Rightarrow> (Inl x, (t, (snd r, ?es))) | Inr k \<Rightarrow> (Inr (ts_token k), (Some k, (snd r, ?es)))))"
    using None by (simp add: get_token_def send_recorded Let_def r_def [symmetric] split: sum.split)
  show ?thesis
  proof (cases "reply_value (fst r)")
    case (Inl x)
    with assms token show ?thesis
      using asked_unanswered [of "[(?rq, fst r)]" lg x m p b] by (auto simp: request_def and_then_def)
  next
    case data: (Inr data)
    show ?thesis
    proof (cases "token_of_reply (dv_now sv w) data")
      case (Inl x)
      with assms token data show ?thesis
        using asked_unanswered [of "[(?rq, fst r)]" lg x m p b] not_missing_token_error [OF Inl]
        by (auto simp: request_def and_then_def)
    next
      case (Inr k)
      with assms token data show ?thesis
        using asked_answered [of "[(?rq, fst r)]" lg m p b] by (auto simp: request_def and_then_def send_recorded Let_def)
    qed
  qed
qed

section \<open>One configuration\<close>

definition is_issue :: "dg_login \<Rightarrow> bool \<Rightarrow> dg_entry \<Rightarrow> bool" where
  "is_issue lg xray e \<longleftrightarrow> dq_url (fst e) = full_url lg (files_path xray ''/add'')"

definition refused_missing :: "dg_entry \<Rightarrow> bool" where
  "refused_missing r \<longleftrightarrow> (\<exists>x. reply_value (snd r) = Inl x \<and> missing x)"

definition lists_no_file :: "dg_login \<Rightarrow> int \<Rightarrow> string \<Rightarrow> bool \<Rightarrow> dg_entry \<Rightarrow> bool" where
  "lists_no_file lg sid cn xray r \<longleftrightarrow>
     dq_url (fst r) = full_url lg (files_path xray (''/get-all/'' @ int_str sid))
     \<and> (\<exists>data files. reply_value (snd r) = Inr data \<and> files_of_data data = Inr files \<and> find (usable_file cn) files = None)"

definition is_download :: "dg_login \<Rightarrow> int \<Rightarrow> string \<Rightarrow> bool \<Rightarrow> dg_entry \<Rightarrow> bool" where
  "is_download lg sid cn xray e \<longleftrightarrow>
     dq_url (fst e) = full_url lg (files_path xray ''/download-file-by-cn'')
       \<and> dq_json (fst e) = JObj [(''vpnServerId'', JInt sid), (''commonName'', JStr cn)]
     \<or> dq_url (fst e) = full_url lg (files_path xray ''/download-file'')
       \<and> (\<exists>n. dq_json (fst e) = JObj [(''vpnServerId'', JInt sid), (''issuedOvpnFileId'', JInt n)])"

definition downloaded :: "dg_login \<Rightarrow> int \<Rightarrow> string \<Rightarrow> bool \<Rightarrow> dg_entry list \<Rightarrow> string \<Rightarrow> bool" where
  "downloaded lg sid cn xray es content \<longleftrightarrow>
     es \<noteq> [] \<and> is_download lg sid cn xray (last es)
     \<and> (\<exists>data. reply_value (snd (last es)) = Inr data \<and> decode_file_content data = Inr content)"

definition quiet :: "dg_login \<Rightarrow> bool \<Rightarrow> dg_entry list \<Rightarrow> bool" where
  "quiet lg xray ns \<longleftrightarrow> (\<forall>e\<in>set ns. \<not> is_issue lg xray e)"

lemma full_url_inject [simp]: "full_url lg p = full_url lg p' \<longleftrightarrow> p = p'"
  by (simp add: full_url_def)

lemma files_path_differs [simp]:
  "files_path xray (''/get-all/'' @ n) \<noteq> files_path xray ''/add''"
  "files_path xray ''/download-file-by-cn'' \<noteq> files_path xray ''/add''"
  "files_path xray ''/download-file'' \<noteq> files_path xray ''/add''"
  "''/api/auth/token'' \<noteq> files_path xray ''/add''"
  by (auto simp: files_path_def)

lemma tokens_quiet:
  assumes "\<forall>e\<in>set toks. dq_url (fst e) = full_url lg ''/api/auth/token'' \<and> dq_token (fst e) = None"
  shows "quiet lg xray toks"
  unfolding quiet_def is_issue_def
proof
  fix e
  assume "e \<in> set toks"
  with assms have "dq_url (fst e) = full_url lg ''/api/auth/token''" by blast
  then show "dq_url (fst e) \<noteq> full_url lg (files_path xray ''/add'')" by simp
qed

lemma asked_quiet:
  assumes "asked lg m p b q ns" "p \<noteq> files_path xray ''/add''"
  shows "quiet lg xray ns"
proof -
  from assms(1) obtain toks where t: "\<forall>e\<in>set toks. dq_url (fst e) = full_url lg ''/api/auth/token'' \<and> dq_token (fst e) = None"
    and "ns = toks \<or> (\<exists>e. ns = toks @ [e] \<and> dq_url (fst e) = full_url lg p)"
    unfolding asked_def by fastforce
  with tokens_quiet [OF t, of xray] assms(2) show ?thesis
    by (fastforce simp: quiet_def is_issue_def)
qed

lemma asked_value:
  "asked lg m p b (Inr data) ns \<Longrightarrow>
   ns \<noteq> [] \<and> dq_url (fst (last ns)) = full_url lg p \<and> dq_json (fst (last ns)) = b \<and> reply_value (snd (last ns)) = Inr data"
  by (auto simp: asked_def)

lemma asked_missing: "asked lg m p b (Inl x) ns \<Longrightarrow> missing x \<Longrightarrow> \<exists>r\<in>set ns. refused_missing r"
  unfolding asked_def refused_missing_def by fastforce

lemma decode_not_missing: "decode_file_content data = Inl x \<Longrightarrow> \<not> missing x"
  by (auto simp: decode_file_content_def missing_def map_sum_def split: option.splits json.splits sum.splits)

lemma request_then:
  assumes "and_then (request (recording sv) lg m p b) (\<lambda>data. give (f data)) (t, (w, es)) = (q, (t', (w', es')))"
  shows "\<exists>ns r. es' = es @ ns \<and> asked lg m p b r ns \<and> q = (case r of Inl x \<Rightarrow> Inl x | Inr data \<Rightarrow> f data)"
proof -
  obtain r t1 w1 es1 where 1: "request (recording sv) lg m p b (t, (w, es)) = (r, (t1, (w1, es1)))"
    by (metis surj_pair)
  obtain ns where ns: "es1 = es @ ns" "asked lg m p b r ns"
    using request_recorded [OF 1] by blast
  have "es' = es1 \<and> q = (case r of Inl x \<Rightarrow> Inl x | Inr data \<Rightarrow> f data)"
    using assms 1 by (cases r) (simp_all add: and_then_def give_def)
  with ns show ?thesis by blast
qed

lemma download_recorded:
  assumes "download_by_cn (recording sv) lg sid cn xray (t, (w, es)) = (q, (t', (w', es')))"
  shows "\<exists>ns. es' = es @ ns \<and> quiet lg xray ns \<and> (\<forall>c. q = Inr c \<longrightarrow> downloaded lg sid cn xray ns c)
           \<and> (\<forall>x. q = Inl x \<longrightarrow> missing x \<longrightarrow> (\<exists>r\<in>set ns. refused_missing r))"
proof -
  from request_then [OF assms [unfolded download_by_cn_def]] obtain ns r where
    ns: "es' = es @ ns" "asked lg ''POST'' (files_path xray ''/download-file-by-cn'')
           (JObj [(''vpnServerId'', JInt sid), (''commonName'', JStr cn)]) r ns"
    and q: "q = (case r of Inl x \<Rightarrow> Inl x | Inr data \<Rightarrow> decode_file_content data)"
    by blast
  show ?thesis
  proof (cases r)
    case (Inl x)
    with ns q show ?thesis using asked_quiet [of lg _ _ _ r ns xray] asked_missing by (auto simp: Inl)
  next
    case (Inr data)
    with ns q show ?thesis
      using asked_quiet [of lg _ _ _ r ns xray] asked_value [of lg _ _ _ data ns] decode_not_missing
      by (auto simp: downloaded_def is_download_def)
  qed
qed

lemma download_file_recorded:
  assumes "download_file (recording sv) lg sid xray item (t, (w, es)) = (q, (t', (w', es')))"
  shows "\<exists>ns. es' = es @ ns \<and> quiet lg xray ns \<and> (\<forall>c. q = Inr c \<longrightarrow> downloaded lg sid cn xray ns c)"
proof (cases "int_or_raise (jget item ''id'')")
  case (Inl x)
  with assms show ?thesis
    by (auto simp: download_file_def and_then_def give_def raised_def quiet_def)
next
  case (Inr n)
  with assms have "download_by_id (recording sv) lg sid n xray (t, (w, es)) = (q, (t', (w', es')))"
    by (simp add: download_file_def and_then_def give_def raised_def)
  from request_then [OF this [unfolded download_by_id_def]] obtain ns r where
    ns: "es' = es @ ns" "asked lg ''POST'' (files_path xray ''/download-file'')
           (JObj [(''vpnServerId'', JInt sid), (''issuedOvpnFileId'', JInt n)]) r ns"
    and q: "q = (case r of Inl x \<Rightarrow> Inl x | Inr data \<Rightarrow> decode_file_content data)"
    by blast
  show ?thesis
    using ns q asked_quiet [of lg _ _ _ r ns xray] asked_value [of lg _ _ _ _ ns]
    by (cases r) (auto simp: downloaded_def is_download_def)
qed

lemma list_recorded:
  assumes "list_issued_files (recording sv) lg sid xray (t, (w, es)) = (q, (t', (w', es')))"
  shows "\<exists>ns. es' = es @ ns \<and> quiet lg xray ns
           \<and> (\<forall>files. q = Inr files \<longrightarrow> find (usable_file cn) files = None \<longrightarrow> (\<exists>r\<in>set ns. lists_no_file lg sid cn xray r))"
proof -
  from request_then [OF assms [unfolded list_issued_files_def]] obtain ns r where
    ns: "es' = es @ ns" "asked lg ''GET'' (files_path xray (''/get-all/'' @ int_str sid)) JNull r ns"
    and q: "q = (case r of Inl x \<Rightarrow> Inl x | Inr data \<Rightarrow> raised (files_of_data data))"
    by blast
  have "\<exists>r\<in>set ns. lists_no_file lg sid cn xray r" if "q = Inr files" "find (usable_file cn) files = None" for files
  proof (cases r)
    case (Inr data)
    with q that have "files_of_data data = Inr files"
      by (cases "files_of_data data") (auto simp: raised_def)
    then have "lists_no_file lg sid cn xray (last ns)"
      using asked_value [of lg _ _ _ data ns] ns(2) Inr that(2) by (auto simp: lists_no_file_def)
    moreover have "ns \<noteq> []" using asked_value [of lg _ _ _ data ns] ns(2) Inr by simp
    ultimately show ?thesis by (metis last_in_set)
  qed (use q that in simp)
  moreover have "quiet lg xray ns"
    by (rule asked_quiet [OF ns(2)]) (simp add: files_path_def)
  ultimately show ?thesis using ns(1) by blast
qed

lemma issue_recorded:
  assumes "issue_file (recording sv) lg sid cn xid xray (t, (w, es)) = (q, (t', (w', es')))"
  shows "\<exists>toks ns. es' = es @ toks @ ns \<and> quiet lg xray toks \<and> length ns \<le> 1 \<and> (\<forall>e\<in>set ns. dq_json (fst e) = issue_request sid cn xid)"
proof -
  from request_then [OF assms [unfolded issue_file_def]] obtain ns r where
    ns: "es' = es @ ns" "asked lg ''POST'' (files_path xray ''/add'') (issue_request sid cn xid) r ns"
    by blast
  then obtain toks where "\<forall>e\<in>set toks. dq_url (fst e) = full_url lg ''/api/auth/token'' \<and> dq_token (fst e) = None"
    and "ns = toks \<or> (\<exists>token reply. ns = toks @ [(\<lparr>dq_method = ''POST'', dq_url = full_url lg (files_path xray ''/add''),
           dq_json = issue_request sid cn xid, dq_token = Some token\<rparr>, reply)])"
    unfolding asked_def by blast
  then have "quiet lg xray toks \<and> (\<exists>ls. ns = toks @ ls \<and> length ls \<le> 1 \<and> (\<forall>e\<in>set ls. dq_json (fst e) = issue_request sid cn xid))"
    by (auto simp: quiet_def is_issue_def)
  with ns(1) show ?thesis by blast
qed

definition careful_log :: "dg_login \<Rightarrow> int \<Rightarrow> string \<Rightarrow> string \<Rightarrow> bool \<Rightarrow> dg_entry list \<Rightarrow> bool" where
  \<comment> \<open>at most one file is issued, under the name asked for, and only after a refusal and a list without a usable file\<close>
  "careful_log lg sid cn xid xray es \<longleftrightarrow>
     length (filter (is_issue lg xray) es) \<le> 1
     \<and> (\<forall>before e after. es = before @ e # after \<longrightarrow> is_issue lg xray e \<longrightarrow>
          dq_json (fst e) = issue_request sid cn xid
          \<and> (\<exists>r\<in>set before. refused_missing r) \<and> (\<exists>r\<in>set before. lists_no_file lg sid cn xray r))"

lemma quiet_careful: "quiet lg xray es \<Longrightarrow> careful_log lg sid cn xid xray es"
  by (auto simp: careful_log_def quiet_def filter_empty_conv)

lemma quiet_append [simp]: "quiet lg xray (a @ b) \<longleftrightarrow> quiet lg xray a \<and> quiet lg xray b"
  by (auto simp: quiet_def)

lemma careful_issue:
  assumes "quiet lg xray a" "quiet lg xray c" "length b \<le> 1" "\<forall>e\<in>set b. dq_json (fst e) = issue_request sid cn xid"
    and "\<exists>r\<in>set a. refused_missing r" "\<exists>r\<in>set a. lists_no_file lg sid cn xray r"
  shows "careful_log lg sid cn xid xray (a @ b @ c)"
proof (cases b)
  case Nil
  then show ?thesis using assms(1,2) by (simp add: quiet_careful)
next
  case (Cons x xs)
  then have b: "b = [x]" using assms(3) by simp
  have "before = a" if "a @ x # c = before @ e # after" "is_issue lg xray e" for before e after
  proof -
    have "e \<notin> set a" "e \<notin> set c" using assms(1,2) that(2) by (auto simp: quiet_def)
    with that(1) show ?thesis by (auto simp: append_eq_append_conv2 append_eq_Cons_conv Cons_eq_append_conv)
  qed
  moreover have "filter (is_issue lg xray) a = []" "filter (is_issue lg xray) c = []"
    using assms(1,2) by (auto simp: quiet_def filter_empty_conv)
  ultimately show ?thesis
    using assms(4-) by (auto simp: careful_log_def b)
qed

lemma downloaded_append: "downloaded lg sid cn xray ns c \<Longrightarrow> downloaded lg sid cn xray (es @ ns) c"
  by (auto simp: downloaded_def)

lemma issue_and_download_recorded:
  assumes "issue_and_download (recording sv) lg sid cn xid xray (t, (w, es)) = (q, (t', (w', es')))"
  shows "\<exists>toks ns rest. es' = es @ toks @ ns @ rest \<and> quiet lg xray toks \<and> length ns \<le> 1
    \<and> (\<forall>e\<in>set ns. dq_json (fst e) = issue_request sid cn xid) \<and> quiet lg xray rest
    \<and> (\<forall>c. q = Inr c \<longrightarrow> downloaded lg sid cn xray es' c)"
proof -
  let ?sv = "recording sv"
  obtain q3 t3 w3 e3 where 3: "issue_file ?sv lg sid cn xid xray (t, (w, es)) = (q3, (t3, (w3, e3)))"
    by (metis surj_pair)
  obtain toks n3 where n3: "e3 = es @ toks @ n3" "quiet lg xray toks" "length n3 \<le> 1"
      "\<forall>e\<in>set n3. dq_json (fst e) = issue_request sid cn xid"
    using issue_recorded [OF 3] by blast
  have "\<exists>rest. es' = e3 @ rest \<and> quiet lg xray rest \<and> (\<forall>c. q = Inr c \<longrightarrow> downloaded lg sid cn xray es' c)"
  proof (cases q3)
    case (Inl x)
    with assms 3 show ?thesis by (auto simp: issue_and_download_def and_then_def quiet_def)
  next
    case issued: (Inr issued)
    obtain q4 t4 w4 e4 where 4: "download_file ?sv lg sid xray issued (t3, (w3, e3)) = (q4, (t4, (w4, e4)))"
      by (metis surj_pair)
    obtain n4 where n4: "e4 = e3 @ n4" "quiet lg xray n4" "\<forall>c. q4 = Inr c \<longrightarrow> downloaded lg sid cn xray n4 c"
      using download_file_recorded [OF 4, of cn] by blast
    consider "download_by_cn ?sv lg sid cn xray (t3, (w3, e3)) = (q, (t', (w', es')))"
      | "download_by_cn ?sv lg sid cn xray (t4, (w4, e4)) = (q, (t', (w', es')))" | "q = q4" "es' = e4"
      using assms 3 4 issued
      by (cases q4; auto simp: issue_and_download_def on_error_def and_then_def give_def split: if_splits dg_exn.splits)
    then show ?thesis
    proof cases
      case 1
      then show ?thesis using download_recorded [OF 1] by (auto simp: downloaded_append)
    next
      case 2
      then show ?thesis using download_recorded [OF 2] n4 by (fastforce simp: downloaded_append)
    next
      case 3
      then show ?thesis using n4 by (auto simp: downloaded_append)
    qed
  qed
  with n3 show ?thesis by (metis append.assoc)
qed

lemma ensure_after_missing:
  assumes "ensure_config_text (recording sv) lg sid cn xid xray (t, (w, [])) = (q, (t', (w', es)))"
    and "download_by_cn (recording sv) lg sid cn xray (t, (w, [])) = (Inl x, (t1, (w1, e1)))" "missing x"
    and "quiet lg xray e1" "\<exists>r\<in>set e1. refused_missing r"
  shows "careful_log lg sid cn xid xray es \<and> (\<forall>c. q = Inr c \<longrightarrow> downloaded lg sid cn xray es c)"
proof -
  let ?sv = "recording sv"
  obtain q2 t2 w2 e2 where 2: "list_issued_files ?sv lg sid xray (t1, (w1, e1)) = (q2, (t2, (w2, e2)))"
    by (metis surj_pair)
  obtain n2 where n2: "e2 = e1 @ n2" "quiet lg xray n2"
    "\<forall>files. q2 = Inr files \<longrightarrow> find (usable_file cn) files = None \<longrightarrow> (\<exists>r\<in>set n2. lists_no_file lg sid cn xray r)"
    using list_recorded [OF 2] by blast
  note steps = assms(1-3) 2
  consider y where "q2 = Inl y" "q = Inl y" "es = e2"
    | files item where "q2 = Inr files" "download_file ?sv lg sid xray item (t2, (w2, e2)) = (q, (t', (w', es)))"
    | files where "q2 = Inr files" "find (usable_file cn) files = None"
        "issue_and_download ?sv lg sid cn xid xray (t2, (w2, e2)) = (q, (t', (w', es)))"
    using steps by (cases q2) (auto simp: ensure_config_text_def on_error_def and_then_def split: option.splits)
  then show ?thesis
  proof cases
    case 1
    then show ?thesis using assms(4) n2 by (auto simp: quiet_careful)
  next
    case 2
    then show ?thesis
      using download_file_recorded [OF 2(2), of cn] assms(4) n2 by (auto simp: quiet_careful downloaded_append)
  next
    case 3
    obtain toks ns rest where r: "es = e2 @ toks @ ns @ rest" "quiet lg xray toks" "length ns \<le> 1"
        "\<forall>e\<in>set ns. dq_json (fst e) = issue_request sid cn xid" "quiet lg xray rest"
        "\<forall>c. q = Inr c \<longrightarrow> downloaded lg sid cn xray es c"
      using issue_and_download_recorded [OF 3(3)] by blast
    have "careful_log lg sid cn xid xray ((e1 @ n2 @ toks) @ ns @ rest)"
      using assms(4,5) n2 3(1,2) r by (intro careful_issue) auto
    then show ?thesis using r n2(1) by simp
  qed
qed

text \<open>
  C25. Fetching the configuration of a server issues at most one file, under the common name asked for, and only after the
  service has answered that it is missing and has listed no usable file of that name; and a configuration that is returned
  is the decoded answer of the last request, a download of that name or of a listed or issued file.
\<close>
theorem ensure_config_is_careful:
  assumes "ensure_config_text (recording sv) lg sid cn xid xray (t, (w, [])) = (q, (t', (w', es)))"
  shows "careful_log lg sid cn xid xray es \<and> (\<forall>c. q = Inr c \<longrightarrow> downloaded lg sid cn xray es c)
    \<and> ensure_config_text sv lg sid cn xid xray (t, w) = (q, (t', w'))"
proof -
  obtain q1 t1 w1 e1 where 1: "download_by_cn (recording sv) lg sid cn xray (t, (w, [])) = (q1, (t1, (w1, e1)))"
    by (metis surj_pair)
  note d1 = download_recorded [OF 1]
  have "careful_log lg sid cn xid xray es \<and> (\<forall>c. q = Inr c \<longrightarrow> downloaded lg sid cn xray es c)"
  proof (cases "\<exists>x. q1 = Inl x \<and> missing x")
    case False
    then have "q = q1" "es = e1"
      using assms 1 by (cases q1; auto simp: ensure_config_text_def on_error_def give_def)+
    then show ?thesis using d1 by (auto simp: quiet_careful)
  next
    case True
    then show ?thesis using ensure_after_missing [OF assms] 1 d1 by auto
  qed
  then show ?thesis
    using same_runD [OF same_ensure_config_text assms] by (simp add: unrecorded_def)
qed

definition sample_login :: dg_login where
  "sample_login = \<lparr>dl_base_url = ''https://dg.test/'', dl_client_id = ''id'', dl_client_secret = ''secret''\<rparr>"

definition sample_service :: "bool dg_service" where
  \<comment> \<open>a service with one file that exists once it was issued\<close>
  "sample_service =
     \<lparr>dv_send = (\<lambda>rq exists_now.
        if dq_url rq = full_url sample_login ''/api/auth/token'' then (Answered 200 (Some (JObj [(''token'', JStr ''t'')])), exists_now)
        else if dq_url rq = full_url sample_login (files_path False ''/add'')
        then (Answered 200 (Some (JObj [(''data'', JObj [(''id'', JInt 7)])])), True)
        else if dq_url rq = full_url sample_login (files_path False ''/get-all/3'') then (Answered 200 (Some (JObj [(''data'', JArr [])])), exists_now)
        else if exists_now then (Answered 200 (Some (JObj [(''content'', JStr ''Y2xpZW50'')])), exists_now)
        else (Answered 404 (Some JNull), exists_now)),
      dv_now = (\<lambda>_. 0)\<rparr>"

lemma ensure_config_is_careful_witness:
  "\<exists>es. length (filter (is_issue sample_login False) es) = 1 \<and> downloaded sample_login 3 ''sg-a-3'' False es ''client''
     \<and> fst (ensure_config_text sample_service sample_login 3 ''sg-a-3'' ''x'' False (None, False)) = Inr ''client''"
proof -
  let ?r = "ensure_config_text (recording sample_service) sample_login 3 ''sg-a-3'' ''x'' False (None, (False, []))"
  have r: "fst ?r = Inr ''client''" "length (filter (is_issue sample_login False) (snd (snd (snd ?r)))) = 1"
    by code_simp+
  obtain q t' w' es where s: "?r = (q, (t', (w', es)))" by (metis surj_pair)
  show ?thesis
    using ensure_config_is_careful [OF s] r s by auto
qed

lemma token_is_reused:
  assumes "get_token sv lg s = (Inr token, s')" and "dv_now sv w < ts_expires_at (the (fst s'))" and "fst s' \<noteq> None"
  shows "get_token sv lg (fst s', w) = (Inr token, (fst s', w))"
  using assms
  by (auto simp: get_token_def cached_token_def Let_def split: option.splits prod.splits sum.splits if_splits)

section \<open>Contents of files\<close>

definition b64_char :: "nat \<Rightarrow> char" where
  "b64_char n = (if n < 26 then char_of (65 + n) else if n < 52 then char_of (71 + n) else if n < 62 then char_of (n - 4)
                 else if n = 62 then CHR ''+'' else CHR ''/'')"

fun b64encode :: "string \<Rightarrow> string" where
  \<comment> \<open>how a service writes the bytes of a file into JSON\<close>
  "b64encode [] = []"
| "b64encode [a] =
     (let x = of_char a in [b64_char (x div 4), b64_char (x mod 4 * 16), CHR ''='', CHR ''=''])"
| "b64encode [a, b] =
     (let x = of_char a; y = of_char b
      in [b64_char (x div 4), b64_char (x mod 4 * 16 + y div 16), b64_char (y mod 16 * 4), CHR ''=''])"
| "b64encode (a # b # c # s) =
     (let x = of_char a; y = of_char b; z = of_char c
      in b64_char (x div 4) # b64_char (x mod 4 * 16 + y div 16) # b64_char (y mod 16 * 4 + z div 64) # b64_char (z mod 64)
           # b64encode s)"

lemma b64_char_code:
  "n < 64 \<Longrightarrow> of_char (b64_char n)
     = (if n < 26 then 65 + n else if n < 52 then 71 + n else if n < 62 then n - 4 else if n = 62 then 43 else (47 :: nat))"
  by (auto simp: b64_char_def)

lemma b64_char_ok:
  assumes "n < 64"
  shows "b64_value (b64_char n) = Some n \<and> b64_char n \<noteq> CHR ''='' \<and> (of_char (b64_char n) :: nat) < 128"
proof -
  have "b64_char n \<noteq> CHR ''=''"
  proof
    assume "b64_char n = CHR ''=''"
    then have "of_char (b64_char n) = (61 :: nat)" by simp
    with assms show False by (simp add: b64_char_code split: if_splits)
  qed
  moreover have "b64_value (b64_char n) = Some n"
  proof -
    consider "n < 62" | "n = 62" | "n = 63" using assms by linarith
    then show ?thesis
      by cases (auto simp: b64_value_def Let_def b64_char_code json_digit_def, simp_all add: b64_char_def)
  qed
  ultimately show ?thesis using assms by (auto simp: b64_char_code)
qed

lemma b64_parts:
  fixes x y :: nat
  assumes "x < 256" "y < 256"
  shows "x div 4 < 64" "x mod 4 * 16 + y div 16 < 64" "y mod 16 * 4 + x div 64 < 64" "x mod 4 * 16 < 64" "y mod 16 * 4 < 64" "x mod 64 < 64"
proof -
  have "x mod 4 < 4" "y div 16 < 16" "y mod 16 < 16" "x div 64 < 4" "x div 4 < 64"
    using assms by (simp_all add: div_less_iff_less_mult)
  then show "x div 4 < 64" "x mod 4 * 16 + y div 16 < 64" "y mod 16 * 4 + x div 64 < 64" "x mod 4 * 16 < 64" "y mod 16 * 4 < 64"
      "x mod 64 < 64"
    by simp_all
qed

lemma b64_groups:
  fixes x y z :: nat
  assumes "x < 256" "y < 256" "z < 256"
  shows "4 * (x div 4) + (x mod 4 * 16 + y div 16) div 16 = x"
    and "16 * ((x mod 4 * 16 + y div 16) mod 16) + (y mod 16 * 4 + z div 64) div 4 = y"
    and "64 * ((y mod 16 * 4 + z div 64) mod 4) + z mod 64 = z"
proof -
  have "y div 16 < 16" "z div 64 < 4"
    using assms by (simp_all add: div_less_iff_less_mult)
  then show "4 * (x div 4) + (x mod 4 * 16 + y div 16) div 16 = x"
    and "16 * ((x mod 4 * 16 + y div 16) mod 16) + (y mod 16 * 4 + z div 64) div 4 = y"
    and "64 * ((y mod 16 * 4 + z div 64) mod 4) + z mod 64 = z"
    by simp_all
qed

lemma b64_loop: "a2b_loop 0 0 p (b64encode s) = Some s"
proof (induction s arbitrary: p rule: b64encode.induct)
  case (4 a b c s)
  define x y z where xyz: "x = (of_char a :: nat)" "y = (of_char b :: nat)" "z = (of_char c :: nat)"
  have l: "x < 256" "y < 256" "z < 256" by (simp_all add: xyz)
  have ch: "char_of x = a" "char_of y = b" "char_of z = c" by (simp_all add: xyz)
  show ?case
    using 4 b64_char_ok b64_parts [OF l(1,2)] b64_parts [OF l(3,2)] b64_groups [OF l]
    by (simp add: xyz [symmetric] Let_def ch)
next
  case (2 a)
  define x where x: "x = (of_char a :: nat)"
  have "x < 256" "char_of x = a" by (simp_all add: x)
  then show ?case
    using b64_char_ok b64_parts [of x 0] b64_groups [of x 0 0] by (simp add: x [symmetric] Let_def)
next
  case (3 a b)
  define x y where xy: "x = (of_char a :: nat)" "y = (of_char b :: nat)"
  have "x < 256" "y < 256" "char_of x = a" "char_of y = b" by (simp_all add: xy)
  then show ?case
    using b64_char_ok b64_parts [of x y] b64_groups [of x y 0] by (simp add: xy [symmetric] Let_def)
qed simp

lemma ascii_b64encode: "\<forall>c\<in>set (b64encode s). (of_char c :: nat) < 128"
proof (induction s rule: b64encode.induct)
  case (4 a b c s)
  have "(of_char a :: nat) < 256" "(of_char b :: nat) < 256" "(of_char c :: nat) < 256" by simp_all
  with 4 show ?case using b64_char_ok b64_parts [of "of_char a" "of_char b"] b64_parts [of "of_char c" "of_char b"] by (simp add: Let_def)
next
  case (2 a)
  have "(of_char a :: nat) < 256" by simp
  then show ?case using b64_char_ok b64_parts [of "of_char a" 0] by (simp add: Let_def)
next
  case (3 a b)
  have "(of_char a :: nat) < 256" "(of_char b :: nat) < 256" by simp_all
  then show ?case using b64_char_ok b64_parts [of "of_char a" "of_char b"] by (simp add: Let_def)
qed simp

lemma b64decode_encode: "b64decode (b64encode s) = Some s"
  using ascii_b64encode [of s] b64_loop [of 0 s] by (simp add: b64decode_def list_all_iff)

lemma ascii_utf8: "\<forall>c\<in>set s. (of_char c :: nat) < 128 \<Longrightarrow> utf8_replace s = s"
  by (induction s) auto

lemma traverse_map: "(\<And>x. x \<in> set xs \<Longrightarrow> f (g x) = Inr (h x)) \<Longrightarrow> traverse f (map g xs) = Inr (map h xs)"
  by (induction xs) auto

text \<open>
  A file is downloaded as the service stores it: the text of a download is that of the file, whether the service writes
  its bytes in base 64 or as a list of numbers, for every text in UTF-8.
\<close>
theorem file_content_roundtrip:
  assumes "utf8_replace content = content"
  shows "decode_file_content (JObj [(''content'', JStr (b64encode content))]) = Inr content
    \<and> decode_file_content (JObj [(''content'', JArr (map (JInt \<circ> of_char) content))]) = Inr content"
proof -
  have "traverse int_or_raise (map (JInt \<circ> of_char) content) = Inr (map of_char content)"
    using traverse_map [of content int_or_raise "JInt \<circ> of_char" of_char] by (simp add: int_or_raise_def)
  moreover have "(char_of (nat (of_char c mod 256)) :: char) = c" for c
  proof -
    have "(of_char c :: int) mod 256 = of_char c" by simp
    moreover have "nat (of_char c :: int) = (of_char c :: nat)" by (metis nat_int of_nat_of_char)
    ultimately show ?thesis by simp
  qed
  ultimately show ?thesis
    using assms by (simp add: decode_file_content_def jget_def default_to_def b64decode_encode o_def)
qed

lemma file_content_roundtrip_witness:
  "decode_file_content (JObj [(''content'', JStr ''Y2xpZW50'')]) = Inr ''client''"
proof -
  have "b64encode ''client'' = ''Y2xpZW50''" by code_simp
  moreover have "utf8_replace ''client'' = ''client''" by (rule ascii_utf8) simp
  ultimately show ?thesis using file_content_roundtrip [of "''client''"] by simp
qed

text \<open>A plain text whose letters happen to make up groups of four is decoded all the same.\<close>

lemma plain_content_is_garbled:
  "decode_file_content (JObj [(''content'', JStr ''client dev tun proto udp'')]) \<noteq> Inr ''client dev tun proto udp''"
  by code_simp

lemma transport_failure_escapes:
  assumes "fst (dv_send sv rq w) = Unanswered e" and "rq = \<lparr>dq_method = m, dq_url = full_url lg p, dq_json = b, dq_token = tok\<rparr>"
  shows "fst (send_request sv lg m p b tok (t, w)) = Inl (ClientRaised e)"
  using assms by (auto simp: send_request_def full_url_def Let_def reply_value_def split: prod.splits)

end
