(* ===== verification/DatagateService.thy ===== *)
theory DatagateService
  imports DatagateImport DatagateClient
begin

text \<open>
  The DataGate integration of a project: its settings, the connection test, the list of servers and the preview of
  \<open>src/app/services/datagate/import_service.py\<close>, with the accepted base URLs of \<open>url_validation.py\<close> and the stored
  secret of \<open>secrets.py\<close>. Fernet, keyed by the hash of a text, is a pair of functions.
\<close>

section \<open>Base URLs\<close>

definition allowed_datagate_hosts :: "settings \<Rightarrow> string list" where
  "allowed_datagate_hosts cfg =
     map (lower \<circ> strip) (filter (\<lambda>part. strip part \<noteq> []) (pieces_at (CHR '','') (cfg_datagate_allowed_hosts cfg)))"

definition LOCAL_HOSTS :: "string list" where "LOCAL_HOSTS = [''localhost'', ''127.0.0.1'', ''::1'']"

definition without_slashes :: "string \<Rightarrow> string" where "without_slashes = rstrip_by (\<lambda>c. c = CHR ''/'')"

definition validate_datagate_base_url :: "settings \<Rightarrow> string \<Rightarrow> string res" where
  "validate_datagate_base_url cfg base_url =
     (let raw = without_slashes (strip base_url)
      in if raw = [] then Inl (ValueError ''base_url is required'')
         else case urlparse (if contains raw ''://'' then raw else ''https://'' @ raw) of
                Inl e \<Rightarrow> Inl e
              | Inr parsed \<Rightarrow>
                  let host = lower (default_to [] (pu_hostname parsed)); scheme = lower (pu_scheme parsed)
                  in if host = [] then Inl (ValueError ''base_url must include a hostname'')
                     else if scheme \<notin> {''https'', ''http''} then Inl (ValueError ''base_url must use https (or http for localhost)'')
                     else if scheme = ''http'' \<and> host \<notin> set LOCAL_HOSTS then Inl (ValueError ''base_url must use https except for localhost'')
                     else if host \<notin> set (allowed_datagate_hosts cfg)
                     then Inl (ValueError (''base_url host is not allowed; permitted: ''
                            @ (let allowed = join '', '' (sort (remdups (allowed_datagate_hosts cfg)))
                               in if allowed = [] then ''(none)'' else allowed)))
                     else if pu_credentials parsed then Inl (ValueError ''base_url must not include credentials'')
                     else Inr (scheme @ ''://'' @ pu_netloc parsed
                               @ (if pu_path parsed \<in> {[], ''/''} then [] else without_slashes (pu_path parsed))))"

section \<open>The stored secret\<close>

record fernet =
  fn_seal :: "string \<Rightarrow> string \<Rightarrow> string" \<comment> \<open>key text and plain text\<close>
  fn_unseal :: "string \<Rightarrow> string \<Rightarrow> string option" \<comment> \<open>\<open>None\<close>: \<open>InvalidToken\<close>\<close>

definition SECRET_PREFIX :: string where "SECRET_PREFIX = ''enc:v1:''"

definition key_text :: "settings \<Rightarrow> string" where
  "key_text cfg = (let k = strip (cfg_datagate_credentials_key cfg) in if k = [] then cfg_jwt_secret cfg else k)"

definition encrypt_client_secret :: "settings \<Rightarrow> fernet \<Rightarrow> string \<Rightarrow> string" where
  "encrypt_client_secret cfg fx plaintext = SECRET_PREFIX @ fn_seal fx (key_text cfg) plaintext"

definition is_encrypted_secret :: "string \<Rightarrow> bool" where
  "is_encrypted_secret stored \<longleftrightarrow> stored \<noteq> [] \<and> starts_with stored SECRET_PREFIX"

definition decrypt_client_secret :: "settings \<Rightarrow> fernet \<Rightarrow> string \<Rightarrow> string res" where
  \<comment> \<open>a token outside ASCII raises \<open>UnicodeEncodeError\<close>, a \<open>ValueError\<close>\<close>
  "decrypt_client_secret cfg fx stored =
     (if stored = [] \<or> \<not> starts_with stored SECRET_PREFIX then Inr stored
      else let token = drop (length SECRET_PREFIX) stored
           in if \<not> list_all (\<lambda>c. (of_char c :: nat) < 128) token then Inl (ValueError ''codec can't encode characters'')
              else case fn_unseal fx (key_text cfg) token of
                     Some plaintext \<Rightarrow> Inr plaintext
                   | None \<Rightarrow> Inl (ValueError ''Stored DataGate client_secret could not be decrypted''))"

section \<open>The settings of an integration\<close>

record DatagateIntegrationUpsert =
  du_base_url :: string
  du_client_id :: string
  du_client_secret :: "string option"
  du_monitor_cn_prefix :: string
  du_is_enabled :: bool

definition validate_upsert :: "settings \<Rightarrow> DatagateIntegrationUpsert \<Rightarrow> DatagateIntegrationUpsert res" where
  \<comment> \<open>the bounds of the fields and the validator of the URL\<close>
  "validate_upsert cfg p =
     (if 2048 < length (du_base_url p) \<or> du_client_id p = [] \<or> 255 < length (du_client_id p) \<or> du_client_secret p = Some []
         \<or> du_monitor_cn_prefix p = [] \<or> 100 < length (du_monitor_cn_prefix p) then Inl ValidationError
      else case validate_datagate_base_url cfg (du_base_url p) of
             Inl _ \<Rightarrow> Inl ValidationError | Inr url \<Rightarrow> Inr (p\<lparr>du_base_url := url\<rparr>))"

definition get_integration :: "uuid \<Rightarrow> database \<Rightarrow> DatagateIntegration option res" where
  "get_integration project_id db =
     (if get_project project_id db = None then Inl (HTTPException 404 ''Project not found'')
      else Inr (lookup_row dg_project_id project_id (db_integrations db)))"

record integration_response =
  ir_project_id :: uuid
  ir_base_url :: string
  ir_client_id :: string
  ir_client_secret_set :: bool
  ir_monitor_cn_prefix :: string
  ir_is_enabled :: bool

definition to_response :: "DatagateIntegration \<Rightarrow> integration_response" where
  "to_response i =
     \<lparr>ir_project_id = dg_project_id i, ir_base_url = dg_base_url i, ir_client_id = dg_client_id i,
      ir_client_secret_set = (dg_client_secret i \<noteq> []), ir_monitor_cn_prefix = dg_monitor_cn_prefix i, ir_is_enabled = dg_is_enabled i\<rparr>"

definition upsert ::
  "settings \<Rightarrow> fernet \<Rightarrow> uuid \<Rightarrow> DatagateIntegrationUpsert \<Rightarrow> database \<Rightarrow> DatagateIntegration res \<times> database" where
  "upsert cfg fx project_id p db =
     (case get_integration project_id db of
        Inl e \<Rightarrow> (Inl e, db)
      | Inr current \<Rightarrow>
          (case validate_datagate_base_url cfg (du_base_url p) of
             Inl e \<Rightarrow> (Inl (HTTPException 422 (case e of ValueError text \<Rightarrow> text | _ \<Rightarrow> [])), db)
           | Inr base_url \<Rightarrow>
               (case (current, nonempty_text (du_client_secret p)) of
                  (None, None) \<Rightarrow> (Inl (HTTPException 422 ''client_secret is required when creating the integration''), db)
                | (None, Some secret) \<Rightarrow>
                    let i = \<lparr>dg_project_id = project_id, dg_base_url = base_url, dg_client_id = du_client_id p,
                             dg_client_secret = encrypt_client_secret cfg fx secret,
                             dg_monitor_cn_prefix = du_monitor_cn_prefix p, dg_is_enabled = du_is_enabled p\<rparr>
                    in (Inr i, db\<lparr>db_integrations := db_integrations db @ [i]\<rparr>)
                | (Some i, secret) \<Rightarrow>
                    let i = i\<lparr>dg_base_url := base_url, dg_client_id := du_client_id p, dg_monitor_cn_prefix := du_monitor_cn_prefix p,
                              dg_is_enabled := du_is_enabled p,
                              dg_client_secret := (case secret of Some s \<Rightarrow> encrypt_client_secret cfg fx s | None \<Rightarrow> dg_client_secret i)\<rparr>
                    in (Inr i, db\<lparr>db_integrations := replace_row dg_project_id i (db_integrations db)\<rparr>))))"

section \<open>The client of a project\<close>

definition client_of :: "settings \<Rightarrow> fernet \<Rightarrow> DatagateIntegration \<Rightarrow> dg_login res" where
  "client_of cfg fx i =
     (case decrypt_client_secret cfg fx (dg_client_secret i) of
        Inl (ValueError text) \<Rightarrow> Inl (HTTPException 500 text)
      | Inl e \<Rightarrow> Inl e
      | Inr secret \<Rightarrow> Inr \<lparr>dl_base_url = dg_base_url i, dl_client_id = dg_client_id i, dl_client_secret = secret\<rparr>)"

definition project_client :: "settings \<Rightarrow> fernet \<Rightarrow> uuid \<Rightarrow> database \<Rightarrow> dg_login res" where
  "project_client cfg fx project_id db =
     (case require_integration project_id db of Inl e \<Rightarrow> Inl e | Inr i \<Rightarrow> client_of cfg fx i)"

definition gateway_answer :: "dg_exn + 'a \<Rightarrow> 'a res" where
  \<comment> \<open>only a \<open>DataGateApiError\<close> becomes a 502\<close>
  "gateway_answer q = (case q of Inr a \<Rightarrow> Inr a | Inl (ApiError text _) \<Rightarrow> Inl (HTTPException 502 text) | Inl (ClientRaised e) \<Rightarrow> Inl e)"

definition asking :: "dg_login res \<Rightarrow> (dg_login \<Rightarrow> ('w, 'a) dg_action) \<Rightarrow> 'w \<Rightarrow> 'a res \<times> 'w" where
  \<comment> \<open>a new client has no token\<close>
  "asking login act w =
     (case login of Inl e \<Rightarrow> (Inl e, w) | Inr lg \<Rightarrow> (case act lg (None, w) of (q, s) \<Rightarrow> (gateway_answer q, snd s)))"

fun enrich_all :: "'w dg_service \<Rightarrow> dg_login \<Rightarrow> DataGateServer list \<Rightarrow> ('w, DataGateServer list) dg_action" where
  "enrich_all sv lg [] = give (Inr [])"
| "enrich_all sv lg (s # ss) =
     and_then (enrich_server sv lg s) (\<lambda>s. and_then (enrich_all sv lg ss) (\<lambda>ss. give (Inr (s # ss))))"

record test_response =
  tr_ok :: bool
  tr_server_count :: nat
  tr_message :: string

definition test_connection ::
  "settings \<Rightarrow> fernet \<Rightarrow> 'w dg_service \<Rightarrow> uuid \<Rightarrow> database \<Rightarrow> 'w \<Rightarrow> test_response res \<times> 'w" where
  "test_connection cfg fx sv project_id db w =
     (case asking (project_client cfg fx project_id db) (\<lambda>lg. and_then (get_token sv lg) (\<lambda>_. list_servers sv lg)) w of
        (q, w) \<Rightarrow>
          (map_sum id (\<lambda>servers. \<lparr>tr_ok = True, tr_server_count = length servers,
             tr_message = ''Connected. '' @ nat_str (length servers) @ '' server(s) available.''\<rparr>) q, w))"

type_synonym server_summary = "DataGateServer \<times> string" \<comment> \<open>the fields of the server and its check type\<close>

definition server_summary :: "DataGateServer \<Rightarrow> server_summary" where "server_summary s = (s, ds_check_type s)"

definition list_project_servers ::
  "settings \<Rightarrow> fernet \<Rightarrow> 'w dg_service \<Rightarrow> uuid \<Rightarrow> database \<Rightarrow> 'w \<Rightarrow> server_summary list res \<times> 'w" where
  "list_project_servers cfg fx sv project_id db w =
     (case asking (project_client cfg fx project_id db) (\<lambda>lg. and_then (list_servers sv lg) (enrich_all sv lg)) w of
        (q, w) \<Rightarrow> (map_sum id (map server_summary) q, w))"

section \<open>The preview\<close>

record local_summary =
  ls_id :: uuid
  ls_name :: string
  ls_slug :: string
  ls_check_type :: string
  ls_server_id :: "int option"
  ls_common_name :: "string option"

definition local_summary_of :: "LocalVpnComponent \<Rightarrow> local_summary" where
  "local_summary_of c =
     \<lparr>ls_id = lc_id c, ls_name = lc_name c, ls_slug = lc_slug c, ls_check_type = lc_check_type c, ls_server_id = lc_server_id c,
      ls_common_name = lc_common_name c\<rparr>"

record matched_pair =
  mp_server :: server_summary
  mp_component :: local_summary
  mp_name_differs :: bool
  mp_suggested_name :: string
  mp_endpoint_match :: bool
  mp_proto :: "string option"
  mp_already_linked :: bool
  mp_score :: rat

record preview_response =
  pv_matched :: "matched_pair list"
  pv_new_servers :: "server_summary list"
  pv_unmatched_local :: "local_summary list"
  pv_sync_names_question :: "string option"

fun utf8_char :: "nat \<Rightarrow> string" where
  "utf8_char n =
     (if n < 128 then [char_of n] else if n < 2048 then [char_of (192 + n div 64), char_of (128 + n mod 64)]
      else [char_of (224 + n div 4096), char_of (128 + n div 64 mod 64), char_of (128 + n mod 64)])"

definition utf8_text :: "nat list \<Rightarrow> string" where "utf8_text ns = concat (map utf8_char ns)"

definition FOUND :: string where \<comment> \<open>the Russian for "Found "\<close>
  "FOUND = utf8_text [1053, 1072, 1081, 1076, 1077, 1085, 1086, 32]"

definition ALREADY_CONNECTED_SERVERS :: string where \<comment> \<open>" servers already connected"\<close>
  "ALREADY_CONNECTED_SERVERS =
     '' '' @ utf8_text [1091, 1078, 1077, 32, 1087, 1086, 1076, 1082, 1083, 1102, 1095, 1105, 1085, 1085, 1099, 1093, 32,
                      1089, 1077, 1088, 1074, 1077, 1088, 1086, 1074]"

definition NAMES_DIFFER_FOR :: string where \<comment> \<open>" (names differ for "\<close>
  "NAMES_DIFFER_FOR =
     '' ('' @ utf8_text [1080, 1084, 1077, 1085, 1072, 32, 1086, 1090, 1083, 1080, 1095, 1072, 1102, 1090, 1089, 1103, 32, 1091, 32]"

definition SYNC_NAMES :: string where \<comment> \<open>"). Synchronise the names of services and servers?"\<close>
  "SYNC_NAMES =
     ''). '' @ utf8_text [1057, 1080, 1085, 1093, 1088, 1086, 1085, 1080, 1079, 1080, 1088, 1086, 1074, 1072, 1090, 1100, 32,
                        1080, 1084, 1077, 1085, 1072, 32, 1089, 1077, 1088, 1074, 1080, 1089, 1086, 1074, 32, 1080, 32,
                        1089, 1077, 1088, 1074, 1077, 1088, 1086, 1074] @ ''?''"

definition NAMES_AGREE :: string where \<comment> \<open>". The names agree. Update the configurations on import?"\<close>
  "NAMES_AGREE =
     ''. '' @ utf8_text [1048, 1084, 1077, 1085, 1072, 32, 1089, 1086, 1074, 1087, 1072, 1076, 1072, 1102, 1090] @ ''. ''
     @ utf8_text [1054, 1073, 1085, 1086, 1074, 1080, 1090, 1100, 32, 1082, 1086, 1085, 1092, 1080, 1075, 1080, 32, 1087, 1088, 1080, 32,
                  1080, 1084, 1087, 1086, 1088, 1090, 1077] @ ''?''"

definition name_change :: "MatchResult \<Rightarrow> string" where
  \<comment> \<open>both names in guillemets with an arrow between them\<close>
  "name_change m =
     utf8_text [171] @ lc_name (mr_component m) @ utf8_text [187, 32, 8594, 32, 171] @ ds_server_name (mr_server m) @ utf8_text [187]"

definition sync_question :: "MatchResult list \<Rightarrow> string option" where
  "sync_question matched =
     (let name_diffs = filter mr_name_differs matched
      in if matched = [] then None
         else if name_diffs \<noteq> []
         then Some (FOUND @ nat_str (length matched) @ ALREADY_CONNECTED_SERVERS @ NAMES_DIFFER_FOR @ nat_str (length name_diffs) @ '': ''
                    @ join '', '' (map name_change (take 5 name_diffs)) @ (if 5 < length name_diffs then utf8_text [8230] else [])
                    @ SYNC_NAMES)
         else Some (FOUND @ nat_str (length matched) @ ALREADY_CONNECTED_SERVERS @ NAMES_AGREE))"

definition matched_pair_of :: "MatchResult \<Rightarrow> matched_pair" where
  "matched_pair_of m =
     \<lparr>mp_server = server_summary (mr_server m), mp_component = local_summary_of (mr_component m), mp_name_differs = mr_name_differs m,
      mp_suggested_name = ds_server_name (mr_server m), mp_endpoint_match = mr_endpoint_match m, mp_proto = ds_proto (mr_server m),
      mp_already_linked = mr_already_linked m, mp_score = mr_score m\<rparr>"

definition preview_of :: "PreviewBuckets \<Rightarrow> preview_response" where
  "preview_of b =
     \<lparr>pv_matched = map matched_pair_of (pb_matched b), pv_new_servers = map server_summary (pb_new_servers b),
      pv_unmatched_local = map local_summary_of (pb_unmatched_local b), pv_sync_names_question = sync_question (pb_matched b)\<rparr>"

definition preview ::
  "settings \<Rightarrow> fernet \<Rightarrow> (string \<Rightarrow> string) \<Rightarrow> 'w dg_service \<Rightarrow> uuid \<Rightarrow> database \<Rightarrow> 'w \<Rightarrow> preview_response res \<times> 'w" where
  "preview cfg fx nf sv project_id db w =
     (case asking (project_client cfg fx project_id db)
             (\<lambda>lg. and_then (list_servers sv lg) (\<lambda>servers. enrich_all sv lg (filter (\<lambda>s. \<not> ds_is_disabled s) servers))) w of
        (q, w) \<Rightarrow>
          (map_sum id (\<lambda>servers. preview_of (match_servers nf servers (map to_local (vpn_components project_id db)))) q, w))"


section \<open>Accepted base URLs are safe\<close>

lemma url_chars_free: "c \<in> set (url_chars s) \<Longrightarrow> of_char c \<notin> {9, 10, 13 :: nat}"
  by (simp add: url_chars_def)

lemma split_scheme_rest: "set (snd (split_scheme s)) \<subseteq> set s"
  by (auto simp: split_scheme_def partition_at_def Let_def dest!: in_set_dropD set_dropWhileD)

lemma set_rstrip_by: "set (rstrip_by p s) \<subseteq> set s"
  by (auto simp: rstrip_by_def dest: set_dropWhileD)

lemma set_url_path: "set (url_path scheme rest) \<subseteq> set rest"
  by (auto simp: url_path_def Let_def dest!: in_set_takeD set_takeWhileD)

definition path_like :: "string \<Rightarrow> bool" where
  "path_like p \<longleftrightarrow> p = [] \<or> hd p = CHR ''/''"

lemma rstrip_path_like:
  assumes "path_like p"
  shows "path_like (without_slashes p)"
proof -
  obtain r where "p = without_slashes p @ r"
    unfolding without_slashes_def rstrip_by_def by (metis rev_append rev_rev_ident takeWhile_dropWhile_id)
  with assms show ?thesis
    by (cases "without_slashes p") (auto simp: path_like_def)
qed

lemma url_path_like:
  assumes "rest = [] \<or> hd rest \<in> {CHR ''/'', CHR ''?'', CHR ''#''}"
  shows "path_like (url_path scheme rest)"
proof -
  define path where "path = takeWhile (\<lambda>c. c \<notin> {CHR ''?'', CHR ''#''}) rest"
  have path: "path_like path"
    using assms by (cases rest) (auto simp: path_def path_like_def)
  show ?thesis
  proof (cases path)
    case Nil
    then show ?thesis unfolding url_path_def path_def [symmetric] Let_def by (simp add: path_like_def)
  next
    case (Cons c cs)
    then have c: "c = CHR ''/''" using path by (simp add: path_like_def)
    let ?segment = "rev (takeWhile (\<lambda>c. c \<noteq> CHR ''/'') (rev path))"
    have "length ?segment \<le> length cs"
    proof -
      have "takeWhile (\<lambda>c. c \<noteq> CHR ''/'') (rev cs @ [CHR ''/'']) = takeWhile (\<lambda>c. c \<noteq> CHR ''/'') (rev cs)"
        by (simp add: takeWhile_tail)
      then show ?thesis using Cons c length_takeWhile_le [of "\<lambda>c. c \<noteq> CHR ''/''" "rev cs"] by simp
    qed
    then obtain n where "length path - length ?segment = Suc n" using Cons by (cases "length path - length ?segment") auto
    then have "take (length path - length ?segment) path = c # take n cs" using Cons by simp
    then show ?thesis using c Cons unfolding url_path_def path_def [symmetric] Let_def by (simp add: path_like_def)
  qed
qed

definition stop_char :: "char \<Rightarrow> bool" where "stop_char c \<longleftrightarrow> c \<in> {CHR ''/'', CHR ''?'', CHR ''#''}"

lemma urlparse_parts:
  assumes "urlparse s = Inr u"
  shows "host_and_port (pu_netloc u) = (pu_hostname u, pu_port u)"
    and "pu_credentials u = (take (length (pu_netloc u) - length (after_last_at (pu_netloc u))) (pu_netloc u) \<notin> {[], ''@'', '':@''})"
    and "(CHR ''['' \<in> set (pu_netloc u)) = (CHR '']'' \<in> set (pu_netloc u))"
    and "\<forall>c\<in>set (pu_netloc u). \<not> stop_char c \<and> of_char c \<notin> {9, 10, 13 :: nat}"
    and "\<forall>c\<in>set (pu_path u). of_char c \<notin> {9, 10, 13 :: nat}"
    and "pu_netloc u \<noteq> [] \<longrightarrow> path_like (pu_path u)"
proof -
  obtain scheme rest where sr: "split_scheme (url_chars s) = (scheme, rest)" by fastforce
  have rest: "\<forall>c\<in>set rest. of_char c \<notin> {9, 10, 13 :: nat}"
    using split_scheme_rest [of "url_chars s"] sr url_chars_free by fastforce
  define netloc where "netloc = (if starts_with rest ''//'' then takeWhile (\<lambda>c. \<not> stop_char c) (drop 2 rest) else [])"
  define tail where "tail = (if starts_with rest ''//'' then dropWhile (\<lambda>c. \<not> stop_char c) (drop 2 rest) else rest)"
  have u: "pu_netloc u = netloc" "pu_path u = url_path scheme tail" "(pu_hostname u, pu_port u) = host_and_port netloc"
    "pu_credentials u = (take (length netloc - length (after_last_at netloc)) netloc \<notin> {[], ''@'', '':@''})"
    "(CHR ''['' \<in> set netloc) = (CHR '']'' \<in> set netloc)"
    using assms unfolding urlparse_def sr Let_def netloc_def tail_def stop_char_def [symmetric]
    by (auto split: if_splits prod.splits simp: stop_char_def [symmetric])
  have tail: "set tail \<subseteq> set rest" and net: "set netloc \<subseteq> set rest"
    by (auto simp: tail_def netloc_def dest: in_set_dropD set_dropWhileD set_takeWhileD)
  show "host_and_port (pu_netloc u) = (pu_hostname u, pu_port u)"
    and "pu_credentials u = (take (length (pu_netloc u) - length (after_last_at (pu_netloc u))) (pu_netloc u) \<notin> {[], ''@'', '':@''})"
    and "(CHR ''['' \<in> set (pu_netloc u)) = (CHR '']'' \<in> set (pu_netloc u))"
    using u by simp_all
  show "\<forall>c\<in>set (pu_netloc u). \<not> stop_char c \<and> of_char c \<notin> {9, 10, 13 :: nat}"
    using rest net by (auto simp: u(1) netloc_def dest: set_takeWhileD)
  show "\<forall>c\<in>set (pu_path u). of_char c \<notin> {9, 10, 13 :: nat}"
    using rest tail set_url_path [of scheme tail] by (auto simp: u(2))
  show "pu_netloc u \<noteq> [] \<longrightarrow> path_like (pu_path u)"
  proof
    assume "pu_netloc u \<noteq> []"
    then have t: "tail = dropWhile (\<lambda>c. \<not> stop_char c) (drop 2 rest)" by (auto simp: u(1) netloc_def tail_def split: if_splits)
    have "tail = [] \<or> stop_char (hd tail)" unfolding t using hd_dropWhile by blast
    then show "path_like (pu_path u)" unfolding u(2) by (intro url_path_like) (auto simp: stop_char_def)
  qed
qed

lemma urlparse_rebuilt:
  assumes "scheme \<in> {''https'', ''http''}" "path_like path"
    and net: "\<forall>c\<in>set netloc. \<not> stop_char c \<and> of_char c \<notin> {9, 10, 13 :: nat}"
    and chars: "\<forall>c\<in>set path. of_char c \<notin> {9, 10, 13 :: nat}"
    and brackets: "(CHR ''['' \<in> set netloc) = (CHR '']'' \<in> set netloc)"
  shows "\<exists>v. urlparse (scheme @ ''://'' @ netloc @ path) = Inr v \<and> pu_scheme v = scheme \<and> pu_netloc v = netloc
    \<and> (pu_hostname v, pu_port v) = host_and_port netloc
    \<and> pu_credentials v = (take (length netloc - length (after_last_at netloc)) netloc \<notin> {[], ''@'', '':@''})"
proof -
  let ?url = "scheme @ ''://'' @ netloc @ path"
  have "\<forall>c\<in>set ?url. of_char c \<notin> {9, 10, 13 :: nat}"
    using assms by auto
  moreover have "dropWhile (\<lambda>c. of_char c \<le> (32 :: nat)) ?url = ?url"
    using assms(1) by auto
  ultimately have chars: "url_chars ?url = ?url"
    by (simp add: url_chars_def filter_id_conv)
  have scheme: "split_scheme ?url = (scheme, ''//'' @ netloc @ path)"
    using assms(1)
    by (auto simp: split_scheme_def partition_at_def is_alnum_def is_lower_alnum_def json_digit_def lower_def lower_char_def)
  have stop: "takeWhile (\<lambda>c. \<not> stop_char c) (netloc @ path) = netloc"
    using net assms(2) by (cases path) (auto simp: takeWhile_append path_like_def stop_char_def takeWhile_eq_all_conv)
  obtain h p where hp: "host_and_port netloc = (h, p)" by fastforce
  show ?thesis
    using stop brackets unfolding urlparse_def chars scheme Let_def prod.case stop_char_def [symmetric]
    by (simp add: hp)
qed

text \<open>
  C33. A base URL the settings accept can only be used for an allowed host: read back, the stored URL names a host of the
  allow list, has no credentials, and uses https, or http for the local machine alone.
\<close>
theorem accepted_base_url_is_safe:
  assumes "validate_datagate_base_url cfg base_url = Inr url"
  shows "\<exists>u host. urlparse url = Inr u \<and> pu_hostname u = Some host \<and> lower host \<in> set (allowed_datagate_hosts cfg)
    \<and> \<not> pu_credentials u \<and> (pu_scheme u = ''https'' \<or> pu_scheme u = ''http'' \<and> lower host \<in> set LOCAL_HOSTS)"
proof -
  define raw where "raw = without_slashes (strip base_url)"
  define s where "s = (if contains raw ''://'' then raw else ''https://'' @ raw)"
  obtain u where u: "urlparse s = Inr u"
    using assms by (auto simp: validate_datagate_base_url_def Let_def raw_def [symmetric] s_def [symmetric] split: if_splits sum.splits)
  define host where "host = lower (default_to [] (pu_hostname u))"
  define scheme where "scheme = lower (pu_scheme u)"
  define path where "path = (if pu_path u \<in> {[], ''/''} then [] else without_slashes (pu_path u))"
  have ok: "host \<noteq> []" "scheme \<in> {''https'', ''http''}" "scheme = ''http'' \<longrightarrow> host \<in> set LOCAL_HOSTS"
      "host \<in> set (allowed_datagate_hosts cfg)" "\<not> pu_credentials u" "url = scheme @ ''://'' @ pu_netloc u @ path"
    using assms u unfolding validate_datagate_base_url_def Let_def raw_def [symmetric] s_def [symmetric]
    by (auto simp: host_def scheme_def path_def split: if_splits)
  note parts = urlparse_parts [OF u]
  obtain h where h: "pu_hostname u = Some h" "lower h = host"
    using ok(1) by (cases "pu_hostname u") (auto simp: host_def lower_def)
  have "pu_netloc u \<noteq> []"
  proof
    assume "pu_netloc u = []"
    then have "pu_hostname u = None" using parts(1) by (simp add: host_and_port_def after_last_at_def partition_at_def Let_def)
    with h show False by simp
  qed
  then have "path_like path" "\<forall>c\<in>set path. of_char c \<notin> {9, 10, 13 :: nat}"
    using parts(5,6) rstrip_path_like [of "pu_path u"] set_rstrip_by [of _ "pu_path u"]
    by (auto simp: path_def path_like_def without_slashes_def)
  with urlparse_rebuilt [OF ok(2) _ parts(4) _ parts(3)] obtain v where
    "urlparse url = Inr v" "pu_scheme v = scheme" "(pu_hostname v, pu_port v) = host_and_port (pu_netloc u)"
    "pu_credentials v = pu_credentials u"
    unfolding ok(6) parts(2) by blast
  with ok h parts(1) show ?thesis by auto
qed

lemma accepted_base_url_is_safe_witness:
  "\<exists>u. urlparse ''https://api.datagateapp.com/v3'' = Inr u \<and> \<not> pu_credentials u"
proof -
  have "validate_datagate_base_url sample_cfg '' api.datagateapp.com/v3/ '' = Inr ''https://api.datagateapp.com/v3''"
    by code_simp
  from accepted_base_url_is_safe [OF this] show ?thesis by auto
qed

section \<open>The stored settings\<close>

definition fernet_ok :: "fernet \<Rightarrow> bool" where
  \<comment> \<open>what the documentation of Fernet promises: tokens are ASCII and are read back with the same key\<close>
  "fernet_ok fx \<longleftrightarrow>
     (\<forall>k s. fn_unseal fx k (fn_seal fx k s) = Some s \<and> list_all (\<lambda>c. (of_char c :: nat) < 128) (fn_seal fx k s))"

lemma decrypt_encrypt: "fernet_ok fx \<Longrightarrow> decrypt_client_secret cfg fx (encrypt_client_secret cfg fx s) = Inr s"
  by (simp add: decrypt_client_secret_def encrypt_client_secret_def fernet_ok_def SECRET_PREFIX_def Let_def)

text \<open>
  Storing the settings of an integration keeps its secret usable: with a secret in the request the client afterwards
  logs in with exactly that secret, without one with the secret stored before; the URL stored is the validated one, the
  integrations of other projects and every other table stay as they are, and without a project or a usable URL nothing
  changes.
\<close>
theorem upsert_keeps_login:
  assumes "fernet_ok fx" "upsert cfg fx project_id p db = (q, db')"
  shows "(case q of
      Inl _ \<Rightarrow> db' = db
    | Inr i \<Rightarrow>
        lookup_row dg_project_id project_id (db_integrations db') = Some i
        \<and> validate_datagate_base_url cfg (du_base_url p) = Inr (dg_base_url i) \<and> dg_client_id i = du_client_id p
        \<and> decrypt_client_secret cfg fx (dg_client_secret i)
            = (case nonempty_text (du_client_secret p) of
                 Some secret \<Rightarrow> Inr secret
               | None \<Rightarrow> decrypt_client_secret cfg fx (dg_client_secret (the (lookup_row dg_project_id project_id (db_integrations db)))))
        \<and> (\<forall>k. k \<noteq> project_id \<longrightarrow> lookup_row dg_project_id k (db_integrations db') = lookup_row dg_project_id k (db_integrations db))
        \<and> db'\<lparr>db_integrations := db_integrations db\<rparr> = db)"
proof (cases "get_project project_id db = None \<or> isl (validate_datagate_base_url cfg (du_base_url p))")
  case True
  then show ?thesis using assms(2) by (auto simp: upsert_def get_integration_def split: sum.splits)
next
  case False
  then obtain url where url: "validate_datagate_base_url cfg (du_base_url p) = Inr url"
    by (cases "validate_datagate_base_url cfg (du_base_url p)") auto
  show ?thesis
  proof (cases "lookup_row dg_project_id project_id (db_integrations db)")
    case None
    then show ?thesis
      using assms(2) False url decrypt_encrypt [OF assms(1)]
      by (auto simp: upsert_def get_integration_def Let_def lookup_append_row split: option.splits)
  next
    case (Some old)
    then have "dg_project_id old = project_id" by (auto dest: lookup_row_Some)
    moreover have "project_id \<in> dg_project_id ` set (db_integrations db)"
      using Some lookup_row_None [of dg_project_id project_id "db_integrations db"] by force
    ultimately show ?thesis
      using assms(2) False url Some decrypt_encrypt [OF assms(1)]
      by (auto simp: upsert_def get_integration_def Let_def lookup_replace_row split: option.splits)
  qed
qed

definition sample_fernet :: fernet where
  "sample_fernet = \<lparr>fn_seal = (\<lambda>k s. b64encode s), fn_unseal = (\<lambda>k t. b64decode t)\<rparr>"

lemma sample_fernet_ok: "fernet_ok sample_fernet"
  using ascii_b64encode by (simp add: fernet_ok_def sample_fernet_def b64decode_encode list_all_iff)

definition sample_upsert :: DatagateIntegrationUpsert where
  "sample_upsert = \<lparr>du_base_url = ''localhost/'', du_client_id = ''i'', du_client_secret = Some ''s2'', du_monitor_cn_prefix = ''sg'',
     du_is_enabled = True\<rparr>"

lemma upsert_keeps_login_witness:
  "\<exists>i db'. upsert sample_cfg sample_fernet ''p1'' sample_upsert import_db = (Inr i, db') \<and> dg_base_url i = ''https://localhost''
     \<and> decrypt_client_secret sample_cfg sample_fernet (dg_client_secret i) = Inr ''s2''"
proof -
  obtain q db' where r: "upsert sample_cfg sample_fernet ''p1'' sample_upsert import_db = (q, db')" by fastforce
  have url: "validate_datagate_base_url sample_cfg ''localhost/'' = Inr ''https://localhost''" by code_simp
  have "get_project ''p1'' import_db \<noteq> None" "lookup_row dg_project_id ''p1'' (db_integrations import_db) \<noteq> None"
    by code_simp+
  then obtain i where i: "q = Inr i"
    using r url by (auto simp: upsert_def get_integration_def sample_upsert_def Let_def split: option.splits)
  then show ?thesis
    using upsert_keeps_login [OF sample_fernet_ok r] r url by (auto simp: sample_upsert_def nonempty_text_def)
qed

lemma response_hides_secret:
  "s \<noteq> [] \<Longrightarrow> s' \<noteq> [] \<Longrightarrow> to_response (i\<lparr>dg_client_secret := s\<rparr>) = to_response (i\<lparr>dg_client_secret := s'\<rparr>)"
  by (simp add: to_response_def)

text \<open>The port of a base URL is not checked: a URL no request can be sent to is accepted.\<close>

lemma port_is_not_checked:
  "validate_datagate_base_url sample_cfg ''https://localhost:x'' = Inr ''https://localhost:x''"
  by code_simp

end
