(* ===== verification/AuthRoutes.thy ===== *)
theory AuthRoutes
  imports Auth
begin

text \<open>
  The routes under \<open>/api/auth\<close>: \<open>src/app/api/routes/auth.py\<close> with the request bodies of \<open>src/app/schemas/auth.py\<close>, the
  cookies of \<open>src/app/auth/cookies.py\<close>, the Google credential of \<open>src/app/auth/google_token.py\<close> and the settings they
  read in \<open>src/app/config.py\<close>. The check of an address (pydantic's \<open>EmailStr\<close>), the signature of a Google credential, the
  address of a one-time code and its picture are functions of \<open>auth_outside\<close>; the answer of the rate limiter is an argument.
\<close>

section \<open>Settings and outside functions\<close>

definition INSECURE_JWT_SECRETS :: "string list" where
  "INSECURE_JWT_SECRETS =
     [''change-me'', ''change-me-in-production'', ''change-me-in-production-use-long-random-string'', ''secret'', ''jwt-secret'']"

definition validate_jwt_secret :: "string \<Rightarrow> string res" where
  \<comment> \<open>with the minimal length of the field\<close>
  "validate_jwt_secret value =
     (if length value < 32 then Inl ValidationError
      else if lower (strip value) \<in> set INSECURE_JWT_SECRETS then Inl (ValueError ''JWT_SECRET must not use a default or insecure value'')
      else if length (strip value) < 32 then Inl (ValueError ''JWT_SECRET must be at least 32 characters'')
      else Inr (strip value))"

definition google_oauth_enabled :: "settings \<Rightarrow> bool" where
  "google_oauth_enabled cfg \<longleftrightarrow> strip (cfg_google_client_id cfg) \<noteq> [] \<and> strip (cfg_google_client_secret cfg) \<noteq> []"

record auth_outside =
  ao_email :: "string \<Rightarrow> string option" \<comment> \<open>the normalised address, \<open>None\<close> for no address\<close>
  ao_google_claims :: "string \<Rightarrow> string \<Rightarrow> dict option" \<comment> \<open>audience and credential; \<open>None\<close> for \<open>PyJWTError\<close>\<close>
  ao_totp_uri :: "string \<Rightarrow> string \<Rightarrow> string \<Rightarrow> string" \<comment> \<open>secret, address and issuer\<close>
  ao_qr_base64 :: "string \<Rightarrow> string"

section \<open>Cookies\<close>

record set_cookie =
  sc_key :: string
  sc_value :: string
  sc_max_age :: int
  sc_path :: string
  sc_http_only :: bool
  sc_secure :: bool
  sc_samesite :: string

definition set_auth_cookies :: "settings \<Rightarrow> string \<Rightarrow> string \<Rightarrow> set_cookie list" where
  "set_auth_cookies cfg access_token refresh_token =
     [\<lparr>sc_key = cfg_access_cookie_name cfg, sc_value = access_token, sc_max_age = cfg_jwt_expire_minutes cfg * 60, sc_path = ''/'',
       sc_http_only = True, sc_secure = cfg_cookie_secure cfg, sc_samesite = cfg_cookie_samesite cfg\<rparr>,
      \<lparr>sc_key = cfg_refresh_cookie_name cfg, sc_value = refresh_token,
       sc_max_age = cfg_refresh_token_expire_days cfg * 24 * 60 * 60, sc_path = ''/api/auth'',
       sc_http_only = True, sc_secure = cfg_cookie_secure cfg, sc_samesite = cfg_cookie_samesite cfg\<rparr>]"

definition clear_auth_cookies :: "settings \<Rightarrow> set_cookie list" where
  \<comment> \<open>\<open>delete_cookie\<close>: an empty value that has expired\<close>
  "clear_auth_cookies cfg =
     [\<lparr>sc_key = cfg_access_cookie_name cfg, sc_value = [], sc_max_age = 0, sc_path = ''/'',
       sc_http_only = False, sc_secure = False, sc_samesite = ''lax''\<rparr>,
      \<lparr>sc_key = cfg_refresh_cookie_name cfg, sc_value = [], sc_max_age = 0, sc_path = ''/api/auth'',
       sc_http_only = False, sc_secure = False, sc_samesite = ''lax''\<rparr>]"

section \<open>Bodies and answers\<close>

record RegisterRequest =
  rg_email :: string
  rg_password :: string
  rg_full_name :: "string option"

datatype auth_request =
    RegistrationStatus
  | Register RegisterRequest
  | Login string string \<comment> \<open>address and password\<close>
  | LoginTwoFactor string string \<comment> \<open>token and code\<close>
  | RefreshSession
  | Logout
  | Me
  | LinkPassword string
  | GoogleLogin string
  | SetupTwoFactor
  | EnableTwoFactor string
  | DisableTwoFactor string string

definition length_within :: "nat \<Rightarrow> nat \<Rightarrow> string \<Rightarrow> bool" where
  "length_within lo hi s \<longleftrightarrow> lo \<le> length s \<and> length s \<le> hi"

fun auth_body :: "auth_outside \<Rightarrow> auth_request \<Rightarrow> auth_request res" where
  \<comment> \<open>the checked body; an address is replaced by its normal form\<close>
  "auth_body ao (Register r) =
     (case ao_email ao (rg_email r) of
        None \<Rightarrow> Inl ValidationError
      | Some email \<Rightarrow>
          if length_within 8 128 (rg_password r) \<and> (case rg_full_name r of None \<Rightarrow> True | Some n \<Rightarrow> length n \<le> 255)
          then Inr (Register (r\<lparr>rg_email := email\<rparr>)) else Inl ValidationError)"
| "auth_body ao (Login email password) =
     (case ao_email ao email of
        None \<Rightarrow> Inl ValidationError
      | Some email \<Rightarrow> if length_within 1 128 password then Inr (Login email password) else Inl ValidationError)"
| "auth_body ao (LoginTwoFactor token code) = (if length_within 6 6 code then Inr (LoginTwoFactor token code) else Inl ValidationError)"
| "auth_body ao (LinkPassword password) = (if length_within 8 128 password then Inr (LinkPassword password) else Inl ValidationError)"
| "auth_body ao (GoogleLogin credential) = (if credential \<noteq> [] then Inr (GoogleLogin credential) else Inl ValidationError)"
| "auth_body ao (EnableTwoFactor code) = (if length_within 6 6 code then Inr (EnableTwoFactor code) else Inl ValidationError)"
| "auth_body ao (DisableTwoFactor password code) =
     (if length_within 1 128 password \<and> length_within 6 6 code then Inr (DisableTwoFactor password code) else Inl ValidationError)"
| "auth_body ao rq = Inr rq"

record account_response =
  acr_id :: string
  acr_email :: string
  acr_full_name :: "string option"
  acr_avatar_url :: "string option"
  acr_access_roles :: "string list"
  acr_is_totp_enabled :: bool
  acr_has_password :: bool
  acr_has_google :: bool

definition to_account_response :: "Account \<Rightarrow> account_response" where
  "to_account_response a =
     \<lparr>acr_id = ac_id a, acr_email = ac_email a, acr_full_name = ac_full_name a, acr_avatar_url = ac_avatar_url a,
      acr_access_roles = ac_access_roles a, acr_is_totp_enabled = ac_is_totp_enabled a,
      acr_has_password = (ac_password_hash a \<noteq> None), acr_has_google = (ac_google_sub a \<noteq> None)\<rparr>"

record registration_status_response =
  rs_allow_registration :: bool
  rs_require_email_verification :: bool
  rs_google_oauth_enabled :: bool
  rs_google_client_id :: string

datatype auth_answer =
    StatusAnswer registration_status_response
  | AccountAnswer account_response
  | MfaAnswer string
  | SetupAnswer string string string \<comment> \<open>secret, address for the app, picture\<close>
  | NoContent \<comment> \<open>status 204\<close>

section \<open>Google\<close>

record google_user =
  gp_sub :: string
  gp_email :: string
  gp_name :: "string option"
  gp_picture :: "string option"

definition email_verified :: "json \<Rightarrow> bool" where
  \<comment> \<open>\<open>in (True, "true")\<close>; \<open>1 == True\<close> in Python\<close>
  "email_verified v \<longleftrightarrow> (case v of JBool b \<Rightarrow> b | JInt i \<Rightarrow> i = 1 | JFloat x \<Rightarrow> x = 1 | JStr s \<Rightarrow> s = ''true'' | _ \<Rightarrow> False)"

definition truthy_text :: "json \<Rightarrow> string option" where
  \<comment> \<open>\<open>str(v) if v else None\<close>\<close>
  "truthy_text v = (if truthy v then Some (py_str v) else None)"

definition verify_google_id_token :: "settings \<Rightarrow> auth_outside \<Rightarrow> string \<Rightarrow> google_user res" where
  "verify_google_id_token cfg ao credential =
     (case ao_google_claims ao (cfg_google_client_id cfg) credential of
        None \<Rightarrow> Inl (HTTPException 401 ''Invalid Google credential'')
      | Some data \<Rightarrow>
          if \<not> email_verified (jget data ''email_verified'') then Inl (HTTPException 401 ''Google email is not verified'')
          else if \<not> truthy (jget data ''sub'') \<or> \<not> truthy (jget data ''email'')
          then Inl (HTTPException 400 ''Google profile not available'')
          else Inr \<lparr>gp_sub = py_str (jget data ''sub''), gp_email = py_str (jget data ''email''),
                    gp_name = truthy_text (jget data ''name''), gp_picture = truthy_text (jget data ''picture'')\<rparr>)"

definition upsert_google_user ::
  "settings \<Rightarrow> crypto \<Rightarrow> google_user \<Rightarrow> instant \<Rightarrow> database \<Rightarrow> sign_in res \<times> database" where
  "upsert_google_user cfg cx u now db =
     (if gp_sub u = [] \<or> gp_email u = [] then (Inl (HTTPException 400 ''Google profile not available''), db)
      else upsert_google_account cfg cx (gp_sub u) (gp_email u) (gp_name u) (gp_picture u) now db)"

section \<open>Routes\<close>

type_synonym auth_result = "(auth_answer \<times> set_cookie list) res \<times> database"

definition registration_status :: "settings \<Rightarrow> database \<Rightarrow> registration_status_response" where
  "registration_status cfg db =
     \<lparr>rs_allow_registration = (cfg_allow_registration cfg \<or> db_accounts db = []),
      rs_require_email_verification = cfg_require_email_verification cfg,
      rs_google_oauth_enabled = google_oauth_enabled cfg,
      rs_google_client_id = (if google_oauth_enabled cfg then cfg_google_client_id cfg else [])\<rparr>"

definition auth_json_response :: "settings \<Rightarrow> Account \<Rightarrow> string \<Rightarrow> string \<Rightarrow> auth_answer \<times> set_cookie list" where
  "auth_json_response cfg a access refresh = (AccountAnswer (to_account_response a), set_auth_cookies cfg access refresh)"

fun login_answer :: "settings \<Rightarrow> login_response \<Rightarrow> auth_answer \<times> set_cookie list" where
  "login_answer cfg (MfaRequired token) = (MfaAnswer token, [])"
| "login_answer cfg (SignedIn a access refresh) = auth_json_response cfg a access refresh"

definition google_login :: "settings \<Rightarrow> crypto \<Rightarrow> auth_outside \<Rightarrow> string \<Rightarrow> instant \<Rightarrow> database \<Rightarrow> login_response res \<times> database" where
  "google_login cfg cx ao credential now db =
     (if \<not> google_oauth_enabled cfg then (Inl (HTTPException 503 ''Google OAuth is not configured''), db)
      else case verify_google_id_token cfg ao credential of
             Inl e \<Rightarrow> (Inl e, db)
           | Inr u \<Rightarrow>
               (case upsert_google_user cfg cx u now db of
                  (Inl e, db) \<Rightarrow> (Inl e, db) | (Inr r, db) \<Rightarrow> (login_response r, db)))"

definition login_2fa :: "settings \<Rightarrow> crypto \<Rightarrow> string \<Rightarrow> string \<Rightarrow> instant \<Rightarrow> database \<Rightarrow> login_response res \<times> database" where
  "login_2fa cfg cx mfa_token code now db =
     (case verify_mfa cfg cx mfa_token code now db of
        (Inl e, db) \<Rightarrow> (Inl e, db)
      | (Inr (access, refresh), db) \<Rightarrow>
          (case account_from_token cx access TOKEN_TYPE_ACCESS now db of
             Inl e \<Rightarrow> (Inl e, db) | Inr a \<Rightarrow> (Inr (SignedIn a access refresh), db)))"

definition me :: "settings \<Rightarrow> crypto \<Rightarrow> http_request \<Rightarrow> instant \<Rightarrow> database \<Rightarrow> auth_answer res" where
  "me cfg cx http now db =
     (case nonempty_str (get_access_token_from_request cfg http) of
        None \<Rightarrow> Inr NoContent
      | Some token \<Rightarrow> map_sum id (\<lambda>a. AccountAnswer (to_account_response a)) (account_from_token cx token TOKEN_TYPE_ACCESS now db))"

definition account_answer :: "Account res \<times> database \<Rightarrow> auth_result" where
  "account_answer r = (map_sum id (\<lambda>a. (AccountAnswer (to_account_response a), [])) (fst r), snd r)"

definition setup_2fa :: "settings \<Rightarrow> crypto \<Rightarrow> auth_outside \<Rightarrow> Account \<Rightarrow> database \<Rightarrow> auth_result" where
  "setup_2fa cfg cx ao a db =
     (case setup_totp cx a db of
        (secret, db) \<Rightarrow>
          let otpauth_url = ao_totp_uri ao secret (ac_email a) (cfg_totp_issuer cfg)
          in (Inr (SetupAnswer secret otpauth_url (ao_qr_base64 ao otpauth_url), []), db))"

fun needs_account :: "auth_request \<Rightarrow> bool" where
  \<comment> \<open>the routes that depend on \<open>get_current_account\<close>\<close>
  "needs_account (LinkPassword _) = True"
| "needs_account SetupTwoFactor = True"
| "needs_account (EnableTwoFactor _) = True"
| "needs_account (DisableTwoFactor _ _) = True"
| "needs_account _ = False"

fun rate_limited :: "auth_request \<Rightarrow> bool" where
  "rate_limited (Login _ _) = True"
| "rate_limited (LoginTwoFactor _ _) = True"
| "rate_limited _ = False"

definition with_account ::
  "settings \<Rightarrow> crypto \<Rightarrow> http_request \<Rightarrow> instant \<Rightarrow> (Account \<Rightarrow> database \<Rightarrow> auth_result) \<Rightarrow> database \<Rightarrow> auth_result" where
  \<comment> \<open>\<open>Depends(get_current_account)\<close>\<close>
  "with_account cfg cx http now handler db =
     (case get_current_account cfg cx http now db of Inl e \<Rightarrow> (Inl e, db) | Inr a \<Rightarrow> handler a db)"

fun auth_handler ::
  "settings \<Rightarrow> crypto \<Rightarrow> auth_outside \<Rightarrow> http_request \<Rightarrow> instant \<Rightarrow> auth_request \<Rightarrow> database \<Rightarrow> auth_result" where
  "auth_handler cfg cx ao http now RegistrationStatus db = (Inr (StatusAnswer (registration_status cfg db), []), db)"
| "auth_handler cfg cx ao http now (Register r) db = account_answer (register cfg cx (rg_email r) (rg_password r) (rg_full_name r) db)"
| "auth_handler cfg cx ao http now (Login email password) db =
     (case login_route cfg cx email password now db of (q, db) \<Rightarrow> (map_sum id (login_answer cfg) q, db))"
| "auth_handler cfg cx ao http now (LoginTwoFactor token code) db =
     (case login_2fa cfg cx token code now db of (q, db) \<Rightarrow> (map_sum id (login_answer cfg) q, db))"
| "auth_handler cfg cx ao http now RefreshSession db =
     (case refresh_route cfg cx http now db of (q, db) \<Rightarrow> (map_sum id (login_answer cfg) q, db))"
| "auth_handler cfg cx ao http now Logout db = (Inr (NoContent, clear_auth_cookies cfg), logout_route cfg cx http now db)"
| "auth_handler cfg cx ao http now Me db = (map_sum id (\<lambda>q. (q, [])) (me cfg cx http now db), db)"
| "auth_handler cfg cx ao http now (GoogleLogin credential) db =
     (case google_login cfg cx ao credential now db of (q, db) \<Rightarrow> (map_sum id (login_answer cfg) q, db))"
| "auth_handler cfg cx ao http now (LinkPassword password) db =
     with_account cfg cx http now (\<lambda>a db. account_answer (link_password cx a password db)) db"
| "auth_handler cfg cx ao http now SetupTwoFactor db = with_account cfg cx http now (setup_2fa cfg cx ao) db"
| "auth_handler cfg cx ao http now (EnableTwoFactor code) db =
     with_account cfg cx http now (\<lambda>a db. account_answer (enable_totp cx a code db)) db"
| "auth_handler cfg cx ao http now (DisableTwoFactor password code) db =
     with_account cfg cx http now (\<lambda>a db. account_answer (disable_totp cx a password code db)) db"

definition auth_route ::
  "settings \<Rightarrow> crypto \<Rightarrow> auth_outside \<Rightarrow> string option \<Rightarrow> http_request \<Rightarrow> instant \<Rightarrow> auth_request \<Rightarrow> database \<Rightarrow> auth_result" where
  \<comment> \<open>the dependencies, the body, the limit that is exceeded if one is, the handler\<close>
  "auth_route cfg cx ao limit http now rq db =
     (case (if needs_account rq then map_sum id (\<lambda>_. ()) (get_current_account cfg cx http now db) else Inr ()) of
        Inl e \<Rightarrow> (Inl e, db)
      | Inr _ \<Rightarrow>
          (case auth_body ao rq of
             Inl e \<Rightarrow> (Inl e, db)
           | Inr rq \<Rightarrow>
               (case (limit, rate_limited rq) of
                  (Some text, True) \<Rightarrow> (Inl (HTTPException 429 text), db)
                | _ \<Rightarrow> auth_handler cfg cx ao http now rq db)))"

section \<open>What a request may change in the accounts\<close>

definition account_added :: "Account \<Rightarrow> database \<Rightarrow> bool" where
  "account_added a db \<longleftrightarrow> ac_id a \<notin> set (map ac_id (db_accounts db)) \<and> ac_email a \<notin> set (map ac_email (db_accounts db))
     \<and> lower (ac_email a) = ac_email a \<and> (ac_google_sub a \<noteq> None \<longrightarrow> ac_google_sub a \<notin> set (map ac_google_sub (db_accounts db)))
     \<and> ac_is_active a \<and> (\<exists>slug. default_role db = Inr slug \<and> ac_access_roles a = [slug])"

definition account_changed :: "Account \<Rightarrow> Account \<Rightarrow> database \<Rightarrow> bool" where
  \<comment> \<open>the row of \<open>b\<close> becomes \<open>a\<close>\<close>
  "account_changed a b db \<longleftrightarrow> b \<in> set (db_accounts db) \<and> ac_id a = ac_id b \<and> ac_email a = ac_email b
     \<and> ac_access_roles a = ac_access_roles b \<and> ac_is_active a = ac_is_active b
     \<and> (ac_google_sub a = ac_google_sub b \<or> ac_google_sub a \<notin> set (map ac_google_sub (db_accounts db)))"

definition accounts_step :: "database \<Rightarrow> database \<Rightarrow> bool" where
  "accounts_step db db' \<longleftrightarrow> db_roles db' = db_roles db
     \<and> (db_accounts db' = db_accounts db
        \<or> (\<exists>a. account_added a db \<and> db_accounts db' = db_accounts db @ [a])
        \<or> (\<exists>a b. account_changed a b db \<and> db_accounts db' = replace_row ac_id a (db_accounts db)))"

definition fresh_account_ids :: "crypto \<Rightarrow> bool" where
  "fresh_account_ids cx \<longleftrightarrow> (\<forall>db. cx_fresh_id cx db \<notin> set (map ac_id (db_accounts db)))"

lemma accounts_step_refl [simp]: "accounts_step db db"
  by (simp add: accounts_step_def)

text \<open>Operations on refresh tokens leave accounts and roles alone.\<close>

lemma roles_frame [simp]:
  "db_roles (snd (create_token cx aid e db)) = db_roles db"
  "db_roles (revoke_token t rb now db) = db_roles db"
  "db_roles (revoke_all_for_account aid now db) = db_roles db"
  "db_roles (update_account a db) = db_roles db"
  "db_roles (snd (create_account a db)) = db_roles db"
  by (simp_all add: create_token_def revoke_token_def revoke_all_for_account_def Let_def update_account_def create_account_def)

lemma issue_pair_snd: "snd (issue_pair cfg cx aid now db) = snd (create_token cx aid (token_expiry cfg now) db)"
  by (simp add: issue_pair_def split: prod.splits)

lemma roles_issue_pair [simp]: "db_roles (snd (issue_pair cfg cx aid now db)) = db_roles db"
  by (simp add: issue_pair_snd)

lemma roles_rotate [simp]: "db_roles (snd (rotate_token cfg cx raw now db)) = db_roles db"
proof -
  have "db_roles db' = db_roles db" if "create_token cx aid e db = (x, db')" for aid e x db'
    using roles_frame(1) [of cx aid e db] that by simp
  then show ?thesis by (auto simp: rotate_token_def Let_def split: option.splits prod.splits)
qed

lemma roles_sign_in [simp]: "db_roles (snd (sign_in cfg cx a now db)) = db_roles db"
  by (cases "has_totp a") (simp_all add: sign_in_second_factor sign_in_tokens)

lemma issue_tokens_eq:
  "issue_tokens cfg cx a now db =
     ((create_access_token cfg cx (ac_id a) (ac_access_roles a) now, fst (issue_pair cfg cx (ac_id a) now db)),
      snd (issue_pair cfg cx (ac_id a) now db))"
  by (simp add: issue_tokens_def split: prod.splits)

definition same_accounts :: "database \<Rightarrow> database \<Rightarrow> bool" where
  "same_accounts db db' \<longleftrightarrow> db_accounts db' = db_accounts db \<and> db_roles db' = db_roles db"

lemma same_accounts_refl [simp]: "same_accounts db db"
  by (simp add: same_accounts_def)

lemma same_accounts_snd: "same_accounts db (snd p) \<Longrightarrow> p = (r, d) \<Longrightarrow> same_accounts db d"
  by simp

lemma same_rotate: "same_accounts db (snd (rotate_token cfg cx raw now db))"
  by (simp add: same_accounts_def)

lemma same_refresh_session: "same_accounts db (snd (refresh_session cfg cx raw now db))"
  by (auto simp: refresh_session_def dest: same_accounts_snd [OF same_rotate]
      split: sum.splits py_exn.splits option.splits prod.splits)

lemma same_refresh_route: "same_accounts db (snd (refresh_route cfg cx http now db))"
  by (auto simp: refresh_route_def dest: same_accounts_snd [OF same_refresh_session]
      split: option.splits sum.splits prod.splits)

lemma same_verify_mfa: "same_accounts db (snd (verify_mfa cfg cx token code now db))"
  by (simp add: verify_mfa_def issue_tokens_eq same_accounts_def split: sum.split)

lemma same_login_2fa: "same_accounts db (snd (login_2fa cfg cx token code now db))"
  by (auto simp: login_2fa_def dest: same_accounts_snd [OF same_verify_mfa] split: sum.splits prod.splits)

lemma same_authenticate: "same_accounts db (snd (authenticate_password cfg cx email password now db))"
  by (simp add: authenticate_password_cases same_accounts_def split: option.splits)

lemma same_login_route: "same_accounts db (snd (login_route cfg cx email password now db))"
  by (auto simp: login_route_def dest: same_accounts_snd [OF same_authenticate] split: prod.splits sum.splits)

lemma same_logout_route: "same_accounts db (logout_route cfg cx http now db)"
  by (simp add: same_accounts_def logout_route_def logout_def revoke_raw_def revoke_all_def Let_def split: option.split)

lemma accounts_step_same: "same_accounts db db' \<Longrightarrow> accounts_step db db'"
  by (simp add: accounts_step_def same_accounts_def)

lemma accounts_step_then: "accounts_step db db1 \<Longrightarrow> same_accounts db1 db2 \<Longrightarrow> accounts_step db db2"
  by (simp add: accounts_step_def same_accounts_def)

text \<open>The operations that write an account.\<close>

lemma step_create:
  assumes "fresh_account_ids cx" "lower (ac_email a) = ac_email a" "ac_id a = cx_fresh_id cx db" "ac_is_active a"
    "default_role db = Inr slug" "ac_access_roles a = [slug]"
  shows "accounts_step db (snd (create_account a db))"
  using assms
  by (auto simp: accounts_step_def create_account_def account_added_def fresh_account_ids_def get_by_email_def lookup_row_None
      image_iff)

lemma step_update:
  assumes "account_changed a b db"
  shows "accounts_step db (update_account a db)"
  using assms by (auto simp: accounts_step_def update_account_def)

lemma lower_lower: "lower (lower s) = lower s"
proof -
  have "lower_char (lower_char c) = lower_char c" for c
    by (auto simp: lower_char_def Let_def of_char_of)
  then show ?thesis by (simp add: lower_def)
qed

lemma fresh_account_fields [simp]:
  "ac_id (fresh_account cx email db) = cx_fresh_id cx db" "ac_email (fresh_account cx email db) = email"
  "ac_is_active (fresh_account cx email db)" "ac_google_sub (fresh_account cx email db) = None"
  by (simp_all add: fresh_account_def)

lemma step_register: "fresh_account_ids cx \<Longrightarrow> accounts_step db (snd (register cfg cx email password full_name db))"
  by (auto simp: register_def lower_lower intro!: step_create split: sum.split)

lemma profile_fields [simp]:
  "ac_id (apply_google_profile f v a) = ac_id a" "ac_email (apply_google_profile f v a) = ac_email a"
  "ac_access_roles (apply_google_profile f v a) = ac_access_roles a" "ac_is_active (apply_google_profile f v a) = ac_is_active a"
  "ac_google_sub (apply_google_profile f v a) = ac_google_sub a"
  by (simp_all add: apply_google_profile_def)

lemma step_google_account:
  assumes "fresh_account_ids cx"
  shows "accounts_step db (snd (google_account cfg cx sub email full_name avatar db))"
proof (cases "py_or (get_by_google_sub sub db) (get_by_email (lower email) db)")
  case None
  then show ?thesis using assms by (auto simp: google_account_def lower_lower intro!: step_create split: sum.split)
next
  case (Some b)
  have "account_changed (apply_google_profile full_name avatar (b\<lparr>ac_google_sub := Some sub\<rparr>)) b db"
    using Some by (auto simp: account_changed_def get_by_google_sub_def get_by_email_def py_or_def lookup_row_None [symmetric]
        dest: lookup_row_Some split: option.splits)
  from step_update [OF this] Some show ?thesis by (simp add: google_account_def Let_def)
qed

lemma step_account_of_token:
  assumes "get_current_account cfg cx http now db = Inr a"
  shows "a \<in> set (db_accounts db)"
  using assms by (auto simp: get_current_account_def account_from_token_def get_account_def
      dest: lookup_row_Some split: option.splits if_splits)

lemma step_link: "a \<in> set (db_accounts db) \<Longrightarrow> accounts_step db (snd (link_password cx a password db))"
  by (auto simp: link_password_def Let_def account_changed_def intro!: step_update [of _ a])

lemma step_enable: "a \<in> set (db_accounts db) \<Longrightarrow> accounts_step db (snd (enable_totp cx a code db))"
  by (auto simp: enable_totp_def Let_def account_changed_def intro!: step_update [of _ a])

lemma step_disable: "a \<in> set (db_accounts db) \<Longrightarrow> accounts_step db (snd (disable_totp cx a password code db))"
  by (auto simp: disable_totp_def Let_def account_changed_def intro!: step_update [of _ a])

lemma step_setup: "a \<in> set (db_accounts db) \<Longrightarrow> accounts_step db (snd (setup_totp cx a db))"
  by (auto simp: setup_totp_def Let_def account_changed_def intro!: step_update [of _ a])

lemma step_google_login:
  assumes "fresh_account_ids cx"
  shows "accounts_step db (snd (google_login cfg cx ao credential now db))"
proof -
  have sign: "same_accounts d d'" if "sign_in cfg cx a now d = (r, d')" for a d r d'
    using that accounts_sign_in [of cfg cx a now d] roles_sign_in [of cfg cx a now d] by (simp add: same_accounts_def)
  have "accounts_step db (snd (upsert_google_account cfg cx sub email full_name avatar now db))" for sub email full_name avatar
    using step_google_account [OF assms, of db cfg sub email full_name avatar]
    by (auto simp: upsert_google_account_def Let_def dest!: sign intro: accounts_step_then split: sum.splits prod.splits)
  then have up: "accounts_step db (snd (upsert_google_user cfg cx u now db))" for u
    by (simp add: upsert_google_user_def)
  have "accounts_step db d" if "upsert_google_user cfg cx u now db = (r, d)" for u r d
    using up [of u] that by simp
  then show ?thesis by (auto simp: google_login_def split: sum.splits prod.splits)
qed

lemma snd_account_answer [simp]: "snd (account_answer r) = snd r"
  by (simp add: account_answer_def)

lemma snd_setup_2fa [simp]: "snd (setup_2fa cfg cx ao a db) = snd (setup_totp cx a db)"
  by (simp add: setup_2fa_def Let_def split: prod.split)

lemma step_with_account:
  assumes "\<And>a. a \<in> set (db_accounts db) \<Longrightarrow> accounts_step db (snd (handler a db))"
  shows "accounts_step db (snd (with_account cfg cx http now handler db))"
  using assms step_account_of_token by (auto simp: with_account_def split: sum.split)

lemma step_auth_handler:
  assumes "fresh_account_ids cx"
  shows "accounts_step db (snd (auth_handler cfg cx ao http now rq db))"
proof (cases rq)
  case (Login email password)
  then show ?thesis using accounts_step_same [OF same_login_route] by (simp add: case_prod_beta)
next
  case (LoginTwoFactor token code)
  then show ?thesis using accounts_step_same [OF same_login_2fa] by (simp add: case_prod_beta)
next
  case RefreshSession
  then show ?thesis using accounts_step_same [OF same_refresh_route] by (simp add: case_prod_beta)
next
  case (GoogleLogin credential)
  then show ?thesis using step_google_login [OF assms] by (simp add: case_prod_beta)
qed (auto intro!: step_with_account intro: step_register assms accounts_step_same same_logout_route
    simp: step_link step_setup step_enable step_disable)

lemma step_auth_route:
  assumes "fresh_account_ids cx"
  shows "accounts_step db (snd (auth_route cfg cx ao limit http now rq db))"
  using step_auth_handler [OF assms] by (auto simp: auth_route_def split: sum.split option.split bool.split)

section \<open>No request grants itself rights\<close>

type_synonym rights = "uuid \<times> string list \<times> bool" \<comment> \<open>account, roles, active\<close>

definition account_rights :: "database \<Rightarrow> rights list" where
  "account_rights db = map (\<lambda>a. (ac_id a, ac_access_roles a, ac_is_active a)) (db_accounts db)"

lemma rights_step:
  assumes "accounts_step db db'" and "distinct (map ac_id (db_accounts db))" and "db_accounts db \<noteq> []"
  shows "distinct (map ac_id (db_accounts db')) \<and> db_accounts db' \<noteq> []
    \<and> (\<exists>ids. account_rights db' = account_rights db @ map (\<lambda>i. (i, [DEFAULT_PUBLIC_ROLE_SLUG], True)) ids)"
proof -
  consider (same) "db_accounts db' = db_accounts db"
    | (new) a where "account_added a db" "db_accounts db' = db_accounts db @ [a]"
    | (changed) a b where "account_changed a b db" "db_accounts db' = replace_row ac_id a (db_accounts db)"
    using assms(1) by (auto simp: accounts_step_def)
  then show ?thesis
  proof cases
    case same
    then show ?thesis using assms(2,3) by (auto simp: account_rights_def intro: exI [of _ "[]"])
  next
    case new
    then have "account_rights db' = account_rights db @ map (\<lambda>i. (i, [DEFAULT_PUBLIC_ROLE_SLUG], True)) [ac_id a]"
      using assms(3) by (auto simp: account_rights_def account_added_def default_role_def Let_def split: if_splits)
    then have "\<exists>ids. account_rights db' = account_rights db @ map (\<lambda>i. (i, [DEFAULT_PUBLIC_ROLE_SLUG], True)) ids" by blast
    with new assms(2) show ?thesis by (simp add: account_added_def)
  next
    case changed
    have "account_rights db' = account_rights db"
      using changed assms(2) by (auto simp: account_rights_def replace_row_def account_changed_def distinct_map dest: inj_onD)
    moreover have "map ac_id (db_accounts db') = map ac_id (db_accounts db)" using changed by simp
    ultimately show ?thesis using assms(2,3) by (auto intro: exI [of _ "[]"])
  qed
qed

record auth_call =
  al_request :: auth_request
  al_http :: http_request
  al_limit :: "string option"
  al_now :: instant

definition auth_step :: "settings \<Rightarrow> crypto \<Rightarrow> auth_outside \<Rightarrow> auth_call \<Rightarrow> database \<Rightarrow> database" where
  "auth_step cfg cx ao c db = snd (auth_route cfg cx ao (al_limit c) (al_http c) (al_now c) (al_request c) db)"

text \<open>
  Nobody gains rights through \<open>/api/auth\<close>: whatever requests arrive in whatever order, with whatever tokens, every account
  keeps its roles and its active flag, and the accounts that are added have the public role only, once there is a first account.
\<close>
theorem auth_requests_grant_nothing:
  assumes "fresh_account_ids cx" "distinct (map ac_id (db_accounts db))" "db_accounts db \<noteq> []"
  shows "\<exists>ids. account_rights (fold (auth_step cfg cx ao) calls db)
    = account_rights db @ map (\<lambda>i. (i, [DEFAULT_PUBLIC_ROLE_SLUG], True)) ids"
  using assms(2,3)
proof (induction calls arbitrary: db)
  case Nil
  show ?case by (auto intro: exI [of _ "[]"])
next
  case (Cons c calls)
  have step: "accounts_step db (auth_step cfg cx ao c db)"
    unfolding auth_step_def by (rule step_auth_route [OF assms(1)])
  note kept = rights_step [OF step Cons.prems]
  then obtain ids where "account_rights (auth_step cfg cx ao c db) = account_rights db @ map (\<lambda>i. (i, [DEFAULT_PUBLIC_ROLE_SLUG], True)) ids"
    by blast
  moreover obtain more where "account_rights (fold (auth_step cfg cx ao) calls (auth_step cfg cx ao c db))
      = account_rights (auth_step cfg cx ao c db) @ map (\<lambda>i. (i, [DEFAULT_PUBLIC_ROLE_SLUG], True)) more"
    using Cons.IH kept by blast
  ultimately have "account_rights (fold (auth_step cfg cx ao) (c # calls) db)
      = account_rights db @ map (\<lambda>i. (i, [DEFAULT_PUBLIC_ROLE_SLUG], True)) (ids @ more)" by simp
  then show ?case by blast
qed

text \<open>An identifier no account and no token has, for the witnesses.\<close>

definition route_crypto :: crypto where
  "route_crypto = session_crypto\<lparr>cx_fresh_id := (\<lambda>db. ''i'' @ concat (map (case_sum ac_id rt_id) (map Inl (db_accounts db) @ map Inr (db_tokens db))))\<rparr>"

lemma route_crypto_simps [simp]:
  "cx_encode route_crypto = plain_encode" "cx_decode route_crypto = plain_decode"
  "cx_hash_token route_crypto = (\<lambda>s. s)" "cx_fresh_token route_crypto = cx_fresh_token sample_crypto"
  "cx_verify_password route_crypto = (\<lambda>p h. p = h)" "cx_verify_totp route_crypto = (\<lambda>s c. c = ''123456'')"
  by (simp_all add: route_crypto_def)

lemma route_crypto_fresh: "fresh_account_ids route_crypto" "fresh_tokens route_crypto"
proof -
  have "cx_fresh_id route_crypto db \<notin> case_sum ac_id rt_id ` set (map Inl (db_accounts db) @ map Inr (db_tokens db))" for db
    using longer_not_in [of "''i''" "case_sum ac_id rt_id" "map Inl (db_accounts db) @ map Inr (db_tokens db)"]
    by (simp add: route_crypto_def)
  then have *: "cx_fresh_id route_crypto db \<notin> ac_id ` set (db_accounts db)" "cx_fresh_id route_crypto db \<notin> rt_id ` set (db_tokens db)" for db
    by (simp_all add: image_Un image_image)
  from *(1) show "fresh_account_ids route_crypto" by (simp add: fresh_account_ids_def)
  show "fresh_tokens route_crypto"
    using session_crypto_fresh *(2) by (simp add: fresh_tokens_def)
qed

definition plain_outside :: auth_outside where
  "plain_outside =
     \<lparr>ao_email = Some, ao_google_claims = (\<lambda>_ _. None), ao_totp_uri = (\<lambda>secret email issuer. secret), ao_qr_base64 = (\<lambda>s. s)\<rparr>"

definition plain_call :: "auth_request \<Rightarrow> http_request \<Rightarrow> auth_call" where
  "plain_call rq http = \<lparr>al_request = rq, al_http = http, al_limit = None, al_now = 0\<rparr>"

definition role_database :: database where
  "role_database = empty_database\<lparr>db_accounts := [sample_account], db_roles := [\<lparr>ar_id = ''r'', ar_name = ''User'', ar_slug = ''user''\<rparr>]\<rparr>"

lemma auth_requests_grant_nothing_witness:
  "\<exists>ids. account_rights (fold (auth_step sample_cfg route_crypto plain_outside)
      [plain_call (Register \<lparr>rg_email = ''b@x'', rg_password = ''long enough'', rg_full_name = None\<rparr>) (cookie_request sample_cfg ''''),
       plain_call (Login ''a@x'' ''pw'') (cookie_request sample_cfg '''')] role_database)
    = (''a1'', [''admin''], True) # map (\<lambda>i. (i, [DEFAULT_PUBLIC_ROLE_SLUG], True)) ids"
proof -
  have "distinct (map ac_id (db_accounts role_database))" "db_accounts role_database \<noteq> []"
    "account_rights role_database = [(''a1'', [''admin''], True)]"
    by (simp_all add: role_database_def account_rights_def sample_account_def)
  with auth_requests_grant_nothing [OF route_crypto_fresh(1), of role_database] show ?thesis by (metis append_Cons append_Nil)
qed

section \<open>Session cookies\<close>

definition next_request :: "set_cookie list \<Rightarrow> http_request" where
  \<comment> \<open>the browser sends the cookies back\<close>
  "next_request cookies = \<lparr>rq_authorization = None, rq_cookies = map (\<lambda>c. (sc_key c, sc_value c)) cookies\<rparr>"

text \<open>The cookies of a session opened \<open>now\<close>, over the time it lives.\<close>

definition session_of :: "settings \<Rightarrow> crypto \<Rightarrow> set_cookie list \<Rightarrow> instant \<Rightarrow> database \<Rightarrow> Account \<Rightarrow> bool" where
  "session_of cfg cx cookies now db a \<longleftrightarrow>
     (\<forall>later \<ge> now. get_current_account cfg cx (next_request cookies) later db =
        (if later < (now + cfg_jwt_expire_minutes cfg * 60000000) div 1000000 * 1000000 then Inr a
         else Inl (HTTPException 401 ''Invalid token'')))
     \<and> (\<exists>raw. get_refresh_token_from_request cfg (next_request cookies) = Some raw
          \<and> (\<forall>later. now \<le> later \<and> later < now + cfg_refresh_token_expire_days cfg * 86400000000 \<longrightarrow>
                (\<exists>t. get_active_by_raw_token cx raw later db = Some t \<and> rt_account_id t = ac_id a)))"

definition session_laws :: "settings \<Rightarrow> crypto \<Rightarrow> bool" where
  \<comment> \<open>the laws of the crypto library and settings under which a session can live\<close>
  "session_laws cfg cx \<longleftrightarrow> (\<forall>c. cx_decode cx (cx_encode cx c) = Some c) \<and> (\<forall>c. cx_encode cx c \<noteq> []) \<and> fresh_tokens cx
     \<and> 0 < cfg_jwt_expire_minutes cfg \<and> 0 < cfg_refresh_token_expire_days cfg \<and> cfg_access_cookie_name cfg \<noteq> cfg_refresh_cookie_name cfg"

definition live_token :: "crypto \<Rightarrow> string \<Rightarrow> instant \<Rightarrow> uuid \<Rightarrow> database \<Rightarrow> bool" where
  "live_token cx raw until aid db \<longleftrightarrow> (\<forall>now < until. \<exists>t. get_active_by_raw_token cx raw now db = Some t \<and> rt_account_id t = aid)"

lemma session_of_cookies:
  assumes "session_laws cfg cx" "get_account (ac_id a) db = Some a" "live_token cx raw (token_expiry cfg now) (ac_id a) db"
  shows "session_of cfg cx (set_auth_cookies cfg (create_access_token cfg cx (ac_id a) roles now) raw) now db a"
proof -
  have "nonempty_str (Some (cx_encode cx c)) = Some (cx_encode cx c)" for c
    using assms(1) by (simp add: session_laws_def)
  moreover have "account_from_token cx (create_access_token cfg cx (ac_id a) roles now) TOKEN_TYPE_ACCESS later db
      = (if later < numeric_date (now + cfg_jwt_expire_minutes cfg * usec_per_minute) * usec_per_second
         then case get_account (ac_id a) db of None \<Rightarrow> Inl (HTTPException 401 ''Account not found'') | Some a \<Rightarrow> Inr a
         else Inl (HTTPException 401 ''Invalid token''))" for later
    using assms(1) by (intro account_from_access_token) (simp add: session_laws_def)
  moreover have "cfg_access_cookie_name cfg \<noteq> cfg_refresh_cookie_name cfg" using assms(1) by (simp add: session_laws_def)
  ultimately show ?thesis
    using assms(2,3) by (simp add: session_of_def next_request_def set_auth_cookies_def get_current_account_def
        get_access_token_from_request_def get_refresh_token_from_request_def create_access_token_def live_token_def numeric_date_def token_expiry_def)
qed

lemma find_snoc: "find P (xs @ [y]) = (case find P xs of Some x \<Rightarrow> Some x | None \<Rightarrow> if P y then Some y else None)"
  by (induction xs) simp_all

lemma live_token_created:
  assumes "fresh_tokens cx"
  shows "live_token cx (cx_fresh_token cx db) e aid (snd (create_token cx aid e db))"
proof -
  have "cx_hash_token cx (cx_fresh_token cx db) \<notin> set (map rt_token_hash (db_tokens db))"
    using assms(1) by (simp add: fresh_tokens_def)
  then have "find (\<lambda>t. rt_token_hash t = cx_hash_token cx (cx_fresh_token cx db) \<and> token_active now t) (db_tokens db) = None" for now
    by (force simp: find_None_iff)
  then show ?thesis by (simp add: live_token_def get_active_by_raw_token_def find_snoc token_active_def)
qed

lemma live_token_issued:
  assumes "session_laws cfg cx"
  shows "live_token cx (fst (issue_pair cfg cx aid now db)) (token_expiry cfg now) aid (snd (issue_pair cfg cx aid now db))"
proof -
  have "fst (issue_pair cfg cx aid now db) = cx_fresh_token cx db"
    by (simp add: issue_pair_def create_token_def Let_def)
  then show ?thesis
    using live_token_created [of cx db "token_expiry cfg now" aid] assms
    by (simp add: issue_pair_snd session_laws_def)
qed

lemma live_token_rotated:
  assumes "session_laws cfg cx" and "rotate_token cfg cx raw now db = (Inr (aid, new_raw), db')"
  shows "live_token cx new_raw (token_expiry cfg now) aid db'"
proof -
  let ?db1 = "snd (create_token cx aid (token_expiry cfg now) db)"
  obtain t where t: "get_active_by_raw_token cx raw now db = Some t" "aid = rt_account_id t" "new_raw = cx_fresh_token cx db"
    and db': "db' = revoke_token t (Some (cx_fresh_id cx db)) now ?db1"
    using assms(2) by (auto elim: rotate_success)
  have old: "t \<in> set (db_tokens db)" using get_active_Some [OF t(1)] by blast
  have fresh: "cx_hash_token cx new_raw \<notin> rt_token_hash ` set (db_tokens db)" "cx_fresh_id cx db \<notin> rt_id ` set (db_tokens db)"
    using assms(1) t(3) by (simp_all add: session_laws_def fresh_tokens_def)
  let ?t' = "t\<lparr>rt_revoked_at := Some now, rt_replaced_by_id := Some (cx_fresh_id cx db)\<rparr>"
  have ne: "rt_id t \<noteq> cx_fresh_id cx db" using old fresh(2) by force
  have "find (\<lambda>u. rt_token_hash u = cx_hash_token cx new_raw \<and> token_active later u) (replace_row rt_id ?t' (db_tokens db)) = None" for later
    using fresh(1) old by (force simp: find_None_iff replace_row_def split: if_splits)
  moreover have "db_tokens db' = replace_row rt_id ?t' (db_tokens db) @ [\<lparr>rt_id = cx_fresh_id cx db, rt_account_id = aid,
      rt_token_hash = cx_hash_token cx new_raw, rt_expires_at = Aware (token_expiry cfg now), rt_revoked_at = None,
      rt_replaced_by_id = None\<rparr>]"
    using ne t(3) by (simp add: db' revoke_token_def replace_row_def)
  ultimately show ?thesis
    by (simp add: live_token_def get_active_by_raw_token_def find_snoc token_active_def)
qed

text \<open>Who a signed-in answer names.\<close>

definition signed_in :: "settings \<Rightarrow> crypto \<Rightarrow> instant \<Rightarrow> login_response \<Rightarrow> database \<Rightarrow> bool" where
  "signed_in cfg cx now q db \<longleftrightarrow>
     (case q of MfaRequired _ \<Rightarrow> True
      | SignedIn a access raw \<Rightarrow>
          get_account (ac_id a) db = Some a \<and> live_token cx raw (token_expiry cfg now) (ac_id a) db
          \<and> (\<exists>roles. access = create_access_token cfg cx (ac_id a) roles now))"

lemma signed_in_sign_in:
  assumes "session_laws cfg cx" "get_account (ac_id a) db = Some a" "sign_in cfg cx a now db = (r, db')" "login_response r = Inr q"
  shows "signed_in cfg cx now q db'"
proof (cases "has_totp a")
  case True
  with assms(3,4) show ?thesis
    by (auto simp: sign_in_second_factor login_response_def signed_in_def nonempty_str_def split: list.splits if_splits)
next
  case False
  with assms(3) have r: "r = (a, Some (create_access_token cfg cx (ac_id a) (ac_access_roles a) now), Some (fst (issue_pair cfg cx (ac_id a) now db)))"
    "db' = snd (issue_pair cfg cx (ac_id a) now db)" by (simp_all add: sign_in_tokens)
  then have "q = SignedIn a (create_access_token cfg cx (ac_id a) (ac_access_roles a) now) (fst (issue_pair cfg cx (ac_id a) now db))"
    using assms(4) by (auto simp: login_response_def nonempty_str_def split: list.splits if_splits)
  then show ?thesis
    using r(2) assms(2) live_token_issued [OF assms(1), of "ac_id a" now db] by (auto simp: signed_in_def get_account_def)
qed

lemma signed_in_login:
  assumes "session_laws cfg cx" "distinct (map ac_id (db_accounts db))" "login_route cfg cx email password now db = (Inr q, db')"
  shows "signed_in cfg cx now q db'"
proof -
  obtain r where auth: "authenticate_password cfg cx email password now db = (Inr r, db')" "login_response r = Inr q"
    using assms(3) by (auto simp: login_route_def split: prod.splits sum.splits)
  then obtain a where a: "get_by_email (lower email) db = Some a" "sign_in cfg cx a now db = (r, db')"
    by (auto simp: authenticate_password_cases split: option.splits if_splits intro: prod_eqI)
  then have "get_account (ac_id a) db = Some a"
    using assms(2) by (auto simp: get_by_email_def get_account_def dest: lookup_row_Some intro: lookup_row_mem)
  from signed_in_sign_in [OF assms(1) this a(2) auth(2)] show ?thesis .
qed

lemma google_account_stored:
  assumes "fresh_account_ids cx" "google_account cfg cx sub email full_name avatar db = (Inr a, db')"
  shows "get_account (ac_id a) db' = Some a"
proof (cases "py_or (get_by_google_sub sub db) (get_by_email (lower email) db)")
  case None
  have fresh: "lookup_row ac_id (cx_fresh_id cx db) (db_accounts db) = None"
    using assms(1) by (simp add: fresh_account_ids_def lookup_row_None)
  from assms(2) None show ?thesis
    by (auto simp: google_account_def create_account_def get_account_def lookup_append_row fresh split: sum.splits if_splits)
      (simp_all add: lookup_row_def)
next
  case (Some b)
  then have "b \<in> set (db_accounts db)"
    by (auto simp: get_by_google_sub_def get_by_email_def py_or_def dest: lookup_row_Some split: option.splits)
  with assms(2) Some show ?thesis
    by (auto simp: google_account_def Let_def get_account_def update_account_def lookup_replace_row)
qed

lemma signed_in_google:
  assumes "session_laws cfg cx" "fresh_account_ids cx" "google_login cfg cx ao credential now db = (Inr q, db')"
  shows "signed_in cfg cx now q db'"
proof -
  obtain u r where up: "upsert_google_user cfg cx u now db = (Inr r, db')" "login_response r = Inr q"
    using assms(3) by (auto simp: google_login_def split: if_splits sum.splits prod.splits)
  then obtain a db1 where a: "google_account cfg cx (gp_sub u) (gp_email u) (gp_name u) (gp_picture u) db = (Inr a, db1)"
    "sign_in cfg cx a now db1 = (r, db')"
    by (auto simp: upsert_google_user_def upsert_google_account_def split: if_splits sum.splits prod.splits)
  from signed_in_sign_in [OF assms(1) google_account_stored [OF assms(2) a(1)] a(2) up(2)] show ?thesis .
qed

lemma account_of_fresh_token:
  assumes "session_laws cfg cx" "account_from_token cx (create_access_token cfg cx aid roles now) TOKEN_TYPE_ACCESS now db = Inr a"
  shows "ac_id a = aid \<and> get_account aid db = Some a"
  using assms by (auto simp: account_from_token_def decode_token_def create_access_token_def session_laws_def
      dest: get_account_key split: option.splits if_splits)

lemma signed_in_2fa:
  assumes "session_laws cfg cx" "login_2fa cfg cx token code now db = (Inr q, db')"
  shows "signed_in cfg cx now q db'"
proof -
  obtain access raw a where mfa: "verify_mfa cfg cx token code now db = (Inr (access, raw), db')"
    and a: "account_from_token cx access TOKEN_TYPE_ACCESS now db' = Inr a" and q: "q = SignedIn a access raw"
    using assms(2) by (auto simp: login_2fa_def split: sum.splits prod.splits)
  obtain b where "account_from_token cx token TOKEN_TYPE_MFA now db = Inr b"
    using mfa by (auto simp: verify_mfa_def split: sum.splits)
  with mfa have "access = create_access_token cfg cx (ac_id b) (ac_access_roles b) now" "raw = fst (issue_pair cfg cx (ac_id b) now db)"
    "db' = snd (issue_pair cfg cx (ac_id b) now db)"
    by (auto simp: verify_mfa_def issue_tokens_eq split: if_splits)
  with a account_of_fresh_token [OF assms(1)] live_token_issued [OF assms(1)] q show ?thesis by (auto simp: signed_in_def)
qed

lemma signed_in_refresh:
  assumes "session_laws cfg cx" "refresh_route cfg cx http now db = (Inr q, db')"
  shows "signed_in cfg cx now q db'"
proof -
  obtain raw access new_raw a where ref: "refresh_session cfg cx raw now db = (Inr (access, new_raw), db')"
    and a: "account_from_token cx access TOKEN_TYPE_ACCESS now db' = Inr a" and q: "q = SignedIn a access new_raw"
    using assms(2) by (auto simp: refresh_route_def split: option.splits sum.splits prod.splits)
  obtain aid b where rot: "rotate_token cfg cx raw now db = (Inr (aid, new_raw), db')"
    and b: "get_account aid db' = Some b" "access = create_access_token cfg cx (ac_id b) (ac_access_roles b) now"
    using ref by (auto simp: refresh_session_def split: sum.splits py_exn.splits option.splits prod.splits if_splits)
  have "ac_id b = aid" using get_account_key [OF b(1)] .
  with a b account_of_fresh_token [OF assms(1)] live_token_rotated [OF assms(1) rot] q show ?thesis by (auto simp: signed_in_def)
qed

lemma session_of_answer:
  assumes "session_laws cfg cx" "signed_in cfg cx now q db" "login_answer cfg q = (AccountAnswer r, cookies)"
  shows "\<exists>a. r = to_account_response a \<and> session_of cfg cx cookies now db a"
  using assms session_of_cookies [OF assms(1)]
  by (cases q) (auto simp: signed_in_def auth_json_response_def)

text \<open>
  C10. Every session the API opens works and is the right one: when a route under \<open>/api/auth\<close> answers with an account and sets
  cookies, then with the database it leaves the cookies sent back are accepted for exactly the account the answer shows, at every
  time until the access token expires (the configured minutes after the sign-in, cut to the whole second) and at none from then
  on, and the refresh cookie is a live token of that account for the configured days.
\<close>
theorem session_cookies_work:
  assumes "session_laws cfg cx" "fresh_account_ids cx" "distinct (map ac_id (db_accounts db))"
    and "auth_route cfg cx ao limit http now rq db = (Inr (AccountAnswer r, cookies), db')" "cookies \<noteq> []"
  shows "\<exists>a. r = to_account_response a \<and> session_of cfg cx cookies now db' a"
proof -
  obtain rq' where h: "auth_handler cfg cx ao http now rq' db = (Inr (AccountAnswer r, cookies), db')"
    using assms(4) by (auto simp: auth_route_def split: sum.splits option.splits bool.splits)
  note answered = session_of_answer [OF assms(1) _ sym]
  show ?thesis
  proof (cases rq')
    case (Login email password)
    with h show ?thesis by (auto simp: map_sum_is_Inr dest!: signed_in_login [OF assms(1,3)] intro: answered split: prod.splits)
  next
    case (LoginTwoFactor token code)
    with h show ?thesis by (auto simp: map_sum_is_Inr dest!: signed_in_2fa [OF assms(1)] intro: answered split: prod.splits)
  next
    case RefreshSession
    with h show ?thesis by (auto simp: map_sum_is_Inr dest!: signed_in_refresh [OF assms(1)] intro: answered split: prod.splits)
  next
    case (GoogleLogin credential)
    with h show ?thesis by (auto simp: map_sum_is_Inr dest!: signed_in_google [OF assms(1,2)] intro: answered split: prod.splits)
  qed (use h assms(5) in \<open>auto simp: account_answer_def with_account_def setup_2fa_def Let_def map_sum_is_Inr split: sum.splits prod.splits\<close>)
qed

lemma route_session_laws: "session_laws sample_cfg route_crypto"
  using route_crypto_fresh(2) by (simp add: session_laws_def sample_cfg_def)

lemma session_cookies_work_witness:
  "\<exists>r cookies db' a. auth_route sample_cfg route_crypto plain_outside None (cookie_request sample_cfg []) 0 (Login ''a@x'' ''pw'') role_database
     = (Inr (AccountAnswer r, cookies), db') \<and> acr_id r = ''a1'' \<and> session_of sample_cfg route_crypto cookies 0 db' a"
proof -
  have "lower ''a@x'' = ''a@x''" by code_simp
  then obtain access raw db' where login: "login_route sample_cfg route_crypto ''a@x'' ''pw'' 0 role_database = (Inr (SignedIn sample_account access raw), db')"
    by (simp add: login_route_def authenticate_password_cases get_by_email_def lookup_row_def role_database_def sample_account_def
        password_ok_def may_sign_in_def sign_in_tokens has_totp_def login_response_def create_access_token_def
        issue_pair_def create_token_def Let_def sample_crypto_def)
  then have route: "auth_route sample_cfg route_crypto plain_outside None (cookie_request sample_cfg []) 0 (Login ''a@x'' ''pw'') role_database
      = (Inr (AccountAnswer (to_account_response sample_account), set_auth_cookies sample_cfg access raw), db')"
    by (simp add: auth_route_def plain_outside_def length_within_def auth_json_response_def)
  have "distinct (map ac_id (db_accounts role_database))" "set_auth_cookies sample_cfg access raw \<noteq> []"
    by (simp_all add: role_database_def set_auth_cookies_def)
  from session_cookies_work [OF route_session_laws route_crypto_fresh(1) this(1) route this(2)] route show ?thesis
    by (auto simp: to_account_response_def sample_account_def)
qed

end
