(* ===== verification/AdminApi.thy ===== *)
theory AdminApi
  imports AuthRoutes MonitoringAdmin DatagateService
begin

text \<open>
  The routes under \<open>/api/admin\<close>: \<open>catalog.py\<close>, \<open>incidents.py\<close>, \<open>accounts.py\<close>, \<open>datagate.py\<close> of \<open>src/app/api/routes\<close>, the
  dashboard of \<open>src/app/api/router.py\<close> and, through \<open>MonitoringAdmin\<close>, \<open>monitoring.py\<close>. A route first asks for the roles it
  depends on, then checks the query and the body, then calls the service and wraps what it returns. The columns
  \<open>created_at\<close> the rows of the model do not keep are a function of the identifier.
\<close>

section \<open>Lists\<close>

definition paginated_of :: "int \<Rightarrow> int \<Rightarrow> 'r list \<Rightarrow> 'r paginated" where
  \<comment> \<open>a page of the rows in their order, with the total of all\<close>
  "paginated_of offset limit rows =
     \<lparr>pr_items = page offset limit rows, pr_total = int (length rows), pr_offset = offset, pr_limit = limit\<rparr>"

definition list_paginated :: "('r \<Rightarrow> instant) \<Rightarrow> int \<Rightarrow> int \<Rightarrow> 'r list \<Rightarrow> 'r paginated" where
  \<comment> \<open>\<open>BaseQueryHandler.list_paginated\<close>: the newest first\<close>
  "list_paginated created offset limit rows = paginated_of offset limit (sort_desc created rows)"

definition list_components :: "(uuid \<Rightarrow> instant) \<Rightarrow> uuid option \<Rightarrow> int \<Rightarrow> int \<Rightarrow> database \<Rightarrow> MonitoredComponent paginated" where
  \<comment> \<open>of one project by sort order, name and age, or all of them\<close>
  "list_components created project offset limit db =
     (case project of
        None \<Rightarrow> list_paginated (\<lambda>c. created (mc_id c)) offset limit (db_components db)
      | Some pid \<Rightarrow>
          paginated_of offset limit
            (sort_key (\<lambda>c. (mc_sort_order c, mc_name c, - created (mc_id c)))
               (filter (\<lambda>c. mc_project_id c = pid) (db_components db))))"

record 'r page_response =
  rq_items :: "'r list"
  rq_total :: int
  rq_offset :: int
  rq_limit :: int
  rq_has_next :: bool
  rq_has_previous :: bool

definition to_paginated_response :: "'a paginated \<Rightarrow> ('a \<Rightarrow> 'r) \<Rightarrow> 'r page_response" where
  "to_paginated_response result mapper =
     \<lparr>rq_items = map mapper (pr_items result), rq_total = pr_total result, rq_offset = pr_offset result, rq_limit = pr_limit result,
      rq_has_next = has_next result, rq_has_previous = has_previous result\<rparr>"

datatype 'r route_answer = PageAnswer "'r page_response" | RowAnswer 'r | EmptyAnswer

definition page_query_ok :: "int \<Rightarrow> int \<Rightarrow> bool" where
  \<comment> \<open>\<open>Query(ge=0)\<close> and \<open>Query(ge=1, le=1000)\<close>\<close>
  "page_query_ok offset limit \<longleftrightarrow> 0 \<le> offset \<and> between 1 1000 limit"

definition page_answer :: "int \<Rightarrow> int \<Rightarrow> 'r paginated res \<Rightarrow> 'r route_answer res" where
  "page_answer offset limit result =
     (if page_query_ok offset limit then map_sum id (\<lambda>p. PageAnswer (to_paginated_response p (\<lambda>r. r))) result else Inl ValidationError)"

definition row_answer :: "'r res \<times> 's \<Rightarrow> 'r route_answer res \<times> 's" where
  "row_answer r = (map_sum id RowAnswer (fst r), snd r)"

definition empty_answer :: "unit res \<times> 's \<Rightarrow> 'r route_answer res \<times> 's" where
  \<comment> \<open>status 204\<close>
  "empty_answer r = (map_sum id (\<lambda>_. EmptyAnswer) (fst r), snd r)"

definition with_body :: "'b res \<Rightarrow> ('b \<Rightarrow> 'a res \<times> 's) \<Rightarrow> 's \<Rightarrow> 'a res \<times> 's" where
  \<comment> \<open>the handler runs on the checked body\<close>
  "with_body body handler s = (case body of Inl e \<Rightarrow> (Inl e, s) | Inr b \<Rightarrow> handler b)"

section \<open>Projects\<close>

datatype project_request =
    ListProjects int int
  | PostProject ProjectCreate
  | GetProject uuid
  | PatchProject uuid ProjectUpdate
  | RemoveProject uuid

fun project_roles :: "project_request \<Rightarrow> string list" where
  "project_roles (ListProjects _ _) = readers"
| "project_roles (PostProject _) = writers"
| "project_roles (GetProject _) = readers"
| "project_roles (PatchProject _ _) = writers"
| "project_roles (RemoveProject _) = [''admin'']"

fun project_handler ::
  "(database \<Rightarrow> uuid) \<Rightarrow> instant \<Rightarrow> project_request \<Rightarrow> database \<Rightarrow> Project route_answer res \<times> database" where
  "project_handler fresh_id now (ListProjects offset limit) db =
     (page_answer offset limit (Inr (list_paginated pr_created_at offset limit (db_projects db))), db)"
| "project_handler fresh_id now (PostProject p) db =
     with_body (validate_project_create p) (\<lambda>_. row_answer (create_project fresh_id p now db)) db"
| "project_handler fresh_id now (GetProject pid) db = row_answer (find_project pid db, db)"
| "project_handler fresh_id now (PatchProject pid p) db =
     with_body (validate_project_update p) (\<lambda>_. row_answer (update_project pid p db)) db"
| "project_handler fresh_id now (RemoveProject pid) db = empty_answer (delete_project pid db)"

section \<open>Kinds\<close>

datatype kind_request =
    ListKinds int int
  | PostKind ComponentKindCreate
  | GetKind uuid
  | PatchKind uuid ComponentKindUpdate
  | RemoveKind uuid

fun kind_roles :: "kind_request \<Rightarrow> string list" where
  "kind_roles (ListKinds _ _) = readers"
| "kind_roles (PostKind _) = writers"
| "kind_roles (GetKind _) = readers"
| "kind_roles (PatchKind _ _) = writers"
| "kind_roles (RemoveKind _) = [''admin'']"

fun kind_handler ::
  "(database \<Rightarrow> uuid) \<Rightarrow> (uuid \<Rightarrow> instant) \<Rightarrow> kind_request \<Rightarrow> database \<Rightarrow> ComponentKind route_answer res \<times> database" where
  "kind_handler fresh_id created (ListKinds offset limit) db =
     (page_answer offset limit (Inr (list_paginated (\<lambda>k. created (ck_id k)) offset limit (db_kinds db))), db)"
| "kind_handler fresh_id created (PostKind p) db = with_body (validate_kind_create p) (\<lambda>_. row_answer (create_kind fresh_id p db)) db"
| "kind_handler fresh_id created (GetKind kid) db = row_answer (find_kind kid db, db)"
| "kind_handler fresh_id created (PatchKind kid p) db = with_body (validate_kind_update p) (\<lambda>_. row_answer (update_kind kid p db)) db"
| "kind_handler fresh_id created (RemoveKind kid) db = empty_answer (delete_kind kid db)"

section \<open>Groups\<close>

datatype group_request =
    ListGroups uuid int int
  | PostGroup ComponentGroupCreate
  | GetGroup uuid
  | PatchGroup uuid ComponentGroupUpdate
  | RemoveGroup uuid

fun group_roles :: "group_request \<Rightarrow> string list" where
  "group_roles (ListGroups _ _ _) = readers"
| "group_roles (PostGroup _) = writers"
| "group_roles (GetGroup _) = readers"
| "group_roles (PatchGroup _ _) = writers"
| "group_roles (RemoveGroup _) = [''admin'']"

definition list_groups_paginated :: "uuid \<Rightarrow> int \<Rightarrow> int \<Rightarrow> database \<Rightarrow> ComponentGroup paginated res" where
  "list_groups_paginated pid offset limit db =
     map_sum id (\<lambda>(items, total). \<lparr>pr_items = items, pr_total = int total, pr_offset = offset, pr_limit = limit\<rparr>)
       (list_groups pid offset limit db)"

fun group_handler :: "(database \<Rightarrow> uuid) \<Rightarrow> group_request \<Rightarrow> database \<Rightarrow> ComponentGroup route_answer res \<times> database" where
  "group_handler fresh_id (ListGroups pid offset limit) db = (page_answer offset limit (list_groups_paginated pid offset limit db), db)"
| "group_handler fresh_id (PostGroup p) db = with_body (validate_group_create p) (\<lambda>_. row_answer (create_group fresh_id p db)) db"
| "group_handler fresh_id (GetGroup gid) db = row_answer (find_group gid db, db)"
| "group_handler fresh_id (PatchGroup gid p) db = with_body (validate_group_update p) (\<lambda>_. row_answer (update_group gid p db)) db"
| "group_handler fresh_id (RemoveGroup gid) db = empty_answer (delete_group gid db)"

section \<open>Monitored components\<close>

datatype component_request =
    ListComponents "uuid option" int int
  | PostComponent MonitoredComponentCreate
  | GetComponent uuid
  | PatchComponent uuid MonitoredComponentUpdate
  | RemoveComponent uuid

fun component_roles :: "component_request \<Rightarrow> string list" where
  "component_roles (ListComponents _ _ _) = readers"
| "component_roles (PostComponent _) = writers"
| "component_roles (GetComponent _) = readers"
| "component_roles (PatchComponent _ _) = writers"
| "component_roles (RemoveComponent _) = [''admin'']"

definition enriched_row :: "MonitoredComponent res \<times> database \<Rightarrow> component_response route_answer res \<times> database" where
  \<comment> \<open>the row that was written, read again with its latest check\<close>
  "enriched_row r =
     (case r of (Inl e, db) \<Rightarrow> (Inl e, db) | (Inr c, db) \<Rightarrow> row_answer (enrich_component_by_id (mc_id c) db, db))"

definition list_enriched :: "(uuid \<Rightarrow> instant) \<Rightarrow> uuid option \<Rightarrow> int \<Rightarrow> int \<Rightarrow> database \<Rightarrow> component_response paginated" where
  "list_enriched created project offset limit db =
     (let result = list_components created project offset limit db
      in \<lparr>pr_items = enrich_components db (pr_items result), pr_total = pr_total result, pr_offset = pr_offset result,
          pr_limit = pr_limit result\<rparr>)"

fun component_handler ::
  "settings \<Rightarrow> (database \<Rightarrow> uuid) \<Rightarrow> (uuid \<Rightarrow> instant) \<Rightarrow> component_request \<Rightarrow> database
     \<Rightarrow> component_response route_answer res \<times> database" where
  "component_handler cfg fresh_id created (ListComponents project offset limit) db =
     (page_answer offset limit (Inr (list_enriched created project offset limit db)), db)"
| "component_handler cfg fresh_id created (PostComponent p) db =
     with_body (validate_component_create cfg p) (\<lambda>p. enriched_row (create_component fresh_id p db)) db"
| "component_handler cfg fresh_id created (GetComponent cid) db = row_answer (enrich_component_by_id cid db, db)"
| "component_handler cfg fresh_id created (PatchComponent cid p) db =
     with_body (validate_component_update p) (\<lambda>p. enriched_row (update_component cid p db)) db"
| "component_handler cfg fresh_id created (RemoveComponent cid) db = empty_answer (delete_component cid db)"

section \<open>Incidents\<close>

datatype incident_api_request = ListIncidents uuid | IncidentRequest incident_request

datatype incident_answer =
    IncidentsAnswer "IncidentResponse list"
  | IncidentAnswer IncidentResponse
  | UpdateAnswer IncidentUpdate
  | IncidentGone \<comment> \<open>status 204\<close>

fun incident_roles :: "incident_api_request \<Rightarrow> string list" where
  "incident_roles (ListIncidents _) = readers"
| "incident_roles (IncidentRequest (DeleteIncident _)) = [''admin'']"
| "incident_roles (IncidentRequest (DeleteUpdate _)) = [''admin'']"
| "incident_roles (IncidentRequest _) = writers"

definition incident_row :: "('a \<Rightarrow> incident_answer) \<Rightarrow> 'a res \<times> database \<Rightarrow> incident_answer res \<times> database" where
  "incident_row f r = (map_sum id f (fst r), snd r)"

fun incident_handler ::
  "(database \<Rightarrow> uuid) \<Rightarrow> instant \<Rightarrow> incident_api_request \<Rightarrow> database \<Rightarrow> incident_answer res \<times> database" where
  "incident_handler fresh_id now (ListIncidents pid) db = (map_sum id IncidentsAnswer (list_for_project pid db), db)"
| "incident_handler fresh_id now (IncidentRequest (CreateIncident pid p)) db =
     with_body (validate_create p) (\<lambda>_. incident_row IncidentAnswer (create_incident fresh_id pid p now db)) db"
| "incident_handler fresh_id now (IncidentRequest (ChangeIncident iid p)) db =
     with_body (validate_payload p) (\<lambda>_. incident_row IncidentAnswer (update_incident iid p db)) db"
| "incident_handler fresh_id now (IncidentRequest (DeleteIncident iid)) db = incident_row (\<lambda>_. IncidentGone) (delete_incident iid db)"
| "incident_handler fresh_id now (IncidentRequest (AddUpdate iid p)) db =
     with_body (validate_update_create p) (\<lambda>_. incident_row UpdateAnswer (add_update fresh_id iid p now db)) db"
| "incident_handler fresh_id now (IncidentRequest (ChangeUpdate uid p)) db =
     with_body (validate_update_update p) (\<lambda>_. incident_row UpdateAnswer (update_entry uid p db)) db"
| "incident_handler fresh_id now (IncidentRequest (DeleteUpdate uid)) db = incident_row (\<lambda>_. IncidentGone) (delete_update uid db)"

lemma incident_handler_step:
  "snd (incident_handler fresh_id now (IncidentRequest rq) db) = incident_step fresh_id (rq, now) db"
  by (cases rq) (simp_all add: incident_row_def with_body_def checked_def split: sum.split)

section \<open>Accounts\<close>

datatype account_request =
    ListAccounts int int
  | GetAccount uuid
  | PutRoles uuid "string list"
  | Deactivate uuid
  | Activate uuid

record account_admin_response =
  aar_id :: uuid
  aar_email :: string
  aar_full_name :: "string option"
  aar_access_roles :: "string list"
  aar_is_active :: bool
  aar_is_totp_enabled :: bool
  aar_has_password :: bool
  aar_has_google :: bool
  aar_created_at :: instant

definition to_admin_response :: "(uuid \<Rightarrow> instant) \<Rightarrow> Account \<Rightarrow> account_admin_response" where
  "to_admin_response created a =
     (let base = to_account_response a
      in \<lparr>aar_id = ac_id a, aar_email = acr_email base, aar_full_name = acr_full_name base,
          aar_access_roles = acr_access_roles base, aar_is_active = ac_is_active a,
          aar_is_totp_enabled = acr_is_totp_enabled base, aar_has_password = acr_has_password base,
          aar_has_google = acr_has_google base, aar_created_at = created (ac_id a)\<rparr>)"

definition list_accounts :: "(uuid \<Rightarrow> instant) \<Rightarrow> int \<Rightarrow> int \<Rightarrow> database \<Rightarrow> Account paginated" where
  "list_accounts created offset limit db =
     paginated_of offset limit (sort_desc (\<lambda>a. created (ac_id a)) (db_accounts db))"

definition admin_account :: "uuid \<Rightarrow> database \<Rightarrow> Account res" where
  "admin_account aid db = (case get_account aid db of None \<Rightarrow> Inl (HTTPException 404 ''Account not found'') | Some a \<Rightarrow> Inr a)"

definition account_row ::
  "(uuid \<Rightarrow> instant) \<Rightarrow> Account res \<times> database \<Rightarrow> account_admin_response route_answer res \<times> database" where
  "account_row created r = row_answer (map_sum id (to_admin_response created) (fst r), snd r)"

fun account_handler ::
  "(uuid \<Rightarrow> instant) \<Rightarrow> account_request \<Rightarrow> database \<Rightarrow> account_admin_response route_answer res \<times> database" where
  "account_handler created (ListAccounts offset limit) db =
     (if page_query_ok offset limit
      then Inr (PageAnswer (to_paginated_response (list_accounts created offset limit db) (to_admin_response created)))
      else Inl ValidationError, db)"
| "account_handler created (GetAccount aid) db = account_row created (admin_account aid db, db)"
| "account_handler created (PutRoles aid roles) db =
     (if roles = [] then (Inl ValidationError, db) else account_row created (set_roles aid roles db))"
| "account_handler created (Deactivate aid) db = account_row created (set_active aid False db)"
| "account_handler created (Activate aid) db = account_row created (set_active aid True db)"

section \<open>DataGate\<close>

datatype datagate_request =
    GetIntegration
  | PutIntegration DatagateIntegrationUpsert
  | TestConnection
  | GetServers
  | PostPreview
  | PostImport import_request

datatype datagate_answer =
    IntegrationAnswer "integration_response option"
  | TestAnswer test_response
  | ServersAnswer "server_summary list"
  | PreviewAnswer preview_response
  | ImportAnswer import_response

fun datagate_roles :: "datagate_request \<Rightarrow> string list" where
  "datagate_roles (PutIntegration _) = writers"
| "datagate_roles TestConnection = writers"
| "datagate_roles (PostImport _) = writers"
| "datagate_roles _ = readers"

record 'w datagate_env =
  de_fernet :: fernet
  de_nf :: "string \<Rightarrow> string" \<comment> \<open>\<open>unicodedata.normalize\<close>\<close>
  de_service :: "'w dg_service"
  de_import_client :: dg_client \<comment> \<open>what the service answers during an import\<close>

definition get_integration_response :: "uuid \<Rightarrow> database \<Rightarrow> datagate_answer res" where
  "get_integration_response pid db = map_sum id (\<lambda>i. IntegrationAnswer (map_option to_response i)) (get_integration pid db)"

fun datagate_handler ::
  "settings \<Rightarrow> (database \<Rightarrow> uuid) \<Rightarrow> 'w datagate_env \<Rightarrow> uuid \<Rightarrow> datagate_request \<Rightarrow> database \<times> 'w
     \<Rightarrow> (datagate_answer res \<times> database \<times> 'w) option" where
  \<comment> \<open>\<open>None\<close>: the import never returns\<close>
  "datagate_handler cfg fresh_id de pid GetIntegration (db, w) = Some (get_integration_response pid db, db, w)"
| "datagate_handler cfg fresh_id de pid (PutIntegration p) (db, w) =
     Some (with_body (validate_upsert cfg p)
       (\<lambda>p. case upsert cfg (de_fernet de) pid p db of
          (q, db) \<Rightarrow> (map_sum id (\<lambda>i. IntegrationAnswer (Some (to_response i))) q, db, w)) (db, w))"
| "datagate_handler cfg fresh_id de pid TestConnection (db, w) =
     Some (case test_connection cfg (de_fernet de) (de_service de) pid db w of (q, w) \<Rightarrow> (map_sum id TestAnswer q, db, w))"
| "datagate_handler cfg fresh_id de pid GetServers (db, w) =
     Some (case list_project_servers cfg (de_fernet de) (de_service de) pid db w of (q, w) \<Rightarrow> (map_sum id ServersAnswer q, db, w))"
| "datagate_handler cfg fresh_id de pid PostPreview (db, w) =
     Some (case preview cfg (de_fernet de) (de_nf de) (de_service de) pid db w of (q, w) \<Rightarrow> (map_sum id PreviewAnswer q, db, w))"
| "datagate_handler cfg fresh_id de pid (PostImport rq) (db, w) =
     (case (get_project pid db, project_client cfg (de_fernet de) pid db) of
        (Some _, Inl e) \<Rightarrow> Some (Inl e, db, w) \<comment> \<open>no integration, or its secret cannot be decrypted: no client\<close>
      | _ \<Rightarrow>
          map_option (\<lambda>(q, db). (map_sum id ImportAnswer q, db, w))
            (import_servers cfg (de_nf de) fresh_id (de_import_client de) pid rq db))"

lemma import_handled:
  assumes "datagate_handler cfg fresh_id de pid (PostImport rq) (db, w) = Some (q, db', w')"
  shows "db' = db \<or> (\<exists>answer. import_servers cfg (de_nf de) fresh_id (de_import_client de) pid rq db = Some (answer, db'))"
  using assms by (auto split: option.splits sum.splits)

section \<open>All administrative requests\<close>

datatype admin_request =
    ProjectRequest project_request
  | KindRequest kind_request
  | GroupRequest group_request
  | ComponentRequest component_request
  | IncidentApiRequest incident_api_request
  | AccountRequest account_request
  | DatagateRequest uuid datagate_request
  | MonitoringRequest monitoring_request
  | Dashboard

datatype admin_answer =
    ProjectAnswer "Project route_answer"
  | KindAnswer "ComponentKind route_answer"
  | GroupAnswer "ComponentGroup route_answer"
  | ComponentAnswer "component_response route_answer"
  | IncidentApiAnswer incident_answer
  | AccountAdminAnswer "account_admin_response route_answer"
  | DatagateAnswer datagate_answer
  | MonitoringAnswer monitoring_answer
  | DashboardAnswer string account_response

fun admin_roles :: "admin_request \<Rightarrow> string list" where
  "admin_roles (ProjectRequest rq) = project_roles rq"
| "admin_roles (KindRequest rq) = kind_roles rq"
| "admin_roles (GroupRequest rq) = group_roles rq"
| "admin_roles (ComponentRequest rq) = component_roles rq"
| "admin_roles (IncidentApiRequest rq) = incident_roles rq"
| "admin_roles (AccountRequest rq) = [''admin'']"
| "admin_roles (DatagateRequest _ rq) = datagate_roles rq"
| "admin_roles (MonitoringRequest rq) = roles_of rq"
| "admin_roles Dashboard = readers"

record 'w admin_env =
  ae_fresh_id :: "database \<Rightarrow> uuid"
  ae_created :: "uuid \<Rightarrow> instant"
  ae_check :: health_check
  ae_datagate :: "'w datagate_env"

type_synonym 'w admin_state = "database \<times> host_wan \<times> 'w"

definition in_state :: "('a \<Rightarrow> admin_answer) \<Rightarrow> 'a res \<times> database \<Rightarrow> host_wan \<times> 'w \<Rightarrow> (admin_answer res \<times> 'w admin_state) option" where
  "in_state f r rest = Some (map_sum id f (fst r), snd r, rest)"

fun admin_handler ::
  "settings \<Rightarrow> 'w admin_env \<Rightarrow> instant \<Rightarrow> Account \<Rightarrow> admin_request \<Rightarrow> 'w admin_state \<Rightarrow> (admin_answer res \<times> 'w admin_state) option" where
  "admin_handler cfg en now a (ProjectRequest rq) (db, rest) = in_state ProjectAnswer (project_handler (ae_fresh_id en) now rq db) rest"
| "admin_handler cfg en now a (KindRequest rq) (db, rest) = in_state KindAnswer (kind_handler (ae_fresh_id en) (ae_created en) rq db) rest"
| "admin_handler cfg en now a (GroupRequest rq) (db, rest) = in_state GroupAnswer (group_handler (ae_fresh_id en) rq db) rest"
| "admin_handler cfg en now a (ComponentRequest rq) (db, rest) =
     in_state ComponentAnswer (component_handler cfg (ae_fresh_id en) (ae_created en) rq db) rest"
| "admin_handler cfg en now a (IncidentApiRequest rq) (db, rest) =
     in_state IncidentApiAnswer (incident_handler (ae_fresh_id en) now rq db) rest"
| "admin_handler cfg en now a (AccountRequest rq) (db, rest) = in_state AccountAdminAnswer (account_handler (ae_created en) rq db) rest"
| "admin_handler cfg en now a (DatagateRequest pid rq) (db, hw, w) =
     map_option (\<lambda>(q, db, w). (map_sum id DatagateAnswer q, db, hw, w))
       (datagate_handler cfg (ae_fresh_id en) (ae_datagate en) pid rq (db, w))"
| "admin_handler cfg en now a (MonitoringRequest rq) (db, hw, w) =
     Some (if query_ok rq
           then case monitoring_handler cfg (ae_check en) now rq (db, hw) of (q, db, hw) \<Rightarrow> (map_sum id MonitoringAnswer q, db, hw, w)
           else (Inl ValidationError, db, hw, w))"
| "admin_handler cfg en now a Dashboard st =
     Some (Inr (DashboardAnswer ''Welcome to StatusGate admin'' (to_account_response a)), st)"

definition admin_route ::
  "settings \<Rightarrow> crypto \<Rightarrow> 'w admin_env \<Rightarrow> http_request \<Rightarrow> instant \<Rightarrow> admin_request \<Rightarrow> 'w admin_state
     \<Rightarrow> (admin_answer res \<times> 'w admin_state) option" where
  "admin_route cfg cx en http now rq st =
     (case require_access_roles cfg cx (admin_roles rq) http now (fst st) of
        Inl e \<Rightarrow> Some (Inl e, st)
      | Inr a \<Rightarrow> admin_handler cfg en now a rq st)"

section \<open>Who may change what\<close>

fun removes :: "admin_request \<Rightarrow> bool" where
  \<comment> \<open>the \<open>DELETE\<close> routes: a project, kind, group, component, incident, update or the check history of a component\<close>
  "removes (ProjectRequest (RemoveProject _)) = True"
| "removes (KindRequest (RemoveKind _)) = True"
| "removes (GroupRequest (RemoveGroup _)) = True"
| "removes (ComponentRequest (RemoveComponent _)) = True"
| "removes (IncidentApiRequest (IncidentRequest (DeleteIncident _))) = True"
| "removes (IncidentApiRequest (IncidentRequest (DeleteUpdate _))) = True"
| "removes (MonitoringRequest (DeleteResults _ _)) = True"
| "removes _ = False"

fun about_accounts :: "admin_request \<Rightarrow> bool" where
  "about_accounts (AccountRequest _) = True"
| "about_accounts _ = False"

lemma snd_page: "snd (row_answer (q, s)) = s" "snd (enriched_row r) = snd r" "snd (row_answer p) = snd p" "snd (empty_answer u) = snd u"
  by (simp_all add: row_answer_def enriched_row_def empty_answer_def split: prod.split sum.split)

lemma datagate_readers:
  assumes "datagate_roles rq = readers" "datagate_handler cfg fresh_id de pid rq (db, w) = Some (q, db', w')"
  shows "db' = db"
  using assms by (cases rq) (auto simp: readers_def writers_def split: prod.splits)

lemma monitoring_readers:
  assumes "roles_of rq = readers" "db_settings db \<noteq> None" "monitoring_handler cfg check now rq (db, hw) = (q, db', hw')"
  shows "db' = db \<and> hw' = hw"
proof -
  obtain ms where "db_settings db = Some ms" using assms(2) by blast
  from readers_change_nothing [OF this assms(1), of cfg check now hw] assms(3) show ?thesis by simp
qed

lemma reader_requests_change_nothing:
  assumes "admin_roles rq = readers" "db_settings db \<noteq> None"
    and "admin_handler cfg en now a rq (db, hw, w) = Some (q, db', hw', w')"
  shows "db' = db \<and> hw' = hw"
proof (cases rq)
  case (ProjectRequest r)
  with assms show ?thesis by (cases r) (auto simp: in_state_def readers_def writers_def snd_page)
next
  case (KindRequest r)
  with assms show ?thesis by (cases r) (auto simp: in_state_def readers_def writers_def snd_page)
next
  case (GroupRequest r)
  with assms show ?thesis by (cases r) (auto simp: in_state_def readers_def writers_def snd_page)
next
  case (ComponentRequest r)
  with assms show ?thesis by (cases r) (auto simp: in_state_def readers_def writers_def snd_page)
next
  case (IncidentApiRequest r)
  with assms show ?thesis
    by (cases r rule: incident_roles.cases) (auto simp: in_state_def readers_def writers_def)
next
  case (DatagateRequest pid r)
  with assms show ?thesis by (auto dest: datagate_readers)
next
  case (MonitoringRequest r)
  with assms show ?thesis by (auto dest: monitoring_readers split: if_splits prod.splits)
qed (use assms in \<open>auto simp: readers_def\<close>)

fun purges :: "admin_request \<Rightarrow> uuid option" where
  \<comment> \<open>the component whose check history is deleted\<close>
  "purges (MonitoringRequest (DeleteResults cid _)) = Some cid"
| "purges _ = None"

lemma purge_results_keeps:
  "snd (purge_results cid keep db) = db\<lparr>db_results := db_results (snd (purge_results cid keep db))\<rparr>
   \<and> filter (\<lambda>r. cr_monitored_component_id r \<noteq> cid) (db_results (snd (purge_results cid keep db)))
     = filter (\<lambda>r. cr_monitored_component_id r \<noteq> cid) (db_results db)"
proof -
  have "filter (\<lambda>r. cr_monitored_component_id r \<noteq> cid) (filter (\<lambda>r. \<not> (cr_monitored_component_id r = cid \<and> P r)) rs)
      = filter (\<lambda>r. cr_monitored_component_id r \<noteq> cid) rs" for P rs
    unfolding filter_filter by (rule filter_cong) auto
  from this [of "\<lambda>r. cr_id r \<notin> set (map cr_id (take (nat keep) (sort_desc (\<lambda>r. utc_of (cr_checked_at r)) (results_of cid db))))"
      "db_results db"] show ?thesis by (simp add: purge_results_def Let_def del: filter_filter)
qed

lemma purge_events_keeps:
  "snd (purge_events cid db) = db\<lparr>db_events := db_events (snd (purge_events cid db))\<rparr>
   \<and> filter (\<lambda>e. ce_monitored_component_id e \<noteq> cid) (db_events (snd (purge_events cid db)))
     = filter (\<lambda>e. ce_monitored_component_id e \<noteq> cid) (db_events db)"
  by (simp add: purge_events_def)

lemma purge_keeps_the_rest:
  assumes "purge_check_history cid keep db = (q, db')"
  shows "db' = db\<lparr>db_results := db_results db', db_events := db_events db'\<rparr>
    \<and> filter (\<lambda>r. cr_monitored_component_id r \<noteq> cid) (db_results db') = filter (\<lambda>r. cr_monitored_component_id r \<noteq> cid) (db_results db)
    \<and> filter (\<lambda>e. ce_monitored_component_id e \<noteq> cid) (db_events db') = filter (\<lambda>e. ce_monitored_component_id e \<noteq> cid) (db_events db)"
proof -
  obtain r db1 where results: "purge_results cid keep db = (r, db1)" by (cases "purge_results cid keep db")
  note kept = purge_results_keeps [of cid keep db, unfolded results snd_conv]
  have "db' = db \<or> db' = db1 \<or> db' = snd (purge_events cid db1)"
    using assms results by (auto simp: purge_check_history_def split: sum.splits if_splits)
  then show ?thesis
  proof (elim disjE)
    assume "db' = snd (purge_events cid db1)"
    then have "db' = db1\<lparr>db_events := db_events db'\<rparr>"
      "filter (\<lambda>e. ce_monitored_component_id e \<noteq> cid) (db_events db') = filter (\<lambda>e. ce_monitored_component_id e \<noteq> cid) (db_events db1)"
      using purge_events_keeps [of cid db1] by simp_all
    moreover obtain rs es where "db1 = db\<lparr>db_results := rs\<rparr>" "db' = db1\<lparr>db_events := es\<rparr>" using kept calculation by metis
    ultimately show ?thesis using kept by simp
  next
    assume "db' = db1"
    moreover obtain rs where "db1 = db\<lparr>db_results := rs\<rparr>" using kept by metis
    ultimately show ?thesis using kept by simp
  qed simp
qed

lemma purging_request:
  assumes "purges rq = Some cid" "admin_handler cfg en now a rq (db, hw, w) = Some (q, db', hw', w')"
  shows "hw' = hw \<and> db' = db\<lparr>db_results := db_results db', db_events := db_events db'\<rparr>
    \<and> filter (\<lambda>r. cr_monitored_component_id r \<noteq> cid) (db_results db') = filter (\<lambda>r. cr_monitored_component_id r \<noteq> cid) (db_results db)
    \<and> filter (\<lambda>e. ce_monitored_component_id e \<noteq> cid) (db_events db') = filter (\<lambda>e. ce_monitored_component_id e \<noteq> cid) (db_events db)"
proof -
  obtain keep where rq: "rq = MonitoringRequest (DeleteResults cid keep)" using assms(1) by (cases rq rule: purges.cases) auto
  obtain q' db1 where purge: "purge_check_history cid keep db = (q', db1)" by (cases "purge_check_history cid keep db")
  from assms(2) rq purge have "hw' = hw" "db' = db \<or> db' = db1" by (auto split: if_splits)
  with purge_keeps_the_rest [OF purge] show ?thesis by auto
qed

lemma admin_roles_cases:
  "admin_roles rq = readers \<or> admin_roles rq = [''admin'']
   \<or> (admin_roles rq = writers \<and> (\<not> removes rq \<or> purges rq \<noteq> None) \<and> \<not> about_accounts rq)"
proof (cases rq)
  case (ProjectRequest r) then show ?thesis by (cases r) simp_all
next
  case (KindRequest r) then show ?thesis by (cases r) simp_all
next
  case (GroupRequest r) then show ?thesis by (cases r) simp_all
next
  case (ComponentRequest r) then show ?thesis by (cases r) simp_all
next
  case (IncidentApiRequest r) then show ?thesis by (cases r rule: incident_roles.cases) simp_all
next
  case (DatagateRequest pid r) then show ?thesis by (cases r) simp_all
next
  case (MonitoringRequest r) then show ?thesis by (cases r) simp_all
qed simp_all

text \<open>
  C3. Nothing changes without the right role: if an administrative request changes the database or the host WAN state at all, its
  access token authenticates an account that is an administrator, or an operator whose request does not concern accounts and is
  not a \<open>DELETE\<close>, with one exception: an operator may delete the check history of a component, which removes results and
  connection events of that component and nothing else. So a missing or bad token and a viewer's or user's request change nothing,
  whatever they ask for.
\<close>
theorem who_may_change:
  assumes "db_settings db \<noteq> None" "admin_route cfg cx en http now rq (db, hw, w) = Some (q, db', hw', w')"
  shows "(db' = db \<and> hw' = hw)
    \<or> (\<exists>a. get_current_account cfg cx http now db = Inr a
          \<and> (''admin'' \<in> set (ac_access_roles a)
             \<or> ''operator'' \<in> set (ac_access_roles a) \<and> \<not> about_accounts rq
               \<and> (\<not> removes rq
                  \<or> (\<exists>cid keep. rq = MonitoringRequest (DeleteResults cid keep)
                      \<and> hw' = hw \<and> db' = db\<lparr>db_results := db_results db', db_events := db_events db'\<rparr>
                      \<and> filter (\<lambda>r. cr_monitored_component_id r \<noteq> cid) (db_results db')
                        = filter (\<lambda>r. cr_monitored_component_id r \<noteq> cid) (db_results db)
                      \<and> filter (\<lambda>e. ce_monitored_component_id e \<noteq> cid) (db_events db')
                        = filter (\<lambda>e. ce_monitored_component_id e \<noteq> cid) (db_events db)))))"
proof (cases "require_access_roles cfg cx (admin_roles rq) http now db")
  case (Inl e)
  with assms(2) show ?thesis by (simp add: admin_route_def)
next
  case (Inr a)
  then have a: "get_current_account cfg cx http now db = Inr a" "set (ac_access_roles a) \<inter> set (admin_roles rq) \<noteq> {}"
    by (auto simp: require_access_roles_def split: sum.splits if_splits)
  from assms(2) Inr have run: "admin_handler cfg en now a rq (db, hw, w) = Some (q, db', hw', w')" by (simp add: admin_route_def)
  have operator: "\<not> removes rq \<or> (\<exists>cid keep. rq = MonitoringRequest (DeleteResults cid keep)
       \<and> hw' = hw \<and> db' = db\<lparr>db_results := db_results db', db_events := db_events db'\<rparr>
       \<and> filter (\<lambda>r. cr_monitored_component_id r \<noteq> cid) (db_results db') = filter (\<lambda>r. cr_monitored_component_id r \<noteq> cid) (db_results db)
       \<and> filter (\<lambda>e. ce_monitored_component_id e \<noteq> cid) (db_events db')
         = filter (\<lambda>e. ce_monitored_component_id e \<noteq> cid) (db_events db))"
    if "\<not> removes rq \<or> purges rq \<noteq> None"
  proof (cases "purges rq")
    case (Some cid)
    then obtain keep where rq: "rq = MonitoringRequest (DeleteResults cid keep)" by (cases rq rule: purges.cases) auto
    from purging_request [OF Some run] have "\<exists>c k. rq = MonitoringRequest (DeleteResults c k)
       \<and> hw' = hw \<and> db' = db\<lparr>db_results := db_results db', db_events := db_events db'\<rparr>
       \<and> filter (\<lambda>r. cr_monitored_component_id r \<noteq> c) (db_results db') = filter (\<lambda>r. cr_monitored_component_id r \<noteq> c) (db_results db)
       \<and> filter (\<lambda>e. ce_monitored_component_id e \<noteq> c) (db_events db')
         = filter (\<lambda>e. ce_monitored_component_id e \<noteq> c) (db_events db)"
      unfolding rq by (intro exI [of _ cid] exI [of _ keep]) (simp only: simp_thms)
    then show ?thesis ..
  qed (use that in simp)
  from admin_roles_cases [of rq] show ?thesis
  proof (elim disjE conjE)
    assume "admin_roles rq = readers"
    from reader_requests_change_nothing [OF this assms(1) run] show ?thesis by blast
  next
    assume "admin_roles rq = [''admin'']"
    with a show ?thesis by auto
  next
    assume "admin_roles rq = writers" "\<not> removes rq" "\<not> about_accounts rq"
    with a show ?thesis by (auto simp: writers_def)
  next
    assume w: "admin_roles rq = writers" "purges rq \<noteq> None" "\<not> about_accounts rq"
    from a(2) w(1) have "''admin'' \<in> set (ac_access_roles a) \<or> ''operator'' \<in> set (ac_access_roles a)" by (auto simp: writers_def)
    with a(1) w(3) operator [OF disjI2 [OF w(2)]] show ?thesis by blast
  qed
qed

text \<open>A request that is refused is answered with 401 or 403 and leaves everything as it is.\<close>

lemma refused_request:
  assumes "admin_route cfg cx en http now rq st = Some (q, st')" "require_access_roles cfg cx (admin_roles rq) http now (fst st) = Inl e"
  shows "st' = st \<and> (\<exists>msg. q = Inl (HTTPException 401 msg) \<or> q = Inl (HTTPException 403 msg))"
  using assms by (auto simp: admin_route_def require_access_roles_def get_current_account_def account_from_token_def
      split: sum.splits option.splits if_splits)

lemma who_may_change_witness:
  "\<forall>en :: unit admin_env. \<exists>q w. admin_route sample_cfg session_crypto en viewer_request 0 (ProjectRequest (RemoveProject ''i''))
     (viewer_database, fresh_process None, ()) = Some (q, viewer_database, fresh_process None, w)"
proof
  fix en :: "unit admin_env"
  have "db_settings viewer_database \<noteq> None" by (simp add: viewer_database_def sample_database_def)
  moreover have "require_access_roles sample_cfg session_crypto [''admin''] viewer_request 0 viewer_database
      = Inl (HTTPException 403 ''Insufficient permissions'')"
    by (rule roles_refused [OF viewer_signed_in]) simp
  then obtain q db' hw' w' where run: "admin_route sample_cfg session_crypto en viewer_request 0 (ProjectRequest (RemoveProject ''i''))
      (viewer_database, fresh_process None, ()) = Some (q, db', hw', w')"
    by (simp add: admin_route_def)
  ultimately have "db' = viewer_database \<and> hw' = fresh_process None"
    using who_may_change [OF _ run] viewer_signed_in by auto
  with run show "\<exists>q w. admin_route sample_cfg session_crypto en viewer_request 0 (ProjectRequest (RemoveProject ''i''))
     (viewer_database, fresh_process None, ()) = Some (q, viewer_database, fresh_process None, w)" by blast
qed

section \<open>Following the pages\<close>

fun follow_pages :: "nat \<Rightarrow> (int \<Rightarrow> 'r route_answer res) \<Rightarrow> int \<Rightarrow> int \<Rightarrow> 'r list option" where
  \<comment> \<open>a client that asks for the next page while there is one\<close>
  "follow_pages 0 ask limit offset = None"
| "follow_pages (Suc n) ask limit offset =
     (case ask offset of
        Inr (PageAnswer p) \<Rightarrow>
          if rq_has_next p then map_option ((@) (rq_items p)) (follow_pages n ask limit (offset + limit)) else Some (rq_items p)
      | _ \<Rightarrow> None)"

lemma page_next: "0 \<le> offset \<Longrightarrow> 0 \<le> limit \<Longrightarrow> page offset limit xs @ drop (nat (offset + limit)) xs = drop (nat offset) xs"
  by (simp add: page_def nat_add_distrib add.commute flip: drop_drop)

lemma follow_pages_rows:
  assumes ask: "\<And>k. 0 \<le> k \<Longrightarrow> ask k = Inr (PageAnswer (to_paginated_response (paginated_of k limit rows) f))"
    and "0 < limit"
  shows "0 \<le> offset \<Longrightarrow> int (length rows) \<le> offset + int n * limit \<Longrightarrow> 0 < n \<Longrightarrow>
    follow_pages n ask limit offset = Some (map f (drop (nat offset) rows))"
proof (induction n arbitrary: offset)
  case (Suc n)
  show ?case
  proof (cases "offset + limit < int (length rows)")
    case True
    then have "0 < n" using Suc.prems(2) by (cases n) simp_all
    moreover have "int (length rows) \<le> (offset + limit) + int n * limit" using Suc.prems(2) by (simp add: algebra_simps)
    ultimately have "follow_pages n ask limit (offset + limit) = Some (map f (drop (nat (offset + limit)) rows))"
      using Suc.IH Suc.prems(1) assms(2) by simp
    with True show ?thesis
      using page_next [OF Suc.prems(1), of limit rows] assms(2)
      by (simp add: ask Suc.prems(1) to_paginated_response_def paginated_of_def has_next_def flip: map_append)
  next
    case False
    then have "length rows \<le> nat (offset + limit)" by linarith
    then have "take (nat limit) (drop (nat offset) rows) = drop (nat offset) rows"
      using Suc.prems(1) assms(2) by (simp add: nat_add_distrib)
    with False show ?thesis
      by (simp add: ask Suc.prems(1) to_paginated_response_def paginated_of_def has_next_def page_def)
  qed
qed simp

text \<open>
  C38. The pages of a list are complete: whatever the page size the API admits, a client that follows \<open>has_next\<close> from the start gets
  every project and every account exactly once, the newest first, and stops after at most as many requests as there are rows and
  one more.
\<close>
theorem pages_cover_lists:
  assumes "1 \<le> limit" "limit \<le> 1000"
  shows "follow_pages (Suc (length (db_projects db))) (\<lambda>k. fst (project_handler fresh_id now (ListProjects k limit) db)) limit 0
      = Some (sort_desc pr_created_at (db_projects db))
    \<and> follow_pages (Suc (length (db_accounts db))) (\<lambda>k. fst (account_handler created (ListAccounts k limit) db)) limit 0
      = Some (map (to_admin_response created) (sort_desc (\<lambda>a. created (ac_id a)) (db_accounts db)))"
proof -
  have le: "int (length rows) \<le> 0 + int (Suc (length rows)) * limit" for rows :: "'b list"
  proof -
    have "int (length rows) \<le> (1 + int (length rows)) * 1" by simp
    also have "\<dots> \<le> (1 + int (length rows)) * limit" by (rule mult_left_mono [OF assms(1)]) simp
    finally show ?thesis by simp
  qed
  have lim: "0 < limit" using assms(1) by simp
  have "follow_pages (Suc (length (db_projects db))) (\<lambda>k. fst (project_handler fresh_id now (ListProjects k limit) db)) limit 0
      = Some (map (\<lambda>r. r) (drop (nat 0) (sort_desc pr_created_at (db_projects db))))"
    using assms le [of "db_projects db"]
    by (intro follow_pages_rows) (auto simp: page_answer_def page_query_ok_def between_def list_paginated_def)
  moreover have "follow_pages (Suc (length (db_accounts db))) (\<lambda>k. fst (account_handler created (ListAccounts k limit) db)) limit 0
      = Some (map (to_admin_response created) (drop (nat 0) (sort_desc (\<lambda>a. created (ac_id a)) (db_accounts db))))"
    using assms le [of "db_accounts db"]
    by (intro follow_pages_rows) (auto simp: page_query_ok_def between_def list_accounts_def)
  ultimately show ?thesis by simp
qed

lemma pages_cover_lists_witness:
  "follow_pages 2 (\<lambda>k. fst (project_handler catalog_ids 0 (ListProjects k 1) one_project)) 1 0 = Some (db_projects one_project)"
  using pages_cover_lists [of 1 one_project catalog_ids 0]
  by (simp add: one_project_def kinds_only_def empty_database_def sort_desc_def numeral_2_eq_2)

section \<open>Accounts stay consistent\<close>

definition linked_subs :: "database \<Rightarrow> string option list" where
  "linked_subs db = filter (\<lambda>s. s \<noteq> None) (map ac_google_sub (db_accounts db))"

definition accounts_wf :: "database \<Rightarrow> bool" where
  "accounts_wf db \<longleftrightarrow> distinct (map ac_id (db_accounts db)) \<and> distinct (map ac_email (db_accounts db)) \<and> distinct (linked_subs db)
     \<and> (\<forall>a \<in> set (db_accounts db). lower (ac_email a) = ac_email a \<and> ac_access_roles a \<noteq> []
          \<and> (\<forall>slug \<in> set (ac_access_roles a). role_exists slug db))"

lemma replace_row_absent: "key a \<notin> key ` set xs \<Longrightarrow> replace_row key a xs = xs"
  by (induction xs) (auto simp: replace_row_def)

lemma distinct_replace_opt:
  "distinct (filter (\<lambda>s. s \<noteq> None) (map g xs)) \<Longrightarrow> distinct (map key xs) \<Longrightarrow> b \<in> set xs \<Longrightarrow> key a = key b
   \<Longrightarrow> g a = g b \<or> g a \<notin> set (map g xs) \<Longrightarrow> distinct (filter (\<lambda>s. s \<noteq> None) (map g (replace_row key a xs)))"
proof (induction xs)
  case (Cons x xs)
  show ?case
  proof (cases "key x = key b")
    case True
    then have x: "x = b" using Cons.prems(2,3) by (force simp: distinct_map)
    then have "key b \<notin> key ` set xs" using Cons.prems(2) by simp
    then have "replace_row key a xs = xs"
      using Cons.prems(4) by (simp add: replace_row_absent)
    then have "replace_row key a (x # xs) = a # xs" using True Cons.prems(4) by (simp add: replace_row_def)
    then show ?thesis using Cons.prems(1,5) x by (cases "g b") (auto simp: image_iff split: if_splits)
  next
    case False
    then have b: "b \<in> set xs" using Cons.prems(3) by auto
    have tail: "distinct (filter (\<lambda>s. s \<noteq> None) (map g (replace_row key a xs)))"
      using Cons.IH Cons.prems(1,2,4,5) b by (auto split: if_splits)
    have "replace_row key a (x # xs) = x # replace_row key a xs"
      using False Cons.prems(4) by (simp add: replace_row_def)
    moreover have "g x \<notin> g ` set (replace_row key a xs)" if "g x \<noteq> None"
      using that Cons.prems(1,5) b by (auto simp: replace_row_def image_iff)
    ultimately show ?thesis using tail by auto
  qed
qed simp

lemma role_exists_roles: "db_roles db' = db_roles db \<Longrightarrow> role_exists slug db' = role_exists slug db"
  by (simp add: role_exists_def)

lemma accounts_wf_changed:
  assumes "accounts_wf db" "b \<in> set (db_accounts db)" "ac_id a = ac_id b" "ac_email a = ac_email b"
    and "ac_google_sub a = ac_google_sub b \<or> ac_google_sub a \<notin> set (map ac_google_sub (db_accounts db))"
    and "ac_access_roles a \<noteq> []" "\<forall>slug \<in> set (ac_access_roles a). role_exists slug db"
    and "db_accounts db' = replace_row ac_id a (db_accounts db)" "db_roles db' = db_roles db"
  shows "accounts_wf db'"
proof -
  have ids: "map ac_id (db_accounts db') = map ac_id (db_accounts db)" using assms(8) by simp
  have "map ac_email (db_accounts db') = map ac_email (db_accounts db)"
    using assms(1-4,8) by (auto simp: replace_row_def accounts_wf_def distinct_map dest: inj_onD)
  moreover have "distinct (linked_subs db')"
    unfolding linked_subs_def assms(8)
    by (rule distinct_replace_opt [OF _ _ assms(2,3,5)]) (use assms(1) in \<open>simp_all add: accounts_wf_def linked_subs_def\<close>)
  moreover have "lower (ac_email x) = ac_email x \<and> ac_access_roles x \<noteq> [] \<and> (\<forall>slug \<in> set (ac_access_roles x). role_exists slug db)"
    if "x \<in> set (db_accounts db')" for x
    using that assms by (auto simp: replace_row_def accounts_wf_def)
  ultimately show ?thesis
    using assms(1) ids by (simp add: accounts_wf_def role_exists_roles [OF assms(9)])
qed

lemma accounts_wf_step:
  assumes "accounts_wf db" "accounts_step db db'"
  shows "accounts_wf db'"
proof -
  have roles: "db_roles db' = db_roles db" using assms(2) by (simp add: accounts_step_def)
  consider (same) "db_accounts db' = db_accounts db"
    | (new) a where "account_added a db" "db_accounts db' = db_accounts db @ [a]"
    | (changed) a b where "account_changed a b db" "db_accounts db' = replace_row ac_id a (db_accounts db)"
    using assms(2) by (auto simp: accounts_step_def)
  then show ?thesis
  proof cases
    case same
    then show ?thesis using assms(1) by (simp add: accounts_wf_def linked_subs_def role_exists_roles [OF roles])
  next
    case new
    then show ?thesis
      using assms(1) by (auto simp: accounts_wf_def linked_subs_def account_added_def role_exists_roles [OF roles] default_role_def
          Let_def split: if_splits)
  next
    case changed
    then have b: "b \<in> set (db_accounts db)" "ac_id a = ac_id b" "ac_email a = ac_email b" "ac_access_roles a = ac_access_roles b"
      "ac_google_sub a = ac_google_sub b \<or> ac_google_sub a \<notin> set (map ac_google_sub (db_accounts db))"
      by (simp_all add: account_changed_def)
    have "ac_access_roles a \<noteq> [] \<and> (\<forall>slug \<in> set (ac_access_roles a). role_exists slug db)"
      using b(1,4) assms(1) by (simp add: accounts_wf_def)
    with accounts_wf_changed [OF assms(1) b(1-3,5) _ _ changed(2) roles] show ?thesis by blast
  qed
qed

lemma accounts_wf_update:
  assumes "accounts_wf db" "get_account aid db = Some b" "ac_id a = ac_id b" "ac_email a = ac_email b" "ac_google_sub a = ac_google_sub b"
    and "ac_access_roles a \<noteq> []" "\<forall>slug \<in> set (ac_access_roles a). role_exists slug db"
  shows "accounts_wf (update_account a db)"
proof -
  have "b \<in> set (db_accounts db)" using assms(2) by (auto simp: get_account_def dest: lookup_row_Some)
  from accounts_wf_changed [OF assms(1) this assms(3,4) disjI1 [OF assms(5)] assms(6,7)] show ?thesis
    by (simp add: update_account_def)
qed

lemma snd_account_row [simp]: "snd (account_row created r) = snd r"
  by (simp add: account_row_def row_answer_def)

lemma accounts_wf_set_roles: "accounts_wf db \<Longrightarrow> roles \<noteq> [] \<Longrightarrow> accounts_wf (snd (set_roles aid roles db))"
  by (auto simp: set_roles_def Let_def find_None_iff intro!: accounts_wf_update [of db aid] split: option.split)

lemma accounts_wf_set_active:
  assumes "accounts_wf db"
  shows "accounts_wf (snd (set_active aid active db))"
proof (cases "get_account aid db")
  case (Some b)
  then have "b \<in> set (db_accounts db)" by (auto simp: get_account_def dest: lookup_row_Some)
  then have "ac_access_roles b \<noteq> [] \<and> (\<forall>slug \<in> set (ac_access_roles b). role_exists slug db)" using assms by (simp add: accounts_wf_def)
  with accounts_wf_update [OF assms Some, of "b\<lparr>ac_is_active := active\<rparr>"] Some show ?thesis by (simp add: set_active_def Let_def)
qed (use assms in \<open>simp add: set_active_def\<close>)

lemma accounts_wf_admin: "accounts_wf db \<Longrightarrow> accounts_wf (snd (account_handler created rq db))"
  by (cases rq) (simp_all add: accounts_wf_set_roles accounts_wf_set_active)

text \<open>
  The roles of an account count at once, since they are read with every request; its deactivation does not: the access token of a
  deactivated administrator is accepted until it expires.
\<close>

lemma deactivated_administrator_keeps_access:
  assumes "get_current_account cfg cx http now db = Inr a" "distinct (map ac_id (db_accounts db))"
    and "set_active (ac_id a) False db = (Inr b, db')"
  shows "get_current_account cfg cx http now db' = Inr b \<and> \<not> ac_is_active b \<and> ac_access_roles b = ac_access_roles a"
proof -
  have a: "get_account (ac_id a) db = Some a"
    using assms(1,2) step_account_of_token [OF assms(1)] by (simp add: get_account_def lookup_row_mem)
  with assms(3) have b: "b = a\<lparr>ac_is_active := False\<rparr>" "db' = update_account b db"
    by (auto simp: set_active_def Let_def)
  have "get_account aid db' = (if aid = ac_id a then Some b else get_account aid db)" for aid
    using a by (simp add: b get_account_def update_account_def lookup_saved_row)
  with assms(1) b(1) show ?thesis
    by (auto simp: get_current_account_def account_from_token_def dest: get_account_key split: option.splits if_splits)
qed

section \<open>What was written is served\<close>

text \<open>A table behind routes that create, read and delete its rows.\<close>

locale served_table = keyed_table key get insert save remove
  for key :: "'r \<Rightarrow> string" and get :: "string \<Rightarrow> 's \<Rightarrow> 'r option" and insert :: "'r \<Rightarrow> 's \<Rightarrow> 's"
    and save :: "'r \<Rightarrow> 's \<Rightarrow> 's" and remove :: "string \<Rightarrow> 's \<Rightarrow> 's" +
  fixes admissible :: "'b \<Rightarrow> bool"
    and post :: "'b \<Rightarrow> 's \<Rightarrow> 'r route_answer res \<times> 's"
    and change :: "string \<Rightarrow> 'u \<Rightarrow> 's \<Rightarrow> 'r route_answer res \<times> 's"
    and read :: "string \<Rightarrow> 's \<Rightarrow> 'r route_answer res"
    and erase :: "string \<Rightarrow> 's \<Rightarrow> 'r route_answer res \<times> 's"
    and missing :: py_exn
    and merged :: "'u \<Rightarrow> 'r \<Rightarrow> 'r"
  assumes post_row: "admissible b \<Longrightarrow> post b s = (q, s') \<Longrightarrow> (\<exists>r. q = Inr (RowAnswer r) \<and> get (key r) s = None \<and> s' = insert r s) \<or> (isl q \<and> s' = s)"
    and change_row: "change k u s = (q, s') \<Longrightarrow>
       (\<exists>old. q = Inr (RowAnswer (merged u old)) \<and> get k s = Some old \<and> s' = save (merged u old) s) \<or> (isl q \<and> s' = s)"
    and merged_key: "key (merged u old) = key old"
    and read_row: "read k s = (case get k s of None \<Rightarrow> Inl missing | Some r \<Rightarrow> Inr (RowAnswer r))"
    and erase_row: "erase k s = (q, s') \<Longrightarrow> (q = Inr EmptyAnswer \<and> s' = remove k s) \<or> (isl q \<and> s' = s)"
begin

lemma posted_row_is_read:
  assumes "admissible b" "post b s = (Inr (RowAnswer r), s')"
  shows "read (key r) s = Inl missing \<and> read k s' = (if k = key r then Inr (RowAnswer r) else read k s)"
  using post_row [OF assms] by (auto simp: read_row get_insert)

lemma changed_row_is_read:
  assumes "change k u s = (Inr (RowAnswer r), s')"
  shows "(\<exists>old. read k s = Inr (RowAnswer old) \<and> r = merged u old) \<and> read j s' = (if j = k then Inr (RowAnswer r) else read j s)"
proof -
  obtain old where old: "r = merged u old" "get k s = Some old" "s' = save (merged u old) s"
    using change_row [OF assms] by auto
  have "key (merged u old) = k" using merged_key get_key [OF old(2)] by simp
  then have "get j s' = (if j = k then Some r else get j s)" using get_save [of "merged u old" s j] old by simp
  with old(1,2) show ?thesis by (auto simp: read_row)
qed

lemma erased_row_is_missing:
  assumes "erase k s = (Inr EmptyAnswer, s')"
  shows "read j s' = (if j = k then Inl missing else read j s)"
  using erase_row [OF assms] by (auto simp: read_row get_remove)

lemma refused_keeps:
  "admissible b \<Longrightarrow> post b s = (Inl e, s') \<Longrightarrow> s' = s" "change k u s = (Inl e, s') \<Longrightarrow> s' = s" "erase k s = (Inl e, s') \<Longrightarrow> s' = s"
  using post_row change_row erase_row by fastforce+

end

abbreviation read_project :: "uuid \<Rightarrow> database \<Rightarrow> Project route_answer res" where
  "read_project pid db \<equiv> fst (project_handler (\<lambda>_. []) 0 (GetProject pid) db)"

abbreviation read_group :: "uuid \<Rightarrow> database \<Rightarrow> ComponentGroup route_answer res" where
  "read_group gid db \<equiv> fst (group_handler (\<lambda>_. []) (GetGroup gid) db)"

abbreviation read_kind :: "uuid \<Rightarrow> database \<Rightarrow> ComponentKind route_answer res" where
  "read_kind kid db \<equiv> fst (kind_handler (\<lambda>_. []) (\<lambda>_. 0) (GetKind kid) db)"

text \<open>A field a patch gives a value replaces the old one; for a description the value may be \<open>null\<close>.\<close>

definition given :: "'a patch \<Rightarrow> 'a \<Rightarrow> 'a" where
  "given p old = (case p of None \<Rightarrow> old | Some None \<Rightarrow> old | Some (Some v) \<Rightarrow> v)"

definition given_or_null :: "'a patch \<Rightarrow> 'a option \<Rightarrow> 'a option" where
  "given_or_null p old = (case p of None \<Rightarrow> old | Some v \<Rightarrow> v)"

lemma patched_given: "patched p old = given p old"
  by (simp add: patched_def given_def split: option.split)

lemma default_to_given: "default_to old p = given_or_null p old"
  by (simp add: default_to_def given_or_null_def)

definition merged_project :: "ProjectUpdate \<Rightarrow> Project \<Rightarrow> Project" where
  "merged_project u r = r\<lparr>pr_name := given (pju_name u) (pr_name r), pr_slug := given (pju_slug u) (pr_slug r),
     pr_description := given_or_null (pju_description u) (pr_description r), pr_is_active := given (pju_is_active u) (pr_is_active r)\<rparr>"

definition merged_kind :: "ComponentKindUpdate \<Rightarrow> ComponentKind \<Rightarrow> ComponentKind" where
  "merged_kind u r = r\<lparr>ck_name := given (ku_name u) (ck_name r), ck_slug := given (ku_slug u) (ck_slug r),
     ck_description := given_or_null (ku_description u) (ck_description r)\<rparr>"

definition merged_group :: "ComponentGroupUpdate \<Rightarrow> ComponentGroup \<Rightarrow> ComponentGroup" where
  "merged_group u r = r\<lparr>cg_name := given (gu_name u) (cg_name r), cg_slug := given (gu_slug u) (cg_slug r),
     cg_description := given_or_null (gu_description u) (cg_description r),
     cg_sort_order := given (gu_sort_order u) (cg_sort_order r), cg_is_active := given (gu_is_active u) (cg_is_active r)\<rparr>"

interpretation served_projects: served_table pr_id get_project insert_project save_project delete_project_row
  "\<lambda>(fresh_id, now, p). fresh_catalog fresh_id"
  "\<lambda>(fresh_id, now, p) db. project_handler fresh_id now (PostProject p) db"
  "\<lambda>pid u db. project_handler (\<lambda>_. []) 0 (PatchProject pid u) db" read_project
  "\<lambda>pid db. project_handler (\<lambda>_. []) 0 (RemoveProject pid) db" "HTTPException 404 ''Project not found''" merged_project
proof (unfold_locales, goal_cases)
  case (1 b s q s')
  then have "get_project (fst b s) s = None" using fresh_ids(1) [of "fst b" s] by (cases b) (simp add: get_project_def lookup_row_None)
  with 1 show ?case
    by (cases b) (auto simp: with_body_def row_answer_def create_project_def Let_def split: sum.splits if_splits)
next
  case (2 k u s q s')
  then show ?case
    by (auto simp: with_body_def row_answer_def update_project_def find_project_def not_null_def Let_def merged_project_def
        patched_given default_to_given split: sum.splits if_splits option.splits)
next
  case (3 u old)
  show ?case by (simp add: merged_project_def)
next
  case (4 k s)
  show ?case by (simp add: row_answer_def find_project_def split: option.split)
next
  case (5 k s q s')
  then show ?case
    by (auto simp: empty_answer_def delete_project_def find_project_def dest: project_table.get_key split: option.splits)
qed

interpretation served_groups: served_table cg_id get_group insert_group save_group delete_group_row
  "\<lambda>(fresh_id, p). fresh_catalog fresh_id"
  "\<lambda>(fresh_id, p) db. group_handler fresh_id (PostGroup p) db"
  "\<lambda>gid u db. group_handler (\<lambda>_. []) (PatchGroup gid u) db" read_group
  "\<lambda>gid db. group_handler (\<lambda>_. []) (RemoveGroup gid) db" "HTTPException 404 ''Component group not found''" merged_group
proof (unfold_locales, goal_cases)
  case (1 b s q s')
  then have "get_group (fst b s) s = None" using fresh_ids(3) [of "fst b" s] by (cases b) (simp add: get_group_def lookup_row_None)
  with 1 show ?case
    by (cases b) (auto simp: with_body_def row_answer_def create_group_def Let_def split: sum.splits if_splits)
next
  case (2 k u s q s')
  then show ?case
    by (auto simp: with_body_def row_answer_def update_group_def find_group_def not_null_def Let_def merged_group_def
        patched_given default_to_given split: sum.splits if_splits option.splits)
next
  case (3 u old)
  show ?case by (simp add: merged_group_def)
next
  case (4 k s)
  show ?case by (simp add: row_answer_def find_group_def split: option.split)
next
  case (5 k s q s')
  then show ?case
    by (auto simp: empty_answer_def delete_group_def find_group_def dest: group_table.get_key split: option.splits)
qed

interpretation served_kinds: served_table ck_id get_kind insert_kind save_kind delete_kind_row
  "\<lambda>(fresh_id, p). fresh_catalog fresh_id"
  "\<lambda>(fresh_id, p) db. kind_handler fresh_id (\<lambda>_. 0) (PostKind p) db"
  "\<lambda>kid u db. kind_handler (\<lambda>_. []) (\<lambda>_. 0) (PatchKind kid u) db" read_kind
  "\<lambda>kid db. kind_handler (\<lambda>_. []) (\<lambda>_. 0) (RemoveKind kid) db" "HTTPException 404 ''Component kind not found''" merged_kind
proof (unfold_locales, goal_cases)
  case (1 b s q s')
  then have "get_kind (fst b s) s = None" using fresh_ids(2) [of "fst b" s] by (cases b) (simp add: get_kind_def lookup_row_None)
  with 1 show ?case
    by (cases b) (auto simp: with_body_def row_answer_def create_kind_def Let_def split: sum.splits if_splits)
next
  case (2 k u s q s')
  then show ?case
    by (auto simp: with_body_def row_answer_def update_kind_def find_kind_def not_null_def Let_def merged_kind_def
        patched_given default_to_given split: sum.splits if_splits option.splits)
next
  case (3 u old)
  show ?case by (simp add: merged_kind_def)
next
  case (4 k s)
  show ?case by (simp add: row_answer_def find_kind_def split: option.split)
next
  case (5 k s q s')
  then show ?case
    by (auto simp: empty_answer_def delete_kind_def find_kind_def dest: kind_table.get_key split: option.splits if_splits)
qed

text \<open>The values of a created row.\<close>

lemma created_values:
  "project_handler fresh_id now (PostProject p) db = (Inr (RowAnswer r), db') \<Longrightarrow>
     r = \<lparr>pr_id = fresh_id db, pr_name = pjc_name p, pr_slug = pjc_slug p, pr_description = pjc_description p,
          pr_is_active = pjc_is_active p, pr_created_at = now\<rparr>"
  "kind_handler fresh_id created (PostKind k) db = (Inr (RowAnswer t), db') \<Longrightarrow>
     t = \<lparr>ck_id = fresh_id db, ck_name = kc_name k, ck_slug = kc_slug k, ck_description = kc_description k\<rparr>"
  "group_handler fresh_id (PostGroup g) db = (Inr (RowAnswer u), db') \<Longrightarrow>
     u = \<lparr>cg_id = fresh_id db, cg_project_id = gc_project_id g, cg_name = gc_name g, cg_slug = gc_slug g,
          cg_description = gc_description g, cg_sort_order = gc_sort_order g, cg_is_active = gc_is_active g\<rparr>"
  by (auto simp: with_body_def row_answer_def create_project_def create_kind_def create_group_def Let_def split: sum.splits if_splits)

text \<open>
  C37. What is written through the API is what it serves, for projects, kinds and groups alike. A created row has the values of
  the request under an identifier that was not served before, a changed row is the served one with the given fields replaced, and
  reading it by its identifier then answers with exactly that row; after a deletion the identifier is answered with 404; and in
  all three cases every other identifier of the table is answered as before.
\<close>
theorem created_rows_are_served:
  assumes "fresh_catalog fresh_id"
  shows "(project_handler fresh_id now (PostProject p) db = (Inr (RowAnswer r), db') \<longrightarrow>
       r = \<lparr>pr_id = fresh_id db, pr_name = pjc_name p, pr_slug = pjc_slug p, pr_description = pjc_description p,
            pr_is_active = pjc_is_active p, pr_created_at = now\<rparr>
       \<and> read_project (pr_id r) db = Inl (HTTPException 404 ''Project not found'')
       \<and> read_project k db' = (if k = pr_id r then Inr (RowAnswer r) else read_project k db))
    \<and> (project_handler fresh_id now (PatchProject pid pu) db = (Inr (RowAnswer r), db') \<longrightarrow>
       (\<exists>old. read_project pid db = Inr (RowAnswer old) \<and> r = merged_project pu old)
       \<and> read_project k db' = (if k = pid then Inr (RowAnswer r) else read_project k db))
    \<and> (project_handler fresh_id now (RemoveProject pid) db = (Inr EmptyAnswer, db') \<longrightarrow>
       read_project k db' = (if k = pid then Inl (HTTPException 404 ''Project not found'') else read_project k db))
    \<and> (kind_handler fresh_id created (PostKind c) db = (Inr (RowAnswer t), db') \<longrightarrow>
       t = \<lparr>ck_id = fresh_id db, ck_name = kc_name c, ck_slug = kc_slug c, ck_description = kc_description c\<rparr>
       \<and> read_kind (ck_id t) db = Inl (HTTPException 404 ''Component kind not found'')
       \<and> read_kind k db' = (if k = ck_id t then Inr (RowAnswer t) else read_kind k db))
    \<and> (kind_handler fresh_id created (PatchKind kid ku) db = (Inr (RowAnswer t), db') \<longrightarrow>
       (\<exists>old. read_kind kid db = Inr (RowAnswer old) \<and> t = merged_kind ku old)
       \<and> read_kind k db' = (if k = kid then Inr (RowAnswer t) else read_kind k db))
    \<and> (kind_handler fresh_id created (RemoveKind kid) db = (Inr EmptyAnswer, db') \<longrightarrow>
       read_kind k db' = (if k = kid then Inl (HTTPException 404 ''Component kind not found'') else read_kind k db))
    \<and> (group_handler fresh_id (PostGroup g) db = (Inr (RowAnswer u), db') \<longrightarrow>
       u = \<lparr>cg_id = fresh_id db, cg_project_id = gc_project_id g, cg_name = gc_name g, cg_slug = gc_slug g,
            cg_description = gc_description g, cg_sort_order = gc_sort_order g, cg_is_active = gc_is_active g\<rparr>
       \<and> read_group (cg_id u) db = Inl (HTTPException 404 ''Component group not found'')
       \<and> read_group k db' = (if k = cg_id u then Inr (RowAnswer u) else read_group k db))
    \<and> (group_handler fresh_id (PatchGroup gid gu) db = (Inr (RowAnswer u), db') \<longrightarrow>
       (\<exists>old. read_group gid db = Inr (RowAnswer old) \<and> u = merged_group gu old)
       \<and> read_group k db' = (if k = gid then Inr (RowAnswer u) else read_group k db))
    \<and> (group_handler fresh_id (RemoveGroup gid) db = (Inr EmptyAnswer, db') \<longrightarrow>
       read_group k db' = (if k = gid then Inl (HTTPException 404 ''Component group not found'') else read_group k db))"
proof -
  note posted = served_projects.posted_row_is_read [of "(fresh_id, now, p)" db r db' k]
    served_kinds.posted_row_is_read [of "(fresh_id, c)" db t db' k] served_groups.posted_row_is_read [of "(fresh_id, g)" db u db' k]
  note changed = served_projects.changed_row_is_read [of pid pu db r db' k] served_kinds.changed_row_is_read [of kid ku db t db' k]
    served_groups.changed_row_is_read [of gid gu db u db' k]
  note erased = served_projects.erased_row_is_missing [of pid db db' k] served_kinds.erased_row_is_missing [of kid db db' k]
    served_groups.erased_row_is_missing [of gid db db' k]
  show ?thesis
    using posted changed erased created_values assms
    unfolding prod.case project_handler.simps kind_handler.simps group_handler.simps by (intro conjI impI) blast+
qed

lemma created_rows_are_served_witness:
  "read_project ''i'' (snd (project_handler catalog_ids 0
     (PostProject \<lparr>pjc_name = ''P'', pjc_slug = ''p'', pjc_description = None, pjc_is_active = True\<rparr>) empty_database))
   = Inr (RowAnswer \<lparr>pr_id = ''i'', pr_name = ''P'', pr_slug = ''p'', pr_description = None, pr_is_active = True, pr_created_at = 0\<rparr>)"
proof -
  define r where "r = \<lparr>pr_id = ''i'', pr_name = ''P'', pr_slug = ''p'', pr_description = None, pr_is_active = True, pr_created_at = 0\<rparr>"
  have post: "project_handler catalog_ids 0 (PostProject \<lparr>pjc_name = ''P'', pjc_slug = ''p'', pjc_description = None, pjc_is_active = True\<rparr>)
      empty_database = (Inr (RowAnswer r), empty_database\<lparr>db_projects := [r]\<rparr>)"
    unfolding r_def by code_simp
  have "pr_id r = ''i''" by (simp add: r_def)
  have "read_project ''i'' (empty_database\<lparr>db_projects := [r]\<rparr>) = (if ''i'' = pr_id r then Inr (RowAnswer r) else read_project ''i'' empty_database)"
    by (rule created_rows_are_served [OF catalog_ids_fresh, THEN conjunct1, rule_format, OF post, THEN conjunct2, THEN conjunct2])
  then have "read_project ''i'' (empty_database\<lparr>db_projects := [r]\<rparr>) = Inr (RowAnswer r)"
    unfolding \<open>pr_id r = ''i''\<close> if_P [OF refl] .
  then show ?thesis unfolding post snd_conv r_def .
qed

end
