(* ===== verification/OpenApi.thy ===== *)
theory OpenApi
  imports PyJson
begin

text \<open>
  The OpenAPI document: \<open>src/app/core/openapi.py\<close> rewrites the document FastAPI builds so that it describes the envelope the
  middleware puts around every answer. A document is a \<open>json\<close>; where the code takes an object out of it, an object is there in the
  documents FastAPI builds, and anything else is read as the empty one. The schemas pydantic writes for a model are a function of its name.
\<close>

section \<open>Schemas\<close>

definition obj :: "json \<Rightarrow> dict" where "obj j = default_to [] (as_dict j)"

abbreviation sub :: "string \<Rightarrow> dict \<Rightarrow> dict" where "sub k d \<equiv> obj (jget d k)"

type_synonym model_schemas = "string \<Rightarrow> json"

definition ensure_schema :: "model_schemas \<Rightarrow> string \<Rightarrow> dict \<Rightarrow> dict" where
  "ensure_schema models name components = (if map_of components name = None then jset name (models name) components else components)"

definition api_response_ref :: "string \<Rightarrow> json" where
  "api_response_ref name = JObj [(''$ref'', JStr (''#/components/schemas/'' @ name))]"

definition ensure_api_error_data :: "model_schemas \<Rightarrow> dict \<Rightarrow> dict" where
  "ensure_api_error_data models components = jset ''ApiErrorData'' (models ''ApiErrorData'') components"

definition wrapped_name :: "string \<Rightarrow> string" where "wrapped_name name_hint = ''ApiResponse_'' @ name_hint"

definition wrap_data_schema :: "dict \<Rightarrow> string \<Rightarrow> json option \<Rightarrow> json \<times> dict" where
  \<comment> \<open>the first schema of a name stays\<close>
  "wrap_data_schema components name_hint data_schema =
     (let wrapper = JObj [(''type'', JStr ''object''),
            (''properties'', JObj [(''success'', JObj [(''type'', JStr ''boolean'')]), (''message'', JObj [(''type'', JStr ''string'')]),
               (''data'', default_to (JObj [(''type'', JStr ''null'')]) data_schema)]),
            (''required'', JArr [JStr ''success'', JStr ''message''])]
      in (api_response_ref (wrapped_name name_hint),
          if map_of components (wrapped_name name_hint) = None then jset (wrapped_name name_hint) wrapper components else components))"

definition wrap_error_response :: "dict \<Rightarrow> json \<times> dict" where
  "wrap_error_response components = wrap_data_schema components ''Error'' (Some (api_response_ref ''ApiErrorData''))"

definition strip_slashes :: "string \<Rightarrow> string" where
  "strip_slashes s = rstrip_by (\<lambda>c. c = CHR ''/'') (dropWhile (\<lambda>c. c = CHR ''/'') s)"

definition safe_hint :: "string \<Rightarrow> string \<Rightarrow> string \<Rightarrow> string" where
  "safe_hint path http_method prefix =
     (let cleaned = map (\<lambda>c. if c = CHR ''/'' \<or> c = CHR ''-'' then CHR ''_'' else c) (strip_slashes path);
          cleaned = filter (\<lambda>c. c \<noteq> CHR ''{'' \<and> c \<noteq> CHR ''}'') cleaned
      in prefix @ http_method @ ''_'' @ cleaned)"

definition schema_name_from_ref :: "dict \<Rightarrow> string" where
  "schema_name_from_ref schema =
     rev (takeWhile (\<lambda>c. c \<noteq> CHR ''/'') (rev (case jget schema ''$ref'' of JStr s \<Rightarrow> s | _ \<Rightarrow> [])))"

section \<open>One response\<close>

type_synonym overrides = "((string \<times> string \<times> string) \<times> json) list"

definition set_schema :: "json \<Rightarrow> dict \<Rightarrow> dict" where
  \<comment> \<open>\<open>json_content["schema"] = schema\<close>, in place\<close>
  "set_schema schema response =
     (let content = sub ''content'' response
      in jset ''content'' (JObj (jset ''application/json'' (JObj (jset ''schema'' schema (sub ''application/json'' content))) content)) response)"

definition inner_wrapper :: "string \<Rightarrow> string \<Rightarrow> json \<Rightarrow> dict \<Rightarrow> json \<times> dict" where
  "inner_wrapper path http_method inner components =
     (if \<not> truthy inner then wrap_data_schema components (safe_hint path http_method ''Empty_'') None
      else wrap_data_schema components
             (if map_of (obj inner) ''$ref'' \<noteq> None then schema_name_from_ref (obj inner) else safe_hint path http_method [])
             (Some inner))"

definition wrap_response :: "overrides \<Rightarrow> string \<Rightarrow> string \<Rightarrow> string \<Rightarrow> dict \<Rightarrow> dict \<Rightarrow> dict \<times> dict" where
  \<comment> \<open>the response and the components\<close>
  "wrap_response ov path http_method status_code response components =
     (let json_content = jget (sub ''content'' response) ''application/json''
      in if json_content = JNull then (response, components)
         else case map_of ov (path, http_method, status_code) of
                Some schema \<Rightarrow> (set_schema schema response, components)
              | None \<Rightarrow>
                  if starts_with status_code ''2''
                  then (case inner_wrapper path http_method (jget (obj json_content) ''schema'') components of
                          (schema, components) \<Rightarrow> (set_schema schema response, components))
                  else if starts_with status_code ''4'' \<or> starts_with status_code ''5''
                  then (case wrap_error_response components of (schema, components) \<Rightarrow> (set_schema schema response, components))
                  else (response, components))"

definition no_content_response :: "string \<Rightarrow> string \<Rightarrow> dict \<Rightarrow> dict \<Rightarrow> json \<times> dict" where
  \<comment> \<open>what stands for a 204\<close>
  "no_content_response path http_method response components =
     (case wrap_data_schema components (safe_hint path http_method ''Empty_'') None of
        (schema, components) \<Rightarrow>
          (JObj [(''description'', default_to (JStr ''Successful Response'') (map_of response ''description'')),
                 (''content'', JObj [(''application/json'', JObj [(''schema'', schema)])])], components))"

section \<open>The document\<close>

fun wrap_responses :: "overrides \<Rightarrow> string \<Rightarrow> string \<Rightarrow> dict \<Rightarrow> bool \<Rightarrow> dict \<Rightarrow> dict \<Rightarrow> dict \<times> dict" where
  \<comment> \<open>the loop over the items as they were at its start; once the 200 is replaced, the old one is changed without effect\<close>
  "wrap_responses ov path http_method [] replaced responses components = (responses, components)"
| "wrap_responses ov path http_method ((status_code, response) # items) replaced responses components =
     (if status_code = ''204''
      then (case no_content_response path http_method (obj response) components of
              (answer, components) \<Rightarrow>
                wrap_responses ov path http_method items True (jpop ''204'' (jset ''200'' answer responses)) components)
      else (case wrap_response ov path http_method status_code (obj response) components of
              (response, components) \<Rightarrow>
                wrap_responses ov path http_method items replaced
                  (if replaced \<and> status_code = ''200'' then responses else jset status_code (JObj response) responses) components))"

definition HTTP_METHODS :: "string list" where
  "HTTP_METHODS = [''get'', ''post'', ''put'', ''patch'', ''delete'', ''options'', ''head'']"

definition wrap_operation :: "overrides \<Rightarrow> string \<Rightarrow> string \<Rightarrow> json \<Rightarrow> dict \<Rightarrow> json \<times> dict" where
  "wrap_operation ov path http_method operation components =
     (if http_method \<notin> set HTTP_METHODS \<or> map_of (obj operation) ''responses'' = None then (operation, components)
      else let responses = sub ''responses'' (obj operation)
           in case wrap_responses ov path http_method responses False responses components of
                (responses, components) \<Rightarrow> (JObj (jset ''responses'' (JObj responses) (obj operation)), components))"

fun wrap_items :: "(string \<Rightarrow> json \<Rightarrow> dict \<Rightarrow> json \<times> dict) \<Rightarrow> dict \<Rightarrow> dict \<Rightarrow> dict \<times> dict" where
  \<comment> \<open>a loop over the items of an object whose values change in place\<close>
  "wrap_items f [] components = ([], components)"
| "wrap_items f ((k, v) # d) components =
     (case f k v components of (v, components) \<Rightarrow>
        (case wrap_items f d components of (d, components) \<Rightarrow> ((k, v) # d, components)))"

definition wrap_path :: "overrides \<Rightarrow> string \<Rightarrow> json \<Rightarrow> dict \<Rightarrow> json \<times> dict" where
  "wrap_path ov path path_item components =
     (case wrap_items (wrap_operation ov path) (obj path_item) components of (item, components) \<Rightarrow> (JObj item, components))"

definition login_data_schema :: json where
  "login_data_schema = JObj [(''oneOf'', JArr [api_response_ref ''AccountResponse'', api_response_ref ''MfaRequiredResponse''])]"

definition manual_overrides :: "dict \<Rightarrow> overrides \<times> dict" where
  "manual_overrides components =
     (let (login, components) = wrap_data_schema components ''LoginResult'' (Some login_data_schema);
          (google, components) = wrap_data_schema components ''LoginResult'' (Some login_data_schema);
          (second, components) = wrap_data_schema components ''AccountResponse'' (Some (api_response_ref ''AccountResponse''));
          (renewed, components) = wrap_data_schema components ''AccountResponse'' (Some (api_response_ref ''AccountResponse''))
      in ([((''/api/auth/login'', ''post'', ''200''), login), ((''/api/auth/google-login'', ''post'', ''200''), google),
           ((''/api/auth/login/2fa'', ''post'', ''200''), second), ((''/api/auth/refresh'', ''post'', ''200''), renewed)], components))"

definition customize_openapi_schema :: "model_schemas \<Rightarrow> dict \<Rightarrow> dict" where
  "customize_openapi_schema models schema =
     (let components = sub ''schemas'' (sub ''components'' schema);
          components = ensure_api_error_data models components;
          components = ensure_schema models ''AccountResponse'' components;
          components = ensure_schema models ''MfaRequiredResponse'' components;
          (ov, components) = manual_overrides components;
          (paths, components) = wrap_items (wrap_path ov) (sub ''paths'' schema) components;
          schema = jset ''components'' (JObj (jset ''schemas'' (JObj components) (sub ''components'' schema))) schema
      in if map_of schema ''paths'' = None then schema else jset ''paths'' (JObj paths) schema)"

definition custom_openapi :: "model_schemas \<Rightarrow> dict \<Rightarrow> dict option \<Rightarrow> dict \<times> dict option" where
  \<comment> \<open>the document and the one the application keeps\<close>
  "custom_openapi models built stored =
     (case stored of
        Some (entry # d) \<Rightarrow> (entry # d, stored)
      | _ \<Rightarrow> (customize_openapi_schema models built, Some (customize_openapi_schema models built)))"

section \<open>The document describes the envelope\<close>

definition envelope :: "json \<Rightarrow> bool" where
  \<comment> \<open>the schema of \<open>success\<close>, \<open>message\<close> and some \<open>data\<close>\<close>
  "envelope j \<longleftrightarrow> (\<exists>data. j = JObj [(''type'', JStr ''object''),
     (''properties'', JObj [(''success'', JObj [(''type'', JStr ''boolean'')]), (''message'', JObj [(''type'', JStr ''string'')]),
        (''data'', data)]),
     (''required'', JArr [JStr ''success'', JStr ''message''])])"

lemma wrapped_name_inj [simp]: "wrapped_name a = wrapped_name b \<longleftrightarrow> a = b"
  by (simp add: wrapped_name_def)

definition envelopes :: "dict \<Rightarrow> bool" where
  "envelopes components \<longleftrightarrow> (\<forall>name s. map_of components (wrapped_name name) = Some s \<longrightarrow> envelope s)"

definition grows :: "dict \<Rightarrow> dict \<Rightarrow> bool" where
  "grows c c' \<longleftrightarrow> (\<forall>k v. map_of c k = Some v \<longrightarrow> map_of c' k = Some v)"

definition wrapped :: "dict \<Rightarrow> json \<Rightarrow> bool" where
  "wrapped components j \<longleftrightarrow>
     (\<exists>name s. j = api_response_ref (wrapped_name name) \<and> map_of components (wrapped_name name) = Some s)"

definition documented :: "dict \<Rightarrow> string \<Rightarrow> dict \<Rightarrow> bool" where
  \<comment> \<open>no 204 is left, and a JSON answer of success or failure refers to an envelope\<close>
  "documented components status_code response \<longleftrightarrow> status_code \<noteq> ''204''
     \<and> (jget (sub ''content'' response) ''application/json'' \<noteq> JNull
          \<and> (starts_with status_code ''2'' \<or> starts_with status_code ''4'' \<or> starts_with status_code ''5'')
        \<longrightarrow> wrapped components (jget (sub ''application/json'' (sub ''content'' response)) ''schema''))"

definition operation_documented :: "dict \<Rightarrow> json \<Rightarrow> bool" where
  "operation_documented components operation \<longleftrightarrow>
     (\<forall>s r. map_of (sub ''responses'' (obj operation)) s = Some r \<longrightarrow> documented components s (obj r))"

lemma map_of_jset [simp]: "map_of (jset k v d) = (map_of d)(k \<mapsto> v)"
  by (simp add: jset_def update_conv')

lemma map_of_jpop [simp]: "map_of (jpop k d) = (map_of d)(k := None)"
  by (simp add: jpop_def delete_conv' fun_eq_iff)

lemma obj_JObj [simp]: "obj (JObj d) = d"
  by (simp add: obj_def)

lemma grows_refl [simp]: "grows c c"
  by (simp add: grows_def)

lemma grows_trans: "grows a b \<Longrightarrow> grows b c \<Longrightarrow> grows a c"
  by (simp add: grows_def)

lemma wrapped_grows: "wrapped c j \<Longrightarrow> grows c c' \<Longrightarrow> wrapped c' j"
  unfolding wrapped_def grows_def by blast

lemma documented_grows: "documented c s r \<Longrightarrow> grows c c' \<Longrightarrow> documented c' s r"
  unfolding documented_def using wrapped_grows by blast

lemma operation_documented_grows: "operation_documented c j \<Longrightarrow> grows c c' \<Longrightarrow> operation_documented c' j"
  unfolding operation_documented_def using documented_grows by blast

definition extends :: "dict \<Rightarrow> dict \<Rightarrow> bool" where
  \<comment> \<open>what a step may do to the components\<close>
  "extends c c' \<longleftrightarrow> grows c c' \<and> (envelopes c \<longrightarrow> envelopes c')"

lemma extends_refl [simp]: "extends c c"
  by (simp add: extends_def)

lemma extends_trans: "extends a b \<Longrightarrow> extends b c \<Longrightarrow> extends a c"
  unfolding extends_def using grows_trans by blast

lemma extends_grows: "extends c c' \<Longrightarrow> grows c c'"
  by (simp add: extends_def)

lemma wrap_data_schema_ok:
  assumes "wrap_data_schema c hint data = (j, c')"
  shows "extends c c' \<and> wrapped c' j"
proof -
  have "envelope (JObj [(''type'', JStr ''object''),
     (''properties'', JObj [(''success'', JObj [(''type'', JStr ''boolean'')]), (''message'', JObj [(''type'', JStr ''string'')]),
        (''data'', d)]), (''required'', JArr [JStr ''success'', JStr ''message''])])" for d
    by (auto simp: envelope_def)
  then show ?thesis
    using assms by (auto simp: wrap_data_schema_def Let_def extends_def grows_def envelopes_def wrapped_def split: if_splits)
qed

lemma inner_wrapper_ok: "inner_wrapper path m inner c = (j, c') \<Longrightarrow> extends c c' \<and> wrapped c' j"
  by (auto simp: inner_wrapper_def split: if_splits dest: wrap_data_schema_ok)

lemma wrap_error_ok: "wrap_error_response c = (j, c') \<Longrightarrow> extends c c' \<and> wrapped c' j"
  by (simp add: wrap_error_response_def wrap_data_schema_ok)

lemma schema_set: "jget (sub ''application/json'' (sub ''content'' (set_schema j response))) ''schema'' = j"
  by (simp add: set_schema_def Let_def)

lemma documented_set: "s \<noteq> ''204'' \<Longrightarrow> wrapped c j \<Longrightarrow> documented c s (set_schema j response)"
  by (simp add: documented_def schema_set)

definition overrides_ok :: "dict \<Rightarrow> overrides \<Rightarrow> bool" where
  "overrides_ok c ov \<longleftrightarrow> (\<forall>k j. map_of ov k = Some j \<longrightarrow> wrapped c j)"

lemma overrides_grow: "overrides_ok c ov \<Longrightarrow> extends c c' \<Longrightarrow> overrides_ok c' ov"
  unfolding overrides_ok_def extends_def using wrapped_grows by blast

lemma wrap_response_ok:
  assumes "wrap_response ov path m s response c = (response', c')" "overrides_ok c ov" "s \<noteq> ''204''"
  shows "extends c c' \<and> documented c' s response'"
proof (cases "jget (sub ''content'' response) ''application/json'' = JNull")
  case True
  then show ?thesis using assms by (simp add: wrap_response_def documented_def)
next
  case False
  show ?thesis
  proof (cases "map_of ov (path, m, s)")
    case (Some j)
    with assms False show ?thesis by (auto simp: wrap_response_def overrides_ok_def intro: documented_set)
  next
    case None
    with assms(1,3) False show ?thesis
      by (auto simp: wrap_response_def Let_def intro: documented_set split: if_splits prod.splits
          dest!: inner_wrapper_ok wrap_error_ok) (auto simp: documented_def)
  qed
qed

lemma no_content_ok:
  assumes "no_content_response path m response c = (answer, c')"
  shows "extends c c' \<and> documented c' ''200'' (obj answer)"
  using assms by (auto simp: no_content_response_def documented_def split: prod.splits dest!: wrap_data_schema_ok)

lemma wrap_responses_ok:
  assumes "wrap_responses ov path m items replaced responses c = (responses', c')" "overrides_ok c ov"
    and "\<forall>s r. map_of responses s = Some r \<longrightarrow> s \<in> fst ` set items \<or> documented c s (obj r)"
    and "replaced \<longrightarrow> (\<forall>r. map_of responses ''200'' = Some r \<longrightarrow> documented c ''200'' (obj r))"
  shows "extends c c' \<and> (\<forall>s r. map_of responses' s = Some r \<longrightarrow> documented c' s (obj r))"
  using assms
proof (induction ov path m items replaced responses c rule: wrap_responses.induct)
  case (2 ov path m s response items replaced responses c)
  show ?case
  proof (cases "s = ''204''")
    case True
    obtain answer c1 where a: "no_content_response path m (obj response) c = (answer, c1)" by fastforce
    note ok = no_content_ok [OF a]
    then have up: "documented c t r \<Longrightarrow> documented c1 t r" for t r using documented_grows by (simp add: extends_def)
    have "extends c1 c' \<and> (\<forall>s r. map_of responses' s = Some r \<longrightarrow> documented c' s (obj r))"
    proof (rule "2.IH"(1) [OF True a [symmetric]])
      show "wrap_responses ov path m items True (jpop ''204'' (jset ''200'' answer responses)) c1 = (responses', c')"
        using "2.prems"(1) True a by simp
      show "overrides_ok c1 ov" using overrides_grow "2.prems"(2) ok by blast
      show "\<forall>s r. map_of (jpop ''204'' (jset ''200'' answer responses)) s = Some r \<longrightarrow> s \<in> fst ` set items \<or> documented c1 s (obj r)"
        using "2.prems"(3) True ok by (fastforce dest: up split: if_splits)
      show "True \<longrightarrow> (\<forall>r. map_of (jpop ''204'' (jset ''200'' answer responses)) ''200'' = Some r \<longrightarrow> documented c1 ''200'' (obj r))"
        using ok by simp
    qed
    with ok extends_trans show ?thesis by blast
  next
    case False
    obtain response1 c1 where a: "wrap_response ov path m s (obj response) c = (response1, c1)" by fastforce
    note ok = wrap_response_ok [OF a "2.prems"(2) False]
    then have up: "documented c t r \<Longrightarrow> documented c1 t r" for t r using documented_grows by (simp add: extends_def)
    define responses1 where "responses1 = (if replaced \<and> s = ''200'' then responses else jset s (JObj response1) responses)"
    have "extends c1 c' \<and> (\<forall>s r. map_of responses' s = Some r \<longrightarrow> documented c' s (obj r))"
    proof (rule "2.IH"(2) [OF False a [symmetric]])
      show "wrap_responses ov path m items replaced
          (if replaced \<and> s = ''200'' then responses else jset s (JObj response1) responses) c1 = (responses', c')"
        using "2.prems"(1) False a by simp
      show "overrides_ok c1 ov" using overrides_grow "2.prems"(2) ok by blast
      show "\<forall>t r. map_of (if replaced \<and> s = ''200'' then responses else jset s (JObj response1) responses) t = Some r
          \<longrightarrow> t \<in> fst ` set items \<or> documented c1 t (obj r)"
        using "2.prems"(3,4) ok by (fastforce dest: up split: if_splits)
      show "replaced \<longrightarrow> (\<forall>r. map_of (if replaced \<and> s = ''200'' then responses else jset s (JObj response1) responses) ''200'' = Some r
          \<longrightarrow> documented c1 ''200'' (obj r))"
        using "2.prems"(4) ok by (fastforce dest: up split: if_splits)
    qed
    with ok extends_trans show ?thesis by blast
  qed
qed simp

lemma wrap_operation_ok:
  assumes "wrap_operation ov path m operation c = (operation', c')" "overrides_ok c ov"
  shows "extends c c' \<and> (m \<in> set HTTP_METHODS \<longrightarrow> operation_documented c' operation')"
proof (cases "m \<notin> set HTTP_METHODS \<or> map_of (obj operation) ''responses'' = None")
  case True
  then show ?thesis using assms(1) by (auto simp: wrap_operation_def operation_documented_def jget_def obj_def [of JNull])
next
  case False
  define responses where "responses = sub ''responses'' (obj operation)"
  obtain responses' where r: "wrap_responses ov path m responses False responses c = (responses', c')"
    and o: "operation' = JObj (jset ''responses'' (JObj responses') (obj operation))"
    using assms(1) False by (auto simp: wrap_operation_def responses_def Let_def split: prod.splits)
  have "\<forall>s r. map_of responses s = Some r \<longrightarrow> s \<in> fst ` set responses \<or> documented c s (obj r)"
    by (metis map_of_eq_None_iff option.distinct(1))
  from wrap_responses_ok [OF r assms(2) this] o show ?thesis by (simp add: operation_documented_def)
qed

text \<open>A loop over an object keeps its keys and documents every value, if each step does and undoes nothing.\<close>

lemma wrap_items_ok:
  assumes "wrap_items f d c = (d', c')" "overrides_ok c ov"
    and step: "\<And>k v c v' c'. f k v c = (v', c') \<Longrightarrow> overrides_ok c ov \<Longrightarrow> extends c c' \<and> good c' k v'"
    and mono: "\<And>k v c c'. good c k v \<Longrightarrow> grows c c' \<Longrightarrow> good c' k v"
  shows "extends c c' \<and> map fst d' = map fst d \<and> (\<forall>(k, v) \<in> set d'. good c' k v)"
  using assms(1,2)
proof (induction d arbitrary: c d')
  case (Cons kv d)
  obtain k v where kv: "kv = (k, v)" by (cases kv)
  obtain v' c1 where 1: "f k v c = (v', c1)" by fastforce
  obtain d1 c2 where 2: "wrap_items f d c1 = (d1, c2)" by fastforce
  from Cons.prems(1) kv 1 2 have out: "d' = (k, v') # d1" "c' = c2" by simp_all
  note one = step [OF 1 Cons.prems(2)]
  then have "overrides_ok c1 ov" using overrides_grow Cons.prems(2) by blast
  from Cons.IH [OF 2 [folded out(2)] this] one show ?case
    using mono extends_trans by (auto simp: out kv extends_def intro: grows_trans)
qed simp

definition path_documented :: "dict \<Rightarrow> json \<Rightarrow> bool" where
  "path_documented components item \<longleftrightarrow>
     (\<forall>(m, operation) \<in> set (obj item). m \<in> set HTTP_METHODS \<longrightarrow> operation_documented components operation)"

lemma wrap_path_ok:
  assumes "wrap_path ov path item c = (item', c')" "overrides_ok c ov"
  shows "extends c c' \<and> map fst (obj item') = map fst (obj item) \<and> path_documented c' item'"
proof -
  obtain ops where o: "wrap_items (wrap_operation ov path) (obj item) c = (ops, c')" "item' = JObj ops"
    using assms(1) by (auto simp: wrap_path_def split: prod.splits)
  have "extends c c' \<and> map fst ops = map fst (obj item)
      \<and> (\<forall>(m, operation) \<in> set ops. m \<in> set HTTP_METHODS \<longrightarrow> operation_documented c' operation)"
    using o(1) assms(2) by (rule wrap_items_ok) (auto dest: wrap_operation_ok operation_documented_grows)
  with o(2) show ?thesis by (simp add: path_documented_def)
qed

lemma manual_overrides_ok:
  assumes "manual_overrides c = (ov, c')"
  shows "extends c c' \<and> overrides_ok c' ov"
proof -
  obtain j1 c1 where 1: "wrap_data_schema c ''LoginResult'' (Some login_data_schema) = (j1, c1)" by fastforce
  obtain j2 c2 where 2: "wrap_data_schema c1 ''LoginResult'' (Some login_data_schema) = (j2, c2)" by fastforce
  obtain j3 c3 where 3: "wrap_data_schema c2 ''AccountResponse'' (Some (api_response_ref ''AccountResponse'')) = (j3, c3)" by fastforce
  obtain j4 c4 where 4: "wrap_data_schema c3 ''AccountResponse'' (Some (api_response_ref ''AccountResponse'')) = (j4, c4)" by fastforce
  note ok = wrap_data_schema_ok [OF 1] wrap_data_schema_ok [OF 2] wrap_data_schema_ok [OF 3] wrap_data_schema_ok [OF 4]
  have g: "extends c c4" "grows c1 c4" "grows c2 c4" "grows c3 c4"
    using ok extends_trans extends_grows grows_trans by meson+
  have w: "wrapped c4 j1" "wrapped c4 j2" "wrapped c4 j3" "wrapped c4 j4"
    using ok g(2-4) wrapped_grows by blast+
  from assms have "ov = [((''/api/auth/login'', ''post'', ''200''), j1), ((''/api/auth/google-login'', ''post'', ''200''), j2),
      ((''/api/auth/login/2fa'', ''post'', ''200''), j3), ((''/api/auth/refresh'', ''post'', ''200''), j4)]" "c' = c4"
    by (simp_all add: manual_overrides_def 1 2 3 4)
  with g(1) w show ?thesis by (simp add: overrides_ok_def)
qed

abbreviation schemas_of :: "dict \<Rightarrow> dict" where "schemas_of document \<equiv> sub ''schemas'' (sub ''components'' document)"

text \<open>
  C26. The published document describes what the API answers: after the rewriting no operation has a 204 response left, the schema of
  every JSON response of success or failure refers to a component that is there and describes the envelope of \<open>success\<close>, \<open>message\<close> and
  \<open>data\<close>, no path or method is lost, and every schema of the document but the one of the error data stays as it was.
\<close>
theorem document_describes_envelope:
  assumes "\<forall>name. map_of (schemas_of built) (wrapped_name name) = None"
  shows "map fst (sub ''paths'' (customize_openapi_schema models built)) = map fst (sub ''paths'' built)
    \<and> (\<forall>(path, item) \<in> set (sub ''paths'' (customize_openapi_schema models built)). path_documented (schemas_of (customize_openapi_schema models built)) item)
    \<and> envelopes (schemas_of (customize_openapi_schema models built))
    \<and> (\<forall>k v. map_of (schemas_of built) k = Some v \<longrightarrow> k = ''ApiErrorData'' \<or> map_of (schemas_of (customize_openapi_schema models built)) k = Some v)"
proof -
  define document where "document = customize_openapi_schema models built"
  define c0 where "c0 = ensure_schema models ''MfaRequiredResponse'' (ensure_schema models ''AccountResponse''
    (ensure_api_error_data models (schemas_of built)))"
  have names: "wrapped_name n \<noteq> ''ApiErrorData''" "wrapped_name n \<noteq> ''AccountResponse''" "wrapped_name n \<noteq> ''MfaRequiredResponse''" for n
    by (simp_all add: wrapped_name_def)
  have old: "\<forall>k v. map_of (schemas_of built) k = Some v \<longrightarrow> k = ''ApiErrorData'' \<or> map_of c0 k = Some v"
    by (simp add: c0_def ensure_schema_def ensure_api_error_data_def)
  have env0: "envelopes c0"
    using assms(1) names by (simp add: envelopes_def c0_def ensure_schema_def ensure_api_error_data_def)
  obtain ov c1 where m: "manual_overrides c0 = (ov, c1)" by fastforce
  note over = manual_overrides_ok [OF m]
  obtain paths c2 where p: "wrap_items (wrap_path ov) (sub ''paths'' built) c1 = (paths, c2)" by fastforce
  have done_paths: "extends c1 c2 \<and> map fst paths = map fst (sub ''paths'' built) \<and> (\<forall>(path, item) \<in> set paths. path_documented c2 item)"
    using p conjunct2 [OF over]
  proof (rule wrap_items_ok)
    show "extends c c' \<and> path_documented c' item'" if "wrap_path ov path item c = (item', c')" "overrides_ok c ov" for path item c item' c'
      using wrap_path_ok [OF that] by blast
    show "path_documented c' item" if "path_documented c item" "grows c c'" for item c c'
      using that operation_documented_grows by (fastforce simp: path_documented_def)
  qed
  define schema where "schema = jset ''components'' (JObj (jset ''schemas'' (JObj c2) (sub ''components'' built))) built"
  have whole: "document = (if map_of schema ''paths'' = None then schema else jset ''paths'' (JObj paths) schema)"
    unfolding document_def customize_openapi_schema_def Let_def c0_def [symmetric] m p prod.case schema_def ..
  have "paths = []" if "map_of built ''paths'' = None"
    using p that by (simp add: jget_def obj_def)
  then have doc: "schemas_of document = c2" "sub ''paths'' document = paths"
    by (auto simp: whole schema_def jget_def obj_def [of JNull])
  have "extends c0 c2" using over done_paths extends_trans by blast
  then show ?thesis
    using old env0 done_paths unfolding document_def [symmetric] by (auto simp: doc extends_def grows_def)
qed

definition small_document :: dict where
  "small_document = [(''paths'', JObj [(''/api/x/{id}'', JObj [(''delete'', JObj [(''responses'',
     JObj [(''204'', JObj [(''description'', JStr ''Gone'')]),
           (''422'', JObj [(''content'', JObj [(''application/json'', JObj [(''schema'', JObj [])])])])])])])])]"

lemma document_describes_envelope_witness:
  "map fst (sub ''paths'' (customize_openapi_schema (\<lambda>_. JNull) small_document)) = [''/api/x/{id}'']
   \<and> envelopes (schemas_of (customize_openapi_schema (\<lambda>_. JNull) small_document))"
  using document_describes_envelope [of small_document "\<lambda>_. JNull"] by (simp add: small_document_def jget_def obj_def)

lemma small_document_rewritten:
  "jget (sub ''delete'' (sub ''/api/x/{id}'' (sub ''paths'' (customize_openapi_schema (\<lambda>_. JNull) small_document)))) ''responses''
   = JObj [(''422'', JObj [(''content'', JObj [(''application/json'', JObj [(''schema'', api_response_ref ''ApiResponse_Error'')])])]),
           (''200'', JObj [(''description'', JStr ''Gone''),
              (''content'', JObj [(''application/json'', JObj [(''schema'', api_response_ref ''ApiResponse_Empty_delete_api_x_id'')])])])]"
  by code_simp

text \<open>The document is built once.\<close>

lemma document_is_kept:
  "custom_openapi models built stored = (d, kept) \<Longrightarrow> d \<noteq> [] \<Longrightarrow> custom_openapi models' built' kept = (d, kept)"
  by (auto simp: custom_openapi_def split: option.splits list.splits)

end
