(* ===== verification/Worker.thy ===== *)
theory Worker
  imports VpnSupervisor MonitoringAdmin
begin

text \<open>
  The worker process: \<open>src/app/worker/__main__.py\<close>. A cycle synchronises the threads of the persistent tunnels, reads the settings
  and runs the due checks; the loop survives every exception of a cycle and stops the threads when it is ended. What happens outside
  a cycle is a \<open>cycle_world\<close>; the list of them is as long as the process lives.
\<close>

section \<open>Cycles\<close>

record cycle_world =
  cw_before :: "database \<Rightarrow> database" \<comment> \<open>what the API and the threads wrote since the last cycle\<close>
  cw_fails :: "py_exn option" \<comment> \<open>the database is away: the first query raises\<close>
  cw_check :: health_check
  cw_host_wan :: "MonitoringSettings \<Rightarrow> host_wan \<Rightarrow> HostWanBaseline option res \<times> host_wan"
  cw_due :: instant
  cw_pick :: instant
  cw_clock :: "uuid \<Rightarrow> instant"

type_synonym worker_state = "supervisor \<times> database \<times> host_wan"

definition run_scheduler_cycle ::
  "settings \<Rightarrow> (dict \<Rightarrow> string) \<Rightarrow> (string \<Rightarrow> string) \<Rightarrow> cycle_world \<Rightarrow> worker_state \<Rightarrow> int res \<times> worker_state" where
  \<comment> \<open>the seconds to sleep\<close>
  "run_scheduler_cycle cfg digest sha256_hex w st =
     (let (sv, db, hw) = st
      in case cw_fails w of
           Some e \<Rightarrow> (Inl e, st)
         | None \<Rightarrow>
             let sv = sync cfg digest db sv;
                 (ms, db) = get_monitoring_settings cfg db
             in case run_due_checks cfg sha256_hex (cw_check w) (cw_host_wan w) (cw_due w) (cw_pick w) (cw_clock w) (db, hw) of
                  (Inl e, db, hw) \<Rightarrow> (Inl e, sv, db, hw)
                | (Inr _, db, hw) \<Rightarrow> (Inr (ms_scheduler_interval_seconds ms), sv, db, hw))"

definition sleep_seconds :: "int res \<Rightarrow> int" where
  "sleep_seconds q = (case q of Inl _ \<Rightarrow> 30 | Inr n \<Rightarrow> n)"

fun worker_loop ::
  "settings \<Rightarrow> (dict \<Rightarrow> string) \<Rightarrow> (string \<Rightarrow> string) \<Rightarrow> cycle_world list \<Rightarrow> worker_state \<Rightarrow> int list \<times> worker_state" where
  \<comment> \<open>\<open>main\<close>: the sleeps, and the state once the process was told to end\<close>
  "worker_loop cfg digest sha256_hex [] (sv, db, hw) = ([], stop_all sv, db, hw)"
| "worker_loop cfg digest sha256_hex (w # ws) (sv, db, hw) =
     (case run_scheduler_cycle cfg digest sha256_hex w (sv, cw_before w db, hw) of
        (q, st) \<Rightarrow> (case worker_loop cfg digest sha256_hex ws st of (sleeps, st) \<Rightarrow> (sleep_seconds q # sleeps, st)))"

section \<open>A cycle keeps the settings and refreshes the pool\<close>

lemma cycle_check_settings:
  "db_settings db = Some ms \<Longrightarrow> run_check cfg hc c allowed now (db, hw) = (q, db', hw') \<Longrightarrow> db_settings db' = Some ms"
  by (auto simp: run_check_def settings_present Let_def save_component_def add_result_def split: prod.splits sum.splits)

lemma run_checks_settings:
  "db_settings db = Some ms \<Longrightarrow> run_checks cfg hc cs allowed clock (db, hw) = (q, db', hw') \<Longrightarrow> db_settings db' = Some ms"
proof (induction cs arbitrary: db hw q db' hw')
  case (Cons c cs)
  obtain q1 db1 hw1 where 1: "run_check cfg hc c (Some allowed) (clock (mc_id c)) (db, hw) = (q1, db1, hw1)" by (metis prod_cases3)
  then have s: "db_settings db1 = Some ms" using cycle_check_settings [OF Cons.prems(1)] by blast
  show ?case
  proof (cases q1)
    case (Inr r)
    obtain q2 db2 hw2 where "run_checks cfg hc cs allowed clock (db1, hw1) = (q2, db2, hw2)" by (metis prod_cases3)
    with Cons.IH [OF s this] Cons.prems(2) 1 Inr show ?thesis by (auto split: sum.splits)
  qed (use Cons.prems(2) 1 s in simp)
qed simp

lemma run_due_settings:
  assumes "db_settings db = Some ms" "run_due_checks cfg sha hc wan nd np clock (db, hw) = (q, db', hw')"
  shows "db_settings db' = Some ms"
  using assms by (auto simp: run_due_checks_def list_due_components_def settings_present Let_def
      dest: run_checks_settings split: prod.splits sum.splits)

lemma cycle_settings:
  assumes "stored_settings_valid db" "\<not> isl (validate_speed_test_url_template (default_speed_test_url_template cfg))"
    and "run_scheduler_cycle cfg digest sha w (sv, db, hw) = (q, sv', db', hw')"
  shows "stored_settings_valid db' \<and> 5 \<le> sleep_seconds q \<and> sleep_seconds q \<le> 3600"
proof (cases "cw_fails w")
  case None
  obtain ms db1 where g: "get_monitoring_settings cfg db = (ms, db1)" by fastforce
  note valid = get_settings_valid [OF assms(1,2) g]
  obtain r db2 hw2 where r: "run_due_checks cfg sha (cw_check w) (cw_host_wan w) (cw_due w) (cw_pick w) (cw_clock w) (db1, hw) = (r, db2, hw2)"
    by (metis prod_cases3)
  then have "db_settings db2 = Some ms" using run_due_settings valid by blast
  with valid assms(3) g r None show ?thesis
    by (auto simp: run_scheduler_cycle_def Let_def sleep_seconds_def stored_settings_valid_def settings_valid_def between_def split: sum.splits)
qed (use assms in \<open>auto simp: run_scheduler_cycle_def sleep_seconds_def\<close>)

lemma cycle_pool:
  "run_scheduler_cycle cfg digest sha w (sv, db, hw) = (q, sv', db', hw') \<Longrightarrow> sv' = sv \<or> sv' = sync cfg digest db sv"
  by (auto simp: run_scheduler_cycle_def Let_def split: option.splits prod.splits sum.splits)

text \<open>The pool follows the database in every cycle that gets to it, also when a check of the cycle raises.\<close>

lemma failing_checks_do_not_stop_sync:
  assumes "cw_fails w = None" "run_scheduler_cycle cfg digest sha w (sv, db, hw) = (q, sv', db', hw')"
  shows "sv' = sync cfg digest db sv"
  using assms by (auto simp: run_scheduler_cycle_def Let_def split: prod.splits sum.splits)

lemma sync_inv: "supervisor_inv sv \<Longrightarrow> supervisor_inv (sync cfg digest db sv)"
  using sync_map by (simp add: sync_def)

lemma stop_all_ends_pool:
  assumes "supervisor_inv sv"
  shows "supervisor_inv (stop_all sv) \<and> sv_workers (stop_all sv) = []"
proof -
  have inv: "supervisor_inv (stop_all sv)"
    and gone: "map_of (sv_snapshots (stop_all sv)) k = (if k \<in> set (map fst (sv_workers sv)) then None else map_of (sv_snapshots sv) k)" for k
    using supervised.fold_stop [OF assms, of "map fst (sv_workers sv)"] by (auto simp: stop_all_def)
  have "map_of (sv_snapshots (stop_all sv)) k = None" for k
    using gone [of k] supervisor_keys [OF assms, of k] by (cases "k \<in> set (map fst (sv_workers sv))") auto
  then have "sv_snapshots (stop_all sv) = []" by (metis list.set_map map_of_eq_None_iff image_is_empty set_empty2 equals0I image_eqI)
  with inv have "sv_workers (stop_all sv) = []" unfolding supervisor_inv_def by (metis map_is_Nil_conv)
  with inv show ?thesis by blast
qed

lemma all_told_to_stop: "supervisor_inv sv \<Longrightarrow> sv_workers sv = [] \<Longrightarrow> set (sv_stopped sv) = {..<sv_started sv}"
  unfolding supervisor_inv_def by (metis Un_empty_right image_empty list.set(1))

text \<open>
  C22. Nothing stops the worker but its end: whatever the cycles meet (a database that is away, a check that raises), every cycle is
  followed by a sleep of 5 to 3600 seconds and the next cycle, as long as the API stores only settings it validates; and when the
  process ends, the pool is empty and every thread that was ever started was told to stop.
\<close>
theorem worker_survives_failures:
  assumes "supervisor_inv sv" "stored_settings_valid db"
    and "\<not> isl (validate_speed_test_url_template (default_speed_test_url_template cfg))"
    and "\<forall>w \<in> set ws. \<forall>db. stored_settings_valid db \<longrightarrow> stored_settings_valid (cw_before w db)"
    and "worker_loop cfg digest sha ws (sv, db, hw) = (sleeps, sv', db', hw')"
  shows "length sleeps = length ws \<and> (\<forall>s \<in> set sleeps. 5 \<le> s \<and> s \<le> 3600)
    \<and> sv_workers sv' = [] \<and> set (sv_stopped sv') = {..<sv_started sv'}"
  using assms(1,2,4,5)
proof (induction ws arbitrary: sv db hw sleeps)
  case Nil
  then have "sleeps = []" "sv' = stop_all sv" by simp_all
  with stop_all_ends_pool [OF Nil.prems(1)] all_told_to_stop show ?case by simp
next
  case (Cons w ws)
  obtain q sv1 db1 hw1 where c: "run_scheduler_cycle cfg digest sha w (sv, cw_before w db, hw) = (q, sv1, db1, hw1)" by (metis prod_cases4)
  obtain rest st where r: "worker_loop cfg digest sha ws (sv1, db1, hw1) = (rest, st)" by (cases "worker_loop cfg digest sha ws (sv1, db1, hw1)")
  with Cons.prems(4) c have out: "sleeps = sleep_seconds q # rest" "st = (sv', db', hw')" by simp_all
  have "supervisor_inv sv1" using cycle_pool [OF c] Cons.prems(1) sync_inv by auto
  moreover have s: "stored_settings_valid db1 \<and> 5 \<le> sleep_seconds q \<and> sleep_seconds q \<le> 3600"
    using cycle_settings [OF _ assms(3) c] Cons.prems(2,3) by simp
  ultimately show ?case using Cons.IH [of sv1 db1 hw1 rest] Cons.prems(3) r out by simp
qed

definition away :: cycle_world where
  "away = \<lparr>cw_before = (\<lambda>db. db), cw_fails = Some (py_exn.OtherError ''connection refused''), cw_check = sample_check,
     cw_host_wan = no_wan, cw_due = 0, cw_pick = 0, cw_clock = (\<lambda>_. 0)\<rparr>"

lemma worker_survives_failures_witness:
  "case worker_loop sample_cfg (\<lambda>_. []) (\<lambda>s. s) [away, away\<lparr>cw_fails := None\<rparr>] (new_supervisor, empty_database, fresh_process None) of
     (sleeps, sv, _) \<Rightarrow> length sleeps = 2 \<and> (\<forall>s \<in> set sleeps. 5 \<le> s \<and> s \<le> 3600) \<and> sv_workers sv = []"
proof -
  have "\<not> isl (validate_speed_test_url_template (default_speed_test_url_template sample_cfg))" by code_simp
  moreover have "stored_settings_valid empty_database" by (simp add: stored_settings_valid_def empty_database_def)
  moreover have "\<forall>w \<in> set [away, away\<lparr>cw_fails := None\<rparr>]. \<forall>db. stored_settings_valid db \<longrightarrow> stored_settings_valid (cw_before w db)"
    by (simp add: away_def)
  moreover obtain sleeps sv db hw where run: "worker_loop sample_cfg (\<lambda>_. []) (\<lambda>s. s) [away, away\<lparr>cw_fails := None\<rparr>]
      (new_supervisor, empty_database, fresh_process None) = (sleeps, sv, db, hw)" by (metis prod_cases4)
  ultimately show ?thesis using worker_survives_failures [OF supervisor_inv_new _ _ _ run] by simp
qed

end
