(* ===== verification/Api.thy ===== *)
theory Api
  imports Middleware AdminApi Incidents TunnelMetrics
begin

text \<open>
  The API as a whole: the public routes of \<open>src/app/api/routes/public_status.py\<close>, the health route of \<open>src/app/main.py\<close>, the
  exception handlers the application registers (\<open>src/app/middleware/global_exception.py\<close>) and a request on its way through
  the middleware to its route and back. How pydantic writes an answer or describes a rejected body, and how Starlette writes
  a cookie, are functions of the environment.
\<close>

section \<open>Public routes\<close>

datatype public_request =
    PublicProjects int
  | PublicProject string
  | PublicHistory string
  | PublicSystem string "day option" int
  | PublicTunnel string string int

datatype public_answer =
    SummariesAnswer "PublicProjectSummary list"
  | ProjectStatusAnswer PublicProjectStatus
  | HistoryAnswer PublicProjectHistory
  | SystemStatusAnswer PublicSystemStatus
  | TunnelAnswer PublicTunnelMetrics

fun public_query_ok :: "public_request \<Rightarrow> bool" where
  \<comment> \<open>the bounds of the query parameters\<close>
  "public_query_ok (PublicProjects limit) = between 1 500 limit"
| "public_query_ok (PublicSystem _ _ days) = between 7 365 days"
| "public_query_ok (PublicTunnel _ _ hours) = between 2 24 hours"
| "public_query_ok _ = True"

fun public_handler :: "(instant \<Rightarrow> int) \<Rightarrow> instant \<Rightarrow> public_request \<Rightarrow> database \<Rightarrow> public_answer res" where
  "public_handler utcoffset now (PublicProjects limit) db = Inr (SummariesAnswer (list_projects limit 90 now db))"
| "public_handler utcoffset now (PublicProject slug) db = map_sum id ProjectStatusAnswer (get_project_status slug db)"
| "public_handler utcoffset now (PublicHistory slug) db = map_sum id HistoryAnswer (get_public_history utcoffset slug 200 db)"
| "public_handler utcoffset now (PublicSystem slug end_day days) db =
     map_sum id SystemStatusAnswer (get_system_status slug end_day days now db)"
| "public_handler utcoffset now (PublicTunnel slug service_slug hours) db =
     map_sum id TunnelAnswer (get_tunnel_metrics slug service_slug hours now db)"

definition public_route :: "(instant \<Rightarrow> int) \<Rightarrow> instant \<Rightarrow> public_request \<Rightarrow> database \<Rightarrow> public_answer res" where
  "public_route utcoffset now rq db = (if public_query_ok rq then public_handler utcoffset now rq db else Inl ValidationError)"

definition health :: "string \<Rightarrow> bool \<Rightarrow> json" where
  \<comment> \<open>the version, and whether the database answered\<close>
  "health version reachable =
     JObj [(''status'', JStr ''ok''), (''database'', JStr (if reachable then ''ok'' else ''error'')), (''version'', JStr version)]"

section \<open>Exceptions the application handles\<close>

record validation_error =
  ve_loc :: "string list"
  ve_msg :: string

definition http_exception_handler :: "json_codec \<Rightarrow> string \<Rightarrow> string option \<Rightarrow> int \<Rightarrow> json \<Rightarrow> http_answer" where
  "http_exception_handler jc path trace_id status detail =
     (if should_skip_request path then json_response jc (JObj [(''detail'', JStr (http_exception_detail jc detail))]) status
      else error_json jc trace_id status (http_exception_message detail) (Some (http_exception_detail jc detail)))"

definition validation_exception_handler :: "json_codec \<Rightarrow> string option \<Rightarrow> validation_error list \<Rightarrow> http_answer" where
  "validation_exception_handler jc trace_id errors =
     (let detail = join ''; '' (map (\<lambda>e. join ''.'' (filter (\<lambda>part. part \<noteq> ''body'') (ve_loc e)) @ '': '' @ ve_msg e) errors)
      in error_json jc trace_id 422 ''Validation failed.'' (if detail = [] then None else Some detail))"

definition rate_limit_handler :: "json_codec \<Rightarrow> string option \<Rightarrow> string \<Rightarrow> http_answer" where
  "rate_limit_handler jc trace_id detail =
     error_json jc trace_id 429 ''Too many requests. Please try again later.'' (Some detail)"

fun handled :: "json_codec \<Rightarrow> string \<Rightarrow> string option \<Rightarrow> validation_error list \<Rightarrow> py_exn \<Rightarrow> exn + http_answer" where
  \<comment> \<open>the registered handlers, 429 being raised by the rate limiter alone; any other exception passes on to the middleware\<close>
  "handled jc path tr errors (HTTPException status detail) =
     Inr (if status = 429 then rate_limit_handler jc tr detail else http_exception_handler jc path tr status (JStr detail))"
| "handled jc path tr errors ValidationError = Inr (validation_exception_handler jc tr errors)"
| "handled jc path tr errors (ValueError s) = Inl (Exn Value s None None)"
| "handled jc path tr errors (IntegrityError s) = Inl (Exn Integrity s None None)"
| "handled jc path tr errors (TypeError s) = Inl (Exn Other s None None)"
| "handled jc path tr errors (py_exn.OtherError s) = Inl (Exn Other s None None)"

section \<open>A request\<close>

datatype api_request = AuthApi auth_request | PublicApi public_request | AdminApi admin_request

datatype api_answer = AuthApiAnswer auth_answer | PublicApiAnswer public_answer | AdminApiAnswer admin_answer

fun route_prefix :: "api_request \<Rightarrow> string" where
  "route_prefix (AuthApi _) = ''/api/auth''"
| "route_prefix (PublicApi _) = ''/api/status''"
| "route_prefix (AdminApi _) = ''/api/admin''"

fun admin_status :: "admin_request \<Rightarrow> int" where
  \<comment> \<open>the status of the answer when the handler returns\<close>
  "admin_status (ProjectRequest (PostProject _)) = 201"
| "admin_status (ProjectRequest (RemoveProject _)) = 204"
| "admin_status (KindRequest (PostKind _)) = 201"
| "admin_status (KindRequest (RemoveKind _)) = 204"
| "admin_status (GroupRequest (PostGroup _)) = 201"
| "admin_status (GroupRequest (RemoveGroup _)) = 204"
| "admin_status (ComponentRequest (PostComponent _)) = 201"
| "admin_status (ComponentRequest (RemoveComponent _)) = 204"
| "admin_status (IncidentApiRequest (IncidentRequest (CreateIncident _ _))) = 201"
| "admin_status (IncidentApiRequest (IncidentRequest (DeleteIncident _))) = 204"
| "admin_status (IncidentApiRequest (IncidentRequest (AddUpdate _ _))) = 201"
| "admin_status (IncidentApiRequest (IncidentRequest (DeleteUpdate _))) = 204"
| "admin_status _ = 200"

fun auth_status :: "auth_answer \<Rightarrow> int" where
  "auth_status NoContent = 204"
| "auth_status _ = 200"

record 'w api_env =
  av_codec :: json_codec
  av_encode :: "api_answer \<Rightarrow> json" \<comment> \<open>pydantic's serialisation of the response model\<close>
  av_cookie :: "set_cookie \<Rightarrow> string" \<comment> \<open>Starlette's \<open>Set-Cookie\<close> line\<close>
  av_errors :: "api_request \<Rightarrow> validation_error list" \<comment> \<open>pydantic's account of a rejected request\<close>
  av_crypto :: crypto
  av_outside :: auth_outside
  av_utcoffset :: "instant \<Rightarrow> int"
  av_admin :: "'w admin_env"

record arrival =
  \<comment> \<open>the request as it arrives\<close>
  ar_rest :: string \<comment> \<open>the path after the prefix of its router\<close>
  ar_headers :: "(string \<times> string) list"
  ar_scheme :: string
  ar_fresh_trace :: string
  ar_limit :: "string option" \<comment> \<open>the rate limit it exceeds\<close>
  ar_http :: http_request
  ar_now :: instant

type_synonym route_result = "(int \<times> api_answer \<times> set_cookie list) res"

fun api_route :: "settings \<Rightarrow> 'w api_env \<Rightarrow> arrival \<Rightarrow> api_request \<Rightarrow> 'w admin_state \<Rightarrow> (route_result \<times> 'w admin_state) option" where
  "api_route cfg av ar (AuthApi rq) (db, rest) =
     Some (case auth_route cfg (av_crypto av) (av_outside av) (ar_limit ar) (ar_http ar) (ar_now ar) rq db of
       (q, db) \<Rightarrow> (map_sum id (\<lambda>(a, cookies). (auth_status a, AuthApiAnswer a, cookies)) q, db, rest))"
| "api_route cfg av ar (PublicApi rq) (db, rest) =
     Some (map_sum id (\<lambda>a. (200, PublicApiAnswer a, [])) (public_route (av_utcoffset av) (ar_now ar) rq db), db, rest)"
| "api_route cfg av ar (AdminApi rq) st =
     map_option (\<lambda>(q, st). (map_sum id (\<lambda>a. (admin_status rq, AdminApiAnswer a, [])) q, st))
       (admin_route cfg (av_crypto av) (av_admin av) (ar_http ar) (ar_now ar) rq st)"

definition route_outcome :: "'w api_env \<Rightarrow> string \<Rightarrow> string option \<Rightarrow> api_request \<Rightarrow> route_result \<Rightarrow> exn + http_answer" where
  "route_outcome av path tr rq q =
     (case q of
        Inl e \<Rightarrow> handled (av_codec av) path tr (av_errors av rq) e
      | Inr (status, a, cookies) \<Rightarrow>
          Inr \<lparr>ha_status = status, ha_content_type = ''application/json'', ha_cookies = map (av_cookie av) cookies, ha_trace = None,
               ha_redirect = False, ha_body = if status = 204 then [] else jc_render (av_codec av) (av_encode av a)\<rparr>)"

definition api_path :: "arrival \<Rightarrow> api_request \<Rightarrow> string" where
  "api_path ar rq = route_prefix rq @ ar_rest ar"

definition api_serve ::
  "settings \<Rightarrow> 'w api_env \<Rightarrow> bool \<Rightarrow> arrival \<Rightarrow> api_request \<Rightarrow> 'w admin_state \<Rightarrow> ((exn + http_answer) \<times> 'w admin_state) option" where
  \<comment> \<open>the route runs only behind the HTTPS guard\<close>
  "api_serve cfg av require_https ar rq st =
     (let path = api_path ar rq;
          answer = serve (av_codec av) require_https path (ar_headers ar) (ar_scheme ar) (ar_fresh_trace ar)
      in if require_https_ok require_https path (ar_headers ar) (ar_scheme ar)
         then map_option (\<lambda>(q, st). (answer (\<lambda>tr. route_outcome av path (Some tr) rq q), st)) (api_route cfg av ar rq st)
         else Some (answer (\<lambda>tr. Inl (Exn Cancelled [] None None)), st))"

section \<open>Every request is answered\<close>

fun exception_status :: "py_exn \<Rightarrow> int" where
  "exception_status (HTTPException status _) = status"
| "exception_status ValidationError = 422"
| "exception_status (ValueError _) = 400"
| "exception_status (IntegrityError _) = 409"
| "exception_status _ = 500"

lemma api_path_not_skipped [simp]: "\<not> should_skip_request (api_path ar rq)"
  by (cases rq) (simp_all add: api_path_def should_skip_request_def)

lemma dispatch_raised:
  "\<not> should_skip_request path \<Longrightarrow> \<exists>m d. dispatch jc path tr (Inl x) = Inr (error_json jc tr (exn_status x) m d)"
  by (cases "kind_of x") (auto simp: dispatch_def exn_status_def handle_cancelled_def map_exception_to_response_def)

lemma dispatch_envelope:
  assumes "codec_ok jc" "\<not> should_skip_request path" "is_api_response_payload p" "status \<noteq> 204"
  shows "dispatch jc path tr (Inr (json_response jc p status)) = Inr (json_response jc p status)"
  using assms
  by (simp add: dispatch_def normalize_success_response_def json_response_def codec_ok_def copy_set_cookie_headers_def)

lemma dispatch_handled:
  assumes "codec_ok jc" "\<not> should_skip_request path" "exception_status e \<noteq> 204"
  shows "\<exists>m d. dispatch jc path tr (handled jc path tr errors e) = Inr (error_json jc tr (exception_status e) m d)"
proof (cases "handled jc path tr errors e")
  case (Inl x)
  then have "exn_status x = exception_status e" by (cases e) (auto simp: exn_status_def split: if_splits)
  with dispatch_raised [OF assms(2), of jc tr x] Inl show ?thesis by metis
next
  case (Inr r)
  have "\<exists>m d. r = error_json jc tr (exception_status e) m d"
  proof (cases e)
    case (HTTPException status detail)
    with Inr assms(2) show ?thesis
      by (cases "status = 429") (auto simp: http_exception_handler_def rate_limit_handler_def)
  qed (use Inr in \<open>auto simp: validation_exception_handler_def Let_def\<close>)
  then obtain m d where "r = error_json jc tr (exception_status e) m d" by blast
  then have "r = json_response jc (error_payload m (exception_status e) d tr) (exception_status e)" by (simp add: error_json_def)
  with dispatch_envelope [OF assms(1,2) _ assms(3), of "error_payload m (exception_status e) d tr" tr] Inr show ?thesis
    by (auto simp: error_json_def)
qed

lemma trace_of_error: "ha_trace (set_trace_header t (error_json jc (Some t) s m d)) = Some t"
  by (cases t) (auto simp: set_trace_header_def error_json_def json_response_def payload_trace_def error_payload_def jget_def)

lemma trace_set [simp]:
  "payload_of jc (set_trace_header t a) = payload_of jc a" "ha_status (set_trace_header t a) = ha_status a"
  "ha_cookies (set_trace_header t a) = ha_cookies a" "\<exists>y. ha_trace (set_trace_header t a) = Some y"
  by (auto simp: set_trace_header_def payload_of_def)

lemma dispatch_result:
  assumes "codec_ok jc" "\<not> should_skip_request path"
    and "ha_content_type r = ''application/json''" "\<not> ha_redirect r" "ha_status r < 400"
    and "ha_status r \<noteq> 204 \<longrightarrow> ha_body r = jc_render jc j"
  shows "\<exists>a p. dispatch jc path tr (Inr r) = Inr a \<and> payload_of jc a = Some p \<and> ha_trace a = payload_trace p
    \<and> (if ha_status r = 204 then ha_status a = 200 \<and> p = success_payload JNull \<and> ha_cookies a = []
       else ha_status a = ha_status r \<and> p = (if is_api_response_payload j then j else success_payload j) \<and> ha_cookies a = ha_cookies r)"
proof -
  have json: "contains ''application/json'' ''application/json''" by code_simp
  show ?thesis
    using assms json
    by (auto simp: dispatch_def normalize_success_response_def codec_ok_def payload_of_def json_response_def copy_set_cookie_headers_def)
qed

lemma trace_header: "ha_trace a = payload_trace p \<Longrightarrow>
    ha_trace (set_trace_header t a) = Some (case payload_trace p of None \<Rightarrow> t | Some own \<Rightarrow> own)"
  by (auto simp: set_trace_header_def split: option.split)

lemma auth_status_cases: "auth_status x \<noteq> 200 \<Longrightarrow> auth_status x = 204"
  by (cases x) simp_all

lemma map_sum_Inr: "map_sum id f z = Inr y \<longleftrightarrow> (\<exists>x. z = Inr x \<and> y = f x)"
  by (cases z) auto

lemma api_route_status:
  "api_route cfg av ar rq st = Some (Inr (status, x, cookies), st') \<Longrightarrow> status \<in> {200, 201, 204}"
proof (cases rq)
  case (AuthApi r)
  assume "api_route cfg av ar rq st = Some (Inr (status, x, cookies), st')"
  with AuthApi show ?thesis
    by (cases st) (auto split: prod.splits simp: map_sum_Inr auth_status_cases)
next
  case (PublicApi r)
  assume "api_route cfg av ar rq st = Some (Inr (status, x, cookies), st')"
  with PublicApi show ?thesis by (cases st) (auto simp: map_sum_Inr)
next
  case (AdminApi r)
  have "admin_status r \<in> {200, 201, 204}" by (rule admin_status.cases [of r]) simp_all
  moreover assume "api_route cfg av ar rq st = Some (Inr (status, x, cookies), st')"
  ultimately show ?thesis using AdminApi by (auto simp: map_sum_Inr)
qed

lemma no_content_handled:
  assumes "codec_ok jc" "\<not> should_skip_request path" "exception_status e = 204"
  shows "\<exists>a. dispatch jc path tr (handled jc path tr errors e) = Inr a
    \<and> ha_status a = 200 \<and> payload_of jc a = Some (success_payload JNull) \<and> ha_cookies a = [] \<and> ha_trace a = None"
proof -
  obtain detail where e: "e = HTTPException 204 detail" using assms(3) by (cases e) auto
  obtain r where r: "handled jc path tr errors e = Inr r" "ha_status r = 204" "\<not> ha_redirect r"
    using assms(2) by (simp add: e http_exception_handler_def error_json_def json_response_def)
  then show ?thesis
    using assms(1,2)
    by (simp add: dispatch_def normalize_success_response_def json_response_def payload_of_def codec_ok_def
        payload_trace_def success_payload_def jget_def)
qed

text \<open>What the answer to a route's result is: its payload, and the rest by the status.\<close>

definition answers :: "'w api_env \<Rightarrow> string \<Rightarrow> route_result \<Rightarrow> http_answer \<Rightarrow> json \<Rightarrow> bool" where
  "answers av t q a p \<longleftrightarrow>
     (case q of
        Inl e \<Rightarrow>
          if exception_status e = 204 then ha_status a = 200 \<and> p = success_payload JNull \<and> ha_cookies a = []
          else ha_status a = exception_status e \<and> (\<exists>m d. p = error_payload m (exception_status e) d (Some t))
      | Inr (status, x, cookies) \<Rightarrow>
          if status = 204 then ha_status a = 200 \<and> p = success_payload JNull \<and> ha_cookies a = []
          else ha_status a = status \<and> ha_cookies a = map (av_cookie av) cookies
            \<and> p = (if is_api_response_payload (av_encode av x) then av_encode av x else success_payload (av_encode av x)))"

lemma route_outcome_answered:
  assumes "codec_ok (av_codec av)" "\<not> should_skip_request path"
    and "\<forall>status x cookies. q = Inr (status, x, cookies) \<longrightarrow> status \<in> {200, 201, 204}"
  shows "\<exists>a p. dispatch (av_codec av) path (Some t) (route_outcome av path (Some t) rq q) = Inr a
    \<and> payload_of (av_codec av) a = Some p \<and> ha_trace a = payload_trace p \<and> answers av t q a p"
proof (cases q)
  case (Inl e)
  show ?thesis
  proof (cases "exception_status e = 204")
    case True
    from no_content_handled [OF assms(1,2) this, of "Some t" "av_errors av rq"] Inl True show ?thesis
      by (auto simp: route_outcome_def answers_def payload_trace_def success_payload_def jget_def)
  next
    case False
    from dispatch_handled [OF assms(1,2) this, of "Some t" "av_errors av rq"] obtain m d where
      "dispatch (av_codec av) path (Some t) (handled (av_codec av) path (Some t) (av_errors av rq) e)
        = Inr (error_json (av_codec av) (Some t) (exception_status e) m d)" by blast
    with assms(1) Inl False show ?thesis
      by (auto simp: route_outcome_def answers_def error_json_def json_response_def payload_of_def codec_ok_def)
  qed
next
  case (Inr v)
  obtain status x cookies where v: "v = (status, x, cookies)" by (cases v)
  define r where "r = \<lparr>ha_status = status, ha_content_type = ''application/json'', ha_cookies = map (av_cookie av) cookies, ha_trace = None,
    ha_redirect = False, ha_body = if status = 204 then [] else jc_render (av_codec av) (av_encode av x)\<rparr>"
  have "status < 400" using assms(3) Inr v by auto
  then obtain a p where "dispatch (av_codec av) path (Some t) (Inr r) = Inr a \<and> payload_of (av_codec av) a = Some p \<and> ha_trace a = payload_trace p
    \<and> (if ha_status r = 204 then ha_status a = 200 \<and> p = success_payload JNull \<and> ha_cookies a = []
       else ha_status a = ha_status r \<and> p = (if is_api_response_payload (av_encode av x) then av_encode av x else success_payload (av_encode av x))
         \<and> ha_cookies a = ha_cookies r)"
    using dispatch_result [OF assms(1,2), of r "av_encode av x" "Some t"] by (auto simp: r_def)
  with Inr v show ?thesis by (auto simp: route_outcome_def answers_def r_def)
qed


definition sample_api :: "unit admin_env \<Rightarrow> unit api_env" where
  "sample_api en = \<lparr>av_codec = sample_codec, av_encode = (\<lambda>_. JNull), av_cookie = sc_key, av_errors = (\<lambda>_. []),
     av_crypto = session_crypto, av_outside = plain_outside, av_utcoffset = (\<lambda>_. 0), av_admin = en\<rparr>"

definition viewer_arrival :: arrival where
  "viewer_arrival = \<lparr>ar_rest = ''/projects/i'', ar_headers = [(''x-trace-id'', ''t1'')], ar_scheme = ''https'', ar_fresh_trace = ''f'',
     ar_limit = None, ar_http = viewer_request, ar_now = 0\<rparr>"


end
