(* ===== verification/ApiSafety.thy ===== *)
theory ApiSafety
  imports Api
begin

text \<open>
  Who can change whose rights, over any sequence of requests to the whole API. The routes of the catalogue, of incidents, of
  monitoring and of DataGate leave accounts, roles and tokens alone; the routes under \<open>/api/auth\<close> only add accounts
  without rights; the administration of accounts asks for an administrator.
\<close>

section \<open>Routes that leave accounts alone\<close>

definition people :: "database \<Rightarrow> AccessRole list \<times> Account list \<times> RefreshToken list" where
  "people db = (db_roles db, db_accounts db, db_tokens db)"

definition core :: "database \<Rightarrow> MonitoringSettings option \<times> AccessRole list \<times> Account list \<times> RefreshToken list" where
  "core db = (db_settings db, people db)"

lemma people_of_core: "core db' = core db \<Longrightarrow> people db' = people db"
  by (simp add: core_def)

lemma core_updates [simp]:
  "core (db_projects_update f1 db) = core db" "core (db_groups_update f2 db) = core db" "core (db_kinds_update f3 db) = core db"
  "core (db_components_update f4 db) = core db" "core (db_results_update f5 db) = core db" "core (db_events_update f6 db) = core db"
  "core (db_samples_update f7 db) = core db" "core (db_incidents_update f8 db) = core db" "core (db_updates_update f9 db) = core db"
  "core (db_integrations_update f10 db) = core db"
  by (simp_all add: core_def people_def)

lemma people_settings_update [simp]: "people (db_settings_update f db) = people db"
  by (simp add: people_def)

lemma core_rows [simp]:
  "core (insert_project p db) = core db" "core (save_project p db) = core db" "core (delete_project_row i db) = core db"
  "core (insert_kind k db) = core db" "core (save_kind k db) = core db" "core (delete_kind_row i db) = core db"
  "core (insert_group g db) = core db" "core (save_group g db) = core db" "core (delete_group_row i db) = core db"
  "core (insert_component c db) = core db" "core (save_component c db) = core db"
  "core (delete_component_row i db) = core db" "core (insert_incident n db) = core db"
  "core (save_incident n db) = core db" "core (delete_incident_row i db) = core db" "core (add_result r db) = core db"
  by (simp_all add: insert_project_def save_project_def delete_project_row_def Let_def insert_kind_def save_kind_def delete_kind_row_def
      insert_group_def save_group_def delete_group_row_def insert_component_def save_component_def delete_component_row_def
      insert_incident_def save_incident_def delete_incident_row_def add_result_def)

lemmas people_updates [simp] = core_updates [THEN people_of_core]
lemmas people_rows [simp] = core_rows [THEN people_of_core]

lemma core_not_null: "core db' = core db \<Longrightarrow> core (snd (not_null bs row db' db)) = core db"
  by (simp add: not_null_def)

lemma people_not_null: "people db' = people db \<Longrightarrow> people (snd (not_null bs row db' db)) = people db"
  by (simp add: not_null_def)

lemma core_catalog [simp]:
  "core (snd (create_project fresh_id pc now db)) = core db" "core (snd (update_project i pu db)) = core db"
  "core (snd (delete_project i db)) = core db" "core (snd (create_kind fresh_id kc db)) = core db"
  "core (snd (update_kind i ku db)) = core db" "core (snd (delete_kind i db)) = core db"
  "core (snd (create_group fresh_id gc db)) = core db" "core (snd (update_group i gu db)) = core db"
  "core (snd (delete_group i db)) = core db" "core (snd (create_component fresh_id cc db)) = core db"
  "core (snd (update_component i cu db)) = core db" "core (snd (delete_component i db)) = core db"
  by (auto simp: create_project_def update_project_def delete_project_def create_kind_def update_kind_def delete_kind_def
      create_group_def update_group_def delete_group_def create_component_def update_component_def delete_component_def Let_def
      intro!: core_not_null split: sum.split)

lemma core_incidents [simp]:
  "core (snd (create_incident fresh_id i ic now db)) = core db" "core (snd (update_incident i ip db)) = core db"
  "core (snd (delete_incident i db)) = core db" "core (snd (add_update fresh_id i uc now db)) = core db"
  "core (snd (update_entry i uu db)) = core db" "core (snd (delete_update i db)) = core db"
  by (auto simp: create_incident_def update_incident_def delete_incident_def add_update_def update_entry_def delete_update_def Let_def
      split: sum.split option.split)

lemmas people_catalog [simp] = core_catalog [THEN people_of_core]
lemmas people_incidents [simp] = core_incidents [THEN people_of_core]

lemma people_settings [simp]: "people (snd (get_monitoring_settings cfg db)) = people db"
  by (simp add: get_monitoring_settings_def Let_def split: option.split)

lemma people_pair: "people (snd r) = p \<Longrightarrow> r = (x, d) \<Longrightarrow> people d = p"
  by simp

lemmas people_settings_pair = people_pair [OF people_settings]

lemma people_get_settings [simp]: "people (snd (get_settings cfg db)) = people db"
  by (simp add: get_settings_def)

lemma people_update_settings [simp]: "people (snd (update_settings cfg p db)) = people db"
  by (auto simp: update_settings_def Let_def dest: people_settings_pair intro!: people_not_null split: prod.split)

lemma people_advisory [simp]: "people (snd (get_speed_test_advisory cfg i db)) = people db"
  by (auto simp: get_speed_test_advisory_def Let_def dest: people_settings_pair split: prod.split sum.split)

lemma people_manual_check [simp]: "people (fst (snd (run_manual_check cfg check i now (db, hw)))) = people db"
  by (auto simp: run_manual_check_def run_check_def Let_def dest: people_settings_pair split: sum.split prod.split)

lemma people_purge [simp]: "people (snd (purge_check_history i keep db)) = people db"
  by (auto simp: purge_check_history_def purge_results_def purge_events_def Let_def split: sum.split prod.split if_splits)

lemma people_monitoring [simp]: "people (fst (snd (monitoring_handler cfg check now rq (db, hw)))) = people db"
  by (cases rq) (simp_all add: case_prod_beta split: sum.split)

lemma core_pair: "core (snd r) = p \<Longrightarrow> r = (x, d) \<Longrightarrow> core d = p"
  by simp

lemma core_upsert [simp]: "core (snd (upsert cfg fx i p db)) = core db"
  by (auto simp: upsert_def Let_def split: sum.split option.split)

lemma core_import_match [simp]: "core (st_db (import_match dc integ project rq m st)) = core (st_db st)"
  by (auto simp: import_match_def add_item_def Let_def split: option.split sum.split prod.split)

lemma core_import_matches [simp]: "core (st_db (fold (import_match dc integ project rq) ms st)) = core (st_db st)"
  by (induction ms arbitrary: st) simp_all

lemma core_import_new: "import_new cfg fresh_id dc integ project s st = Some st' \<Longrightarrow> core (st_db st') = core (st_db st)"
  by (auto simp: import_new_def add_item_def Let_def split: option.splits sum.splits if_splits)

lemma core_import_new_all:
  "import_new_all cfg fresh_id dc integ project ss st = Some st' \<Longrightarrow> core (st_db st') = core (st_db st)"
  by (induction ss arbitrary: st) (auto dest: core_import_new split: option.splits)

lemma core_skip_new [simp]: "core (st_db (skip_new ss st)) = core (st_db st)"
proof -
  have "st_db (fold (\<lambda>s. add_item s ''skipped_new'' None None) ss st) = st_db st" for st
    by (induction ss arbitrary: st) (simp_all add: add_item_def)
  then show ?thesis by (simp add: skip_new_def)
qed

lemma core_import: "import_servers cfg nf fresh_id dc i rq db = Some (q, db') \<Longrightarrow> core db' = core db"
  by (auto simp: import_servers_def Let_def dest!: core_import_new_all split: option.splits sum.splits if_splits)

lemma core_datagate:
  "datagate_handler cfg fresh_id de i rq (db, w) = Some (q, db', w') \<Longrightarrow> core db' = core db"
proof (cases rq)
  case (PostImport p)
  assume "datagate_handler cfg fresh_id de i rq (db, w) = Some (q, db', w')"
  from import_handled [OF this [unfolded PostImport]] show ?thesis by (auto dest: core_import)
qed (auto simp: with_body_def dest: core_pair [OF core_upsert] split: prod.splits sum.splits)

lemmas people_datagate = core_datagate [THEN people_of_core]

lemma people_admin:
  assumes "admin_handler cfg en now a rq (db, hw, w) = Some (q, db', hw', w')" "\<not> about_accounts rq"
  shows "people db' = people db"
proof (cases rq)
  case (ProjectRequest r)
  with assms show ?thesis by (cases r) (auto simp: in_state_def with_body_def snd_page split: sum.splits)
next
  case (KindRequest r)
  with assms show ?thesis by (cases r) (auto simp: in_state_def with_body_def snd_page split: sum.splits)
next
  case (GroupRequest r)
  with assms show ?thesis by (cases r) (auto simp: in_state_def with_body_def snd_page split: sum.splits)
next
  case (ComponentRequest r)
  with assms show ?thesis by (cases r) (auto simp: in_state_def with_body_def snd_page split: sum.splits)
next
  case (IncidentApiRequest r)
  with assms show ?thesis
    by (cases r rule: incident_roles.cases) (auto simp: in_state_def with_body_def incident_row_def split: sum.splits)
next
  case (DatagateRequest i r)
  with assms show ?thesis by (auto dest: people_datagate)
next
  case (MonitoringRequest r)
  have "monitoring_handler cfg (ae_check en) now r (db, hw) = (x, d, h) \<Longrightarrow> people d = people db" for x d h
    using people_monitoring [of cfg "ae_check en" now r db hw] by simp
  with assms MonitoringRequest show ?thesis by (auto split: if_splits prod.splits)
qed (use assms in auto)

section \<open>Sequences of requests\<close>

type_synonym api_event = "arrival \<times> api_request"

fun api_run :: "settings \<Rightarrow> 'w api_env \<Rightarrow> bool \<Rightarrow> api_event list \<Rightarrow> 'w admin_state \<Rightarrow> 'w admin_state option" where
  \<comment> \<open>\<open>None\<close>: an import in it never returns\<close>
  "api_run cfg av require_https [] st = Some st"
| "api_run cfg av require_https ((ar, rq) # events) st =
     (case api_serve cfg av require_https ar rq st of
        None \<Rightarrow> None | Some (answer, st) \<Rightarrow> api_run cfg av require_https events st)"

definition administrator_asks :: "settings \<Rightarrow> 'w api_env \<Rightarrow> api_event \<Rightarrow> database \<Rightarrow> Account \<Rightarrow> bool" where
  \<comment> \<open>a request of account administration with the token of the administrator \<open>a\<close>\<close>
  "administrator_asks cfg av e db a \<longleftrightarrow>
     (\<exists>r. snd e = AdminApi (AccountRequest r))
     \<and> get_current_account cfg (av_crypto av) (ar_http (fst e)) (ar_now (fst e)) db = Inr a \<and> ''admin'' \<in> set (ac_access_roles a)"

lemma same_people: "people db' = people db \<Longrightarrow> accounts_step db db'"
  by (rule accounts_step_same) (simp add: people_def same_accounts_def)

lemma api_serve_state:
  assumes "api_serve cfg av require_https ar rq st = Some (answer, st')"
  shows "st' = st \<or> (\<exists>q. api_route cfg av ar rq st = Some (q, st'))"
  using assms by (auto simp: api_serve_def Let_def split: if_splits)

lemma account_handler_asked:
  assumes "admin_route cfg cx en http now rq (db, hw, w) = Some (q, db', hw', w')" "fresh_account_ids cx"
  shows "accounts_step db db'
    \<or> (\<exists>a r. rq = AccountRequest r \<and> get_current_account cfg cx http now db = Inr a \<and> ''admin'' \<in> set (ac_access_roles a)
          \<and> db' = snd (account_handler (ae_created en) r db))"
proof (cases "require_access_roles cfg cx (admin_roles rq) http now db")
  case (Inr a)
  then have a: "get_current_account cfg cx http now db = Inr a" "set (ac_access_roles a) \<inter> set (admin_roles rq) \<noteq> {}"
    by (auto simp: require_access_roles_def split: sum.splits if_splits)
  have run: "admin_handler cfg en now a rq (db, hw, w) = Some (q, db', hw', w')" using assms(1) Inr by (simp add: admin_route_def)
  show ?thesis
  proof (cases rq)
    case (AccountRequest r)
    with a run show ?thesis by (auto simp: in_state_def)
  qed (use people_admin [OF run] same_people in simp_all)
qed (use assms in \<open>auto simp: admin_route_def\<close>)

lemma api_step:
  assumes "api_serve cfg av require_https ar rq st = Some (answer, st')" "fresh_account_ids (av_crypto av)"
  shows "accounts_step (fst st) (fst st')
    \<or> (\<exists>a r. administrator_asks cfg av (ar, rq) (fst st) a \<and> fst st' = snd (account_handler (ae_created (av_admin av)) r (fst st)))"
  using api_serve_state [OF assms(1)]
proof (elim disjE exE)
  fix q assume route: "api_route cfg av ar rq st = Some (q, st')"
  obtain db hw w where st: "st = (db, hw, w)" by (cases st)
  show ?thesis
  proof (cases rq)
    case (AuthApi r)
    have "accounts_step db (snd (auth_route cfg (av_crypto av) (av_outside av) (ar_limit ar) (ar_http ar) (ar_now ar) r db))"
      by (rule step_auth_route [OF assms(2)])
    with route AuthApi st show ?thesis by (auto split: prod.splits)
  next
    case (PublicApi r)
    with route st show ?thesis by auto
  next
    case (AdminApi r)
    obtain db' hw' w' where st': "st' = (db', hw', w')" by (cases st')
    from route AdminApi st st' obtain p where "admin_route cfg (av_crypto av) (av_admin av) (ar_http ar) (ar_now ar) r (db, hw, w) = Some (p, db', hw', w')"
      by auto
    from account_handler_asked [OF this assms(2)] AdminApi st st' show ?thesis by (auto simp: administrator_asks_def)
  qed
qed simp

section \<open>Accounts under the whole API\<close>

text \<open>
  Accounts stay consistent whatever the API is asked, by whomever: identifiers, addresses and linked Google identities are
  unique, every address is in lower case, and every account has at least one role, all of them roles that exist.
\<close>
theorem accounts_survive_api:
  assumes "fresh_account_ids (av_crypto av)" "accounts_wf (fst st)" "api_run cfg av require_https events st = Some st'"
  shows "accounts_wf (fst st')"
  using assms(2,3)
proof (induction events arbitrary: st)
  case (Cons e events)
  obtain ar rq where e: "e = (ar, rq)" by (cases e)
  then obtain answer st1 where step: "api_serve cfg av require_https ar rq st = Some (answer, st1)"
    and run: "api_run cfg av require_https events st1 = Some st'"
    using Cons.prems(2) by (auto split: option.splits)
  have "accounts_wf (fst st1)"
    using api_step [OF step assms(1)] accounts_wf_step [OF Cons.prems(1)] accounts_wf_admin [OF Cons.prems(1)] by metis
  then show ?case using run by (rule Cons.IH)
qed simp

definition newcomers :: "uuid list \<Rightarrow> rights list" where
  \<comment> \<open>active accounts with the public role\<close>
  "newcomers ids = map (\<lambda>i. (i, [DEFAULT_PUBLIC_ROLE_SLUG], True)) ids"

lemma newcomers_append: "newcomers (xs @ ys) = newcomers xs @ newcomers ys"
  by (simp add: newcomers_def)

text \<open>
  C2. Once an account exists, only an administrator changes rights: after any sequence of requests to the API, by anybody, every
  account has the roles and the active flag it had, next to new accounts with the public role, unless somewhere in the sequence a
  request of account administration came with the valid token of an account that was an administrator from the beginning. The
  database has an account at the start; in an empty one the first to sign up becomes the administrator without any token
  (\<open>default_role\<close>), and the theorem speaks of the time from then on.
\<close>
theorem rights_need_an_administrator:
  assumes "fresh_account_ids (av_crypto av)" "distinct (map ac_id (db_accounts (fst st)))" "db_accounts (fst st) \<noteq> []"
    and "api_run cfg av require_https events st = Some st'"
  shows "(\<exists>ids. account_rights (fst st') = account_rights (fst st) @ newcomers ids)
    \<or> (\<exists>before e after now a. events = before @ e # after \<and> api_run cfg av require_https before st = Some now
          \<and> administrator_asks cfg av e (fst now) a \<and> (ac_id a, ac_access_roles a, ac_is_active a) \<in> set (account_rights (fst st)))"
  using assms(2-4)
proof (induction events arbitrary: st)
  case Nil
  then show ?case by (auto simp: newcomers_def intro!: exI [of _ "[]"])
next
  case (Cons e events)
  obtain ar rq where e: "e = (ar, rq)" by (cases e)
  then obtain answer st1 where step: "api_serve cfg av require_https ar rq st = Some (answer, st1)"
    and run: "api_run cfg av require_https events st1 = Some st'"
    using Cons.prems(3) by (auto split: option.splits)
  from api_step [OF step assms(1)] show ?case
  proof (elim disjE exE conjE)
    fix a r assume asks: "administrator_asks cfg av (ar, rq) (fst st) a"
    then have "a \<in> set (db_accounts (fst st))" by (auto simp: administrator_asks_def dest: step_account_of_token)
    then have "(ac_id a, ac_access_roles a, ac_is_active a) \<in> set (account_rights (fst st))" by (auto simp: account_rights_def)
    with asks e show ?thesis by (intro disjI2 exI [of _ "[]"] exI [of _ e] exI [of _ events] exI [of _ st] exI [of _ a]) simp
  next
    assume "accounts_step (fst st) (fst st1)"
    note kept = rights_step [OF this Cons.prems(1,2)]
    then obtain ids where ids: "account_rights (fst st1) = account_rights (fst st) @ newcomers ids" by (auto simp: newcomers_def)
    have "distinct (map ac_id (db_accounts (fst st1)))" "db_accounts (fst st1) \<noteq> []" using kept by simp_all
    from Cons.IH [OF this run] show ?thesis
    proof (elim disjE exE conjE)
      fix more assume "account_rights (fst st') = account_rights (fst st1) @ newcomers more"
      with ids have "account_rights (fst st') = account_rights (fst st) @ newcomers (ids @ more)" by (simp add: newcomers_append)
      then show ?thesis by blast
    next
      fix before x after now a
      assume x: "events = before @ x # after" "api_run cfg av require_https before st1 = Some now"
        "administrator_asks cfg av x (fst now) a" "(ac_id a, ac_access_roles a, ac_is_active a) \<in> set (account_rights (fst st1))"
      have "(ac_id a, ac_access_roles a, ac_is_active a) \<notin> set (newcomers ids)"
        using x(3) by (auto simp: administrator_asks_def newcomers_def DEFAULT_PUBLIC_ROLE_SLUG_def)
      with x(4) ids have "(ac_id a, ac_access_roles a, ac_is_active a) \<in> set (account_rights (fst st))" by auto
      moreover have "api_run cfg av require_https (e # before) st = Some now" using e step x(2) by simp
      ultimately show ?thesis using x(1,3)
        by (intro disjI2 exI [of _ "e # before"] exI [of _ x] exI [of _ after] exI [of _ now] exI [of _ a]) simp
    qed
  qed
qed

section \<open>A sign-up and an attempt\<close>

lemma account_requests_return:
  "\<exists>answer st'. api_serve cfg av require_https ar (AuthApi r) st = Some (answer, st')"
  "\<exists>answer st'. api_serve cfg av require_https ar (AdminApi (AccountRequest q)) st = Some (answer, st')"
  by (cases st; auto simp: api_serve_def admin_route_def in_state_def Let_def split: sum.split prod.split)+

definition plain_api :: "unit admin_env \<Rightarrow> unit api_env" where
  "plain_api en = (sample_api en)\<lparr>av_crypto := route_crypto\<rparr>"

definition attempt :: "api_event list" where
  \<comment> \<open>a visitor signs up; somebody asks for the administrator's role\<close>
  "attempt = [(viewer_arrival, AuthApi (Register \<lparr>rg_email = ''b@x'', rg_password = ''long enough'', rg_full_name = None\<rparr>)),
     (viewer_arrival, AdminApi (AccountRequest (PutRoles ''a1'' [''admin''])))]"

definition user_state :: "unit admin_state" where
  "user_state = (role_database\<lparr>db_accounts := [sample_account\<lparr>ac_access_roles := [''user'']\<rparr>]\<rparr>, fresh_process None, ())"

lemma attempt_returns: "\<exists>st. api_run cfg av require_https attempt user_state = Some st"
proof -
  obtain answer st where "api_serve cfg av require_https viewer_arrival
      (AuthApi (Register \<lparr>rg_email = ''b@x'', rg_password = ''long enough'', rg_full_name = None\<rparr>)) user_state = Some (answer, st)"
    using account_requests_return(1) by metis
  moreover obtain answer' st' where "api_serve cfg av require_https viewer_arrival (AdminApi (AccountRequest (PutRoles ''a1'' [''admin'']))) st
      = Some (answer', st')"
    using account_requests_return(2) by metis
  ultimately show ?thesis by (cases st') (simp add: attempt_def)
qed

lemma user_state_wf: "accounts_wf (fst user_state)"
proof -
  have "lower ''a@x'' = ''a@x''" by code_simp
  then show ?thesis
    by (simp add: user_state_def accounts_wf_def linked_subs_def role_database_def sample_account_def role_exists_def lookup_row_def)
qed

lemma accounts_survive_api_witness:
  "\<forall>en. \<exists>st. api_run sample_cfg (plain_api en) False attempt user_state = Some st \<and> accounts_wf (fst st)"
proof
  fix en
  obtain st where st: "api_run sample_cfg (plain_api en) False attempt user_state = Some st" using attempt_returns by metis
  have "fresh_account_ids (av_crypto (plain_api en))" using route_crypto_fresh(1) by (simp add: plain_api_def)
  from accounts_survive_api [OF this user_state_wf st] st
  show "\<exists>st. api_run sample_cfg (plain_api en) False attempt user_state = Some st \<and> accounts_wf (fst st)" by blast
qed

lemma rights_need_an_administrator_witness:
  "\<forall>en. \<exists>st ids. api_run sample_cfg (plain_api en) False attempt user_state = Some st
     \<and> account_rights (fst st) = (''a1'', [''user''], True) # newcomers ids"
proof
  fix en
  obtain st where st: "api_run sample_cfg (plain_api en) False attempt user_state = Some st" using attempt_returns by metis
  have fresh: "fresh_account_ids (av_crypto (plain_api en))" using route_crypto_fresh(1) by (simp add: plain_api_def)
  have rights: "account_rights (fst user_state) = [(''a1'', [''user''], True)]"
    and "distinct (map ac_id (db_accounts (fst user_state)))" "db_accounts (fst user_state) \<noteq> []"
    by (simp_all add: user_state_def account_rights_def sample_account_def)
  from rights_need_an_administrator [OF fresh this(2,3) st]
  show "\<exists>st ids. api_run sample_cfg (plain_api en) False attempt user_state = Some st
     \<and> account_rights (fst st) = (''a1'', [''user''], True) # newcomers ids"
    using st by (auto simp: rights administrator_asks_def)
qed

end
