(* ===== verification/SystemSafety.thy ===== *)
theory SystemSafety
  imports ApiSafety Worker VpnCheck
begin

text \<open>
  The database under the whole system: requests to the API and cycles of the worker, in any order. Accounts and the rest of the
  database are written by different routes; each leaves the invariant of the other alone.
\<close>

section \<open>Accounts are written without the rest\<close>

definition content :: "database \<Rightarrow> database" where
  "content db = db\<lparr>db_roles := [], db_accounts := [], db_tokens := []\<rparr>"

lemma content_updates [simp]:
  "content (db_roles_update f1 db) = content db" "content (db_accounts_update f2 db) = content db"
  "content (db_tokens_update f3 db) = content db"
  by (simp_all add: content_def)

lemma content_rows [simp]:
  "content (update_account a db) = content db" "content (snd (create_account a db)) = content db"
  "content (snd (create_token cx aid e db)) = content db" "content (revoke_token t rb now db) = content db"
  "content (revoke_all_for_account aid now db) = content db"
  by (simp_all add: update_account_def create_account_def create_token_def revoke_token_def revoke_all_for_account_def Let_def)

lemma content_pair: "content (snd r) = p \<Longrightarrow> r = (x, d) \<Longrightarrow> content d = p"
  by simp

lemma content_issue_pair [simp]: "content (snd (issue_pair cfg cx aid now db)) = content db"
  by (simp add: issue_pair_snd)

lemma content_rotate [simp]: "content (snd (rotate_token cfg cx raw now db)) = content db"
  by (auto simp: rotate_token_def Let_def dest: content_pair [OF content_rows(3)] split: option.splits prod.splits)

lemma content_sign_in [simp]: "content (snd (sign_in cfg cx a now db)) = content db"
  by (cases "has_totp a") (simp_all add: sign_in_second_factor sign_in_tokens)

lemma content_register [simp]: "content (snd (register cfg cx email password full_name db)) = content db"
  by (auto simp: register_def split: sum.split)

lemma content_google_account [simp]: "content (snd (google_account cfg cx sub email full_name avatar db)) = content db"
  by (auto simp: google_account_def Let_def split: option.split sum.split)

lemma content_upsert_google [simp]: "content (snd (upsert_google_user cfg cx u now db)) = content db"
  by (auto simp: upsert_google_user_def upsert_google_account_def Let_def
      dest!: content_pair [OF content_google_account] content_pair [OF content_sign_in] split: sum.splits prod.splits)

lemma content_google_login [simp]: "content (snd (google_login cfg cx ao credential now db)) = content db"
  by (auto simp: google_login_def dest: content_pair [OF content_upsert_google] split: sum.splits prod.splits)

lemma content_login_route [simp]: "content (snd (login_route cfg cx email password now db)) = content db"
proof -
  have "content (snd (authenticate_password cfg cx email password now db)) = content db"
    by (simp add: authenticate_password_cases split: option.splits)
  then show ?thesis by (auto simp: login_route_def dest: content_pair split: prod.splits sum.splits)
qed

lemma content_login_2fa [simp]: "content (snd (login_2fa cfg cx token code now db)) = content db"
proof -
  have "content (snd (verify_mfa cfg cx token code now db)) = content db"
    by (simp add: verify_mfa_def issue_tokens_eq split: sum.split)
  then show ?thesis by (auto simp: login_2fa_def dest: content_pair split: prod.splits sum.splits)
qed

lemma content_refresh_route [simp]: "content (snd (refresh_route cfg cx http now db)) = content db"
proof -
  have "content (snd (refresh_session cfg cx raw now db)) = content db" for raw
    by (auto simp: refresh_session_def dest: content_pair [OF content_rotate] split: sum.splits py_exn.splits option.splits prod.splits)
  then show ?thesis by (auto simp: refresh_route_def dest: content_pair split: option.splits sum.splits prod.splits)
qed

lemma content_logout_route [simp]: "content (logout_route cfg cx http now db) = content db"
  by (simp add: logout_route_def logout_def revoke_raw_def revoke_all_def Let_def split: option.split)

lemma content_account_steps [simp]:
  "content (snd (link_password cx a password db)) = content db" "content (snd (setup_totp cx a db)) = content db"
  "content (snd (enable_totp cx a code db)) = content db" "content (snd (disable_totp cx a password code db)) = content db"
  "content (snd (set_roles aid roles db)) = content db" "content (snd (set_active aid active db)) = content db"
  by (auto simp: link_password_def setup_totp_def enable_totp_def disable_totp_def set_roles_def set_active_def Let_def split: option.split)

lemma content_with_account:
  assumes "\<And>a. content (snd (handler a db)) = content db"
  shows "content (snd (with_account cfg cx http now handler db)) = content db"
  using assms by (simp add: with_account_def split: sum.split)

lemma content_auth_handler: "content (snd (auth_handler cfg cx ao http now rq db)) = content db"
  by (cases rq) (simp_all add: case_prod_beta content_with_account)

lemma content_auth_route: "content (snd (auth_route cfg cx ao limit http now rq db)) = content db"
  using content_auth_handler by (auto simp: auth_route_def split: sum.split option.split bool.split)

lemma content_account_handler: "content (snd (account_handler created rq db)) = content db"
  by (cases rq) simp_all

section \<open>The catalogue and its children\<close>

definition consistent :: "database \<Rightarrow> bool" where
  "consistent db \<longleftrightarrow> catalog_wf db \<and> children_ok db"

lemma consistent_catalog_requests:
  assumes "fresh_catalog fresh_id" "consistent db"
  shows "consistent (snd (project_handler fresh_id now prq db))" "consistent (snd (kind_handler fresh_id created krq db))"
    "consistent (snd (group_handler fresh_id grq db))" "consistent (snd (component_handler cfg fresh_id created crq db))"
proof -
  have ok: "catalog_wf db" "children_ok db" using assms(2) by (simp_all add: consistent_def)
  note steps = wf_create_project wf_update_project wf_delete_project wf_create_kind wf_update_kind wf_delete_kind
    wf_create_group wf_update_group wf_delete_group wf_create_component wf_update_component wf_delete_component
    children_updates children_deletes
  show "consistent (snd (project_handler fresh_id now prq db))"
    using ok assms(1) by (cases prq) (auto simp: consistent_def with_body_def snd_page intro: steps split: sum.split)
  show "consistent (snd (kind_handler fresh_id created krq db))"
    using ok assms(1) by (cases krq) (auto simp: consistent_def with_body_def snd_page intro: steps split: sum.split)
  show "consistent (snd (group_handler fresh_id grq db))"
    using ok assms(1) by (cases grq) (auto simp: consistent_def with_body_def snd_page intro: steps split: sum.split)
  show "consistent (snd (component_handler cfg fresh_id created crq db))"
    using ok assms(1) by (cases crq) (auto simp: consistent_def with_body_def snd_page intro: steps split: sum.split)
qed

definition catalog_tables :: "database \<Rightarrow> Project list \<times> ComponentKind list \<times> ComponentGroup list \<times> MonitoredComponent list" where
  "catalog_tables db = (db_projects db, db_kinds db, db_groups db, db_components db)"

lemma catalog_wf_tables: "catalog_tables db' = catalog_tables db \<Longrightarrow> catalog_wf db' = catalog_wf db"
  by (simp add: catalog_tables_def catalog_wf_def group_ok_def component_ok_def)

section \<open>Incidents\<close>

definition incident_refs :: "database \<Rightarrow> Incident \<Rightarrow> bool" where
  "incident_refs db i \<longleftrightarrow> in_project_id i \<in> pr_id ` set (db_projects db)
     \<and> (\<forall>k. in_monitored_component_id i = Some k \<longrightarrow> k \<in> mc_id ` set (db_components db))"

lemma consistent_incident_tables:
  assumes "consistent db" "\<forall>i \<in> set rows. incident_refs db i" "\<forall>u \<in> set updates. iu_incident_id u \<in> in_id ` set rows"
  shows "consistent (db\<lparr>db_incidents := rows, db_updates := updates\<rparr>)"
  using assms by (auto simp: consistent_def children_ok_def incident_refs_def catalog_wf_def group_ok_def component_ok_def)

lemma resolve_component_refs: "resolve_component pid (Some k) db = Inr () \<Longrightarrow> k \<in> mc_id ` set (db_components db)"
  by (auto simp: resolve_component_def get_component_def dest: lookup_row_Some split: option.splits if_splits)

lemma incident_rows:
  assumes "consistent db"
  shows "\<forall>i \<in> set (db_incidents db). incident_refs db i" "\<forall>u \<in> set (db_updates db). iu_incident_id u \<in> in_id ` set (db_incidents db)"
  using assms by (auto simp: consistent_def children_ok_def incident_refs_def)

lemma consistent_create_incident:
  assumes "consistent db"
  shows "consistent (snd (create_incident fresh_id pid p now db))"
proof (cases "create_incident fresh_id pid p now db")
  case (Pair r db')
  show ?thesis
  proof (cases r)
    case (Inl e)
    with Pair assms create_incident_failure show ?thesis by fastforce
  next
    case (Inr x)
    have pr: "get_project pid db \<noteq> None" and res: "resolve_component pid (ic_component p) db = Inr ()"
      using Pair Inr by (auto simp: create_incident_def Let_def split: if_splits sum.splits)
    obtain i u where db': "db' = db\<lparr>db_incidents := db_incidents db @ [i], db_updates := db_updates db @ [u]\<rparr>"
      and i: "in_id i = iu_incident_id u" "in_project_id i = pid" "in_monitored_component_id i = ic_component p"
      using Pair Inr by (auto simp: create_incident_def insert_incident_def Let_def split: if_splits sum.splits)
    have "incident_refs db i"
      using pr res i get_project_mem [of pid db] by (auto simp: incident_refs_def dest: resolve_component_refs)
    with consistent_incident_tables [OF assms, of "db_incidents db @ [i]" "db_updates db @ [u]"] incident_rows [OF assms] i(1)
    have "consistent db'" unfolding db' by auto
    with Pair show ?thesis by simp
  qed
qed

lemma consistent_update_incident:
  assumes "consistent db"
  shows "consistent (snd (update_incident iid p db))"
proof (cases "update_incident iid p db")
  case (Pair r db')
  show ?thesis
  proof (cases r)
    case (Inl e)
    with Pair assms update_incident_failure show ?thesis by fastforce
  next
    case (Inr x)
    obtain i j where i: "get_incident iid db = Some i" and j: "db' = save_incident j db" "in_id j = in_id i" "in_project_id j = in_project_id i"
      and comp: "in_monitored_component_id j = in_monitored_component_id i \<or> in_monitored_component_id j = None
        \<or> resolve_component (in_project_id i) (in_monitored_component_id j) db = Inr ()"
      using Pair Inr by (auto simp: update_incident_def Let_def split: if_splits sum.splits option.splits)
    have mem: "i \<in> set (db_incidents db)" using i by (auto simp: get_incident_def dest: lookup_row_Some)
    then have "incident_refs db i" using incident_rows(1) [OF assms] by blast
    then have refs: "incident_refs db j"
      using comp j(3) by (auto simp: incident_refs_def dest: resolve_component_refs)
    have db': "db' = db\<lparr>db_incidents := replace_row in_id j (db_incidents db), db_updates := db_updates db\<rparr>"
      using j(1) by (simp add: save_incident_def)
    have "consistent db'"
      unfolding db' using incident_rows [OF assms] refs
      by (intro consistent_incident_tables [OF assms]) (auto dest: replace_row_mem)
    with Pair show ?thesis by simp
  qed
qed

lemma consistent_incident_deletes:
  assumes "consistent db"
  shows "consistent (snd (delete_incident iid db))" "consistent (snd (delete_update uid db))"
proof -
  note rows = incident_rows [OF assms]
  have "consistent (delete_incident_row iid db)"
    unfolding delete_incident_row_def using rows
    by (intro consistent_incident_tables [OF assms]) (auto simp: delete_row_def image_iff)
  then show "consistent (snd (delete_incident iid db))" using assms by (simp add: delete_incident_def)
  have "consistent (db\<lparr>db_incidents := db_incidents db, db_updates := delete_row iu_id uid (db_updates db)\<rparr>)"
    using rows by (intro consistent_incident_tables [OF assms]) (auto simp: delete_row_def)
  then show "consistent (snd (delete_update uid db))" using assms by (simp add: delete_update_def)
qed

lemma consistent_add_update:
  assumes "consistent db"
  shows "consistent (snd (add_update fresh_id iid p now db))"
proof (cases "get_incident iid db")
  case (Some i)
  then have "iid \<in> in_id ` set (db_incidents db)" using get_incident_mem [of iid db] by simp
  then have "consistent (db\<lparr>db_incidents := db_incidents db, db_updates := db_updates db @ [u]\<rparr>)" if "iu_incident_id u = iid" for u
    using that incident_rows [OF assms] by (intro consistent_incident_tables [OF assms]) auto
  with Some show ?thesis by (simp add: add_update_def Let_def)
qed (use assms in \<open>simp add: add_update_def\<close>)

lemma consistent_update_entry:
  assumes "consistent db"
  shows "consistent (snd (update_entry uid p db))"
proof (cases "lookup_row iu_id uid (db_updates db)")
  case (Some u)
  then have "u \<in> set (db_updates db)" by (auto dest: lookup_row_Some)
  then have "consistent (db\<lparr>db_incidents := db_incidents db, db_updates := replace_row iu_id v (db_updates db)\<rparr>)"
    if "iu_incident_id v = iu_incident_id u" for v
    using that incident_rows [OF assms] by (intro consistent_incident_tables [OF assms]) (auto dest: replace_row_mem)
  with Some assms show ?thesis by (auto simp: update_entry_def Let_def)
qed (use assms in \<open>simp add: update_entry_def\<close>)

lemma consistent_incident_handler:
  assumes "consistent db"
  shows "consistent (snd (incident_handler fresh_id now rq db))"
  using consistent_create_incident [OF assms] consistent_update_incident [OF assms] consistent_incident_deletes [OF assms]
    consistent_add_update [OF assms] consistent_update_entry [OF assms] assms
  by (cases rq rule: incident_roles.cases) (auto simp: with_body_def incident_row_def split: sum.split)

section \<open>Checks and history\<close>

definition same_keys :: "MonitoredComponent \<Rightarrow> MonitoredComponent \<Rightarrow> bool" where
  "same_keys c b \<longleftrightarrow> mc_id c = mc_id b \<and> component_slug c = component_slug b
     \<and> mc_component_kind_id c = mc_component_kind_id b \<and> mc_group_id c = mc_group_id b"

lemma same_keys_trans: "same_keys c b \<Longrightarrow> same_keys b' b \<Longrightarrow> same_keys c b'"
  by (simp add: same_keys_def)

lemma consistent_save_component:
  assumes "consistent db" "c \<in> set (db_components db)" "mc_id c' = mc_id c" "component_slug c' = component_slug c"
    "mc_component_kind_id c' = mc_component_kind_id c" "mc_group_id c' = mc_group_id c"
  shows "consistent (save_component c' db)"
proof -
  have wf: "catalog_wf db" using assms(1) by (simp add: consistent_def)
  have inj: "inj_on mc_id (set (db_components db))" using wf by (simp add: catalog_wf_def table_ok_def distinct_map)
  have slugs: "map component_slug (replace_row mc_id c' (db_components db)) = map component_slug (db_components db)"
    using assms(2-4) inj by (auto simp: replace_row_def dest: inj_onD)
  then have "table_ok mc_id component_slug (replace_row mc_id c' (db_components db))"
    using wf unfolding table_ok_def catalog_wf_def by (simp add: table_ok_def)
  moreover have "component_ok db c'"
    using wf assms(2-6) by (auto simp: catalog_wf_def component_ok_def)
  ultimately have "catalog_wf (save_component c' db)"
    using wf by (auto simp: catalog_wf_def save_component_def group_ok_def component_ok_def dest!: replace_row_mem)
  with assms(1) children_insert(8) show ?thesis by (simp add: consistent_def)
qed

lemma consistent_add_result:
  assumes "consistent db" "cr_monitored_component_id r \<in> mc_id ` set (db_components db)"
  shows "consistent (add_result r db)"
  using assms by (auto simp: consistent_def children_ok_def add_result_def catalog_wf_def group_ok_def component_ok_def)

lemma consistent_settings_row: "consistent db \<Longrightarrow> consistent (db\<lparr>db_settings := s\<rparr>)"
  by (simp add: consistent_def children_ok_def catalog_wf_def group_ok_def component_ok_def)

lemma consistent_get_settings: "consistent db \<Longrightarrow> get_monitoring_settings cfg db = (ms, db') \<Longrightarrow> consistent db' \<and> db_components db' = db_components db"
  by (auto simp: get_monitoring_settings_def Let_def consistent_settings_row split: option.splits)

lemma consistent_purge: "consistent db \<Longrightarrow> consistent (snd (purge_check_history cid keep db))"
  by (auto simp: purge_check_history_def purge_results_def purge_events_def Let_def consistent_def children_ok_def catalog_wf_def
      group_ok_def component_ok_def split: sum.splits prod.splits if_splits)

section \<open>Imported components\<close>

abbreviation slug_char :: "char \<Rightarrow> bool" where "slug_char c \<equiv> is_lower_alnum c \<or> c = CHR ''-''"

lemma set_squeeze: "c \<in> set (squeeze p rep s) \<Longrightarrow> c \<in> set rep \<or> \<not> p c"
  by (induction p rep s rule: squeeze.induct) (auto split: if_splits)

lemma slug_ok_slugify: "slug_ok (slugify v)"
proof -
  define s where "s = squeeze (\<lambda>c. \<not> is_lower_alnum c) ''-'' (lower v)"
  define t where "t = take 100 (rstrip_by (\<lambda>c. c = CHR ''-'') (dropWhile (\<lambda>c. c = CHR ''-'') s))"
  have "slug_char c" if "c \<in> set t" for c
  proof -
    have "c \<in> set s"
      using that by (auto simp: t_def rstrip_by_def dest!: in_set_takeD set_dropWhileD)
    then show ?thesis by (auto simp: s_def dest: set_squeeze)
  qed
  moreover have "length t \<le> 100" by (simp add: t_def)
  ultimately have "slug_ok t" if "t \<noteq> []" using that by (cases t) (auto simp: slug_ok_def list_all_iff)
  moreover have "slug_ok ''service''" by code_simp
  moreover have "slugify v = (if t = [] then ''service'' else t)" by (simp add: slugify_def s_def t_def Let_def)
  ultimately show ?thesis by simp
qed

lemma digit_slug_char: "d < 10 \<Longrightarrow> is_lower_alnum (digit_char d)"
  by (simp add: digit_char_def is_lower_alnum_def Let_def)

lemma nat_str_slug_chars: "list_all slug_char (nat_str n)"
  by (induction n rule: nat_str.induct) (subst nat_str.simps, auto simp: digit_slug_char)

lemma list_all_take: "list_all p xs \<Longrightarrow> list_all p (take n xs)"
  by (auto simp: list_all_iff dest: in_set_takeD)

lemma slug_ok_numbered:
  assumes "slug_ok slug"
  shows "slug_ok (take 100 (slug @ CHR ''-'' # nat_str n))"
proof -
  have "list_all slug_char (slug @ CHR ''-'' # nat_str n)" using assms nat_str_slug_chars by (auto simp: slug_ok_def)
  then have "list_all slug_char (take 100 (slug @ CHR ''-'' # nat_str n))" by (rule list_all_take)
  moreover have "take 100 (slug @ CHR ''-'' # nat_str n) \<noteq> []" using assms by (auto simp: slug_ok_def)
  ultimately show ?thesis by (simp add: slug_ok_def Suc_le_eq)
qed

lemma slug_ok_loop:
  "unique_slug_loop free slug n candidate = Some r \<Longrightarrow> slug_ok slug \<and> slug_ok candidate \<longrightarrow> slug_ok r"
  by (rule unique_slug_loop.raw_induct [where P = "\<lambda>free slug n candidate r. slug_ok slug \<and> slug_ok candidate \<longrightarrow> slug_ok r"])
    (auto split: if_splits simp: slug_ok_numbered simp del: take_append)

lemma slug_ok_unique: "unique_slug pid base reserved x db = Some (slug, reserved') \<Longrightarrow> slug_ok slug"
  using slug_ok_loop slug_ok_slugify by (fastforce simp: unique_slug_def Let_def)

lemma update_matched_rows [simp]:
  "mc_id (fst (update_matched rq cn m t c)) = mc_id c" "component_slug (fst (update_matched rq cn m t c)) = component_slug c"
  "mc_component_kind_id (fst (update_matched rq cn m t c)) = mc_component_kind_id c"
  "mc_group_id (fst (update_matched rq cn m t c)) = mc_group_id c"
  by (simp_all add: update_matched_def Let_def split: option.split)

lemma consistent_import_match:
  assumes "consistent (st_db st)"
  shows "consistent (st_db (import_match dc integ project rq m st))"
proof (cases "get_component (lc_id (mr_component m)) (st_db st)")
  case (Some c)
  then have c: "c \<in> set (db_components (st_db st))" by (auto simp: get_component_def dest: lookup_row_Some)
  have "consistent (save_component (fst (update_matched rq cn m t c)) (st_db st))" for cn t
    by (rule consistent_save_component [OF assms c]) simp_all
  then have saved: "consistent (save_component d (st_db st))" if "update_matched rq cn m t c = (d, parts)" for cn t d parts
    using that by (metis fst_conv)
  show ?thesis
    using Some assms saved by (auto simp: import_match_def Let_def split: sum.split prod.split)
qed (use assms in \<open>simp add: import_match_def\<close>)

lemma consistent_insert_component:
  assumes "consistent db" "\<not> insert_violates c db" "mc_project_id c \<in> pr_id ` set (db_projects db)" "mc_group_id c = None" "slug_ok (mc_slug c)"
  shows "consistent (insert_component c db)"
proof -
  have wf: "catalog_wf db" using assms(1) by (simp add: consistent_def)
  have new: "mc_id c \<notin> mc_id ` set (db_components db)" "component_slug c \<notin> component_slug ` set (db_components db)"
    "mc_component_kind_id c \<in> ck_id ` set (db_kinds db)"
    using assms(2) by (auto simp: insert_violates_def get_component_def lookup_row_None)
  then have "table_ok mc_id component_slug (db_components db @ [c])"
    using wf by (simp add: catalog_wf_def table_ok_def)
  moreover have "component_ok db c" using assms(3-5) new(3) by (simp add: component_ok_def)
  ultimately have "catalog_wf (insert_component c db)"
    using wf by (simp add: catalog_wf_def insert_component_def group_ok_def component_ok_def)
  with assms(1) children_insert(4) show ?thesis by (simp add: consistent_def)
qed

definition import_ready :: "uuid \<Rightarrow> import_state \<Rightarrow> bool" where
  "import_ready pid st \<longleftrightarrow> consistent (st_db st) \<and> pid \<in> pr_id ` set (db_projects (st_db st))"

lemma import_ready_match: "import_ready pid st \<Longrightarrow> import_ready pid (import_match dc integ project rq m st)"
proof -
  have "db_projects (st_db (import_match dc integ project rq m st)) = db_projects (st_db st)"
    by (auto simp: import_match_def add_item_def save_component_def Let_def split: option.split sum.split prod.split)
  then show "import_ready pid st \<Longrightarrow> import_ready pid (import_match dc integ project rq m st)"
    by (simp add: import_ready_def consistent_import_match)
qed

lemma import_ready_matches: "import_ready pid st \<Longrightarrow> import_ready pid (fold (import_match dc integ project rq) ms st)"
  by (induction ms arbitrary: st) (simp_all add: import_ready_match)

lemma import_ready_new:
  assumes "import_ready (pr_id project) st" "import_new cfg fresh_id dc integ project s st = Some st'"
  shows "import_ready (pr_id project) st'"
proof -
  have "consistent (insert_component (new_component cfg cid (pr_id project) s slug conf cn n) (st_db st))"
    if "\<not> insert_violates (new_component cfg cid (pr_id project) s slug conf cn n) (st_db st)" "slug_ok slug" for cid slug conf cn n
    using assms(1) that by (intro consistent_insert_component) (simp_all add: import_ready_def new_component_def Let_def)
  moreover have "db_projects (insert_component c db) = db_projects db" for c db by (simp add: insert_component_def)
  ultimately show ?thesis
    using assms by (auto simp: import_new_def import_ready_def add_item_def Let_def dest: slug_ok_unique split: option.splits sum.splits if_splits)
qed

lemma import_ready_new_all:
  "import_ready (pr_id project) st \<Longrightarrow> import_new_all cfg fresh_id dc integ project ss st = Some st' \<Longrightarrow> import_ready (pr_id project) st'"
  by (induction ss arbitrary: st) (auto dest: import_ready_new split: option.splits)

lemma consistent_import:
  assumes "consistent db" "import_servers cfg nf fresh_id dc pid rq db = Some (q, db')"
  shows "consistent db'"
proof (cases "get_project pid db")
  case (Some project)
  then have "pr_id project \<in> pr_id ` set (db_projects db)" by (auto simp: get_project_def dest: lookup_row_Some)
  then have ready: "st_db st = db \<Longrightarrow> import_ready (pr_id project) st" for st using assms(1) by (simp add: import_ready_def)
  have skip: "st_db (skip_new ss st) = st_db st" for ss st
  proof -
    have "st_db (fold (\<lambda>s. add_item s ''skipped_new'' None None) ss st) = st_db st" for st
      by (induction ss arbitrary: st) (simp_all add: add_item_def)
    then show ?thesis by (simp add: skip_new_def)
  qed
  have matches: "consistent (st_db (fold (import_match dc integ project rq) ms st))" if "st_db st = db" for integ ms st
    using import_ready_matches [OF ready [OF that]] by (simp add: import_ready_def)
  have news: "consistent (st_db st')" if "st_db st = db"
    "import_new_all cfg fresh_id dc integ project ss (fold (import_match dc integ project rq) ms st) = Some st'" for integ ms st ss st'
    using import_ready_new_all [OF import_ready_matches [OF ready [OF that(1)]] that(2)] by (simp add: import_ready_def)
  show ?thesis
    using assms Some matches
    by (auto simp: import_servers_def Let_def skip elim!: news [rotated] split: sum.splits if_splits option.splits)
qed (use assms in \<open>simp add: import_servers_def\<close>)

lemma consistent_upsert:
  assumes "consistent db"
  shows "consistent (snd (upsert cfg fx pid p db))"
proof -
  have add: "consistent (db\<lparr>db_integrations := rows\<rparr>)" if "\<forall>d \<in> set rows. dg_project_id d \<in> pr_id ` set (db_projects db)" for rows
    using assms that by (auto simp: consistent_def children_ok_def catalog_wf_def group_ok_def component_ok_def)
  have old: "\<forall>d \<in> set (db_integrations db). dg_project_id d \<in> pr_id ` set (db_projects db)"
    using assms by (simp add: consistent_def children_ok_def)
  show ?thesis
  proof (cases "get_project pid db")
    case (Some r)
    then have pid: "pid \<in> pr_id ` set (db_projects db)" using get_project_mem [of pid db] by simp
    have new: "consistent (db\<lparr>db_integrations := db_integrations db @ [d]\<rparr>)" if "dg_project_id d = pid" for d
      using old pid that by (intro add) auto
    have "consistent (db\<lparr>db_integrations := replace_row dg_project_id d (db_integrations db)\<rparr>)"
      if "lookup_row dg_project_id pid (db_integrations db) = Some e" "dg_project_id d = dg_project_id e" for d e
      using old pid that(2) lookup_row_key [OF that(1)] by (intro add) (auto dest!: replace_row_mem)
    with new Some assms show ?thesis
      by (auto simp: upsert_def get_integration_def Let_def split: sum.split option.split)
  qed (use assms in \<open>simp add: upsert_def get_integration_def\<close>)
qed

lemma consistent_datagate:
  assumes "consistent db" "datagate_handler cfg fresh_id de pid rq (db, w) = Some (q, db', w')"
  shows "consistent db'"
proof -
  have "consistent d" if "upsert cfg fx pid p db = (x, d)" for fx p x d
    using consistent_upsert [OF assms(1), of cfg fx pid p] that by simp
  note saved = this
  show ?thesis
  proof (cases rq)
    case (PostImport p)
    from import_handled [OF assms(2) [unfolded PostImport]] assms(1) show ?thesis by (auto dest: consistent_import)
  qed (use assms saved in \<open>auto simp: with_body_def split: prod.splits sum.splits\<close>)
qed

section \<open>Checks that report on their component\<close>

text \<open>The interface between the runner and the checks: the result of a check belongs to the component that was checked.\<close>

locale reporting_check =
  fixes check :: health_check
  assumes reports: "fst (check c ctx hw) = Inr r \<Longrightarrow> cr_monitored_component_id r = mc_id c"
begin

lemma consistent_run_check:
  assumes "consistent db" "run_check cfg check c allowed now (db, hw) = (q, db', hw')"
    and "\<exists>b \<in> set (db_components db). same_keys c b"
  shows "consistent db' \<and> (\<forall>b \<in> set (db_components db). \<exists>b' \<in> set (db_components db'). same_keys b' b)"
proof -
  obtain ms db1 where ms: "get_monitoring_settings cfg db = (ms, db1)" by fastforce
  note db1 = consistent_get_settings [OF assms(1) ms]
  obtain b where b: "b \<in> set (db_components db)" "same_keys c b" using assms(3) by blast
  obtain outcome hw1 where check: "check c (check_context cfg ms c allowed now db1) hw = (outcome, hw1)" by fastforce
  show ?thesis
  proof (cases outcome)
    case (Inl e)
    with assms(2) ms check db1 show ?thesis by (auto simp: run_check_def same_keys_def)
  next
    case (Inr r)
    let ?c = "c\<lparr>mc_last_checked_at := Some (cr_checked_at r)\<rparr>"
    have db': "db' = add_result r (save_component ?c db1)" using assms(2) ms check Inr by (simp add: run_check_def)
    have r: "cr_monitored_component_id r = mc_id c"
      using reports [of c _ hw] check Inr by (metis fst_conv)
    have saved: "consistent (save_component ?c db1)"
      using db1 b by (intro consistent_save_component [of db1 b]) (simp_all add: same_keys_def)
    moreover have "cr_monitored_component_id r \<in> mc_id ` set (db_components (save_component ?c db1))"
      using r b db1 by (simp add: save_component_def same_keys_def)
    ultimately have "consistent db'" unfolding db' by (rule consistent_add_result)
    moreover have "\<exists>x' \<in> set (db_components db'). same_keys x' x" if x: "x \<in> set (db_components db)" for x
    proof (cases "mc_id x = mc_id b")
      case True
      have "inj_on mc_id (set (db_components db))"
        using assms(1) by (simp add: consistent_def catalog_wf_def table_ok_def distinct_map)
      then have "x = b" using True x b(1) by (auto dest: inj_onD)
      moreover have "?c \<in> set (db_components db')"
        using b db1 by (force simp: db' add_result_def save_component_def replace_row_def same_keys_def)
      ultimately show ?thesis using b(2) by (intro bexI [of _ ?c]) (simp_all add: same_keys_def)
    next
      case False
      with x b(2) db1 have "x \<in> set (db_components db')"
        by (force simp: db' add_result_def save_component_def replace_row_def same_keys_def)
      then show ?thesis by (auto simp: same_keys_def)
    qed
    ultimately show ?thesis by blast
  qed
qed

lemma consistent_manual_check:
  assumes "consistent db"
  shows "consistent (fst (snd (run_manual_check cfg check cid now (db, hw))))"
proof (cases "find_component cid db")
  case (Inr c)
  then have c: "c \<in> set (db_components db)" by (auto simp: find_component_def get_component_def dest: lookup_row_Some split: option.splits)
  obtain q db' hw' where run: "run_check cfg check c None now (db, hw) = (q, db', hw')" by (metis prod_cases3)
  have "\<exists>b \<in> set (db_components db). same_keys c b" using c by (auto simp: same_keys_def)
  then have "consistent db'" using consistent_run_check [OF assms run] by blast
  with Inr run assms show ?thesis by (simp add: run_manual_check_def split: sum.split)
qed (use assms in \<open>simp add: run_manual_check_def\<close>)

lemma consistent_monitoring:
  assumes "consistent db"
  shows "consistent (fst (snd (monitoring_handler cfg check now rq (db, hw))))"
proof -
  obtain ms db1 where ms: "get_monitoring_settings cfg db = (ms, db1)" by fastforce
  note db1 = conjunct1 [OF consistent_get_settings [OF assms ms]]
  have upd: "consistent (snd (update_settings cfg p db))" for p
    using ms db1 assms by (auto simp: update_settings_def Let_def not_null_def consistent_settings_row)
  have adv: "consistent (snd (get_speed_test_advisory cfg pid db))" for pid
    using ms db1 assms by (auto simp: get_speed_test_advisory_def Let_def split: sum.split)
  show ?thesis
    using assms ms db1 upd adv consistent_purge [OF assms] consistent_manual_check [OF assms]
    by (cases rq) (auto simp: get_settings_def case_prod_beta split: sum.split)
qed

lemma consistent_run_checks:
  "consistent db \<Longrightarrow> \<forall>c \<in> set cs. \<exists>b \<in> set (db_components db). same_keys c b \<Longrightarrow>
    run_checks cfg check cs allowed clock (db, hw) = (q, db', hw') \<Longrightarrow> consistent db'"
proof (induction cs arbitrary: db hw q)
  case (Cons c cs)
  obtain p db1 hw1 where run: "run_check cfg check c (Some allowed) (clock (mc_id c)) (db, hw) = (p, db1, hw1)" by (metis prod_cases3)
  have "\<exists>b \<in> set (db_components db). same_keys c b" using Cons.prems(2) by simp
  note kept = consistent_run_check [OF Cons.prems(1) run this]
  then have rest: "\<forall>c \<in> set cs. \<exists>b \<in> set (db_components db1). same_keys c b"
    using Cons.prems(2) same_keys_trans by (metis list.set_intros(2))
  show ?case
  proof (cases p)
    case (Inl e)
    with Cons.prems(3) run kept show ?thesis by simp
  next
    case (Inr r)
    with Cons.prems(3) run obtain p2 where "run_checks cfg check cs allowed clock (db1, hw1) = (p2, db', hw')"
      by (auto split: sum.splits prod.splits)
    from Cons.IH [OF conjunct1 [OF kept] rest this] show ?thesis .
  qed
qed simp

lemma consistent_due_checks:
  assumes "consistent db"
    and "run_due_checks cfg sha check host_wan_cycle now_due now_pick clock (db, hw) = (q, db', hw')"
  shows "consistent db'"
proof -
  obtain due db1 where due: "list_due_components cfg now_due db = (due, db1)" by fastforce
  obtain ms db2 where ms: "get_monitoring_settings cfg db1 = (ms, db2)" by fastforce
  have db1: "consistent db1 \<and> db_components db1 = db_components db \<and> set due \<subseteq> set (db_components db)"
    using due assms(1) by (auto simp: list_due_components_def Let_def dest: consistent_get_settings split: prod.splits)
  with ms have db2: "consistent db2" "db_components db2 = db_components db" by (auto dest: consistent_get_settings)
  obtain w hw1 where w: "host_wan_cycle ms hw = (w, hw1)" by fastforce
  let ?allowed = "cycle_allowed sha (due_order due) ms now_pick db2"
  obtain p db3 hw3 where run: "run_checks cfg check (due_order due) ?allowed clock (db2, hw1) = (p, db3, hw3)" by (metis prod_cases3)
  have "\<forall>c \<in> set (due_order due). \<exists>b \<in> set (db_components db2). same_keys c b"
    using db1 db2(2) by (auto simp: due_order_def same_keys_def)
  from consistent_run_checks [OF db2(1) this run] assms due ms w run show ?thesis
    by (auto simp: run_due_checks_def Let_def split: sum.splits)
qed

lemma consistent_cycle:
  assumes "consistent db" "cw_check w = check"
    and "run_scheduler_cycle cfg digest sha w (sv, db, hw) = (q, sv', db', hw')"
  shows "consistent db'"
proof (cases "cw_fails w")
  case None
  obtain ms db1 where ms: "get_monitoring_settings cfg db = (ms, db1)" by fastforce
  obtain p db2 hw2 where run: "run_due_checks cfg sha (cw_check w) (cw_host_wan w) (cw_due w) (cw_pick w) (cw_clock w) (db1, hw) = (p, db2, hw2)"
    by (metis prod_cases3)
  have "consistent db2"
    using consistent_due_checks [OF conjunct1 [OF consistent_get_settings [OF assms(1) ms]] run [unfolded assms(2)]] .
  with assms(3) None ms run show ?thesis by (auto simp: run_scheduler_cycle_def Let_def split: sum.splits)
qed (use assms in \<open>simp add: run_scheduler_cycle_def\<close>)

end

text \<open>The checks of the model do.\<close>

lemma result_components [simp]:
  "cr_monitored_component_id (check_result rid c t0 out lat1 status m1 d) = mc_id c"
  "cr_monitored_component_id (error_result rid c t0 m2 lat1 tail) = mc_id c"
  "cr_monitored_component_id (failure_result rid c run e) = mc_id c"
  "cr_monitored_component_id (not_ready_result rid c run m2 d) = mc_id c"
  "cr_monitored_component_id (probed_result rid c run out m2 d d1 d2) = mc_id c"
  "cr_monitored_component_id (result_of rid c t0 out lat2 status m1 d) = mc_id c"
  by (simp_all add: check_result_def error_result_def failure_result_def not_ready_result_def probed_result_def result_of_def Let_def)

lemma tunnel_components:
  "openvpn_tunnel_check cfg run rid ctx c hw = (Inr r, hw') \<Longrightarrow> cr_monitored_component_id r = mc_id c"
  "xray_tunnel_check cfg run rid ctx c config u hw = (Inr r, hw') \<Longrightarrow> cr_monitored_component_id r = mc_id c"
  by (auto simp: openvpn_tunnel_check_def xray_tunnel_check_def Let_def split: option.splits sum.splits prod.splits if_splits)

lemma caught_component:
  assumes "\<And>r hw'. outcome = (Inr r, hw') \<Longrightarrow> cr_monitored_component_id r = mc_id c"
  shows "cr_monitored_component_id (fst (caught rid c run outcome)) = mc_id c"
  using assms by (auto simp: caught_def split: prod.split sum.split)

interpretation health_checks: reporting_check "run_health_check cfg json_loads happens" for cfg json_loads happens
proof
  fix c ctx hw r
  assume run: "fst (run_health_check cfg json_loads happens c ctx hw) = Inr r"
  show "cr_monitored_component_id r = mc_id c"
  proof (cases "mc_check_type c \<in> set VPN_CHECK_TYPES")
    case True
    have ov: "cr_monitored_component_id (fst (caught rid c v (openvpn_tunnel_check cfg v rid x c h))) = mc_id c" for rid v x h
      by (rule caught_component) (rule tunnel_components(1))
    have xr: "cr_monitored_component_id (fst (caught rid c v (xray_tunnel_check cfg v rid x c config u h))) = mc_id c" for rid v x config u h
      by (rule caught_component) (rule tunnel_components(2))
    from True run ov xr show ?thesis
      by (auto simp: run_health_check_def run_vpn_health_check_def run_openvpn_check_def run_xray_check_def Let_def
          split: if_splits sum.splits option.splits xray_refusal.splits)
  next
    case False
    with run show ?thesis
      by (auto simp: run_health_check_def run_http_health_check_def Let_def split: http_result.splits if_splits sum.splits prod.splits)
  qed
qed

lemma people_run_checks: "people (fst (snd (run_checks cfg check cs allowed clock (db, hw)))) = people db"
proof (induction cs arbitrary: db hw)
  case (Cons c cs)
  have "people d = people db" if "run_check cfg check c (Some allowed) (clock (mc_id c)) (db, hw) = (p, d, h)" for p d h
    using that by (auto simp: run_check_def Let_def dest: people_settings_pair split: prod.splits sum.splits)
  moreover have "people d' = people d" if "run_checks cfg check cs allowed clock (d, h) = (p, d', h')" for d h p d' h'
    using Cons.IH [of d h] that by simp
  ultimately show ?case by (auto split: prod.splits sum.splits)
qed simp

lemma people_cycle:
  assumes "run_scheduler_cycle cfg digest sha w (sv, db, hw) = (q, sv', db', hw')"
  shows "people db' = people db"
proof -
  have due: "people d' = people d" if "list_due_components cfg n d = (x, d')" for n d x d'
    using that by (auto simp: list_due_components_def Let_def dest: people_settings_pair split: prod.splits)
  have checks: "people d' = people d" if "run_checks cfg check cs allowed clock (d, h) = (p, d', h')" for check cs allowed clock d h p d' h'
    using people_run_checks [of cfg check cs allowed clock d h] that by simp
  have cycle: "people d' = people d"
    if "run_due_checks cfg sha check hwc n1 n2 clock (d, h) = (p, d', h')" for check hwc n1 n2 clock d h p d' h'
    using that by (auto simp: run_due_checks_def Let_def dest!: due checks people_settings_pair split: prod.splits sum.splits)
  show ?thesis
    using assms
    by (auto simp: run_scheduler_cycle_def Let_def dest!: cycle people_settings_pair split: option.splits prod.splits sum.splits)
qed

section \<open>The system\<close>

definition database_ok :: "database \<Rightarrow> bool" where
  "database_ok db \<longleftrightarrow> consistent db \<and> stored_settings_valid db \<and> accounts_wf db"

lemma content_fields:
  assumes "content db' = content db"
  shows "consistent db' = consistent db" "stored_settings_valid db' = stored_settings_valid db"
proof -
  have "db_settings db' = db_settings db" "db_projects db' = db_projects db" "db_groups db' = db_groups db" "db_kinds db' = db_kinds db"
    "db_components db' = db_components db" "db_results db' = db_results db" "db_events db' = db_events db" "db_samples db' = db_samples db"
    "db_incidents db' = db_incidents db" "db_updates db' = db_updates db" "db_integrations db' = db_integrations db"
    using assms by (cases db; cases db'; simp add: content_def)+
  then show "consistent db' = consistent db" "stored_settings_valid db' = stored_settings_valid db"
    by (simp_all add: consistent_def catalog_wf_def group_ok_def component_ok_def children_ok_def stored_settings_valid_def)
qed

lemma accounts_wf_people: "people db' = people db \<Longrightarrow> accounts_wf db' = accounts_wf db"
  by (simp add: people_def accounts_wf_def linked_subs_def role_exists_def)

lemma core_settings: "core db' = core db \<Longrightarrow> stored_settings_valid db' = stored_settings_valid db"
  by (simp add: core_def stored_settings_valid_def)

lemma core_admin:
  assumes "admin_handler cfg en now a rq (db, hw, w) = Some (q, db', hw', w')" "\<not> about_accounts rq" "\<nexists>r. rq = MonitoringRequest r"
  shows "core db' = core db"
proof (cases rq)
  case (ProjectRequest r)
  with assms show ?thesis by (cases r) (auto simp: in_state_def with_body_def snd_page split: sum.splits)
next
  case (KindRequest r)
  with assms show ?thesis by (cases r) (auto simp: in_state_def with_body_def snd_page split: sum.splits)
next
  case (GroupRequest r)
  with assms show ?thesis by (cases r) (auto simp: in_state_def with_body_def snd_page split: sum.splits)
next
  case (ComponentRequest r)
  with assms show ?thesis by (cases r) (auto simp: in_state_def with_body_def snd_page split: sum.splits)
next
  case (IncidentApiRequest r)
  with assms show ?thesis
    by (cases r rule: incident_roles.cases) (auto simp: in_state_def with_body_def incident_row_def split: sum.splits)
next
  case (DatagateRequest i r)
  with assms show ?thesis by (auto dest: core_datagate)
qed (use assms in auto)

lemma admin_handler_ok:
  assumes "admin_handler cfg en now a rq (db, hw, w) = Some (q, db', hw', w')" "database_ok db"
    and "fresh_catalog (ae_fresh_id en)" "ae_check en = run_health_check cfg0 json_loads happens"
    and "\<not> isl (validate_speed_test_url_template (default_speed_test_url_template cfg))"
  shows "database_ok db'"
proof (cases "about_accounts rq")
  case True
  then obtain r where r: "rq = AccountRequest r" by (cases rq) simp_all
  with assms(1) have "db' = snd (account_handler (ae_created en) r db)" by (auto simp: in_state_def)
  with content_fields [OF content_account_handler] accounts_wf_admin assms(2) show ?thesis by (simp add: database_ok_def)
next
  case False
  have ok: "consistent db" "stored_settings_valid db" "accounts_wf db" using assms(2) by (simp_all add: database_ok_def)
  have "accounts_wf db'" using people_admin [OF assms(1) False] ok(3) accounts_wf_people by blast
  moreover have "consistent db' \<and> stored_settings_valid db'"
  proof (cases rq)
    case (MonitoringRequest r)
    with assms(1) have "db' = db \<or> db' = fst (snd (monitoring_handler cfg (ae_check en) now r (db, hw)))"
      by (auto split: if_splits prod.splits)
    with health_checks.consistent_monitoring [OF ok(1)] monitoring_handler_settings [OF ok(2) assms(5)] ok assms(4) show ?thesis by metis
  next
    case (DatagateRequest i r)
    with assms(1) ok(1) have "consistent db'" by (auto dest: consistent_datagate)
    with core_settings [OF core_admin [OF assms(1) False]] DatagateRequest ok(2) show ?thesis by simp
  next
    case (IncidentApiRequest r)
    with assms(1) have "db' = snd (incident_handler (ae_fresh_id en) now r db)" by (auto simp: in_state_def)
    with consistent_incident_handler [OF ok(1)] core_settings [OF core_admin [OF assms(1) False]] IncidentApiRequest ok(2)
    show ?thesis by simp
  next
    case (AccountRequest r)
    with False show ?thesis by simp
  next
    case Dashboard
    with assms(1) ok show ?thesis by simp
  qed (use assms(1) consistent_catalog_requests [OF assms(3) ok(1)] core_settings [OF core_admin [OF assms(1) False]] ok(2)
      in \<open>auto simp: in_state_def\<close>)
  ultimately show ?thesis by (simp add: database_ok_def)
qed

lemma api_serve_ok:
  assumes "api_serve cfg av require_https ar rq (db, hw, w) = Some (answer, db', hw', w')" "database_ok db"
    and "fresh_catalog (ae_fresh_id (av_admin av))" "fresh_account_ids (av_crypto av)"
    and "ae_check (av_admin av) = run_health_check cfg0 json_loads happens"
    and "\<not> isl (validate_speed_test_url_template (default_speed_test_url_template cfg))"
  shows "database_ok db'"
  using api_serve_state [OF assms(1)]
proof (elim disjE exE)
  fix q assume route: "api_route cfg av ar rq (db, hw, w) = Some (q, db', hw', w')"
  show ?thesis
  proof (cases rq)
    case (AuthApi r)
    let ?db = "snd (auth_route cfg (av_crypto av) (av_outside av) (ar_limit ar) (ar_http ar) (ar_now ar) r db)"
    have "accounts_step db ?db" by (rule step_auth_route [OF assms(4)])
    moreover have "db' = ?db" using route AuthApi by (auto split: prod.splits)
    ultimately show ?thesis
      using accounts_wf_step content_fields [OF content_auth_route] assms(2) by (auto simp: database_ok_def)
  next
    case (PublicApi r)
    with route assms(2) show ?thesis by auto
  next
    case (AdminApi r)
    with route obtain p where p: "admin_route cfg (av_crypto av) (av_admin av) (ar_http ar) (ar_now ar) r (db, hw, w) = Some (p, db', hw', w')"
      by auto
    show ?thesis
    proof (cases "require_access_roles cfg (av_crypto av) (admin_roles r) (ar_http ar) (ar_now ar) db")
      case (Inr a)
      with p have "admin_handler cfg (av_admin av) (ar_now ar) a r (db, hw, w) = Some (p, db', hw', w')" by (simp add: admin_route_def)
      from admin_handler_ok [OF this assms(2,3,5,6)] show ?thesis .
    qed (use p assms(2) in \<open>simp add: admin_route_def\<close>)
  qed
qed (use assms(2) in simp)

text \<open>An event is a request or a cycle of the worker, with what happens during its checks.\<close>

datatype system_event =
    Request arrival api_request "MonitoredComponent \<Rightarrow> check_run"
  | Cycle cycle_world "MonitoredComponent \<Rightarrow> check_run"

record 'w system_env =
  se_api :: "'w api_env"
  se_require_https :: bool
  se_json_loads :: "string \<Rightarrow> string + json"
  se_digest :: "dict \<Rightarrow> string"
  se_sha256_hex :: "string \<Rightarrow> string"

record 'w system =
  sy_db :: database
  sy_api :: "host_wan \<times> 'w" \<comment> \<open>the state of the API process and of the DataGate service\<close>
  sy_worker :: "supervisor \<times> host_wan" \<comment> \<open>the state of the worker process\<close>

fun system_step :: "settings \<Rightarrow> 'w system_env \<Rightarrow> system_event \<Rightarrow> 'w system \<Rightarrow> 'w system option" where
  "system_step cfg se (Request ar rq happens) sy =
     (let av = se_api se;
          av = av\<lparr>av_admin := (av_admin av)\<lparr>ae_check := run_health_check cfg (se_json_loads se) happens\<rparr>\<rparr>
      in map_option (\<lambda>(answer, db, api). sy\<lparr>sy_db := db, sy_api := api\<rparr>)
           (api_serve cfg av (se_require_https se) ar rq (sy_db sy, sy_api sy)))"
| "system_step cfg se (Cycle w happens) sy =
     (case run_scheduler_cycle cfg (se_digest se) (se_sha256_hex se) (w\<lparr>cw_check := run_health_check cfg (se_json_loads se) happens\<rparr>)
             (fst (sy_worker sy), sy_db sy, snd (sy_worker sy)) of
        (q, sv, db, hw) \<Rightarrow> Some (sy\<lparr>sy_db := db, sy_worker := (sv, hw)\<rparr>))"

fun system_run :: "settings \<Rightarrow> 'w system_env \<Rightarrow> system_event list \<Rightarrow> 'w system \<Rightarrow> 'w system option" where
  \<comment> \<open>\<open>None\<close>: an import in it never returns\<close>
  "system_run cfg se [] sy = Some sy"
| "system_run cfg se (e # events) sy =
     (case system_step cfg se e sy of None \<Rightarrow> None | Some sy \<Rightarrow> system_run cfg se events sy)"

lemma system_step_ok:
  assumes "system_step cfg se e sy = Some sy'" "database_ok (sy_db sy)" "supervisor_inv (fst (sy_worker sy))"
    and "fresh_catalog (ae_fresh_id (av_admin (se_api se)))" "fresh_account_ids (av_crypto (se_api se))"
    and "\<not> isl (validate_speed_test_url_template (default_speed_test_url_template cfg))"
  shows "database_ok (sy_db sy') \<and> supervisor_inv (fst (sy_worker sy'))"
proof (cases e)
  case (Request ar rq happens)
  let ?av = "(se_api se)\<lparr>av_admin := (av_admin (se_api se))\<lparr>ae_check := run_health_check cfg (se_json_loads se) happens\<rparr>\<rparr>"
  obtain hw w where api: "sy_api sy = (hw, w)" by fastforce
  from assms(1) Request obtain answer db api' where run: "api_serve cfg ?av (se_require_https se) ar rq (sy_db sy, sy_api sy) = Some (answer, db, api')"
    and sy': "sy' = sy\<lparr>sy_db := db, sy_api := api'\<rparr>" by (auto simp: Let_def)
  obtain hw' w' where api': "api' = (hw', w')" by fastforce
  have "database_ok db"
    by (rule api_serve_ok [OF run [unfolded api api'] assms(2)]) (use assms(4-6) in simp_all)
  with sy' assms(3) show ?thesis by simp
next
  case (Cycle w happens)
  let ?w = "w\<lparr>cw_check := run_health_check cfg (se_json_loads se) happens\<rparr>"
  obtain q sv db hw where run: "run_scheduler_cycle cfg (se_digest se) (se_sha256_hex se) ?w (fst (sy_worker sy), sy_db sy, snd (sy_worker sy))
      = (q, sv, db, hw)" by (metis prod_cases4)
  have sy': "sy' = sy\<lparr>sy_db := db, sy_worker := (sv, hw)\<rparr>" using assms(1) Cycle run by simp
  have "consistent db"
    by (rule health_checks.consistent_cycle [OF _ _ run]) (use assms(2) in \<open>simp_all add: database_ok_def\<close>)
  moreover have "accounts_wf db" using accounts_wf_people [OF people_cycle [OF run]] assms(2) by (simp add: database_ok_def)
  moreover have "stored_settings_valid db" using cycle_settings [OF _ assms(6) run] assms(2) by (simp add: database_ok_def)
  moreover have "supervisor_inv sv" using cycle_pool [OF run] assms(3) sync_inv by metis
  ultimately show ?thesis by (simp add: sy' database_ok_def)
qed

text \<open>
  C1. The system keeps its database consistent: whatever requests the API receives, by whomever, and however they interleave with
  the cycles of the worker and with what happens during the checks, identifiers, slugs and addresses stay unique, slugs well formed,
  every reference between rows intact, the stored settings within their bounds and every account with roles that exist; and the
  worker keeps exactly one thread for each tunnel it runs.
\<close>
theorem system_keeps_database_consistent:
  assumes "fresh_catalog (ae_fresh_id (av_admin (se_api se)))" "fresh_account_ids (av_crypto (se_api se))"
    and "\<not> isl (validate_speed_test_url_template (default_speed_test_url_template cfg))"
    and "database_ok (sy_db sy)" "supervisor_inv (fst (sy_worker sy))" "system_run cfg se events sy = Some sy'"
  shows "database_ok (sy_db sy') \<and> supervisor_inv (fst (sy_worker sy'))"
  using assms(4-6)
proof (induction events arbitrary: sy)
  case (Cons e events)
  then obtain sy1 where step: "system_step cfg se e sy = Some sy1" and run: "system_run cfg se events sy1 = Some sy'"
    by (auto split: option.splits)
  from system_step_ok [OF step Cons.prems(1,2) assms(1-3)] Cons.IH [OF _ _ run] show ?case by blast
qed simp

section \<open>A system at work\<close>

definition sample_system_env :: "unit admin_env \<Rightarrow> unit system_env" where
  "sample_system_env en = \<lparr>se_api = (plain_api en)\<lparr>av_admin := en\<lparr>ae_fresh_id := catalog_ids\<rparr>\<rparr>, se_require_https = False,
     se_json_loads = (\<lambda>_. Inl ''''), se_digest = (\<lambda>_. []), se_sha256_hex = (\<lambda>s. s)\<rparr>"

definition sample_system :: "unit system" where
  "sample_system = \<lparr>sy_db = fst user_state, sy_api = (fresh_process None, ()), sy_worker = (new_supervisor, fresh_process None)\<rparr>"

lemma sample_system_ok: "database_ok (sy_db sample_system)"
  using user_state_wf
  by (simp add: sample_system_def database_ok_def consistent_def catalog_wf_def table_ok_def children_ok_def stored_settings_valid_def
      user_state_def role_database_def empty_database_def)

lemma cycles_return: "\<exists>sy'. system_step cfg se (Cycle w happens) sy = Some sy'"
  by (simp split: prod.split)

lemma account_requests_step: "\<exists>sy'. system_step cfg se (Request ar (AdminApi (AccountRequest q)) happens) sy = Some sy'"
proof -
  let ?av = "(se_api se)\<lparr>av_admin := (av_admin (se_api se))\<lparr>ae_check := run_health_check cfg (se_json_loads se) happens\<rparr>\<rparr>"
  obtain answer st where "api_serve cfg ?av (se_require_https se) ar (AdminApi (AccountRequest q)) (sy_db sy, sy_api sy) = Some (answer, st)"
    using account_requests_return(2) by metis
  then show ?thesis by (cases st) (simp add: Let_def)
qed

lemma system_keeps_database_consistent_witness:
  "\<forall>en h. \<exists>sy. system_run sample_cfg (sample_system_env en)
      [Cycle (away\<lparr>cw_fails := None\<rparr>) h, Request viewer_arrival (AdminApi (AccountRequest (PutRoles ''a1'' [''admin'']))) h] sample_system = Some sy
    \<and> database_ok (sy_db sy)"
proof (intro allI)
  fix en h
  let ?se = "sample_system_env en"
  let ?rq = "AdminApi (AccountRequest (PutRoles ''a1'' [''admin'']))"
  obtain sy1 where one: "system_step sample_cfg ?se (Cycle (away\<lparr>cw_fails := None\<rparr>) h) sample_system = Some sy1" using cycles_return by metis
  obtain sy2 where "system_step sample_cfg ?se (Request viewer_arrival ?rq h) sy1 = Some sy2"
    using account_requests_step by metis
  with one have run: "system_run sample_cfg ?se [Cycle (away\<lparr>cw_fails := None\<rparr>) h, Request viewer_arrival ?rq h] sample_system = Some sy2" by simp
  have "fresh_catalog (ae_fresh_id (av_admin (se_api ?se)))" "fresh_account_ids (av_crypto (se_api ?se))"
    using catalog_ids_fresh route_crypto_fresh(1) by (simp_all add: sample_system_env_def plain_api_def)
  moreover have "\<not> isl (validate_speed_test_url_template (default_speed_test_url_template sample_cfg))" by code_simp
  moreover have "supervisor_inv (fst (sy_worker sample_system))" using supervisor_inv_new by (simp add: sample_system_def)
  ultimately have "database_ok (sy_db sy2)"
    using system_keeps_database_consistent [OF _ _ _ sample_system_ok _ run] by blast
  with run show "\<exists>sy. system_run sample_cfg ?se [Cycle (away\<lparr>cw_fails := None\<rparr>) h, Request viewer_arrival ?rq h] sample_system = Some sy \<and> database_ok (sy_db sy)"
    by blast
qed

section \<open>A component that leaves its incidents behind\<close>

definition with_incident :: database where
  "with_incident = two_projects\<lparr>db_incidents := [\<lparr>in_id = ''x'', in_project_id = ''i'', in_monitored_component_id = Some ''c1'',
     in_title = ''T'', in_starts_at = 0, in_ends_at = None, in_created_at = 0\<rparr>]\<rparr>"

definition after_move :: database where
  "after_move = snd (update_component ''c1'' (no_change\<lparr>cu_project_id := Some (Some ''p2'')\<rparr>) with_incident)"

lemma moved_component_keeps_foreign_incidents:
  \<comment> \<open>the reference was allowed, is kept, and would be refused now\<close>
  "map (\<lambda>i. (in_project_id i, in_monitored_component_id i)) (db_incidents after_move) = [(''i'', Some ''c1'')]
   \<and> map_option mc_project_id (get_component ''c1'' after_move) = Some ''p2''
   \<and> resolve_component ''i'' (Some ''c1'') with_incident = Inr ()
   \<and> resolve_component ''i'' (Some ''c1'') after_move = Inl (HTTPException 400 ''Service not found in this project'')"
  by code_simp

end
