(* ===== verification/Spec2Isabelle.thy ===== *)
theory Spec2Isabelle
  imports UptimeStats NetworkEnrich NetworkSummary Monitoring DayStats Timeline TunnelMetrics VpnSupervisor Auth Middleware OpenVpnSession PingSampler MonitoringAdmin DatagateService AdminApi OpenApi Worker SystemSafety
begin

text \<open>
  Verification library of the StatusGate backend: the API and the worker of a status page, under \<open>src/app\<close>. The API (FastAPI)
  signs accounts in, lets them administer projects, components, incidents and monitoring, and publishes the status; the worker
  checks the components, over HTTP or through VPN tunnels, and keeps persistent tunnels up in threads of its own. Both processes
  share one PostgreSQL database; each keeps its own host WAN state, which they exchange through a file.

  Reading the library. A function of the source is a definition of the same name; where a class has several methods of one name,
  or the name is taken in Isabelle, the definition carries a telling suffix or prefix. Each theory says at its top which files it
  models. Helper definitions stand next to the function they are a part of.

  \<^bold>\<open>Ground\<close>
  \<^item> \<open>Prelude\<close>, \<open>PyFloat\<close>, \<open>PyJson\<close>, \<open>PyText\<close>, \<open>PyTime\<close>: what the code uses of Python's standard library (strings, \<open>float\<close> and
    \<open>round\<close>, \<open>json\<close> values, \<open>re\<close> and \<open>urllib.parse\<close>, \<open>datetime\<close>), with the round trips of dates and the error of rounding.
  \<^item> \<open>Enums\<close>, \<open>Models\<close>, \<open>Database\<close>: the enumerations and rows of \<open>models/\<close>, a database as a list of rows per table, the shared
    queries of \<open>repositories/\<close>, and the contract of a keyed table (locale \<open>keyed_table\<close>), met by five tables.

  \<^bold>\<open>Speed tests\<close>
  \<^item> \<open>SpeedTestMemory\<close> (\<open>speed_test_memory.py\<close>), \<open>SpeedTestConfig\<close> (\<open>speed_test_config.py\<close>), \<open>HostWan\<close> (\<open>host_wan_speed.py\<close>),
    \<open>SpeedMeasure\<close> (\<open>speed_measure.py\<close>), \<open>NetworkEnrich\<close> (\<open>network_enrich.py\<close>), \<open>NetworkSummary\<close>
    (\<open>public_network_summary.py\<close>): what is measured, when, what is remembered of it, and what of it is public. Shown: a test is due
    exactly when its interval has passed, with the exceptions of the code; the live slot spaces live tests (locale
    \<open>spaced_grants\<close>); enriching the details of a check never loses a known success; a measurement reports what was
    transferred; a good baseline is never replaced by a failed one; a measured rate is the true one up to rounding.

  \<^bold>\<open>Checks\<close>
  \<^item> \<open>HttpCheck\<close> (\<open>health_check_service.py\<close>, \<open>http_client.py\<close>, \<open>http_probe.py\<close>, \<open>host_egress_ip.py\<close>), \<open>XrayConfig\<close>
    (\<open>xray_config.py\<close>), \<open>TunIface\<close> (\<open>tun_iface.py\<close>, \<open>vpn_netns.py\<close>, \<open>vpn_process_utils.py\<close>), \<open>VpnCheck\<close>
    (\<open>vpn_check_service.py\<close>): one check of a component, ending in \<open>run_health_check\<close>. Shown: the verdict of a VPN check says what
    happened, sessions are counted in balance, share links survive being parsed.
  \<^item> \<open>Monitoring\<close> (\<open>monitoring_service.py\<close>): which components are due, one check with its context, a cycle of checks. It takes the
    check as an argument; \<open>VpnCheck.run_health_check\<close> is the one the system runs. Shown: a cycle checks every due component once and
    runs at most one live speed test.
  \<^item> \<open>OpenVpnSession\<close> (\<open>openvpn_session.py\<close>), \<open>PingSampler\<close> (\<open>tunnel_ping_sampler.py\<close>), \<open>VpnSupervisor\<close>
    (\<open>vpn_session_supervisor.py\<close>): persistent tunnels. Shown: starting and stopping a session takes and returns everything, a worker
    has one session at most and never leaks one, waits before each next turn and backs off after failures, and the pool of workers
    is refined from the map of desired configurations (locale \<open>worker_pool\<close>), with a new thread exactly where the configuration is
    new or changed (\<open>numbered_pool\<close>).
  \<^item> \<open>Worker\<close> (\<open>worker/__main__.py\<close>): the loop around it all, which survives what its cycles raise.

  \<^bold>\<open>Public status\<close>
  \<^item> \<open>UptimeStats\<close> (\<open>uptime_stats.py\<close>), \<open>DayStats\<close>, \<open>Timeline\<close>, \<open>TunnelMetrics\<close> (\<open>public_status_service.py\<close>): the statistics of a day,
    its downtime, the bars, groups, incidents, alerts and tunnels of the public pages. Shown: downtime is the time in
    which the last check reports an outage, up to the last incomplete second of each outage; a day starts from the state at midnight
    when the day before has a check, and as "not down" when it has none; the timeline is complete.

  \<^bold>\<open>Accounts and administration\<close>
  \<^item> \<open>RefreshTokens\<close> (\<open>refresh_token_service.py\<close>), \<open>Auth\<close> (\<open>auth_service.py\<close>, \<open>account_admin_service.py\<close>, \<open>deps.py\<close>), \<open>AuthRoutes\<close>
    (\<open>routes/auth.py\<close>, \<open>cookies.py\<close>, \<open>google_token.py\<close>): a refresh token works once (locale \<open>single_use\<close>), a password alone never
    passes the second factor, logging out ends every session, the cookies of a sign-in work.
  \<^item> \<open>Incidents\<close> (\<open>incident_service.py\<close>), \<open>Catalog\<close> (\<open>catalog_service.py\<close> and its schemas), \<open>MonitoringAdmin\<close>
    (\<open>monitoring_admin_service.py\<close>): keys, slugs and references stay intact; what was created, changed or deleted is what is
    read.
  \<^item> \<open>Matcher\<close>, \<open>DatagateClient\<close>, \<open>DatagateImport\<close>, \<open>DatagateService\<close> (\<open>services/datagate/\<close>): the import of VPN servers from the
    DataGate service: matching joins like with like, an import stays within its project, the base URL is checked.
  \<^item> \<open>Middleware\<close> (\<open>middleware/\<close>), \<open>OpenApi\<close> (\<open>core/openapi.py\<close>), \<open>AdminApi\<close>, \<open>Api\<close> (\<open>api/routes/\<close>, \<open>main.py\<close>): an \<open>admin_request\<close>, an
    \<open>auth_request\<close> or a \<open>public_request\<close> is a value, \<open>api_route\<close> its route with roles, bounds and body checks, and \<open>api_serve\<close> the
    whole way through the middleware and back.

  \<^bold>\<open>The whole\<close>
  \<^item> \<open>ApiSafety\<close>: over any sequence of requests to the API, once there is an account, only an administrator changes rights.
  \<^item> \<open>SystemSafety\<close>: a \<open>system\<close> is the database, the state of the API process and that of the worker; an event is a request or a
    cycle of the worker. Whatever events happen in whatever order, the database stays consistent.

  \<^bold>\<open>Conventions\<close>
  \<^item> Text is a list of bytes: ASCII, and UTF-8 where the code handles other text. A UUID is its canonical text. A row is a record of
    the columns some code reads; the column \<open>created_at\<close> of the rows that do not keep it is a function of the identifier.
  \<^item> An instant is a number of microseconds since 1970 in UTC, a date a number of days; a \<open>datetime\<close> without a zone is taken as UTC
    where the code says so. Days are unbounded: the \<open>OverflowError\<close> of Python beyond the year 9999 is left out. A JWT expires at a whole
    second, as PyJWT stores it. The clock is an argument: a request reads it once, a cycle as often as \<open>cycle_world\<close> has readings.
  \<^item> A \<open>float\<close> is the rational it denotes, each operation followed by the rounding \<open>fl\<close> to 53 bits with an unbounded exponent: the
    magnitudes of the program stay far from overflow. Infinities and NaN do not occur; texts that denote them are read as failures.
  \<^item> An exception is a value: \<open>'a res\<close> is \<open>py_exn + 'a\<close>. An operation that raises leaves the database as its rollback does.
  \<^item> \<open>ORDER BY\<close> is a stable sort: rows that tie come in the order of the table. PostgreSQL promises no order for them, so what is said
    of pages (\<open>pages_cover_lists\<close>) holds for a server that keeps to one order while nothing is written.
  \<^item> Calls of the database succeed, but for violated constraints (\<open>IntegrityError\<close>) and the cycles that \<open>cw_fails\<close> lets fail. Each
    request and each check is one step: its transaction is not interleaved with another. Sessions do not flush by themselves
    (\<open>autoflush=False\<close>), so a query does not see the rows added since the last flush.
  \<^item> Concurrency: the events of the system, the turns of a worker thread and the windows of a sampler are lists; what happens outside
    during each of them is a record that the list carries. Within a step a lock makes the function atomic, as in the code. The
    timeout of \<open>Thread.join\<close> is left out: a worker that was told to stop is taken to have ended.

  \<^bold>\<open>What is outside\<close> is an argument, and what a proof needs of it is a named hypothesis that a witness instantiates: the hashes, random
  generators, one-time codes and JWT signatures (\<open>crypto\<close>), Google's tokens and pydantic's check of an address (\<open>auth_outside\<close>), the
  text normalisation of \<open>unicodedata\<close>, Fernet, the JSON library (\<open>json_codec\<close>), the answers of \<open>httpx\<close>, \<open>curl\<close>, \<open>ping\<close>, \<open>ip\<close> and
  OpenVPN, the DataGate service, the pydantic encoding of an answer (\<open>api_env\<close>). An import is given the client's answers.

  \<^bold>\<open>Loops.\<close> Loops over data are structural. The search for a free slug has no bound in the code and is a \<open>partial_function\<close>; it ends
  because a project has finitely many slugs (\<open>unique_slug_ends\<close>). The loop over dates takes the number of its days as fuel, which is
  the length of the range. The threads that run until they are told to stop take the list of their turns, and what they do before the
  end of the list is what they do in that many turns; each theorem about them holds for every list. Following \<open>has_next\<close> takes a
  number of pages, and \<open>pages_cover_lists\<close> says how many are enough.

  \<^bold>\<open>Not modelled.\<close> The SQLAlchemy engine and its generic queries (\<open>database.py\<close>): the lists of rows stand for them. The reading of the
  settings from the environment (\<open>config.py\<close>): settings are a record, with the checks the code makes on them. \<open>totp.py\<close>, which only
  calls \<open>pyotp\<close> and \<open>qrcode\<close>. The migrations of \<open>src/alembic\<close>, the script \<open>seed_demo_timeline.py\<close>, and the tables of
  \<open>models/subscription.py\<close>, which no code uses. Logging is left out everywhere.
\<close>

end
